(* ===== verification/Legacy_Prelude.thy ===== *)
theory Legacy_Prelude
  imports Main "HOL-Library.Word"
begin

text \<open>
  The vocabulary every component of the model shares: the machine integers of the C++ code
  (\<open>uint8\<close> \<dots> \<open>uint64\<close> as words, \<open>int32\<close> as a 32 bit word read with \<open>sint\<close>), the faults
  that stand for an \<open>ASSERT\<close>, a bad memory access or a trap, the sequencing of operations
  that may fault, and the generic facts on lists and words the component theories use.
\<close>

unbundle bit_operations_syntax

type_synonym u8 = "8 word"
type_synonym u16 = "16 word"
type_synonym u32 = "32 word"
type_synonym u64 = "64 word"
type_synonym i32 = "32 word"
type_synonym bytes = "8 word list"

subsection \<open>Faults\<close>

text \<open>
  \<open>AssertFailed\<close>: an \<open>ASSERT\<close>/\<open>assert\<close> of the code does not hold. \<open>OutOfBounds\<close>: an array
  access outside its object. \<open>NullDeref\<close>: a member access through a null pointer.
  \<open>UseAfterFree\<close>: an access to an object that was deleted. \<open>DivByZero\<close>: an integer division
  by zero. \<open>UndefConv\<close>: a floating point value converted to a 32 bit integer it does not fit.
\<close>

datatype fault = AssertFailed | OutOfBounds | NullDeref | UseAfterFree | DivByZero | UndefConv

type_synonym 'a res = "fault + 'a"

definition bindR :: "'a res \<Rightarrow> ('a \<Rightarrow> 'b res) \<Rightarrow> 'b res" where
  "bindR r f = (case r of Inl e \<Rightarrow> Inl e | Inr x \<Rightarrow> f x)"

lemma bindR_Inl [simp]: "bindR (Inl e) f = Inl e"
  by (simp add: bindR_def)

lemma bindR_Inr [simp]: "bindR (Inr x) f = f x"
  by (simp add: bindR_def)

lemma bindR_eq_Inr: "bindR r f = Inr y \<longleftrightarrow> (\<exists>x. r = Inr x \<and> f x = Inr y)"
  by (cases r) auto

lemma bindR_assoc: "bindR (bindR r f) g = bindR r (\<lambda>x. bindR (f x) g)"
  by (cases r) auto

lemma bindR_cong [fundef_cong]:
  "r = r' \<Longrightarrow> (\<And>x. r' = Inr x \<Longrightarrow> f x = f' x) \<Longrightarrow> bindR r f = bindR r' f'"
  by (cases r') auto

text \<open>Running the elements of a list one after the other, stopping at the first fault.\<close>

fun foldR :: "('a \<Rightarrow> 's \<Rightarrow> 's res) \<Rightarrow> 'a list \<Rightarrow> 's \<Rightarrow> 's res" where
  "foldR f [] s = Inr s"
| "foldR f (x # xs) s = bindR (f x s) (foldR f xs)"

lemma foldR_append: "foldR f (xs @ ys) s = bindR (foldR f xs s) (foldR f ys)"
proof (induction xs arbitrary: s)
  case Nil
  then show ?case by simp
next
  case (Cons x xs)
  then show ?case by (cases "f x s") auto
qed

lemma foldR_invariant:
  assumes step: "\<And>x s t. x \<in> set xs \<Longrightarrow> P s \<Longrightarrow> f x s = Inr t \<Longrightarrow> P t"
  shows "P s \<Longrightarrow> foldR f xs s = Inr t \<Longrightarrow> P t"
  using step
proof (induction xs arbitrary: s)
  case Nil
  then show ?case by simp
next
  case (Cons x xs)
  then obtain u where "f x s = Inr u" and "foldR f xs u = Inr t"
    by (auto simp: bindR_eq_Inr)
  with Cons show ?case
    by (metis list.set_intros)
qed

subsection \<open>Writing a block into an array\<close>

text \<open>\<open>memcpy(&storage[pos], src, len)\<close> on the contents of an array.\<close>

definition overwrite :: "nat \<Rightarrow> 'a list \<Rightarrow> 'a list \<Rightarrow> 'a list" where
  "overwrite pos src xs = take pos xs @ src @ drop (pos + length src) xs"

lemma length_overwrite [simp]:
  "pos + length src \<le> length xs \<Longrightarrow> length (overwrite pos src xs) = length xs"
  by (simp add: overwrite_def)

lemma overwrite_end [simp]: "overwrite (length xs) src xs = xs @ src"
  by (simp add: overwrite_def)

lemma overwrite_read:
  assumes "pos + length src \<le> length xs"
  shows "take (length src) (drop pos (overwrite pos src xs)) = src"
proof -
  have "length (take pos xs) = pos"
    using assms by simp
  then have "drop pos (overwrite pos src xs) = src @ drop (pos + length src) xs"
    by (simp add: overwrite_def)
  then show ?thesis
    by simp
qed

lemma nth_overwrite:
  assumes "pos + length src \<le> length xs" "i < length xs"
  shows "overwrite pos src xs ! i =
    (if pos \<le> i \<and> i < pos + length src then src ! (i - pos) else xs ! i)"
  using assms by (auto simp: overwrite_def nth_append min_def)

subsection \<open>Words\<close>

lemma word_xor_cancel [simp]: "((x::'a::len word) XOR k) XOR k = x"
  by (simp add: xor.assoc)

lemma word_xor_eq_iff: "(x::'a::len word) XOR k = y XOR k \<longleftrightarrow> x = y"
  by (metis word_xor_cancel)

lemma word_xor_eq_0_iff: "(x::'a::len word) XOR k = 0 \<longleftrightarrow> x = k"
  by (metis word_xor_cancel xor.left_neutral xor_self_eq)

lemma unat_ucast_mod:
  "unat (ucast (w :: 'a::len word) :: 'b::len word) = unat w mod 2 ^ LENGTH('b)"
  by (simp only: unsigned_ucast_eq take_bit_eq_mod)

lemma unat_of_nat_small: "n < 2 ^ LENGTH('a) \<Longrightarrow> unat (of_nat n :: 'a::len word) = n"
  by (simp add: unat_of_nat)

end
