(* ===== verification/Encoding.thy ===== *)
theory Encoding
  imports Legacy_Prelude
begin

text \<open>
  The byte obfuscation of the wire format (\<open>src/shared/Encoding.h\<close>, \<open>Encoding.cpp\<close>):
  every scalar the server writes is combined with a constant by exclusive or. A
  \<open>std::string\<close> is the list of its bytes.
\<close>

definition UINT8_ENCODER :: u8 where "UINT8_ENCODER = 0xAD"
definition UINT16_ENCODER :: u16 where "UINT16_ENCODER = 0xADAD"
definition UINT32_ENCODER :: u32 where "UINT32_ENCODER = 0xADADADAD"
definition UINT64_ENCODER :: u64 where "UINT64_ENCODER = 0xADADADAD"

definition Encode_u8 :: "u8 \<Rightarrow> u8" where
  "Encode_u8 x = x XOR UINT8_ENCODER"

definition Encode_u16 :: "u16 \<Rightarrow> u16" where
  "Encode_u16 x = x XOR UINT16_ENCODER"

definition Encode_u32 :: "u32 \<Rightarrow> u32" where
  "Encode_u32 x = x XOR UINT32_ENCODER"

definition Encode_u64 :: "u64 \<Rightarrow> u64" where
  "Encode_u64 x = x XOR UINT64_ENCODER"

text \<open>
  \<open>Encode(const std::string)\<close> walks the copy until it meets a NUL byte (the terminator, or
  one inside the string) and encodes each byte it passes.
\<close>

fun Encode_string :: "bytes \<Rightarrow> bytes" where
  "Encode_string [] = []"
| "Encode_string (c # cs) = (if c = 0 then c # cs else Encode_u8 c # Encode_string cs)"

subsection \<open>Involution\<close>

lemma Encode_u8_invol [simp]: "Encode_u8 (Encode_u8 x) = x"
  by (simp add: Encode_u8_def)

lemma Encode_u16_invol [simp]: "Encode_u16 (Encode_u16 x) = x"
  by (simp add: Encode_u16_def)

lemma Encode_u32_invol [simp]: "Encode_u32 (Encode_u32 x) = x"
  by (simp add: Encode_u32_def)

lemma Encode_u64_invol [simp]: "Encode_u64 (Encode_u64 x) = x"
  by (simp add: Encode_u64_def)

lemma Encode_u8_eq_0 [simp]: "Encode_u8 x = 0 \<longleftrightarrow> x = 0xAD"
  by (simp add: Encode_u8_def UINT8_ENCODER_def word_xor_eq_0_iff)

lemma Encode_u8_eq_iff [simp]: "Encode_u8 x = Encode_u8 y \<longleftrightarrow> x = y"
  by (simp add: Encode_u8_def word_xor_eq_iff)

lemma length_Encode_string [simp]: "length (Encode_string s) = length s"
  by (induction s) auto

lemma Encode_string_no_nul: "0 \<notin> set s \<Longrightarrow> Encode_string s = map Encode_u8 s"
  by (induction s) auto

text \<open>
  Unlike the scalars, the encoding of a string is not an involution in general: the byte
  \<open>0xAD\<close> becomes a terminator.
\<close>

lemma Encode_string_invol:
  "0 \<notin> set s \<Longrightarrow> 0xAD \<notin> set s \<Longrightarrow> Encode_string (Encode_string s) = s"
  by (induction s) auto

end
