(* ===== verification/ByteBuffer.thy ===== *)
theory ByteBuffer
  imports Encoding
begin

text \<open>
  The growable byte buffer every packet is built on (\<open>src/shared/ByteBuffer.h\<close>): a vector of
  bytes with a read and a write position. \<open>size_t\<close> positions are \<open>nat\<close>; a scalar is laid out
  as on the little-endian hosts the server is built for, which is what the \<open>memcpy\<close> of the code
  copies. An \<open>ASSERT\<close> that fails is \<open>Inl AssertFailed\<close>.
\<close>

record byte_buffer =
  bb_rpos :: nat
  bb_wpos :: nat
  bb_storage :: bytes

definition bb_new :: byte_buffer where
  "bb_new = \<lparr>bb_rpos = 0, bb_wpos = 0, bb_storage = []\<rparr>"

definition bb_clear :: "'z byte_buffer_scheme \<Rightarrow> 'z byte_buffer_scheme" where
  "bb_clear b = b\<lparr>bb_storage := [], bb_rpos := 0, bb_wpos := 0\<rparr>"

definition bb_size :: "'z byte_buffer_scheme \<Rightarrow> nat" where
  "bb_size b = length (bb_storage b)"

text \<open>\<open>resize\<close> keeps a prefix or pads with zero bytes, and resets both positions.\<close>

definition vector_resize :: "nat \<Rightarrow> bytes \<Rightarrow> bytes" where
  "vector_resize n xs = take n xs @ replicate (n - length xs) 0"

definition bb_resize :: "nat \<Rightarrow> 'z byte_buffer_scheme \<Rightarrow> 'z byte_buffer_scheme" where
  "bb_resize n b = b\<lparr>bb_storage := vector_resize n (bb_storage b), bb_rpos := 0, bb_wpos := n\<rparr>"

definition bb_append :: "bytes \<Rightarrow> 'z byte_buffer_scheme \<Rightarrow> 'z byte_buffer_scheme res" where
  "bb_append src b =
     (if src = [] then Inr b
      else if \<not> bb_size b < 10000000 then Inl AssertFailed
      else
        let st = (if bb_size b < bb_wpos b + length src
                  then vector_resize (bb_wpos b + length src) (bb_storage b)
                  else bb_storage b)
        in Inr (b\<lparr>bb_storage := overwrite (bb_wpos b) src st,
                  bb_wpos := bb_wpos b + length src\<rparr>))"

definition bb_append_buffer ::
  "'y byte_buffer_scheme \<Rightarrow> 'z byte_buffer_scheme \<Rightarrow> 'z byte_buffer_scheme res" where
  "bb_append_buffer src b = (if bb_size src \<noteq> 0 then bb_append (bb_storage src) b else Inr b)"

definition bb_put :: "nat \<Rightarrow> bytes \<Rightarrow> 'z byte_buffer_scheme \<Rightarrow> 'z byte_buffer_scheme res" where
  "bb_put pos src b =
     (if pos + length src \<le> bb_size b
      then Inr (b\<lparr>bb_storage := overwrite pos src (bb_storage b)\<rparr>)
      else Inl AssertFailed)"

definition bb_read_at :: "nat \<Rightarrow> nat \<Rightarrow> 'z byte_buffer_scheme \<Rightarrow> bytes res" where
  "bb_read_at pos n b =
     (if pos + n \<le> bb_size b then Inr (take n (drop pos (bb_storage b))) else Inl AssertFailed)"

definition bb_read :: "nat \<Rightarrow> 'z byte_buffer_scheme \<Rightarrow> (bytes \<times> 'z byte_buffer_scheme) res" where
  "bb_read n b =
     bindR (bb_read_at (bb_rpos b) n b) (\<lambda>bs. Inr (bs, b\<lparr>bb_rpos := bb_rpos b + n\<rparr>))"

subsection \<open>Little-endian layout\<close>

fun le_bytes :: "nat \<Rightarrow> 'a::len word \<Rightarrow> bytes" where
  "le_bytes 0 w = []"
| "le_bytes (Suc n) w = ucast w # le_bytes n (drop_bit 8 w)"

fun of_le_bytes :: "bytes \<Rightarrow> 'a::len word" where
  "of_le_bytes [] = 0"
| "of_le_bytes (b # bs) = ucast b OR push_bit 8 (of_le_bytes bs)"

lemma length_le_bytes [simp]: "length (le_bytes n w) = n"
  by (induction n arbitrary: w) auto

lemma bit_of_le_bytes_le_bytes:
  fixes w :: "'a::len word"
  shows "bit (of_le_bytes (le_bytes n w) :: 'a word) i \<longleftrightarrow> i < 8 * n \<and> bit w i"
proof (induction n arbitrary: w i)
  case 0
  then show ?case by simp
next
  case (Suc n)
  show ?case
  proof (cases "i < 8")
    case True
    then show ?thesis
      by (auto simp: bit_simps intro: bit_imp_le_length)
  next
    case False
    then have "i < 8 * Suc n \<longleftrightarrow> i - 8 < 8 * n" and "8 + (i - 8) = i"
      by auto
    with False show ?thesis
      by (auto simp: bit_simps Suc.IH intro: bit_imp_le_length)
  qed
qed

lemma of_le_bytes_le_bytes:
  "LENGTH('a) \<le> 8 * n \<Longrightarrow> of_le_bytes (le_bytes n w) = (w :: 'a::len word)"
  by (rule bit_eqI) (auto simp: bit_of_le_bytes_le_bytes)


subsection \<open>Appending at the end\<close>

text \<open>
  Every writer of the code leaves the write position at the end of the storage; appending
  then extends the buffer.
\<close>

definition bb_at_end :: "'z byte_buffer_scheme \<Rightarrow> bool" where
  "bb_at_end b \<longleftrightarrow> bb_wpos b = bb_size b"

definition bb_extend :: "bytes \<Rightarrow> 'z byte_buffer_scheme \<Rightarrow> 'z byte_buffer_scheme" where
  "bb_extend src b =
     b\<lparr>bb_storage := bb_storage b @ src, bb_wpos := bb_wpos b + length src\<rparr>"

lemma bb_extend_simps [simp]:
  "bb_storage (bb_extend src b) = bb_storage b @ src"
  "bb_rpos (bb_extend src b) = bb_rpos b"
  "bb_wpos (bb_extend src b) = bb_wpos b + length src"
  "bb_size (bb_extend src b) = bb_size b + length src"
  by (simp_all add: bb_extend_def bb_size_def)

lemma bb_at_end_extend [simp]: "bb_at_end b \<Longrightarrow> bb_at_end (bb_extend src b)"
  by (simp add: bb_at_end_def)

lemma bb_extend_extend: "bb_extend ys (bb_extend xs b) = bb_extend (xs @ ys) b"
  by (simp add: bb_extend_def)

lemma bb_extend_Nil [simp]: "bb_extend [] b = b"
  by (simp add: bb_extend_def)

lemma bb_append_end:
  assumes "bb_at_end b" and "bb_size b < 10000000 \<or> src = []"
  shows "bb_append src b = Inr (bb_extend src b)"
proof (cases "src = []")
  case True
  then show ?thesis by (simp add: bb_append_def bb_extend_def)
next
  case False
  have "overwrite (length st) src (st @ replicate (length src) 0) = st @ src" for st :: bytes
    by (simp add: overwrite_def)
  with False assms show ?thesis
    by (auto simp: bb_append_def bb_at_end_def bb_size_def bb_extend_def vector_resize_def)
qed

lemma bb_append_full: "src \<noteq> [] \<Longrightarrow> \<not> bb_size b < 10000000 \<Longrightarrow> bb_append src b = Inl AssertFailed"
  by (simp add: bb_append_def)

lemma bb_clear_at_end [simp]: "bb_at_end (bb_clear b)" "bb_size (bb_clear b) = 0"
  by (simp_all add: bb_at_end_def bb_clear_def bb_size_def)

lemma bb_resize_at_end [simp]: "bb_at_end (bb_resize n b)" "bb_size (bb_resize n b) = n"
  by (simp_all add: bb_at_end_def bb_resize_def bb_size_def vector_resize_def)

lemma bb_put_size: "bb_put pos src b = Inr b' \<Longrightarrow> bb_size b' = bb_size b \<and> bb_wpos b' = bb_wpos b"
  by (auto simp: bb_put_def bb_size_def split: if_splits)

lemma bb_read_here:
  assumes "bb_storage b = pre @ bs @ post" and "bb_rpos b = length pre" and "length bs = n"
  shows "bb_read n b = Inr (bs, b\<lparr>bb_rpos := bb_rpos b + n\<rparr>)"
  using assms by (simp add: bb_read_def bb_read_at_def bb_size_def)

lemma bb_read_short:
  "bb_size b < bb_rpos b + n \<Longrightarrow> bb_read n b = Inl AssertFailed"
  by (simp add: bb_read_def bb_read_at_def)

subsection \<open>Typed operators\<close>

definition op_write :: "('v \<Rightarrow> bytes) \<Rightarrow> 'v \<Rightarrow> 'z byte_buffer_scheme \<Rightarrow> 'z byte_buffer_scheme res" where
  "op_write enc v b = bb_append (enc v) b"

definition op_read ::
  "(bytes \<Rightarrow> 'v) \<Rightarrow> nat \<Rightarrow> 'z byte_buffer_scheme \<Rightarrow> ('v \<times> 'z byte_buffer_scheme) res" where
  "op_read dec n b = bindR (bb_read n b) (\<lambda>(bs, b'). Inr (dec bs, b'))"

text \<open>The element loops of \<open>operator<<\<close> and \<open>operator>>\<close> on \<open>std::vector\<close> and \<open>std::list\<close>.\<close>

fun op_read_n ::
  "(bytes \<Rightarrow> 'v) \<Rightarrow> nat \<Rightarrow> nat \<Rightarrow> 'z byte_buffer_scheme \<Rightarrow> ('v list \<times> 'z byte_buffer_scheme) res" where
  "op_read_n dec n 0 b = Inr ([], b)"
| "op_read_n dec n (Suc k) b =
     bindR (op_read dec n b) (\<lambda>(v, b').
       bindR (op_read_n dec n k b') (\<lambda>(vs, b''). Inr (v # vs, b'')))"

text \<open>
  The contract of a scalar's encoding: a fixed positive width, and the decoder undoes the
  encoder. Everything a reader of the protocol relies on follows from it.
\<close>

locale wire_codec =
  fixes enc :: "'v \<Rightarrow> bytes" and dec :: "bytes \<Rightarrow> 'v" and width :: nat
  assumes enc_width: "length (enc v) = width"
    and width_pos: "0 < width"
    and dec_enc: "dec (enc v) = v"
begin

lemma enc_nonempty: "enc v \<noteq> []"
  using enc_width [of v] width_pos by auto

lemma enc_inj: "enc v = enc w \<longleftrightarrow> v = w"
  by (metis dec_enc)

lemma write_end:
  "bb_at_end b \<Longrightarrow> bb_size b < 10000000 \<Longrightarrow> op_write enc v b = Inr (bb_extend (enc v) b)"
  by (simp add: op_write_def bb_append_end)

lemma read_written:
  "bb_storage b = pre @ enc v @ post \<Longrightarrow> bb_rpos b = length pre \<Longrightarrow>
   op_read dec width b = Inr (v, b\<lparr>bb_rpos := bb_rpos b + width\<rparr>)"
  by (simp add: op_read_def bb_read_here [OF _ _ enc_width] dec_enc)

lemma read_short: "bb_size b < bb_rpos b + width \<Longrightarrow> op_read dec width b = Inl AssertFailed"
  by (simp add: op_read_def bb_read_short)

lemma write_all_end:
  "bb_at_end b \<Longrightarrow> bb_size b + width * length vs \<le> 10000000 \<Longrightarrow>
   foldR (op_write enc) vs b = Inr (bb_extend (concat (map enc vs)) b)"
proof (induction vs arbitrary: b)
  case Nil
  then show ?case by simp
next
  case (Cons v vs)
  from Cons.prems width_pos have "bb_size b < 10000000" by simp
  with Cons.prems have "op_write enc v b = Inr (bb_extend (enc v) b)"
    by (simp add: write_end)
  moreover from Cons.prems have "bb_size (bb_extend (enc v) b) + width * length vs \<le> 10000000"
    by (simp add: enc_width)
  ultimately show ?case
    using Cons by (simp add: bb_extend_extend)
qed

lemma read_all_written:
  "bb_storage b = pre @ concat (map enc vs) @ post \<Longrightarrow> bb_rpos b = length pre \<Longrightarrow>
   op_read_n dec width (length vs) b = Inr (vs, b\<lparr>bb_rpos := bb_rpos b + width * length vs\<rparr>)"
proof (induction vs arbitrary: b pre)
  case Nil
  then show ?case by simp
next
  case (Cons v vs)
  let ?b = "b\<lparr>bb_rpos := bb_rpos b + width\<rparr>"
  have "op_read dec width b = Inr (v, ?b)"
    using Cons.prems by (intro read_written [where pre = pre and post = "concat (map enc vs) @ post"]) simp_all
  moreover have "op_read_n dec width (length vs) ?b = Inr (vs, ?b\<lparr>bb_rpos := bb_rpos ?b + width * length vs\<rparr>)"
    using Cons.prems by (intro Cons.IH [where pre = "pre @ enc v"]) (simp_all add: enc_width)
  ultimately show ?case
    by (simp add: algebra_simps)
qed

end

subsection \<open>The overloads of the stream operators\<close>

text \<open>
  Unsigned scalars go through \<open>ENCODE\<close>; \<open>bool\<close>, the signed integers and the floating point
  numbers (here: their bit patterns) are copied as they are.
\<close>

definition enc_bool :: "bool \<Rightarrow> bytes" where "enc_bool v = [if v then 1 else 0]"
definition enc_u8 :: "u8 \<Rightarrow> bytes" where "enc_u8 v = le_bytes 1 (Encode_u8 v)"
definition enc_u16 :: "u16 \<Rightarrow> bytes" where "enc_u16 v = le_bytes 2 (Encode_u16 v)"
definition enc_u32 :: "u32 \<Rightarrow> bytes" where "enc_u32 v = le_bytes 4 (Encode_u32 v)"
definition enc_u64 :: "u64 \<Rightarrow> bytes" where "enc_u64 v = le_bytes 8 (Encode_u64 v)"
definition enc_i8 :: "8 word \<Rightarrow> bytes" where "enc_i8 v = le_bytes 1 v"
definition enc_i16 :: "16 word \<Rightarrow> bytes" where "enc_i16 v = le_bytes 2 v"
definition enc_i32 :: "32 word \<Rightarrow> bytes" where "enc_i32 v = le_bytes 4 v"
definition enc_i64 :: "64 word \<Rightarrow> bytes" where "enc_i64 v = le_bytes 8 v"

text \<open>\<open>operator>>(bool&)\<close> tests the signed \<open>char\<close> for being positive.\<close>

definition dec_bool :: "bytes \<Rightarrow> bool" where "dec_bool bs = (0 < sint (of_le_bytes bs :: u8))"
definition dec_u8 :: "bytes \<Rightarrow> u8" where "dec_u8 bs = Encode_u8 (of_le_bytes bs)"
definition dec_u16 :: "bytes \<Rightarrow> u16" where "dec_u16 bs = Encode_u16 (of_le_bytes bs)"
definition dec_u32 :: "bytes \<Rightarrow> u32" where "dec_u32 bs = Encode_u32 (of_le_bytes bs)"
definition dec_u64 :: "bytes \<Rightarrow> u64" where "dec_u64 bs = Encode_u64 (of_le_bytes bs)"
definition dec_i8 :: "bytes \<Rightarrow> 8 word" where "dec_i8 bs = of_le_bytes bs"
definition dec_i16 :: "bytes \<Rightarrow> 16 word" where "dec_i16 bs = of_le_bytes bs"
definition dec_i32 :: "bytes \<Rightarrow> 32 word" where "dec_i32 bs = of_le_bytes bs"
definition dec_i64 :: "bytes \<Rightarrow> 64 word" where "dec_i64 bs = of_le_bytes bs"

interpretation wire_bool: wire_codec enc_bool dec_bool 1
  by unfold_locales (simp_all add: enc_bool_def dec_bool_def)

interpretation wire_u8: wire_codec enc_u8 dec_u8 1
  by unfold_locales (simp_all only: enc_u8_def dec_u8_def of_le_bytes_le_bytes, simp_all add: of_le_bytes_le_bytes)

interpretation wire_u16: wire_codec enc_u16 dec_u16 2
  by unfold_locales (simp_all add: enc_u16_def dec_u16_def of_le_bytes_le_bytes)

interpretation wire_u32: wire_codec enc_u32 dec_u32 4
  by unfold_locales (simp_all add: enc_u32_def dec_u32_def of_le_bytes_le_bytes)

interpretation wire_u64: wire_codec enc_u64 dec_u64 8
  by unfold_locales (simp_all add: enc_u64_def dec_u64_def of_le_bytes_le_bytes)

interpretation wire_i8: wire_codec enc_i8 dec_i8 1
  by unfold_locales (simp_all only: enc_i8_def dec_i8_def of_le_bytes_le_bytes, simp_all add: of_le_bytes_le_bytes)

interpretation wire_i16: wire_codec enc_i16 dec_i16 2
  by unfold_locales (simp_all add: enc_i16_def dec_i16_def of_le_bytes_le_bytes)

interpretation wire_i32: wire_codec enc_i32 dec_i32 4
  by unfold_locales (simp_all add: enc_i32_def dec_i32_def of_le_bytes_le_bytes)

interpretation wire_i64: wire_codec enc_i64 dec_i64 8
  by unfold_locales (simp_all add: enc_i64_def dec_i64_def of_le_bytes_le_bytes)

text \<open>
  A value of one of the overloads, and its type: a packet body is a sequence of these. The
  last constructor is \<open>operator<<(const std::string&)\<close>; it carries no length on the wire and
  has no fixed-width reader.
\<close>

datatype field =
    FBool bool | FU8 u8 | FU16 u16 | FU32 u32 | FU64 u64
  | FI8 "8 word" | FI16 "16 word" | FI32 "32 word" | FI64 "64 word"

datatype field_type = TBool | TU8 | TU16 | TU32 | TU64 | TI8 | TI16 | TI32 | TI64

fun type_of :: "field \<Rightarrow> field_type" where
  "type_of (FBool _) = TBool" | "type_of (FU8 _) = TU8" | "type_of (FU16 _) = TU16"
| "type_of (FU32 _) = TU32" | "type_of (FU64 _) = TU64" | "type_of (FI8 _) = TI8"
| "type_of (FI16 _) = TI16" | "type_of (FI32 _) = TI32" | "type_of (FI64 _) = TI64"

fun field_bytes :: "field \<Rightarrow> bytes" where
  "field_bytes (FBool v) = enc_bool v" | "field_bytes (FU8 v) = enc_u8 v"
| "field_bytes (FU16 v) = enc_u16 v" | "field_bytes (FU32 v) = enc_u32 v"
| "field_bytes (FU64 v) = enc_u64 v" | "field_bytes (FI8 v) = enc_i8 v"
| "field_bytes (FI16 v) = enc_i16 v" | "field_bytes (FI32 v) = enc_i32 v"
| "field_bytes (FI64 v) = enc_i64 v"

definition put_field :: "field \<Rightarrow> 'z byte_buffer_scheme \<Rightarrow> 'z byte_buffer_scheme res" where
  "put_field f b = op_write field_bytes f b"

fun get_field :: "field_type \<Rightarrow> 'z byte_buffer_scheme \<Rightarrow> (field \<times> 'z byte_buffer_scheme) res" where
  "get_field TBool b = bindR (op_read dec_bool 1 b) (\<lambda>(v, b'). Inr (FBool v, b'))"
| "get_field TU8 b = bindR (op_read dec_u8 1 b) (\<lambda>(v, b'). Inr (FU8 v, b'))"
| "get_field TU16 b = bindR (op_read dec_u16 2 b) (\<lambda>(v, b'). Inr (FU16 v, b'))"
| "get_field TU32 b = bindR (op_read dec_u32 4 b) (\<lambda>(v, b'). Inr (FU32 v, b'))"
| "get_field TU64 b = bindR (op_read dec_u64 8 b) (\<lambda>(v, b'). Inr (FU64 v, b'))"
| "get_field TI8 b = bindR (op_read dec_i8 1 b) (\<lambda>(v, b'). Inr (FI8 v, b'))"
| "get_field TI16 b = bindR (op_read dec_i16 2 b) (\<lambda>(v, b'). Inr (FI16 v, b'))"
| "get_field TI32 b = bindR (op_read dec_i32 4 b) (\<lambda>(v, b'). Inr (FI32 v, b'))"
| "get_field TI64 b = bindR (op_read dec_i64 8 b) (\<lambda>(v, b'). Inr (FI64 v, b'))"

fun get_fields ::
  "field_type list \<Rightarrow> 'z byte_buffer_scheme \<Rightarrow> (field list \<times> 'z byte_buffer_scheme) res" where
  "get_fields [] b = Inr ([], b)"
| "get_fields (t # ts) b =
     bindR (get_field t b) (\<lambda>(v, b').
       bindR (get_fields ts b') (\<lambda>(vs, b''). Inr (v # vs, b'')))"

lemmas wire_widths = wire_bool.enc_width wire_u8.enc_width wire_u16.enc_width wire_u32.enc_width
  wire_u64.enc_width wire_i8.enc_width wire_i16.enc_width wire_i32.enc_width wire_i64.enc_width

lemmas wire_reads = wire_bool.read_written wire_u8.read_written wire_u16.read_written
  wire_u32.read_written wire_u64.read_written wire_i8.read_written wire_i16.read_written
  wire_i32.read_written wire_i64.read_written

lemma field_bytes_nonempty: "field_bytes f \<noteq> []"
  by (cases f) (auto simp: wire_bool.enc_nonempty wire_u8.enc_nonempty wire_u16.enc_nonempty
      wire_u32.enc_nonempty wire_u64.enc_nonempty wire_i8.enc_nonempty wire_i16.enc_nonempty
      wire_i32.enc_nonempty wire_i64.enc_nonempty)

lemma get_field_written:
  "bb_storage b = pre @ field_bytes f @ post \<Longrightarrow> bb_rpos b = length pre \<Longrightarrow>
   get_field (type_of f) b = Inr (f, b\<lparr>bb_rpos := bb_rpos b + length (field_bytes f)\<rparr>)"
  by (cases f) (simp_all add: wire_reads wire_widths del: One_nat_def)

lemma get_fields_written:
  "bb_storage b = pre @ concat (map field_bytes fs) @ post \<Longrightarrow> bb_rpos b = length pre \<Longrightarrow>
   get_fields (map type_of fs) b =
     Inr (fs, b\<lparr>bb_rpos := bb_rpos b + length (concat (map field_bytes fs))\<rparr>)"
proof (induction fs arbitrary: b pre)
  case Nil
  then show ?case by simp
next
  case (Cons f fs)
  let ?b = "b\<lparr>bb_rpos := bb_rpos b + length (field_bytes f)\<rparr>"
  have "get_field (type_of f) b = Inr (f, ?b)"
    using Cons.prems by (intro get_field_written) simp_all
  moreover have "get_fields (map type_of fs) ?b =
      Inr (fs, ?b\<lparr>bb_rpos := bb_rpos ?b + length (concat (map field_bytes fs))\<rparr>)"
    using Cons.prems by (intro Cons.IH [where pre = "pre @ field_bytes f"]) simp_all
  ultimately show ?case
    by (simp add: add.assoc)
qed

lemma put_fields_end:
  "bb_at_end b \<Longrightarrow> bb_size b + length (concat (map field_bytes fs)) \<le> 10000000 \<Longrightarrow>
   foldR put_field fs b = Inr (bb_extend (concat (map field_bytes fs)) b)"
proof (induction fs arbitrary: b)
  case Nil
  then show ?case by simp
next
  case (Cons f fs)
  have "0 < length (field_bytes f)"
    using field_bytes_nonempty by simp
  moreover have "bb_size b + length (field_bytes f) \<le> 10000000"
    using Cons.prems(2) by simp
  ultimately have "bb_size b < 10000000"
    by linarith
  with Cons.prems have "put_field f b = Inr (bb_extend (field_bytes f) b)"
    by (simp add: put_field_def op_write_def bb_append_end)
  with Cons show ?case
    by (simp add: bb_extend_extend)
qed

text \<open>C6: a sequence of scalars written to a buffer is read back unchanged, in order, by readers
  of the same types: no \<open>ASSERT\<close> fires on either side while the buffer stays within its limit
  of 10,000,000 bytes, and the reader stops exactly at the end of what was written.\<close>

theorem fields_roundtrip:
  assumes "bb_at_end b" and "bb_rpos b = bb_size b"
    and "bb_size b + length (concat (map field_bytes fs)) \<le> 10000000"
  shows "\<exists>b'. foldR put_field fs b = Inr b' \<and>
    (\<exists>b''. get_fields (map type_of fs) b' = Inr (fs, b'') \<and>
       bb_storage b'' = bb_storage b @ concat (map field_bytes fs) \<and> bb_rpos b'' = bb_size b'')"
proof -
  let ?bs = "concat (map field_bytes fs)"
  have w: "foldR put_field fs b = Inr (bb_extend ?bs b)"
    using assms(1,3) by (rule put_fields_end)
  have "get_fields (map type_of fs) (bb_extend ?bs b) =
      Inr (fs, bb_extend ?bs b\<lparr>bb_rpos := bb_rpos b + length ?bs\<rparr>)"
    using get_fields_written [of "bb_extend ?bs b" "bb_storage b" fs "[]"] assms(2)
    by (simp add: bb_size_def)
  with w assms(2) show ?thesis
    by (auto simp: bb_size_def)
qed

theorem fields_roundtrip_witness:
  "\<exists>b'. foldR put_field [FU8 7, FU32 0xDEADBEEF, FBool True, FI16 65535] bb_new = Inr b' \<and>
    (\<exists>b''. get_fields [TU8, TU32, TBool, TI16] b' = Inr ([FU8 7, FU32 0xDEADBEEF, FBool True, FI16 65535], b'') \<and>
       bb_rpos b'' = bb_size b'')"
  using fields_roundtrip [of bb_new "[FU8 7, FU32 0xDEADBEEF, FBool True, FI16 65535]"]
  by (auto simp: bb_new_def bb_at_end_def bb_size_def wire_widths)

subsection \<open>Vectors\<close>

definition op_write_vector :: "('v \<Rightarrow> bytes) \<Rightarrow> 'v list \<Rightarrow> 'z byte_buffer_scheme \<Rightarrow> 'z byte_buffer_scheme res" where
  "op_write_vector enc vs b =
     bindR (op_write enc_u32 (of_nat (length vs)) b) (foldR (op_write enc) vs)"

definition op_read_vector ::
  "(bytes \<Rightarrow> 'v) \<Rightarrow> nat \<Rightarrow> 'z byte_buffer_scheme \<Rightarrow> ('v list \<times> 'z byte_buffer_scheme) res" where
  "op_read_vector dec n b =
     bindR (op_read dec_u32 4 b) (\<lambda>(vsize, b'). op_read_n dec n (unat vsize) b')"

context wire_codec
begin

lemma vector_written:
  assumes "bb_at_end b" and "length vs < 2 ^ 32" and "bb_size b + 4 + width * length vs \<le> 10000000"
  shows "op_write_vector enc vs b =
    Inr (bb_extend (enc_u32 (of_nat (length vs)) @ concat (map enc vs)) b)"
proof -
  let ?c = "enc_u32 (of_nat (length vs))"
  have "op_write enc_u32 (of_nat (length vs)) b = Inr (bb_extend ?c b)"
    using assms by (intro wire_u32.write_end) simp_all
  moreover have "foldR (op_write enc) vs (bb_extend ?c b) =
      Inr (bb_extend (concat (map enc vs)) (bb_extend ?c b))"
    using assms by (intro write_all_end) (simp_all add: wire_u32.enc_width)
  ultimately show ?thesis
    by (simp add: op_write_vector_def bb_extend_extend)
qed

lemma vector_read:
  assumes "bb_storage b = pre @ enc_u32 (of_nat (length vs)) @ concat (map enc vs) @ post"
    and "bb_rpos b = length pre" and "length vs < 2 ^ 32"
  shows "op_read_vector dec width b = Inr (vs, b\<lparr>bb_rpos := bb_rpos b + 4 + width * length vs\<rparr>)"
proof -
  let ?b = "b\<lparr>bb_rpos := bb_rpos b + 4\<rparr>"
  have "op_read dec_u32 4 b = Inr (of_nat (length vs), ?b)"
    using assms(1,2) by (rule wire_u32.read_written)
  moreover have "unat (of_nat (length vs) :: u32) = length vs"
    using assms(3) by (simp add: unat_of_nat)
  moreover have "op_read_n dec width (length vs) ?b =
      Inr (vs, ?b\<lparr>bb_rpos := bb_rpos ?b + width * length vs\<rparr>)"
    using assms(1,2)
    by (intro read_all_written [where pre = "pre @ enc_u32 (of_nat (length vs))"])
       (simp_all add: wire_u32.enc_width)
  ultimately show ?thesis
    by (simp add: op_read_vector_def)
qed

end

subsection \<open>Strings\<close>

definition op_write_string :: "bytes \<Rightarrow> 'z byte_buffer_scheme \<Rightarrow> 'z byte_buffer_scheme res" where
  "op_write_string s b = bb_append (Encode_string s) b"

function op_read_string :: "bytes \<Rightarrow> 'z byte_buffer_scheme \<Rightarrow> bytes \<times> 'z byte_buffer_scheme" where
  "op_read_string acc b =
     (if bb_rpos b < bb_size b
      then let c = bb_storage b ! bb_rpos b; b' = b\<lparr>bb_rpos := bb_rpos b + 1\<rparr>
           in if c = 0 then (acc, b') else op_read_string (acc @ [Encode_u8 c]) b'
      else (acc, b))"
  by pat_completeness auto
termination
  by (relation "measure (\<lambda>(v, b). bb_size b - bb_rpos b)") (auto simp: bb_size_def)

declare op_read_string.simps [simp del]

lemma op_read_string_prefix:
  "bb_storage b = pre @ map Encode_u8 s \<Longrightarrow> bb_rpos b = length pre \<Longrightarrow>
   fst (op_read_string acc b) = acc @ takeWhile (\<lambda>c. c \<noteq> 0xAD) s"
proof (induction s arbitrary: pre b acc)
  case Nil
  then show ?case by (simp add: op_read_string.simps [of acc b] bb_size_def)
next
  case (Cons c s)
  let ?b = "b\<lparr>bb_rpos := bb_rpos b + 1\<rparr>"
  from Cons.prems have here: "bb_rpos b < bb_size b" "bb_storage b ! bb_rpos b = Encode_u8 c"
    by (simp_all add: bb_size_def)
  show ?case
  proof (cases "c = 0xAD")
    case True
    with here show ?thesis by (simp add: op_read_string.simps [of acc b])
  next
    case False
    have "fst (op_read_string (acc @ [c]) ?b) = (acc @ [c]) @ takeWhile (\<lambda>c. c \<noteq> 0xAD) s"
      using Cons.prems by (intro Cons.IH [where pre = "pre @ [Encode_u8 c]"]) simp_all
    with False here show ?thesis
      by (simp add: op_read_string.simps [of acc b] Let_def)
  qed
qed

text \<open>A string without NUL bytes written as the last field of a buffer is read back up to its
  first byte \<open>0xAD\<close>, the byte whose encoding is the terminator the reader stops at; a string
  without that byte is read back whole.\<close>

theorem string_roundtrip:
  assumes "bb_at_end b" and "bb_rpos b = bb_size b" and "bb_size b < 10000000" and "0 \<notin> set s"
  shows "\<exists>b'. op_write_string s b = Inr b' \<and>
    fst (op_read_string [] b') = takeWhile (\<lambda>c. c \<noteq> 0xAD) s"
proof -
  have "op_write_string s b = Inr (bb_extend (map Encode_u8 s) b)"
    using assms by (simp add: op_write_string_def bb_append_end Encode_string_no_nul)
  moreover have "fst (op_read_string [] (bb_extend (map Encode_u8 s) b)) =
      [] @ takeWhile (\<lambda>c. c \<noteq> 0xAD) s"
    using assms by (intro op_read_string_prefix [where pre = "bb_storage b"]) (simp_all add: bb_size_def)
  ultimately show ?thesis by simp
qed

theorem string_roundtrip_witness:
  "\<exists>b'. op_write_string [72, 105, 0xAD, 33] bb_new = Inr b' \<and> fst (op_read_string [] b') = [72, 105]"
  using string_roundtrip [of bb_new "[72, 105, 0xAD, 33]"]
  by (simp add: bb_new_def bb_at_end_def bb_size_def)

subsection \<open>Packed GUIDs\<close>

definition pack_guid_step ::
  "nat \<Rightarrow> nat \<Rightarrow> u64 \<times> 'z byte_buffer_scheme \<Rightarrow> (u64 \<times> 'z byte_buffer_scheme) res" where
  "pack_guid_step mask_position i = (\<lambda>(guid, b).
     bindR (if guid AND 0xFF \<noteq> 0
            then op_write enc_u8 (ucast (guid AND 0xFF))
                   (b\<lparr>bb_storage := (bb_storage b)[mask_position :=
                        bb_storage b ! mask_position OR push_bit i 1]\<rparr>)
            else Inr b)
       (\<lambda>b'. Inr (drop_bit 8 guid, b')))"

definition appendPackGUID :: "u64 \<Rightarrow> 'z byte_buffer_scheme \<Rightarrow> 'z byte_buffer_scheme res" where
  "appendPackGUID guid b =
     bindR (op_write enc_u8 0 b) (\<lambda>b1.
       bindR (foldR (pack_guid_step (bb_wpos b)) [0..<8] (guid, b1)) (\<lambda>(_, b2). Inr b2))"

definition guid_byte :: "u64 \<Rightarrow> nat \<Rightarrow> u8" where
  "guid_byte guid i = ucast (drop_bit (8 * i) guid)"

definition guid_bytes_set :: "u64 \<Rightarrow> nat list \<Rightarrow> nat list" where
  "guid_bytes_set guid is = filter (\<lambda>i. guid_byte guid i \<noteq> 0) is"

fun or_bits :: "nat list \<Rightarrow> u8 \<Rightarrow> u8" where
  "or_bits [] m = m"
| "or_bits (i # is) m = or_bits is (m OR push_bit i 1)"

lemma and_255: "w AND 255 = take_bit 8 (w :: u64)"
  using take_bit_eq_mask [of 8 w] by (simp add: mask_eq_exp_minus_1)

lemma ucast_and_255: "(ucast (w AND 255) :: u8) = ucast (w :: u64)"
  by (rule bit_eqI) (simp add: and_255 bit_simps)

lemma and_255_eq_0: "(w AND 255 = (0 :: u64)) = ((ucast w :: u8) = 0)"
proof -
  have "w AND 255 = 0 \<longleftrightarrow> (\<forall>n < 8. \<not> bit w n)"
    by (auto simp: bit_eq_iff and_255 bit_simps)
  also have "\<dots> \<longleftrightarrow> (ucast w :: u8) = 0"
    by (auto simp: bit_eq_iff bit_simps)
  finally show ?thesis .
qed

lemma list_update_pre: "(pre @ m # xs)[length pre := v] = pre @ v # xs"
  by (simp add: list_update_append)

lemma pack_guid_loop:
  assumes "bb_storage b = pre @ m # ys" and "bb_wpos b = bb_size b"
    and "bb_size b + (n - i) \<le> 10000000" and "i \<le> n"
  shows "foldR (pack_guid_step (length pre)) [i..<n] (drop_bit (8 * i) guid, b) =
    Inr (drop_bit (8 * n) guid,
      b\<lparr>bb_storage := pre @ or_bits (guid_bytes_set guid [i..<n]) m #
            ys @ map (Encode_u8 \<circ> guid_byte guid) (guid_bytes_set guid [i..<n]),
        bb_wpos := bb_wpos b + length (guid_bytes_set guid [i..<n])\<rparr>)"
  using assms
proof (induction "n - i" arbitrary: i b m ys)
  case 0
  then show ?case by (simp add: guid_bytes_set_def)
next
  case (Suc k)
  then have up: "[i..<n] = i # [Suc i..<n]" and k: "k = n - Suc i"
    by (simp_all add: upt_conv_Cons)
  have shift: "drop_bit 8 (drop_bit (8 * i) guid) = drop_bit (8 * Suc i) guid"
    by (simp add: ac_simps)
  show ?case
  proof (cases "guid_byte guid i = 0")
    case True
    have "foldR (pack_guid_step (length pre)) [Suc i..<n] (drop_bit (8 * Suc i) guid, b) =
      Inr (drop_bit (8 * n) guid,
        b\<lparr>bb_storage := pre @ or_bits (guid_bytes_set guid [Suc i..<n]) m #
            ys @ map (Encode_u8 \<circ> guid_byte guid) (guid_bytes_set guid [Suc i..<n]),
          bb_wpos := bb_wpos b + length (guid_bytes_set guid [Suc i..<n])\<rparr>)"
      using Suc.prems Suc.hyps(2) by (intro Suc.hyps(1) [OF k]) simp_all
    with True show ?thesis
      by (simp add: up pack_guid_step_def guid_bytes_set_def guid_byte_def and_255_eq_0 shift
          del: upt_Suc drop_bit_drop_bit mult_Suc_right)
  next
    case False
    let ?v = "m OR push_bit i 1"
    let ?b = "b\<lparr>bb_storage := pre @ ?v # ys @ [Encode_u8 (guid_byte guid i)], bb_wpos := bb_wpos b + 1\<rparr>"
    have "op_write enc_u8 (guid_byte guid i) (b\<lparr>bb_storage := pre @ ?v # ys\<rparr>) = Inr ?b"
      using Suc.prems Suc.hyps(2)
      by (subst wire_u8.write_end)
         (simp_all add: bb_at_end_def bb_size_def bb_extend_def enc_u8_def)
    then have step: "pack_guid_step (length pre) i (drop_bit (8 * i) guid, b) =
        Inr (drop_bit (8 * Suc i) guid, ?b)"
      using False Suc.prems(1)
      by (simp add: pack_guid_step_def and_255_eq_0 ucast_and_255 guid_byte_def [symmetric]
          list_update_pre shift del: drop_bit_drop_bit mult_Suc_right)
    have "foldR (pack_guid_step (length pre)) [Suc i..<n] (drop_bit (8 * Suc i) guid, ?b) =
      Inr (drop_bit (8 * n) guid,
        ?b\<lparr>bb_storage := pre @ or_bits (guid_bytes_set guid [Suc i..<n]) ?v #
            (ys @ [Encode_u8 (guid_byte guid i)]) @
              map (Encode_u8 \<circ> guid_byte guid) (guid_bytes_set guid [Suc i..<n]),
          bb_wpos := bb_wpos ?b + length (guid_bytes_set guid [Suc i..<n])\<rparr>)"
      using Suc.prems Suc.hyps(2) by (intro Suc.hyps(1) [OF k]) (simp_all add: bb_size_def)
    with False step show ?thesis
      by (simp add: up guid_bytes_set_def del: upt_Suc mult_Suc_right)
  qed
qed

text \<open>
  What \<open>appendPackGUID\<close> appends: a mask byte and the non-zero bytes of the GUID. The mask starts
  as the \<^emph>\<open>encoded\<close> zero byte, so the bits of \<open>0xAD\<close> are set in it whatever the GUID is.
\<close>

lemma appendPackGUID_end:
  assumes "bb_at_end b" and "bb_size b + 9 \<le> 10000000"
  shows "appendPackGUID guid b =
    Inr (bb_extend (or_bits (guid_bytes_set guid [0..<8]) 0xAD #
           map (Encode_u8 \<circ> guid_byte guid) (guid_bytes_set guid [0..<8])) b)"
proof -
  have w: "op_write enc_u8 0 b = Inr (bb_extend [0xAD] b)"
    using assms by (simp add: wire_u8.write_end enc_u8_def Encode_u8_def UINT8_ENCODER_def)
  have "foldR (pack_guid_step (length (bb_storage b))) [0..<8] (drop_bit (8 * 0) guid, bb_extend [0xAD] b) =
    Inr (drop_bit (8 * 8) guid, bb_extend [0xAD] b
      \<lparr>bb_storage := bb_storage b @ or_bits (guid_bytes_set guid [0..<8]) 0xAD #
            [] @ map (Encode_u8 \<circ> guid_byte guid) (guid_bytes_set guid [0..<8]),
        bb_wpos := bb_wpos (bb_extend [0xAD] b) + length (guid_bytes_set guid [0..<8])\<rparr>)"
    using assms by (intro pack_guid_loop) (simp_all add: bb_at_end_def bb_size_def)
  with w assms(1) show ?thesis
    by (simp add: appendPackGUID_def bb_at_end_def bb_size_def bb_extend_def del: upt_Suc)
qed

text \<open>The mask byte of a packed GUID does not tell which bytes follow it: the GUIDs 0 and 1 get
  the same mask byte \<open>0xAD\<close> although one byte follows in the second case and none in the first,
  because the bits are or-ed into the encoded zero byte and not into a zero byte.\<close>

theorem packed_guid_mask_ambiguous:
  assumes "bb_at_end b" and "bb_size b + 9 \<le> 10000000"
  shows "appendPackGUID 0 b = Inr (bb_extend [0xAD] b) \<and>
    appendPackGUID 1 b = Inr (bb_extend [0xAD, 0xAC] b)"
proof -
  have "guid_bytes_set 0 [0..<8] = []" and "guid_bytes_set 1 [0..<8] = [0]"
    by (simp_all add: guid_bytes_set_def guid_byte_def upt_rec)
  with assms show ?thesis
    by (simp_all add: appendPackGUID_end guid_byte_def Encode_u8_def UINT8_ENCODER_def)
qed

theorem packed_guid_mask_ambiguous_witness:
  "appendPackGUID 0 bb_new = Inr (bb_extend [0xAD] bb_new) \<and>
   appendPackGUID 1 bb_new = Inr (bb_extend [0xAD, 0xAC] bb_new)"
  using packed_guid_mask_ambiguous [of bb_new] by (simp add: bb_new_def bb_at_end_def bb_size_def)

end
