(* ===== verification/WorldPacket.thy ===== *)
theory WorldPacket
  imports ByteBuffer
begin

text \<open>
  Game packets (\<open>src/shared/WorldPacket.h\<close>): a byte buffer with an opcode. A packet starts with
  a five byte header (the magic number, the length, the opcode), which \<open>Prepare\<close> reserves and
  \<open>Finalize\<close> fills in before the packet is sent.
\<close>

record world_packet = byte_buffer +
  m_opcode :: u8
  m_prepared :: bool

text \<open>
  The default constructor leaves \<open>m_prepared\<close> uninitialised: it is an argument. The explicit
  one narrows its 16 bit opcode.
\<close>

definition WorldPacket_default :: "bool \<Rightarrow> world_packet" where
  "WorldPacket_default junk =
     \<lparr>bb_rpos = 0, bb_wpos = 0, bb_storage = [], m_opcode = 0, m_prepared = junk\<rparr>"

definition WorldPacket_opcode :: "u16 \<Rightarrow> world_packet" where
  "WorldPacket_opcode opcode =
     \<lparr>bb_rpos = 0, bb_wpos = 0, bb_storage = [], m_opcode = ucast opcode, m_prepared = False\<rparr>"

definition SetOpcode :: "u8 \<Rightarrow> world_packet \<Rightarrow> world_packet" where
  "SetOpcode opcode p = p\<lparr>m_opcode := opcode\<rparr>"

definition GetHeader :: u16 where "GetHeader = 0xE959"

definition GuessSize :: u16 where "GuessSize = 0"

definition append_u16 :: "u16 \<Rightarrow> world_packet \<Rightarrow> world_packet res" where
  "append_u16 v p = bb_append (le_bytes 2 v) p"

definition append_u8 :: "u8 \<Rightarrow> world_packet \<Rightarrow> world_packet res" where
  "append_u8 v p = bb_append (le_bytes 1 v) p"

definition Prepare :: "world_packet \<Rightarrow> world_packet res" where
  "Prepare p =
     (if m_prepared p then Inr p
      else bindR (append_u16 GetHeader p) (\<lambda>p1.
           bindR (append_u16 GuessSize p1) (\<lambda>p2.
           bindR (append_u8 (m_opcode p2) p2) (\<lambda>p3.
           Inr (p3\<lparr>m_prepared := True\<rparr>)))))"

definition Initialize :: "u8 \<Rightarrow> world_packet \<Rightarrow> world_packet res" where
  "Initialize opcode p = Prepare ((bb_clear p)\<lparr>m_opcode := opcode, m_prepared := False\<rparr>)"

definition Finalize :: "world_packet \<Rightarrow> world_packet res" where
  "Finalize p =
     bindR (bb_read 2 p) (\<lambda>(_, p1).
     bindR (bb_read 2 p1) (\<lambda>(cur_bytes, p2).
     bindR (bb_read 1 p2) (\<lambda>(_, p3).
     let cur_sz = (of_le_bytes cur_bytes :: u16);
         real_sz = (of_nat (bb_size p3) - 4 :: u16)
     in bindR (if cur_sz \<noteq> real_sz then bb_put 2 (le_bytes 2 (Encode_u16 real_sz)) p3 else Inr p3) (\<lambda>p4.
        bb_put 4 (le_bytes 1 (Encode_u8 (m_opcode p4))) p4))))"

subsection \<open>Building and finalising a packet\<close>

definition header_bytes :: "nat \<Rightarrow> u8 \<Rightarrow> bytes" where
  "header_bytes len opcode =
     [0x59, 0xE9] @ le_bytes 2 (Encode_u16 (of_nat (len + 1))) @ [Encode_u8 opcode]"

text \<open>What goes over the wire for an opcode and a body, as the protocol describes it.\<close>

definition wire_bytes :: "u8 \<Rightarrow> bytes \<Rightarrow> bytes" where
  "wire_bytes opcode body = header_bytes (length body) opcode @ body"

definition build_packet :: "u8 \<Rightarrow> field list \<Rightarrow> world_packet res" where
  "build_packet opcode fs =
     bindR (Initialize opcode (WorldPacket_default False)) (\<lambda>p. foldR put_field fs p)"

lemma length_header_bytes [simp]: "length (header_bytes n op) = 5"
  by (simp add: header_bytes_def)

lemma length_wire_bytes [simp]: "length (wire_bytes op body) = 5 + length body"
  by (simp add: wire_bytes_def)

lemma bb_extend_more [simp]:
  "m_opcode (bb_extend bs p) = m_opcode p" "m_prepared (bb_extend bs p) = m_prepared p"
  by (simp_all add: bb_extend_def)

lemma le_bytes_2: "le_bytes 2 w = [ucast w, ucast (drop_bit 8 w)]"
  unfolding numeral_2_eq_2 by (simp only: le_bytes.simps)

lemma le_bytes_GetHeader: "le_bytes 2 GetHeader = [0x59, 0xE9]"
  unfolding le_bytes_2 GetHeader_def by code_simp

lemma le_bytes_zero: "le_bytes n 0 = replicate n 0"
  by (induction n) simp_all

lemma le_bytes_one_u8: "le_bytes (Suc 0) (v :: u8) = [v]"
  by simp

lemma append_simps:
  "bb_at_end p \<Longrightarrow> bb_size p < 10000000 \<Longrightarrow> append_u16 v p = Inr (bb_extend (le_bytes 2 v) p)"
  "bb_at_end p \<Longrightarrow> bb_size p < 10000000 \<Longrightarrow> append_u8 w p = Inr (bb_extend [w] p)"
  by (simp_all add: append_u16_def append_u8_def bb_append_end)

lemma Initialize_result:
  "Initialize opcode p = Inr (p\<lparr>bb_rpos := 0, bb_wpos := 5,
     bb_storage := [0x59, 0xE9, 0, 0, opcode], m_opcode := opcode, m_prepared := True\<rparr>)"
proof -
  let ?p = "(bb_clear p)\<lparr>m_opcode := opcode, m_prepared := False\<rparr>"
  have "bb_at_end ?p" "bb_size ?p = 0"
    by (simp_all add: bb_clear_def bb_at_end_def bb_size_def)
  then show ?thesis
    by (simp add: Initialize_def Prepare_def append_simps le_bytes_GetHeader)
       (simp add: bb_extend_def bb_clear_def GuessSize_def le_bytes_2)
qed

lemma Initialize_again: "Initialize opcode p = Inr q \<Longrightarrow> Prepare q = Inr q"
  by (auto simp: Initialize_result Prepare_def)

lemma Finalize_result:
  assumes "bb_storage p = [0x59, 0xE9, 0, 0, op] @ body" and "bb_rpos p = 0" and "length body < 65535"
  shows "Finalize p = Inr (p\<lparr>bb_rpos := 5, bb_storage := wire_bytes (m_opcode p) body\<rparr>)"
proof -
  have size: "bb_size p = 5 + length body"
    using assms(1) by (simp add: bb_size_def)
  have r1: "bb_read 2 p = Inr ([0x59, 0xE9], p\<lparr>bb_rpos := 2\<rparr>)"
    using assms(1,2) bb_read_here [of p "[]" "[0x59, 0xE9]" "[0, 0, op] @ body" 2] by simp
  have r2: "bb_read 2 (p\<lparr>bb_rpos := 2\<rparr>) = Inr ([0, 0], p\<lparr>bb_rpos := 4\<rparr>)"
    using assms(1,2) bb_read_here [of "p\<lparr>bb_rpos := 2\<rparr>" "[0x59, 0xE9]" "[0, 0]" "[op] @ body" 2] by simp
  have r3: "bb_read 1 (p\<lparr>bb_rpos := 4\<rparr>) = Inr ([op], p\<lparr>bb_rpos := 5\<rparr>)"
    using assms(1,2) bb_read_here [of "p\<lparr>bb_rpos := 4\<rparr>" "[0x59, 0xE9, 0, 0]" "[op]" body 1] by simp
  have sz: "(of_nat (bb_size p) - 4 :: u16) = of_nat (length body + 1)"
    using size by simp
  have "unat (of_nat (length body + 1) :: u16) = length body + 1"
    using assms(3) unfolding unat_of_nat by (intro mod_less) simp
  then have "(of_nat (length body + 1) :: u16) \<noteq> 0"
    by (metis add_is_0 one_neq_zero unat_0)
  with r1 r2 r3 sz size assms(1) show ?thesis
    by (simp add: Finalize_def Let_def bb_put_def bb_size_def wire_bytes_def header_bytes_def
        overwrite_def le_bytes_2)
qed

lemma build_Finalize:
  assumes "length (concat (map field_bytes fs)) < 65535"
  shows "bindR (build_packet opcode fs) Finalize =
    Inr \<lparr>bb_rpos = 5, bb_wpos = 5 + length (concat (map field_bytes fs)),
         bb_storage = wire_bytes opcode (concat (map field_bytes fs)),
         m_opcode = opcode, m_prepared = True\<rparr>"
proof -
  let ?p = "(WorldPacket_default False)\<lparr>bb_rpos := 0, bb_wpos := 5,
     bb_storage := [0x59, 0xE9, 0, 0, opcode], m_opcode := opcode, m_prepared := True\<rparr>"
  have "foldR put_field fs ?p = Inr (bb_extend (concat (map field_bytes fs)) ?p)"
    using assms by (intro put_fields_end) (simp_all add: bb_at_end_def bb_size_def)
  then show ?thesis
    using assms Finalize_result [of "bb_extend (concat (map field_bytes fs)) ?p" opcode]
    by (simp add: build_packet_def Initialize_result WorldPacket_default_def bb_extend_def)
qed

text \<open>C9: a packet that is initialised with an opcode, filled with scalars and finalised is, byte for
  byte, the frame of the protocol: the magic \<open>59 E9\<close>, the encoded length of opcode and body, the
  encoded opcode, and the encoded body.\<close>

theorem packet_wire_format:
  assumes "length (concat (map field_bytes fs)) < 65535"
  shows "bindR (build_packet opcode fs) Finalize =
    Inr \<lparr>bb_rpos = 5, bb_wpos = 5 + length (concat (map field_bytes fs)),
         bb_storage = wire_bytes opcode (concat (map field_bytes fs)),
         m_opcode = opcode, m_prepared = True\<rparr>"
  using assms by (rule build_Finalize)

theorem packet_wire_format_witness:
  "bindR (build_packet 0x14 [FU8 8]) Finalize =
    Inr \<lparr>bb_rpos = 5, bb_wpos = 6, bb_storage = [0x59, 0xE9, 0xAF, 0xAD, 0xB9, 0xA5],
         m_opcode = 0x14, m_prepared = True\<rparr>"
  using packet_wire_format [of "[FU8 8]" "0x14"]
  by (simp add: wire_bytes_def header_bytes_def enc_u8_def Encode_u8_def Encode_u16_def
      UINT8_ENCODER_def UINT16_ENCODER_def le_bytes_2)

text \<open>A body of 65535 bytes wraps the 16 bit length to zero, which \<open>Finalize\<close> takes for the
  placeholder already being right: the length field is left as the raw zero of \<open>Prepare\<close>, so the
  frame announces a length that is not the one it has.\<close>

theorem Finalize_length_wrap:
  assumes "length body = 65535" and "bb_rpos p = 0" and "bb_storage p = [0x59, 0xE9, 0, 0, op] @ body"
  shows "\<exists>q. Finalize p = Inr q \<and> take 4 (bb_storage q) = [0x59, 0xE9, 0, 0] \<and>
    take 4 (bb_storage q) \<noteq> take 4 (wire_bytes (m_opcode p) body)"
proof -
  have size: "bb_size p = 65540"
    using assms by (simp add: bb_size_def)
  have r1: "bb_read 2 p = Inr ([0x59, 0xE9], p\<lparr>bb_rpos := 2\<rparr>)"
    using assms bb_read_here [of p "[]" "[0x59, 0xE9]" "[0, 0, op] @ body" 2] by simp
  have r2: "bb_read 2 (p\<lparr>bb_rpos := 2\<rparr>) = Inr ([0, 0], p\<lparr>bb_rpos := 4\<rparr>)"
    using assms bb_read_here [of "p\<lparr>bb_rpos := 2\<rparr>" "[0x59, 0xE9]" "[0, 0]" "[op] @ body" 2] by simp
  have r3: "bb_read 1 (p\<lparr>bb_rpos := 4\<rparr>) = Inr ([op], p\<lparr>bb_rpos := 5\<rparr>)"
    using assms bb_read_here [of "p\<lparr>bb_rpos := 4\<rparr>" "[0x59, 0xE9, 0, 0]" "[op]" body 1] by simp
  from r1 r2 r3 size assms show ?thesis
    by (simp add: Finalize_def Let_def bb_put_def bb_size_def wire_bytes_def header_bytes_def
        overwrite_def le_bytes_2 Encode_u16_def UINT16_ENCODER_def)
qed

theorem Finalize_length_wrap_witness:
  "\<exists>q. Finalize \<lparr>bb_rpos = 0, bb_wpos = 65540,
       bb_storage = [0x59, 0xE9, 0, 0, 7] @ replicate 65535 0, m_opcode = 7, m_prepared = True\<rparr> = Inr q \<and>
     take 4 (bb_storage q) = [0x59, 0xE9, 0, 0]"
proof -
  have "length (replicate 65535 (0 :: u8)) = 65535" by (rule length_replicate)
  from Finalize_length_wrap [OF this, of "\<lparr>bb_rpos = 0, bb_wpos = 65540,
       bb_storage = [0x59, 0xE9, 0, 0, 7] @ replicate 65535 0, m_opcode = 7, m_prepared = True\<rparr>" 7]
  show ?thesis unfolding world_packet.select_convs byte_buffer.select_convs by blast
qed

end
