(* ===== verification/WorldSocket.thy ===== *)
theory WorldSocket
  imports WorldPacket
begin

text \<open>
  A client connection (\<open>src/game/WorldSocket.cpp\<close>): cutting the byte stream into packets,
  dispatching them, the authentication handler and the queue of packets to send. The input buffer of the
  socket library (\<open>CircularBuffer\<close> in \<open>TcpSocket.cpp\<close>) is the list of the bytes received and not yet read, of at
  most \<open>TCP_BUFSIZE_READ\<close> bytes: a chunk that does not fit is dropped as a whole. The two data bases
  are the rows the handler's statements select and update; \<open>wld_players\<close> are the sessions that have a player;
  \<open>md5\<close> is a parameter.
\<close>

record account_row =
  acc_id :: u32
  acc_md5pass :: bytes
  acc_online :: u8
  acc_gmlevel :: u32

record character_row =
  chr_account :: u32
  chr_online :: u8

record socket_state =
  ibuf :: bytes
  sck_remaining :: u16
  sck_cmd :: u8
  sck_session :: "(u32 \<times> u32) option"
  sck_recvQueue :: "world_packet list"
  sck_sendQueue :: "world_packet list"
  sck_recv_cnt :: u32
  sck_send_cnt :: u32
  sck_sent :: bytes
  sck_closing :: bool
  wld_sessions :: "u32 \<rightharpoonup> u32"
  wld_players :: "u32 \<Rightarrow> bool"
  db_accounts :: "account_row list"
  db_characters :: "character_row list"

definition CMSG_LOGON_CHALLENGE :: u8 where "CMSG_LOGON_CHALLENGE = 0"
definition CMSG_AUTH_RESPONSE :: u8 where "CMSG_AUTH_RESPONSE = 1"
definition SMSG_AUTH_LOGON :: u8 where "SMSG_AUTH_LOGON = 1"

subsection \<open>Sending\<close>

definition SendPacket :: "world_packet \<Rightarrow> socket_state \<Rightarrow> socket_state res" where
  "SendPacket p s =
     bindR (Finalize p) (\<lambda>pck. Inr (s\<lparr>sck_sendQueue := sck_sendQueue s @ [pck]\<rparr>))"

definition send_new :: "u8 \<Rightarrow> field list \<Rightarrow> socket_state \<Rightarrow> socket_state res" where
  "send_new opcode fs s = bindR (build_packet opcode fs) (\<lambda>p. SendPacket p s)"

text \<open>\<open>Update\<close> drains the queue into the socket; \<open>SendBuf\<close> is what the socket sends.\<close>

fun drain_queue :: "world_packet list \<Rightarrow> socket_state \<Rightarrow> socket_state" where
  "drain_queue [] s = s"
| "drain_queue (p # ps) s =
     drain_queue ps (s\<lparr>sck_send_cnt := sck_send_cnt s + 1,
       sck_sent := (if bb_size p \<noteq> 0 then sck_sent s @ bb_storage p else sck_sent s)\<rparr>)"

definition socket_Update :: "socket_state \<Rightarrow> socket_state" where
  "socket_Update s = drain_queue (sck_sendQueue s) (s\<lparr>sck_sendQueue := []\<rparr>)"

definition HandleLogonChallenge :: "socket_state \<Rightarrow> socket_state res" where
  "HandleLogonChallenge s =
     bindR (send_new 0x01 [FU8 0x09, FU8 0x02] s) (\<lambda>s1. send_new 0x14 [FU8 0x08] s1)"

definition CloseSocket :: "socket_state \<Rightarrow> socket_state" where
  "CloseSocket s = s\<lparr>sck_closing := True, sck_session := None\<rparr>"

subsection \<open>Authentication\<close>

text \<open>
  \<open>World::RemoveSession\<close> ends without a \<open>return\<close>: the value its caller tests is whatever was in
  the return register, the argument \<open>junk\<close>. Deleting this connection's own session closes the
  connection. The player of a deleted session is logged out: \<open>LogoutPlayer\<close> clears the online columns of the account and
  of its characters; what else becomes of the player is \<open>delete_session\<close> of \<open>Sessions\<close>.
\<close>

definition set_offline :: "u32 \<Rightarrow> socket_state \<Rightarrow> socket_state" where
  "set_offline i s =
     s\<lparr>db_accounts := map (\<lambda>r. if acc_id r = i then r\<lparr>acc_online := 0\<rparr> else r) (db_accounts s),
       db_characters := map (\<lambda>r. if chr_account r = i then r\<lparr>chr_online := 0\<rparr> else r) (db_characters s)\<rparr>"

definition RemoveSession :: "bool \<Rightarrow> u32 \<Rightarrow> socket_state \<Rightarrow> bool \<times> socket_state" where
  "RemoveSession junk i s =
     (case wld_sessions s i of
        None \<Rightarrow> (junk, s)
      | Some _ \<Rightarrow>
          let s0 = (if wld_players s i then set_offline i s else s);
              s1 = (case sck_session s0 of
                      Some (acc, _) \<Rightarrow> if acc = i then (CloseSocket s0)\<lparr>sck_recvQueue := []\<rparr> else s0
                    | None \<Rightarrow> s0)
          in (junk, s1\<lparr>wld_sessions := (wld_sessions s1)(i := None), wld_players := (wld_players s1)(i := False)\<rparr>))"

definition find_account :: "u32 \<Rightarrow> bytes \<Rightarrow> account_row list \<Rightarrow> account_row option" where
  "find_account i pass rows = find (\<lambda>r. acc_id r = i \<and> acc_md5pass r = pass) rows"

definition set_online :: "u32 \<Rightarrow> account_row list \<Rightarrow> account_row list" where
  "set_online i rows = map (\<lambda>r. if acc_id r = i then r\<lparr>acc_online := 1\<rparr> else r) rows"

definition read_credentials :: "world_packet \<Rightarrow> (u32 \<times> bytes) res" where
  "read_credentials savedPacket =
     bindR (op_read dec_u8 1 savedPacket) (\<lambda>(lenPassword, p1).
     bindR (op_read dec_u32 4 p1) (\<lambda>(accountId, p2).
     bindR (op_read dec_u32 4 p2) (\<lambda>(patchVer, p3).
     Inr (accountId, fst (op_read_string [] p3)))))"

definition open_session :: "u32 \<Rightarrow> u32 \<Rightarrow> socket_state \<Rightarrow> socket_state" where
  "open_session accountId security s =
     s\<lparr>db_accounts := set_online accountId (db_accounts s),
       sck_session := Some (accountId, security), sck_recvQueue := [],
       wld_sessions := (wld_sessions s)(accountId \<mapsto> security), wld_players := (wld_players s)(accountId := False)\<rparr>"

definition has_character :: "u32 \<Rightarrow> character_row list \<Rightarrow> bool" where
  "has_character accountId rows = list_ex (\<lambda>c. chr_account c = accountId \<and> chr_online c = 0) rows"

definition authenticate ::
  "(bytes \<Rightarrow> bytes) \<Rightarrow> bool \<Rightarrow> u32 \<Rightarrow> bytes \<Rightarrow> socket_state \<Rightarrow> (bool \<times> socket_state) res" where
  "authenticate md5 junk accountId password s =
     (case find_account accountId (md5 password) (db_accounts s) of
        None \<Rightarrow>
          bindR (send_new SMSG_AUTH_LOGON [FU16 0x0006] s) (\<lambda>s1.
          bindR (HandleLogonChallenge s1) (\<lambda>s2. Inr (False, s2)))
      | Some row \<Rightarrow>
          if acc_online row \<noteq> 0
          then bindR (send_new 0x00 [FU8 0x13] s) (\<lambda>s1. Inr (False, s1))
          else
            case RemoveSession junk accountId s of (ok, s1) \<Rightarrow>
            if \<not> ok then Inr (False, s1)
            else
              let s2 = open_session accountId (acc_gmlevel row) s1
              in if has_character accountId (db_characters s2)
                 then Inr (True, s2)
                 else bindR (send_new 0x01 [FU8 0x03, FU8 0x00] s2) (\<lambda>s3. Inr (False, s3)))"

definition HandleAuthSession ::
  "(bytes \<Rightarrow> bytes) \<Rightarrow> bool \<Rightarrow> world_packet \<Rightarrow> socket_state \<Rightarrow> (bool \<times> socket_state) res" where
  "HandleAuthSession md5 junk recvPacket s =
     (if bb_size recvPacket < 1 + 4 + 4 then Inr (False, s)
      else bindR (read_credentials recvPacket)
             (\<lambda>(accountId, password). authenticate md5 junk accountId password s))"

subsection \<open>The handler cannot fail, and leaves the input alone\<close>

definition sent_packet :: "u8 \<Rightarrow> field list \<Rightarrow> world_packet" where
  "sent_packet opcode fs =
     \<lparr>bb_rpos = 5, bb_wpos = 5 + length (concat (map field_bytes fs)),
      bb_storage = wire_bytes opcode (concat (map field_bytes fs)),
      m_opcode = opcode, m_prepared = True\<rparr>"

lemma send_new_result:
  assumes "length (concat (map field_bytes fs)) < 65535"
  shows "send_new op fs s = Inr (s\<lparr>sck_sendQueue := sck_sendQueue s @ [sent_packet op fs]\<rparr>)"
proof -
  have "bindR (build_packet op fs) Finalize = Inr (sent_packet op fs)"
    unfolding sent_packet_def by (rule build_Finalize [OF assms])
  then show ?thesis
    by (auto simp: send_new_def SendPacket_def bindR_eq_Inr)
qed

lemma send_small [simp]:
  "send_new op [FU8 a] s = Inr (s\<lparr>sck_sendQueue := sck_sendQueue s @ [sent_packet op [FU8 a]]\<rparr>)"
  "send_new op [FU8 a, FU8 b] s =
     Inr (s\<lparr>sck_sendQueue := sck_sendQueue s @ [sent_packet op [FU8 a, FU8 b]]\<rparr>)"
  "send_new op [FU16 c] s = Inr (s\<lparr>sck_sendQueue := sck_sendQueue s @ [sent_packet op [FU16 c]]\<rparr>)"
  by (simp_all add: send_new_result wire_widths)

lemma HandleLogonChallenge_result [simp]:
  "HandleLogonChallenge s = Inr (s\<lparr>sck_sendQueue := sck_sendQueue s @
     [sent_packet 0x01 [FU8 0x09, FU8 0x02], sent_packet 0x14 [FU8 0x08]]\<rparr>)"
  by (simp add: HandleLogonChallenge_def)

text \<open>What the socket does with the input buffer alone.\<close>

definition set_input :: "bytes \<Rightarrow> u16 \<Rightarrow> socket_state \<Rightarrow> socket_state" where
  "set_input bs r s = s\<lparr>ibuf := bs, sck_remaining := r\<rparr>"

lemma set_input_fields [simp]:
  "ibuf (set_input bs r s) = bs" "sck_remaining (set_input bs r s) = r"
  by (simp_all add: set_input_def)

lemma set_input_frame [simp]:
  "db_accounts (set_input bs r s) = db_accounts s"
  "db_characters (set_input bs r s) = db_characters s"
  "sck_sendQueue (set_input bs r s) = sck_sendQueue s"
  "wld_sessions (set_input bs r s) = wld_sessions s"
  "(set_input bs r s)\<lparr>sck_sendQueue := q\<rparr> = set_input bs r (s\<lparr>sck_sendQueue := q\<rparr>)"
  "wld_players (set_input bs r s) = wld_players s"
  "(set_input bs r s)\<lparr>db_accounts := a, sck_session := e, sck_recvQueue := g, wld_sessions := w, wld_players := p\<rparr> =
     set_input bs r (s\<lparr>db_accounts := a, sck_session := e, sck_recvQueue := g, wld_sessions := w, wld_players := p\<rparr>)"
  by (simp_all add: set_input_def)

lemma RemoveSession_input:
  "RemoveSession junk i (set_input bs r s) = map_prod id (set_input bs r) (RemoveSession junk i s)"
  by (simp add: RemoveSession_def set_input_def set_offline_def CloseSocket_def Let_def split: option.splits prod.splits)

lemma authenticate_input:
  "\<exists>ok t. authenticate md5 junk acc pw s = Inr (ok, t) \<and>
     authenticate md5 junk acc pw (set_input bs r s) = Inr (ok, set_input bs r t)"
proof -
  obtain ok s1 where "RemoveSession junk acc s = (ok, s1)"
    by fastforce
  then show ?thesis
    by (cases "find_account acc (md5 pw) (db_accounts s)")
       (auto simp: authenticate_def RemoveSession_input Let_def open_session_def)
qed

lemma read_credentials_total:
  assumes "bb_rpos p = 0" and "9 \<le> bb_size p"
  shows "\<exists>acc pw. read_credentials p = Inr (acc, pw)"
  using assms by (auto simp: read_credentials_def op_read_def bb_read_def bb_read_at_def bb_size_def)

lemma HandleAuthSession_input:
  assumes "bb_rpos p = 0"
  shows "\<exists>ok t. HandleAuthSession md5 junk p s = Inr (ok, t) \<and>
     HandleAuthSession md5 junk p (set_input bs r s) = Inr (ok, set_input bs r t)"
proof (cases "bb_size p < 9")
  case True
  then show ?thesis by (auto simp: HandleAuthSession_def)
next
  case False
  then obtain acc pw where "read_credentials p = Inr (acc, pw)"
    using read_credentials_total [of p] assms by auto
  with False authenticate_input [of md5 junk acc pw s bs r] show ?thesis
    by (simp add: HandleAuthSession_def)
qed

subsection \<open>Reading\<close>

definition QueuePacket :: "world_packet \<Rightarrow> socket_state \<Rightarrow> socket_state" where
  "QueuePacket p s =
     (case sck_session s of
        Some _ \<Rightarrow> s\<lparr>sck_recvQueue := sck_recvQueue s @ [p]\<rparr>
      | None \<Rightarrow> s)"

definition dispatch ::
  "(bytes \<Rightarrow> bytes) \<Rightarrow> bool \<Rightarrow> world_packet \<Rightarrow> socket_state \<Rightarrow> socket_state res" where
  "dispatch md5 junk p s =
     (if m_opcode p = CMSG_LOGON_CHALLENGE then Inr s
      else if m_opcode p = CMSG_AUTH_RESPONSE
      then bindR (HandleAuthSession md5 junk p s)
             (\<lambda>(ok, s'). Inr (if ok then QueuePacket p s' else s'))
      else Inr (QueuePacket p s))"

text \<open>The packet built from a complete body.\<close>

definition body_packet :: "u8 \<Rightarrow> bytes \<Rightarrow> world_packet" where
  "body_packet op body =
     (let p = bb_resize (length body) (SetOpcode op (WorldPacket_opcode (ucast op)))
      in p\<lparr>bb_storage := body\<rparr>)"

text \<open>
  The loop of \<open>OnRead\<close>. A header, once read, is kept in \<open>_remaining\<close> and \<open>_cmd\<close>, so that the
  next call goes on with the body.
\<close>

definition read_header :: "socket_state \<Rightarrow> socket_state" where
  "read_header s =
     s\<lparr>ibuf := drop 5 (ibuf s),
       sck_remaining := Encode_u16 (of_le_bytes (take 2 (drop 2 (ibuf s)))) - 1,
       sck_cmd := Encode_u8 (ibuf s ! 4)\<rparr>"

definition take_body :: "socket_state \<Rightarrow> world_packet \<times> socket_state" where
  "take_body s =
     (body_packet (sck_cmd s) (take (unat (sck_remaining s)) (ibuf s)),
      s\<lparr>ibuf := drop (unat (sck_remaining s)) (ibuf s), sck_remaining := 0,
        sck_recv_cnt := sck_recv_cnt s + 1\<rparr>)"

lemma dispatch_input:
  assumes "bb_rpos p = 0"
  shows "\<exists>t. dispatch md5 junk p s = Inr t \<and>
     dispatch md5 junk p (set_input bs r s) = Inr (set_input bs r t)"
proof -
  have q: "QueuePacket p (set_input bs r t) = set_input bs r (QueuePacket p t)" for t
    by (simp add: QueuePacket_def set_input_def split: option.splits)
  show ?thesis
    using HandleAuthSession_input [OF assms, of md5 junk s bs r] by (auto simp: dispatch_def q)
qed

lemma dispatch_keeps_input:
  assumes "bb_rpos p = 0" and "dispatch md5 junk p s = Inr t"
  shows "ibuf t = ibuf s \<and> sck_remaining t = sck_remaining s"
proof -
  have "s = set_input (ibuf s) (sck_remaining s) s"
    by (simp add: set_input_def)
  with dispatch_input [OF assms(1), of md5 junk s "ibuf s" "sck_remaining s"] assms(2)
  show ?thesis
    by (metis sum.inject(2) set_input_fields)
qed

lemma body_packet_fields [simp]:
  "bb_rpos (body_packet op body) = 0" "m_opcode (body_packet op body) = op"
  "bb_storage (body_packet op body) = body"
  by (simp_all add: body_packet_def SetOpcode_def WorldPacket_opcode_def bb_resize_def Let_def)

function OnRead :: "(bytes \<Rightarrow> bytes) \<Rightarrow> bool \<Rightarrow> socket_state \<Rightarrow> socket_state res" where
  "OnRead md5 junk s =
     (if sck_remaining s = 0 \<and> length (ibuf s) < 5 then Inr s
      else
        let s1 = (if sck_remaining s = 0 then read_header s else s)
        in if length (ibuf s1) < unat (sck_remaining s1) then Inr s1
           else case take_body s1 of (p, s2) \<Rightarrow> bindR (dispatch md5 junk p s2) (OnRead md5 junk))"
  by pat_completeness auto
termination
proof (relation "measure (\<lambda>(m, j, s). length (ibuf s))", goal_cases)
  case 1
  then show ?case by simp
next
  case (2 md5 junk s s1 p s2 t)
  have "0 < unat (sck_remaining s)" if "sck_remaining s \<noteq> 0"
    using that by (simp add: unat_gt_0)
  with 2 show ?case
    by (auto simp: take_body_def read_header_def unat_eq_0 dest!: dispatch_keeps_input [rotated] split: if_splits)
qed

declare OnRead.simps [simp del]

definition TCP_BUFSIZE_READ :: nat where [simp]: "TCP_BUFSIZE_READ = 16400"

text \<open>
  \<open>CircularBuffer::Write\<close>, with the cells from \<open>m_b\<close> to \<open>m_t\<close> as a list; and a call of \<open>TcpSocket::OnRead\<close>, which
  has one chunk from the network, followed by the loop. An overflow is only logged.
\<close>

definition ibuf_Write :: "bytes \<Rightarrow> socket_state \<Rightarrow> bool \<times> socket_state" where
  "ibuf_Write bs s =
     (if length (ibuf s) + length bs > TCP_BUFSIZE_READ then (False, s) else (True, s\<lparr>ibuf := ibuf s @ bs\<rparr>))"

definition receive :: "(bytes \<Rightarrow> bytes) \<Rightarrow> bool \<Rightarrow> bytes \<Rightarrow> socket_state \<Rightarrow> socket_state res" where
  "receive md5 junk bs s = OnRead md5 junk (snd (ibuf_Write bs s))"

subsection \<open>Framing does not depend on how the network cuts the stream\<close>

text \<open>A buffer without a bound, and the runs in which the real one drops nothing.\<close>

definition accept :: "(bytes \<Rightarrow> bytes) \<Rightarrow> bool \<Rightarrow> bytes \<Rightarrow> socket_state \<Rightarrow> socket_state res" where
  "accept md5 junk bs s = OnRead md5 junk (s\<lparr>ibuf := ibuf s @ bs\<rparr>)"

fun roomy :: "(bytes \<Rightarrow> bytes) \<Rightarrow> bool \<Rightarrow> bytes list \<Rightarrow> socket_state \<Rightarrow> bool" where
  "roomy md5 junk [] s = True"
| "roomy md5 junk (c # cs) s =
     (fst (ibuf_Write c s) \<and> (case receive md5 junk c s of Inl _ \<Rightarrow> True | Inr t \<Rightarrow> roomy md5 junk cs t))"

lemma receive_fits: "fst (ibuf_Write c s) \<Longrightarrow> receive md5 junk c s = accept md5 junk c s"
  by (simp add: receive_def accept_def ibuf_Write_def split: if_splits)

lemma roomy_run: "roomy md5 junk cs s \<Longrightarrow> foldR (receive md5 junk) cs s = foldR (accept md5 junk) cs s"
proof (induction cs arbitrary: s)
  case (Cons c cs)
  then show ?case by (cases "accept md5 junk c s") (auto simp: receive_fits)
qed simp

lemma roomy_append:
  "roomy md5 junk (as @ bs) s \<longleftrightarrow>
   roomy md5 junk as s \<and> (case foldR (receive md5 junk) as s of Inl _ \<Rightarrow> True | Inr t \<Rightarrow> roomy md5 junk bs t)"
proof (induction as arbitrary: s)
  case (Cons a as)
  then show ?case by (cases "receive md5 junk a s") simp_all
qed simp

definition feed :: "bytes \<Rightarrow> socket_state \<Rightarrow> socket_state" where
  "feed b s = s\<lparr>ibuf := ibuf s @ b\<rparr>"

lemma feed_fields [simp]:
  "ibuf (feed b s) = ibuf s @ b" "sck_remaining (feed b s) = sck_remaining s"
  "sck_cmd (feed b s) = sck_cmd s"
  by (simp_all add: feed_def)

lemma feed_feed: "feed c (feed b s) = feed (b @ c) s"
  by (simp add: feed_def)

lemma read_header_feed: "5 \<le> length (ibuf s) \<Longrightarrow> read_header (feed b s) = feed b (read_header s)"
  by (simp add: read_header_def feed_def nth_append)

lemma take_body_feed:
  "unat (sck_remaining s) \<le> length (ibuf s) \<Longrightarrow>
   take_body (feed b s) = map_prod id (feed b) (take_body s)"
  by (simp add: take_body_def feed_def)

lemma take_body_rpos: "take_body s = (p, t) \<Longrightarrow> bb_rpos p = 0"
  by (auto simp: take_body_def)

lemma dispatch_feed:
  assumes "bb_rpos p = 0"
  shows "\<exists>t. dispatch md5 junk p s = Inr t \<and> dispatch md5 junk p (feed b s) = Inr (feed b t)"
proof -
  have f: "feed b s = set_input (ibuf s @ b) (sck_remaining s) s"
    by (simp add: feed_def set_input_def)
  obtain t where t: "dispatch md5 junk p s = Inr t"
      "dispatch md5 junk p (feed b s) = Inr (set_input (ibuf s @ b) (sck_remaining s) t)"
    unfolding f using dispatch_input [OF assms] by blast
  with dispatch_keeps_input [OF assms t(1)] show ?thesis
    by (simp add: feed_def set_input_def)
qed

lemma OnRead_body:
  "length (ibuf s) < unat (sck_remaining s) \<Longrightarrow> OnRead md5 junk s = Inr s"
  "sck_remaining s \<noteq> 0 \<Longrightarrow> unat (sck_remaining s) \<le> length (ibuf s) \<Longrightarrow>
     OnRead md5 junk s = (case take_body s of (p, s2) \<Rightarrow> bindR (dispatch md5 junk p s2) (OnRead md5 junk))"
  by (auto simp: OnRead.simps [of md5 junk s])

lemma OnRead_header:
  "sck_remaining s = 0 \<Longrightarrow> 5 \<le> length (ibuf s) \<Longrightarrow>
     OnRead md5 junk s =
       (let s1 = read_header s
        in if length (ibuf s1) < unat (sck_remaining s1) then Inr s1
           else case take_body s1 of (p, s2) \<Rightarrow> bindR (dispatch md5 junk p s2) (OnRead md5 junk))"
  by (simp add: OnRead.simps [of md5 junk s])

lemma OnRead_header_body:
  assumes "sck_remaining s = 0" and "5 \<le> length (ibuf s)" and "sck_remaining (read_header s) \<noteq> 0"
  shows "OnRead md5 junk s = OnRead md5 junk (read_header s)"
  using assms by (cases "length (ibuf (read_header s)) < unat (sck_remaining (read_header s))")
    (simp_all add: OnRead_header OnRead_body Let_def)

lemma OnRead_feed: "\<exists>t. OnRead md5 junk s = Inr t \<and> OnRead md5 junk (feed b s) = OnRead md5 junk (feed b t)"
proof (induction md5 junk s rule: OnRead.induct)
  case (1 md5 junk s)
  let ?s1 = "if sck_remaining s = 0 then read_header s else s"
  consider (short) "sck_remaining s = 0" "length (ibuf s) < 5"
    | (partial) "sck_remaining s = 0 \<Longrightarrow> 5 \<le> length (ibuf s)" "length (ibuf ?s1) < unat (sck_remaining ?s1)"
    | (whole) "sck_remaining s = 0 \<Longrightarrow> 5 \<le> length (ibuf s)" "unat (sck_remaining ?s1) \<le> length (ibuf ?s1)"
    by fastforce
  then show ?case
  proof cases
    case short
    then show ?thesis by (simp add: OnRead.simps [of md5 junk s])
  next
    case partial
    show ?thesis
    proof (cases "sck_remaining s = 0")
      case True
      with partial have "OnRead md5 junk (feed b s) = OnRead md5 junk (feed b (read_header s))"
        by (subst OnRead_header_body) (auto simp: read_header_feed)
      with True partial show ?thesis
        by (simp add: OnRead_header Let_def)
    next
      case False
      with partial show ?thesis by (simp add: OnRead_body)
    qed
  next
    case whole
    obtain p s2 where body: "take_body ?s1 = (p, s2)" by fastforce
    obtain t where t: "dispatch md5 junk p s2 = Inr t" "dispatch md5 junk p (feed b s2) = Inr (feed b t)"
      using dispatch_feed [OF take_body_rpos [OF body]] by blast
    have run: "OnRead md5 junk s = OnRead md5 junk t"
      using whole body t by (cases "sck_remaining s = 0") (simp_all add: OnRead_header OnRead_body Let_def)
    have run': "OnRead md5 junk (feed b s) = OnRead md5 junk (feed b t)"
      using whole body t
      by (cases "sck_remaining s = 0")
         (simp_all add: OnRead_header OnRead_body Let_def read_header_feed take_body_feed)
    have "\<not> (sck_remaining s = 0 \<and> length (ibuf s) < 5)" "\<not> length (ibuf ?s1) < unat (sck_remaining ?s1)"
      using whole by auto
    from "1.IH" [OF this(1) refl this(2) body [symmetric] t(1)] run run' show ?thesis
      by simp
  qed
qed

lemma accept_append:
  "bindR (accept md5 junk a s) (accept md5 junk b) = accept md5 junk (a @ b) s"
proof -
  obtain t where "OnRead md5 junk (feed a s) = Inr t"
      "OnRead md5 junk (feed b (feed a s)) = OnRead md5 junk (feed b t)"
    using OnRead_feed by blast
  then show ?thesis
    by (simp add: accept_def feed_def)
qed

lemma accept_chunks:
  assumes "chunks \<noteq> []"
  shows "foldR (accept md5 junk) chunks s = accept md5 junk (concat chunks) s"
  using assms
proof (induction chunks arbitrary: s)
  case (Cons c cs)
  show ?case
  proof (cases "cs = []")
    case True
    then show ?thesis by (cases "accept md5 junk c s") simp_all
  next
    case False
    then have "foldR (accept md5 junk) cs = accept md5 junk (concat cs)"
      by (rule ext [OF Cons.IH])
    then show ?thesis by (simp add: accept_append)
  qed
qed simp

lemma accept_total: "\<exists>t. accept md5 junk bs s = Inr t \<and> OnRead md5 junk t = Inr t"
  using OnRead_feed [of md5 junk "feed bs s" "[]"] by (auto simp: accept_def feed_def)

text \<open>C1: the packets a connection delivers do not depend on how the network cuts its byte stream, as long as
  no chunk overflows the input buffer: two ways to cut the same bytes leave the socket, its
  session and its queues in the same state, and no chunk makes the reader or the
  authentication handler fail an assertion. A chunk that overflows the buffer afterwards is lost as a whole
  and changes nothing.\<close>

theorem framing_chunk_independent:
  assumes "concat cs = concat ds" and "cs \<noteq> []" and "ds \<noteq> []" and "roomy md5 junk cs s" and "roomy md5 junk ds s"
  shows "foldR (receive md5 junk) cs s = foldR (receive md5 junk) ds s \<and>
    (\<exists>t. foldR (receive md5 junk) cs s = Inr t \<and>
      (\<forall>c. 16400 < length (ibuf t) + length c \<longrightarrow> receive md5 junk c t = Inr t))"
proof -
  obtain t where t: "accept md5 junk (concat ds) s = Inr t" "OnRead md5 junk t = Inr t" using accept_total by blast
  have "foldR (receive md5 junk) cs s = Inr t" "foldR (receive md5 junk) ds s = Inr t"
    using roomy_run [OF assms(4)] roomy_run [OF assms(5)] accept_chunks [OF assms(2), of md5 junk s]
      accept_chunks [OF assms(3), of md5 junk s] t(1) by (simp_all add: assms(1))
  then show ?thesis using t(2) by (auto simp: receive_def ibuf_Write_def)
qed

text \<open>A connection that is between two packets, of a client without data base rows.\<close>

definition idle_socket :: "(u32 \<times> u32) option \<Rightarrow> socket_state" where
  "idle_socket sess = \<lparr>ibuf = [], sck_remaining = 0, sck_cmd = 0, sck_session = sess,
     sck_recvQueue = [], sck_sendQueue = [], sck_recv_cnt = 0, sck_send_cnt = 0, sck_sent = [],
     sck_closing = False, wld_sessions = (\<lambda>_. None), wld_players = (\<lambda>_. False), db_accounts = [], db_characters = []\<rparr>"

lemma idle_socket_fields [simp]:
  "ibuf (idle_socket e) = []" "sck_remaining (idle_socket e) = 0" "sck_session (idle_socket e) = e" "sck_recvQueue (idle_socket e) = []"
  by (simp_all add: idle_socket_def)

lemma one_chunk: "length (ibuf s) + length c \<le> 16400 \<Longrightarrow> roomy md5 junk [c] s"
  by (simp add: ibuf_Write_def split: sum.split)

lemma accept_short: "sck_remaining s = 0 \<Longrightarrow> length (ibuf s) + length bs < 5 \<Longrightarrow> accept md5 junk bs s = Inr (s\<lparr>ibuf := ibuf s @ bs\<rparr>)"
  by (simp add: accept_def OnRead.simps)

theorem framing_chunk_independent_witness:
  "foldR (receive (\<lambda>x. x) True) [[0x59, 0xE9, 0xAF], [0xAD, 0xA8, 0xAC]] (idle_socket (Some (3, 0))) =
     foldR (receive (\<lambda>x. x) True) [[0x59, 0xE9, 0xAF, 0xAD, 0xA8, 0xAC]] (idle_socket (Some (3, 0)))"
proof -
  let ?s = "idle_socket (Some (3, 0))"
  have "receive (\<lambda>x. x) True [0x59, 0xE9, 0xAF] ?s = Inr (?s\<lparr>ibuf := [0x59, 0xE9, 0xAF]\<rparr>)"
    by (subst receive_fits) (simp_all add: ibuf_Write_def accept_short)
  then have "roomy (\<lambda>x. x) True [[0x59, 0xE9, 0xAF], [0xAD, 0xA8, 0xAC]] ?s"
    using one_chunk [of "?s\<lparr>ibuf := [0x59, 0xE9, 0xAF]\<rparr>" "[0xAD, 0xA8, 0xAC]" "\<lambda>x. x" True] by (simp add: ibuf_Write_def)
  then show ?thesis
    using framing_chunk_independent [of "[[0x59, 0xE9, 0xAF], [0xAD, 0xA8, 0xAC]]" "[[0x59, 0xE9, 0xAF, 0xAD, 0xA8, 0xAC]]"
        "\<lambda>x. x" True ?s] one_chunk [of ?s "[0x59, 0xE9, 0xAF, 0xAD, 0xA8, 0xAC]" "\<lambda>x. x" True] by simp
qed

subsection \<open>What one side sends the other side receives\<close>

lemma of_le_bytes_u16: "of_le_bytes (le_bytes 2 w) = (w :: u16)"
  by (rule of_le_bytes_le_bytes) simp

lemma header_of_wire:
  assumes "ibuf s = wire_bytes op body @ rest"
  shows "read_header s = s\<lparr>ibuf := body @ rest, sck_remaining := of_nat (length body), sck_cmd := op\<rparr>"
proof -
  let ?w = "Encode_u16 (of_nat (length body + 1))"
  have "ibuf s = [0x59, 0xE9] @ le_bytes 2 ?w @ [Encode_u8 op] @ body @ rest"
    using assms by (simp add: wire_bytes_def header_bytes_def)
  then have "take 2 (drop 2 (ibuf s)) = le_bytes 2 ?w" and "ibuf s ! 4 = Encode_u8 op"
      and "drop 5 (ibuf s) = body @ rest"
    by (simp_all add: nth_append)
  then show ?thesis
    by (simp add: read_header_def of_le_bytes_u16)
qed

lemma OnRead_wire:
  assumes "sck_remaining s = 0" and "ibuf s = wire_bytes op body @ rest" and "length body < 65535"
  shows "OnRead md5 junk s =
    bindR (dispatch md5 junk (body_packet op body)
        (s\<lparr>sck_cmd := op, ibuf := rest, sck_remaining := 0, sck_recv_cnt := sck_recv_cnt s + 1\<rparr>))
      (OnRead md5 junk)"
proof -
  have "unat (of_nat (length body) :: u16) = length body"
    using assms(3) unfolding unat_of_nat by (intro mod_less) simp
  with assms show ?thesis
    by (simp add: OnRead_header header_of_wire Let_def take_body_def)
qed

lemma OnRead_wires:
  assumes "sck_remaining s = 0" and "sck_session s = Some e"
    and "ibuf s = concat (map (\<lambda>(op, body). wire_bytes op body) ps)"
    and "\<And>op body. (op, body) \<in> set ps \<Longrightarrow> 1 < op \<and> length body < 65535"
  shows "\<exists>t. OnRead md5 junk s = Inr t \<and> ibuf t = [] \<and> sck_remaining t = 0 \<and>
    sck_session t = Some e \<and> sck_sendQueue t = sck_sendQueue s \<and>
    sck_recvQueue t = sck_recvQueue s @ map (\<lambda>(op, body). body_packet op body) ps"
  using assms
proof (induction ps arbitrary: s)
  case Nil
  then show ?case by (simp add: OnRead.simps [of md5 junk s])
next
  case (Cons x ps)
  obtain op body where x: "x = (op, body)" by fastforce
  let ?s = "s\<lparr>sck_cmd := op, ibuf := concat (map (\<lambda>(op, body). wire_bytes op body) ps),
      sck_remaining := 0, sck_recv_cnt := sck_recv_cnt s + 1,
      sck_recvQueue := sck_recvQueue s @ [body_packet op body]\<rparr>"
  have "1 < op" "length body < 65535"
    using Cons.prems(4) x by auto
  then have "op \<noteq> 0" "op \<noteq> 1"
    by auto
  then have "OnRead md5 junk s = OnRead md5 junk ?s"
    using Cons.prems(1-3) x \<open>length body < 65535\<close>
    by (subst OnRead_wire [where op = op and body = body and
          rest = "concat (map (\<lambda>(op, body). wire_bytes op body) ps)"])
       (simp_all add: dispatch_def CMSG_LOGON_CHALLENGE_def CMSG_AUTH_RESPONSE_def QueuePacket_def)
  moreover have "\<exists>t. OnRead md5 junk ?s = Inr t \<and> ibuf t = [] \<and> sck_remaining t = 0 \<and>
      sck_session t = Some e \<and> sck_sendQueue t = sck_sendQueue ?s \<and>
      sck_recvQueue t = sck_recvQueue ?s @ map (\<lambda>(op, body). body_packet op body) ps"
    using Cons.prems by (intro Cons.IH) auto
  ultimately show ?case
    by (simp add: x)
qed

text \<open>
  What waits in the buffer after a part of such a stream: less than a header, or less than the body whose
  header has been read.
\<close>

lemma OnRead_rest:
  assumes "OnRead md5 junk s = Inr t"
  shows "sck_remaining t = 0 \<and> length (ibuf t) < 5 \<or> length (ibuf t) < unat (sck_remaining t)"
  using assms
proof (induction md5 junk s rule: OnRead.induct)
  case (1 md5 junk s)
  show ?case
  proof (cases "sck_remaining s = 0 \<and> length (ibuf s) < 5")
    case True
    then show ?thesis using "1.prems" by (simp add: OnRead.simps [of md5 junk s])
  next
    case False
    define s1 where "s1 = (if sck_remaining s = 0 then read_header s else s)"
    obtain p s2 where body: "take_body s1 = (p, s2)" by fastforce
    have run: "OnRead md5 junk s = (if length (ibuf s1) < unat (sck_remaining s1) then Inr s1
        else bindR (dispatch md5 junk p s2) (OnRead md5 junk))"
      using False body unfolding s1_def by (subst OnRead.simps) (auto simp: Let_def)
    show ?thesis
    proof (cases "length (ibuf s1) < unat (sck_remaining s1)")
      case True
      then show ?thesis using run "1.prems" by simp
    next
      case whole: False
      then have "bindR (dispatch md5 junk p s2) (OnRead md5 junk) = Inr t" using run "1.prems" by simp
      then obtain u where "dispatch md5 junk p s2 = Inr u" "OnRead md5 junk u = Inr t" by (auto simp: bindR_eq_Inr)
      then show ?thesis using "1.IH" [OF False s1_def whole body [symmetric]] by blast
    qed
  qed
qed

lemma OnRead_part:
  assumes "sck_remaining s = 0" and "sck_session s = Some e"
    and "ibuf s @ rest = concat (map (\<lambda>(op, body). wire_bytes op body) ps)"
    and "\<And>op body. (op, body) \<in> set ps \<Longrightarrow> 1 < op \<and> length body < 65535"
    and "OnRead md5 junk s = Inr t"
  shows "sck_remaining t = 0 \<or> (\<exists>(op, body) \<in> set ps. unat (sck_remaining t) = length body)"
  using assms
proof (induction ps arbitrary: s)
  case Nil
  then show ?case by (simp add: OnRead.simps [of md5 junk s])
next
  case (Cons x ps)
  obtain op body where x: "x = (op, body)" by fastforce
  let ?W = "concat (map (\<lambda>(op, body). wire_bytes op body) ps)"
  have ok: "1 < op" "length body < 65535" using Cons.prems(4) x by auto
  have n: "unat (of_nat (length body) :: u16) = length body"
    using ok(2) unfolding unat_of_nat by (intro mod_less) simp
  have stream: "ibuf s @ rest = wire_bytes op body @ ?W" using Cons.prems(3) x by simp
  show ?case
  proof (cases "length (ibuf s) < 5 + length body")
    case True
    show ?thesis
    proof (cases "length (ibuf s) < 5")
      case True
      then have "t = s" using Cons.prems(1,5) by (simp add: OnRead.simps [of md5 junk s])
      then show ?thesis using Cons.prems(1) by simp
    next
      case False
      have "feed rest (read_header s) = (feed rest s)\<lparr>ibuf := body @ ?W, sck_remaining := of_nat (length body), sck_cmd := op\<rparr>"
        using header_of_wire [of "feed rest s" op body ?W] stream False by (simp add: read_header_feed)
      then have "sck_remaining (feed rest (read_header s)) = of_nat (length body)" by simp
      then have r: "sck_remaining (read_header s) = of_nat (length body)" by simp
      have "length (ibuf (read_header s)) < length body" using True False by (simp add: read_header_def)
      then have "t = read_header s" using Cons.prems(1,5) False r n by (simp add: OnRead_header Let_def)
      then show ?thesis using r n x by auto
    qed
  next
    case False
    have len: "length (wire_bytes op body) = 5 + length body" by (simp add: wire_bytes_def header_bytes_def)
    obtain us where "ibuf s = wire_bytes op body @ us \<and> us @ rest = ?W \<or> ibuf s @ us = wire_bytes op body \<and> rest = us @ ?W"
      using stream unfolding append_eq_append_conv2 by blast
    moreover have "us = []" if "ibuf s @ us = wire_bytes op body"
    proof -
      have "length (ibuf s) + length us = 5 + length body" using arg_cong [OF that, of length] len by simp
      then have "length us = 0" using False by linarith
      then show ?thesis by simp
    qed
    ultimately obtain b where b: "ibuf s = wire_bytes op body @ b" "b @ rest = ?W" by force
    let ?s = "s\<lparr>sck_cmd := op, ibuf := b, sck_remaining := 0, sck_recv_cnt := sck_recv_cnt s + 1,
        sck_recvQueue := sck_recvQueue s @ [body_packet op body]\<rparr>"
    have "op \<noteq> 0" "op \<noteq> 1" using ok(1) by auto
    then have "OnRead md5 junk s = OnRead md5 junk ?s"
      using Cons.prems(1,2) ok(2)
      by (subst OnRead_wire [OF _ b(1)])
        (simp_all add: dispatch_def CMSG_LOGON_CHALLENGE_def CMSG_AUTH_RESPONSE_def QueuePacket_def)
    then have "OnRead md5 junk ?s = Inr t" using Cons.prems(5) by simp
    then have "sck_remaining t = 0 \<or> (\<exists>(op, body) \<in> set ps. unat (sck_remaining t) = length body)"
      using Cons.prems(2,4) b(2) by (intro Cons.IH [of ?s]) auto
    then show ?thesis by auto
  qed
qed

text \<open>Chunks that leave room for the longest body never overflow the buffer.\<close>

lemma messages_roomy:
  assumes "sck_remaining s = 0" and "sck_session s = Some e" and "ibuf s = []"
    and "\<And>op body. (op, body) \<in> set ps \<Longrightarrow> 1 < op \<and> length body \<le> m" and "5 \<le> m"
    and "\<forall>c \<in> set cs. length c + m \<le> 16400"
    and "concat cs @ rest = concat (map (\<lambda>(op, body). wire_bytes op body) ps)"
  shows "roomy md5 junk cs s"
  using assms(6,7)
proof (induction cs arbitrary: rest rule: rev_induct)
  case (snoc c cs)
  have r: "roomy md5 junk cs s" using snoc.IH [of "c @ rest"] snoc.prems by simp
  show ?case
  proof (cases "cs = []")
    case True
    then show ?thesis using snoc.prems(1) assms(3,5) one_chunk [of s c] by simp
  next
    case False
    obtain t where t: "accept md5 junk (concat cs) s = Inr t" using accept_total by blast
    have run: "OnRead md5 junk (s\<lparr>ibuf := concat cs\<rparr>) = Inr t" using t assms(3) by (simp add: accept_def)
    have "m < 65535" if "cs \<noteq> []" using that snoc.prems(1) by (cases cs) auto
    then have "1 < op \<and> length body < 65535" if "(op, body) \<in> set ps" for op body
      using that assms(4) [of op body] False by fastforce
    then have "sck_remaining t = 0 \<or> (\<exists>(op, body) \<in> set ps. unat (sck_remaining t) = length body)"
      using assms(1,2) snoc.prems(2) run by (intro OnRead_part [of "s\<lparr>ibuf := concat cs\<rparr>" e "c @ rest" ps md5 junk t]) simp_all
    then have "length (ibuf t) \<le> m" using OnRead_rest [OF run] assms(4,5) by fastforce
    then have "roomy md5 junk [c] t" using snoc.prems(1) by (intro one_chunk) auto
    moreover have "foldR (receive md5 junk) cs s = Inr t"
      using roomy_run [OF r] accept_chunks [OF False, of md5 junk s] t by simp
    ultimately show ?thesis using r by (simp add: roomy_append)
  qed
qed simp

text \<open>C3: packets built and finalised by the packet writer, sent back to back and received in
  chunks that leave room in the input buffer for the longest body, arrive in the queue of the session complete
  and in order: each with its opcode and with exactly its body, and nothing is left in the input buffer.\<close>

theorem packets_roundtrip:
  assumes "sck_remaining s = 0" and "ibuf s = []" and "sck_session s = Some e"
    and "list_all (\<lambda>(op, fs). 1 < op \<and> length (concat (map field_bytes fs)) \<le> m) msgs"
    and "chunks \<noteq> []" and "5 \<le> m" and "\<forall>c \<in> set chunks. length c + m \<le> 16400"
    and "concat chunks = concat (map (\<lambda>(op, fs). case bindR (build_packet op fs) Finalize of
                                         Inr p \<Rightarrow> bb_storage p | Inl _ \<Rightarrow> []) msgs)"
  shows "\<exists>t. foldR (receive md5 junk) chunks s = Inr t \<and> ibuf t = [] \<and> sck_remaining t = 0 \<and>
    map (\<lambda>p. (m_opcode p, bb_storage p)) (sck_recvQueue t) =
      map (\<lambda>p. (m_opcode p, bb_storage p)) (sck_recvQueue s) @
      map (\<lambda>(op, fs). (op, concat (map field_bytes fs))) msgs"
proof -
  let ?ps = "map (\<lambda>(op, fs). (op, concat (map field_bytes fs))) msgs"
  have m: "m < 65535" using assms(5,7) by (cases chunks) auto
  have stream: "concat chunks = concat (map (\<lambda>(op, body). wire_bytes op body) ?ps)"
    unfolding assms(8) map_map using assms(4) m
    by (intro arg_cong [of _ _ concat] map_cong) (auto simp: build_Finalize list_all_iff)
  have small: "1 < op \<and> length body \<le> m" if "(op, body) \<in> set ?ps" for op body
    using that assms(4) by (auto simp: list_all_iff)
  then have "1 < op \<and> length body < 65535" if "(op, body) \<in> set ?ps" for op body
    using that m by fastforce
  then obtain t where "OnRead md5 junk (s\<lparr>ibuf := concat chunks\<rparr>) = Inr t" "ibuf t = []"
      "sck_remaining t = 0"
      "sck_recvQueue t = sck_recvQueue s @ map (\<lambda>(op, body). body_packet op body) ?ps"
    using OnRead_wires [of "s\<lparr>ibuf := concat chunks\<rparr>" e ?ps md5 junk] assms(1,3) stream by auto
  moreover have "roomy md5 junk chunks s"
    by (rule messages_roomy [where ps = ?ps and rest = "[]", OF assms(1,3,2) small assms(6,7)]) (assumption, simp add: stream)
  ultimately show ?thesis
    using assms(2) roomy_run accept_chunks [OF assms(5), of md5 junk s] by (auto simp: accept_def o_def split_def)
qed

theorem packets_roundtrip_witness:
  "\<exists>t. foldR (receive (\<lambda>x. x) True) [[0x59], [0xE9, 0xAF, 0xAD, 0xA8, 0xA5, 0x59, 0xE9, 0xAC], [0xAD, 0xA9]]
       (idle_socket (Some (3, 0))) = Inr t \<and>
     map (\<lambda>p. (m_opcode p, bb_storage p)) (sck_recvQueue t) = [(5, [0xA5]), (4, [])]"
  using packets_roundtrip [of "idle_socket (Some (3, 0))" "(3, 0)" 5 "[(5, [FU8 8]), (4, [])]"
      "[[0x59], [0xE9, 0xAF, 0xAD, 0xA8, 0xA5, 0x59, 0xE9, 0xAC], [0xAD, 0xA9]]" "\<lambda>x. x" True]
  by (auto simp: build_Finalize wire_bytes_def header_bytes_def enc_u8_def
      Encode_u8_def Encode_u16_def UINT8_ENCODER_def UINT16_ENCODER_def le_bytes_2)

end
