(* ===== verification/Util.thy ===== *)
theory Util
  imports Legacy_Prelude "HOL-Library.Signed_Division"
begin

text \<open>
  The string, time and random number helpers of \<open>src/shared/Util.cpp\<close> and \<open>Util.h\<close>. Strings
  are lists of characters. An \<open>int32\<close> that the code only reads as a number is the 32 bit word read with
  \<open>sint\<close>.
\<close>

subsection \<open>Splitting a string\<close>

fun StrSplit_loop :: "'c list \<Rightarrow> 'c list \<Rightarrow> 'c list \<Rightarrow> 'c list list \<Rightarrow> 'c list list" where
  "StrSplit_loop sep [] s r = (if s \<noteq> [] then r @ [s] else r)"
| "StrSplit_loop sep (c # cs) s r =
     (if c \<in> set sep
      then StrSplit_loop sep cs [] (if s \<noteq> [] then r @ [s] else r)
      else StrSplit_loop sep cs (s @ [c]) r)"

definition StrSplit :: "'c list \<Rightarrow> 'c list \<Rightarrow> 'c list list" where
  "StrSplit src sep = StrSplit_loop sep src [] []"

lemma StrSplit_loop_concat:
  "set s \<inter> set sep = {} \<Longrightarrow>
   concat (StrSplit_loop sep src s r) = concat r @ s @ filter (\<lambda>c. c \<notin> set sep) src"
  by (induction src arbitrary: s r) simp_all

definition token :: "'c list \<Rightarrow> 'c list \<Rightarrow> bool" where
  "token sep t \<longleftrightarrow> t \<noteq> [] \<and> set t \<inter> set sep = {}"

lemma StrSplit_loop_tokens:
  "set s \<inter> set sep = {} \<Longrightarrow> list_all (token sep) r \<Longrightarrow> list_all (token sep) (StrSplit_loop sep src s r)"
  by (induction src arbitrary: s r) (simp_all add: token_def)

lemma StrSplit_loop_token:
  "set t \<inter> set sep = {} \<Longrightarrow> StrSplit_loop sep (t @ src) s r = StrSplit_loop sep src (s @ t) r"
  by (induction t arbitrary: s) auto

lemma StrSplit_loop_acc: "StrSplit_loop sep src s (r @ r') = r @ StrSplit_loop sep src s r'"
  by (induction sep src s r' rule: StrSplit_loop.induct) auto

text \<open>A list of tokens written out with one separator after each of them.\<close>

definition join_tokens :: "'c \<Rightarrow> 'c list list \<Rightarrow> 'c list" where
  "join_tokens c ts = concat (map (\<lambda>t. t @ [c]) ts)"

lemma StrSplit_join:
  "list_all (\<lambda>t. t \<noteq> [] \<and> c \<notin> set t) ts \<Longrightarrow> StrSplit (join_tokens c ts) [c] = ts"
proof (induction ts)
  case Nil
  then show ?case by (simp add: StrSplit_def join_tokens_def)
next
  case (Cons t ts)
  then have "StrSplit_loop [c] (join_tokens c (t # ts)) [] [] =
      StrSplit_loop [c] (join_tokens c ts) [] [t]"
    using StrSplit_loop_token [of t "[c]" "[c] @ join_tokens c ts" "[]" "[]"]
    by (simp add: join_tokens_def)
  moreover have "StrSplit_loop [c] (join_tokens c ts) [] ([t] @ []) =
      [t] @ StrSplit_loop [c] (join_tokens c ts) [] []"
    by (rule StrSplit_loop_acc)
  ultimately show ?case
    using Cons by (simp add: StrSplit_def)
qed

text \<open>splitting keeps exactly the characters that are not separators, in order: every token is
  non-empty and free of separators, the tokens concatenate to the source without its separators;
  and a list of such tokens joined with a separator splits back into itself.\<close>

theorem StrSplit_spec:
  "(\<forall>t. t \<in> set (StrSplit src sep) \<longrightarrow> t \<noteq> [] \<and> set t \<inter> set sep = {}) \<and>
   concat (StrSplit src sep) = filter (\<lambda>c. c \<notin> set sep) src \<and>
   (list_all (\<lambda>t. t \<noteq> [] \<and> c \<notin> set t) ts \<longrightarrow> StrSplit (join_tokens c ts) [c] = ts)"
  using StrSplit_loop_tokens [of "[]" sep "[]" src] StrSplit_loop_concat [of "[]" sep src "[]"]
    StrSplit_join [of c ts]
  by (simp add: StrSplit_def list_all_iff token_def)

theorem StrSplit_spec_witness:
  "concat (StrSplit ''1  23'' '' '') = ''123'' \<and>
   [] \<notin> set (StrSplit ''1  23'' '' '') \<and>
   StrSplit (join_tokens CHR '' '' [''1'', ''23'']) '' '' = [''1'', ''23'']"
  using StrSplit_spec [of "''1  23''" "'' ''" "CHR '' ''" "[''1'', ''23'']"] by auto

subsection \<open>Stripping invisible characters\<close>

definition invChars :: bytes where "invChars = [32, 9, 7]"

record strip_state =
  strp_str :: bytes
  strp_wpos :: nat
  strp_space :: bool

definition strip_step :: "nat \<Rightarrow> strip_state \<Rightarrow> strip_state" where
  "strip_step pos s =
     (let str = strp_str s; wpos = strp_wpos s in
      if str ! pos \<in> set invChars
      then if \<not> strp_space s
           then s\<lparr>strp_str := str[wpos := 32], strp_wpos := wpos + 1, strp_space := True\<rparr>
           else s
      else if wpos \<noteq> pos
           then s\<lparr>strp_str := str[wpos := str ! pos], strp_wpos := wpos + 1, strp_space := False\<rparr>
           else s\<lparr>strp_wpos := wpos + 1, strp_space := False\<rparr>)"

definition stripLineInvisibleChars :: "bytes \<Rightarrow> bytes" where
  "stripLineInvisibleChars str =
     (let s = fold strip_step [0..<length str] \<lparr>strp_str = str, strp_wpos = 0, strp_space = False\<rparr>
      in if strp_wpos s < length (strp_str s) then take (strp_wpos s) (strp_str s) else strp_str s)"

text \<open>The specification: every run of invisible characters becomes one space.\<close>

fun squeeze :: "bool \<Rightarrow> bytes \<Rightarrow> bytes" where
  "squeeze sp [] = []"
| "squeeze sp (c # cs) =
     (if c \<in> set invChars then if sp then squeeze True cs else 32 # squeeze True cs
      else c # squeeze False cs)"

lemma take_Suc_update: "n < length xs \<Longrightarrow> take (Suc n) (xs[n := v]) = take n xs @ [v]"
  by (simp add: take_Suc_conv_app_nth)

lemma strip_loop:
  assumes "strp_wpos s \<le> pos" and "drop pos (strp_str s) = rest" and "pos + length rest = length (strp_str s)"
  shows "\<exists>t. fold strip_step [pos..<pos + length rest] s = t \<and> length (strp_str t) = length (strp_str s) \<and>
    strp_wpos t \<le> length (strp_str t) \<and>
    take (strp_wpos t) (strp_str t) = take (strp_wpos s) (strp_str s) @ squeeze (strp_space s) rest"
  using assms
proof (induction rest arbitrary: pos s)
  case Nil
  then show ?case by simp
next
  case (Cons c cs)
  let ?s = "strip_step pos s"
  from Cons.prems have c: "strp_str s ! pos = c" and pos: "pos < length (strp_str s)"
    and cs: "drop (Suc pos) (strp_str s) = cs"
    by (auto simp: nth_via_drop drop_Suc tl_drop [symmetric])
  have len: "length (strp_str ?s) = length (strp_str s)" and wp: "strp_wpos ?s \<le> Suc pos"
    and rest: "drop (Suc pos) (strp_str ?s) = cs"
    using Cons.prems(1) cs by (auto simp: strip_step_def Let_def)
  have step: "take (strp_wpos ?s) (strp_str ?s) @ squeeze (strp_space ?s) cs =
      take (strp_wpos s) (strp_str s) @ squeeze (strp_space s) (c # cs)"
    using Cons.prems(1) c pos by (auto simp: strip_step_def Let_def take_Suc_update take_Suc_conv_app_nth)
  have "[pos..<pos + length (c # cs)] = pos # [Suc pos..<pos + length (c # cs)]"
    by (rule upt_conv_Cons) simp
  with Cons.IH [of ?s "Suc pos"] Cons.prems(3) len wp rest step show ?case
    by (simp del: upt_Suc)
qed

text \<open>The in-place loop of \<open>stripLineInvisibleChars\<close>, with its read and write positions and the
  final \<open>erase\<close>, computes exactly the specification: each maximal run of blanks, tabs and bells
  becomes a single space and every other character is kept.\<close>

theorem stripLineInvisibleChars_spec: "stripLineInvisibleChars str = squeeze False str"
proof -
  obtain t where "fold strip_step [0..<length str] \<lparr>strp_str = str, strp_wpos = 0, strp_space = False\<rparr> = t"
    and "length (strp_str t) = length str" "strp_wpos t \<le> length (strp_str t)"
    and "take (strp_wpos t) (strp_str t) = squeeze False str"
    using strip_loop [of "\<lparr>strp_str = str, strp_wpos = 0, strp_space = False\<rparr>" 0 str] by auto
  then show ?thesis
    by (auto simp: stripLineInvisibleChars_def Let_def)
qed

subsection \<open>Durations as text\<close>

definition MINUTE :: nat where "MINUTE = 60"
definition HOUR :: nat where "HOUR = MINUTE * 60"
definition DAY :: nat where "DAY = HOUR * 24"

definition digit_char :: "nat \<Rightarrow> char" where "digit_char d = char_of (48 + d)"

definition isdigit :: "char \<Rightarrow> bool" where
  "isdigit c \<longleftrightarrow> 48 \<le> (of_char c :: nat) \<and> (of_char c :: nat) \<le> 57"

definition atoi_digit :: "char \<Rightarrow> nat" where "atoi_digit c = of_char c - 48"

text \<open>\<open>operator<<\<close> of an output stream on an unsigned integer.\<close>

fun show_nat :: "nat \<Rightarrow> string" where
  "show_nat n = (if n < 10 then [digit_char n] else show_nat (n div 10) @ [digit_char (n mod 10)])"

declare show_nat.simps [simp del]

definition unit_text :: "nat \<Rightarrow> string \<Rightarrow> string" where
  "unit_text n unit = (if n \<noteq> 0 then show_nat n @ unit else [])"

definition secsToTimeString :: "u32 \<Rightarrow> bool \<Rightarrow> bool \<Rightarrow> string" where
  "secsToTimeString timeInSecs shortText hoursOnly =
     (let t = unat timeInSecs;
          secs = t mod MINUTE; minutes = t mod HOUR div MINUTE;
          hours = t mod DAY div HOUR; days = t div DAY
      in unit_text days (if shortText then ''d'' else '' Day(s) '') @
         unit_text hours (if shortText then ''h'' else '' Hour(s) '') @
         (if \<not> hoursOnly
          then unit_text minutes (if shortText then ''m'' else '' Minute(s) '') @
               unit_text secs (if shortText then ''s'' else '' Second(s).'')
          else []))"

definition unit_multiplier :: "char \<Rightarrow> u32 option" where
  "unit_multiplier c =
     (if c = CHR ''d'' then Some (of_nat DAY)
      else if c = CHR ''h'' then Some (of_nat HOUR)
      else if c = CHR ''m'' then Some (of_nat MINUTE)
      else if c = CHR ''s'' then Some 1
      else None)"

fun TimeStringToSecs_loop :: "string \<Rightarrow> u32 \<Rightarrow> u32 \<Rightarrow> u32" where
  "TimeStringToSecs_loop [] secs buffer = secs"
| "TimeStringToSecs_loop (c # cs) secs buffer =
     (if isdigit c then TimeStringToSecs_loop cs secs (buffer * 10 + of_nat (atoi_digit c))
      else case unit_multiplier c of
             None \<Rightarrow> 0
           | Some multiplier \<Rightarrow> TimeStringToSecs_loop cs (secs + buffer * multiplier) 0)"

definition TimeStringToSecs :: "string \<Rightarrow> u32" where
  "TimeStringToSecs timestring = TimeStringToSecs_loop timestring 0 0"

lemma digit_char_digit [simp]:
  "d < 10 \<Longrightarrow> isdigit (digit_char d)" "d < 10 \<Longrightarrow> atoi_digit (digit_char d) = d"
  by (simp_all add: isdigit_def atoi_digit_def digit_char_def)

lemma parse_show_nat:
  "TimeStringToSecs_loop (show_nat n @ cs) secs 0 = TimeStringToSecs_loop cs secs (of_nat n)"
proof (induction n arbitrary: cs rule: show_nat.induct)
  case (1 n)
  show ?case
  proof (cases "n < 10")
    case True
    then show ?thesis by (simp add: show_nat.simps [of n])
  next
    case False
    have "(of_nat (n div 10) * 10 + of_nat (n mod 10) :: u32) = of_nat (n div 10 * 10 + n mod 10)"
      by (simp only: of_nat_add of_nat_mult of_nat_numeral)
    also have "\<dots> = of_nat n"
      by (simp only: div_mult_mod_eq)
    finally show ?thesis
      using False 1 by (simp add: show_nat.simps [of n])
  qed
qed

lemma parse_unit_text:
  "\<not> isdigit u \<Longrightarrow> unit_multiplier u = Some m \<Longrightarrow>
   TimeStringToSecs_loop (unit_text n [u] @ cs) secs 0 = TimeStringToSecs_loop cs (secs + of_nat n * m) 0"
  by (simp add: unit_text_def parse_show_nat)

lemma unit_chars:
  "\<not> isdigit CHR ''d''" "\<not> isdigit CHR ''h''" "\<not> isdigit CHR ''m''" "\<not> isdigit CHR ''s''"
  by (simp_all add: isdigit_def)

lemma split_duration:
  "t div DAY * DAY + t mod DAY div HOUR * HOUR + t mod HOUR div MINUTE * MINUTE + t mod MINUTE = (t::nat)"
proof -
  have "t mod DAY mod HOUR = t mod HOUR" "t mod HOUR mod MINUTE = t mod MINUTE"
    by (simp_all add: DAY_def HOUR_def MINUTE_def mod_mod_cancel)
  then have "t mod DAY = t mod DAY div HOUR * HOUR + t mod HOUR"
      "t mod HOUR = t mod HOUR div MINUTE * MINUTE + t mod MINUTE"
    by (metis div_mult_mod_eq)+
  then show ?thesis
    by (metis div_mult_mod_eq add.assoc)
qed

text \<open>the short form of a duration is parsed back to the same number of seconds, for every
  \<open>uint32\<close>: units that are zero are left out by the printer and nothing wraps in the parser.\<close>

theorem time_string_roundtrip: "TimeStringToSecs (secsToTimeString t True False) = t"
proof -
  let ?n = "unat t"
  let ?d = "?n div DAY" and ?h = "?n mod DAY div HOUR" and ?m = "?n mod HOUR div MINUTE"
  let ?s = "?n mod MINUTE"
  have "secsToTimeString t True False =
      unit_text ?d ''d'' @ unit_text ?h ''h'' @ unit_text ?m ''m'' @ unit_text ?s ''s'' @ []"
    by (simp add: secsToTimeString_def Let_def)
  then have "TimeStringToSecs (secsToTimeString t True False) =
      of_nat ?d * of_nat DAY + of_nat ?h * of_nat HOUR + of_nat ?m * of_nat MINUTE + of_nat ?s"
    unfolding TimeStringToSecs_def
    by (simp add: parse_unit_text unit_chars unit_multiplier_def del: append_Nil2)
  also have "\<dots> = of_nat (?d * DAY + ?h * HOUR + ?m * MINUTE + ?s)"
    by (simp only: of_nat_add of_nat_mult)
  also have "\<dots> = t"
    by (simp only: split_duration) simp
  finally show ?thesis .
qed

subsection \<open>Random numbers\<close>

text \<open>
  \<open>irand\<close>: the generator state \<open>holdrand\<close> and the result. All of the arithmetic is \<open>uint32\<close>
  arithmetic; the range test is on \<open>int32\<close>.
\<close>

definition irand :: "i32 \<Rightarrow> i32 \<Rightarrow> u32 \<Rightarrow> (i32 \<times> u32) res" where
  "irand mn mx holdrand =
     (if \<not> sint (mx - mn) < 32768 then Inl AssertFailed
      else
        let mx' = mx + 1;
            holdrand' = holdrand * 214013 + 2531011
        in Inr (drop_bit 15 (drop_bit 17 holdrand' * (mx' - mn)) + mn, holdrand'))"

definition urand :: "u32 \<Rightarrow> u32 \<Rightarrow> u32 \<Rightarrow> (u32 \<times> u32) res" where
  "urand mn mx holdrand = irand mn mx holdrand"

definition roll_chance_i :: "i32 \<Rightarrow> u32 \<Rightarrow> (bool \<times> u32) res" where
  "roll_chance_i chance holdrand =
     bindR (irand 0 99 holdrand) (\<lambda>(r, h). Inr (sint r < sint chance, h))"

lemma sint_of_int_32: "- (2 ^ 31) \<le> x \<Longrightarrow> x < 2 ^ 31 \<Longrightarrow> sint (word_of_int x :: 32 word) = x"
  by (simp add: sint_sbintrunc' signed_take_bit_int_eq_self)

lemma scaled_below:
  assumes "(x::nat) < 2 ^ 15" and "0 < d"
  shows "x * d div 2 ^ 15 < d"
proof -
  have "x * d < 2 ^ 15 * d" using assms by (intro mult_strict_right_mono) auto
  then show ?thesis by (simp add: div_less_iff_less_mult mult.commute)
qed

lemma irand_offset:
  assumes "sint mn \<le> sint mx" and "sint mx - sint mn < 32768"
  shows "\<exists>k. unat (drop_bit 15 (drop_bit 17 h * (mx + 1 - mn)) :: u32) = k \<and>
    int k \<le> sint mx - sint mn"
proof -
  let ?d = "nat (sint mx - sint mn + 1)"
  have eq: "mx + 1 - mn = word_of_int (sint mx - sint mn + 1)"
    by simp
  have d: "unat (mx + 1 - mn) = ?d" "0 < ?d" "?d \<le> 32768"
    using assms uint_word_of_int_eq [of "sint mx - sint mn + 1", where ?'a = 32]
    unfolding eq [symmetric] by (simp_all add: take_bit_int_eq_self nat_uint_eq [symmetric])
  have x: "unat (drop_bit 17 h :: u32) < 2 ^ 15"
    using unsigned_less [of h, where ?'a = nat] by (simp add: unat_drop_bit_eq drop_bit_eq_div [where ?'a = nat] div_less_iff_less_mult)
  have "unat (drop_bit 17 h) * ?d < 2 ^ 15 * 2 ^ 16"
    using x d by (intro mult_strict_mono) auto
  then have "unat (drop_bit 17 h * (mx + 1 - mn)) = unat (drop_bit 17 h) * ?d"
    using d(1) by (simp add: unat_word_ariths)
  then have "unat (drop_bit 15 (drop_bit 17 h * (mx + 1 - mn))) = unat (drop_bit 17 h) * ?d div 2 ^ 15"
    by (simp add: unat_drop_bit_eq drop_bit_eq_div [where ?'a = nat])
  moreover have "unat (drop_bit 17 h) * ?d div 2 ^ 15 < ?d"
    using x d(2) by (rule scaled_below)
  ultimately show ?thesis
    using assms by simp
qed

lemma sint_offset:
  fixes w mn mx :: "32 word"
  assumes "int (unat w) \<le> sint mx - sint mn"
  shows "sint (w + mn) = int (unat w) + sint mn"
proof -
  have "- (2 ^ 31) \<le> sint mn" "sint mx < 2 ^ 31"
    using sint_range_size [of mn] sint_range_size [of mx] by (simp_all add: word_size)
  moreover from this(1) have "- (2 ^ 31) \<le> int (unat w) + sint mn"
    by linarith
  moreover have "w + mn = word_of_int (int (unat w) + sint mn)"
    by simp
  ultimately show ?thesis
    using sint_of_int_32 [of "int (unat w) + sint mn"] assms by simp
qed

lemma irand_ok:
  assumes "sint mn \<le> sint mx" and "sint mx - sint mn < 32768"
  shows "\<exists>r h'. irand mn mx h = Inr (r, h') \<and> sint mn \<le> sint r \<and> sint r \<le> sint mx"
proof -
  let ?h = "h * 214013 + 2531011"
  let ?k = "unat (drop_bit 15 (drop_bit 17 ?h * (mx + 1 - mn)) :: u32)"
  have k: "int ?k \<le> sint mx - sint mn"
    using irand_offset [OF assms, of ?h] by auto
  then have "sint (drop_bit 15 (drop_bit 17 ?h * (mx + 1 - mn)) + mn) = int ?k + sint mn"
    by (rule sint_offset)
  moreover have "sint (mx - mn) = sint mx - sint mn"
    using sint_of_int_32 [of "sint mx - sint mn"] assms by simp
  ultimately show ?thesis
    using assms k by (simp add: irand_def Let_def)
qed

text \<open>\<open>irand\<close> returns a number of the closed range it is given whenever the range is well-formed and
  narrower than 32768, as the header comment promises; no step of its mixed signed and unsigned
  arithmetic wraps into another value.\<close>

theorem irand_range:
  assumes "sint mn \<le> sint mx" and "sint mx - sint mn < 32768"
  shows "\<exists>r h'. irand mn mx h = Inr (r, h') \<and> sint mn \<le> sint r \<and> sint r \<le> sint mx"
  using irand_ok [OF assms] by blast

theorem irand_range_witness:
  "\<exists>r h'. irand (word_of_int (- 5)) 10 0x89abcdef = Inr (r, h') \<and> - 5 \<le> sint r \<and> sint r \<le> 10"
  using irand_range [of "word_of_int (- 5)" 10 "0x89abcdef"] by simp

text \<open>
  \<open>rand32\<close>: Schrage's form of a multiplicative congruential generator. The intermediate values are
  \<open>int32\<close>; the model computes them as integers with the division of C.
\<close>

definition rand32_m :: int where "rand32_m = 2147483647"
definition rand32_a :: int where "rand32_a = 48271"
definition rand32_q :: int where "rand32_q = rand32_m sdiv rand32_a"
definition rand32_r :: int where "rand32_r = rand32_m smod rand32_a"

definition rand32_test :: "int \<Rightarrow> int" where
  "rand32_test st = rand32_a * (st smod rand32_q) - rand32_r * (st sdiv rand32_q)"

definition rand32 :: "int \<Rightarrow> int \<times> int" where
  "rand32 st =
     (let test = rand32_test st;
          st' = (if test > 0 then test else test + rand32_m)
      in (st' - 1, st'))"

definition RAND32_MAX :: int where "RAND32_MAX = 2147483645"

lemma rand32_consts: "rand32_q = 44488" "rand32_r = 3399"
  by (simp_all add: rand32_q_def rand32_r_def rand32_m_def rand32_a_def signed_divide_int_def
      signed_modulo_int_def)

lemma sdiv_nonneg: "0 \<le> (x::int) \<Longrightarrow> x sdiv 44488 = x div 44488" "0 \<le> x \<Longrightarrow> x smod 44488 = x mod 44488"
  by (auto simp: signed_divide_int_def signed_modulo_int_def sgn_if minus_div_mult_eq_mod)

lemma rand32_test_parts:
  assumes "0 < st"
  shows "\<exists>k l. st = 44488 * k + l \<and> k = st div 44488 \<and> 0 \<le> l \<and> l < 44488 \<and> 0 \<le> k \<and>
    rand32_test st = 48271 * l - 3399 * k"
  using assms
  by (intro exI [of _ "st div 44488"] exI [of _ "st mod 44488"])
     (simp add: rand32_test_def rand32_consts rand32_a_def sdiv_nonneg pos_imp_zdiv_nonneg_iff)

lemma rand32_test_bounds:
  assumes "0 < st" and "st < rand32_m"
  shows "- rand32_m < rand32_test st \<and> rand32_test st < rand32_m"
proof -
  obtain k l where "st = 44488 * k + l" "0 \<le> l" "l < 44488" "0 \<le> k" "rand32_test st = 48271 * l - 3399 * k"
    using rand32_test_parts [OF assms(1)] by auto
  with assms(2) show ?thesis
    unfolding rand32_m_def by linarith
qed

lemma rand32_test_eq:
  assumes "0 < st"
  shows "rand32_test st = rand32_a * st - rand32_m * (st div 44488)"
proof -
  obtain k l where "st = 44488 * k + l" "k = st div 44488" "rand32_test st = 48271 * l - 3399 * k"
    using rand32_test_parts [OF assms] by auto
  then show ?thesis
    unfolding rand32_m_def rand32_a_def by linarith
qed

text \<open>48271 is invertible modulo 2147483647.\<close>

lemma rand32_not_dvd:
  assumes "0 < st" and "st < rand32_m"
  shows "\<not> rand32_m dvd rand32_a * st"
proof
  assume "rand32_m dvd rand32_a * st"
  then have "rand32_m dvd 1899818559 * (rand32_a * st)"
    by (rule dvd_mult)
  then have "rand32_m dvd 1899818559 * (rand32_a * st) - rand32_m * (42704 * st)"
    by (intro dvd_diff) simp_all
  then have "rand32_m dvd st"
    by (simp add: rand32_a_def rand32_m_def)
  with assms show False
    using zdvd_not_zless by blast
qed

text \<open>One step of \<open>rand32\<close> is the minimal standard generator: the next state is
  48271 times the state modulo 2147483647, computed without leaving \<open>int32\<close>; from a state
  between 1 and 2147483646 it stays there, so the result is in \<open>0 .. RAND32_MAX\<close> for ever.\<close>

theorem rand32_minimal_standard:
  assumes "0 < st" and "st < 2147483647"
  shows "rand32 st = (48271 * st mod 2147483647 - 1, 48271 * st mod 2147483647) \<and>
    0 < snd (rand32 st) \<and> snd (rand32 st) < 2147483647 \<and>
    0 \<le> fst (rand32 st) \<and> fst (rand32 st) \<le> RAND32_MAX \<and>
    - (2 ^ 31) \<le> rand32_test st \<and> rand32_test st < 2 ^ 31"
proof -
  have st: "st < rand32_m" using assms by (simp add: rand32_m_def)
  let ?n = "rand32_a * st mod rand32_m"
  have n: "0 < ?n" "?n < rand32_m"
    using rand32_not_dvd [OF assms(1) st] by (auto simp: rand32_m_def dvd_eq_mod_eq_0 order_less_le)
  have b: "- rand32_m < rand32_test st" "rand32_test st < rand32_m"
    using rand32_test_bounds [OF assms(1) st] by auto
  have m: "rand32_test st mod rand32_m = ?n"
    using rand32_test_eq [OF assms(1)] by (simp add: mod_diff_right_eq [symmetric])
  have "(if rand32_test st > 0 then rand32_test st else rand32_test st + rand32_m) = ?n"
  proof (cases "rand32_test st > 0")
    case True
    then show ?thesis using m b by (metis mod_pos_pos_trivial less_le)
  next
    case False
    moreover have "rand32_test st \<noteq> 0"
      using m n by auto
    ultimately have "(rand32_test st + rand32_m) mod rand32_m = rand32_test st + rand32_m"
      using b by (intro mod_pos_pos_trivial) auto
    with False m show ?thesis by simp
  qed
  with n b show ?thesis
    by (simp add: rand32_def Let_def rand32_a_def rand32_m_def RAND32_MAX_def)
qed

theorem rand32_minimal_standard_witness:
  "snd (rand32 1) = 48271 \<and> fst (rand32 2147483646) \<le> RAND32_MAX"
  using rand32_minimal_standard [of 1] rand32_minimal_standard [of 2147483646]
  by (simp add: RAND32_MAX_def)

subsection \<open>Arithmetic on unsigned fields\<close>

text \<open>
  \<open>ApplyModUInt32Var\<close>: the field is read as an \<open>int32\<close>, modified with wrap-around, and a negative
  outcome becomes zero.
\<close>

definition ApplyModUInt32Var :: "u32 \<Rightarrow> i32 \<Rightarrow> bool \<Rightarrow> u32" where
  "ApplyModUInt32Var var val apply_it =
     (let cur = var + (if apply_it then val else - val)
      in if sint cur < 0 then 0 else cur)"

lemma ApplyModUInt32Var_nonneg: "0 \<le> sint (ApplyModUInt32Var v d b)"
  by (simp add: ApplyModUInt32Var_def Let_def)

subsection \<open>Player names\<close>

definition toupper :: "u8 \<Rightarrow> u8" where
  "toupper c = (if 97 \<le> c \<and> c \<le> 122 then c - 32 else c)"

definition tolower :: "u8 \<Rightarrow> u8" where
  "tolower c = (if 65 \<le> c \<and> c \<le> 90 then c + 32 else c)"

definition normalizePlayerName :: "bytes \<Rightarrow> bytes res" where
  "normalizePlayerName name =
     (case name of [] \<Rightarrow> Inl AssertFailed | c # cs \<Rightarrow> Inr (toupper c # map tolower cs))"

lemma tolower_idem: "tolower (tolower c) = tolower c"
  by (simp add: tolower_def word_le_nat_alt unat_word_ariths)

lemma toupper_idem: "toupper (toupper c) = toupper c"
proof (cases "97 \<le> c \<and> c \<le> 122")
  case True
  then have "32 \<le> c" by (simp add: word_le_nat_alt)
  with True have "unat (c - 32) = unat c - 32"
    by (simp add: unat_sub)
  moreover have "unat c \<le> 122"
    using True by (simp add: word_le_nat_alt)
  ultimately show ?thesis
    using True by (auto simp: toupper_def word_le_nat_alt)
next
  case False
  then show ?thesis by (simp add: toupper_def)
qed

lemma normalizePlayerName_idem:
  "normalizePlayerName name = Inr n \<Longrightarrow> normalizePlayerName n = Inr n"
  by (auto simp: normalizePlayerName_def toupper_idem tolower_idem split: list.splits)

end
