(* ===== verification/ObjectValues.thy ===== *)
theory ObjectValues
  imports Util
begin

text \<open>
  The field array of every game object (\<open>src/game/Object.cpp\<close>, \<open>Object.h\<close>): \<open>m_valuesCount\<close>
  words of 32 bits that are read and written by index, an \<open>ASSERT\<close> guarding each access, and the
  textual form they are saved in. The union of signed, unsigned and float pointers is one array of
  words.
\<close>

record object_values =
  ov_values :: "u32 list"
  ov_inWorld :: bool
  ov_updated :: bool
  ov_queued :: nat

definition InitValues :: "nat \<Rightarrow> object_values \<Rightarrow> object_values" where
  "InitValues cnt ob = ob\<lparr>ov_values := replicate cnt 0, ov_updated := False\<rparr>"

definition GetUInt32Value :: "object_values \<Rightarrow> nat \<Rightarrow> u32 res" where
  "GetUInt32Value ob index =
     (if index < length (ov_values ob) then Inr (ov_values ob ! index) else Inl AssertFailed)"

text \<open>\<open>AddUpdateObject\<close> queues the object for an update: \<open>ov_queued\<close> counts how often.\<close>

definition mark_updated :: "object_values \<Rightarrow> object_values" where
  "mark_updated ob =
     (if ov_inWorld ob \<and> \<not> ov_updated ob
      then ob\<lparr>ov_queued := ov_queued ob + 1, ov_updated := True\<rparr> else ob)"

definition SetUInt32Value :: "object_values \<Rightarrow> nat \<Rightarrow> u32 \<Rightarrow> object_values res" where
  "SetUInt32Value ob index v =
     (if \<not> index < length (ov_values ob) then Inl AssertFailed
      else if ov_values ob ! index \<noteq> v
           then Inr (mark_updated (ob\<lparr>ov_values := (ov_values ob)[index := v]\<rparr>))
           else Inr ob)"

definition SetInt32Value :: "object_values \<Rightarrow> nat \<Rightarrow> i32 \<Rightarrow> object_values res" where
  "SetInt32Value ob index v =
     (if \<not> index < length (ov_values ob) then Inl AssertFailed
      else if ov_values ob ! index \<noteq> v
           then Inr (mark_updated (ob\<lparr>ov_values := (ov_values ob)[index := v]\<rparr>))
           else Inr ob)"

text \<open>The 64 bit accessors use two consecutive words, low word first.\<close>

definition GetUInt64Value :: "object_values \<Rightarrow> nat \<Rightarrow> u64 res" where
  "GetUInt64Value ob index =
     (if index + 1 < length (ov_values ob)
      then Inr (ucast (ov_values ob ! index) OR push_bit 32 (ucast (ov_values ob ! (index + 1))))
      else Inl AssertFailed)"

definition SetUInt64Value :: "object_values \<Rightarrow> nat \<Rightarrow> u64 \<Rightarrow> object_values res" where
  "SetUInt64Value ob index v =
     bindR (GetUInt64Value ob index) (\<lambda>old.
       if old \<noteq> v
       then Inr (mark_updated (ob\<lparr>ov_values :=
              ((ov_values ob)[index := ucast v])[index + 1 := ucast (drop_bit 32 v)]\<rparr>))
       else Inr ob)"

definition ApplyModUInt32Value :: "object_values \<Rightarrow> nat \<Rightarrow> i32 \<Rightarrow> bool \<Rightarrow> object_values res" where
  "ApplyModUInt32Value ob index val apply_it =
     bindR (GetUInt32Value ob index) (\<lambda>cur.
       let cur' = cur + (if apply_it then val else - val);
           cur'' = (if sint cur' < 0 then 0 else cur')
       in SetUInt32Value ob index cur'')"

definition ApplyModInt32Value :: "object_values \<Rightarrow> nat \<Rightarrow> i32 \<Rightarrow> bool \<Rightarrow> object_values res" where
  "ApplyModInt32Value ob index val apply_it =
     bindR (GetUInt32Value ob index) (\<lambda>cur.
       SetInt32Value ob index (cur + (if apply_it then val else - val)))"

definition HasFlag :: "object_values \<Rightarrow> nat \<Rightarrow> u32 \<Rightarrow> bool res" where
  "HasFlag ob index flag = bindR (GetUInt32Value ob index) (\<lambda>v. Inr (v AND flag \<noteq> 0))"

definition AddToWorld :: "object_values \<Rightarrow> object_values" where
  "AddToWorld ob = (if ov_inWorld ob then ob else ob\<lparr>ov_inWorld := True\<rparr>)"

definition RemoveFromWorld :: "object_values \<Rightarrow> object_values" where
  "RemoveFromWorld ob = ob\<lparr>ov_inWorld := False\<rparr>"

definition ObjectCreate :: "nat \<Rightarrow> u32 \<Rightarrow> u32 \<Rightarrow> u32 \<Rightarrow> object_values \<Rightarrow> object_values res" where
  "ObjectCreate cnt guidlow guidhigh objtype ob =
     (let ob0 = (if ov_values ob = [] then InitValues cnt ob else ob)
      in bindR (SetUInt32Value ob0 0 guidlow) (\<lambda>ob1.
         bindR (SetUInt32Value ob1 1 guidhigh) (\<lambda>ob2. SetUInt32Value ob2 2 objtype)))"

subsection \<open>The contract of the fields\<close>

text \<open>
  What the game code relies on: within the count, a write succeeds, is read back, and changes no
  other field and not the count; outside, every access fails. The modifying operations are built on
  these two.
\<close>

locale field_store =
  fixes get :: "'s \<Rightarrow> nat \<Rightarrow> u32 res" and set_field :: "'s \<Rightarrow> nat \<Rightarrow> u32 \<Rightarrow> 's res" and cnt :: "'s \<Rightarrow> nat"
  assumes get_inside: "i < cnt s \<Longrightarrow> \<exists>v. get s i = Inr v"
    and get_outside: "\<not> i < cnt s \<Longrightarrow> get s i = Inl AssertFailed"
    and set_inside: "i < cnt s \<Longrightarrow> \<exists>t. set_field s i v = Inr t \<and> cnt t = cnt s \<and>
      get t i = Inr v \<and> (\<forall>j. j \<noteq> i \<longrightarrow> get t j = get s j)"
    and set_outside: "\<not> i < cnt s \<Longrightarrow> set_field s i v = Inl AssertFailed"
begin

text \<open>Reading, computing and writing back, the shape of every modification of a field.\<close>

definition modify :: "(u32 \<Rightarrow> u32) \<Rightarrow> 's \<Rightarrow> nat \<Rightarrow> 's res" where
  "modify f s i = bindR (get s i) (\<lambda>v. set_field s i (f v))"

lemma get_total: "get s i = Inr v \<Longrightarrow> i < cnt s"
  using get_outside by fastforce

lemma modify_inside:
  assumes "get s i = Inr v"
  shows "\<exists>t. modify f s i = Inr t \<and> cnt t = cnt s \<and> get t i = Inr (f v) \<and>
    (\<forall>j. j \<noteq> i \<longrightarrow> get t j = get s j)"
  using set_inside [OF get_total [OF assms], of "f v"] assms by (auto simp: modify_def)

lemma modify_outside: "\<not> i < cnt s \<Longrightarrow> modify f s i = Inl AssertFailed"
  by (simp add: modify_def get_outside)

lemma modify_commute:
  assumes "i \<noteq> j" and "i < cnt s" and "j < cnt s"
  shows "\<exists>t u. bindR (modify f s i) (\<lambda>s'. modify g s' j) = Inr t \<and>
    bindR (modify g s j) (\<lambda>s'. modify f s' i) = Inr u \<and> (\<forall>k. get t k = get u k)"
proof -
  obtain a b where a: "get s i = Inr a" and b: "get s j = Inr b"
    using get_inside assms by blast
  obtain s1 where s1: "modify f s i = Inr s1" "get s1 i = Inr (f a)" "\<forall>k. k \<noteq> i \<longrightarrow> get s1 k = get s k"
    using modify_inside [OF a] by blast
  obtain s2 where s2: "modify g s j = Inr s2" "get s2 j = Inr (g b)" "\<forall>k. k \<noteq> j \<longrightarrow> get s2 k = get s k"
    using modify_inside [OF b] by blast
  have b1: "get s1 j = Inr b" and a2: "get s2 i = Inr a"
    using assms(1) a b s1 s2 by auto
  obtain t where t: "modify g s1 j = Inr t" "get t j = Inr (g b)" "\<forall>k. k \<noteq> j \<longrightarrow> get t k = get s1 k"
    using modify_inside [OF b1] by blast
  obtain u where u: "modify f s2 i = Inr u" "get u i = Inr (f a)" "\<forall>k. k \<noteq> i \<longrightarrow> get u k = get s2 k"
    using modify_inside [OF a2] by blast
  have "get t k = get u k" for k
    using assms(1) s1 s2 t u by (cases "k = i"; cases "k = j") auto
  with s1(1) s2(1) t(1) u(1) show ?thesis by simp
qed

end

lemma mark_updated_values [simp]: "ov_values (mark_updated ob) = ov_values ob"
  by (simp add: mark_updated_def)

interpretation obj: field_store GetUInt32Value SetUInt32Value "\<lambda>ob. length (ov_values ob)"
  by unfold_locales (auto simp: GetUInt32Value_def SetUInt32Value_def)

lemma ApplyModUInt32Value_modify:
  "ApplyModUInt32Value ob i d b = obj.modify (\<lambda>v. ApplyModUInt32Var v d b) ob i"
  by (simp add: ApplyModUInt32Value_def obj.modify_def ApplyModUInt32Var_def Let_def)

text \<open>\<open>ApplyModUInt32Value\<close> on an existing field adds or subtracts the amount as an \<open>int32\<close>, stores
  zero instead of a negative outcome and leaves every other field as it was; on a field outside
  the object it fails its assertion. Modifications of two different fields commute.\<close>

theorem ApplyModUInt32Value_spec:
  assumes "GetUInt32Value ob i = Inr v" and "GetUInt32Value ob j = Inr w" and "i \<noteq> j"
  shows "\<exists>t. ApplyModUInt32Value ob i d b = Inr t \<and>
    GetUInt32Value t i = Inr (if sint (if b then v + d else v - d) < 0 then 0 else if b then v + d else v - d) \<and>
    GetUInt32Value t j = Inr w \<and> ApplyModUInt32Value ob (length (ov_values ob) + k) d b = Inl AssertFailed \<and>
    (\<exists>x y. bindR (ApplyModUInt32Value ob i d b) (\<lambda>o1. ApplyModUInt32Value o1 j e c) = Inr x \<and>
      bindR (ApplyModUInt32Value ob j e c) (\<lambda>o1. ApplyModUInt32Value o1 i d b) = Inr y \<and>
      (\<forall>l. GetUInt32Value x l = GetUInt32Value y l))"
proof -
  have "ApplyModUInt32Var v d b =
      (if sint (if b then v + d else v - d) < 0 then 0 else if b then v + d else v - d)"
    by (simp add: ApplyModUInt32Var_def Let_def)
  then show ?thesis
    using obj.modify_inside [OF assms(1), of "\<lambda>v. ApplyModUInt32Var v d b"] assms
      obj.modify_outside [of "length (ov_values ob) + k" ob]
      obj.modify_commute [OF assms(3), of ob "\<lambda>v. ApplyModUInt32Var v d b" "\<lambda>v. ApplyModUInt32Var v e c"]
      obj.get_total [OF assms(1)] obj.get_total [OF assms(2)]
    by (auto simp: ApplyModUInt32Value_modify)
qed

definition sample_object :: object_values where
  "sample_object = \<lparr>ov_values = [7, 30, 9], ov_inWorld = True, ov_updated = False, ov_queued = 0\<rparr>"

theorem ApplyModUInt32Value_spec_witness:
  "\<exists>t. ApplyModUInt32Value sample_object 1 50 False = Inr t \<and> GetUInt32Value t 1 = Inr 0 \<and>
    GetUInt32Value t 2 = Inr 9"
proof -
  have "GetUInt32Value sample_object 1 = Inr 30" "GetUInt32Value sample_object 2 = Inr 9"
    by (simp_all add: sample_object_def GetUInt32Value_def)
  from ApplyModUInt32Value_spec [OF this, of 50 False 0 1 True] show ?thesis
    by auto
qed

lemma split_u64: "(ucast (ucast v :: u32) :: u64) OR push_bit 32 (ucast (ucast (drop_bit 32 v) :: u32)) = v"
  by (rule bit_eqI) (auto simp: bit_simps intro: bit_imp_le_length)

lemma SetUInt64Value_read:
  assumes "i + 1 < length (ov_values ob)"
  shows "\<exists>t. SetUInt64Value ob i v = Inr t \<and> GetUInt64Value t i = Inr v"
  using assms by (auto simp: SetUInt64Value_def GetUInt64Value_def split_u64)

subsection \<open>The saved form\<close>

text \<open>\<open>atol\<close> on a decimal number with an optional sign.\<close>

fun atol_digits :: "string \<Rightarrow> int \<Rightarrow> int" where
  "atol_digits [] v = v"
| "atol_digits (c # cs) v = (if isdigit c then atol_digits cs (v * 10 + int (atoi_digit c)) else v)"

definition atol :: "string \<Rightarrow> int" where
  "atol s = (case s of
       [] \<Rightarrow> 0
     | c # cs \<Rightarrow> if c = CHR ''-'' then - atol_digits cs 0
                 else if c = CHR ''+'' then atol_digits cs 0 else atol_digits s 0)"

definition LoadValues :: "string \<Rightarrow> object_values \<Rightarrow> bool \<times> object_values" where
  "LoadValues data ob =
     (let tokens = StrSplit data '' ''
      in if length tokens \<noteq> length (ov_values ob) then (False, ob)
         else (True, ob\<lparr>ov_values := map (\<lambda>t. word_of_int (atol t)) tokens\<rparr>))"

text \<open>The loop of the \<open>SaveToDB\<close> functions that writes the fields.\<close>

definition save_values :: "object_values \<Rightarrow> string" where
  "save_values ob = concat (map (\<lambda>v. show_nat (unat v) @ '' '') (ov_values ob))"

lemma atol_digits_show: "atol_digits (show_nat n @ cs) 0 = atol_digits cs (int n)"
proof (induction n arbitrary: cs rule: show_nat.induct)
  case (1 n)
  have "int n div 10 * 10 + int n mod 10 = int n"
    by (rule div_mult_mod_eq)
  then show ?case
    using 1 by (simp add: show_nat.simps [of n] zmod_int zdiv_int)
qed

lemma show_nat_digits: "list_all isdigit (show_nat n) \<and> show_nat n \<noteq> []"
proof (induction n rule: show_nat.induct)
  case (1 n)
  then show ?case by (simp add: show_nat.simps [of n])
qed

lemma isdigit_not: "\<not> isdigit CHR '' ''" "\<not> isdigit CHR ''-''" "\<not> isdigit CHR ''+''"
  by (simp_all add: isdigit_def)

lemma atol_show: "atol (show_nat n) = int n"
proof -
  obtain c cs where s: "show_nat n = c # cs" and "isdigit c"
    using show_nat_digits [of n] by (cases "show_nat n") auto
  then have "c \<noteq> CHR ''-''" "c \<noteq> CHR ''+''"
    using isdigit_not by auto
  with s have "atol (show_nat n) = atol_digits (show_nat n @ []) 0"
    by (simp add: atol_def)
  then show ?thesis by (simp add: atol_digits_show del: append_Nil2)
qed

text \<open>The fields of an object survive being saved and loaded: reading the text that \<open>SaveToDB\<close>
  writes gives back every word, whatever its value, and a text with another number of values is
  refused without touching the object.\<close>

theorem values_roundtrip:
  assumes "length (ov_values ob') = length (ov_values ob)"
  shows "LoadValues (save_values ob) ob' = (True, ob'\<lparr>ov_values := ov_values ob\<rparr>) \<and>
    LoadValues (save_values ob) (ob'\<lparr>ov_values := 0 # ov_values ob\<rparr>) =
      (False, ob'\<lparr>ov_values := 0 # ov_values ob\<rparr>)"
proof -
  let ?ts = "map (\<lambda>v. show_nat (unat v)) (ov_values ob)"
  have "list_all (\<lambda>t. t \<noteq> [] \<and> CHR '' '' \<notin> set t) ?ts"
    using show_nat_digits isdigit_not(1) by (fastforce simp: list_all_iff)
  then have "StrSplit (join_tokens CHR '' '' ?ts) '' '' = ?ts"
    by (rule StrSplit_join)
  moreover have "save_values ob = join_tokens CHR '' '' ?ts"
    by (simp add: save_values_def join_tokens_def o_def)
  ultimately show ?thesis
    using assms by (simp add: LoadValues_def Let_def atol_show o_def)
qed

theorem values_roundtrip_witness:
  "LoadValues (save_values sample_object) (InitValues 3 sample_object) =
     (True, (InitValues 3 sample_object)\<lparr>ov_values := [7, 30, 9]\<rparr>)"
  using values_roundtrip [of "InitValues 3 sample_object" sample_object]
  by (simp add: sample_object_def InitValues_def)

end
