(* ===== verification/UpdateFields.thy ===== *)
theory UpdateFields
  imports Legacy_Prelude
begin

text \<open>
  The indices of the fields of objects, items, units and players in their value arrays
  (\<open>src/game/UpdateFields.h\<close>). Their definitions are simplification rules: an index is a numeral
  in every proof.
\<close>

definition OBJECT_END :: nat where [simp]: "OBJECT_END = 6"
definition ITEM_END :: nat where [simp]: "ITEM_END = OBJECT_END + 54"
definition UNIT_END :: nat where [simp]: "UNIT_END = OBJECT_END + 78"
definition OBJECT_FIELD_GUID :: nat where [simp]: "OBJECT_FIELD_GUID = 0"
definition OBJECT_FIELD_TYPE :: nat where [simp]: "OBJECT_FIELD_TYPE = 2"
definition OBJECT_FIELD_ENTRY :: nat where [simp]: "OBJECT_FIELD_ENTRY = 3"
definition ITEM_FIELD_OWNER :: nat where [simp]: "ITEM_FIELD_OWNER = OBJECT_END + 0"
definition ITEM_FIELD_CONTAINED :: nat where [simp]: "ITEM_FIELD_CONTAINED = OBJECT_END + 2"
definition ITEM_FIELD_STACK_COUNT :: nat where [simp]: "ITEM_FIELD_STACK_COUNT = OBJECT_END + 8"
definition ITEM_FIELD_DURATION :: nat where [simp]: "ITEM_FIELD_DURATION = OBJECT_END + 9"
definition ITEM_FIELD_FLAGS :: nat where [simp]: "ITEM_FIELD_FLAGS = OBJECT_END + 15"
definition CONTAINER_FIELD_NUM_SLOTS :: nat where [simp]: "CONTAINER_FIELD_NUM_SLOTS = ITEM_END + 0"
definition CONTAINER_END :: nat where [simp]: "CONTAINER_END = ITEM_END + 74"
definition UNIT_FIELD_SUMMON :: nat where [simp]: "UNIT_FIELD_SUMMON = OBJECT_END + 0"
definition UNIT_FIELD_SUMMONEDBY :: nat where [simp]: "UNIT_FIELD_SUMMONEDBY = OBJECT_END + 2"
definition UNIT_FIELD_REBORN :: nat where [simp]: "UNIT_FIELD_REBORN = OBJECT_END + 4"
definition UNIT_FIELD_ELEMENT :: nat where [simp]: "UNIT_FIELD_ELEMENT = OBJECT_END + 5"
definition UNIT_FIELD_EQ_HEAD :: nat where [simp]: "UNIT_FIELD_EQ_HEAD = OBJECT_END + 6"
definition UNIT_FIELD_EQ_BODY :: nat where [simp]: "UNIT_FIELD_EQ_BODY = OBJECT_END + 8"
definition UNIT_FIELD_EQ_WRIST :: nat where [simp]: "UNIT_FIELD_EQ_WRIST = OBJECT_END + 10"
definition UNIT_FIELD_EQ_WEAPON :: nat where [simp]: "UNIT_FIELD_EQ_WEAPON = OBJECT_END + 12"
definition UNIT_FIELD_EQ_SHOE :: nat where [simp]: "UNIT_FIELD_EQ_SHOE = OBJECT_END + 14"
definition UNIT_FIELD_EQ_SPECIAL :: nat where [simp]: "UNIT_FIELD_EQ_SPECIAL = OBJECT_END + 16"
definition UNIT_FIELD_HP :: nat where [simp]: "UNIT_FIELD_HP = OBJECT_END + 18"
definition UNIT_FIELD_SP :: nat where [simp]: "UNIT_FIELD_SP = OBJECT_END + 20"
definition UNIT_FIELD_HP_MAX :: nat where [simp]: "UNIT_FIELD_HP_MAX = OBJECT_END + 22"
definition UNIT_FIELD_SP_MAX :: nat where [simp]: "UNIT_FIELD_SP_MAX = OBJECT_END + 24"
definition UNIT_FIELD_INT :: nat where [simp]: "UNIT_FIELD_INT = OBJECT_END + 26"
definition UNIT_FIELD_ATK :: nat where [simp]: "UNIT_FIELD_ATK = OBJECT_END + 28"
definition UNIT_FIELD_DEF :: nat where [simp]: "UNIT_FIELD_DEF = OBJECT_END + 30"
definition UNIT_FIELD_AGI :: nat where [simp]: "UNIT_FIELD_AGI = OBJECT_END + 32"
definition UNIT_FIELD_HPX :: nat where [simp]: "UNIT_FIELD_HPX = OBJECT_END + 34"
definition UNIT_FIELD_SPX :: nat where [simp]: "UNIT_FIELD_SPX = OBJECT_END + 36"
definition UNIT_FIELD_INT_MOD :: nat where [simp]: "UNIT_FIELD_INT_MOD = OBJECT_END + 38"
definition UNIT_FIELD_ATK_MOD :: nat where [simp]: "UNIT_FIELD_ATK_MOD = OBJECT_END + 40"
definition UNIT_FIELD_DEF_MOD :: nat where [simp]: "UNIT_FIELD_DEF_MOD = OBJECT_END + 42"
definition UNIT_FIELD_AGI_MOD :: nat where [simp]: "UNIT_FIELD_AGI_MOD = OBJECT_END + 44"
definition UNIT_FIELD_HPX_MOD :: nat where [simp]: "UNIT_FIELD_HPX_MOD = OBJECT_END + 46"
definition UNIT_FIELD_SPX_MOD :: nat where [simp]: "UNIT_FIELD_SPX_MOD = OBJECT_END + 48"
definition UNIT_FIELD_LEVEL :: nat where [simp]: "UNIT_FIELD_LEVEL = OBJECT_END + 50"
definition UNIT_FIELD_XP :: nat where [simp]: "UNIT_FIELD_XP = OBJECT_END + 51"
definition UNIT_FIELD_NEXT_LEVEL_XP :: nat where [simp]: "UNIT_FIELD_NEXT_LEVEL_XP = OBJECT_END + 55"
definition UNIT_FIELD_FLAGS :: nat where [simp]: "UNIT_FIELD_FLAGS = OBJECT_END + 59"
definition UNIT_DYNAMIC_FLAGS :: nat where [simp]: "UNIT_DYNAMIC_FLAGS = OBJECT_END + 60"
definition UNIT_NPC_FLAGS :: nat where [simp]: "UNIT_NPC_FLAGS = OBJECT_END + 61"
definition UNIT_FIELD_DISPLAYID :: nat where [simp]: "UNIT_FIELD_DISPLAYID = OBJECT_END + 62"
definition UNIT_FIELD_SPELL_POINT :: nat where [simp]: "UNIT_FIELD_SPELL_POINT = OBJECT_END + 64"
definition UNIT_FIELD_STAT_POINT :: nat where [simp]: "UNIT_FIELD_STAT_POINT = OBJECT_END + 66"
definition UNIT_MORAL_DONGWU :: nat where [simp]: "UNIT_MORAL_DONGWU = OBJECT_END + 68"
definition UNIT_MORAL_2 :: nat where [simp]: "UNIT_MORAL_2 = OBJECT_END + 70"
definition UNIT_MORAL_3 :: nat where [simp]: "UNIT_MORAL_3 = OBJECT_END + 72"
definition UNIT_MORAL_4 :: nat where [simp]: "UNIT_MORAL_4 = OBJECT_END + 74"
definition UNIT_MORAL_5 :: nat where [simp]: "UNIT_MORAL_5 = OBJECT_END + 76"
definition PLAYER_GENDER :: nat where [simp]: "PLAYER_GENDER = UNIT_END + 0"
definition PLAYER_FACE :: nat where [simp]: "PLAYER_FACE = UNIT_END + 1"
definition PLAYER_HAIR :: nat where [simp]: "PLAYER_HAIR = UNIT_END + 2"
definition PLAYER_HAIR_COLOR_R :: nat where [simp]: "PLAYER_HAIR_COLOR_R = UNIT_END + 3"
definition PLAYER_HAIR_COLOR_G :: nat where [simp]: "PLAYER_HAIR_COLOR_G = UNIT_END + 4"
definition PLAYER_HAIR_COLOR_B :: nat where [simp]: "PLAYER_HAIR_COLOR_B = UNIT_END + 5"
definition PLAYER_SKIN_COLOR_R :: nat where [simp]: "PLAYER_SKIN_COLOR_R = UNIT_END + 6"
definition PLAYER_SKIN_COLOR_G :: nat where [simp]: "PLAYER_SKIN_COLOR_G = UNIT_END + 7"
definition PLAYER_SKIN_COLOR_B :: nat where [simp]: "PLAYER_SKIN_COLOR_B = UNIT_END + 8"
definition PLAYER_SHIRT_COLOR :: nat where [simp]: "PLAYER_SHIRT_COLOR = UNIT_END + 9"
definition PLAYER_MISC_COLOR :: nat where [simp]: "PLAYER_MISC_COLOR = UNIT_END + 10"
definition PLAYER_GOLD_INHAND :: nat where [simp]: "PLAYER_GOLD_INHAND = UNIT_END + 14"
definition PLAYER_GOLD_INBANK :: nat where [simp]: "PLAYER_GOLD_INBANK = UNIT_END + 18"
definition PLAYER_HERALD_CONSUMPTION :: nat where [simp]: "PLAYER_HERALD_CONSUMPTION = UNIT_END + 22"
definition PLAYER_SHORTKEY_F1 :: nat where [simp]: "PLAYER_SHORTKEY_F1 = UNIT_END + 26"
definition PLAYER_SHORTKEY_F2 :: nat where [simp]: "PLAYER_SHORTKEY_F2 = UNIT_END + 27"
definition PLAYER_SHORTKEY_F3 :: nat where [simp]: "PLAYER_SHORTKEY_F3 = UNIT_END + 28"
definition PLAYER_SHORTKEY_F4 :: nat where [simp]: "PLAYER_SHORTKEY_F4 = UNIT_END + 29"
definition PLAYER_SHORTKEY_F5 :: nat where [simp]: "PLAYER_SHORTKEY_F5 = UNIT_END + 30"
definition PLAYER_SHORTKEY_ALT1 :: nat where [simp]: "PLAYER_SHORTKEY_ALT1 = UNIT_END + 31"
definition PLAYER_SHORTKEY_ALT2 :: nat where [simp]: "PLAYER_SHORTKEY_ALT2 = UNIT_END + 32"
definition PLAYER_SHORTKEY_ALT3 :: nat where [simp]: "PLAYER_SHORTKEY_ALT3 = UNIT_END + 33"
definition PLAYER_SHORTKEY_ALT4 :: nat where [simp]: "PLAYER_SHORTKEY_ALT4 = UNIT_END + 34"
definition PLAYER_SHORTKEY_ALT5 :: nat where [simp]: "PLAYER_SHORTKEY_ALT5 = UNIT_END + 35"
definition PLAYER_ENABLE_PK :: nat where [simp]: "PLAYER_ENABLE_PK = UNIT_END + 36"
definition PLAYER_ENABLE_ENGAGE :: nat where [simp]: "PLAYER_ENABLE_ENGAGE = UNIT_END + 37"
definition PLAYER_END :: nat where [simp]: "PLAYER_END = UNIT_END + 38"

end
