(* ===== verification/Unit.thy ===== *)
theory Unit
  imports ObjectValues UpdateFields
begin

text \<open>
  Units: players, pets and creatures (\<open>src/game/Unit.cpp\<close>, \<open>Unit.h\<close>, \<open>Spell.h\<close>). The fields of a
  unit are a function from field indices (every index the code uses is a constant below the
  count, where the array of the object is such a function). The spell hash map is an
  association list in its iteration order. The spell templates are the argument \<open>sdb\<close>.
\<close>

datatype death_state = ALIVE | JUST_DIED | DEAD

datatype spell_update_state = SPELL_UNCHANGED | SPELL_CHANGED | SPELL_NEW | SPELL_REMOVED

datatype pet_update_state = PET_UNCHANGED | PET_CHANGED | PET_NEW | PET_REMOVED

record spell_info =
  si_Entry :: u32
  si_SP :: u32
  si_Element :: u32
  si_hit :: u32
  si_LearnPoint :: u32
  si_LevelMax :: u32
  si_Type :: u32
  si_DamageMod :: u32
  si_Reborn :: u32

record spell =
  sp_entry :: u16
  sp_level :: u8
  sp_state :: spell_update_state

type_synonym spell_db = "u16 \<Rightarrow> spell_info option"

record unit_rec =
  u_vals :: "nat \<Rightarrow> u32"
  u_type :: u16
  u_death :: death_state
  u_state :: u32
  u_levelUp :: bool
  u_itemSet :: u8
  u_itemSetApplied :: bool
  u_tmp_xp :: i32
  u_disabled_duration :: u8
  u_posbuf_duration :: u8
  u_spells :: "(u16 \<times> spell) list"
  u_loyalty :: u8
  u_petState :: pet_update_state

definition TYPE_UNIT :: u16 where [simp]: "TYPE_UNIT = 8"
definition TYPE_PET :: u16 where [simp]: "TYPE_PET = 16"
definition TYPE_PLAYER :: u16 where [simp]: "TYPE_PLAYER = 32"

definition isType :: "unit_rec \<Rightarrow> u16 \<Rightarrow> bool" where
  "isType u m \<longleftrightarrow> u_type u AND m \<noteq> 0"

abbreviation uget :: "unit_rec \<Rightarrow> nat \<Rightarrow> u32" where
  "uget u i \<equiv> u_vals u i"

definition uset :: "nat \<Rightarrow> u32 \<Rightarrow> unit_rec \<Rightarrow> unit_rec" where
  "uset i v u = u\<lparr>u_vals := (u_vals u)(i := v)\<rparr>"

definition uapply :: "nat \<Rightarrow> i32 \<Rightarrow> bool \<Rightarrow> unit_rec \<Rightarrow> unit_rec" where
  "uapply i d b u = uset i (ApplyModUInt32Var (uget u i) d b) u"

text \<open>The function of the fields an object has, and what the array operations are on it.\<close>

definition abs_values :: "object_values \<Rightarrow> nat \<Rightarrow> u32" where
  "abs_values ob i = (if i < length (ov_values ob) then ov_values ob ! i else 0)"

lemma abs_values_get: "i < length (ov_values ob) \<Longrightarrow> GetUInt32Value ob i = Inr (abs_values ob i)"
  by (simp add: GetUInt32Value_def abs_values_def)

lemma abs_values_set:
  "i < length (ov_values ob) \<Longrightarrow>
   \<exists>t. SetUInt32Value ob i v = Inr t \<and> abs_values t = (abs_values ob)(i := v)"
  by (auto simp: SetUInt32Value_def abs_values_def fun_eq_iff)

lemma abs_values_apply:
  "i < length (ov_values ob) \<Longrightarrow>
   \<exists>t. ApplyModUInt32Value ob i d b = Inr t \<and>
     abs_values t = (abs_values ob)(i := ApplyModUInt32Var (abs_values ob i) d b)"
  using abs_values_set [of i ob "ApplyModUInt32Var (abs_values ob i) d b"]
  by (simp add: ApplyModUInt32Value_modify obj.modify_def abs_values_get)

lemma uset_simps [simp]:
  "u_vals (uset i v u) = (u_vals u)(i := v)" "u_type (uset i v u) = u_type u"
  "u_death (uset i v u) = u_death u" "u_state (uset i v u) = u_state u"
  "u_levelUp (uset i v u) = u_levelUp u" "u_tmp_xp (uset i v u) = u_tmp_xp u"
  "u_disabled_duration (uset i v u) = u_disabled_duration u"
  "u_posbuf_duration (uset i v u) = u_posbuf_duration u"
  "u_spells (uset i v u) = u_spells u" "u_loyalty (uset i v u) = u_loyalty u"
  "u_petState (uset i v u) = u_petState u"
  by (simp_all add: uset_def)

subsection \<open>Status bits\<close>

definition UNIT_STATE_STUN :: u32 where [simp]: "UNIT_STATE_STUN = 4"
definition UNIT_STATE_CYCLONE :: u32 where [simp]: "UNIT_STATE_CYCLONE = 6"
definition UNIT_STATE_ROOT :: u32 where [simp]: "UNIT_STATE_ROOT = 8"
definition UNIT_STATE_FREEZE :: u32 where [simp]: "UNIT_STATE_FREEZE = 16"
definition UNIT_STATE_DEFEND :: u32 where [simp]: "UNIT_STATE_DEFEND = 4096"
definition UNIT_STATE_ICEWALL :: u32 where [simp]: "UNIT_STATE_ICEWALL = 8192"
definition UNIT_STATE_AURA :: u32 where [simp]: "UNIT_STATE_AURA = 16384"
definition UNIT_STATE_MIRROR :: u32 where [simp]: "UNIT_STATE_MIRROR = 32768"
definition UNIT_STATE_VIGOR :: u32 where [simp]: "UNIT_STATE_VIGOR = 65536"
definition UNIT_STATE_DODGE :: u32 where [simp]: "UNIT_STATE_DODGE = 131072"
definition UNIT_STATE_INVISIBLE :: u32 where [simp]: "UNIT_STATE_INVISIBLE = 262144"
definition UNIT_STATE_MAGNIFY :: u32 where [simp]: "UNIT_STATE_MAGNIFY = 524288"
definition UNIT_STATE_MINIFY :: u32 where [simp]: "UNIT_STATE_MINIFY = 1048576"

definition addUnitState1 :: "u32 \<Rightarrow> unit_rec \<Rightarrow> unit_rec" where
  "addUnitState1 f u = u\<lparr>u_state := u_state u OR f\<rparr>"

definition hasUnitState :: "unit_rec \<Rightarrow> u32 \<Rightarrow> bool" where
  "hasUnitState u f \<longleftrightarrow> u_state u AND f \<noteq> 0"

definition clearUnitState :: "u32 \<Rightarrow> unit_rec \<Rightarrow> unit_rec" where
  "clearUnitState f u = u\<lparr>u_state := u_state u AND NOT f\<rparr>"

definition isDisabled :: "unit_rec \<Rightarrow> bool" where
  "isDisabled u = hasUnitState u
     (UNIT_STATE_CYCLONE OR UNIT_STATE_ROOT OR UNIT_STATE_STUN OR UNIT_STATE_FREEZE)"

definition isPositiveBuffed :: "unit_rec \<Rightarrow> bool" where
  "isPositiveBuffed u = hasUnitState u
     (UNIT_STATE_ICEWALL OR UNIT_STATE_AURA OR UNIT_STATE_MIRROR OR UNIT_STATE_VIGOR OR
      UNIT_STATE_DODGE OR UNIT_STATE_INVISIBLE)"

definition addDisabledState :: "u32 \<Rightarrow> u8 \<Rightarrow> unit_rec \<Rightarrow> bool \<times> unit_rec" where
  "addDisabledState f duration u =
     (if f \<noteq> UNIT_STATE_STUN \<and> f \<noteq> UNIT_STATE_CYCLONE \<and> f \<noteq> UNIT_STATE_ROOT \<and> f \<noteq> UNIT_STATE_FREEZE
      then (False, u)
      else if isDisabled u then (False, u)
      else (True, (addUnitState1 f u)\<lparr>u_disabled_duration := duration + 1\<rparr>))"

definition addPositiveBufState :: "u32 \<Rightarrow> u8 \<Rightarrow> unit_rec \<Rightarrow> bool \<times> unit_rec" where
  "addPositiveBufState f duration u =
     (if isPositiveBuffed u then (False, u)
      else (True, (addUnitState1 f u)\<lparr>u_posbuf_duration := duration + 1\<rparr>))"

definition addUnitState :: "u32 \<Rightarrow> u8 \<Rightarrow> unit_rec \<Rightarrow> bool \<times> unit_rec" where
  "addUnitState f duration u =
     (if f \<in> {UNIT_STATE_STUN, UNIT_STATE_CYCLONE, UNIT_STATE_ROOT, UNIT_STATE_FREEZE}
      then addDisabledState f duration u
      else if f \<in> {UNIT_STATE_ICEWALL, UNIT_STATE_AURA, UNIT_STATE_MIRROR, UNIT_STATE_VIGOR,
                   UNIT_STATE_DODGE, UNIT_STATE_INVISIBLE}
      then addPositiveBufState f duration u
      else (True, addUnitState1 f u))"

definition clear_if :: "u32 \<Rightarrow> unit_rec \<Rightarrow> unit_rec" where
  "clear_if f u = (if hasUnitState u f then clearUnitState f u else u)"

definition isReleaseFromDisabledState :: "unit_rec \<Rightarrow> bool \<times> unit_rec" where
  "isReleaseFromDisabledState u =
     (if u_disabled_duration u = 0 then (False, u)
      else
        let u1 = u\<lparr>u_disabled_duration := u_disabled_duration u - 1\<rparr>
        in if u_disabled_duration u1 = 0
           then (True, clear_if UNIT_STATE_FREEZE (clear_if UNIT_STATE_ROOT
                   (clear_if UNIT_STATE_CYCLONE (clear_if UNIT_STATE_STUN u1))))
           else (False, u1))"

definition isPositiveBufExpired :: "unit_rec \<Rightarrow> bool \<times> unit_rec" where
  "isPositiveBufExpired u =
     (if u_posbuf_duration u = 0 then (False, u)
      else
        let u1 = u\<lparr>u_posbuf_duration := u_posbuf_duration u - 1\<rparr>
        in if u_posbuf_duration u1 = 0
           then (True, clear_if UNIT_STATE_INVISIBLE (clear_if UNIT_STATE_DODGE
                   (clear_if UNIT_STATE_VIGOR (clear_if UNIT_STATE_MIRROR
                     (clear_if UNIT_STATE_AURA (clear_if UNIT_STATE_ICEWALL u1))))))
           else (False, u1))"

definition ResetAllState :: "unit_rec \<Rightarrow> unit_rec" where
  "ResetAllState u = u\<lparr>u_state := 0, u_disabled_duration := 0, u_posbuf_duration := 0\<rparr>"

subsection \<open>The status machine of a unit\<close>

text \<open>The states the spells of the battle add, and the operations a battle performs on the status.\<close>

definition spell_states :: "u32 set" where
  "spell_states = {UNIT_STATE_STUN, UNIT_STATE_CYCLONE, UNIT_STATE_ROOT, UNIT_STATE_FREEZE,
     UNIT_STATE_ICEWALL, UNIT_STATE_AURA, UNIT_STATE_MIRROR, UNIT_STATE_VIGOR, UNIT_STATE_DODGE,
     UNIT_STATE_INVISIBLE, UNIT_STATE_MAGNIFY, UNIT_STATE_MINIFY}"

inductive status_step :: "unit_rec \<Rightarrow> unit_rec \<Rightarrow> bool" where
  cast: "f \<in> spell_states \<Longrightarrow> d \<noteq> 255 \<Longrightarrow> status_step u (snd (addUnitState f d u))"
| defend: "status_step u (addUnitState1 UNIT_STATE_DEFEND u)"
| undefend: "status_step u (clearUnitState UNIT_STATE_DEFEND u)"
| release: "status_step u (snd (isReleaseFromDisabledState u))"
| expire: "status_step u (snd (isPositiveBufExpired u))"
| reset: "status_step u (ResetAllState u)"

inductive_cases status_stepE: "status_step u v"

inductive status_reachable :: "unit_rec \<Rightarrow> bool" where
  fresh: "u_state u = 0 \<Longrightarrow> u_disabled_duration u = 0 \<Longrightarrow> u_posbuf_duration u = 0 \<Longrightarrow> status_reachable u"
| step: "status_reachable u \<Longrightarrow> status_step u v \<Longrightarrow> status_reachable v"

definition status_ok :: "unit_rec \<Rightarrow> bool" where
  "status_ok u \<longleftrightarrow> (isDisabled u \<longleftrightarrow> u_disabled_duration u \<noteq> 0) \<and>
     (isPositiveBuffed u \<longleftrightarrow> u_posbuf_duration u \<noteq> 0)"

lemma word_or_eq_0: "(x OR y = 0) = (x = 0 \<and> y = (0 :: 'a::len word))"
  by (auto simp: bit_eq_iff bit_simps)

lemma and_or_left: "(x OR y) AND m = (x AND m) OR (y AND (m :: 'a::len word))"
  by (rule bit.conj_disj_distrib2)

lemma masks:
  "isDisabled u \<longleftrightarrow> u_state u AND 30 \<noteq> 0" "isPositiveBuffed u \<longleftrightarrow> u_state u AND 516096 \<noteq> 0"
  by (simp_all add: isDisabled_def isPositiveBuffed_def hasUnitState_def)

lemma clear_if_clear: "clear_if f u = clearUnitState f u"
proof -
  have "u_state u AND NOT f = u_state u" if "u_state u AND f = 0"
    using that by (auto simp: bit_eq_iff bit_simps)
  then show ?thesis
    by (simp add: clear_if_def clearUnitState_def hasUnitState_def)
qed

lemmas status_simps = masks clear_if_clear addUnitState1_def clearUnitState_def word_or_eq_0
  and_or_left and.assoc [where 'a = "32 word"]

lemma duration_wrap: "d \<noteq> 255 \<Longrightarrow> d + 1 \<noteq> (0 :: u8)"
proof
  assume "d \<noteq> 255" and "d + 1 = 0"
  then have "d = - 1" by (simp add: eq_neg_iff_add_eq_0)
  with \<open>d \<noteq> 255\<close> show False by simp
qed

lemma status_ok_cast: "status_ok u \<Longrightarrow> f \<in> spell_states \<Longrightarrow> d \<noteq> 255 \<Longrightarrow> status_ok (snd (addUnitState f d u))"
proof -
  assume ok: "status_ok u" and f: "f \<in> spell_states" and d: "d \<noteq> 255"
  with duration_wrap [OF d] show ?thesis
    by (auto simp: spell_states_def status_ok_def addUnitState_def addDisabledState_def
        addPositiveBufState_def status_simps)
qed

lemma status_ok_defend:
  "status_ok u \<Longrightarrow> status_ok (addUnitState1 UNIT_STATE_DEFEND u)"
  "status_ok u \<Longrightarrow> status_ok (clearUnitState UNIT_STATE_DEFEND u)"
  by (simp_all add: status_ok_def status_simps)

lemma status_ok_release: "status_ok u \<Longrightarrow> status_ok (snd (isReleaseFromDisabledState u))"
  by (auto simp: status_ok_def isReleaseFromDisabledState_def Let_def status_simps)

lemma status_ok_expire: "status_ok u \<Longrightarrow> status_ok (snd (isPositiveBufExpired u))"
  by (auto simp: status_ok_def isPositiveBufExpired_def Let_def status_simps)

lemma status_ok_reset: "status_ok (ResetAllState u)"
  by (simp add: status_ok_def ResetAllState_def masks)

lemma status_step_ok: "status_step u v \<Longrightarrow> status_ok u \<Longrightarrow> status_ok v"
  by (erule status_stepE)
     (simp_all add: status_ok_cast status_ok_defend [unfolded UNIT_STATE_DEFEND_def]
        status_ok_release status_ok_expire status_ok_reset)

lemma status_reachable_ok: "status_reachable u \<Longrightarrow> status_ok u"
proof (induction rule: status_reachable.induct)
  case (fresh u)
  then show ?case by (simp add: status_ok_def masks)
next
  case (step u v)
  then show ?case by (blast intro: status_step_ok)
qed

text \<open>C23: in every state a battle can bring a unit into, the disabling bits are set exactly while the
  disabled counter runs, and the buff bits exactly while the buff counter runs: no status
  outlives its counter and no counter runs without its status.\<close>

theorem status_invariant:
  assumes "status_reachable u"
  shows "(isDisabled u \<longleftrightarrow> u_disabled_duration u \<noteq> 0) \<and> (isPositiveBuffed u \<longleftrightarrow> u_posbuf_duration u \<noteq> 0)"
  using status_reachable_ok [OF assms] by (simp add: status_ok_def)

definition sample_unit :: unit_rec where
  "sample_unit = \<lparr>u_vals = (\<lambda>i. if i = UNIT_FIELD_LEVEL then 10 else 0), u_type = TYPE_UNIT,
     u_death = ALIVE, u_state = 0, u_levelUp = False, u_itemSet = 0, u_itemSetApplied = False,
     u_tmp_xp = 0, u_disabled_duration = 0, u_posbuf_duration = 0, u_spells = [], u_loyalty = 0,
     u_petState = PET_UNCHANGED\<rparr>"

theorem status_invariant_witness:
  "isDisabled (snd (addUnitState UNIT_STATE_CYCLONE 3 sample_unit)) \<longleftrightarrow>
   u_disabled_duration (snd (addUnitState UNIT_STATE_CYCLONE 3 sample_unit)) \<noteq> 0"
proof -
  have "status_reachable sample_unit"
    by (rule status_reachable.fresh) (simp_all add: sample_unit_def)
  then have "status_reachable (snd (addUnitState UNIT_STATE_CYCLONE 3 sample_unit))"
    by (rule status_reachable.step) (rule status_step.cast, simp_all add: spell_states_def)
  from status_invariant [OF this] show ?thesis by blast
qed

text \<open>The turns of a disabled unit.\<close>

definition release_turn :: "unit_rec \<Rightarrow> unit_rec" where
  "release_turn u = snd (isReleaseFromDisabledState u)"

lemma release_turn_running:
  "u_disabled_duration u \<noteq> 0 \<Longrightarrow> u_disabled_duration u \<noteq> 1 \<Longrightarrow>
   release_turn u = u\<lparr>u_disabled_duration := u_disabled_duration u - 1\<rparr>"
  by (simp add: release_turn_def isReleaseFromDisabledState_def Let_def)

lemma of_nat_u8_nonzero: "0 < n \<Longrightarrow> n < 256 \<Longrightarrow> (of_nat n :: u8) \<noteq> 0"
proof
  assume "0 < n" "n < 256" "(of_nat n :: u8) = 0"
  then have "unat (of_nat n :: u8) = 0" by simp
  with \<open>n < 256\<close> \<open>0 < n\<close> show False by (simp add: unat_of_nat)
qed

lemma release_turns:
  "unat (u_disabled_duration u) = n + k \<Longrightarrow> 0 < k \<Longrightarrow>
   u_disabled_duration ((release_turn ^^ n) u) = of_nat k \<and> u_state ((release_turn ^^ n) u) = u_state u"
proof (induction n arbitrary: k)
  case 0
  then show ?case by (metis add_0 funpow_0 of_nat_unat ucast_id)
next
  case (Suc n)
  let ?v = "(release_turn ^^ n) u"
  have v: "u_disabled_duration ?v = of_nat (Suc k)" "u_state ?v = u_state u"
    using Suc.IH [of "Suc k"] Suc.prems by auto
  have "k + 1 < 2 ^ 8"
    using Suc.prems unsigned_less [of "u_disabled_duration u", where ?'a = nat] by simp
  then have "(of_nat k :: u8) \<noteq> 0" "(of_nat (Suc k) :: u8) \<noteq> 0"
    using Suc.prems(2) of_nat_u8_nonzero [of k] of_nat_u8_nonzero [of "Suc k"]
    by (simp_all del: of_nat_Suc)
  then have "u_disabled_duration ?v \<noteq> 0" "u_disabled_duration ?v \<noteq> 1"
    using v(1) by auto
  with v show ?case
    by (simp add: release_turn_running)
qed

text \<open>A disabling status cast with a duration below 255 on a unit that is not disabled takes hold,
  keeps the unit disabled for exactly that many release checks and is lifted, all four disabling
  bits at once, by the next one.\<close>

theorem disabled_released:
  assumes "f \<in> {UNIT_STATE_STUN, UNIT_STATE_CYCLONE, UNIT_STATE_ROOT, UNIT_STATE_FREEZE}"
    and "\<not> isDisabled u" and "d \<noteq> 255"
  shows "\<exists>v. addUnitState f d u = (True, v) \<and>
    (\<forall>k. k \<le> unat d \<longrightarrow> isDisabled ((release_turn ^^ k) v)) \<and>
    fst (isReleaseFromDisabledState ((release_turn ^^ unat d) v)) \<and>
    \<not> isDisabled ((release_turn ^^ Suc (unat d)) v)"
proof -
  define v where "v = snd (addUnitState f d u)"
  have cast: "addUnitState f d u = (True, v)" "u_state v = u_state u OR f" "u_disabled_duration v = d + 1"
    using assms(1,2) by (auto simp: v_def addUnitState_def addDisabledState_def addUnitState1_def)
  have "unat (d + 1) = unat d + 1"
    using duration_wrap [OF assms(3)] by (simp add: unatSuc add.commute)
  then have turns: "u_disabled_duration ((release_turn ^^ k) v) = of_nat (unat d - k + 1)"
    "u_state ((release_turn ^^ k) v) = u_state v" if "k \<le> unat d" for k
    using release_turns [of v k "unat d - k + 1"] cast(3) that by auto
  have "u_state v AND 30 \<noteq> 0"
    using assms(1) cast(2) by (auto simp: and_or_left word_or_eq_0)
  then have "isDisabled ((release_turn ^^ k) v)" if "k \<le> unat d" for k
    using turns(2) [OF that] by (simp add: masks)
  moreover have "fst (isReleaseFromDisabledState ((release_turn ^^ unat d) v))"
    "\<not> isDisabled (release_turn ((release_turn ^^ unat d) v))"
    using turns(1) [of "unat d"]
    by (simp_all add: isReleaseFromDisabledState_def release_turn_def Let_def status_simps)
  ultimately show ?thesis
    using cast(1) by auto
qed

theorem disabled_released_witness:
  "\<exists>v. addUnitState UNIT_STATE_FREEZE 5 sample_unit = (True, v) \<and>
    isDisabled ((release_turn ^^ 5) v) \<and> \<not> isDisabled ((release_turn ^^ Suc 5) v)"
proof -
  have d: "\<not> isDisabled sample_unit"
    by (simp add: masks sample_unit_def)
  have u: "unat (5 :: u8) = 5" by simp
  have "UNIT_STATE_FREEZE \<in> {UNIT_STATE_STUN, UNIT_STATE_CYCLONE, UNIT_STATE_ROOT, UNIT_STATE_FREEZE}"
    and "(5 :: u8) \<noteq> 255"
    by simp_all
  from disabled_released [OF this(1) d this(2)] show ?thesis
    unfolding u by blast
qed

end
