(* ===== verification/Spells.thy ===== *)
theory Spells
  imports Unit
begin

text \<open>
  The spell book of a unit, its attack and defence values and its maxima (\<open>src/game/Unit.cpp\<close>).
  The book is the association list of the hash map: the keys are the spell entries, and
  \<open>insert\<close> leaves an existing entry alone.
\<close>

definition ELEMENT_EARTH :: u32 where [simp]: "ELEMENT_EARTH = 1"
definition ELEMENT_WATER :: u32 where [simp]: "ELEMENT_WATER = 2"
definition ELEMENT_FIRE :: u32 where [simp]: "ELEMENT_FIRE = 3"
definition ELEMENT_WIND :: u32 where [simp]: "ELEMENT_WIND = 4"

definition SPELL_BASIC :: u16 where [simp]: "SPELL_BASIC = 10000"
definition SPELL_DEFENSE :: u16 where [simp]: "SPELL_DEFENSE = 17001"
definition SPELL_CATCH :: u16 where [simp]: "SPELL_CATCH = 15001"
definition SPELL_CATCH2 :: u16 where [simp]: "SPELL_CATCH2 = 15002"
definition SPELL_ESCAPE :: u16 where [simp]: "SPELL_ESCAPE = 18001"

definition FindSpell :: "unit_rec \<Rightarrow> u16 \<Rightarrow> spell option" where
  "FindSpell u entry = map_of (u_spells u) entry"

definition opposite_element :: "u32 \<Rightarrow> u32 option" where
  "opposite_element el =
     (if el = ELEMENT_EARTH then Some ELEMENT_FIRE
      else if el = ELEMENT_WATER then Some ELEMENT_WIND
      else if el = ELEMENT_FIRE then Some ELEMENT_EARTH
      else if el = ELEMENT_WIND then Some ELEMENT_WATER
      else None)"

text \<open>\<open>uint8 el\<close> narrows the field; \<open>GetProto()\<close> is only dereferenced for the four elements.\<close>

definition CanHaveSpell :: "spell_db \<Rightarrow> spell \<Rightarrow> unit_rec \<Rightarrow> bool res" where
  "CanHaveSpell sdb sp u =
     (case opposite_element (ucast (ucast (uget u UNIT_FIELD_ELEMENT) :: u8)) of
        None \<Rightarrow> Inr True
      | Some bad \<Rightarrow>
          (case sdb (sp_entry sp) of
             None \<Rightarrow> Inl NullDeref
           | Some info \<Rightarrow> Inr (si_Element info \<noteq> bad)))"

definition AddSpell ::
  "spell_db \<Rightarrow> u16 \<Rightarrow> u8 \<Rightarrow> spell_update_state \<Rightarrow> unit_rec \<Rightarrow> (bool \<times> unit_rec) res" where
  "AddSpell sdb entry level st u =
     (if entry = 0 then Inr (False, u)
      else if sdb entry = None then Inr (False, u)
      else
        let sp = \<lparr>sp_entry = entry, sp_level = level, sp_state = st\<rparr>
        in bindR (CanHaveSpell sdb sp u) (\<lambda>ok.
             if \<not> ok then Inr (False, u)
             else if FindSpell u entry = None
                  then Inr (True, u\<lparr>u_spells := u_spells u @ [(entry, sp)]\<rparr>)
                  else Inr (True, u)))"

definition map_spell :: "u16 \<Rightarrow> (spell \<Rightarrow> spell) \<Rightarrow> (u16 \<times> spell) list \<Rightarrow> (u16 \<times> spell) list" where
  "map_spell entry f sps = map (\<lambda>(e, sp). (e, if e = entry then f sp else sp)) sps"

definition SetSpellLevel :: "u16 \<Rightarrow> u8 \<Rightarrow> unit_rec \<Rightarrow> unit_rec" where
  "SetSpellLevel entry level u =
     (if entry = 0 \<or> level = 0 then u
      else case FindSpell u entry of
             None \<Rightarrow> u
           | Some _ \<Rightarrow> u\<lparr>u_spells := map_spell entry
               (\<lambda>sp. sp\<lparr>sp_level := level, sp_state := SPELL_CHANGED\<rparr>) (u_spells u)\<rparr>)"

definition AddSpellLevel :: "u16 \<Rightarrow> u8 \<Rightarrow> unit_rec \<Rightarrow> unit_rec" where
  "AddSpellLevel entry val u =
     (if entry = 0 \<or> val = 0 then u
      else case FindSpell u entry of
             None \<Rightarrow> u
           | Some _ \<Rightarrow> u\<lparr>u_spells := map_spell entry
               (\<lambda>sp. sp\<lparr>sp_level := sp_level sp + val, sp_state := SPELL_CHANGED\<rparr>) (u_spells u)\<rparr>)"

definition HaveSpell :: "u16 \<Rightarrow> unit_rec \<Rightarrow> bool" where
  "HaveSpell entry u \<longleftrightarrow>
     entry \<in> {SPELL_BASIC, SPELL_DEFENSE, SPELL_CATCH, SPELL_CATCH2, SPELL_ESCAPE} \<or>
     FindSpell u entry \<noteq> None"

definition isSpellLevelMaxed :: "spell_db \<Rightarrow> u16 \<Rightarrow> unit_rec \<Rightarrow> bool res" where
  "isSpellLevelMaxed sdb entry u =
     (if entry = 0 \<or> entry = SPELL_BASIC then Inr True
      else case FindSpell u entry of
             None \<Rightarrow> Inr True
           | Some sp \<Rightarrow>
               (case sdb (sp_entry sp) of
                  None \<Rightarrow> Inl NullDeref
                | Some info \<Rightarrow> Inr (si_LevelMax info \<le> ucast (sp_level sp))))"

definition GetSpellLearnPoint :: "spell_db \<Rightarrow> u16 \<Rightarrow> unit_rec \<Rightarrow> u32" where
  "GetSpellLearnPoint sdb entry u =
     (case sdb entry of
        None \<Rightarrow> 0
      | Some info \<Rightarrow>
          if uget u UNIT_FIELD_ELEMENT = si_Element info then si_LearnPoint info
          else si_LearnPoint info * 2)"

definition GetSpellLevel :: "u16 \<Rightarrow> unit_rec \<Rightarrow> u8" where
  "GetSpellLevel entry u =
     (if entry = SPELL_BASIC then 1
      else case FindSpell u entry of None \<Rightarrow> 1 | Some sp \<Rightarrow> sp_level sp)"

fun spell_by_pos :: "(u16 \<times> spell) list \<Rightarrow> u8 \<Rightarrow> u8 \<Rightarrow> spell option" where
  "spell_by_pos [] index pos = None"
| "spell_by_pos ((e, sp) # sps) index pos =
     (if index = pos then Some sp else spell_by_pos sps (index + 1) pos)"

definition GetSpellByPos :: "u8 \<Rightarrow> unit_rec \<Rightarrow> spell option" where
  "GetSpellByPos pos u = spell_by_pos (u_spells u) 0 pos"

definition GetSpellLevelByPos :: "u8 \<Rightarrow> unit_rec \<Rightarrow> u8" where
  "GetSpellLevelByPos pos u = (case GetSpellByPos pos u of None \<Rightarrow> 0 | Some sp \<Rightarrow> sp_level sp)"

text \<open>The difficulty makes no difference: both branches of its test are empty.\<close>

definition GetRandomSpell :: "u8 \<Rightarrow> unit_rec \<Rightarrow> u32 \<Rightarrow> (u16 \<times> u32) res" where
  "GetRandomSpell ai_difficulty u holdrand =
     (let spell_cnt = (of_nat (length (u_spells u)) :: u8)
      in bindR (urand 0 (ucast spell_cnt) holdrand) (\<lambda>(pos, h).
           case GetSpellByPos (ucast pos) u of
             None \<Rightarrow> Inr (SPELL_BASIC, h)
           | Some sp \<Rightarrow> Inr (sp_entry sp, h)))"

subsection \<open>Powers and maxima\<close>

text \<open>\<open>(uint16)(lvl * 0.05)\<close> is the integer quotient by 20 for every \<open>uint8\<close> level.\<close>

definition level_bonus :: "u8 \<Rightarrow> u16" where
  "level_bonus lvl = of_nat (unat lvl div 20)"

definition GetAttackPower :: "unit_rec \<Rightarrow> u16" where
  "GetAttackPower u =
     ucast (uget u UNIT_FIELD_ATK + uget u UNIT_FIELD_ATK_MOD + 1) +
     level_bonus (ucast (uget u UNIT_FIELD_LEVEL))"

definition GetMagicPower :: "unit_rec \<Rightarrow> u16" where
  "GetMagicPower u =
     ucast (uget u UNIT_FIELD_INT + uget u UNIT_FIELD_INT_MOD + 1) +
     level_bonus (ucast (uget u UNIT_FIELD_LEVEL))"

definition GetDefensePower :: "unit_rec \<Rightarrow> u16" where
  "GetDefensePower u =
     (let def0 = ucast (uget u UNIT_FIELD_DEF + uget u UNIT_FIELD_DEF_MOD) :: u16;
          def1 = (if hasUnitState u UNIT_STATE_DEFEND then def0 + 25 else def0);
          def2 = (if hasUnitState u UNIT_STATE_ICEWALL then def1 + 50 else def1)
      in def2 + level_bonus (ucast (uget u UNIT_FIELD_LEVEL)))"

text \<open>
  \<open>round(pow(level, 0.25))\<close> for a level below 256: the number of \<open>k \<ge> 1\<close> with
  \<open>k - 1/2 \<le> level^(1/4)\<close>. The product is a \<open>double\<close> converted to 16 bits. It always fits 32 bits, and compilers for
  x86 convert to 32 bits and keep the low 16, as the model does; C++ defines the result only if the product fits
  16 bits, which powers below 4096 (HP) and 8192 (SP) ensure at every level.
\<close>

definition root4 :: "nat \<Rightarrow> nat" where
  "root4 n = length (filter (\<lambda>k. (2 * k - 1) ^ 4 \<le> 16 * n) [1, 2, 3, 4])"

definition GetHPMax :: "unit_rec \<Rightarrow> u16" where
  "GetHPMax u =
     (let level = (ucast (uget u UNIT_FIELD_LEVEL) :: u8);
          hpx = (ucast (uget u UNIT_FIELD_HPX) :: u16);
          hpx_mod = (ucast (uget u UNIT_FIELD_HPX_MOD) :: u16)
      in (80 + ucast level) + of_nat (unat hpx * (4 * root4 (unat level))) + hpx_mod)"

definition GetSPMax :: "unit_rec \<Rightarrow> u16" where
  "GetSPMax u =
     (let level = (ucast (uget u UNIT_FIELD_LEVEL) :: u8);
          spx = (ucast (uget u UNIT_FIELD_SPX) :: u16)
      in (60 + ucast level) + of_nat (unat spx * (2 * root4 (unat level))))"

subsection \<open>The spell book\<close>

text \<open>
  The book is well-formed: no entry twice, each under its own entry, non-zero, with a template, and
  of an element the unit can have.
\<close>

definition spell_allowed :: "spell_db \<Rightarrow> unit_rec \<Rightarrow> u16 \<Rightarrow> bool" where
  "spell_allowed sdb u e \<longleftrightarrow>
     (\<exists>info. sdb e = Some info \<and>
       opposite_element (ucast (ucast (uget u UNIT_FIELD_ELEMENT) :: u8)) \<noteq> Some (si_Element info))"

definition book_ok :: "spell_db \<Rightarrow> unit_rec \<Rightarrow> bool" where
  "book_ok sdb u \<longleftrightarrow> distinct (map fst (u_spells u)) \<and>
     (\<forall>(e, sp) \<in> set (u_spells u). sp_entry sp = e \<and> e \<noteq> 0 \<and> spell_allowed sdb u e)"

lemma FindSpell_in: "FindSpell u e = Some sp \<Longrightarrow> (e, sp) \<in> set (u_spells u)"
  by (simp add: FindSpell_def map_of_SomeD)

lemma book_ok_find:
  "book_ok sdb u \<Longrightarrow> FindSpell u e = Some sp \<Longrightarrow> sp_entry sp = e \<and> spell_allowed sdb u e"
  by (auto simp: book_ok_def dest!: FindSpell_in)

lemma CanHaveSpell_allowed:
  "sdb (sp_entry sp) \<noteq> None \<Longrightarrow> CanHaveSpell sdb sp u = Inr (spell_allowed sdb u (sp_entry sp))"
  by (auto simp: CanHaveSpell_def spell_allowed_def split: option.splits)

lemma AddSpell_cases:
  "AddSpell sdb e l st u =
     Inr (if e \<noteq> 0 \<and> spell_allowed sdb u e
          then (True, if FindSpell u e = None
                      then u\<lparr>u_spells := u_spells u @ [(e, \<lparr>sp_entry = e, sp_level = l, sp_state = st\<rparr>)]\<rparr>
                      else u)
          else (False, u))"
  by (auto simp: AddSpell_def CanHaveSpell_allowed Let_def) (auto simp: spell_allowed_def)

lemma spell_allowed_cong [simp]:
  "spell_allowed sdb (u\<lparr>u_spells := sps\<rparr>) e = spell_allowed sdb u e"
  by (simp add: spell_allowed_def)

lemma AddSpell_ok:
  assumes "book_ok sdb u" and "AddSpell sdb e l st u = Inr (ok, v)"
  shows "book_ok sdb v"
  using assms
  by (auto simp: AddSpell_cases book_ok_def FindSpell_def map_of_eq_None_iff image_iff split: if_splits)

lemma map_spell_keys: "map fst (map_spell e f sps) = map fst sps"
  by (simp add: map_spell_def split_def)

lemma map_spell_ok:
  assumes "book_ok sdb u" and "\<And>sp. sp_entry (f sp) = sp_entry sp"
  shows "book_ok sdb (u\<lparr>u_spells := map_spell e f (u_spells u)\<rparr>)"
  using assms by (auto simp: book_ok_def map_spell_keys) (auto simp: map_spell_def split: if_splits)

lemma SetSpellLevel_ok: "book_ok sdb u \<Longrightarrow> book_ok sdb (SetSpellLevel e l u)"
  by (simp add: SetSpellLevel_def map_spell_ok split: option.splits)

lemma AddSpellLevel_ok: "book_ok sdb u \<Longrightarrow> book_ok sdb (AddSpellLevel e l u)"
  by (simp add: AddSpellLevel_def map_spell_ok split: option.splits)

lemma AddSpell_found:
  "AddSpell sdb e l st u = Inr (True, v) \<Longrightarrow> FindSpell v e \<noteq> None"
  by (cases "FindSpell u e") (auto simp: AddSpell_cases FindSpell_def map_add_def split: if_splits)

lemma AddSpell_total:
  "\<exists>v. AddSpell sdb e l st u = Inr (e \<noteq> 0 \<and> spell_allowed sdb u e, v)"
  by (cases "e \<noteq> 0 \<and> spell_allowed sdb u e") (simp_all add: AddSpell_cases)

text \<open>The spell operations keep the book well-formed, and on a well-formed book none of the
  unchecked template accesses is a null dereference; a spell is refused exactly when it has no
  template or is of the element opposed to the unit's.\<close>

theorem spell_book_safe:
  assumes "book_ok sdb u"
  shows "(\<exists>ok v. AddSpell sdb e l st u = Inr (ok, v) \<and> book_ok sdb v \<and>
      (ok \<longleftrightarrow> e \<noteq> 0 \<and> spell_allowed sdb u e) \<and> (ok \<longrightarrow> FindSpell v e \<noteq> None)) \<and>
    book_ok sdb (SetSpellLevel e l u) \<and> book_ok sdb (AddSpellLevel e l u) \<and>
    (\<exists>b. isSpellLevelMaxed sdb e u = Inr b)"
proof -
  have "\<exists>b. isSpellLevelMaxed sdb e u = Inr b"
    using book_ok_find [OF assms, of e]
    by (auto simp: isSpellLevelMaxed_def spell_allowed_def split: option.splits)
  moreover obtain v where "AddSpell sdb e l st u = Inr (e \<noteq> 0 \<and> spell_allowed sdb u e, v)"
    using AddSpell_total by blast
  ultimately show ?thesis
    using AddSpell_ok [OF assms] SetSpellLevel_ok [OF assms] AddSpellLevel_ok [OF assms]
      AddSpell_found [of sdb e l st u v] by auto
qed

definition sample_sdb :: spell_db where
  "sample_sdb e = (if e = 12001 then Some \<lparr>si_Entry = 12001, si_SP = 10, si_Element = ELEMENT_FIRE,
     si_hit = 3, si_LearnPoint = 2, si_LevelMax = 10, si_Type = 2, si_DamageMod = 0, si_Reborn = 0\<rparr> else None)"

theorem spell_book_safe_witness:
  "\<exists>v. AddSpell sample_sdb 12001 1 SPELL_NEW sample_unit = Inr (True, v) \<and> book_ok sample_sdb v"
proof -
  have "book_ok sample_sdb sample_unit"
    by (simp add: book_ok_def sample_unit_def)
  moreover have "spell_allowed sample_sdb sample_unit 12001"
    by (simp add: spell_allowed_def sample_sdb_def sample_unit_def opposite_element_def)
  ultimately show ?thesis
    using spell_book_safe [of sample_sdb sample_unit 12001 1 SPELL_NEW] by auto
qed

end
