(* ===== verification/Experience.thy ===== *)
theory Experience
  imports Spells
begin

text \<open>
  Experience and levels (\<open>Unit::AddExpGained\<close>, \<open>Unit::LevelUp\<close> in \<open>src/game/Unit.cpp\<close>). The
  floating point expressions are computed exactly: \<open>round(pow(lvl + 1, power) + 5)\<close> for the powers
  2.9, 3.0 and 3.1 by an integer search, and \<open>rand_chance() < k\<close> as a comparison of integers
  (for every \<open>uint8\<close> level and every generator output these agree with the IEEE results).
  Configured rates are arguments.
\<close>

subsection \<open>The experience of a level\<close>

text \<open>The largest number below \<open>k + 2 ^ b\<close> that satisfies a downward closed predicate.\<close>

fun bisect :: "(nat \<Rightarrow> bool) \<Rightarrow> nat \<Rightarrow> nat \<Rightarrow> nat" where
  "bisect P k 0 = k"
| "bisect P k (Suc b) = (if P (k + 2 ^ b) then bisect P (k + 2 ^ b) b else bisect P k b)"

lemma bisect_spec:
  assumes mono: "\<And>i j. i \<le> j \<Longrightarrow> P j \<Longrightarrow> P i"
  shows "P k \<Longrightarrow> \<not> P (k + 2 ^ b) \<Longrightarrow> P (bisect P k b) \<and> \<not> P (bisect P k b + 1)"
proof (induction b arbitrary: k)
  case 0
  then show ?case by simp
next
  case (Suc b)
  then show ?case by (simp add: add.assoc mult_2)
qed

definition round_pow_pred :: "nat \<Rightarrow> nat \<Rightarrow> nat \<Rightarrow> bool" where
  "round_pow_pred n tenths k \<longleftrightarrow> k = 0 \<or> (2 * k - 1) ^ 10 \<le> 2 ^ 10 * n ^ tenths"

text \<open>\<open>round(pow(n, tenths / 10))\<close>: the largest \<open>k\<close> with \<open>k - 1/2 \<le> n ^ (tenths / 10)\<close>.\<close>

definition round_pow :: "nat \<Rightarrow> nat \<Rightarrow> nat" where
  "round_pow n tenths = bisect (round_pow_pred n tenths) 0 26"

lemma round_pow_pred_mono: "i \<le> j \<Longrightarrow> round_pow_pred n t j \<Longrightarrow> round_pow_pred n t i"
proof (cases "i = 0")
  case True
  then show "round_pow_pred n t i" by (simp add: round_pow_pred_def)
next
  case False
  assume "i \<le> j" "round_pow_pred n t j"
  then have "(2 * i - 1) ^ 10 \<le> (2 * j - 1) ^ 10" "(2 * j - 1) ^ 10 \<le> 2 ^ 10 * n ^ t"
    using False by (auto simp: round_pow_pred_def intro!: power_mono)
  then have "(2 * i - 1) ^ 10 \<le> 2 ^ 10 * n ^ t" by (rule le_trans)
  then show ?thesis by (simp add: round_pow_pred_def)
qed

lemma round_pow_mono_arg: "n \<le> m \<Longrightarrow> round_pow_pred n t k \<Longrightarrow> round_pow_pred m t k"
proof -
  assume "n \<le> m" "round_pow_pred n t k"
  moreover from this(1) have "n ^ t \<le> m ^ t" by (rule power_mono) simp
  ultimately show ?thesis by (auto simp: round_pow_pred_def)
qed

lemma round_pow_spec:
  assumes "n \<le> 256" and "t \<le> 31"
  shows "round_pow_pred n t (round_pow n t) \<and> \<not> round_pow_pred n t (round_pow n t + 1)"
proof -
  have "\<not> round_pow_pred 256 31 (0 + 2 ^ 26)"
    by (simp add: round_pow_pred_def)
  moreover have "round_pow_pred 256 31 k" if "round_pow_pred n t k" for k
  proof (cases "k = 0")
    case False
    have "n ^ t \<le> 256 ^ 31"
    proof (cases "n = 0")
      case True
      then show ?thesis by (cases t) simp_all
    next
      case False
      then have "n ^ t \<le> n ^ 31" using assms(2) by (intro power_increasing) auto
      also have "\<dots> \<le> 256 ^ 31" using assms(1) by (rule power_mono) simp
      finally show ?thesis .
    qed
    then have "2 ^ 10 * n ^ t \<le> 2 ^ 10 * 256 ^ 31" by (rule mult_le_mono2)
    with that False show ?thesis unfolding round_pow_pred_def by (meson le_trans)
  qed (simp add: round_pow_pred_def)
  ultimately have top: "\<not> round_pow_pred n t (0 + 2 ^ 26)" by blast
  have bot: "round_pow_pred n t 0" by (simp add: round_pow_pred_def)
  show ?thesis
    unfolding round_pow_def by (rule bisect_spec [OF _ bot top]) (rule round_pow_pred_mono)
qed

text \<open>The exponent depends on the rebirths.\<close>

definition exp_tenths :: "u8 \<Rightarrow> nat" where
  "exp_tenths birth = (if birth = 0 then 29 else if birth = 1 then 30 else if birth = 2 then 31 else 29)"

definition tnl_of :: "nat \<Rightarrow> nat \<Rightarrow> u32" where
  "tnl_of tenths lvl = of_nat (round_pow (lvl + 1) tenths + 5)"

subsection \<open>Level up\<close>

text \<open>\<open>rand_chance() < k\<close> for the result \<open>r\<close> of \<open>rand32\<close>.\<close>

definition chance_below :: "int \<Rightarrow> int \<Rightarrow> bool" where
  "chance_below r k \<longleftrightarrow> r * 100 < k * (RAND32_MAX + 1)"

fun all_maxed :: "spell_db \<Rightarrow> (u16 \<times> spell) list \<Rightarrow> unit_rec \<Rightarrow> bool res" where
  "all_maxed sdb [] u = Inr True"
| "all_maxed sdb ((e, sp) # sps) u =
     bindR (isSpellLevelMaxed sdb (sp_entry sp) u) (\<lambda>m.
       if \<not> m then Inr False else all_maxed sdb sps u)"

definition random_stat :: "int \<Rightarrow> nat" where
  "random_stat r =
     (if chance_below r 20 then UNIT_FIELD_INT
      else if chance_below r 40 then UNIT_FIELD_ATK
      else if chance_below r 60 then UNIT_FIELD_DEF
      else if chance_below r 80 then UNIT_FIELD_HPX
      else if chance_below r 90 then UNIT_FIELD_SPX
      else UNIT_FIELD_AGI)"

definition level_up_pet :: "spell_db \<Rightarrow> unit_rec \<times> int \<Rightarrow> (unit_rec \<times> int) res" where
  "level_up_pet sdb = (\<lambda>(u, st).
     bindR (all_maxed sdb (u_spells u) u) (\<lambda>maxed.
       let u1 = (if \<not> maxed then uapply UNIT_FIELD_SPELL_POINT 1 True u else u);
           u2 = (if u_loyalty u1 < 100 then u1\<lparr>u_loyalty := u_loyalty u1 + 1\<rparr> else u1)
       in case rand32 st of (r, st') \<Rightarrow> Inr (uapply (random_stat r) 1 True u2, st')))"

definition refill :: "unit_rec \<Rightarrow> unit_rec" where
  "refill u =
     (let u1 = uset UNIT_FIELD_HP_MAX (ucast (GetHPMax u)) u;
          u2 = uset UNIT_FIELD_HP (ucast (GetHPMax u1)) u1;
          u3 = uset UNIT_FIELD_SP_MAX (ucast (GetSPMax u2)) u2
      in uset UNIT_FIELD_SP (ucast (GetSPMax u3)) u3)"

definition LevelUp :: "spell_db \<Rightarrow> unit_rec \<times> int \<Rightarrow> (unit_rec \<times> int) res" where
  "LevelUp sdb = (\<lambda>(u, st).
     let lvl = (ucast (uget u UNIT_FIELD_LEVEL + 1) :: u8);
         u1 = (uset UNIT_FIELD_LEVEL (ucast lvl) u)\<lparr>u_levelUp := True\<rparr>
     in bindR (if isType u1 TYPE_PLAYER
               then Inr (uapply UNIT_FIELD_STAT_POINT 2 True (uapply UNIT_FIELD_SPELL_POINT 1 True u1), st)
               else if isType u1 TYPE_PET then level_up_pet sdb (u1, st)
               else Inr (u1, st))
          (\<lambda>(u2, st'). Inr (refill u2, st')))"

subsection \<open>Gaining experience\<close>

text \<open>\<open>AddExpGained(int32)\<close> accumulates; \<open>rate_lost\<close> is the configured rate as an \<open>int32\<close>.\<close>

definition AddExpGained_acc :: "i32 \<Rightarrow> i32 \<Rightarrow> unit_rec \<Rightarrow> unit_rec" where
  "AddExpGained_acc rate_lost xp u =
     (if xp = 0 then u\<lparr>u_tmp_xp := 0\<rparr>
      else if sint xp < 0 then u\<lparr>u_tmp_xp := xp * rate_lost\<rparr>
      else u\<lparr>u_tmp_xp := u_tmp_xp u + xp\<rparr>)"

text \<open>\<open>hit_xp\<close> is \<open>(uint32) round(1 * rate)\<close> for the configured kill rate.\<close>

definition AddHitExp :: "u32 \<Rightarrow> i32 \<Rightarrow> u8 \<Rightarrow> bool \<Rightarrow> unit_rec \<Rightarrow> unit_rec" where
  "AddHitExp hit_xp rate_lost enemyLevel linked u =
     (let level = (ucast (uget u UNIT_FIELD_LEVEL) :: u8)
      in if level \<ge> 200 then u
         else if uint level - uint enemyLevel > 15 then u
         else if u_tmp_xp u \<noteq> 0 then u
         else AddExpGained_acc rate_lost hit_xp u)"

lemma uapply_simps [simp]:
  "u_vals (uapply i d b u) = (u_vals u)(i := ApplyModUInt32Var (u_vals u i) d b)"
  "u_type (uapply i d b u) = u_type u" "u_spells (uapply i d b u) = u_spells u"
  by (simp_all add: uapply_def)

lemma refill_level [simp]:
  "j \<notin> {UNIT_FIELD_HP_MAX, UNIT_FIELD_HP, UNIT_FIELD_SP_MAX, UNIT_FIELD_SP} \<Longrightarrow>
   u_vals (refill u) j = u_vals u j"
  "u_type (refill u) = u_type u"
  by (simp_all add: refill_def Let_def)

definition exp_fields :: "nat set" where
  "exp_fields = {UNIT_FIELD_LEVEL, UNIT_FIELD_XP, UNIT_FIELD_NEXT_LEVEL_XP, UNIT_FIELD_REBORN}"

lemma not_exp_fields:
  "random_stat r \<notin> exp_fields" "UNIT_FIELD_SPELL_POINT \<notin> exp_fields" "UNIT_FIELD_STAT_POINT \<notin> exp_fields"
  "exp_fields \<inter> {UNIT_FIELD_HP_MAX, UNIT_FIELD_HP, UNIT_FIELD_SP_MAX, UNIT_FIELD_SP} = {}"
  by (simp_all add: random_stat_def exp_fields_def)

lemma level_up_pet_exp:
  assumes "level_up_pet sdb (u, st) = Inr (v, st')" and "j \<in> exp_fields"
  shows "u_vals v j = u_vals u j"
proof -
  obtain r s where "rand32 st = (r, s)" by fastforce
  moreover have "j \<noteq> random_stat r" "j \<noteq> UNIT_FIELD_SPELL_POINT"
    using assms(2) not_exp_fields by blast+
  ultimately show ?thesis
    using assms(1)
    by (auto simp: level_up_pet_def Let_def bindR_eq_Inr simp del: UNIT_FIELD_SPELL_POINT_def)
qed

lemma level_up_exp:
  assumes "LevelUp sdb (u, st) = Inr (v, st')" and "j \<in> exp_fields"
  shows "u_vals v j = (if j = UNIT_FIELD_LEVEL then ucast (ucast (uget u UNIT_FIELD_LEVEL + 1) :: u8) else u_vals u j)"
proof -
  let ?u1 = "(uset UNIT_FIELD_LEVEL (ucast (ucast (uget u UNIT_FIELD_LEVEL + 1) :: u8)) u)\<lparr>u_levelUp := True\<rparr>"
  obtain u2 where v: "v = refill u2"
    and "u2 = uapply UNIT_FIELD_STAT_POINT 2 True (uapply UNIT_FIELD_SPELL_POINT 1 True ?u1) \<or>
      level_up_pet sdb (?u1, st) = Inr (u2, st') \<or> u2 = ?u1"
    using assms(1) by (auto simp: LevelUp_def Let_def bindR_eq_Inr split: if_splits)
  then have "u_vals u2 j = u_vals ?u1 j"
    using level_up_pet_exp [of sdb ?u1 st u2 st' j] assms(2) not_exp_fields(2,3) by auto
  moreover have "u_vals v j = u_vals u2 j"
    unfolding v using not_exp_fields(4) assms(2) by (intro refill_level) blast
  ultimately show ?thesis by simp
qed

text \<open>
  The loop of \<open>AddExpGained()\<close>. The comparison is unsigned. The level is a byte after every level up
  and the loop stops at level 200, so it ends from every level.
\<close>

function exp_loop :: "spell_db \<Rightarrow> nat \<Rightarrow> i32 \<Rightarrow> u32 \<Rightarrow> unit_rec \<times> int \<Rightarrow> (unit_rec \<times> int) res" where
  "exp_loop sdb tenths xp tnl (u, st) =
     (if \<not> tnl \<le> xp then Inr (u, st)
      else bindR (LevelUp sdb (u, st)) (\<lambda>p.
        let u1 = fst p;
            u2 = uset UNIT_FIELD_NEXT_LEVEL_XP (xp - tnl)
                   (uset UNIT_FIELD_XP (uget u1 UNIT_FIELD_XP + tnl) u1)
        in if 200 \<le> uget u2 UNIT_FIELD_LEVEL then Inr (u2, snd p)
           else exp_loop sdb tenths xp (tnl_of tenths (unat (uget u2 UNIT_FIELD_LEVEL))) (u2, snd p)))"
  by pat_completeness auto

definition exp_measure :: "unit_rec \<Rightarrow> nat" where
  "exp_measure u = (let l = unat (uget u UNIT_FIELD_LEVEL) in if l < 200 then 200 - l else 201)"

lemma level_byte_step:
  fixes v w :: u32
  assumes "w = ucast (ucast (v + 1) :: u8)" and "(w :: u32) < 200" and "unat v < 200"
  shows "unat w = unat v + 1"
proof -
  have "unat (v + 1) = unat v + 1"
    using assms(3) by (simp add: unat_word_ariths)
  then show ?thesis
    using assms(3) unfolding assms(1) unat_ucast_mod by simp
qed

lemma exp_measure_decreases:
  assumes "LevelUp sdb (u, st) = Inr p" and "\<not> 200 \<le> uget (fst p) UNIT_FIELD_LEVEL"
    and "uget v UNIT_FIELD_LEVEL = uget (fst p) UNIT_FIELD_LEVEL"
  shows "exp_measure v < exp_measure u"
proof -
  let ?l = "uget u UNIT_FIELD_LEVEL" and ?w = "uget (fst p) UNIT_FIELD_LEVEL"
  have w: "?w = ucast (ucast (?l + 1) :: u8)"
    using level_up_exp [of sdb u st "fst p" "snd p" UNIT_FIELD_LEVEL] assms(1) by (simp add: exp_fields_def)
  have lt: "?w < 200" using assms(2) by (simp add: not_le)
  then have "unat ?w < 200" by (simp add: word_less_nat_alt)
  with level_byte_step [OF w lt] assms(3) show ?thesis
    by (auto simp: exp_measure_def Let_def)
qed

termination exp_loop
proof (relation "measure (\<lambda>(sdb, t, xp, tnl, u, st). exp_measure u)", goal_cases)
  case 1
  then show ?case by simp
next
  case (2 sdb tenths xp tnl u st p u1 u2)
  then show ?case
    using exp_measure_decreases [of sdb u st p u2] by simp
qed

declare exp_loop.simps [simp del]

definition AddExpGained :: "spell_db \<Rightarrow> unit_rec \<times> int \<Rightarrow> (unit_rec \<times> int) res" where
  "AddExpGained sdb = (\<lambda>(u, st).
     let lvl = (ucast (uget u UNIT_FIELD_LEVEL) :: u8);
         tenths = exp_tenths (ucast (uget u UNIT_FIELD_REBORN));
         tnl = tnl_of tenths (unat lvl);
         xp0 = uget u UNIT_FIELD_NEXT_LEVEL_XP + u_tmp_xp u;
         xp = (if sint xp0 < 0 then 0 else xp0)
     in exp_loop sdb tenths xp tnl (uset UNIT_FIELD_NEXT_LEVEL_XP xp (u\<lparr>u_tmp_xp := 0\<rparr>), st))"

subsection \<open>What a gain does to a player\<close>

lemma isType_cong: "u_type v = u_type u \<Longrightarrow> isType v m = isType u m"
  by (simp add: isType_def)

lemma LevelUp_player:
  assumes "isType u TYPE_PLAYER"
  shows "\<exists>v. LevelUp sdb (u, st) = Inr (v, st) \<and> isType v TYPE_PLAYER"
proof -
  let ?u1 = "(uset UNIT_FIELD_LEVEL (ucast (ucast (uget u UNIT_FIELD_LEVEL + 1) :: u8)) u)\<lparr>u_levelUp := True\<rparr>"
  have "isType ?u1 TYPE_PLAYER"
    using assms by (simp add: isType_def)
  then have "LevelUp sdb (u, st) =
      Inr (refill (uapply UNIT_FIELD_STAT_POINT 2 True (uapply UNIT_FIELD_SPELL_POINT 1 True ?u1)), st)"
    by (simp add: LevelUp_def Let_def)
  with assms show ?thesis by (simp add: isType_def)
qed

lemma level_nat:
  assumes "uget u UNIT_FIELD_LEVEL = of_nat l" and "l < 200"
  shows "ucast (ucast (uget u UNIT_FIELD_LEVEL + 1) :: u8) = (of_nat (l + 1) :: u32)"
proof (rule word_unat_eq_iff [THEN iffD2])
  have "unat (uget u UNIT_FIELD_LEVEL + 1) = l + 1"
    using assms by (simp add: unat_word_ariths unat_of_nat)
  then show "unat (ucast (ucast (uget u UNIT_FIELD_LEVEL + 1) :: u8) :: u32) = unat (of_nat (l + 1) :: u32)"
    using assms(2) unfolding unat_of_nat unat_ucast_mod by simp
qed

lemma exp_loop_player:
  assumes "isType u TYPE_PLAYER" and "uget u UNIT_FIELD_LEVEL = of_nat l" and "l < 200" and "tnl_of t l \<le> xp"
  shows "\<exists>v l'. exp_loop sdb t xp (tnl_of t l) (u, st) = Inr (v, st) \<and> l < l' \<and> l' \<le> 200 \<and>
    uget v UNIT_FIELD_LEVEL = of_nat l' \<and> (l' = 200 \<or> xp < tnl_of t l') \<and>
    (\<forall>m. l < m \<and> m < l' \<longrightarrow> tnl_of t m \<le> xp) \<and>
    uget v UNIT_FIELD_NEXT_LEVEL_XP = xp - tnl_of t (l' - 1) \<and>
    uget v UNIT_FIELD_XP = uget u UNIT_FIELD_XP + sum_list (map (tnl_of t) [l..<l'])"
  using assms
proof (induction "200 - l" arbitrary: l u)
  case 0
  then show ?case by simp
next
  case (Suc n)
  obtain v where v: "LevelUp sdb (u, st) = Inr (v, st)" "isType v TYPE_PLAYER"
    using LevelUp_player [OF Suc.prems(1)] by blast
  let ?v = "uset UNIT_FIELD_NEXT_LEVEL_XP (xp - tnl_of t l)
      (uset UNIT_FIELD_XP (uget v UNIT_FIELD_XP + tnl_of t l) v)"
  have lev: "uget v UNIT_FIELD_LEVEL = of_nat (l + 1)"
    using level_up_exp [OF v(1), of UNIT_FIELD_LEVEL] level_nat [OF Suc.prems(2,3)]
    by (simp add: exp_fields_def)
  have xpf: "uget v UNIT_FIELD_XP = uget u UNIT_FIELD_XP"
    using level_up_exp [OF v(1), of UNIT_FIELD_XP] by (simp add: exp_fields_def)
  have un: "unat (of_nat (l + 1) :: u32) = l + 1"
    using Suc.prems(3) unfolding unat_of_nat by simp
  have ge: "200 \<le> (of_nat (l + 1) :: u32) \<longleftrightarrow> l + 1 = 200"
    using Suc.prems(3) un by (auto simp: word_le_nat_alt simp del: of_nat_Suc)
  have run: "exp_loop sdb t xp (tnl_of t l) (u, st) =
      (if l + 1 = 200 then Inr (?v, st) else exp_loop sdb t xp (tnl_of t (l + 1)) (?v, st))"
    using Suc.prems(4) v(1) lev un ge
    by (subst exp_loop.simps) (simp add: Let_def del: of_nat_Suc of_nat_add)
  show ?case
  proof (cases "l + 1 = 200 \<or> xp < tnl_of t (l + 1)")
    case True
    then have "exp_loop sdb t xp (tnl_of t l) (u, st) = Inr (?v, st)"
      using run exp_loop.simps [of sdb t xp "tnl_of t (l + 1)" ?v st] by (auto simp: not_le)
    then show ?thesis
      using True lev xpf Suc.prems(3) by (intro exI [of _ ?v] exI [of _ "l + 1"]) auto
  next
    case False
    then have next_le: "tnl_of t (l + 1) \<le> xp" and "l + 1 < 200" using Suc.prems(3) by auto
    moreover have "isType ?v TYPE_PLAYER" using v(2) by (simp add: isType_def)
    moreover have "uget ?v UNIT_FIELD_LEVEL = of_nat (l + 1)" using lev by simp
    moreover have "n = 200 - (l + 1)" using Suc.hyps(2) by simp
    ultimately obtain w l' where w: "exp_loop sdb t xp (tnl_of t (l + 1)) (?v, st) = Inr (w, st)"
      "l + 1 < l'" "l' \<le> 200" "uget w UNIT_FIELD_LEVEL = of_nat l'" "l' = 200 \<or> xp < tnl_of t l'"
      "\<forall>m. l + 1 < m \<and> m < l' \<longrightarrow> tnl_of t m \<le> xp"
      "uget w UNIT_FIELD_NEXT_LEVEL_XP = xp - tnl_of t (l' - 1)"
      "uget w UNIT_FIELD_XP = uget ?v UNIT_FIELD_XP + sum_list (map (tnl_of t) [l + 1..<l'])"
      using Suc.hyps(1) [of "l + 1" ?v] by blast
    have "[l..<l'] = l # [l + 1..<l']" using w(2) by (simp add: upt_conv_Cons)
    then have "uget w UNIT_FIELD_XP = uget u UNIT_FIELD_XP + sum_list (map (tnl_of t) [l..<l'])"
      using w(8) xpf by (simp add: add.assoc)
    moreover have "\<forall>m. l < m \<and> m < l' \<longrightarrow> tnl_of t m \<le> xp"
      using w(6) next_le by (metis Suc_eq_plus1 Suc_lessI)
    ultimately show ?thesis
      using w run \<open>l + 1 < 200\<close> by (intro exI [of _ w] exI [of _ l']) auto
  qed
qed

text \<open>C28: a player below level 200 whose collected experience reaches the next level ends on the first
  higher level that the experience does not reach, or on 200, always after finitely many level
  ups and without any fault. The experience is compared in full with every level on the way, so one gain
  pays for each of them: the experience of all the levels passed is added to the total, while
  only the cost of the last one is taken from the experience that is left.\<close>

theorem AddExpGained_player:
  assumes "isType u TYPE_PLAYER" and "uget u UNIT_FIELD_LEVEL = of_nat l" and "l < 200"
    and "xp = uget u UNIT_FIELD_NEXT_LEVEL_XP + u_tmp_xp u" and "0 \<le> sint xp"
    and "t = exp_tenths (ucast (uget u UNIT_FIELD_REBORN))" and "tnl_of t l \<le> xp"
  shows "\<exists>v l'. AddExpGained sdb (u, st) = Inr (v, st) \<and> l < l' \<and> l' \<le> 200 \<and>
    uget v UNIT_FIELD_LEVEL = of_nat l' \<and> (l' = 200 \<or> xp < tnl_of t l') \<and>
    (\<forall>m. l < m \<and> m < l' \<longrightarrow> tnl_of t m \<le> xp) \<and>
    uget v UNIT_FIELD_NEXT_LEVEL_XP = xp - tnl_of t (l' - 1) \<and>
    uget v UNIT_FIELD_XP = uget u UNIT_FIELD_XP + sum_list (map (tnl_of t) [l..<l'])"
proof -
  let ?u = "uset UNIT_FIELD_NEXT_LEVEL_XP xp (u\<lparr>u_tmp_xp := 0\<rparr>)"
  have "unat (ucast (uget u UNIT_FIELD_LEVEL) :: u8) = l"
    using assms(3) unfolding assms(2) unat_ucast_mod unat_of_nat by simp
  then have "AddExpGained sdb (u, st) = exp_loop sdb t xp (tnl_of t l) (?u, st)"
    using assms(4-6) by (simp add: AddExpGained_def Let_def)
  moreover have "isType ?u TYPE_PLAYER" using assms(1) by (simp add: isType_def)
  ultimately show ?thesis
    using exp_loop_player [of ?u l t xp sdb st] assms(2,3,7) by simp
qed

definition sample_player :: unit_rec where
  "sample_player = sample_unit\<lparr>u_type := TYPE_PLAYER, u_tmp_xp := 100,
     u_vals := (\<lambda>i. if i = UNIT_FIELD_LEVEL then 1 else 0)\<rparr>"

lemma round_pow_unique:
  assumes "n \<le> 256" and "t \<le> 31" and "round_pow_pred n t k" and "\<not> round_pow_pred n t (k + 1)"
  shows "round_pow n t = k"
proof (rule antisym)
  note spec = round_pow_spec [OF assms(1,2)]
  show "round_pow n t \<le> k"
    using spec assms(4) round_pow_pred_mono [of "k + 1" "round_pow n t" n t] by fastforce
  show "k \<le> round_pow n t"
    using spec assms(3) round_pow_pred_mono [of "round_pow n t + 1" k n t] by fastforce
qed

lemma tnl_values: "tnl_of 29 1 = 12" "tnl_of 29 2 = 29" "tnl_of 29 3 = 61" "tnl_of 29 4 = 111"
proof -
  have "round_pow 2 29 = 7" "round_pow 3 29 = 24" "round_pow 4 29 = 56" "round_pow 5 29 = 106"
    by (rule round_pow_unique; simp add: round_pow_pred_def)+
  then show "tnl_of 29 1 = 12" "tnl_of 29 2 = 29" "tnl_of 29 3 = 61" "tnl_of 29 4 = 111"
    by (simp_all add: tnl_of_def numeral_2_eq_2 [symmetric])
qed

theorem AddExpGained_player_witness:
  "\<exists>v. AddExpGained sample_sdb (sample_player, 1) = Inr (v, 1) \<and>
    uget v UNIT_FIELD_LEVEL = 4 \<and> uget v UNIT_FIELD_XP = 102 \<and> uget v UNIT_FIELD_NEXT_LEVEL_XP = 39"
proof -
  have h: "isType sample_player TYPE_PLAYER" "uget sample_player UNIT_FIELD_LEVEL = of_nat 1"
    "(1 :: nat) < 200" "(100 :: u32) = uget sample_player UNIT_FIELD_NEXT_LEVEL_XP + u_tmp_xp sample_player"
    "0 \<le> sint (100 :: 32 word)" "29 = exp_tenths (ucast (uget sample_player UNIT_FIELD_REBORN))"
    "tnl_of 29 1 \<le> 100"
    by (simp_all add: sample_player_def isType_def exp_tenths_def tnl_values del: One_nat_def)
  obtain v l' where v: "AddExpGained sample_sdb (sample_player, 1) = Inr (v, 1)" "1 < l'" "l' \<le> 200"
    "uget v UNIT_FIELD_LEVEL = of_nat l'" "l' = 200 \<or> 100 < tnl_of 29 l'"
    "\<forall>m. 1 < m \<and> m < l' \<longrightarrow> tnl_of 29 m \<le> 100"
    "uget v UNIT_FIELD_NEXT_LEVEL_XP = 100 - tnl_of 29 (l' - 1)"
    "uget v UNIT_FIELD_XP = uget sample_player UNIT_FIELD_XP + sum_list (map (tnl_of 29) [1..<l'])"
    using AddExpGained_player [OF h, of sample_sdb 1] by blast
  have "l' \<le> 4"
  proof (rule ccontr)
    assume "\<not> l' \<le> 4"
    with v(6) have "tnl_of 29 4 \<le> 100" by auto
    then show False by (simp add: tnl_values)
  qed
  moreover have "l' \<noteq> 2" "l' \<noteq> 3"
    using v(5) tnl_values by auto
  ultimately have l': "l' = 4" using v(2) by simp
  have "[1..<4] = [1, 2, 3 :: nat]" by code_simp
  then have "uget v UNIT_FIELD_XP = 102" "uget v UNIT_FIELD_LEVEL = 4" "uget v UNIT_FIELD_NEXT_LEVEL_XP = 39"
    using v(4,7,8) tnl_values unfolding l' by (simp_all add: sample_player_def)
  with v(1) show ?thesis by blast
qed

end
