(* ===== verification/Messages.thy ===== *)
theory Messages
  imports ByteBuffer
begin

text \<open>
  The messages the game sends: who gets them (\<open>Player::SendMessageToSet\<close>, \<open>SendMessageToAll\<close>,
  \<open>WorldSession::SendPacket\<close>), the opcode \<open>Initialize\<close> is given and the fields that are appended. The
  log flag of \<open>SendPacket\<close> only writes a trace.
\<close>

datatype audience = ToSet bool | ToAll bool | ToSession

type_synonym outgoing = "audience \<times> u8 \<times> field list"

text \<open>A C string: \<open>operator<<(const char*)\<close> encodes its bytes one by one.\<close>

definition str_fields :: "bytes \<Rightarrow> field list" where
  "str_fields s = map FU8 s"

text \<open>What the handlers read from a packet, one value after the other.\<close>

definition read_u8 :: "byte_buffer \<Rightarrow> (u8 \<times> byte_buffer) res" where
  "read_u8 b = op_read dec_u8 1 b"

definition read_u16 :: "byte_buffer \<Rightarrow> (u16 \<times> byte_buffer) res" where
  "read_u16 b = op_read dec_u16 2 b"

definition read_u32 :: "byte_buffer \<Rightarrow> (u32 \<times> byte_buffer) res" where
  "read_u32 b = op_read dec_u32 4 b"

lemma str_fields_bytes: "0 \<notin> set s \<Longrightarrow> concat (map field_bytes (str_fields s)) = Encode_string s"
  by (induction s) (simp_all add: str_fields_def enc_u8_def Encode_string_no_nul)

lemma str_fields_append: "str_fields (s @ t) = str_fields s @ str_fields t"
  by (simp add: str_fields_def)

end
