(* ===== verification/Team.thy ===== *)
theory Team
  imports Messages
begin

text \<open>
  Teams of players (\<open>src/game/Player.cpp\<close>, \<open>src/game/GroupHandler.cpp\<close>): the list of members a leader
  keeps, the leader every member names, and the messages. Players are numbered objects in a heap
  (\<open>gw_heap\<close>, none once deleted), \<open>gw_find\<close> is the map of the players in the world by guid, and
  \<open>gw_sent\<close> the messages sent so far, each with its sender, audience, opcode and fields. The guid an
  account has in the database is the argument \<open>guid_of\<close>.
\<close>

type_synonym pid = nat

record gplayer =
  gp_guid :: u32
  gp_account :: u32
  gp_leader :: u32
  gp_subleader :: u32
  gp_team :: "pid list"
  gp_dontMove :: bool
  gp_battle :: bool
  gp_master :: bool
  gp_pets :: "u16 option list"

type_synonym message = "pid \<times> outgoing"

record gworld =
  gw_heap :: "pid \<Rightarrow> gplayer option"
  gw_find :: "u32 \<Rightarrow> pid option"
  gw_sent :: "message list"

definition get_player :: "pid \<Rightarrow> gworld \<Rightarrow> gplayer res" where
  "get_player p w = (case gw_heap w p of None \<Rightarrow> Inl UseAfterFree | Some x \<Rightarrow> Inr x)"

definition upd_player :: "pid \<Rightarrow> (gplayer \<Rightarrow> gplayer) \<Rightarrow> gworld \<Rightarrow> gworld res" where
  "upd_player p f w =
     bindR (get_player p w) (\<lambda>x. Inr (w\<lparr>gw_heap := (gw_heap w)(p \<mapsto> f x)\<rparr>))"

definition send :: "pid \<Rightarrow> audience \<Rightarrow> u8 \<Rightarrow> field list \<Rightarrow> gworld \<Rightarrow> gworld" where
  "send p a opcode fs w = w\<lparr>gw_sent := gw_sent w @ [(p, a, opcode, fs)]\<rparr>"

definition FindPlayer :: "u32 \<Rightarrow> gworld \<Rightarrow> pid option" where
  "FindPlayer guid w = gw_find w guid"

definition FindPlayerByAccountId :: "(u32 \<Rightarrow> u32) \<Rightarrow> u32 \<Rightarrow> gworld \<Rightarrow> pid option" where
  "FindPlayerByAccountId guid_of acc w = FindPlayer (guid_of acc) w"

subsection \<open>Members and leaders\<close>

definition isTeamLeader :: "gplayer \<Rightarrow> bool" where
  "isTeamLeader x \<longleftrightarrow> 0 < length (gp_team x)"

definition isJoinedTeam :: "gplayer \<Rightarrow> bool" where
  "isJoinedTeam x \<longleftrightarrow> gp_leader x \<noteq> 0"

definition isBattleInProgress :: "gplayer \<Rightarrow> bool" where
  "isBattleInProgress x \<longleftrightarrow> gp_battle x"

definition CanJoinTeam :: "gplayer \<Rightarrow> bool" where
  "CanJoinTeam x \<longleftrightarrow> (if isJoinedTeam x then False else length (gp_team x) < 4)"

definition JoinTeam :: "pid \<Rightarrow> pid \<Rightarrow> gworld \<Rightarrow> gworld res" where
  "JoinTeam l m w =
     bindR (get_player l w) (\<lambda>L.
     bindR (upd_player m (\<lambda>x. x\<lparr>gp_dontMove := True, gp_leader := gp_guid L\<rparr>) w) (\<lambda>w1.
     bindR (upd_player l (\<lambda>x. x\<lparr>gp_team := gp_team x @ [m]\<rparr>) w1) (\<lambda>w2.
     bindR (get_player m w2) (\<lambda>M.
       Inr (send l (ToSet True) 0x0D [FU8 5, FU32 (gp_account L), FU32 (gp_account M)] w2)))))"

text \<open>The pets a player who is in no team shows, slot by slot.\<close>

definition pet_block :: "nat \<Rightarrow> u16 \<Rightarrow> field list" where
  "pet_block slot modelid =
     [FU8 (of_nat slot + 1), FU16 modelid, FU8 0, FU16 0, FU8 0, FU8 0] @ replicate 8 (FU8 0)"

definition BuildUpdateBlockTeam :: "pid \<Rightarrow> gworld \<Rightarrow> (u8 \<times> field list) option res" where
  "BuildUpdateBlockTeam p w =
     bindR (get_player p w) (\<lambda>x.
       if \<not> isTeamLeader x
       then if isJoinedTeam x then Inr None
            else let blocks = concat (map (\<lambda>(slot, pet). case pet of None \<Rightarrow> [] | Some m \<Rightarrow> pet_block slot m)
                                          (zip [0..<length (gp_pets x)] (gp_pets x)))
                 in Inr (if blocks = [] then None else Some (0x0F, [FU8 7, FU32 (gp_account x)] @ blocks))
       else bindR (foldR (\<lambda>m acc. bindR (get_player m w) (\<lambda>M. Inr (acc @ [FU32 (gp_account M)]))) (gp_team x) [])
              (\<lambda>ids. Inr (Some (0x0D, [FU8 6, FU32 (gp_account x), FU8 (of_nat (length (gp_team x)))] @ ids))))"

definition send_block :: "pid \<Rightarrow> (u8 \<times> field list) option \<Rightarrow> gworld \<Rightarrow> gworld" where
  "send_block p blk w = (case blk of None \<Rightarrow> w | Some (opcode, fs) \<Rightarrow> send p (ToSet True) opcode fs w)"

definition LeaveTeam :: "pid \<Rightarrow> pid \<Rightarrow> gworld \<Rightarrow> gworld res" where
  "LeaveTeam l m w =
     bindR (upd_player m (\<lambda>x. x\<lparr>gp_dontMove := False\<rparr>) w) (\<lambda>w1.
     bindR (upd_player l (\<lambda>x. x\<lparr>gp_team := filter (\<lambda>q. q \<noteq> m) (gp_team x)\<rparr>) w1) (\<lambda>w2.
     bindR (upd_player m (\<lambda>x. x\<lparr>gp_leader := 0\<rparr>) w2) (\<lambda>w3.
     bindR (get_player m w3) (\<lambda>M.
     let w4 = send l (ToSet True) 0x0D [FU8 4, FU32 (gp_account M)] w3
     in bindR (BuildUpdateBlockTeam m w4) (\<lambda>b1.
        let w5 = send_block l b1 w4
        in bindR (BuildUpdateBlockTeam l w5) (\<lambda>b2. Inr (send_block l b2 w5)))))))"

text \<open>The loop of \<open>DismissTeam\<close> and of the destructor: while there are members, the first one leaves.\<close>

definition team_of :: "pid \<Rightarrow> gworld \<Rightarrow> pid list" where
  "team_of l w = (case gw_heap w l of None \<Rightarrow> [] | Some L \<Rightarrow> gp_team L)"

lemma BuildUpdateBlockTeam_cong: "gw_heap v = gw_heap w \<Longrightarrow> BuildUpdateBlockTeam p v = BuildUpdateBlockTeam p w"
proof -
  assume "gw_heap v = gw_heap w"
  then have g: "get_player m v = get_player m w" for m by (simp add: get_player_def)
  show ?thesis by (simp only: BuildUpdateBlockTeam_def g)
qed

lemma LeaveTeam_heap:
  assumes "LeaveTeam l m w = Inr w'"
  shows "\<exists>L M. gw_heap w l = Some L \<and> gw_heap w m = Some M \<and> gw_find w' = gw_find w \<and>
    gw_heap w' = (let h = (gw_heap w)(m \<mapsto> M\<lparr>gp_dontMove := False\<rparr>);
                      h2 = h(l \<mapsto> (the (h l))\<lparr>gp_team := filter (\<lambda>q. q \<noteq> m) (gp_team L)\<rparr>)
                  in h2(m \<mapsto> (the (h2 m))\<lparr>gp_leader := 0\<rparr>))"
  using assms
  by (auto simp: LeaveTeam_def upd_player_def get_player_def send_def send_block_def bindR_eq_Inr Let_def
      split: option.splits prod.splits if_splits)

lemma LeaveTeam_team_of:
  assumes "LeaveTeam l m w = Inr w'"
  shows "team_of l w' = filter (\<lambda>q. q \<noteq> m) (team_of l w)"
  using LeaveTeam_heap [OF assms] by (auto simp: team_of_def Let_def split: if_splits)

function dismiss_loop :: "pid \<Rightarrow> gworld \<Rightarrow> gworld res" where
  "dismiss_loop l w =
     (case team_of l w of
        [] \<Rightarrow> Inr w
      | m # ms \<Rightarrow> bindR (get_player m w) (\<lambda>_. bindR (LeaveTeam l m w) (dismiss_loop l)))"
  by pat_completeness auto

termination
proof (relation "measure (\<lambda>(l, w). length (team_of l w))")
  fix l w m ms x w'
  assume "team_of l w = m # ms" "LeaveTeam l m w = Inr w'"
  then show "((l, w'), l, w) \<in> measure (\<lambda>(l, w). length (team_of l w))"
    using LeaveTeam_team_of [of l m w w'] by (simp add: le_imp_less_Suc)
qed simp

declare dismiss_loop.simps [simp del]

definition DismissTeam :: "pid \<Rightarrow> gworld \<Rightarrow> gworld res" where
  "DismissTeam l w =
     bindR (get_player l w) (\<lambda>L.
       if \<not> isTeamLeader L then Inr w
       else bindR (dismiss_loop l w) (\<lambda>w1.
         Inr (send l (ToSet True) 0x0D [FU8 4, FU32 (gp_account L)]
             (send l (ToSet True) 0x18 [FU8 5, FU8 0x91, FU8 1, FU8 0]
             (send l (ToSet True) 0x18 [FU8 5, FU8 0x62, FU8 1, FU8 0]
             (send l (ToSet True) 0x18 [FU8 5, FU8 2, FU8 0, FU8 0] w1))))))"

subsection \<open>The subleader\<close>

definition UpdateTeamSub :: "pid \<Rightarrow> gworld \<Rightarrow> gworld res" where
  "UpdateTeamSub l w =
     bindR (get_player l w) (\<lambda>L.
       case FindPlayer (gp_subleader L) w of
         None \<Rightarrow> Inr w
       | Some sub \<Rightarrow>
           bindR (get_player sub w) (\<lambda>S.
             Inr (send l (ToSet True) 0x0D [FU8 0x0B, FU32 (gp_account S)]
                 (send l (ToSet True) 0x0D [FU8 7, FU32 (gp_account S)]
                 (send l ToSession 0x0D [FU8 8, FU32 (gp_account S)] w)))))"

definition SetSubleader :: "(u32 \<Rightarrow> u32) \<Rightarrow> pid \<Rightarrow> u32 \<Rightarrow> gworld \<Rightarrow> gworld res" where
  "SetSubleader guid_of l acc w =
     bindR (get_player l w) (\<lambda>L.
       if \<not> isTeamLeader L then Inr w
       else case FindPlayerByAccountId guid_of acc w of
              None \<Rightarrow> Inr w
            | Some sub \<Rightarrow>
                if sub \<notin> set (gp_team L) then Inr w
                else bindR (get_player sub w) (\<lambda>S.
                     bindR (upd_player l (\<lambda>x. x\<lparr>gp_subleader := gp_guid S\<rparr>) w) (UpdateTeamSub l)))"

definition UnsetSubleader :: "pid \<Rightarrow> u32 \<Rightarrow> gworld \<Rightarrow> gworld res" where
  "UnsetSubleader l acc w =
     bindR (get_player l w) (\<lambda>L.
       if \<not> isTeamLeader L then Inr w
       else if gp_subleader L = 0 then Inr w
       else case FindPlayer (gp_subleader L) w of
              None \<Rightarrow> Inr w
            | Some sub \<Rightarrow>
                bindR (get_player sub w) (\<lambda>S.
                  if acc \<noteq> gp_account S then Inr w
                  else upd_player l (\<lambda>x. x\<lparr>gp_subleader := 0\<rparr>)
                         (send l (ToSet True) 0x0D [FU8 0x0C, FU32 (gp_account S)]
                         (send l (ToSet True) 0x0D [FU8 8, FU32 (gp_account S)] w))))"

fun nth_guid :: "pid list \<Rightarrow> u8 \<Rightarrow> u8 \<Rightarrow> gworld \<Rightarrow> u32 res" where
  "nth_guid [] count index w = Inr 0"
| "nth_guid (m # ms) count index w =
     (if count + 1 = index then bindR (get_player m w) (\<lambda>M. Inr (gp_guid M))
      else nth_guid ms (count + 1) index w)"

definition GetTeamGuid :: "pid \<Rightarrow> u8 \<Rightarrow> gworld \<Rightarrow> u32 res" where
  "GetTeamGuid l index w = bindR (get_player l w) (\<lambda>L. nth_guid (gp_team L) 0 index w)"

subsection \<open>The destructor of a player\<close>

text \<open>
  What \<open>LogoutPlayer\<close> and \<open>~Player\<close> do to teams: the player is taken from the world, leaves the team of
  the leader it names, dismisses its own team and is gone. The battle it may be in is not part of this
  model.
\<close>

definition DestroyPlayer :: "pid \<Rightarrow> gworld \<Rightarrow> gworld res" where
  "DestroyPlayer p w =
     bindR (get_player p w) (\<lambda>x.
     let w1 = w\<lparr>gw_find := (gw_find w)(gp_guid x := None)\<rparr>
     in bindR (if gp_leader x \<noteq> 0
               then case FindPlayer (gp_leader x) w1 of None \<Rightarrow> Inr w1 | Some l \<Rightarrow> LeaveTeam l p w1
               else Inr w1) (\<lambda>w2.
        bindR (dismiss_loop p w2) (\<lambda>w3. Inr (w3\<lparr>gw_heap := (gw_heap w3)(p := None)\<rparr>))))"

subsection \<open>The packets\<close>

text \<open>A packet shorter than the size that is checked is dropped.\<close>

definition handle_request :: "(u32 \<Rightarrow> u32) \<Rightarrow> pid \<Rightarrow> byte_buffer \<Rightarrow> gworld \<Rightarrow> gworld res" where
  "handle_request guid_of me b w =
     bindR (get_player me w) (\<lambda>x.
       if isJoinedTeam x then Inr w
       else if isBattleInProgress x \<or> gp_master x then Inr w
       else if bb_size b < 4 then Inr w
       else bindR (read_u32 b) (\<lambda>(leaderId, _).
         case FindPlayerByAccountId guid_of leaderId w of
           None \<Rightarrow> Inr w
         | Some l \<Rightarrow>
             bindR (get_player l w) (\<lambda>L.
               if isJoinedTeam L then Inr w
               else Inr (send l ToSession 0x0D [FU8 1, FU32 (gp_account x)] w))))"

definition handle_response :: "(u32 \<Rightarrow> u32) \<Rightarrow> pid \<Rightarrow> byte_buffer \<Rightarrow> gworld \<Rightarrow> gworld res" where
  "handle_response guid_of me b w =
     bindR (get_player me w) (\<lambda>x.
       if isJoinedTeam x then Inr w
       else if isBattleInProgress x then Inr w
       else if bb_size b < 5 then Inr w
       else bindR (read_u8 b) (\<lambda>(response, b1).
       bindR (read_u32 b1) (\<lambda>(memberId, _).
         case FindPlayerByAccountId guid_of memberId w of
           None \<Rightarrow> Inr w
         | Some m \<Rightarrow>
             bindR (get_player m w) (\<lambda>M.
               if isJoinedTeam M then Inr w
               else if isTeamLeader M then Inr w
               else if isBattleInProgress M \<or> gp_master M then Inr w
               else let w1 = send m ToSession 0x0D [FU8 3, FU8 response, FU32 (gp_account x)] w
                    in if response = 1
                       then if \<not> CanJoinTeam x then Inr w1 else JoinTeam me m w1
                       else Inr w1))))"

definition handle_leave :: "(u32 \<Rightarrow> u32) \<Rightarrow> pid \<Rightarrow> byte_buffer \<Rightarrow> gworld \<Rightarrow> gworld res" where
  "handle_leave guid_of me b w =
     (if bb_size b < 5 then Inr w
      else bindR (read_u32 b) (\<lambda>(teamleaderId, _).
        bindR (get_player me w) (\<lambda>x.
          if isTeamLeader x then DismissTeam me w
          else case FindPlayerByAccountId guid_of teamleaderId w of
                 None \<Rightarrow> Inr w
               | Some l \<Rightarrow> LeaveTeam l me w)))"

definition HandleGroupOpcodes :: "(u32 \<Rightarrow> u32) \<Rightarrow> pid \<Rightarrow> byte_buffer \<Rightarrow> gworld \<Rightarrow> gworld res" where
  "HandleGroupOpcodes guid_of me b w =
     (if bb_size b < 1 then Inr w
      else bindR (read_u8 b) (\<lambda>(cmd, b1).
        if cmd = 1 then handle_request guid_of me b1 w
        else if cmd = 3 then handle_response guid_of me b1 w
        else if cmd = 4 then handle_leave guid_of me b1 w
        else if cmd = 5 then
          if bb_size b1 < 5 then Inr w
          else bindR (read_u32 b1) (\<lambda>(acc, _). SetSubleader guid_of me acc w)
        else if cmd = 6 then
          if bb_size b1 < 5 then Inr w
          else bindR (read_u32 b1) (\<lambda>(acc, _). UnsetSubleader me acc w)
        else if cmd = 7 then
          if bb_size b1 < 5 then Inr w
          else bindR (read_u32 b1) (\<lambda>(_, _). Inr w)
        else Inr w))"

end
