(* ===== verification/TeamInvariant.thy ===== *)
theory TeamInvariant
  imports Team
begin

text \<open>
  The invariant of teams. A world is seen through five functions of its players (who is alive, the
  guid, the leader, the team and whether the player may move), the operations are changes of these
  functions, and the invariant is preserved by every packet that leaves no foreign team and by every
  logout.
\<close>

definition live :: "gworld \<Rightarrow> pid set" where
  "live w = {p. gw_heap w p \<noteq> None}"

definition guid :: "gworld \<Rightarrow> pid \<Rightarrow> u32" where
  "guid w p = (case gw_heap w p of None \<Rightarrow> 0 | Some x \<Rightarrow> gp_guid x)"

definition lead :: "gworld \<Rightarrow> pid \<Rightarrow> u32" where
  "lead w p = (case gw_heap w p of None \<Rightarrow> 0 | Some x \<Rightarrow> gp_leader x)"

definition stuck :: "gworld \<Rightarrow> pid \<Rightarrow> bool" where
  "stuck w p \<longleftrightarrow> (case gw_heap w p of None \<Rightarrow> False | Some x \<Rightarrow> gp_dontMove x)"

lemmas proj_defs = live_def guid_def lead_def stuck_def team_of_def

text \<open>
  Members are exactly the players that name the leader; nobody is in two teams or twice in one; a
  leader is in no other team; a member cannot move on its own.
\<close>

definition teams_ok :: "gworld \<Rightarrow> bool" where
  "teams_ok w \<longleftrightarrow>
     inj_on (guid w) (live w) \<and> (\<forall>p \<in> live w. guid w p \<noteq> 0) \<and>
     (\<forall>p \<in> live w. distinct (team_of p w) \<and> length (team_of p w) \<le> 4 \<and> set (team_of p w) \<subseteq> live w) \<and>
     (\<forall>p \<in> live w. \<forall>m \<in> live w. m \<in> set (team_of p w) \<longleftrightarrow> lead w m = guid w p) \<and>
     (\<forall>m \<in> live w. lead w m \<noteq> 0 \<longrightarrow> (\<exists>p \<in> live w. guid w p = lead w m)) \<and>
     (\<forall>p \<in> live w. team_of p w \<noteq> [] \<longrightarrow> lead w p = 0 \<or> lead w p = guid w p) \<and>
     (\<forall>m \<in> live w. lead w m \<noteq> 0 \<longrightarrow> stuck w m)"

definition find_ok :: "gworld \<Rightarrow> bool" where
  "find_ok w \<longleftrightarrow> (\<forall>g p. gw_find w g = Some p \<longleftrightarrow> p \<in> live w \<and> guid w p = g)"

definition team_ok :: "gworld \<Rightarrow> bool" where
  "team_ok w \<longleftrightarrow> teams_ok w \<and> find_ok w"

lemma team_of_dead: "p \<notin> live w \<Longrightarrow> team_of p w = []"
  by (simp add: team_of_def live_def)

lemma teams_okD:
  assumes "teams_ok w" and "p \<in> live w"
  shows "guid w p \<noteq> 0" "distinct (team_of p w)" "length (team_of p w) \<le> 4" "set (team_of p w) \<subseteq> live w"
    "team_of p w \<noteq> [] \<Longrightarrow> lead w p = 0 \<or> lead w p = guid w p" "lead w p \<noteq> 0 \<Longrightarrow> stuck w p"
  using assms unfolding teams_ok_def by blast+

lemma teams_ok_mem:
  assumes "teams_ok w" and "p \<in> live w" and "m \<in> live w"
  shows "m \<in> set (team_of p w) \<longleftrightarrow> lead w m = guid w p"
  using assms unfolding teams_ok_def by blast

lemma teams_ok_inj: "teams_ok w \<Longrightarrow> p \<in> live w \<Longrightarrow> q \<in> live w \<Longrightarrow> guid w p = guid w q \<Longrightarrow> p = q"
  unfolding teams_ok_def by (blast dest: inj_onD)

lemma teams_ok_leader: "teams_ok w \<Longrightarrow> m \<in> live w \<Longrightarrow> lead w m \<noteq> 0 \<Longrightarrow> \<exists>p \<in> live w. guid w p = lead w m"
  unfolding teams_ok_def by blast

subsection \<open>Joining and leaving as changes of the functions\<close>

definition changed :: "gworld \<Rightarrow> gworld \<Rightarrow> pid \<Rightarrow> pid list \<Rightarrow> pid \<Rightarrow> u32 \<Rightarrow> bool \<Rightarrow> bool" where
  "changed w v l t m g s \<longleftrightarrow> live v = live w \<and> guid v = guid w \<and> gw_find v = gw_find w \<and>
     (\<forall>p. team_of p v = (if p = l then t else team_of p w)) \<and>
     (\<forall>p. lead v p = (if p = m then g else lead w p)) \<and>
     (\<forall>p. stuck v p = (if p = m then s else stuck w p))"

lemma proj_send [simp]:
  "live (send p a op fs w) = live w" "guid (send p a op fs w) = guid w" "lead (send p a op fs w) = lead w"
  "stuck (send p a op fs w) = stuck w" "team_of q (send p a op fs w) = team_of q w"
  "gw_find (send p a op fs w) = gw_find w" "gw_heap (send p a op fs w) = gw_heap w"
  by (simp_all add: send_def proj_defs fun_eq_iff)

lemma teams_ok_send [simp]: "teams_ok (send p a op fs w) = teams_ok w"
  by (simp add: teams_ok_def)

lemma find_ok_send [simp]: "find_ok (send p a op fs w) = find_ok w"
  by (simp add: find_ok_def)

lemma team_ok_send [simp]: "team_ok (send p a op fs w) = team_ok w"
  by (simp add: team_ok_def)

lemma JoinTeam_changed:
  assumes "l \<in> live w" and "m \<in> live w"
  shows "\<exists>v. JoinTeam l m w = Inr v \<and> changed w v l (team_of l w @ [m]) m (guid w l) True"
proof -
  obtain L M where "gw_heap w l = Some L" "gw_heap w m = Some M"
    using assms by (auto simp: live_def)
  then show ?thesis
    by (cases "l = m") (auto simp: JoinTeam_def upd_player_def get_player_def changed_def send_def proj_defs fun_eq_iff)
qed

lemma BuildUpdateBlockTeam_ok:
  assumes "p \<in> live w" and "set (team_of p w) \<subseteq> live w"
  shows "\<exists>b. BuildUpdateBlockTeam p w = Inr b"
proof -
  obtain x where x: "gw_heap w p = Some x"
    using assms(1) by (auto simp: live_def)
  have "\<exists>ids. foldR (\<lambda>m acc. bindR (get_player m w) (\<lambda>M. Inr (acc @ [FU32 (gp_account M)]))) ms acc = Inr ids"
    if "set ms \<subseteq> live w" for ms acc
    using that by (induction ms arbitrary: acc) (auto simp: get_player_def live_def)
  from this [of "gp_team x" "[]"] show ?thesis
    using assms(2) x by (auto simp: BuildUpdateBlockTeam_def get_player_def team_of_def Let_def)
qed

lemma proj_send_block [simp]:
  "live (send_block p b w) = live w" "guid (send_block p b w) = guid w" "lead (send_block p b w) = lead w"
  "stuck (send_block p b w) = stuck w" "team_of q (send_block p b w) = team_of q w"
  "gw_find (send_block p b w) = gw_find w"
  by (auto simp: send_block_def split: option.splits prod.splits)

lemma LeaveTeam_changed:
  assumes "l \<in> live w" and "m \<in> live w" and "set (team_of l w) \<subseteq> live w" and "set (team_of m w) \<subseteq> live w"
  shows "\<exists>v. LeaveTeam l m w = Inr v \<and> changed w v l (filter (\<lambda>q. q \<noteq> m) (team_of l w)) m 0 False"
proof -
  obtain L M where LM: "gw_heap w l = Some L" "gw_heap w m = Some M"
    using assms by (auto simp: live_def)
  obtain w3 where w3: "bindR (upd_player m (\<lambda>x. x\<lparr>gp_dontMove := False\<rparr>) w) (\<lambda>w1.
     bindR (upd_player l (\<lambda>x. x\<lparr>gp_team := filter (\<lambda>q. q \<noteq> m) (gp_team x)\<rparr>) w1)
     (upd_player m (\<lambda>x. x\<lparr>gp_leader := 0\<rparr>))) = Inr w3"
    using LM by (cases "l = m") (auto simp: upd_player_def get_player_def)
  have ch: "changed w w3 l (filter (\<lambda>q. q \<noteq> m) (team_of l w)) m 0 False"
    using w3 LM
    by (cases "l = m") (auto simp: upd_player_def get_player_def changed_def proj_defs fun_eq_iff split: if_splits)
  then have alive: "l \<in> live w3" "m \<in> live w3" "set (team_of l w3) \<subseteq> live w3" "set (team_of m w3) \<subseteq> live w3"
    using assms by (auto simp: changed_def)
  obtain M' where M': "get_player m w3 = Inr M'"
    using alive(2) by (auto simp: get_player_def live_def)
  define w4 where "w4 = send l (ToSet True) 0x0D [FU8 4, FU32 (gp_account M')] w3"
  obtain b1 where b1: "BuildUpdateBlockTeam m w4 = Inr b1"
    using BuildUpdateBlockTeam_ok [of m w4] alive by (auto simp: w4_def)
  obtain b2 where b2: "BuildUpdateBlockTeam l (send_block l b1 w4) = Inr b2"
    using BuildUpdateBlockTeam_ok [of l "send_block l b1 w4"] alive by (auto simp: w4_def)
  have "LeaveTeam l m w = Inr (send_block l b2 (send_block l b1 w4))"
    using w3 M' b1 b2 by (auto simp: LeaveTeam_def bindR_eq_Inr w4_def Let_def)
  moreover have "changed w (send_block l b2 (send_block l b1 w4)) l (filter (\<lambda>q. q \<noteq> m) (team_of l w)) m 0 False"
    using ch by (simp add: changed_def w4_def)
  ultimately show ?thesis by blast
qed

lemma join_keeps:
  assumes ok: "teams_ok w" and c: "changed w v l (team_of l w @ [m]) m (guid w l) True"
    and l: "l \<in> live w" "lead w l = 0" "length (team_of l w) < 4" and m: "m \<in> live w" "lead w m = 0" "team_of m w = []"
  shows "teams_ok v"
proof -
  have new: "m \<notin> set (team_of p w)" if "p \<in> live w" for p
    using teams_ok_mem [OF ok that m(1)] m(2) teams_okD(1) [OF ok that] by simp
  show ?thesis
    using ok c l m new unfolding teams_ok_def changed_def
    by (intro conjI ballI) (auto dest: inj_onD)
qed

lemma leave_keeps:
  assumes ok: "teams_ok w" and c: "changed w v l (filter (\<lambda>q. q \<noteq> m) (team_of l w)) m 0 False"
    and l: "l \<in> live w" and m: "m \<in> live w" "lead w m = guid w l \<or> lead w m = 0"
  shows "teams_ok v"
proof -
  have mem: "m \<notin> set (team_of p w)" if "p \<in> live w" "p \<noteq> l" for p
  proof -
    have "guid w p \<noteq> guid w l" using teams_ok_inj [OF ok that(1) l] that(2) by blast
    then show ?thesis
      using teams_ok_mem [OF ok that(1) m(1)] m(2) teams_okD(1) [OF ok that(1)] by auto
  qed
  show ?thesis
    using ok c l m mem unfolding teams_ok_def changed_def
    by (intro conjI ballI) (auto intro: order_trans [OF length_filter_le])
qed

subsection \<open>Dismissing\<close>

lemma leave_ok:
  assumes ok: "teams_ok w" and l: "l \<in> live w" and m: "m \<in> live w" "lead w m = guid w l \<or> lead w m = 0"
  shows "\<exists>v. LeaveTeam l m w = Inr v \<and> teams_ok v \<and> changed w v l (filter (\<lambda>q. q \<noteq> m) (team_of l w)) m 0 False"
proof -
  obtain v where "LeaveTeam l m w = Inr v" "changed w v l (filter (\<lambda>q. q \<noteq> m) (team_of l w)) m 0 False"
    using LeaveTeam_changed [OF l m(1) teams_okD(4) [OF ok l] teams_okD(4) [OF ok m(1)]] by blast
  then show ?thesis
    using leave_keeps [OF ok _ l m] by blast
qed

text \<open>The loop ends, and with it the team: every member is free again and nobody else is touched.\<close>

lemma dismiss_loop_ok:
  assumes "teams_ok w" and "l \<in> live w"
  shows "\<exists>v. dismiss_loop l w = Inr v \<and> teams_ok v \<and> team_of l v = [] \<and> live v = live w \<and> guid v = guid w \<and>
    gw_find v = gw_find w \<and> (\<forall>p. p \<noteq> l \<longrightarrow> team_of p v = team_of p w) \<and>
    (\<forall>p. lead v p = (if p \<in> set (team_of l w) then 0 else lead w p))"
  using assms
proof (induction "length (team_of l w)" arbitrary: w rule: less_induct)
  case less
  show ?case
  proof (cases "team_of l w")
    case Nil
    then show ?thesis
      using less.prems by (simp add: dismiss_loop.simps [of l w])
  next
    case (Cons m ms)
    have m: "m \<in> live w" "lead w m = guid w l"
      using teams_okD(4) [OF less.prems] teams_ok_mem [OF less.prems, of m] Cons by auto
    obtain u where u: "LeaveTeam l m w = Inr u" "teams_ok u" "changed w u l (filter (\<lambda>q. q \<noteq> m) (team_of l w)) m 0 False"
      using leave_ok [OF less.prems m(1)] m(2) by blast
    have short: "length (team_of l u) < length (team_of l w)"
      using u(3) Cons by (simp add: changed_def le_imp_less_Suc)
    have "l \<in> live u" using u(3) less.prems(2) by (simp add: changed_def)
    then obtain v where v: "dismiss_loop l u = Inr v" "teams_ok v" "team_of l v = []" "live v = live u" "guid v = guid u"
      "gw_find v = gw_find u" "\<forall>p. p \<noteq> l \<longrightarrow> team_of p v = team_of p u"
      "\<forall>p. lead v p = (if p \<in> set (team_of l u) then 0 else lead u p)"
      using less.hyps [OF short u(2)] by blast
    have "dismiss_loop l w = dismiss_loop l u"
      using Cons u(1) m(1) by (auto simp: dismiss_loop.simps [of l w] get_player_def live_def)
    then show ?thesis
      using v u(3) Cons by (intro exI [of _ v]) (auto simp: changed_def)
  qed
qed

lemma DismissTeam_ok:
  assumes "teams_ok w" and "l \<in> live w"
  shows "\<exists>v. DismissTeam l w = Inr v \<and> teams_ok v \<and> live v = live w \<and> guid v = guid w \<and> gw_find v = gw_find w \<and> team_of l v = []"
proof -
  obtain L where L: "gw_heap w l = Some L" using assms(2) by (auto simp: live_def)
  show ?thesis
  proof (cases "gp_team L = []")
    case True
    then have "team_of l w = []" using L by (simp add: team_of_def)
    then show ?thesis
      using True L assms(1) by (auto simp: DismissTeam_def get_player_def isTeamLeader_def)
  next
    case False
    then show ?thesis
      using dismiss_loop_ok [OF assms] L by (auto simp: DismissTeam_def get_player_def isTeamLeader_def)
  qed
qed

subsection \<open>Packets\<close>

lemma find_ok_cong: "live v = live w \<Longrightarrow> guid v = guid w \<Longrightarrow> gw_find v = gw_find w \<Longrightarrow> find_ok v = find_ok w"
  by (simp add: find_ok_def)

lemma FindPlayer_live: "find_ok w \<Longrightarrow> FindPlayer g w = Some p \<Longrightarrow> p \<in> live w \<and> guid w p = g"
  by (simp add: FindPlayer_def find_ok_def)

lemma live_get: "p \<in> live w \<Longrightarrow> \<exists>x. gw_heap w p = Some x \<and> get_player p w = Inr x"
  by (auto simp: live_def get_player_def)

text \<open>A result that keeps the invariant, or the assertion of a read past the end of the packet.\<close>

definition fine :: "gworld \<Rightarrow> gworld res \<Rightarrow> bool" where
  "fine w r \<longleftrightarrow> r = Inl AssertFailed \<or> (\<exists>v. r = Inr v \<and> team_ok v \<and> live v = live w \<and> guid v = guid w)"

lemma fine_simps [simp]:
  "team_ok w \<Longrightarrow> fine w (Inr w)" "fine w (Inl AssertFailed)" "team_ok w \<Longrightarrow> fine w (Inr (send p a op fs w))"
  by (simp_all add: fine_def)

lemma fineI: "r = Inr v \<Longrightarrow> team_ok v \<Longrightarrow> live v = live w \<Longrightarrow> guid v = guid w \<Longrightarrow> fine w r"
  by (simp add: fine_def)

lemma read_cases:
  "(\<exists>v b'. read_u8 b = Inr (v, b')) \<or> read_u8 b = Inl AssertFailed"
  "(\<exists>v b'. read_u32 b = Inr (v, b')) \<or> read_u32 b = Inl AssertFailed"
  by (auto simp: read_u8_def read_u32_def op_read_def bb_read_def bb_read_at_def)

lemma fine_read:
  assumes "\<And>v b'. r = Inr (v, b') \<Longrightarrow> fine w (f v b')" and "(\<exists>v b'. r = Inr (v, b')) \<or> r = Inl AssertFailed"
  shows "fine w (bindR r (\<lambda>(v, b'). f v b'))"
  using assms by auto

text \<open>\<open>teams_ok\<close> does not look at the subleader or at the messages.\<close>

lemma subleader_keeps:
  assumes "team_ok w" and "gw_heap w l = Some L"
  shows "team_ok (w\<lparr>gw_heap := (gw_heap w)(l \<mapsto> L\<lparr>gp_subleader := g\<rparr>)\<rparr>)"
    "live (w\<lparr>gw_heap := (gw_heap w)(l \<mapsto> L\<lparr>gp_subleader := g\<rparr>)\<rparr>) = live w"
    "guid (w\<lparr>gw_heap := (gw_heap w)(l \<mapsto> L\<lparr>gp_subleader := g\<rparr>)\<rparr>) = guid w"
proof -
  let ?v = "w\<lparr>gw_heap := (gw_heap w)(l \<mapsto> L\<lparr>gp_subleader := g\<rparr>)\<rparr>"
  have eq: "live ?v = live w" "guid ?v = guid w" "lead ?v = lead w" "stuck ?v = stuck w" "(\<lambda>p. team_of p ?v) = (\<lambda>p. team_of p w)"
    "gw_find ?v = gw_find w"
    using assms(2) by (auto simp: proj_defs fun_eq_iff)
  then have t: "team_of p ?v = team_of p w" for p by (simp add: fun_eq_iff)
  show "team_ok ?v" "live ?v = live w" "guid ?v = guid w"
    using assms(1) unfolding team_ok_def teams_ok_def find_ok_def eq t by simp_all
qed

lemma UpdateTeamSub_fine:
  assumes "team_ok w" and "l \<in> live w"
  shows "fine w (UpdateTeamSub l w)"
proof -
  obtain L where L: "get_player l w = Inr L" using live_get [OF assms(2)] by blast
  show ?thesis
  proof (cases "FindPlayer (gp_subleader L) w")
    case (Some sub)
    then have "sub \<in> live w" using FindPlayer_live [of w] assms(1) by (auto simp: team_ok_def)
    then obtain S where "get_player sub w = Inr S" using live_get by blast
    then show ?thesis
      using L Some assms(1) by (simp add: UpdateTeamSub_def fine_def)
  qed (use L assms(1) in \<open>simp add: UpdateTeamSub_def\<close>)
qed

lemma SetSubleader_fine:
  assumes ok: "team_ok w" and l: "l \<in> live w"
  shows "fine w (SetSubleader guid_of l acc w)"
proof -
  obtain L where L: "gw_heap w l = Some L" "get_player l w = Inr L" using live_get [OF l] by blast
  show ?thesis
  proof (cases "FindPlayerByAccountId guid_of acc w")
    case (Some sub)
    then have "sub \<in> live w"
      using FindPlayer_live [of w] ok by (auto simp: team_ok_def FindPlayerByAccountId_def)
    then obtain S where S: "get_player sub w = Inr S" using live_get by blast
    let ?v = "w\<lparr>gw_heap := (gw_heap w)(l \<mapsto> L\<lparr>gp_subleader := gp_guid S\<rparr>)\<rparr>"
    have "fine ?v (UpdateTeamSub l ?v)"
      using subleader_keeps [OF ok L(1), of "gp_guid S"] l by (intro UpdateTeamSub_fine) simp_all
    then have "fine w (UpdateTeamSub l ?v)"
      using subleader_keeps [OF ok L(1), of "gp_guid S"] by (simp add: fine_def)
    then show ?thesis
      using L Some S ok by (simp add: SetSubleader_def upd_player_def)
  qed (use L ok in \<open>simp add: SetSubleader_def\<close>)
qed

lemma UnsetSubleader_fine:
  assumes ok: "team_ok w" and l: "l \<in> live w"
  shows "fine w (UnsetSubleader l acc w)"
proof -
  obtain L where L: "gw_heap w l = Some L" "get_player l w = Inr L" using live_get [OF l] by blast
  show ?thesis
  proof (cases "FindPlayer (gp_subleader L) w")
    case (Some sub)
    then have "sub \<in> live w"
      using FindPlayer_live [of w] ok by (auto simp: team_ok_def)
    then obtain S where S: "get_player sub w = Inr S" using live_get by blast
    define u where "u = send l (ToSet True) 0x0D [FU8 0x0C, FU32 (gp_account S)]
                         (send l (ToSet True) 0x0D [FU8 8, FU32 (gp_account S)] w)"
    have u: "team_ok u" "gw_heap u l = Some L" "live u = live w" "guid u = guid w"
      using ok L by (simp_all add: u_def)
    have "fine w (upd_player l (\<lambda>x. x\<lparr>gp_subleader := 0\<rparr>) u)"
      using subleader_keeps [OF u(1,2), of 0] u by (simp add: upd_player_def get_player_def fine_def)
    then show ?thesis
      using L Some S ok by (simp add: UnsetSubleader_def u_def)
  qed (use L ok in \<open>simp add: UnsetSubleader_def\<close>)
qed

lemma handle_request_fine:
  assumes ok: "team_ok w" and me: "me \<in> live w"
  shows "fine w (handle_request guid_of me b w)"
proof -
  obtain x where x: "get_player me w = Inr x" using live_get [OF me] by blast
  have "fine w (case FindPlayerByAccountId guid_of i w of None \<Rightarrow> Inr w
      | Some l \<Rightarrow> bindR (get_player l w) (\<lambda>L. if isJoinedTeam L then Inr w
               else Inr (send l ToSession 0x0D [FU8 1, FU32 (gp_account x)] w)))" for i
  proof (cases "FindPlayerByAccountId guid_of i w")
    case (Some l)
    then have "l \<in> live w"
      using FindPlayer_live [of w] ok by (auto simp: team_ok_def FindPlayerByAccountId_def)
    then show ?thesis using live_get [of l w] Some ok by auto
  qed (use ok in simp)
  then have "fine w (bindR (read_u32 b) (\<lambda>(leaderId, _). case FindPlayerByAccountId guid_of leaderId w of None \<Rightarrow> Inr w
      | Some l \<Rightarrow> bindR (get_player l w) (\<lambda>L. if isJoinedTeam L then Inr w
               else Inr (send l ToSession 0x0D [FU8 1, FU32 (gp_account x)] w))))"
    by (rule fine_read) (rule read_cases)
  then show ?thesis
    using x ok by (simp add: handle_request_def)
qed

lemma respond_fine:
  assumes ok: "team_ok w" and me: "me \<in> live w" "get_player me w = Inr x" "\<not> isJoinedTeam x"
  shows "fine w (case FindPlayerByAccountId guid_of i w of None \<Rightarrow> Inr w
         | Some m \<Rightarrow> bindR (get_player m w) (\<lambda>M.
               if isJoinedTeam M then Inr w else if isTeamLeader M then Inr w
               else if isBattleInProgress M \<or> gp_master M then Inr w
               else let w1 = send m ToSession 0x0D [FU8 3, FU8 response, FU32 (gp_account x)] w
                    in if response = 1 then if \<not> CanJoinTeam x then Inr w1 else JoinTeam me m w1 else Inr w1))"
proof (cases "FindPlayerByAccountId guid_of i w")
  case (Some m)
  then have m: "m \<in> live w"
    using FindPlayer_live [of w] ok by (auto simp: team_ok_def FindPlayerByAccountId_def)
  then obtain M where M: "get_player m w = Inr M" using live_get by blast
  let ?w = "send m ToSession 0x0D [FU8 3, FU8 response, FU32 (gp_account x)] w"
  have "fine w (JoinTeam me m ?w)" if c: "CanJoinTeam x" "\<not> isJoinedTeam M" "\<not> isTeamLeader M"
  proof -
    obtain v where v: "JoinTeam me m ?w = Inr v" "changed ?w v me (team_of me ?w @ [m]) m (guid ?w me) True"
      using JoinTeam_changed [of me ?w m] me m by auto
    have "lead ?w me = 0" "length (team_of me ?w) < 4" "lead ?w m = 0" "team_of m ?w = []"
      using c me(2,3) M by (auto simp: proj_defs get_player_def CanJoinTeam_def isJoinedTeam_def isTeamLeader_def split: option.splits if_splits)
    then have "teams_ok v"
      using join_keeps [OF _ v(2)] ok me(1) m by (simp add: team_ok_def)
    then show ?thesis
      using v ok find_ok_cong [of v w] by (intro fineI [OF v(1)]) (auto simp: changed_def team_ok_def)
  qed
  then show ?thesis
    using Some M ok by (auto simp: Let_def)
qed (use ok in simp)

lemma handle_response_fine:
  assumes ok: "team_ok w" and me: "me \<in> live w"
  shows "fine w (handle_response guid_of me b w)"
proof -
  obtain x where x: "get_player me w = Inr x" using live_get [OF me] by blast
  show ?thesis
  proof (cases "isJoinedTeam x \<or> isBattleInProgress x \<or> bb_size b < 5")
    case True
    then show ?thesis using x ok by (auto simp: handle_response_def)
  next
    case False
    note r = respond_fine [OF ok me x]
    show ?thesis
      unfolding handle_response_def x bindR_Inr
      using False by (auto intro!: fine_read r read_cases simp del: split_paired_Ex)
  qed
qed

text \<open>A packet that leaves a team names the leader of the sender.\<close>

definition honest :: "(u32 \<Rightarrow> u32) \<Rightarrow> pid \<Rightarrow> byte_buffer \<Rightarrow> gworld \<Rightarrow> bool" where
  "honest guid_of me b w \<longleftrightarrow>
     (\<forall>b1 b2 i l. read_u8 b = Inr (4, b1) \<and> read_u32 b1 = Inr (i, b2) \<and> FindPlayerByAccountId guid_of i w = Some l \<and>
        team_of me w = [] \<longrightarrow> lead w me = 0 \<or> lead w me = guid w l)"

lemma handle_leave_fine:
  assumes ok: "team_ok w" and me: "me \<in> live w"
    and h: "\<And>b2 i l. read_u32 b = Inr (i, b2) \<Longrightarrow> FindPlayerByAccountId guid_of i w = Some l \<Longrightarrow> team_of me w = [] \<Longrightarrow>
      lead w me = 0 \<or> lead w me = guid w l"
  shows "fine w (handle_leave guid_of me b w)"
proof -
  obtain x where x: "gw_heap w me = Some x" "get_player me w = Inr x" using live_get [OF me] by blast
  have t: "teams_ok w" using ok by (simp add: team_ok_def)
  have dismiss: "fine w (DismissTeam me w)"
  proof -
    obtain v where "DismissTeam me w = Inr v" "teams_ok v" "live v = live w" "guid v = guid w" "gw_find v = gw_find w"
      using DismissTeam_ok [OF t me] by blast
    then show ?thesis
      using ok find_ok_cong [of v w] by (intro fineI [where v = v]) (simp_all add: team_ok_def)
  qed
  have "fine w (LeaveTeam l me w)" if l: "l \<in> live w" "lead w me = 0 \<or> lead w me = guid w l" for l
  proof -
    obtain v where "LeaveTeam l me w = Inr v" "teams_ok v" "changed w v l (filter (\<lambda>q. q \<noteq> me) (team_of l w)) me 0 False"
      using leave_ok [OF t l(1) me] l(2) by blast
    then show ?thesis
      using ok find_ok_cong [of v w] by (intro fineI [where v = v]) (auto simp: changed_def team_ok_def)
  qed
  moreover have "l \<in> live w" if "FindPlayerByAccountId guid_of i w = Some l" for i l
    using that FindPlayer_live [of w] ok by (auto simp: team_ok_def FindPlayerByAccountId_def)
  moreover have "team_of me w = []" if "\<not> isTeamLeader x"
    using that x by (simp add: team_of_def isTeamLeader_def)
  ultimately have "fine w (if isTeamLeader x then DismissTeam me w
      else case FindPlayerByAccountId guid_of i w of None \<Rightarrow> Inr w | Some l \<Rightarrow> LeaveTeam l me w)"
    if "read_u32 b = Inr (i, b')" for i b'
    using dismiss h [OF that] ok by (auto split: option.splits)
  then have "fine w (bindR (read_u32 b) (\<lambda>(i, b'). if isTeamLeader x then DismissTeam me w
      else case FindPlayerByAccountId guid_of i w of None \<Rightarrow> Inr w | Some l \<Rightarrow> LeaveTeam l me w))"
    by (rule fine_read [OF _ read_cases(2)])
  then show ?thesis
    using x ok by (simp add: handle_leave_def)
qed

lemma HandleGroupOpcodes_fine:
  assumes ok: "team_ok w" and me: "me \<in> live w" and h: "honest guid_of me b w"
  shows "fine w (HandleGroupOpcodes guid_of me b w)"
proof -
  note sub = SetSubleader_fine [OF ok me] UnsetSubleader_fine [OF ok me]
  have acc: "fine w (if bb_size b1 < 5 then Inr w else bindR (read_u32 b1) (\<lambda>(acc, _). f acc))"
    if "\<And>acc. fine w (f acc)" for b1 f
    using that ok by (auto intro!: fine_read read_cases simp del: split_paired_Ex)
  have "fine w (handle_leave guid_of me b1 w)" if "read_u8 b = Inr (4, b1)" for b1
    using h that unfolding honest_def by (intro handle_leave_fine [OF ok me]) blast
  then have "fine w (bindR (read_u8 b) (\<lambda>(cmd, b1).
        if cmd = 1 then handle_request guid_of me b1 w
        else if cmd = 3 then handle_response guid_of me b1 w
        else if cmd = 4 then handle_leave guid_of me b1 w
        else if cmd = 5 then
          if bb_size b1 < 5 then Inr w else bindR (read_u32 b1) (\<lambda>(acc, _). SetSubleader guid_of me acc w)
        else if cmd = 6 then
          if bb_size b1 < 5 then Inr w else bindR (read_u32 b1) (\<lambda>(acc, _). UnsetSubleader me acc w)
        else if cmd = 7 then
          if bb_size b1 < 5 then Inr w else bindR (read_u32 b1) (\<lambda>(_, _). Inr w)
        else Inr w))"
    using acc [of "\<lambda>acc. SetSubleader guid_of me acc w"] acc [of "\<lambda>acc. UnsetSubleader me acc w"] acc [of "\<lambda>_. Inr w"]
      handle_request_fine [OF ok me] handle_response_fine [OF ok me] sub ok
    by (intro fine_read read_cases) auto
  then show ?thesis
    using ok by (simp add: HandleGroupOpcodes_def case_prod_unfold)
qed

subsection \<open>Logging out\<close>

lemma gone_keeps:
  assumes ok: "teams_ok w" and p: "p \<in> live w" "team_of p w = []" "lead w p = 0"
  shows "teams_ok (w\<lparr>gw_heap := (gw_heap w)(p := None)\<rparr>)"
proof -
  let ?v = "w\<lparr>gw_heap := (gw_heap w)(p := None)\<rparr>"
  have eq: "live ?v = live w - {p}" "guid ?v q = guid w q" "lead ?v q = lead w q" "stuck ?v q = stuck w q"
    "team_of q ?v = team_of q w" if "q \<noteq> p" for q
    using that by (auto simp: proj_defs)
  have lv: "live ?v = live w - {p}" by (auto simp: live_def)
  have no: "p \<notin> set (team_of q w)" if "q \<in> live w" for q
    using teams_ok_mem [OF ok that p(1)] p(3) teams_okD(1) [OF ok that] by simp
  have led: "lead w m \<noteq> guid w p" if "m \<in> live w" for m
    using teams_ok_mem [OF ok p(1) that] p(2) by simp
  have "inj_on (guid ?v) (live ?v)"
    using teams_ok_inj [OF ok] eq by (intro inj_onI) (simp add: lv)
  moreover have "\<forall>m \<in> live ?v. lead ?v m \<noteq> 0 \<longrightarrow> (\<exists>q \<in> live ?v. guid ?v q = lead ?v m)"
  proof (intro ballI impI)
    fix m
    assume m: "m \<in> live ?v" "lead ?v m \<noteq> 0"
    then have "m \<in> live w" "m \<noteq> p" by (auto simp: lv)
    then obtain q where "q \<in> live w" "guid w q = lead w m"
      using teams_ok_leader [OF ok, of m] m(2) eq(3) by auto
    moreover from this led [OF \<open>m \<in> live w\<close>] have "q \<noteq> p" by metis
    ultimately show "\<exists>q \<in> live ?v. guid ?v q = lead ?v m"
      using eq [of q] eq(3) [OF \<open>m \<noteq> p\<close>] by (intro bexI [of _ q]) (simp_all add: lv)
  qed
  moreover have "\<forall>q \<in> live ?v. distinct (team_of q ?v) \<and> length (team_of q ?v) \<le> 4 \<and> set (team_of q ?v) \<subseteq> live ?v"
  proof
    fix q
    assume "q \<in> live ?v"
    then have "q \<in> live w" "q \<noteq> p" by (auto simp: lv)
    then show "distinct (team_of q ?v) \<and> length (team_of q ?v) \<le> 4 \<and> set (team_of q ?v) \<subseteq> live ?v"
      using teams_okD(2-4) [OF ok, of q] no [of q] eq(5) [of q] by (auto simp: lv)
  qed
  ultimately show ?thesis
    unfolding teams_ok_def using eq teams_ok_mem [OF ok] teams_okD [OF ok] by (simp add: lv)
qed

lemma DestroyPlayer_ok:
  assumes ok: "team_ok w" and p: "p \<in> live w"
  shows "\<exists>v. DestroyPlayer p w = Inr v \<and> team_ok v \<and> live v = live w - {p}"
proof -
  obtain x where x: "gw_heap w p = Some x" "get_player p w = Inr x" using live_get [OF p] by blast
  define w1 where "w1 = w\<lparr>gw_find := (gw_find w)(gp_guid x := None)\<rparr>"
  have same: "live w1 = live w" "guid w1 = guid w" "lead w1 = lead w" "stuck w1 = stuck w" "team_of q w1 = team_of q w" for q
    by (auto simp: w1_def proj_defs fun_eq_iff)
  have t: "teams_ok w" and f: "find_ok w" using ok by (simp_all add: team_ok_def)
  then have t1: "teams_ok w1" by (simp add: teams_ok_def same)
  have gx: "guid w p = gp_guid x" "lead w p = gp_leader x" using x by (simp_all add: proj_defs)
  have "\<exists>w2. (if gp_leader x \<noteq> 0
       then case FindPlayer (gp_leader x) w1 of None \<Rightarrow> Inr w1 | Some l \<Rightarrow> LeaveTeam l p w1 else Inr w1) = Inr w2 \<and>
     teams_ok w2 \<and> live w2 = live w \<and> guid w2 = guid w \<and> gw_find w2 = gw_find w1 \<and> (lead w2 p = 0 \<or> lead w2 p = guid w p)"
  proof (cases "gp_leader x = 0 \<or> gp_leader x = gp_guid x")
    case True
    then show ?thesis
      using t1 same gx by (auto simp: w1_def FindPlayer_def)
  next
    case False
    then obtain l where l: "l \<in> live w" "guid w l = gp_leader x"
      using teams_ok_leader [OF t p] gx by auto
    then have "FindPlayer (gp_leader x) w1 = Some l"
      using f False by (auto simp: FindPlayer_def w1_def find_ok_def)
    moreover obtain w2 where "LeaveTeam l p w1 = Inr w2" "teams_ok w2"
      "changed w1 w2 l (filter (\<lambda>q. q \<noteq> p) (team_of l w1)) p 0 False"
      using leave_ok [OF t1, of l p] l p gx same by auto
    ultimately show ?thesis
      using False same by (auto simp: changed_def)
  qed
  then obtain w2 where w2: "(if gp_leader x \<noteq> 0
       then case FindPlayer (gp_leader x) w1 of None \<Rightarrow> Inr w1 | Some l \<Rightarrow> LeaveTeam l p w1 else Inr w1) = Inr w2"
    "teams_ok w2" "live w2 = live w" "guid w2 = guid w" "gw_find w2 = gw_find w1" "lead w2 p = 0 \<or> lead w2 p = guid w p"
    by blast
  obtain w3 where w3: "dismiss_loop p w2 = Inr w3" "teams_ok w3" "team_of p w3 = []" "live w3 = live w2" "guid w3 = guid w2"
    "gw_find w3 = gw_find w2" "\<forall>q. lead w3 q = (if q \<in> set (team_of p w2) then 0 else lead w2 q)"
    using dismiss_loop_ok [OF w2(2), of p] p w2(3) by auto
  have p2: "p \<in> live w2" "p \<in> live w3" using p w2(3) w3(4) by simp_all
  have "lead w3 p = 0"
    using w3(7) w2(4,6) teams_ok_mem [OF w2(2) p2(1) p2(1)] by auto
  then have t3: "teams_ok (w3\<lparr>gw_heap := (gw_heap w3)(p := None)\<rparr>)"
    by (rule gone_keeps [OF w3(2) p2(2) w3(3)])
  let ?v = "w3\<lparr>gw_heap := (gw_heap w3)(p := None)\<rparr>"
  have lv: "live ?v = live w - {p}" "q \<noteq> p \<Longrightarrow> guid ?v q = guid w q" for q
    using w2(3,4) w3(4,5) by (auto simp: proj_defs fun_eq_iff)
  have fd: "gw_find ?v = (gw_find w)(guid w p := None)"
    using w3(6) w2(5) gx by (simp add: w1_def)
  have "gw_find ?v g = Some q \<longleftrightarrow> q \<in> live ?v \<and> guid ?v q = g" for g q
  proof (cases "q = p")
    case True
    then show ?thesis using f lv(1) unfolding fd find_ok_def by auto
  next
    case False
    then have "guid w q \<noteq> guid w p" if "q \<in> live w"
      using teams_ok_inj [OF t that p] by blast
    then show ?thesis
      using f False lv(2) [OF False] unfolding lv(1) fd find_ok_def by auto
  qed
  then have "find_ok ?v" by (simp add: find_ok_def)
  moreover have "DestroyPlayer p w = Inr ?v"
    unfolding DestroyPlayer_def x bindR_Inr Let_def w1_def [symmetric] using w2(1) w3(1) by simp
  ultimately show ?thesis
    using t3 lv(1) by (auto simp: team_ok_def)
qed

subsection \<open>Sessions\<close>

definition empty_world :: gworld where
  "empty_world = \<lparr>gw_heap = (\<lambda>_. None), gw_find = (\<lambda>_. None), gw_sent = []\<rparr>"

definition Login :: "pid \<Rightarrow> gplayer \<Rightarrow> gworld \<Rightarrow> gworld" where
  "Login p x w = w\<lparr>gw_heap := (gw_heap w)(p \<mapsto> x), gw_find := (gw_find w)(gp_guid x \<mapsto> p)\<rparr>"

text \<open>A player comes into the world, sends a packet, or leaves.\<close>

inductive team_step :: "(u32 \<Rightarrow> u32) \<Rightarrow> gworld \<Rightarrow> gworld \<Rightarrow> bool" for guid_of where
  login: "p \<notin> live w \<Longrightarrow> gp_guid x \<noteq> 0 \<Longrightarrow> gw_find w (gp_guid x) = None \<Longrightarrow> gp_leader x = 0 \<Longrightarrow> gp_team x = [] \<Longrightarrow>
     team_step guid_of w (Login p x w)"
| packet: "me \<in> live w \<Longrightarrow> honest guid_of me b w \<Longrightarrow> HandleGroupOpcodes guid_of me b w = Inr v \<Longrightarrow> team_step guid_of w v"
| logout: "p \<in> live w \<Longrightarrow> DestroyPlayer p w = Inr v \<Longrightarrow> team_step guid_of w v"

inductive_cases team_stepE [elim]: "team_step guid_of w v"

lemma Login_keeps:
  assumes ok: "team_ok w" and p: "p \<notin> live w" and x: "gp_guid x \<noteq> 0" "gw_find w (gp_guid x) = None" "gp_leader x = 0" "gp_team x = []"
  shows "team_ok (Login p x w)"
proof -
  let ?v = "Login p x w"
  have t: "teams_ok w" and f: "find_ok w" using ok by (simp_all add: team_ok_def)
  have lv: "live ?v = insert p (live w)" by (auto simp: Login_def live_def)
  have new: "guid ?v p = gp_guid x" "lead ?v p = 0" "team_of p ?v = []"
    using x by (simp_all add: Login_def proj_defs)
  have old: "guid ?v q = guid w q" "lead ?v q = lead w q" "stuck ?v q = stuck w q" "team_of q ?v = team_of q w" if "q \<in> live w" for q
    using that p by (auto simp: Login_def proj_defs)
  have other: "guid w q \<noteq> gp_guid x" if "q \<in> live w" for q
    using f that x(2) unfolding find_ok_def by (metis option.distinct(1))
  have out: "p \<notin> set (team_of q w)" if "q \<in> live w" for q
    using teams_okD(4) [OF t that] p by blast
  have led: "lead w m \<noteq> gp_guid x" if "m \<in> live w" for m
    using teams_ok_leader [OF t that] other x(1) by metis
  have "inj_on (guid ?v) (live ?v)"
  proof (rule inj_onI)
    fix a b
    assume "a \<in> live ?v" "b \<in> live ?v" "guid ?v a = guid ?v b"
    then show "a = b"
      unfolding lv using new(1) old(1) other teams_ok_inj [OF t, of a b] by (metis insert_iff)
  qed
  moreover have "\<forall>m \<in> live ?v. lead ?v m \<noteq> 0 \<longrightarrow> (\<exists>q \<in> live ?v. guid ?v q = lead ?v m)"
    using teams_ok_leader [OF t] new(2) old(1,2) unfolding lv by fastforce
  moreover have "\<forall>q \<in> live ?v. distinct (team_of q ?v) \<and> length (team_of q ?v) \<le> 4 \<and> set (team_of q ?v) \<subseteq> live ?v"
    using teams_okD(2-4) [OF t] new(3) old(4) unfolding lv by auto
  moreover have "\<forall>q \<in> live ?v. \<forall>m \<in> live ?v. m \<in> set (team_of q ?v) \<longleftrightarrow> lead ?v m = guid ?v q"
  proof (intro ballI)
    fix q m
    assume "q \<in> live ?v" "m \<in> live ?v"
    then show "m \<in> set (team_of q ?v) \<longleftrightarrow> lead ?v m = guid ?v q"
      unfolding lv using new old [of q] old [of m] out [of q] led [of m] x(1) teams_ok_mem [OF t, of q m] teams_okD(1) [OF t, of q] by auto
  qed
  moreover have "\<forall>q \<in> live ?v. guid ?v q \<noteq> 0 \<and> (team_of q ?v \<noteq> [] \<longrightarrow> lead ?v q = 0 \<or> lead ?v q = guid ?v q) \<and>
      (lead ?v q \<noteq> 0 \<longrightarrow> stuck ?v q)"
    using teams_okD [OF t] new old x(1) unfolding lv by auto
  ultimately have "teams_ok ?v"
    unfolding teams_ok_def by blast
  moreover have "gw_find ?v g = Some q \<longleftrightarrow> q \<in> live ?v \<and> guid ?v q = g" for g q
    using f new(1) old(1) other p x(2) unfolding lv find_ok_def by (auto simp: Login_def)
  then have "find_ok ?v" by (simp add: find_ok_def)
  ultimately show ?thesis by (simp add: team_ok_def)
qed

lemma team_step_keeps: "team_step guid_of w v \<Longrightarrow> team_ok w \<Longrightarrow> team_ok v"
proof (induction rule: team_step.induct)
  case (login p w x)
  then show ?case by (intro Login_keeps)
next
  case (packet me w b v)
  then show ?case using HandleGroupOpcodes_fine [of w me guid_of b] by (auto simp: fine_def)
next
  case (logout p w v)
  then show ?case using DestroyPlayer_ok [of w p] by auto
qed

lemma team_ok_empty: "team_ok empty_world"
  by (simp add: team_ok_def teams_ok_def find_ok_def live_def empty_world_def)

lemma team_reachable_ok: "(team_step guid_of)\<^sup>*\<^sup>* empty_world w \<Longrightarrow> team_ok w"
  by (induction rule: rtranclp_induct) (auto intro: team_ok_empty team_step_keeps)

text \<open>C4: in every world that logins, logouts and group packets lead to, when nobody leaves a team it does not
  belong to, the members of a team are exactly the players that name its leader, no player is in two
  teams, no team has more than four members, no leader is in another team and no member can move on its
  own; no logout faults, and a packet can only fail at a read past its end.\<close>

theorem team_session_ok:
  assumes "(team_step guid_of)\<^sup>*\<^sup>* empty_world w"
  shows "team_ok w \<and>
    (\<forall>me b. me \<in> live w \<and> honest guid_of me b w \<longrightarrow>
       HandleGroupOpcodes guid_of me b w = Inl AssertFailed \<or> (\<exists>v. HandleGroupOpcodes guid_of me b w = Inr v \<and> team_ok v)) \<and>
    (\<forall>p \<in> live w. \<exists>v. DestroyPlayer p w = Inr v \<and> team_ok v \<and> live v = live w - {p})"
proof (intro conjI allI impI ballI)
  show ok: "team_ok w" by (rule team_reachable_ok [OF assms])
  show "HandleGroupOpcodes guid_of me b w = Inl AssertFailed \<or> (\<exists>v. HandleGroupOpcodes guid_of me b w = Inr v \<and> team_ok v)"
    if "me \<in> live w \<and> honest guid_of me b w" for me b
    using HandleGroupOpcodes_fine [OF ok, of me guid_of b] that by (auto simp: fine_def)
  show "\<exists>v. DestroyPlayer p w = Inr v \<and> team_ok v \<and> live v = live w - {p}" if "p \<in> live w" for p
    by (rule DestroyPlayer_ok [OF ok that])
qed

text \<open>Two players come in; the second one is accepted into a team by the first.\<close>

definition team_player :: "u32 \<Rightarrow> gplayer" where
  "team_player g = \<lparr>gp_guid = g, gp_account = g, gp_leader = 0, gp_subleader = 0, gp_team = [], gp_dontMove = False,
     gp_battle = False, gp_master = False, gp_pets = replicate 10 None\<rparr>"

definition sample_team_world :: gworld where
  "sample_team_world = Login 2 (team_player 3) (Login 1 (team_player 2) (Login 0 (team_player 1) empty_world))"

definition packet_of :: "field list \<Rightarrow> byte_buffer" where
  "packet_of fs = \<lparr>bb_rpos = 0, bb_wpos = 0, bb_storage = concat (map field_bytes fs)\<rparr>"

definition accepted_world :: gworld where
  "accepted_world =
     (case HandleGroupOpcodes id 0 (packet_of [FU8 3, FU8 1, FU32 2]) sample_team_world of
        Inl _ \<Rightarrow> empty_world | Inr w \<Rightarrow> w)"

lemma accepted_world_eq:
  "HandleGroupOpcodes id 0 (packet_of [FU8 3, FU8 1, FU32 2]) sample_team_world = Inr accepted_world"
  "team_of 0 accepted_world = [1]" "team_of 1 accepted_world = []" "team_of 2 accepted_world = []"
  "lead accepted_world 1 = 1" "gw_find accepted_world 3 = Some 2"
  "gw_heap accepted_world 0 \<noteq> None \<and> gw_heap accepted_world 1 \<noteq> None \<and> gw_heap accepted_world 2 \<noteq> None"
proof -
  have "case HandleGroupOpcodes id 0 (packet_of [FU8 3, FU8 1, FU32 2]) sample_team_world of
      Inl _ \<Rightarrow> False | Inr w \<Rightarrow> True"
    by code_simp
  then show "HandleGroupOpcodes id 0 (packet_of [FU8 3, FU8 1, FU32 2]) sample_team_world = Inr accepted_world"
    by (simp add: accepted_world_def split: sum.splits)
  show "team_of 0 accepted_world = [1]" "team_of 1 accepted_world = []" "team_of 2 accepted_world = []"
    "lead accepted_world 1 = 1" "gw_find accepted_world 3 = Some 2"
    "gw_heap accepted_world 0 \<noteq> None \<and> gw_heap accepted_world 1 \<noteq> None \<and> gw_heap accepted_world 2 \<noteq> None"
    by code_simp+
qed

lemma sample_live: "live sample_team_world = {0, 1, 2}"
  by (auto simp: sample_team_world_def Login_def empty_world_def live_def)

lemma sample_reachable: "(team_step id)\<^sup>*\<^sup>* empty_world sample_team_world"
proof -
  let ?w1 = "Login 0 (team_player 1) empty_world"
  let ?w2 = "Login 1 (team_player 2) ?w1"
  have "team_step id empty_world ?w1"
    by (rule team_step.login) (simp_all add: live_def empty_world_def team_player_def)
  moreover have "team_step id ?w1 ?w2"
    by (rule team_step.login) (simp_all add: live_def empty_world_def Login_def team_player_def)
  moreover have "team_step id ?w2 sample_team_world"
    unfolding sample_team_world_def
    by (rule team_step.login) (simp_all add: live_def empty_world_def Login_def team_player_def)
  ultimately show ?thesis
    by (meson r_into_rtranclp rtranclp_trans)
qed

lemma sample_honest: "honest id 0 (packet_of [FU8 3, FU8 1, FU32 2]) sample_team_world"
proof -
  have "case read_u8 (packet_of [FU8 3, FU8 1, FU32 2]) of Inr (c, _) \<Rightarrow> c \<noteq> 4 | Inl _ \<Rightarrow> True"
    by code_simp
  then show ?thesis by (auto simp: honest_def)
qed

lemma accepted_reachable: "(team_step id)\<^sup>*\<^sup>* empty_world accepted_world"
proof -
  have "team_step id sample_team_world accepted_world"
    by (rule team_step.packet [OF _ sample_honest accepted_world_eq(1)]) (simp add: sample_live)
  then show ?thesis using sample_reachable by (rule rtranclp.rtrancl_into_rtrancl [rotated])
qed

theorem team_session_ok_witness:
  "team_ok accepted_world \<and> team_of 0 accepted_world = [1] \<and> (\<exists>v. DestroyPlayer 1 accepted_world = Inr v \<and> team_ok v)"
proof -
  have "1 \<in> live accepted_world"
    using accepted_world_eq(7) by (simp add: live_def)
  then show ?thesis
    using team_session_ok [OF accepted_reachable] accepted_world_eq(2) by blast
qed

subsection \<open>Leaving a team one is not in\<close>

lemma Build_dangling:
  assumes "gw_heap w l = Some L" and "m \<in> set (gp_team L)" and "m \<notin> live w"
  shows "BuildUpdateBlockTeam l w = Inl UseAfterFree"
proof -
  have "foldR (\<lambda>m acc. bindR (get_player m w) (\<lambda>M. Inr (acc @ [FU32 (gp_account M)]))) ms acc = Inl UseAfterFree"
    if "m \<in> set ms" for ms acc
    using that
  proof (induction ms arbitrary: acc)
    case (Cons k ms)
    then show ?case
      using assms(3) by (cases "gw_heap w k") (auto simp: get_player_def live_def)
  qed simp
  moreover have "isTeamLeader L" using assms(2) by (auto simp: isTeamLeader_def)
  ultimately show ?thesis
    using assms(1,2) by (simp add: BuildUpdateBlockTeam_def get_player_def)
qed

lemma Build_faults: "BuildUpdateBlockTeam p w = Inl e \<Longrightarrow> e = UseAfterFree"
proof -
  have "foldR (\<lambda>m acc. bindR (get_player m w) (\<lambda>M. Inr (acc @ [FU32 (gp_account M)]))) ms acc = Inl e \<Longrightarrow> e = UseAfterFree" for ms acc
    by (induction ms arbitrary: acc) (auto simp: get_player_def split: option.splits)
  then show "BuildUpdateBlockTeam p w = Inl e \<Longrightarrow> e = UseAfterFree"
    by (cases "gw_heap w p") (auto simp: BuildUpdateBlockTeam_def get_player_def bindR_def Let_def split: if_splits sum.splits)
qed

text \<open>With a deleted player on its list, a leader can let nobody leave.\<close>

lemma LeaveTeam_dangling:
  assumes "q \<in> set (team_of l w)" and "q \<notin> live w" and "m \<noteq> q"
  shows "LeaveTeam l m w = Inl UseAfterFree"
proof (cases "gw_heap w m")
  case None
  then show ?thesis by (simp add: LeaveTeam_def upd_player_def get_player_def)
next
  case (Some M)
  obtain L where L: "gw_heap w l = Some L" "q \<in> set (gp_team L)"
    using assms(1) by (cases "gw_heap w l") (auto simp: team_of_def)
  obtain w3 where w3: "bindR (upd_player m (\<lambda>x. x\<lparr>gp_dontMove := False\<rparr>) w) (\<lambda>w1.
     bindR (upd_player l (\<lambda>x. x\<lparr>gp_team := filter (\<lambda>q. q \<noteq> m) (gp_team x)\<rparr>) w1)
     (upd_player m (\<lambda>x. x\<lparr>gp_leader := 0\<rparr>))) = Inr w3"
    using L Some by (cases "l = m") (auto simp: upd_player_def get_player_def)
  have "\<exists>L'. gw_heap w3 l = Some L' \<and> gp_team L' = filter (\<lambda>q. q \<noteq> m) (gp_team L)"
    using w3 L Some by (cases "l = m") (auto simp: upd_player_def get_player_def)
  moreover have "\<exists>M'. gw_heap w3 m = Some M'"
    using w3 L Some by (cases "l = m") (auto simp: upd_player_def get_player_def)
  ultimately obtain L' M' where L': "gw_heap w3 l = Some L'" "gp_team L' = filter (\<lambda>q. q \<noteq> m) (gp_team L)" "gw_heap w3 m = Some M'"
    by blast
  have "live w3 = live w"
    using w3 L Some by (cases "l = m") (auto simp: upd_player_def get_player_def live_def split: if_split_asm)
  let ?w4 = "send l (ToSet True) 0x0D [FU8 4, FU32 (gp_account M')] w3"
  have run: "LeaveTeam l m w = bindR (BuildUpdateBlockTeam m ?w4) (\<lambda>b1.
      bindR (BuildUpdateBlockTeam l (send_block l b1 ?w4)) (\<lambda>b2. Inr (send_block l b2 (send_block l b1 ?w4))))"
    using w3 L'(3) by (auto simp: LeaveTeam_def bindR_eq_Inr get_player_def Let_def)
  have "gw_heap (send_block l b1 ?w4) = gw_heap w3" for b1
    by (simp add: send_block_def send_def split: option.split)
  then have "BuildUpdateBlockTeam l (send_block l b1 ?w4) = BuildUpdateBlockTeam l w3" for b1
    by (rule BuildUpdateBlockTeam_cong)
  moreover have "BuildUpdateBlockTeam l w3 = Inl UseAfterFree"
    using L' L(2) assms(2,3) \<open>live w3 = live w\<close> by (intro Build_dangling [of w3 l L' q]) auto
  ultimately show ?thesis
    unfolding run using Build_faults [of m ?w4] by (cases "BuildUpdateBlockTeam m ?w4") auto
qed

lemma DismissTeam_dangling:
  assumes "q \<in> set (team_of l w)" and "q \<notin> live w"
  shows "DismissTeam l w = Inl UseAfterFree"
proof -
  obtain L where L: "gw_heap w l = Some L" "q \<in> set (gp_team L)"
    using assms(1) by (cases "gw_heap w l") (auto simp: team_of_def)
  obtain m ms where ms: "team_of l w = m # ms" using assms(1) by (cases "team_of l w") auto
  have "dismiss_loop l w = Inl UseAfterFree"
  proof (cases "m = q")
    case True
    then show ?thesis using ms assms(2) by (simp add: dismiss_loop.simps [of l w] get_player_def live_def split: option.split)
  next
    case False
    then show ?thesis using ms LeaveTeam_dangling [OF assms False]
      by (cases "gw_heap w m") (simp_all add: dismiss_loop.simps [of l w] get_player_def)
  qed
  then show ?thesis using L by (auto simp: DismissTeam_def get_player_def isTeamLeader_def)
qed

text \<open>C26: a member that asks to leave the team of another player stays on the list of its leader but names
  no leader any more; when it then logs out, the list keeps a pointer to the deleted player: the
  next team block of the leader reads it, and so does the leader when it dismisses its team.\<close>

theorem foreign_leave_dangles:
  assumes ok: "team_ok w" and l: "l \<in> live w" and me: "me \<in> set (team_of l w)" "me \<noteq> l" "team_of me w = []"
    and other: "FindPlayerByAccountId guid_of acc w = Some k" "k \<noteq> l"
    and b: "read_u8 b = Inr (4, b1)" "5 \<le> bb_size b" "5 \<le> bb_size b1" "read_u32 b1 = Inr (acc, b2)"
  shows "\<exists>v u. HandleGroupOpcodes guid_of me b w = Inr v \<and> lead v me = 0 \<and> me \<in> set (team_of l v) \<and>
    DestroyPlayer me v = Inr u \<and> me \<notin> live u \<and> me \<in> set (team_of l u) \<and> BuildUpdateBlockTeam l u = Inl UseAfterFree \<and>
    DismissTeam l u = Inl UseAfterFree"
proof -
  have t: "teams_ok w" using ok by (simp add: team_ok_def)
  have live_me: "me \<in> live w" using teams_okD(4) [OF t l] me(1) by blast
  have k: "k \<in> live w"
    using other(1) FindPlayer_live [of w] ok by (auto simp: team_ok_def FindPlayerByAccountId_def)
  obtain x where x: "gw_heap w me = Some x" "get_player me w = Inr x" using live_get [OF live_me] by blast
  obtain v where v: "LeaveTeam k me w = Inr v" "changed w v k (filter (\<lambda>q. q \<noteq> me) (team_of k w)) me 0 False"
    using LeaveTeam_changed [OF k live_me teams_okD(4) [OF t k]] me(3) by auto
  have run: "HandleGroupOpcodes guid_of me b w = Inr v"
    using b x v(1) other(1) me(3) by (simp add: HandleGroupOpcodes_def handle_leave_def isTeamLeader_def team_of_def)
  have lv: "live v = live w" "lead v me = 0" "team_of l v = team_of l w" "team_of me v = []"
    using v(2) other(2) me(3) by (auto simp: changed_def)
  obtain y where y: "gw_heap v me = Some y" "get_player me v = Inr y" using live_get [of me v] live_me lv(1) by auto
  then have "gp_leader y = 0" using lv(2) by (simp add: lead_def)
  define u where "u = v\<lparr>gw_find := (gw_find v)(gp_guid y := None), gw_heap := (gw_heap v)(me := None)\<rparr>"
  have "team_of me (v\<lparr>gw_find := (gw_find v)(gp_guid y := None)\<rparr>) = []"
    using lv(4) by (simp add: team_of_def)
  then have "DestroyPlayer me v = Inr u"
    using y \<open>gp_leader y = 0\<close> by (simp add: DestroyPlayer_def dismiss_loop.simps Let_def u_def)
  moreover have gone: "me \<notin> live u" by (simp add: u_def live_def)
  moreover have stays: "me \<in> set (team_of l u)"
    using me(1,2) lv(3) by (simp add: u_def team_of_def)
  moreover have "BuildUpdateBlockTeam l u = Inl UseAfterFree"
    using stays gone Build_dangling [of u l _ me] by (cases "gw_heap u l") (auto simp: team_of_def)
  ultimately show ?thesis
    using run lv me(1) DismissTeam_dangling [OF stays gone] by auto
qed

theorem foreign_leave_dangles_witness:
  "\<exists>v u. HandleGroupOpcodes id 1 (packet_of [FU8 4, FU32 3]) accepted_world = Inr v \<and> DestroyPlayer 1 v = Inr u \<and>
    BuildUpdateBlockTeam 0 u = Inl UseAfterFree \<and> DismissTeam 0 u = Inl UseAfterFree"
proof -
  have ok: "team_ok accepted_world" by (rule team_reachable_ok [OF accepted_reachable])
  have l: "0 \<in> live accepted_world" using accepted_world_eq(7) by (simp add: live_def)
  have find: "FindPlayerByAccountId id 3 accepted_world = Some 2"
    using accepted_world_eq(6) by (simp add: FindPlayerByAccountId_def FindPlayer_def)
  let ?b = "packet_of [FU8 4, FU32 3]"
  have b: "read_u8 ?b = Inr (4, ?b\<lparr>bb_rpos := 1\<rparr>)" "5 \<le> bb_size ?b" "5 \<le> bb_size (?b\<lparr>bb_rpos := 1\<rparr>)"
    "read_u32 (?b\<lparr>bb_rpos := 1\<rparr>) = Inr (3, ?b\<lparr>bb_rpos := 5\<rparr>)"
    by code_simp+
  show ?thesis
    using foreign_leave_dangles [OF ok l _ _ accepted_world_eq(3) find _ b] accepted_world_eq(2) by auto
qed

end
