(* ===== verification/Items.thy ===== *)
theory Items
  imports Legacy_Prelude
begin

text \<open>
  Items and how they are saved (\<open>src/game/Item.cpp\<close>, \<open>Player::_SaveInventory\<close>): the update state
  of an item, the update queue of its owner with the position every item keeps of itself in it, and
  the two tables \<open>character_inventory\<close> and \<open>item_instance\<close>. Items are named by numbers in a heap
  (\<open>inv_heap\<close>, none once deleted), so a pointer that outlives its item is a fault. The statements sent
  to the database are the updates of the two tables they describe. The value fields of an item that
  the code uses are fields of the record; the player is the one every caller passes.
\<close>

datatype item_update_state = ITEM_UNCHANGED | ITEM_CHANGED | ITEM_NEW | ITEM_REMOVED

record item =
  it_guid :: u32
  it_entry :: u32
  it_owner :: u64
  it_contained :: u64
  it_count :: u32
  it_slot :: u8
  it_container :: "u32 option"
  it_inWorld :: bool
  it_state :: item_update_state
  it_qpos :: int

type_synonym iid = nat

text \<open>A row of \<open>character_inventory\<close> and one of \<open>item_instance\<close> (owner and value fields).\<close>

type_synonym inv_row = "u32 \<times> u32 \<times> u8 \<times> u32"
type_synonym instance_row = "u32 \<times> u32 \<times> u64 \<times> u64 \<times> u32"

record player_inv =
  inv_guid :: u64
  inv_inWorld :: bool
  inv_slots :: "iid option list"
  inv_heap :: "iid \<Rightarrow> item option"
  inv_next :: iid
  inv_hiGuid :: u32
  inv_queue :: "iid option list"
  inv_blocked :: bool
  inv_rows :: "u32 \<Rightarrow> inv_row option"
  inv_instances :: "u32 \<Rightarrow> instance_row option"

definition GUID_LOPART :: "u64 \<Rightarrow> u32" where "GUID_LOPART g = ucast g"

definition get_item :: "iid \<Rightarrow> player_inv \<Rightarrow> item res" where
  "get_item i s = (case inv_heap s i of None \<Rightarrow> Inl UseAfterFree | Some it \<Rightarrow> Inr it)"

definition put_item :: "iid \<Rightarrow> item \<Rightarrow> player_inv \<Rightarrow> player_inv" where
  "put_item i it s = s\<lparr>inv_heap := (inv_heap s)(i \<mapsto> it)\<rparr>"

definition upd_item :: "iid \<Rightarrow> (item \<Rightarrow> item) \<Rightarrow> player_inv \<Rightarrow> player_inv res" where
  "upd_item i f s = bindR (get_item i s) (\<lambda>it. Inr (put_item i (f it) s))"

subsection \<open>The update queue\<close>

text \<open>\<open>uQueuePos\<close> is an \<open>int16\<close>.\<close>

definition to_int16 :: "nat \<Rightarrow> int" where
  "to_int16 n = sint (of_nat n :: 16 word)"

definition AddToUpdateQueueOf :: "iid \<Rightarrow> player_inv \<Rightarrow> player_inv res" where
  "AddToUpdateQueueOf i s =
     bindR (get_item i s) (\<lambda>it.
       if it_qpos it \<noteq> - 1 then Inr s
       else if inv_guid s \<noteq> it_owner it then Inr s
       else if inv_blocked s then Inr s
       else let q = inv_queue s @ [Some i]
            in Inr (put_item i (it\<lparr>it_qpos := to_int16 (length q - 1)\<rparr>) (s\<lparr>inv_queue := q\<rparr>)))"

definition RemoveFromUpdateQueueOf :: "iid \<Rightarrow> player_inv \<Rightarrow> player_inv res" where
  "RemoveFromUpdateQueueOf i s =
     bindR (get_item i s) (\<lambda>it.
       if it_qpos it = - 1 then Inr s
       else if inv_guid s \<noteq> it_owner it then Inr s
       else if inv_blocked s then Inr s
       else if 0 \<le> it_qpos it \<and> nat (it_qpos it) < length (inv_queue s)
       then Inr (put_item i (it\<lparr>it_qpos := - 1\<rparr>)
              (s\<lparr>inv_queue := (inv_queue s)[nat (it_qpos it) := None]\<rparr>))
       else Inl OutOfBounds)"

definition delete_item :: "iid \<Rightarrow> player_inv \<Rightarrow> player_inv" where
  "delete_item i s = s\<lparr>inv_heap := (inv_heap s)(i := None)\<rparr>"

definition SetState :: "iid \<Rightarrow> item_update_state \<Rightarrow> player_inv \<Rightarrow> player_inv res" where
  "SetState i st s =
     bindR (get_item i s) (\<lambda>it.
       if it_state it = ITEM_NEW \<and> st = ITEM_REMOVED
       then bindR (RemoveFromUpdateQueueOf i s) (\<lambda>s1. Inr (delete_item i s1))
       else if st \<noteq> ITEM_UNCHANGED
       then AddToUpdateQueueOf i
              (if it_state it \<noteq> ITEM_NEW then put_item i (it\<lparr>it_state := st\<rparr>) s else s)
       else Inr (put_item i (it\<lparr>it_state := ITEM_UNCHANGED, it_qpos := - 1\<rparr>) s))"

subsection \<open>Saving\<close>

definition item_values :: "item \<Rightarrow> instance_row" where
  "item_values it = (GUID_LOPART (it_owner it), it_entry it, it_owner it, it_contained it, it_count it)"

definition SaveToDB :: "iid \<Rightarrow> player_inv \<Rightarrow> player_inv res" where
  "SaveToDB i s =
     bindR (get_item i s) (\<lambda>it.
       let g = it_guid it
       in case it_state it of
            ITEM_NEW \<Rightarrow>
              SetState i ITEM_UNCHANGED (s\<lparr>inv_instances := (inv_instances s)(g \<mapsto> item_values it)\<rparr>)
          | ITEM_CHANGED \<Rightarrow>
              SetState i ITEM_UNCHANGED
                (s\<lparr>inv_instances := (inv_instances s)(g := map_option (\<lambda>_. item_values it) (inv_instances s g))\<rparr>)
          | ITEM_REMOVED \<Rightarrow> Inr (delete_item i (s\<lparr>inv_instances := (inv_instances s)(g := None)\<rparr>))
          | ITEM_UNCHANGED \<Rightarrow> SetState i ITEM_UNCHANGED s)"

definition inv_row_of :: "player_inv \<Rightarrow> item \<Rightarrow> inv_row" where
  "inv_row_of s it =
     (GUID_LOPART (inv_guid s), case it_container it of None \<Rightarrow> 0 | Some p \<Rightarrow> p, it_slot it, it_entry it)"

text \<open>One entry of the queue; the trace line reads the name of the item's prototype.\<close>

definition save_entry :: "(u32 \<Rightarrow> bool) \<Rightarrow> iid option \<Rightarrow> player_inv \<Rightarrow> player_inv res" where
  "save_entry proto e s =
     (case e of
        None \<Rightarrow> Inr s
      | Some i \<Rightarrow>
          bindR (get_item i s) (\<lambda>it.
            if \<not> proto (it_entry it) then Inl NullDeref
            else
              let g = it_guid it;
                  row = inv_row_of s it;
                  rows = (case it_state it of
                            ITEM_NEW \<Rightarrow> (inv_rows s)(g \<mapsto> row)
                          | ITEM_CHANGED \<Rightarrow> (inv_rows s)(g := map_option (\<lambda>_. row) (inv_rows s g))
                          | ITEM_REMOVED \<Rightarrow> (inv_rows s)(g := None)
                          | ITEM_UNCHANGED \<Rightarrow> inv_rows s)
              in SaveToDB i (s\<lparr>inv_rows := rows\<rparr>)))"

definition SaveInventory :: "(u32 \<Rightarrow> bool) \<Rightarrow> player_inv \<Rightarrow> player_inv res" where
  "SaveInventory proto s =
     (if inv_queue s = [] then Inr s
      else bindR (foldR (save_entry proto) (inv_queue s) s) (\<lambda>s'. Inr (s'\<lparr>inv_queue := []\<rparr>)))"

subsection \<open>The queue and its items\<close>

text \<open>
  Every entry of the queue is a live item that knows its position, and every item that has a position
  is there; the queue fits its 16 bit positions.
\<close>

definition queue_ok :: "player_inv \<Rightarrow> bool" where
  "queue_ok s \<longleftrightarrow>
     (\<forall>j i. j < length (inv_queue s) \<and> inv_queue s ! j = Some i \<longrightarrow>
        (\<exists>it. inv_heap s i = Some it \<and> it_qpos it = int j)) \<and>
     (\<forall>i it. inv_heap s i = Some it \<and> it_qpos it \<noteq> - 1 \<longrightarrow>
        (\<exists>j < length (inv_queue s). it_qpos it = int j \<and> inv_queue s ! j = Some i \<and> it_owner it = inv_guid s)) \<and>
     length (inv_queue s) \<le> 32767 \<and> \<not> inv_blocked s"

lemma to_int16_small: "n < 32768 \<Longrightarrow> to_int16 n = int n"
proof -
  assume n: "n < 32768"
  have "sint (word_of_int (int n) :: 16 word) = int n"
    using n by (intro signed_take_bit_int_eq_self [THEN trans [OF sint_sbintrunc']]) simp_all
  then show ?thesis by (simp add: to_int16_def)
qed

lemma queue_okD:
  assumes "queue_ok s" and "inv_heap s i = Some it" and "it_qpos it \<noteq> - 1"
  shows "\<exists>j < length (inv_queue s). it_qpos it = int j \<and> inv_queue s ! j = Some i \<and> it_owner it = inv_guid s"
  using assms unfolding queue_ok_def by blast

lemma queue_ok_entry:
  assumes "queue_ok s" and "j < length (inv_queue s)" and "inv_queue s ! j = Some i"
  shows "\<exists>it. inv_heap s i = Some it \<and> it_qpos it = int j"
  using assms unfolding queue_ok_def by blast

lemma queue_okI:
  assumes "\<And>j i. j < length (inv_queue s) \<Longrightarrow> inv_queue s ! j = Some i \<Longrightarrow>
      \<exists>it. inv_heap s i = Some it \<and> it_qpos it = int j"
    and "\<And>i it. inv_heap s i = Some it \<Longrightarrow> it_qpos it \<noteq> - 1 \<Longrightarrow>
      \<exists>j < length (inv_queue s). it_qpos it = int j \<and> inv_queue s ! j = Some i \<and> it_owner it = inv_guid s"
    and "length (inv_queue s) \<le> 32767" and "\<not> inv_blocked s"
  shows "queue_ok s"
  using assms unfolding queue_ok_def by blast

text \<open>What an operation leaves alone.\<close>

definition same_rest :: "player_inv \<Rightarrow> player_inv \<Rightarrow> bool" where
  "same_rest s t \<longleftrightarrow> inv_guid t = inv_guid s \<and> inv_slots t = inv_slots s \<and> inv_next t = inv_next s \<and>
     inv_hiGuid t = inv_hiGuid s \<and> inv_rows t = inv_rows s \<and> inv_instances t = inv_instances s \<and>
     inv_inWorld t = inv_inWorld s"

lemma Add_ok:
  assumes "queue_ok s" and "inv_heap s i = Some it" and "it_owner it = inv_guid s" and "length (inv_queue s) < 32767"
  shows "\<exists>s' p. AddToUpdateQueueOf i s = Inr s' \<and> queue_ok s' \<and> p \<noteq> - 1 \<and>
    inv_heap s' = (inv_heap s)(i \<mapsto> it\<lparr>it_qpos := p\<rparr>) \<and> same_rest s s' \<and> length (inv_queue s') \<le> Suc (length (inv_queue s))"
proof (cases "it_qpos it = - 1")
  case False
  then have "AddToUpdateQueueOf i s = Inr s"
    using assms(2) by (simp add: AddToUpdateQueueOf_def get_item_def)
  moreover have "inv_heap s = (inv_heap s)(i \<mapsto> it\<lparr>it_qpos := it_qpos it\<rparr>)"
    using assms(2) by auto
  ultimately show ?thesis
    using assms(1) False by (auto simp: same_rest_def)
next
  case True
  let ?n = "length (inv_queue s)"
  let ?s = "put_item i (it\<lparr>it_qpos := int ?n\<rparr>) (s\<lparr>inv_queue := inv_queue s @ [Some i]\<rparr>)"
  have run: "AddToUpdateQueueOf i s = Inr ?s"
    using assms True by (simp add: AddToUpdateQueueOf_def get_item_def queue_ok_def to_int16_small Let_def)
  have fresh: "inv_queue s ! j \<noteq> Some i" if "j < ?n" for j
    using assms(1,2) that True unfolding queue_ok_def by force
  have "queue_ok ?s"
  proof (rule queue_okI)
    fix j k
    assume j: "j < length (inv_queue ?s)" "inv_queue ?s ! j = Some k"
    show "\<exists>it. inv_heap ?s k = Some it \<and> it_qpos it = int j"
    proof (cases "j < ?n")
      case True
      then have "inv_queue s ! j = Some k" "k \<noteq> i"
        using j fresh [OF True] by (auto simp: put_item_def nth_append)
      then show ?thesis
        using assms(1) True by (auto simp: put_item_def queue_ok_def)
    next
      case False
      then show ?thesis using j by (auto simp: put_item_def nth_append less_Suc_eq)
    qed
  next
    fix k jt
    assume k: "inv_heap ?s k = Some jt" "it_qpos jt \<noteq> - 1"
    show "\<exists>j < length (inv_queue ?s). it_qpos jt = int j \<and> inv_queue ?s ! j = Some k \<and> it_owner jt = inv_guid ?s"
    proof (cases "k = i")
      case True
      then have "it_qpos jt = int ?n" "it_owner jt = inv_guid s"
        using k(1) assms(3) by (auto simp: put_item_def)
      with True show ?thesis
        by (intro exI [of _ ?n]) (simp add: put_item_def)
    next
      case False
      then obtain j where "j < ?n" "it_qpos jt = int j" "inv_queue s ! j = Some k" "it_owner jt = inv_guid s"
        using queue_okD [OF assms(1), of k jt] k by (auto simp: put_item_def)
      then show ?thesis
        by (intro exI [of _ j]) (simp add: put_item_def nth_append)
    qed
  qed (use assms in \<open>simp_all add: put_item_def queue_ok_def\<close>)
  moreover have "int ?n \<noteq> - 1" by simp
  ultimately show ?thesis
    using run by (intro exI [of _ ?s] exI [of _ "int ?n"]) (simp add: put_item_def same_rest_def)
qed

lemma Remove_ok:
  assumes "queue_ok s" and "inv_heap s i = Some it"
  shows "\<exists>s'. RemoveFromUpdateQueueOf i s = Inr s' \<and> queue_ok s' \<and>
    inv_heap s' = (inv_heap s)(i \<mapsto> it\<lparr>it_qpos := - 1\<rparr>) \<and> same_rest s s' \<and>
    length (inv_queue s') = length (inv_queue s) \<and> Some i \<notin> set (inv_queue s')"
proof (cases "it_qpos it = - 1")
  case True
  then have "RemoveFromUpdateQueueOf i s = Inr s"
    using assms(2) by (simp add: RemoveFromUpdateQueueOf_def get_item_def)
  moreover have "inv_heap s = (inv_heap s)(i \<mapsto> it\<lparr>it_qpos := - 1\<rparr>)"
    using assms(2) True by auto
  moreover have "Some i \<notin> set (inv_queue s)"
    using assms True unfolding queue_ok_def by (force simp: in_set_conv_nth)
  ultimately show ?thesis
    using assms(1) by (auto simp: same_rest_def)
next
  case False
  obtain n where n: "n < length (inv_queue s)" "it_qpos it = int n" "inv_queue s ! n = Some i" "it_owner it = inv_guid s"
    using queue_okD [OF assms False] by blast
  let ?s = "put_item i (it\<lparr>it_qpos := - 1\<rparr>) (s\<lparr>inv_queue := (inv_queue s)[n := None]\<rparr>)"
  have run: "RemoveFromUpdateQueueOf i s = Inr ?s"
    using assms n by (simp add: RemoveFromUpdateQueueOf_def get_item_def queue_ok_def)
  have only: "j = n" if "j < length (inv_queue s)" "inv_queue s ! j = Some i" for j
    using assms n that unfolding queue_ok_def by force
  have "queue_ok ?s"
  proof (rule queue_okI)
    fix j k
    assume j: "j < length (inv_queue ?s)" "inv_queue ?s ! j = Some k"
    then have "j < length (inv_queue s)" "(if n = j then None else inv_queue s ! j) = Some k"
      using n(1) by (simp_all add: put_item_def nth_list_update)
    then have "j \<noteq> n" "inv_queue s ! j = Some k" "j < length (inv_queue s)"
      by (metis option.distinct(1))+
    moreover from this only have "k \<noteq> i" by auto
    ultimately show "\<exists>it. inv_heap ?s k = Some it \<and> it_qpos it = int j"
      using assms(1) by (auto simp: put_item_def queue_ok_def)
  next
    fix k jt
    assume k: "inv_heap ?s k = Some jt" "it_qpos jt \<noteq> - 1"
    then have "k \<noteq> i" "inv_heap s k = Some jt"
      by (auto simp: put_item_def split: if_splits)
    moreover from this obtain j where "j < length (inv_queue s)" "it_qpos jt = int j" "inv_queue s ! j = Some k"
      "it_owner jt = inv_guid s"
      using queue_okD [OF assms(1), of k jt] k(2) by blast
    moreover from calculation n(3) have "j \<noteq> n" by auto
    ultimately show "\<exists>j < length (inv_queue ?s). it_qpos jt = int j \<and> inv_queue ?s ! j = Some k \<and> it_owner jt = inv_guid ?s"
      by (intro exI [of _ j]) (simp add: put_item_def)
  qed (use assms in \<open>simp_all add: put_item_def queue_ok_def\<close>)
  moreover have "Some i \<notin> set (inv_queue ?s)"
  proof
    assume "Some i \<in> set (inv_queue ?s)"
    then have "Some i \<in> set ((inv_queue s)[n := None])"
      by (simp add: put_item_def)
    then obtain j where "j < length (inv_queue s)" "(inv_queue s)[n := None] ! j = Some i"
      by (metis in_set_conv_nth length_list_update)
    then show False
      using only [of j] n(1) by (metis nth_list_update_eq nth_list_update_neq option.distinct(1))
  qed
  ultimately show ?thesis
    using run by (intro exI [of _ ?s]) (simp add: put_item_def same_rest_def)
qed

text \<open>The state an item is in after a change: new items stay new until they are saved.\<close>

definition next_state :: "item_update_state \<Rightarrow> item \<Rightarrow> item_update_state" where
  "next_state st it = (if it_state it = ITEM_NEW then ITEM_NEW else st)"

lemma SetState_change_ok:
  assumes "queue_ok s" and "inv_heap s i = Some it" and "it_owner it = inv_guid s" and "length (inv_queue s) < 32767"
    and "st \<noteq> ITEM_UNCHANGED" and "\<not> (it_state it = ITEM_NEW \<and> st = ITEM_REMOVED)"
  shows "\<exists>s' p. SetState i st s = Inr s' \<and> queue_ok s' \<and> p \<noteq> - 1 \<and>
    inv_heap s' = (inv_heap s)(i \<mapsto> it\<lparr>it_state := next_state st it, it_qpos := p\<rparr>) \<and> same_rest s s' \<and>
    length (inv_queue s') \<le> Suc (length (inv_queue s))"
proof -
  let ?it = "it\<lparr>it_state := next_state st it\<rparr>"
  let ?s = "put_item i ?it s"
  have q: "queue_ok ?s"
  proof (rule queue_okI)
    fix j k
    assume "j < length (inv_queue ?s)" "inv_queue ?s ! j = Some k"
    then obtain jt where "inv_heap s k = Some jt" "it_qpos jt = int j"
      using queue_ok_entry [OF assms(1), of j k] by (auto simp: put_item_def)
    then show "\<exists>it. inv_heap ?s k = Some it \<and> it_qpos it = int j"
      using assms(2) by (auto simp: put_item_def)
  next
    fix k jt
    assume k: "inv_heap ?s k = Some jt" "it_qpos jt \<noteq> - 1"
    have "\<exists>jt'. inv_heap s k = Some jt' \<and> it_qpos jt' = it_qpos jt \<and> it_owner jt' = it_owner jt"
      using k(1) assms(2) by (cases "k = i") (auto simp: put_item_def)
    then obtain jt' where "inv_heap s k = Some jt'" "it_qpos jt' = it_qpos jt" "it_owner jt' = it_owner jt"
      by blast
    then show "\<exists>j < length (inv_queue ?s). it_qpos jt = int j \<and> inv_queue ?s ! j = Some k \<and> it_owner jt = inv_guid ?s"
      using queue_okD [OF assms(1), of k jt'] k(2) by (simp add: put_item_def)
  qed (use assms(1) in \<open>simp_all add: put_item_def queue_ok_def\<close>)
  have "inv_heap ?s i = Some ?it" "it_owner ?it = inv_guid ?s" "length (inv_queue ?s) < 32767"
    using assms by (simp_all add: put_item_def)
  from Add_ok [OF q this] obtain s' p where s': "AddToUpdateQueueOf i ?s = Inr s'" "queue_ok s'" "p \<noteq> - 1"
    "inv_heap s' = (inv_heap ?s)(i \<mapsto> ?it\<lparr>it_qpos := p\<rparr>)" "same_rest ?s s'"
    "length (inv_queue s') \<le> Suc (length (inv_queue ?s))" by blast
  have put: "?s = (if it_state it \<noteq> ITEM_NEW then put_item i (it\<lparr>it_state := st\<rparr>) s else s)"
  proof (cases "it_state it = ITEM_NEW")
    case True
    then have "?it = it" by (simp add: next_state_def)
    moreover have "(inv_heap s)(i \<mapsto> it) = inv_heap s" using assms(2) by auto
    ultimately show ?thesis using True by (simp add: put_item_def)
  qed (simp add: next_state_def)
  have "SetState i st s = AddToUpdateQueueOf i ?s"
    unfolding put using assms(2,5,6) by (auto simp: SetState_def get_item_def)
  then show ?thesis
    using s' by (intro exI [of _ s'] exI [of _ p]) (simp add: put_item_def same_rest_def)
qed

lemma SetState_new_removed:
  assumes "queue_ok s" and "inv_heap s i = Some it" and "it_state it = ITEM_NEW"
  shows "\<exists>s'. SetState i ITEM_REMOVED s = Inr s' \<and> queue_ok s' \<and> inv_heap s' = (inv_heap s)(i := None) \<and>
    same_rest s s' \<and> length (inv_queue s') = length (inv_queue s)"
proof -
  obtain s1 where s1: "RemoveFromUpdateQueueOf i s = Inr s1" "queue_ok s1" "inv_heap s1 = (inv_heap s)(i \<mapsto> it\<lparr>it_qpos := - 1\<rparr>)"
    "same_rest s s1" "length (inv_queue s1) = length (inv_queue s)" "Some i \<notin> set (inv_queue s1)"
    using Remove_ok [OF assms(1,2)] by blast
  have "queue_ok (delete_item i s1)"
  proof (rule queue_okI)
    fix j k
    assume j: "j < length (inv_queue (delete_item i s1))" "inv_queue (delete_item i s1) ! j = Some k"
    then have "k \<noteq> i" using s1(6) by (auto simp: delete_item_def in_set_conv_nth)
    then show "\<exists>it. inv_heap (delete_item i s1) k = Some it \<and> it_qpos it = int j"
      using s1(2) j by (auto simp: delete_item_def queue_ok_def)
  next
    fix k jt
    assume k: "inv_heap (delete_item i s1) k = Some jt" "it_qpos jt \<noteq> - 1"
    then have "inv_heap s1 k = Some jt" by (auto simp: delete_item_def split: if_splits)
    from queue_okD [OF s1(2) this k(2)]
    show "\<exists>j < length (inv_queue (delete_item i s1)). it_qpos jt = int j \<and> inv_queue (delete_item i s1) ! j = Some k \<and>
        it_owner jt = inv_guid (delete_item i s1)"
      by (simp add: delete_item_def)
  qed (use s1(2) in \<open>simp_all add: delete_item_def queue_ok_def\<close>)
  moreover have "SetState i ITEM_REMOVED s = Inr (delete_item i s1)"
    using assms(2,3) s1(1) by (simp add: SetState_def get_item_def)
  ultimately show ?thesis
    using s1(3-5) by (intro exI [of _ "delete_item i s1"]) (simp add: delete_item_def same_rest_def)
qed

subsection \<open>What saving does to the tables\<close>

text \<open>The effect of saving one item: the item itself, and its two rows.\<close>

definition saved_item :: "item \<Rightarrow> item option" where
  "saved_item it =
     (if it_state it = ITEM_REMOVED then None else Some (it\<lparr>it_state := ITEM_UNCHANGED, it_qpos := - 1\<rparr>))"

definition saved_row :: "item_update_state \<Rightarrow> 'r \<Rightarrow> 'r option \<Rightarrow> 'r option" where
  "saved_row st new old =
     (case st of ITEM_NEW \<Rightarrow> Some new | ITEM_CHANGED \<Rightarrow> map_option (\<lambda>_. new) old
               | ITEM_REMOVED \<Rightarrow> None | ITEM_UNCHANGED \<Rightarrow> old)"

lemma save_entry_eq:
  assumes "inv_heap s i = Some it" and "proto (it_entry it)"
  shows "\<exists>s'. save_entry proto (Some i) s = Inr s' \<and> inv_heap s' = (inv_heap s)(i := saved_item it) \<and>
    inv_rows s' = (inv_rows s)(it_guid it := saved_row (it_state it) (inv_row_of s it) (inv_rows s (it_guid it))) \<and>
    inv_instances s' = (inv_instances s)(it_guid it := saved_row (it_state it) (item_values it) (inv_instances s (it_guid it))) \<and>
    inv_queue s' = inv_queue s \<and> inv_guid s' = inv_guid s \<and> inv_slots s' = inv_slots s \<and> inv_next s' = inv_next s \<and>
    inv_blocked s' = inv_blocked s \<and> inv_hiGuid s' = inv_hiGuid s"
  using assms
  by (cases "it_state it")
     (simp_all add: save_entry_def get_item_def SaveToDB_def SetState_def saved_item_def saved_row_def put_item_def
        delete_item_def Let_def fun_upd_idem)

text \<open>The guids of the live items are different.\<close>

definition guids_ok :: "player_inv \<Rightarrow> bool" where
  "guids_ok s \<longleftrightarrow> (\<forall>i j x y. inv_heap s i = Some x \<and> inv_heap s j = Some y \<and> it_guid x = it_guid y \<longrightarrow> i = j)"

definition row_after :: "iid set \<Rightarrow> (item \<Rightarrow> 'r) \<Rightarrow> player_inv \<Rightarrow> (u32 \<Rightarrow> 'r option) \<Rightarrow> u32 \<Rightarrow> 'r option \<Rightarrow> bool" where
  "row_after I new s old g r \<longleftrightarrow>
     (\<forall>i it. i \<in> I \<and> inv_heap s i = Some it \<and> it_guid it = g \<longrightarrow> r = saved_row (it_state it) (new it) (old g)) \<and>
     ((\<forall>i it. i \<in> I \<and> inv_heap s i = Some it \<longrightarrow> it_guid it \<noteq> g) \<longrightarrow> r = old g)"

lemma row_after_step:
  assumes "guids_ok s" and "inv_heap s i = Some it" and "i \<notin> I" and "inv_heap t = (inv_heap s)(i := v)"
    and "row_after I new t (old(it_guid it := saved_row (it_state it) (new it) (old (it_guid it)))) g r"
  shows "row_after (insert i I) new s old g r"
proof -
  have others: "inv_heap t j = inv_heap s j" if "j \<in> I" for j
    using that assms(3,4) by auto
  show ?thesis
  proof (cases "g = it_guid it")
    case True
    have "it_guid jt \<noteq> g" if "j \<in> I" "inv_heap s j = Some jt" for j jt
      using assms(1,2,3) that True unfolding guids_ok_def by blast
    then have "r = saved_row (it_state it) (new it) (old g)"
      using assms(5) others True unfolding row_after_def by fastforce
    moreover have "jt = it" if "j \<in> insert i I" "inv_heap s j = Some jt" "it_guid jt = g" for j jt
      using assms(1,2) that True unfolding guids_ok_def by fastforce
    ultimately show ?thesis
      using assms(2) True unfolding row_after_def by blast
  next
    case False
    then have "r = saved_row (it_state jt) (new jt) (old g)"
      if "j \<in> insert i I" "inv_heap s j = Some jt" "it_guid jt = g" for j jt
      using assms(2,5) that others [of j] unfolding row_after_def by fastforce
    moreover have "r = old g" if "\<forall>j jt. j \<in> insert i I \<and> inv_heap s j = Some jt \<longrightarrow> it_guid jt \<noteq> g"
      using assms(5) that others False unfolding row_after_def by fastforce
    ultimately show ?thesis
      unfolding row_after_def by blast
  qed
qed

lemma saved_item_guid: "saved_item it = Some x \<Longrightarrow> it_guid x = it_guid it"
  by (auto simp: saved_item_def split: if_splits)

lemma inv_row_of_cong: "inv_guid t = inv_guid s \<Longrightarrow> inv_row_of t = inv_row_of s"
  by (auto simp: inv_row_of_def fun_eq_iff)

lemma save_entries:
  assumes "\<forall>i. Some i \<in> set es \<longrightarrow> (\<exists>it. inv_heap s i = Some it \<and> proto (it_entry it))"
    and "distinct (filter (\<lambda>e. e \<noteq> None) es)" and "guids_ok s"
  shows "\<exists>s'. foldR (save_entry proto) es s = Inr s' \<and>
    inv_heap s' = (\<lambda>i. if Some i \<in> set es then Option.bind (inv_heap s i) saved_item else inv_heap s i) \<and>
    (\<forall>g. row_after {i. Some i \<in> set es} (inv_row_of s) s (inv_rows s) g (inv_rows s' g)) \<and>
    (\<forall>g. row_after {i. Some i \<in> set es} item_values s (inv_instances s) g (inv_instances s' g)) \<and>
    inv_guid s' = inv_guid s \<and> inv_slots s' = inv_slots s \<and> inv_next s' = inv_next s \<and> inv_blocked s' = inv_blocked s \<and> inv_hiGuid s' = inv_hiGuid s"
  using assms
proof (induction es arbitrary: s)
  case Nil
  then show ?case by (simp add: row_after_def)
next
  case (Cons e es)
  show ?case
  proof (cases e)
    case None
    have "save_entry proto None s = Inr s" by (simp add: save_entry_def)
    then show ?thesis
      using Cons.IH [of s] Cons.prems None by simp
  next
    case (Some i)
    obtain it where it: "inv_heap s i = Some it" "proto (it_entry it)"
      using Cons.prems(1) Some by auto
    obtain t where t: "save_entry proto (Some i) s = Inr t" "inv_heap t = (inv_heap s)(i := saved_item it)"
      "inv_rows t = (inv_rows s)(it_guid it := saved_row (it_state it) (inv_row_of s it) (inv_rows s (it_guid it)))"
      "inv_instances t = (inv_instances s)(it_guid it := saved_row (it_state it) (item_values it) (inv_instances s (it_guid it)))"
      "inv_guid t = inv_guid s" "inv_slots t = inv_slots s" "inv_next t = inv_next s" "inv_blocked t = inv_blocked s \<and> inv_hiGuid t = inv_hiGuid s"
      using save_entry_eq [of s i it proto] it by blast
    have i_rest: "Some i \<notin> set es" and dist: "distinct (filter (\<lambda>e. e \<noteq> None) es)"
      using Cons.prems(2) Some by auto
    have others: "inv_heap t j = inv_heap s j" if "Some j \<in> set es" for j
      using that i_rest t(2) by auto
    have live: "\<forall>j. Some j \<in> set es \<longrightarrow> (\<exists>jt. inv_heap t j = Some jt \<and> proto (it_entry jt))"
      using Cons.prems(1) others by simp
    have guids: "guids_ok t"
    proof -
      have "\<exists>y. inv_heap s j = Some y \<and> it_guid y = it_guid x" if "inv_heap t j = Some x" for j x
        using that it(1) t(2) saved_item_guid [of it x] by (cases "j = i") auto
      then show ?thesis
        using Cons.prems(3) unfolding guids_ok_def by metis
    qed
    obtain s' where s': "foldR (save_entry proto) es t = Inr s'"
      "inv_heap s' = (\<lambda>i. if Some i \<in> set es then Option.bind (inv_heap t i) saved_item else inv_heap t i)"
      "\<forall>g. row_after {i. Some i \<in> set es} (inv_row_of t) t (inv_rows t) g (inv_rows s' g)"
      "\<forall>g. row_after {i. Some i \<in> set es} item_values t (inv_instances t) g (inv_instances s' g)"
      "inv_guid s' = inv_guid t" "inv_slots s' = inv_slots t" "inv_next s' = inv_next t" "inv_blocked s' = inv_blocked t \<and> inv_hiGuid s' = inv_hiGuid t"
      using Cons.IH [OF live dist guids] by blast
    have ins: "{j. Some j \<in> set (e # es)} = insert i {j. Some j \<in> set es}" and i_new: "i \<notin> {j. Some j \<in> set es}"
      using Some i_rest by auto
    have rows: "row_after {j. Some j \<in> set (e # es)} (inv_row_of s) s (inv_rows s) g (inv_rows s' g)" for g
      unfolding ins
      by (rule row_after_step [OF Cons.prems(3) it(1) i_new t(2)])
        (use s'(3) [rule_format, of g] in \<open>simp only: t(3) inv_row_of_cong [OF t(5)]\<close>)
    have insts: "row_after {j. Some j \<in> set (e # es)} item_values s (inv_instances s) g (inv_instances s' g)" for g
      unfolding ins
      by (rule row_after_step [OF Cons.prems(3) it(1) i_new t(2)])
        (use s'(4) [rule_format, of g] in \<open>simp only: t(4)\<close>)
    have "inv_heap s' = (\<lambda>i. if Some i \<in> set (e # es) then Option.bind (inv_heap s i) saved_item else inv_heap s i)"
      using s'(2) t(2) it(1) i_rest Some by (auto simp: fun_eq_iff)
    then show ?thesis
      using rows insts s' t Some by (intro exI [of _ s']) simp
  qed
qed

subsection \<open>Memory and tables\<close>

text \<open>
  The tables are what was last saved: an unchanged item has its rows as it is, a changed or removed
  one has rows and waits in the queue, a new one waits in the queue and has none, and every row
  belongs to a live item.
\<close>

definition rows_for :: "player_inv \<Rightarrow> item \<Rightarrow> bool" where
  "rows_for s it \<longleftrightarrow> inv_rows s (it_guid it) = Some (inv_row_of s it) \<and>
     inv_instances s (it_guid it) = Some (item_values it)"

definition item_persist :: "player_inv \<Rightarrow> item \<Rightarrow> bool" where
  "item_persist s it \<longleftrightarrow>
     (it_state it = ITEM_UNCHANGED \<longrightarrow> rows_for s it) \<and>
     (it_state it \<noteq> ITEM_UNCHANGED \<longrightarrow> it_qpos it \<noteq> - 1) \<and>
     (it_state it = ITEM_CHANGED \<longrightarrow> inv_rows s (it_guid it) \<noteq> None \<and> inv_instances s (it_guid it) \<noteq> None)"

definition persist_ok :: "player_inv \<Rightarrow> bool" where
  "persist_ok s \<longleftrightarrow> guids_ok s \<and> (\<forall>i it. inv_heap s i = Some it \<longrightarrow> item_persist s it) \<and>
     (\<forall>g. inv_rows s g \<noteq> None \<or> inv_instances s g \<noteq> None \<longrightarrow>
        (\<exists>i it. inv_heap s i = Some it \<and> it_guid it = g \<and> it_state it \<noteq> ITEM_NEW))"

text \<open>After saving, the tables are exactly the items in memory, and nothing waits.\<close>

definition in_sync :: "player_inv \<Rightarrow> bool" where
  "in_sync s \<longleftrightarrow> inv_queue s = [] \<and>
     (\<forall>i it. inv_heap s i = Some it \<longrightarrow> it_state it = ITEM_UNCHANGED \<and> it_qpos it = - 1 \<and> rows_for s it) \<and>
     (\<forall>g. inv_rows s g \<noteq> None \<or> inv_instances s g \<noteq> None \<longrightarrow> (\<exists>i it. inv_heap s i = Some it \<and> it_guid it = g))"

lemma queued_iff:
  assumes "queue_ok s"
  shows "Some i \<in> set (inv_queue s) \<longleftrightarrow> (\<exists>it. inv_heap s i = Some it \<and> it_qpos it \<noteq> - 1)"
proof
  assume "Some i \<in> set (inv_queue s)"
  then obtain j where "j < length (inv_queue s)" "inv_queue s ! j = Some i"
    by (metis in_set_conv_nth)
  from queue_ok_entry [OF assms this] show "\<exists>it. inv_heap s i = Some it \<and> it_qpos it \<noteq> - 1"
    by auto
next
  assume "\<exists>it. inv_heap s i = Some it \<and> it_qpos it \<noteq> - 1"
  then show "Some i \<in> set (inv_queue s)"
    using queue_okD [OF assms] by (metis nth_mem)
qed

lemma queue_distinct:
  assumes "queue_ok s"
  shows "distinct (filter (\<lambda>e. e \<noteq> None) (inv_queue s))"
proof -
  have "j = k" if "j < length (inv_queue s)" "k < length (inv_queue s)" "inv_queue s ! j = Some i" "inv_queue s ! k = Some i" for i j k
    using queue_ok_entry [OF assms that(1,3)] queue_ok_entry [OF assms that(2,4)] by auto
  then have inj: "\<And>j k. j < length xs \<Longrightarrow> k < length xs \<Longrightarrow> xs ! j \<noteq> None \<Longrightarrow> xs ! j = xs ! k \<Longrightarrow> j = k"
    if "xs = inv_queue s" for xs
    using that by (metis option.exhaust_sel)
  have "distinct (filter (\<lambda>e. e \<noteq> None) xs)"
    if "\<And>j k. j < length xs \<Longrightarrow> k < length xs \<Longrightarrow> xs ! j \<noteq> None \<Longrightarrow> xs ! j = xs ! k \<Longrightarrow> j = k" for xs :: "iid option list"
    using that
  proof (induction xs)
    case Nil
    then show ?case by simp
  next
    case (Cons x xs)
    have "distinct (filter (\<lambda>e. e \<noteq> None) xs)"
      using Cons.prems by (intro Cons.IH) (metis Suc_less_eq length_Cons nat.inject nth_Cons_Suc)
    moreover have "x \<notin> set xs" if "x \<noteq> None"
    proof
      assume "x \<in> set xs"
      then obtain k where "k < length xs" "xs ! k = x" by (metis in_set_conv_nth)
      then show False
        using Cons.prems [of 0 "Suc k"] that by simp
    qed
    ultimately show ?case by simp
  qed
  from this [OF inj [OF refl]] show ?thesis by blast
qed

lemma row_after_cases:
  assumes "row_after {i. Some i \<in> set es} new s old g r"
  obtains i it where "Some i \<in> set es" "inv_heap s i = Some it" "it_guid it = g" "r = saved_row (it_state it) (new it) (old g)"
  | "\<forall>i it. Some i \<in> set es \<and> inv_heap s i = Some it \<longrightarrow> it_guid it \<noteq> g" "r = old g"
  using assms unfolding row_after_def by blast

lemma saved_item_cases:
  "saved_item it = Some it' \<longleftrightarrow> it_state it \<noteq> ITEM_REMOVED \<and> it' = it\<lparr>it_state := ITEM_UNCHANGED, it_qpos := - 1\<rparr>"
  by (auto simp: saved_item_def)

lemma save_in_sync:
  assumes "queue_ok s" and "persist_ok s" and "\<forall>i it. inv_heap s i = Some it \<longrightarrow> proto (it_entry it)"
  shows "\<exists>s'. SaveInventory proto s = Inr s' \<and> in_sync s' \<and> queue_ok s' \<and> persist_ok s' \<and>
    inv_slots s' = inv_slots s \<and> inv_next s' = inv_next s \<and> inv_guid s' = inv_guid s \<and> inv_hiGuid s' = inv_hiGuid s \<and>
    inv_heap s' = (\<lambda>i. Option.bind (inv_heap s i) saved_item)"
proof -
  have guids: "guids_ok s" using assms(2) by (simp add: persist_ok_def)
  have live: "\<forall>i. Some i \<in> set (inv_queue s) \<longrightarrow> (\<exists>it. inv_heap s i = Some it \<and> proto (it_entry it))"
    using queued_iff [OF assms(1)] assms(3) by metis
  obtain t where t: "foldR (save_entry proto) (inv_queue s) s = Inr t"
    "inv_heap t = (\<lambda>i. if Some i \<in> set (inv_queue s) then Option.bind (inv_heap s i) saved_item else inv_heap s i)"
    "\<forall>g. row_after {i. Some i \<in> set (inv_queue s)} (inv_row_of s) s (inv_rows s) g (inv_rows t g)"
    "\<forall>g. row_after {i. Some i \<in> set (inv_queue s)} item_values s (inv_instances s) g (inv_instances t g)"
    "inv_guid t = inv_guid s" "inv_slots t = inv_slots s" "inv_next t = inv_next s" "inv_blocked t = inv_blocked s \<and> inv_hiGuid t = inv_hiGuid s"
    using save_entries [OF live queue_distinct [OF assms(1)] guids] by blast
  define s' where "s' = t\<lparr>inv_queue := []\<rparr>"
  have unqueued: "it_state it = ITEM_UNCHANGED \<and> it_qpos it = - 1" if "inv_heap s i = Some it" "Some i \<notin> set (inv_queue s)" for i it
    using that queued_iff [OF assms(1), of i] assms(2) unfolding persist_ok_def item_persist_def by blast
  have heap: "inv_heap s' = (\<lambda>i. Option.bind (inv_heap s i) saved_item)"
  proof
    fix i
    show "inv_heap s' i = Option.bind (inv_heap s i) saved_item"
      using unqueued [of i] by (cases "inv_heap s i") (auto simp: s'_def t(2) saved_item_def)
  qed
  have row_of: "inv_row_of s' it' = inv_row_of s it" "item_values it' = item_values it" "it_guid it' = it_guid it"
    if "saved_item it = Some it'" for it it'
    using that by (auto simp: saved_item_cases inv_row_of_def item_values_def s'_def t(5))
  have get: "inv_rows s' = inv_rows t" "inv_instances s' = inv_instances t"
    by (simp_all add: s'_def)
  have kept: "r = Some (new it)"
    if "row_after {i. Some i \<in> set (inv_queue s)} new s old (it_guid it) r" "inv_heap s i = Some it" "it_state it \<noteq> ITEM_REMOVED"
      "it_state it = ITEM_UNCHANGED \<Longrightarrow> old (it_guid it) = Some (new it)" "it_state it = ITEM_CHANGED \<Longrightarrow> old (it_guid it) \<noteq> None"
    for i it r and new :: "item \<Rightarrow> 'r" and old
    using that(1)
  proof (cases rule: row_after_cases)
    case (1 j jt)
    then have "jt = it" using guids that(2) unfolding guids_ok_def by fastforce
    with 1 that(3-5) show ?thesis
      by (cases "it_state it") (auto simp: saved_row_def)
  next
    case 2
    then show ?thesis
      using that(2,4) unqueued by blast
  qed
  have rows: "rows_for s' it'" if "inv_heap s' i = Some it'" for i it'
  proof -
    obtain it where it: "inv_heap s i = Some it" "saved_item it = Some it'"
      using \<open>inv_heap s' i = Some it'\<close> heap by (auto simp: Option.bind_eq_Some_conv)
    then have p: "item_persist s it" "it_state it \<noteq> ITEM_REMOVED"
      using assms(2) by (auto simp: persist_ok_def saved_item_cases)
    have "inv_rows t (it_guid it) = Some (inv_row_of s it)"
      using kept [OF t(3) [rule_format] it(1) p(2)] p(1) by (auto simp: item_persist_def rows_for_def)
    moreover have "inv_instances t (it_guid it) = Some (item_values it)"
      using kept [OF t(4) [rule_format] it(1) p(2)] p(1) by (auto simp: item_persist_def rows_for_def)
    ultimately show ?thesis
      by (simp add: rows_for_def get row_of [OF it(2)])
  qed
  have alive: "\<exists>j jt. inv_heap s' j = Some jt \<and> it_guid jt = it_guid it" if "inv_heap s i = Some it" "it_state it \<noteq> ITEM_REMOVED" for i it
    using that heap by (intro exI [of _ i]) (simp add: saved_item_def)
  have dom1: "\<exists>i it. inv_heap s' i = Some it \<and> it_guid it = g"
    if after: "row_after {i. Some i \<in> set (inv_queue s)} new s old g r" and some: "r \<noteq> None"
      and old: "old g \<noteq> None \<Longrightarrow> \<exists>i it. inv_heap s i = Some it \<and> it_guid it = g \<and> it_state it \<noteq> ITEM_NEW"
    for g r and new :: "item \<Rightarrow> 'r" and old
    using after
  proof (cases rule: row_after_cases)
    case (1 i it)
    then have "it_state it \<noteq> ITEM_REMOVED" using some by (auto simp: saved_row_def)
    then show ?thesis
      using alive [OF 1(2)] 1(3) by simp
  next
    case 2
    then obtain i it where "inv_heap s i = Some it" "it_guid it = g" "Some i \<notin> set (inv_queue s)"
      using some old by blast
    then show ?thesis
      using unqueued [of i it] alive [of i it] by simp
  qed
  have dom: "\<exists>i it. inv_heap s' i = Some it \<and> it_guid it = g" if "inv_rows s' g \<noteq> None \<or> inv_instances s' g \<noteq> None" for g
    using that dom1 [OF t(3) [rule_format, of g]] dom1 [OF t(4) [rule_format, of g]] assms(2)
    unfolding get persist_ok_def by blast
  have unch: "it_state it = ITEM_UNCHANGED \<and> it_qpos it = - 1" if "inv_heap s' i = Some it" for i it
    using that heap by (auto simp: Option.bind_eq_Some_conv saved_item_cases)
  have sync: "in_sync s'"
    using unch rows dom unfolding in_sync_def by (simp add: s'_def)
  moreover have "queue_ok s'"
    using unch assms(1) by (simp add: queue_ok_def) (simp add: s'_def t(8))
  moreover have origin: "\<exists>y. inv_heap s j = Some y \<and> it_guid y = it_guid x" if "inv_heap s' j = Some x" for j x
    using that unfolding heap by (cases "inv_heap s j") (auto simp: saved_item_cases)
  have "guids_ok s'"
    unfolding guids_ok_def
  proof (intro allI impI)
    fix i j x y
    assume a: "inv_heap s' i = Some x \<and> inv_heap s' j = Some y \<and> it_guid x = it_guid y"
    obtain x' y' where "inv_heap s i = Some x'" "it_guid x' = it_guid x" "inv_heap s j = Some y'" "it_guid y' = it_guid y"
      using origin [of i x] origin [of j y] a by blast
    then show "i = j"
      using guids [unfolded guids_ok_def, rule_format, of i x' j y'] a by simp
  qed
  then have "persist_ok s'"
    using sync unfolding persist_ok_def in_sync_def item_persist_def
    by (intro conjI allI impI) (simp_all, metis item_update_state.distinct)
  moreover have "SaveInventory proto s = Inr s'"
  proof (cases "inv_queue s = []")
    case True
    then show ?thesis using t(1) by (simp add: SaveInventory_def s'_def)
  next
    case False
    then show ?thesis using t(1) by (simp add: SaveInventory_def s'_def)
  qed
  ultimately show ?thesis
    using heap t(5-8) by (auto simp: s'_def)
qed

text \<open>C7: saving an inventory whose queue and tables are consistent leaves the two tables exactly the live items,
  with the values they have in memory: every removed item is gone from both tables and from memory, every
  other one is unchanged, no row is left without its item, and the state is consistent again. No step
  touches a deleted item or leaves the queue.\<close>

theorem SaveInventory_refines:
  assumes "queue_ok s" and "persist_ok s" and "\<forall>i it. inv_heap s i = Some it \<longrightarrow> proto (it_entry it)"
  shows "\<exists>s'. SaveInventory proto s = Inr s' \<and> in_sync s' \<and> queue_ok s' \<and> persist_ok s' \<and> inv_slots s' = inv_slots s \<and>
    (\<forall>i. inv_heap s' i = (case inv_heap s i of None \<Rightarrow> None
        | Some it \<Rightarrow> if it_state it = ITEM_REMOVED then None
                    else Some (it\<lparr>it_state := ITEM_UNCHANGED, it_qpos := - 1\<rparr>)))"
proof -
  obtain s' where s': "SaveInventory proto s = Inr s'" "in_sync s'" "queue_ok s'" "persist_ok s'" "inv_slots s' = inv_slots s"
    "inv_heap s' = (\<lambda>i. Option.bind (inv_heap s i) saved_item)"
    using save_in_sync [OF assms] by blast
  then show ?thesis
    by (intro exI [of _ s']) (auto simp: saved_item_def split: option.splits)
qed

definition sample_item :: item where
  "sample_item = \<lparr>it_guid = 7, it_entry = 26001, it_owner = 1, it_contained = 1, it_count = 3, it_slot = 10,
     it_container = None, it_inWorld = False, it_state = ITEM_NEW, it_qpos = 0\<rparr>"

definition sample_inv :: player_inv where
  "sample_inv = \<lparr>inv_guid = 1, inv_inWorld = True, inv_slots = (replicate 145 None)[10 := Some 0],
     inv_heap = [0 \<mapsto> sample_item], inv_next = 1, inv_hiGuid = 7, inv_queue = [Some 0], inv_blocked = False,
     inv_rows = Map.empty, inv_instances = Map.empty\<rparr>"

lemma sample_inv_ok: "queue_ok sample_inv" "persist_ok sample_inv"
  by (simp_all add: sample_inv_def sample_item_def queue_ok_def persist_ok_def guids_ok_def item_persist_def)

theorem SaveInventory_refines_witness:
  "\<exists>s'. SaveInventory (\<lambda>e. e = 26001) sample_inv = Inr s' \<and> in_sync s' \<and>
    inv_heap s' 0 = Some (sample_item\<lparr>it_state := ITEM_UNCHANGED, it_qpos := - 1\<rparr>)"
proof -
  have p: "\<forall>i it. inv_heap sample_inv i = Some it \<longrightarrow> it_entry it = 26001"
    by (simp add: sample_inv_def sample_item_def)
  have h: "inv_heap sample_inv 0 = Some sample_item" "it_state sample_item \<noteq> ITEM_REMOVED"
    by (simp_all add: sample_inv_def sample_item_def)
  obtain s' where s': "SaveInventory (\<lambda>e. e = 26001) sample_inv = Inr s'" "in_sync s'"
    "\<forall>i. inv_heap s' i = (case inv_heap sample_inv i of None \<Rightarrow> None
        | Some it \<Rightarrow> if it_state it = ITEM_REMOVED then None
                    else Some (it\<lparr>it_state := ITEM_UNCHANGED, it_qpos := - 1\<rparr>))"
    using SaveInventory_refines [OF sample_inv_ok, of "\<lambda>e. e = 26001"] p by blast
  then show ?thesis
    using s'(3) [rule_format, of 0] h by auto
qed

end
