(* ===== verification/Inventory.thy ===== *)
theory Inventory
  imports Items
begin

text \<open>
  The inventory of a player (\<open>src/game/Player.cpp\<close>): the 145 slots of \<open>m_items\<close>, finding a place for
  an item, storing it, merging stacks, destroying it. Item prototypes are the argument \<open>idb\<close>.
\<close>

record item_proto =
  ip_ItemId :: u32
  ip_modelid :: u32
  ip_TypeDesc :: string
  ip_InventoryType :: u32
  ip_RequiredLevel :: u32
  ip_EquipmentSlot :: u32
  ip_buyprice :: u32
  ip_sellprice :: u32
  ip_MaxCount :: u32
  ip_Stackable :: u32
  ip_stats :: "(u32 \<times> i32) list"

type_synonym item_db = "u32 \<Rightarrow> item_proto option"

definition NULL_SLOT :: u8 where [simp]: "NULL_SLOT = 255"
definition EQUIPMENT_SLOT_END :: nat where [simp]: "EQUIPMENT_SLOT_END = 6"
definition INVENTORY_SLOT_ITEM_START :: nat where [simp]: "INVENTORY_SLOT_ITEM_START = 10"
definition INVENTORY_SLOT_ITEM_END :: nat where [simp]: "INVENTORY_SLOT_ITEM_END = 35"
definition BANK_SLOT_ITEM_START :: nat where [simp]: "BANK_SLOT_ITEM_START = 70"
definition BANK_SLOT_ITEM_END :: nat where [simp]: "BANK_SLOT_ITEM_END = 120"
definition PLAYER_SLOTS_COUNT :: nat where [simp]: "PLAYER_SLOTS_COUNT = 145"

datatype inventory_change =
  EQUIP_ERR_OK | EQUIP_ERR_CANT_EQUIP_LEVEL_I | EQUIP_ERR_CANT_CARRY_MORE_OF_THIS
| EQUIP_ERR_ITEM_CANT_BE_EQUIPPED | EQUIP_ERR_ITEMS_CANT_BE_SWAPPED | EQUIP_ERR_ITEM_NOT_FOUND
| EQUIP_ERR_INVENTORY_FULL

subsection \<open>Looking into the slots\<close>

definition GetItemByPos :: "nat \<Rightarrow> player_inv \<Rightarrow> iid option res" where
  "GetItemByPos slot s =
     (if slot < length (inv_slots s) then Inr (inv_slots s ! slot) else Inl OutOfBounds)"

definition set_slot :: "nat \<Rightarrow> iid option \<Rightarrow> player_inv \<Rightarrow> player_inv res" where
  "set_slot slot v s =
     (if slot < length (inv_slots s) then Inr (s\<lparr>inv_slots := (inv_slots s)[slot := v]\<rparr>) else Inl OutOfBounds)"

fun count_slots :: "nat list \<Rightarrow> u32 \<Rightarrow> iid option \<Rightarrow> player_inv \<Rightarrow> u32 \<Rightarrow> u32 res" where
  "count_slots [] entry except s acc = Inr acc"
| "count_slots (k # ks) entry except s acc =
     bindR (GetItemByPos k s) (\<lambda>p.
       case p of
         None \<Rightarrow> count_slots ks entry except s acc
       | Some i \<Rightarrow>
           if Some i = except then count_slots ks entry except s acc
           else bindR (get_item i s) (\<lambda>it.
             count_slots ks entry except s (if it_entry it = entry then acc + it_count it else acc)))"

definition GetItemCount :: "u32 \<Rightarrow> iid option \<Rightarrow> player_inv \<Rightarrow> u32 res" where
  "GetItemCount entry except s = count_slots [0..<INVENTORY_SLOT_ITEM_END] entry except s 0"

definition GetBankItemCount :: "u32 \<Rightarrow> iid option \<Rightarrow> player_inv \<Rightarrow> u32 res" where
  "GetBankItemCount entry except s = count_slots [BANK_SLOT_ITEM_START..<BANK_SLOT_ITEM_END] entry except s 0"

fun has_count :: "nat list \<Rightarrow> u32 \<Rightarrow> u32 \<Rightarrow> player_inv \<Rightarrow> u32 \<Rightarrow> bool res" where
  "has_count [] entry count s acc = Inr False"
| "has_count (k # ks) entry count s acc =
     bindR (GetItemByPos k s) (\<lambda>p.
       case p of
         None \<Rightarrow> has_count ks entry count s acc
       | Some i \<Rightarrow>
           bindR (get_item i s) (\<lambda>it.
             if it_entry it = entry
             then if acc + it_count it \<ge> count then Inr True else has_count ks entry count s (acc + it_count it)
             else has_count ks entry count s acc))"

definition HasItemCount :: "u32 \<Rightarrow> u32 \<Rightarrow> player_inv \<Rightarrow> bool res" where
  "HasItemCount entry count s = has_count [0..<INVENTORY_SLOT_ITEM_END] entry count s 0"

definition IsInventoryPos :: "u8 \<Rightarrow> bool" where
  "IsInventoryPos slot \<longleftrightarrow> slot = NULL_SLOT \<or>
     INVENTORY_SLOT_ITEM_START \<le> unat slot \<and> unat slot < INVENTORY_SLOT_ITEM_END"

definition IsEquipmentPos :: "u8 \<Rightarrow> bool" where
  "IsEquipmentPos slot \<longleftrightarrow> unat slot < EQUIPMENT_SLOT_END"

definition IsBankPos :: "u8 \<Rightarrow> bool" where
  "IsBankPos slot \<longleftrightarrow> BANK_SLOT_ITEM_START \<le> unat slot \<and> unat slot < BANK_SLOT_ITEM_END"

subsection \<open>Creating an item\<close>

text \<open>\<open>GenerateLowGuid\<close> counts up before it returns; at \<open>0xFFFFFFFF\<close> the server is told to stop.\<close>

definition clamp_count :: "u32 \<Rightarrow> u32 \<Rightarrow> u32" where
  "clamp_count stackable count =
     (let c = (if count > stackable then stackable else count) in if c < 1 then 1 else c)"

definition CreateItem :: "item_db \<Rightarrow> u32 \<Rightarrow> u32 \<Rightarrow> player_inv \<Rightarrow> iid option \<times> player_inv" where
  "CreateItem idb entry count s =
     (case idb entry of
        None \<Rightarrow> (None, s)
      | Some proto \<Rightarrow>
          let i = inv_next s;
              g = inv_hiGuid s + 1;
              it = \<lparr>it_guid = g, it_entry = entry, it_owner = inv_guid s, it_contained = inv_guid s,
                    it_count = clamp_count (ip_Stackable proto) count, it_slot = 0, it_container = None,
                    it_inWorld = False, it_state = ITEM_NEW, it_qpos = - 1\<rparr>
          in (Some i, put_item i it (s\<lparr>inv_next := i + 1, inv_hiGuid := g\<rparr>)))"

subsection \<open>Finding a place\<close>

definition CanTakeMoreSimilarItems :: "item_db \<Rightarrow> iid \<Rightarrow> player_inv \<Rightarrow> inventory_change res" where
  "CanTakeMoreSimilarItems idb i s =
     bindR (get_item i s) (\<lambda>it.
       case idb (it_entry it) of
         None \<Rightarrow> Inr EQUIP_ERR_CANT_CARRY_MORE_OF_THIS
       | Some proto \<Rightarrow>
           if ip_MaxCount proto = 0 then Inr EQUIP_ERR_OK
           else bindR (GetItemCount (ip_ItemId proto) (Some i) s) (\<lambda>a.
                bindR (GetBankItemCount (ip_ItemId proto) (Some i) s) (\<lambda>b.
                  Inr (if a + b + it_count it > ip_MaxCount proto then EQUIP_ERR_CANT_CARRY_MORE_OF_THIS
                       else EQUIP_ERR_OK))))"

fun find_stack :: "nat list \<Rightarrow> u32 \<Rightarrow> u32 \<Rightarrow> u32 \<Rightarrow> player_inv \<Rightarrow> nat option res" where
  "find_stack [] entry count stackable s = Inr None"
| "find_stack (k # ks) entry count stackable s =
     bindR (GetItemByPos k s) (\<lambda>p.
       case p of
         None \<Rightarrow> find_stack ks entry count stackable s
       | Some j \<Rightarrow>
           bindR (get_item j s) (\<lambda>jt.
             if it_entry jt = entry \<and> it_count jt + count \<le> stackable then Inr (Some k)
             else find_stack ks entry count stackable s))"

fun find_free :: "nat list \<Rightarrow> player_inv \<Rightarrow> nat option res" where
  "find_free [] s = Inr None"
| "find_free (k # ks) s =
     bindR (GetItemByPos k s) (\<lambda>p. if p = None then Inr (Some k) else find_free ks s)"

definition inventory_slots :: "nat list" where
  "inventory_slots = [INVENTORY_SLOT_ITEM_START..<INVENTORY_SLOT_ITEM_END]"

text \<open>The parameter \<open>slot\<close> of \<open>CanStoreItem\<close> is not used. The result is the error and the destination.\<close>

definition CanStoreItem ::
  "item_db \<Rightarrow> iid option \<Rightarrow> bool \<Rightarrow> player_inv \<Rightarrow> (inventory_change \<times> nat) res" where
  "CanStoreItem idb item swap s =
     (let missing = (if \<not> swap then EQUIP_ERR_ITEM_NOT_FOUND else EQUIP_ERR_ITEMS_CANT_BE_SWAPPED)
      in case item of
           None \<Rightarrow> Inr (missing, 0)
         | Some i \<Rightarrow>
             bindR (get_item i s) (\<lambda>it.
               case idb (it_entry it) of
                 None \<Rightarrow> Inr (missing, 0)
               | Some proto \<Rightarrow>
                   bindR (CanTakeMoreSimilarItems idb i s) (\<lambda>r.
                     if r \<noteq> EQUIP_ERR_OK then Inr (r, 0)
                     else bindR (if ip_Stackable proto > 1
                                 then find_stack inventory_slots (it_entry it) (it_count it) (ip_Stackable proto) s
                                 else Inr None) (\<lambda>st.
                       case st of
                         Some k \<Rightarrow> Inr (EQUIP_ERR_OK, k)
                       | None \<Rightarrow>
                           bindR (find_free inventory_slots s) (\<lambda>fr.
                             Inr (case fr of Some k \<Rightarrow> (EQUIP_ERR_OK, k) | None \<Rightarrow> (EQUIP_ERR_INVENTORY_FULL, 0)))))))"

definition CanStoreNewItem ::
  "item_db \<Rightarrow> u32 \<Rightarrow> u32 \<Rightarrow> bool \<Rightarrow> player_inv \<Rightarrow> (inventory_change \<times> nat \<times> player_inv) res" where
  "CanStoreNewItem idb entry count swap s =
     (case CreateItem idb entry count s of
        (None, s1) \<Rightarrow>
          Inr (if \<not> swap then EQUIP_ERR_ITEM_NOT_FOUND else EQUIP_ERR_ITEMS_CANT_BE_SWAPPED, 0, s1)
      | (Some i, s1) \<Rightarrow>
          bindR (CanStoreItem idb (Some i) swap s1) (\<lambda>(r, dest). Inr (r, dest, delete_item i s1)))"

subsection \<open>Storing and destroying\<close>

text \<open>The result is the item that is there afterwards.\<close>

definition StoreItem :: "nat \<Rightarrow> iid option \<Rightarrow> bool \<Rightarrow> player_inv \<Rightarrow> (iid option \<times> player_inv) res" where
  "StoreItem pos item update s =
     (case item of
        None \<Rightarrow> Inr (None, s)
      | Some i \<Rightarrow>
          bindR (GetItemByPos pos s) (\<lambda>p.
            case p of
              None \<Rightarrow>
                bindR (set_slot pos (Some i) s) (\<lambda>s1.
                bindR (upd_item i (\<lambda>it. it\<lparr>it_contained := inv_guid s, it_owner := inv_guid s,
                         it_slot := of_nat pos, it_container := None,
                         it_inWorld := it_inWorld it \<or> inv_inWorld s \<and> update\<rparr>) s1) (\<lambda>s2.
                bindR (SetState i ITEM_CHANGED s2) (\<lambda>s3. Inr (Some i, s3))))
            | Some j \<Rightarrow>
                bindR (get_item i s) (\<lambda>it.
                bindR (upd_item j (\<lambda>jt. jt\<lparr>it_count := it_count jt + it_count it\<rparr>) s) (\<lambda>s1.
                bindR (upd_item i (\<lambda>it. it\<lparr>it_inWorld := it_inWorld it \<and> \<not> (inv_inWorld s \<and> update),
                         it_owner := inv_guid s\<rparr>) s1) (\<lambda>s2.
                bindR (SetState i ITEM_REMOVED s2) (\<lambda>s3.
                bindR (SetState j ITEM_CHANGED s3) (\<lambda>s4. Inr (Some j, s4))))))))"

definition StoreNewItem ::
  "item_db \<Rightarrow> nat \<Rightarrow> u32 \<Rightarrow> u32 \<Rightarrow> bool \<Rightarrow> player_inv \<Rightarrow> (iid option \<times> player_inv) res" where
  "StoreNewItem idb pos entry count update s =
     (case CreateItem idb entry count s of
        (None, s1) \<Rightarrow> Inr (None, s1)
      | (Some i, s1) \<Rightarrow> StoreItem pos (Some i) update s1)"

definition add_new_item :: "item_db \<Rightarrow> u32 \<Rightarrow> u32 \<Rightarrow> player_inv \<Rightarrow> (bool \<times> player_inv) res" where
  "add_new_item idb entry count s =
     bindR (CanStoreNewItem idb entry count False s) (\<lambda>(r, dest, s1).
       if r = EQUIP_ERR_OK
       then bindR (StoreNewItem idb dest entry count False s1) (\<lambda>(i, s2). Inr (True, s2))
       else Inr (False, s1))"

definition DestroyItem :: "nat \<Rightarrow> player_inv \<Rightarrow> player_inv res" where
  "DestroyItem slot s =
     bindR (GetItemByPos slot s) (\<lambda>p.
       case p of
         None \<Rightarrow> Inr s
       | Some i \<Rightarrow>
           bindR (set_slot slot None s) (\<lambda>s1.
           bindR (upd_item i (\<lambda>it. it\<lparr>it_contained := 0, it_slot := NULL_SLOT\<rparr>) s1)
             (SetState i ITEM_REMOVED)))"

subsection \<open>The entry of a model\<close>

text \<open>
  \<open>ObjectMgr::GetItemEntryByModelId\<close> asks the database once and remembers the answer. The map it
  keeps is searched by model, filled with the entry as the key, and a hit returns the key.
\<close>

definition GetItemEntryByModelId ::
  "(u32 \<Rightarrow> u32 option) \<Rightarrow> u32 \<Rightarrow> (u32 \<Rightarrow> u32 option) \<Rightarrow> u32 \<times> (u32 \<Rightarrow> u32 option)" where
  "GetItemEntryByModelId query modelid cache =
     (case cache modelid of
        Some _ \<Rightarrow> (modelid, cache)
      | None \<Rightarrow>
          (case query modelid of
             None \<Rightarrow> (0, cache)
           | Some entry \<Rightarrow>
               (entry, if cache entry = None then cache(entry \<mapsto> modelid) else cache)))"

definition AddNewInventoryItem ::
  "item_db \<Rightarrow> (u32 \<Rightarrow> u32 option) \<Rightarrow> u32 \<Rightarrow> u32 \<Rightarrow> (u32 \<Rightarrow> u32 option) \<times> player_inv \<Rightarrow>
   (bool \<times> (u32 \<Rightarrow> u32 option) \<times> player_inv) res" where
  "AddNewInventoryItem idb query modelid count = (\<lambda>(cache, s).
     case GetItemEntryByModelId query modelid cache of
       (entry, cache') \<Rightarrow>
         bindR (add_new_item idb entry count s) (\<lambda>(ok, s'). Inr (ok, cache', s')))"

end
