(* ===== verification/InventoryRefinement.thy ===== *)
theory InventoryRefinement
  imports Inventory
begin

text \<open>
  What the inventory promises: an abstract bag that maps slots to an entry and a count, the adding and
  destroying of items on it, and the refinement by the operations on slots, heap, update queue and
  tables. \<open>inv_ok\<close> is the invariant: queue and tables consistent, every occupant alive and knowing
  its slot, every live item that is not removed in a slot, numbers and guids below their counters.
\<close>

type_synonym bag = "nat \<Rightarrow> (u32 \<times> u32) option"

definition item_in :: "player_inv \<Rightarrow> nat \<Rightarrow> item option" where
  "item_in s k = (if k < length (inv_slots s) then Option.bind (inv_slots s ! k) (inv_heap s) else None)"

definition abs_bag :: "player_inv \<Rightarrow> bag" where
  "abs_bag s k = map_option (\<lambda>it. (it_entry it, it_count it)) (item_in s k)"

definition bag_total :: "u32 \<Rightarrow> bag \<Rightarrow> nat list \<Rightarrow> u32" where
  "bag_total entry b ks =
     sum_list (map (\<lambda>k. case b k of Some (e, n) \<Rightarrow> if e = entry then n else 0 | None \<Rightarrow> 0) ks)"

definition bag_place :: "item_proto \<Rightarrow> u32 \<Rightarrow> u32 \<Rightarrow> bag \<Rightarrow> inventory_change \<times> nat" where
  "bag_place p entry count b =
     (if ip_MaxCount p \<noteq> 0 \<and>
         bag_total (ip_ItemId p) b [0..<35] + bag_total (ip_ItemId p) b [70..<120] + count > ip_MaxCount p
      then (EQUIP_ERR_CANT_CARRY_MORE_OF_THIS, 0)
      else case (if ip_Stackable p > 1
                 then find (\<lambda>k. case b k of Some (e, n) \<Rightarrow> e = entry \<and> n + count \<le> ip_Stackable p | None \<Rightarrow> False) [10..<35]
                 else None) of
             Some k \<Rightarrow> (EQUIP_ERR_OK, k)
           | None \<Rightarrow> (case find (\<lambda>k. b k = None) [10..<35] of
                        Some k \<Rightarrow> (EQUIP_ERR_OK, k) | None \<Rightarrow> (EQUIP_ERR_INVENTORY_FULL, 0)))"

definition bag_add :: "item_db \<Rightarrow> u32 \<Rightarrow> u32 \<Rightarrow> bag \<Rightarrow> bool \<times> bag" where
  "bag_add idb entry count b =
     (case idb entry of
        None \<Rightarrow> (False, b)
      | Some p \<Rightarrow>
          let c = clamp_count (ip_Stackable p) count
          in case bag_place p entry c b of
               (EQUIP_ERR_OK, k) \<Rightarrow>
                 (True, b(k \<mapsto> (case b k of None \<Rightarrow> (entry, c) | Some (e, n) \<Rightarrow> (e, n + c))))
             | _ \<Rightarrow> (False, b))"

definition slots_ok :: "player_inv \<Rightarrow> bool" where
  "slots_ok s \<longleftrightarrow> length (inv_slots s) = PLAYER_SLOTS_COUNT \<and>
     (\<forall>k i. k < PLAYER_SLOTS_COUNT \<and> inv_slots s ! k = Some i \<longrightarrow>
        (\<exists>it. inv_heap s i = Some it \<and> unat (it_slot it) = k \<and> it_owner it = inv_guid s \<and>
              it_container it = None \<and> it_state it \<noteq> ITEM_REMOVED))"

definition placed_ok :: "player_inv \<Rightarrow> bool" where
  "placed_ok s \<longleftrightarrow> (\<forall>i it. inv_heap s i = Some it \<and> it_state it \<noteq> ITEM_REMOVED \<longrightarrow>
     (\<exists>k < PLAYER_SLOTS_COUNT. inv_slots s ! k = Some i))"

definition fresh_ok :: "player_inv \<Rightarrow> bool" where
  "fresh_ok s \<longleftrightarrow> (\<forall>i it. inv_heap s i = Some it \<longrightarrow> i < inv_next s \<and> it_guid it \<le> inv_hiGuid s)"

definition known_ok :: "item_db \<Rightarrow> player_inv \<Rightarrow> bool" where
  "known_ok idb s \<longleftrightarrow> (\<forall>i it. inv_heap s i = Some it \<longrightarrow> idb (it_entry it) \<noteq> None)"

definition inv_ok :: "item_db \<Rightarrow> player_inv \<Rightarrow> bool" where
  "inv_ok idb s \<longleftrightarrow> queue_ok s \<and> persist_ok s \<and> slots_ok s \<and> placed_ok s \<and> fresh_ok s \<and> known_ok idb s"

subsection \<open>Looking up\<close>

lemma slots_okD:
  assumes "slots_ok s" and "k < 145" and "inv_slots s ! k = Some i"
  obtains it where "inv_heap s i = Some it" "unat (it_slot it) = k" "it_owner it = inv_guid s"
    "it_container it = None" "it_state it \<noteq> ITEM_REMOVED"
  using assms unfolding slots_ok_def by auto

definition sits :: "player_inv \<Rightarrow> nat \<Rightarrow> item \<Rightarrow> bool" where
  "sits s k it \<longleftrightarrow> unat (it_slot it) = k \<and> it_owner it = inv_guid s \<and> it_container it = None \<and> it_state it \<noteq> ITEM_REMOVED"

lemma slots_okI:
  assumes "length (inv_slots s) = 145"
    and "\<And>k i. k < 145 \<Longrightarrow> inv_slots s ! k = Some i \<Longrightarrow> \<exists>it. inv_heap s i = Some it \<and> sits s k it"
  shows "slots_ok s"
  using assms unfolding slots_ok_def sits_def by simp

lemma slots_ok_sits:
  assumes "slots_ok s" and "k < 145" and "inv_slots s ! k = Some i"
  shows "\<exists>it. inv_heap s i = Some it \<and> sits s k it"
  using assms unfolding slots_ok_def sits_def by simp

lemma slots_ok_length: "slots_ok s \<Longrightarrow> length (inv_slots s) = 145"
  by (simp add: slots_ok_def)

lemma slots_inj:
  assumes "slots_ok s" and "k < 145" and "l < 145" and "inv_slots s ! k = Some i" and "inv_slots s ! l = Some i"
  shows "k = l"
  using slots_okD [OF assms(1,2,4)] slots_okD [OF assms(1,3,5)] by (metis option.inject)

text \<open>Every occupant of these slots is a live item.\<close>

definition live_slots :: "nat list \<Rightarrow> player_inv \<Rightarrow> bool" where
  "live_slots ks s \<longleftrightarrow> (\<forall>k \<in> set ks. k < length (inv_slots s) \<and>
     (\<forall>i. inv_slots s ! k = Some i \<longrightarrow> inv_heap s i \<noteq> None))"

lemma live_slots_simps [simp]:
  "live_slots [] s"
  "live_slots (k # ks) s \<longleftrightarrow> k < length (inv_slots s) \<and>
     (\<forall>i. inv_slots s ! k = Some i \<longrightarrow> inv_heap s i \<noteq> None) \<and> live_slots ks s"
  by (auto simp: live_slots_def)

lemma live_slotsI: "slots_ok s \<Longrightarrow> set ks \<subseteq> {..<145} \<Longrightarrow> live_slots ks s"
  unfolding live_slots_def slots_ok_def by fastforce

lemma count_slots_eq:
  assumes "live_slots ks s" and "\<forall>k \<in> set ks. inv_slots s ! k \<noteq> except \<or> except = None"
  shows "count_slots ks entry except s acc = Inr (acc + bag_total entry (abs_bag s) ks)"
  using assms
proof (induction ks arbitrary: acc)
  case Nil
  then show ?case by (simp add: bag_total_def)
next
  case (Cons k ks)
  then show ?case
    by (cases "inv_slots s ! k")
      (auto simp: GetItemByPos_def get_item_def bag_total_def abs_bag_def item_in_def add.assoc)
qed

lemma find_stack_eq:
  assumes "live_slots ks s"
  shows "find_stack ks entry count stackable s = Inr (find (\<lambda>k.
    case abs_bag s k of Some (e, n) \<Rightarrow> e = entry \<and> n + count \<le> stackable | None \<Rightarrow> False) ks)"
  using assms
  by (induction ks) (auto simp: GetItemByPos_def get_item_def abs_bag_def item_in_def split: option.splits)

lemma find_free_eq:
  assumes "live_slots ks s"
  shows "find_free ks s = Inr (find (\<lambda>k. abs_bag s k = None) ks)"
  using assms
  by (induction ks) (auto simp: GetItemByPos_def abs_bag_def item_in_def split: option.splits)

lemma abs_bag_None: "slots_ok s \<Longrightarrow> k < 145 \<Longrightarrow> abs_bag s k = None \<longleftrightarrow> inv_slots s ! k = None"
  unfolding slots_ok_def abs_bag_def item_in_def by (cases "inv_slots s ! k") fastforce+

lemma abs_bag_Some:
  "slots_ok s \<Longrightarrow> k < 145 \<Longrightarrow> inv_slots s ! k = Some i \<Longrightarrow> inv_heap s i = Some it \<Longrightarrow>
   abs_bag s k = Some (it_entry it, it_count it)"
  by (simp add: slots_ok_def abs_bag_def item_in_def)

lemma CanStoreItem_eq:
  assumes "live_slots [0..<145] s" and "\<forall>k < 145. inv_slots s ! k \<noteq> Some i"
    and "inv_heap s i = Some it" and "idb (it_entry it) = Some p"
  shows "CanStoreItem idb (Some i) swap s = Inr (bag_place p (it_entry it) (it_count it) (abs_bag s))"
proof -
  have live: "live_slots ks s" if "set ks \<subseteq> {..<145}" for ks
    using assms(1) that by (auto simp: live_slots_def)
  have sub: "set [0..<35] \<subseteq> {..<145}" "set [70..<120] \<subseteq> {..<145}" "set [10..<35] \<subseteq> {..<145}"
    by auto
  note c = count_slots_eq [OF live [OF sub(1)], where except = "Some i"] count_slots_eq [OF live [OF sub(2)], where except = "Some i"]
  have "CanTakeMoreSimilarItems idb i s = Inr (if ip_MaxCount p \<noteq> 0 \<and>
      bag_total (ip_ItemId p) (abs_bag s) [0..<35] + bag_total (ip_ItemId p) (abs_bag s) [70..<120] + it_count it > ip_MaxCount p
    then EQUIP_ERR_CANT_CARRY_MORE_OF_THIS else EQUIP_ERR_OK)"
    using assms(2-4) c [of "ip_ItemId p" 0]
    by (simp add: CanTakeMoreSimilarItems_def get_item_def GetItemCount_def GetBankItemCount_def
        del: upt_Suc upt_rec_numeral)
  then show ?thesis
    using assms(3,4)
    by (auto simp: CanStoreItem_def get_item_def bag_place_def inventory_slots_def find_stack_eq [OF live [OF sub(3)]]
        find_free_eq [OF live [OF sub(3)]]
        simp del: upt_Suc upt_rec_numeral split: option.splits)
qed


subsection \<open>Keeping the queue, the tables and the slots\<close>

lemma queue_ok_frame:
  assumes "queue_ok s" and "inv_queue t = inv_queue s" and "inv_guid t = inv_guid s" and "inv_blocked t = inv_blocked s"
    and "\<And>i it. inv_heap s i = Some it \<Longrightarrow> \<exists>it'. inv_heap t i = Some it' \<and> it_qpos it' = it_qpos it"
    and "\<And>i it'. inv_heap t i = Some it' \<Longrightarrow> it_qpos it' \<noteq> - 1 \<Longrightarrow>
      \<exists>it. inv_heap s i = Some it \<and> it_qpos it = it_qpos it' \<and> it_owner it = it_owner it'"
  shows "queue_ok t"
proof (rule queue_okI)
  fix j i
  assume "j < length (inv_queue t)" "inv_queue t ! j = Some i"
  then obtain it where "inv_heap s i = Some it" "it_qpos it = int j"
    using queue_ok_entry [OF assms(1), of j i] assms(2) by auto
  then show "\<exists>it. inv_heap t i = Some it \<and> it_qpos it = int j"
    using assms(5) by fastforce
next
  fix i it'
  assume i: "inv_heap t i = Some it'" "it_qpos it' \<noteq> - 1"
  obtain it where it: "inv_heap s i = Some it" "it_qpos it = it_qpos it'" "it_owner it = it_owner it'"
    using assms(6) [OF i] by blast
  then show "\<exists>j < length (inv_queue t). it_qpos it' = int j \<and> inv_queue t ! j = Some i \<and> it_owner it' = inv_guid t"
    using queue_okD [OF assms(1) it(1)] i(2) assms(2,3) by simp
qed (use assms(1-4) in \<open>simp_all add: queue_ok_def\<close>)

lemma queue_ok_upd:
  assumes "queue_ok s" and "inv_queue t = inv_queue s" and "inv_guid t = inv_guid s" and "inv_blocked t = inv_blocked s"
    and "inv_heap t = (inv_heap s)(i \<mapsto> it')"
    and "(inv_heap s i = None \<and> it_qpos it' = - 1) \<or> (\<exists>it. inv_heap s i = Some it \<and> it_qpos it = it_qpos it' \<and> it_owner it = it_owner it')"
  shows "queue_ok t"
  by (rule queue_ok_frame [OF assms(1-4)]) (use assms(5,6) in \<open>auto split: if_splits\<close>)

lemma persist_ok_frame:
  assumes "persist_ok s" and "inv_guid t = inv_guid s" and "inv_rows t = inv_rows s" and "inv_instances t = inv_instances s"
    and "guids_ok t" and "\<And>i it. inv_heap t i = Some it \<Longrightarrow> inv_heap s i = Some it \<or> item_persist t it"
    and "\<And>i it. inv_heap s i = Some it \<Longrightarrow> it_state it \<noteq> ITEM_NEW \<Longrightarrow>
      \<exists>j jt. inv_heap t j = Some jt \<and> it_guid jt = it_guid it \<and> it_state jt \<noteq> ITEM_NEW"
  shows "persist_ok t"
proof -
  have same: "item_persist t it = item_persist s it" for it
    using assms(2-4) by (simp add: item_persist_def rows_for_def inv_row_of_def)
  have "item_persist t it" if "inv_heap t i = Some it" for i it
    using assms(1) assms(6) [OF that] same unfolding persist_ok_def by blast
  moreover have "\<exists>i it. inv_heap t i = Some it \<and> it_guid it = g \<and> it_state it \<noteq> ITEM_NEW"
    if row: "inv_rows t g \<noteq> None \<or> inv_instances t g \<noteq> None" for g
  proof -
    obtain i it where "inv_heap s i = Some it" "it_guid it = g" "it_state it \<noteq> ITEM_NEW"
      using assms(1) row unfolding assms(3,4) persist_ok_def by blast
    then show ?thesis
      using assms(7) by metis
  qed
  ultimately show ?thesis
    using assms(5) unfolding persist_ok_def by blast
qed

lemma persist_okD: "persist_ok s \<Longrightarrow> inv_heap s i = Some it \<Longrightarrow> item_persist s it"
  unfolding persist_ok_def by blast

lemma persist_ok_change:
  assumes "persist_ok s" and "inv_heap s i = Some it" and "inv_heap t = (inv_heap s)(i \<mapsto> it')"
    and "inv_guid t = inv_guid s" and "inv_rows t = inv_rows s" and "inv_instances t = inv_instances s"
    and "it_guid it' = it_guid it" and "it_state it' = next_state st it" and "it_state it \<noteq> ITEM_REMOVED"
    and "st = ITEM_CHANGED \<or> st = ITEM_REMOVED" and "it_qpos it' \<noteq> - 1"
  shows "persist_ok t"
proof (rule persist_ok_frame [OF assms(1,4,5,6)])
  have g: "it_guid (if k = i then it' else x) = it_guid x" if "inv_heap s k = Some x" for k x
    using that assms(2,7) by auto
  show "guids_ok t"
    using assms(1) unfolding persist_ok_def guids_ok_def assms(3) by (metis assms(2,7) fun_upd_apply option.inject)
  have p: "item_persist s it" by (rule persist_okD [OF assms(1,2)])
  show "inv_heap s k = Some x \<or> item_persist t x" if "inv_heap t k = Some x" for k x
    using that assms(3) p assms(5-11)
    by (cases "k = i"; cases "it_state it") (auto simp: item_persist_def rows_for_def next_state_def)
  show "\<exists>j jt. inv_heap t j = Some jt \<and> it_guid jt = it_guid x \<and> it_state jt \<noteq> ITEM_NEW"
    if "inv_heap s k = Some x" "it_state x \<noteq> ITEM_NEW" for k x
    using that assms(2,3,7-11) by (intro exI [of _ k]) (auto simp: next_state_def)
qed

lemma persist_ok_drop_new:
  assumes "persist_ok s" and "inv_heap s i = Some it" and "it_state it = ITEM_NEW" and "inv_heap t = (inv_heap s)(i := None)"
    and "inv_guid t = inv_guid s" and "inv_rows t = inv_rows s" and "inv_instances t = inv_instances s"
  shows "persist_ok t"
proof (rule persist_ok_frame [OF assms(1,5,6,7)])
  show "guids_ok t"
    using assms(1) unfolding persist_ok_def guids_ok_def assms(4) by (auto split: if_splits)
  show "\<exists>j jt. inv_heap t j = Some jt \<and> it_guid jt = it_guid x \<and> it_state jt \<noteq> ITEM_NEW"
    if "inv_heap s k = Some x" "it_state x \<noteq> ITEM_NEW" for k x
    using that assms(2-4) by (intro exI [of _ k]) auto
qed (use assms(4) in \<open>auto split: if_splits\<close>)

lemma persist_ok_add_new:
  assumes "persist_ok s" and "inv_heap s i = None" and "inv_heap t = (inv_heap s)(i \<mapsto> it)"
    and "inv_guid t = inv_guid s" and "inv_rows t = inv_rows s" and "inv_instances t = inv_instances s"
    and "it_state it = ITEM_NEW" and "it_qpos it \<noteq> - 1" and "\<And>j x. inv_heap s j = Some x \<Longrightarrow> it_guid x \<noteq> it_guid it"
  shows "persist_ok t"
proof (rule persist_ok_frame [OF assms(1,4,5,6)])
  show "guids_ok t"
    using assms(1,9) unfolding persist_ok_def guids_ok_def assms(3) by (auto split: if_splits) metis+
  show "\<exists>j jt. inv_heap t j = Some jt \<and> it_guid jt = it_guid x \<and> it_state jt \<noteq> ITEM_NEW"
    if "inv_heap s k = Some x" "it_state x \<noteq> ITEM_NEW" for k x
    using that assms(2,3) by (intro exI [of _ k]) auto
qed (use assms(3,7,8) in \<open>auto simp: item_persist_def split: if_splits\<close>)

subsection \<open>Adding\<close>

definition new_item :: "u64 \<Rightarrow> u32 \<Rightarrow> u32 \<Rightarrow> u32 \<Rightarrow> item" where
  "new_item owner g entry count =
     \<lparr>it_guid = g, it_entry = entry, it_owner = owner, it_contained = owner, it_count = count, it_slot = 0,
      it_container = None, it_inWorld = False, it_state = ITEM_NEW, it_qpos = - 1\<rparr>"

text \<open>The counters after an item was made, and after it was made only to be asked about.\<close>

definition counted :: "player_inv \<Rightarrow> player_inv" where
  "counted s = s\<lparr>inv_next := inv_next s + 1, inv_hiGuid := inv_hiGuid s + 1\<rparr>"

lemma CreateItem_Some:
  "idb entry = Some p \<Longrightarrow> CreateItem idb entry count s =
     (Some (inv_next s), put_item (inv_next s)
        (new_item (inv_guid s) (inv_hiGuid s + 1) entry (clamp_count (ip_Stackable p) count)) (counted s))"
  by (simp add: CreateItem_def new_item_def counted_def Let_def)

lemma counted_sel [simp]:
  "inv_guid (counted s) = inv_guid s" "inv_slots (counted s) = inv_slots s" "inv_heap (counted s) = inv_heap s"
  "inv_queue (counted s) = inv_queue s" "inv_blocked (counted s) = inv_blocked s" "inv_rows (counted s) = inv_rows s"
  "inv_instances (counted s) = inv_instances s" "inv_inWorld (counted s) = inv_inWorld s"
  "inv_next (counted s) = Suc (inv_next s)" "inv_hiGuid (counted s) = inv_hiGuid s + 1"
  by (simp_all add: counted_def)

lemma fresh_None: "fresh_ok s \<Longrightarrow> inv_next s \<le> i \<Longrightarrow> inv_heap s i = None"
  unfolding fresh_ok_def by (meson leD option.exhaust)

lemma abs_bag_cong:
  "inv_slots t = inv_slots s \<Longrightarrow> (\<And>k i. k < length (inv_slots s) \<Longrightarrow> inv_slots s ! k = Some i \<Longrightarrow> inv_heap t i = inv_heap s i) \<Longrightarrow>
   abs_bag t = abs_bag s"
  by (rule ext) (simp add: abs_bag_def item_in_def bind_eq_None_conv split: option.splits Option.bind_split)

lemma CanStoreNewItem_eq:
  assumes "slots_ok s" and "fresh_ok s" and "idb entry = Some p"
  shows "CanStoreNewItem idb entry count swap s =
    (case bag_place p entry (clamp_count (ip_Stackable p) count) (abs_bag s) of (r, dest) \<Rightarrow> Inr (r, dest, counted s))"
proof -
  let ?i = "inv_next s"
  let ?it = "new_item (inv_guid s) (inv_hiGuid s + 1) entry (clamp_count (ip_Stackable p) count)"
  let ?s = "put_item ?i ?it (counted s)"
  have none: "inv_heap s ?i = None" by (rule fresh_None [OF assms(2)]) simp
  have not_in: "\<forall>k < 145. inv_slots ?s ! k \<noteq> Some ?i"
    using assms(1) none unfolding slots_ok_def by (fastforce simp: put_item_def)
  have live: "live_slots [0..<145] ?s"
  proof -
    have "live_slots [0..<145] s" by (rule live_slotsI [OF assms(1)]) auto
    then show ?thesis unfolding live_slots_def by (auto simp: put_item_def)
  qed
  have "abs_bag ?s = abs_bag s"
    by (rule abs_bag_cong) (use assms(1) not_in slots_ok_length in \<open>auto simp: put_item_def\<close>)
  moreover have "inv_heap ?s ?i = Some ?it" "idb (it_entry ?it) = Some p"
    using assms(3) by (simp_all add: put_item_def new_item_def)
  moreover have "delete_item ?i ?s = counted s"
    using none by (simp add: delete_item_def put_item_def counted_def fun_upd_idem)
  ultimately show ?thesis
    using CanStoreItem_eq [OF live not_in, of ?it idb p swap]
    by (simp add: CanStoreNewItem_def CreateItem_Some [where idb = idb and entry = entry and p = p, OF assms(3)] new_item_def split: prod.splits)
qed

lemma bag_place_OK:
  assumes "bag_place p entry c b = (EQUIP_ERR_OK, k)"
  shows "10 \<le> k \<and> k < 35 \<and> (b k = None \<or> (\<exists>n. b k = Some (entry, n) \<and> n + c \<le> ip_Stackable p))"
proof (cases "(if ip_Stackable p > 1
    then find (\<lambda>k. case b k of Some (e, n) \<Rightarrow> e = entry \<and> n + c \<le> ip_Stackable p | None \<Rightarrow> False) [10..<35] else None)")
  case None
  then have "find (\<lambda>k. b k = None) [10..<35] = Some k"
    using assms by (simp add: bag_place_def del: upt_Suc upt_rec_numeral split: if_splits option.splits)
  then show ?thesis
    by (auto simp: find_Some_iff simp del: upt_Suc upt_rec_numeral)
next
  case (Some l)
  then have "find (\<lambda>k. case b k of Some (e, n) \<Rightarrow> e = entry \<and> n + c \<le> ip_Stackable p | None \<Rightarrow> False) [10..<35] = Some k"
    using assms by (simp add: bag_place_def del: upt_Suc upt_rec_numeral split: if_splits)
  then obtain m where "m < 25" "k = 10 + m" "case b k of Some (e, n) \<Rightarrow> e = entry \<and> n + c \<le> ip_Stackable p | None \<Rightarrow> False"
    by (auto simp: find_Some_iff simp del: upt_Suc upt_rec_numeral)
  then show ?thesis
    by (auto split: option.splits)
qed

text \<open>What changing one item of the heap, and possibly its slot, leaves of the invariant.\<close>

lemma inv_okI:
  assumes "queue_ok s" and "persist_ok s" and "slots_ok s" and "placed_ok s" and "fresh_ok s" and "known_ok idb s"
  shows "inv_ok idb s"
  using assms by (simp add: inv_ok_def)

lemma inv_okD:
  assumes "inv_ok idb s"
  shows "queue_ok s" "persist_ok s" "slots_ok s" "placed_ok s" "fresh_ok s" "known_ok idb s"
  using assms by (simp_all add: inv_ok_def)

lemma inv_ok_counted:
  assumes "inv_ok idb s" and "unat (inv_hiGuid s) + 1 < 2 ^ 32"
  shows "inv_ok idb (counted s)"
proof (rule inv_okI)
  show "queue_ok (counted s)"
    by (rule queue_ok_frame [OF inv_okD(1) [OF assms(1)]]) auto
  show "persist_ok (counted s)"
    by (rule persist_ok_frame [OF inv_okD(2) [OF assms(1)]])
       (use inv_okD(2) [OF assms(1)] in \<open>auto simp: persist_ok_def guids_ok_def\<close>)
  have "inv_hiGuid s \<le> inv_hiGuid s + 1"
    using assms(2) by (simp add: word_le_nat_alt unat_word_ariths)
  then show "fresh_ok (counted s)"
    using inv_okD(5) [OF assms(1)] unfolding fresh_ok_def by (fastforce intro: less_SucI order_trans)
qed (use inv_okD [OF assms(1)] in \<open>simp_all add: slots_ok_def placed_ok_def known_ok_def\<close>)

lemma store_empty:
  assumes u: "inv_ok idb u" and i: "inv_heap u i = None" "i < inv_next u"
    and g: "\<And>j x. inv_heap u j = Some x \<Longrightarrow> it_guid x \<noteq> g" "g \<le> inv_hiGuid u"
    and e: "idb entry \<noteq> None" and k: "k < 145" "inv_slots u ! k = None" and room: "length (inv_queue u) < 32767"
  shows "\<exists>t. StoreItem k (Some i) False (put_item i (new_item (inv_guid u) g entry c) u) = Inr (Some i, t) \<and> inv_ok idb t \<and>
    abs_bag t = (abs_bag u)(k \<mapsto> (entry, c)) \<and> length (inv_queue t) \<le> Suc (length (inv_queue u)) \<and>
    inv_hiGuid t = inv_hiGuid u \<and> inv_guid t = inv_guid u"
proof -
  note ok = inv_okD [OF u]
  have len: "length (inv_slots u) = 145" by (rule slots_ok_length [OF ok(3)])
  define it where "it = (new_item (inv_guid u) g entry c)\<lparr>it_slot := of_nat k\<rparr>"
  define s2 where "s2 = put_item i it (u\<lparr>inv_slots := (inv_slots u)[k := Some i]\<rparr>)"
  have it: "it_state it = ITEM_NEW" "it_owner it = inv_guid s2" "it_guid it = g" "it_entry it = entry" "it_count it = c"
    "it_qpos it = - 1" "unat (it_slot it) = k" "it_container it = None"
    using k(1) by (simp_all add: it_def new_item_def s2_def put_item_def unat_of_nat_small)
  have s2: "inv_heap s2 = (inv_heap u)(i \<mapsto> it)" "inv_slots s2 = (inv_slots u)[k := Some i]" "inv_queue s2 = inv_queue u"
    "inv_guid s2 = inv_guid u" "inv_blocked s2 = inv_blocked u" "inv_rows s2 = inv_rows u" "inv_instances s2 = inv_instances u"
    "inv_next s2 = inv_next u" "inv_hiGuid s2 = inv_hiGuid u"
    by (simp_all add: s2_def put_item_def)
  have q: "queue_ok s2"
    by (rule queue_ok_upd [OF ok(1) s2(3-5,1)]) (use i(1) it(6) in simp)
  obtain t p where t: "SetState i ITEM_CHANGED s2 = Inr t" "queue_ok t" "p \<noteq> - 1"
    "inv_heap t = (inv_heap s2)(i \<mapsto> it\<lparr>it_state := next_state ITEM_CHANGED it, it_qpos := p\<rparr>)" "same_rest s2 t"
    "length (inv_queue t) \<le> Suc (length (inv_queue s2))"
    using SetState_change_ok [OF q, of i it ITEM_CHANGED] it(2) s2(1,3) room by auto
  define it' where "it' = it\<lparr>it_qpos := p\<rparr>"
  have heap: "inv_heap t = (inv_heap u)(i \<mapsto> it')"
    unfolding t(4) s2(1) it'_def by (simp add: next_state_def it_def new_item_def)
  have it': "it_state it' = ITEM_NEW" "it_qpos it' \<noteq> - 1" "it_guid it' = g" "it_entry it' = entry" "it_count it' = c"
    "unat (it_slot it') = k" "it_container it' = None" "it_owner it' = inv_guid t"
    using it t(3,5) by (simp_all add: it'_def same_rest_def)
  have rest: "inv_guid t = inv_guid u" "inv_slots t = (inv_slots u)[k := Some i]" "inv_rows t = inv_rows u"
    "inv_instances t = inv_instances u" "inv_next t = inv_next u" "inv_hiGuid t = inv_hiGuid u"
    using t(5) s2 by (simp_all add: same_rest_def)
  have run: "StoreItem k (Some i) False (put_item i (new_item (inv_guid u) g entry c) u) = Inr (Some i, t)"
    using t(1) k len
    by (simp add: StoreItem_def GetItemByPos_def set_slot_def upd_item_def get_item_def put_item_def new_item_def s2_def it_def)
  have nin: "inv_slots u ! l \<noteq> Some i" if "l < 145" for l
    using slots_ok_sits [OF ok(3) that, of i] i(1) by auto
  have "slots_ok t"
  proof (rule slots_okI)
    fix l x
    assume l: "l < 145" "inv_slots t ! l = Some x"
    show "\<exists>y. inv_heap t x = Some y \<and> sits t l y"
    proof (cases "l = k")
      case True
      then have "x = i" using l k(1) len by (simp add: rest)
      then show ?thesis using True it' by (simp add: heap sits_def)
    next
      case False
      then have x: "inv_slots u ! l = Some x" using l len by (simp add: rest)
      then have "x \<noteq> i" using nin [OF l(1)] by auto
      then show ?thesis
        using slots_ok_sits [OF ok(3) l(1) x] by (simp add: heap sits_def rest)
    qed
  qed (use len in \<open>simp add: rest\<close>)
  moreover have "placed_ok t"
    using ok(4) len k unfolding placed_ok_def rest heap by (auto simp: nth_list_update) (metis option.distinct(1))
  moreover have "fresh_ok t"
    using ok(5) i(2) g(2) it'(3) unfolding fresh_ok_def rest heap by auto
  moreover have "known_ok idb t"
    using ok(6) e it'(4) unfolding known_ok_def heap by auto
  moreover have "persist_ok t"
    by (rule persist_ok_add_new [OF ok(2) i(1) heap rest(1,3,4) it'(1,2)]) (use g(1) it'(3) in simp)
  ultimately have "inv_ok idb t"
    using t(2) by (intro inv_okI)
  moreover have "abs_bag t = (abs_bag u)(k \<mapsto> (entry, c))"
  proof
    fix l
    show "abs_bag t l = ((abs_bag u)(k \<mapsto> (entry, c))) l"
      using nin [of l] k(1) len it'(4,5)
      by (cases "inv_slots u ! l") (auto simp: abs_bag_def item_in_def rest heap nth_list_update)
  qed
  ultimately show ?thesis
    using run t(6) s2(3) rest by auto
qed

text \<open>An item that is already there changes count and is queued.\<close>

lemma inv_ok_change:
  assumes u: "inv_ok idb u" and k: "k < 145" "inv_slots u ! k = Some j" and j: "inv_heap u j = Some jt"
    and q: "queue_ok t" and heap: "inv_heap t = (inv_heap u)(j \<mapsto> jt')"
    and jt': "it_guid jt' = it_guid jt" "it_entry jt' = it_entry jt" "it_slot jt' = it_slot jt" "it_owner jt' = it_owner jt"
      "it_container jt' = it_container jt" "it_state jt' = next_state ITEM_CHANGED jt" "it_qpos jt' \<noteq> - 1"
    and rest: "inv_guid t = inv_guid u" "inv_slots t = inv_slots u" "inv_rows t = inv_rows u"
      "inv_instances t = inv_instances u" "inv_next t = inv_next u" "inv_hiGuid t = inv_hiGuid u"
  shows "inv_ok idb t \<and> abs_bag t = (abs_bag u)(k \<mapsto> (it_entry jt, it_count jt'))"
proof -
  note ok = inv_okD [OF u]
  have len: "length (inv_slots u) = 145" by (rule slots_ok_length [OF ok(3)])
  have r: "it_state jt \<noteq> ITEM_REMOVED"
    using slots_ok_sits [OF ok(3) k] j by (simp add: sits_def)
  have live: "it_state jt' \<noteq> ITEM_REMOVED"
    using r jt'(6) by (simp add: next_state_def)
  have "slots_ok t"
  proof (rule slots_okI)
    fix l x
    assume l: "l < 145" "inv_slots t ! l = Some x"
    then obtain y where y: "inv_heap u x = Some y" "sits u l y"
      using slots_ok_sits [OF ok(3), of l x] by (auto simp: rest)
    show "\<exists>y. inv_heap t x = Some y \<and> sits t l y"
      by (cases "x = j") (use y j jt'(3-5) live in \<open>simp_all add: heap sits_def rest\<close>)
  qed (use len in \<open>simp add: rest\<close>)
  moreover have "placed_ok t"
    using ok(4) j r unfolding placed_ok_def rest heap by auto
  moreover have "fresh_ok t"
    using ok(5) j jt'(1) unfolding fresh_ok_def rest heap by auto
  moreover have "known_ok idb t"
    using ok(6) j jt'(2) unfolding known_ok_def heap by auto
  moreover have "persist_ok t"
    by (rule persist_ok_change [OF ok(2) j heap rest(1,3,4) jt'(1,6) r _ jt'(7)]) simp
  ultimately have "inv_ok idb t"
    using q by (intro inv_okI)
  moreover have "abs_bag t l = ((abs_bag u)(k \<mapsto> (it_entry jt, it_count jt'))) l" for l
  proof (cases "l < 145")
    case True
    then show ?thesis
      using slots_inj [OF ok(3) _ k(1) _ k(2), of l] k len jt'(2)
      by (cases "inv_slots u ! l") (auto simp: abs_bag_def item_in_def rest heap)
  qed (use k(1) len in \<open>simp add: abs_bag_def item_in_def rest\<close>)
  ultimately show ?thesis by blast
qed

lemma store_merge:
  assumes u: "inv_ok idb u" and i: "inv_heap u i = None"
    and k: "k < 145" "inv_slots u ! k = Some j" and j: "inv_heap u j = Some jt" and room: "length (inv_queue u) < 32767"
  shows "\<exists>t. StoreItem k (Some i) False (put_item i (new_item (inv_guid u) g entry c) u) = Inr (Some j, t) \<and> inv_ok idb t \<and>
    abs_bag t = (abs_bag u)(k \<mapsto> (it_entry jt, it_count jt + c)) \<and> length (inv_queue t) \<le> Suc (length (inv_queue u)) \<and>
    inv_hiGuid t = inv_hiGuid u \<and> inv_guid t = inv_guid u"
proof -
  note ok = inv_okD [OF u]
  have len: "length (inv_slots u) = 145" by (rule slots_ok_length [OF ok(3)])
  have ij: "i \<noteq> j" using i j by auto
  have owner: "it_owner jt = inv_guid u" and r: "it_state jt \<noteq> ITEM_REMOVED"
    using slots_ok_sits [OF ok(3) k] j by (simp_all add: sits_def)
  define ni where "ni = new_item (inv_guid u) g entry c"
  define jt1 where "jt1 = jt\<lparr>it_count := it_count jt + c\<rparr>"
  define s1 where "s1 = put_item j jt1 u"
  define s2 where "s2 = put_item i ni s1"
  have s1: "inv_heap s1 = (inv_heap u)(j \<mapsto> jt1)" "inv_queue s1 = inv_queue u" "inv_guid s1 = inv_guid u" "inv_blocked s1 = inv_blocked u"
    by (simp_all add: s1_def put_item_def)
  have "queue_ok s1"
    by (rule queue_ok_upd [OF ok(1) s1(2-4,1)]) (use j in \<open>simp add: jt1_def\<close>)
  then have q2: "queue_ok s2"
    by (rule queue_ok_upd [where t = s2 and i = i and it' = ni])
       (use i ij in \<open>simp_all add: s2_def s1_def put_item_def ni_def new_item_def\<close>)
  obtain s3 where s3: "SetState i ITEM_REMOVED s2 = Inr s3" "queue_ok s3" "inv_heap s3 = (inv_heap s2)(i := None)" "same_rest s2 s3"
    "length (inv_queue s3) = length (inv_queue s2)"
    using SetState_new_removed [OF q2, of i ni] by (auto simp: s2_def put_item_def ni_def new_item_def)
  have heap3: "inv_heap s3 = (inv_heap u)(j \<mapsto> jt1)"
    unfolding s3(3) using i ij by (auto simp: s2_def s1_def put_item_def fun_eq_iff)
  have eq3: "inv_guid s3 = inv_guid u" "inv_slots s3 = inv_slots u" "inv_rows s3 = inv_rows u" "inv_instances s3 = inv_instances u"
    "inv_next s3 = inv_next u" "inv_hiGuid s3 = inv_hiGuid u" "length (inv_queue s3) = length (inv_queue u)"
    using s3(4,5) by (simp_all add: same_rest_def s2_def s1_def put_item_def)
  obtain t p where t: "SetState j ITEM_CHANGED s3 = Inr t" "queue_ok t" "p \<noteq> - 1"
    "inv_heap t = (inv_heap s3)(j \<mapsto> jt1\<lparr>it_state := next_state ITEM_CHANGED jt1, it_qpos := p\<rparr>)" "same_rest s3 t"
    "length (inv_queue t) \<le> Suc (length (inv_queue s3))"
    using SetState_change_ok [OF s3(2), of j jt1 ITEM_CHANGED] owner room heap3 eq3 by (auto simp: jt1_def)
  have heap: "inv_heap t = (inv_heap u)(j \<mapsto> jt1\<lparr>it_state := next_state ITEM_CHANGED jt, it_qpos := p\<rparr>)"
    unfolding t(4) heap3 by (simp add: jt1_def next_state_def)
  have run: "StoreItem k (Some i) False (put_item i ni u) = Inr (Some j, t)"
  proof -
    have "put_item i ni (put_item j jt1 (put_item i ni u)) = s2"
      using ij by (simp add: s2_def s1_def put_item_def fun_upd_twist)
    then show ?thesis
      using s3(1) t(1) k len ij j
      by (simp add: StoreItem_def GetItemByPos_def upd_item_def get_item_def put_item_def ni_def new_item_def jt1_def)
  qed
  have "inv_ok idb t \<and> abs_bag t = (abs_bag u)(k \<mapsto> (it_entry jt, it_count (jt1\<lparr>it_state := next_state ITEM_CHANGED jt, it_qpos := p\<rparr>)))"
    by (rule inv_ok_change [OF u k j t(2) heap]) (use t(3,5) eq3 in \<open>simp_all add: jt1_def same_rest_def\<close>)
  then show ?thesis
    using run t(5,6) eq3 unfolding ni_def by (simp add: same_rest_def jt1_def)
qed

lemma bag_add_place:
  assumes "idb entry = Some p" and "bag_place p entry (clamp_count (ip_Stackable p) count) b = (r, k)"
  shows "bag_add idb entry count b =
    (if r = EQUIP_ERR_OK
     then (True, b(k \<mapsto> (case b k of None \<Rightarrow> (entry, clamp_count (ip_Stackable p) count)
                                   | Some (e, n) \<Rightarrow> (e, n + clamp_count (ip_Stackable p) count))))
     else (False, b))"
  using assms by (cases r) (simp_all add: bag_add_def Let_def)

lemma add_new_item_refines:
  assumes ok: "inv_ok idb s" and room: "length (inv_queue s) < 32767" and ids: "unat (inv_hiGuid s) + 2 < 2 ^ 32"
  shows "\<exists>t. add_new_item idb entry count s = Inr (fst (bag_add idb entry count (abs_bag s)), t) \<and> inv_ok idb t \<and>
    abs_bag t = snd (bag_add idb entry count (abs_bag s)) \<and> length (inv_queue t) \<le> Suc (length (inv_queue s)) \<and>
    unat (inv_hiGuid t) \<le> unat (inv_hiGuid s) + 2 \<and> inv_guid t = inv_guid s"
proof (cases "idb entry")
  case None
  then show ?thesis
    using ok by (simp add: add_new_item_def CanStoreNewItem_def CreateItem_def bag_add_def)
next
  case (Some p)
  let ?c = "clamp_count (ip_Stackable p) count"
  let ?u = "counted (counted s)"
  obtain r k where place: "bag_place p entry ?c (abs_bag s) = (r, k)" by fastforce
  note add = bag_add_place [where idb = idb and entry = entry and p = p, OF Some place]
  have can: "CanStoreNewItem idb entry count False s = Inr (r, k, counted s)"
    using CanStoreNewItem_eq [where idb = idb and entry = entry and p = p, OF inv_okD(3,5) [OF ok] Some] place by simp
  have hi: "unat (inv_hiGuid s + 1) = unat (inv_hiGuid s) + 1" "unat (inv_hiGuid s + 1 + 1) = unat (inv_hiGuid s) + 2"
    using ids by (simp_all add: unat_word_ariths)
  have c1: "inv_ok idb (counted s)"
    using inv_ok_counted [OF ok] ids by simp
  have u: "inv_ok idb ?u"
    using inv_ok_counted [OF c1] ids hi by simp
  have bag: "abs_bag ?u = abs_bag s" by (rule abs_bag_cong) simp_all
  show ?thesis
  proof (cases "r = EQUIP_ERR_OK")
    case False
    moreover have "abs_bag (counted s) = abs_bag s" by (rule abs_bag_cong) simp_all
    ultimately show ?thesis
      using can c1 hi by (simp add: add_new_item_def add)
  next
    case True
    let ?i = "inv_next (counted s)"
    let ?g = "inv_hiGuid (counted s) + 1"
    have k: "k < 145" and where_to: "abs_bag ?u k = None \<or> (\<exists>n. abs_bag ?u k = Some (entry, n))"
      using bag_place_OK [of p entry ?c "abs_bag s" k] place True bag by auto
    have i: "inv_heap ?u ?i = None" "?i < inv_next ?u"
      using fresh_None [OF inv_okD(5) [OF ok], of ?i] by simp_all
    have g: "it_guid x \<noteq> ?g" if "inv_heap ?u j = Some x" for j x
    proof -
      have "it_guid x \<le> inv_hiGuid s"
        using that inv_okD(5) [OF ok] by (simp add: fresh_ok_def)
      then show ?thesis
        using hi by (auto simp: word_le_nat_alt)
    qed
    have g': "?g \<le> inv_hiGuid ?u" by simp
    have new: "add_new_item idb entry count s =
      bindR (StoreItem k (Some ?i) False (put_item ?i (new_item (inv_guid ?u) ?g entry ?c) ?u)) (\<lambda>(x, t). Inr (True, t))"
      using can True
      by (simp add: add_new_item_def StoreNewItem_def CreateItem_Some [where idb = idb and entry = entry and p = p, OF Some])
    have room': "length (inv_queue ?u) < 32767" using room by simp
    show ?thesis
    proof (cases "inv_slots ?u ! k")
      case None
      then have "abs_bag s k = None"
        using abs_bag_None [OF inv_okD(3) [OF u] k] bag by simp
      moreover have e: "idb entry \<noteq> None" using Some by simp
      have "\<exists>t. StoreItem k (Some ?i) False (put_item ?i (new_item (inv_guid ?u) ?g entry ?c) ?u) = Inr (Some ?i, t) \<and>
        inv_ok idb t \<and> abs_bag t = (abs_bag ?u)(k \<mapsto> (entry, ?c)) \<and> length (inv_queue t) \<le> Suc (length (inv_queue ?u)) \<and>
        inv_hiGuid t = inv_hiGuid ?u \<and> inv_guid t = inv_guid ?u"
        by (rule store_empty [OF u i _ g' e k None room']) (rule g)
      then obtain t where "StoreItem k (Some ?i) False (put_item ?i (new_item (inv_guid ?u) ?g entry ?c) ?u) = Inr (Some ?i, t)"
        "inv_ok idb t" "abs_bag t = (abs_bag ?u)(k \<mapsto> (entry, ?c))" "length (inv_queue t) \<le> Suc (length (inv_queue ?u))"
        "inv_hiGuid t = inv_hiGuid ?u" "inv_guid t = inv_guid ?u"
        by blast
      ultimately show ?thesis
        using new hi bag True by (simp add: add)
    next
      case occ: (Some j)
      then obtain jt where jt: "inv_heap ?u j = Some jt"
        using slots_ok_sits [OF inv_okD(3) [OF u] k] by blast
      then have "abs_bag s k = Some (it_entry jt, it_count jt)"
        using abs_bag_Some [OF inv_okD(3) [OF u] k occ] bag by simp
      moreover obtain t where "StoreItem k (Some ?i) False (put_item ?i (new_item (inv_guid ?u) ?g entry ?c) ?u) = Inr (Some j, t)"
        "inv_ok idb t" "abs_bag t = (abs_bag ?u)(k \<mapsto> (it_entry jt, it_count jt + ?c))"
        "length (inv_queue t) \<le> Suc (length (inv_queue ?u))" "inv_hiGuid t = inv_hiGuid ?u" "inv_guid t = inv_guid ?u"
        using store_merge [OF u i(1) k occ jt room', of ?g entry ?c] by blast
      ultimately show ?thesis
        using new hi bag by (simp add: add True)
    qed
  qed
qed

subsection \<open>Destroying\<close>

lemma inv_ok_taken:
  assumes s: "inv_ok idb s" and k: "k < 145" "inv_slots s ! k = Some i" and i: "inv_heap s i = Some it"
    and q: "queue_ok t" and p: "persist_ok t" and heap: "inv_heap t = (inv_heap s)(i := v)"
    and v: "\<And>x. v = Some x \<Longrightarrow> it_state x = ITEM_REMOVED \<and> it_guid x = it_guid it \<and> it_entry x = it_entry it"
    and rest: "inv_guid t = inv_guid s" "inv_slots t = (inv_slots s)[k := None]" "inv_next t = inv_next s" "inv_hiGuid t = inv_hiGuid s"
  shows "inv_ok idb t \<and> abs_bag t = (abs_bag s)(k := None)"
proof -
  note ok = inv_okD [OF s]
  have len: "length (inv_slots s) = 145" by (rule slots_ok_length [OF ok(3)])
  have other: "x \<noteq> i" if "l < 145" "l \<noteq> k" "inv_slots s ! l = Some x" for l x
    using slots_inj [OF ok(3) that(1) k(1) _ k(2)] that(2,3) by auto
  have "slots_ok t"
  proof (rule slots_okI)
    fix l x
    assume l: "l < 145" "inv_slots t ! l = Some x"
    then have lk: "l \<noteq> k" using len by (auto simp: rest)
    then have "inv_slots s ! l = Some x" using l(2) by (simp add: rest)
    with lk show "\<exists>y. inv_heap t x = Some y \<and> sits t l y"
      using slots_ok_sits [OF ok(3) l(1), of x] other [OF l(1), of x] by (simp add: heap sits_def rest)
  qed (use len in \<open>simp add: rest\<close>)
  moreover have "placed_ok t"
    unfolding placed_ok_def
  proof (intro allI impI)
    fix x y
    assume x: "inv_heap t x = Some y \<and> it_state y \<noteq> ITEM_REMOVED"
    then have "x \<noteq> i" using v [of y] by (auto simp: heap)
    with x obtain l where "l < 145" "inv_slots s ! l = Some x"
      using ok(4) unfolding placed_ok_def by (auto simp: heap)
    moreover from this \<open>x \<noteq> i\<close> k(2) have "l \<noteq> k" by auto
    ultimately show "\<exists>k < PLAYER_SLOTS_COUNT. inv_slots t ! k = Some x"
      by (intro exI [of _ l]) (simp add: rest)
  qed
  moreover have origin: "\<exists>z. inv_heap s x = Some z \<and> it_guid y = it_guid z \<and> it_entry y = it_entry z" if "inv_heap t x = Some y" for x y
    using that i v [of y] by (cases "x = i") (simp_all add: heap)
  have "fresh_ok t"
    using ok(5) origin unfolding fresh_ok_def rest by metis
  moreover have "known_ok idb t"
    using ok(6) origin unfolding known_ok_def by metis
  ultimately have "inv_ok idb t"
    using q p by (intro inv_okI)
  moreover have "abs_bag t l = ((abs_bag s)(k := None)) l" for l
  proof (cases "l < 145")
    case True
    then show ?thesis
      using other [of l] len k(1) by (cases "inv_slots s ! l") (auto simp: abs_bag_def item_in_def rest heap)
  qed (use k(1) len in \<open>simp add: abs_bag_def item_in_def rest\<close>)
  ultimately show ?thesis by blast
qed

text \<open>Taking an item out of its slot and marking it removed, whatever else of it changed before.\<close>

lemma removed_refines:
  assumes ok: "inv_ok idb s" and room: "length (inv_queue s) < 32767" and k: "k < 145" "inv_slots s ! k = Some i"
    and it: "inv_heap s i = Some it"
    and s2: "inv_heap s2 = (inv_heap s)(i \<mapsto> it2)" "inv_queue s2 = inv_queue s" "inv_guid s2 = inv_guid s"
      "inv_blocked s2 = inv_blocked s" "inv_slots s2 = (inv_slots s)[k := None]" "inv_rows s2 = inv_rows s"
      "inv_instances s2 = inv_instances s" "inv_next s2 = inv_next s" "inv_hiGuid s2 = inv_hiGuid s"
    and it2: "it_guid it2 = it_guid it" "it_entry it2 = it_entry it" "it_owner it2 = it_owner it"
      "it_state it2 = it_state it" "it_qpos it2 = it_qpos it"
  shows "\<exists>t. SetState i ITEM_REMOVED s2 = Inr t \<and> inv_ok idb t \<and> abs_bag t = (abs_bag s)(k := None) \<and>
    length (inv_queue t) \<le> Suc (length (inv_queue s)) \<and> inv_hiGuid t = inv_hiGuid s \<and> inv_guid t = inv_guid s"
proof -
  note D = inv_okD [OF ok]
  have sits: "sits s k it"
    using slots_ok_sits [OF D(3) k] it by simp
  have q2: "queue_ok s2"
    by (rule queue_ok_upd [OF D(1) s2(2-4,1)]) (use it it2 in simp)
  have i2: "inv_heap s2 i = Some it2" "it_owner it2 = inv_guid s2"
    using sits s2(1,3) it2(3) by (simp_all add: sits_def)
  have twice: "(inv_heap s2)(i := v) = (inv_heap s)(i := v)" for v by (simp add: s2(1))
  show ?thesis
  proof (cases "it_state it = ITEM_NEW")
    case True
    obtain t where t: "SetState i ITEM_REMOVED s2 = Inr t" "queue_ok t" "inv_heap t = (inv_heap s2)(i := None)"
      "same_rest s2 t" "length (inv_queue t) = length (inv_queue s2)"
      using SetState_new_removed [OF q2 i2(1)] it2(4) True by auto
    have rest: "inv_guid t = inv_guid s" "inv_slots t = (inv_slots s)[k := None]" "inv_next t = inv_next s"
      "inv_hiGuid t = inv_hiGuid s" "inv_rows t = inv_rows s" "inv_instances t = inv_instances s"
      using t(4) s2 by (simp_all add: same_rest_def)
    have heap: "inv_heap t = (inv_heap s)(i := None)" using t(3) twice by simp
    have "persist_ok t"
      by (rule persist_ok_drop_new [OF D(2) it True heap rest(1,5,6)])
    then have "inv_ok idb t \<and> abs_bag t = (abs_bag s)(k := None)"
      by (rule inv_ok_taken [OF ok k it t(2) _ heap _ rest(1-4)]) simp_all
    then show ?thesis
      using t(1,5) rest s2(2) by simp
  next
    case False
    obtain t p where t: "SetState i ITEM_REMOVED s2 = Inr t" "queue_ok t" "p \<noteq> - 1"
      "inv_heap t = (inv_heap s2)(i \<mapsto> it2\<lparr>it_state := next_state ITEM_REMOVED it2, it_qpos := p\<rparr>)" "same_rest s2 t"
      "length (inv_queue t) \<le> Suc (length (inv_queue s2))"
      using SetState_change_ok [OF q2 i2(1,2), of ITEM_REMOVED] it2(4) False room s2(2) by auto
    have rest: "inv_guid t = inv_guid s" "inv_slots t = (inv_slots s)[k := None]" "inv_next t = inv_next s"
      "inv_hiGuid t = inv_hiGuid s" "inv_rows t = inv_rows s" "inv_instances t = inv_instances s"
      using t(5) s2 by (simp_all add: same_rest_def)
    have heap: "inv_heap t = (inv_heap s)(i \<mapsto> it2\<lparr>it_state := ITEM_REMOVED, it_qpos := p\<rparr>)"
      using t(4) twice it2(4) False by (simp add: next_state_def)
    have "persist_ok t"
      by (rule persist_ok_change [OF D(2) it heap rest(1,5,6), where st = ITEM_REMOVED])
         (use sits it2 False t(3) in \<open>simp_all add: sits_def next_state_def\<close>)
    then have "inv_ok idb t \<and> abs_bag t = (abs_bag s)(k := None)"
      by (rule inv_ok_taken [OF ok k it t(2) _ heap _ rest(1-4)]) (auto simp: it2)
    then show ?thesis
      using t(1,6) rest s2(2) by simp
  qed
qed

lemma DestroyItem_refines:
  assumes ok: "inv_ok idb s" and room: "length (inv_queue s) < 32767" and k: "k < 145"
  shows "\<exists>t. DestroyItem k s = Inr t \<and> inv_ok idb t \<and> abs_bag t = (abs_bag s)(k := None) \<and>
    length (inv_queue t) \<le> Suc (length (inv_queue s)) \<and> inv_hiGuid t = inv_hiGuid s \<and> inv_guid t = inv_guid s"
proof -
  note D = inv_okD [OF ok]
  have len: "length (inv_slots s) = 145" by (rule slots_ok_length [OF D(3)])
  show ?thesis
  proof (cases "inv_slots s ! k")
    case None
    then have "abs_bag s k = None"
      using abs_bag_None [OF D(3) k] by simp
    then show ?thesis
      using None ok k len by (simp add: DestroyItem_def GetItemByPos_def fun_upd_idem)
  next
    case (Some i)
    obtain it where it: "inv_heap s i = Some it"
      using slots_ok_sits [OF D(3) k Some] by blast
    let ?it2 = "it\<lparr>it_contained := 0, it_slot := NULL_SLOT\<rparr>"
    let ?s2 = "put_item i ?it2 (s\<lparr>inv_slots := (inv_slots s)[k := None]\<rparr>)"
    have "DestroyItem k s = SetState i ITEM_REMOVED ?s2"
      using Some k len it
      by (simp add: DestroyItem_def GetItemByPos_def set_slot_def upd_item_def get_item_def put_item_def)
    then show ?thesis
      using removed_refines [OF ok room k Some it, of ?s2 ?it2] by (simp add: put_item_def)
  qed
qed

subsection \<open>Saving\<close>

lemma SaveInventory_keeps:
  assumes ok: "inv_ok idb s"
  shows "\<exists>t. SaveInventory (\<lambda>e. idb e \<noteq> None) s = Inr t \<and> inv_ok idb t \<and> in_sync t \<and> abs_bag t = abs_bag s \<and>
    inv_queue t = [] \<and> inv_hiGuid t = inv_hiGuid s \<and> inv_guid t = inv_guid s"
proof -
  note D = inv_okD [OF ok]
  have "\<forall>i it. inv_heap s i = Some it \<longrightarrow> idb (it_entry it) \<noteq> None"
    using D(6) by (simp add: known_ok_def)
  then obtain t where t: "SaveInventory (\<lambda>e. idb e \<noteq> None) s = Inr t" "in_sync t" "queue_ok t" "persist_ok t"
    "inv_slots t = inv_slots s" "inv_next t = inv_next s" "inv_guid t = inv_guid s" "inv_hiGuid t = inv_hiGuid s"
    "inv_heap t = (\<lambda>i. Option.bind (inv_heap s i) saved_item)"
    using save_in_sync [OF D(1,2), of "\<lambda>e. idb e \<noteq> None"] by blast
  have saved: "inv_heap t i = Some (it\<lparr>it_state := ITEM_UNCHANGED, it_qpos := - 1\<rparr>)"
    if "inv_heap s i = Some it" "it_state it \<noteq> ITEM_REMOVED" for i it
    using that by (simp add: t(9) saved_item_def)
  have origin: "\<exists>y. inv_heap s i = Some y \<and> it_state y \<noteq> ITEM_REMOVED \<and> x = y\<lparr>it_state := ITEM_UNCHANGED, it_qpos := - 1\<rparr>"
    if "inv_heap t i = Some x" for i x
    using that unfolding t(9) by (cases "inv_heap s i") (auto simp: saved_item_cases)
  have "slots_ok t"
  proof (rule slots_okI)
    fix k i
    assume k: "k < 145" "inv_slots t ! k = Some i"
    then obtain it where "inv_heap s i = Some it" "sits s k it"
      using slots_ok_sits [OF D(3), of k i] t(5) by auto
    then show "\<exists>it. inv_heap t i = Some it \<and> sits t k it"
      using saved [of i it] by (simp add: sits_def t(7))
  qed (use slots_ok_length [OF D(3)] in \<open>simp add: t(5)\<close>)
  moreover have "placed_ok t"
    using D(4) origin unfolding placed_ok_def t(5) by blast
  moreover have "fresh_ok t"
    using D(5) origin unfolding fresh_ok_def t(6,8) by fastforce
  moreover have "known_ok idb t"
    using D(6) origin unfolding known_ok_def by fastforce
  ultimately have "inv_ok idb t"
    using t(3,4) by (intro inv_okI)
  moreover have "abs_bag t k = abs_bag s k" for k
  proof (cases "k < 145")
    case True
    show ?thesis
    proof (cases "inv_slots s ! k")
      case (Some i)
      then obtain it where "inv_heap s i = Some it" "sits s k it"
        using slots_ok_sits [OF D(3) True] by blast
      then show ?thesis
        using saved [of i it] Some by (simp add: abs_bag_def item_in_def t(5) sits_def)
    qed (simp add: abs_bag_def item_in_def t(5))
  qed (use slots_ok_length [OF D(3)] in \<open>simp add: abs_bag_def item_in_def t(5)\<close>)
  ultimately show ?thesis
    using t(1,2,7,8) by (auto simp: in_sync_def)
qed

text \<open>What the two tables say of a slot of the player.\<close>

definition stored :: "player_inv \<Rightarrow> nat \<Rightarrow> u32 \<Rightarrow> u32 \<Rightarrow> bool" where
  "stored s k entry count \<longleftrightarrow>
     (\<exists>g. inv_rows s g = Some (GUID_LOPART (inv_guid s), 0, of_nat k, entry) \<and>
          (\<exists>owner contained. inv_instances s g = Some (GUID_LOPART owner, entry, owner, contained, count)))"

lemma in_sync_stored:
  assumes ok: "inv_ok idb s" and sync: "in_sync s" and k: "k < 145"
  shows "stored s k entry count \<longleftrightarrow> abs_bag s k = Some (entry, count)"
proof
  note D = inv_okD [OF ok]
  assume "stored s k entry count"
  then obtain g owner contained where g: "inv_rows s g = Some (GUID_LOPART (inv_guid s), 0, of_nat k, entry)"
    "inv_instances s g = Some (GUID_LOPART owner, entry, owner, contained, count)"
    by (auto simp: stored_def)
  then obtain i it where it: "inv_heap s i = Some it" "it_guid it = g" "rows_for s it" "it_state it = ITEM_UNCHANGED"
    using sync unfolding in_sync_def by (metis option.distinct(1))
  then obtain l where l: "l < 145" "inv_slots s ! l = Some i"
    using D(4) unfolding placed_ok_def by fastforce
  then have "sits s l it"
    using slots_ok_sits [OF D(3) l] it(1) by simp
  moreover have "it_slot it = of_nat k" "it_entry it = entry" "it_count it = count"
    using g it(2,3) by (simp_all add: rows_for_def inv_row_of_def item_values_def)
  ultimately have "l = k"
    using k by (simp add: sits_def unat_of_nat_small)
  then show "abs_bag s k = Some (entry, count)"
    using abs_bag_Some [OF D(3) l it(1)] \<open>it_entry it = entry\<close> \<open>it_count it = count\<close> by simp
next
  note D = inv_okD [OF ok]
  assume b: "abs_bag s k = Some (entry, count)"
  then obtain i where i: "inv_slots s ! k = Some i"
    using abs_bag_None [OF D(3) k] by fastforce
  then obtain it where it: "inv_heap s i = Some it" "sits s k it"
    using slots_ok_sits [OF D(3) k] by blast
  have "rows_for s it" using sync it(1) unfolding in_sync_def by blast
  moreover have "it_entry it = entry" "it_count it = count"
    using abs_bag_Some [OF D(3) k i it(1)] b by simp_all
  moreover have "it_slot it = of_nat k"
    using it(2) by (auto simp: sits_def)
  ultimately show "stored s k entry count"
    using it(2) by (auto simp: stored_def rows_for_def inv_row_of_def item_values_def sits_def)
qed

subsection \<open>Sessions\<close>

datatype inv_op = AddItem u32 u32 | DestroySlot nat | Save

fun exec_op :: "item_db \<Rightarrow> inv_op \<Rightarrow> player_inv \<Rightarrow> player_inv res" where
  "exec_op idb (AddItem entry count) s = bindR (add_new_item idb entry count s) (\<lambda>(ok, t). Inr t)"
| "exec_op idb (DestroySlot k) s = DestroyItem k s"
| "exec_op idb Save s = SaveInventory (\<lambda>e. idb e \<noteq> None) s"

fun bag_op :: "item_db \<Rightarrow> inv_op \<Rightarrow> bag \<Rightarrow> bag" where
  "bag_op idb (AddItem entry count) b = snd (bag_add idb entry count b)"
| "bag_op idb (DestroySlot k) b = b(k := None)"
| "bag_op idb Save b = b"

fun op_ok :: "inv_op \<Rightarrow> bool" where
  "op_ok (DestroySlot k) \<longleftrightarrow> k < PLAYER_SLOTS_COUNT"
| "op_ok _ \<longleftrightarrow> True"

lemma exec_op_refines:
  assumes ok: "inv_ok idb s" and room: "length (inv_queue s) < 32767" and ids: "unat (inv_hiGuid s) + 2 < 2 ^ 32" and op: "op_ok x"
  shows "\<exists>t. exec_op idb x s = Inr t \<and> inv_ok idb t \<and> abs_bag t = bag_op idb x (abs_bag s) \<and>
    length (inv_queue t) \<le> Suc (length (inv_queue s)) \<and> unat (inv_hiGuid t) \<le> unat (inv_hiGuid s) + 2 \<and> inv_guid t = inv_guid s"
proof (cases x)
  case (AddItem e n)
  then show ?thesis
    using add_new_item_refines [OF ok room ids, of e n] by auto
next
  case (DestroySlot k)
  then have "k < 145" using op by simp
  then show ?thesis
    using DestroyItem_refines [OF ok room, of k] DestroySlot by auto
next
  case Save
  then show ?thesis
    using SaveInventory_keeps [OF ok] by auto
qed

lemma session_refines:
  assumes "inv_ok idb s" and "length (inv_queue s) + length xs \<le> 32767"
    and "unat (inv_hiGuid s) + 2 * length xs < 2 ^ 32" and "\<forall>x \<in> set xs. op_ok x"
  shows "\<exists>t. foldR (exec_op idb) xs s = Inr t \<and> inv_ok idb t \<and> abs_bag t = fold (bag_op idb) xs (abs_bag s)"
  using assms
proof (induction xs arbitrary: s)
  case Nil
  then show ?case by simp
next
  case (Cons x xs)
  have "length (inv_queue s) < 32767" "unat (inv_hiGuid s) + 2 < 2 ^ 32" "op_ok x"
    using Cons.prems by simp_all
  then obtain t where t: "exec_op idb x s = Inr t" "inv_ok idb t" "abs_bag t = bag_op idb x (abs_bag s)"
    "length (inv_queue t) \<le> Suc (length (inv_queue s))" "unat (inv_hiGuid t) \<le> unat (inv_hiGuid s) + 2"
    using exec_op_refines [OF Cons.prems(1)] by blast
  then show ?case
    using Cons.IH [OF t(2)] Cons.prems by simp
qed

text \<open>C2: any sequence of adding new items, destroying slots and saving runs without a fault and is, slot by slot,
  the same sequence on an abstract bag of entries and counts; the invariant holds afterwards, and one more
  save makes the two tables hold exactly the bag: a row for every occupied slot, with its entry and count,
  and no other row of the player.\<close>

theorem inventory_session_refines:
  assumes "inv_ok idb s" and "length (inv_queue s) + length xs \<le> 32767"
    and "unat (inv_hiGuid s) + 2 * length xs < 2 ^ 32" and "\<forall>x \<in> set xs. op_ok x"
  shows "\<exists>t u. foldR (exec_op idb) xs s = Inr t \<and> inv_ok idb t \<and> abs_bag t = fold (bag_op idb) xs (abs_bag s) \<and>
    SaveInventory (\<lambda>e. idb e \<noteq> None) t = Inr u \<and> inv_ok idb u \<and> in_sync u \<and>
    (\<forall>k < PLAYER_SLOTS_COUNT. \<forall>entry count. stored u k entry count \<longleftrightarrow> abs_bag t k = Some (entry, count))"
proof -
  obtain t where t: "foldR (exec_op idb) xs s = Inr t" "inv_ok idb t" "abs_bag t = fold (bag_op idb) xs (abs_bag s)"
    using session_refines [OF assms] by blast
  obtain u where u: "SaveInventory (\<lambda>e. idb e \<noteq> None) t = Inr u" "inv_ok idb u" "in_sync u" "abs_bag u = abs_bag t"
    using SaveInventory_keeps [OF t(2)] by blast
  have "stored u k entry count \<longleftrightarrow> abs_bag t k = Some (entry, count)" if "k < 145" for k entry count
    using in_sync_stored [OF u(2,3) that] u(4) by simp
  then show ?thesis
    using t u(1-3) by (intro exI [of _ t] exI [of _ u]) simp
qed

definition sample_proto :: item_proto where
  "sample_proto = \<lparr>ip_ItemId = 26001, ip_modelid = 9, ip_TypeDesc = ''herb'', ip_InventoryType = 0, ip_RequiredLevel = 1,
     ip_EquipmentSlot = 0, ip_buyprice = 10, ip_sellprice = 5, ip_MaxCount = 0, ip_Stackable = 50, ip_stats = []\<rparr>"

definition sample_idb :: item_db where
  "sample_idb = [26001 \<mapsto> sample_proto]"

lemma sample_inv_inv_ok: "inv_ok sample_idb sample_inv"
proof (rule inv_okI)
  show "slots_ok sample_inv"
    by (rule slots_okI) (auto simp: sample_inv_def sample_item_def sits_def nth_list_update split: if_splits)
  show "placed_ok sample_inv"
    by (auto simp: placed_ok_def sample_inv_def intro!: exI [of _ 10])
qed (use sample_inv_ok in \<open>simp_all add: sample_inv_def sample_item_def sample_idb_def fresh_ok_def known_ok_def\<close>)

theorem inventory_session_refines_witness:
  "\<exists>t u. foldR (exec_op sample_idb) [AddItem 26001 60, Save, AddItem 26001 7, DestroySlot 11] sample_inv = Inr t \<and>
    SaveInventory (\<lambda>e. sample_idb e \<noteq> None) t = Inr u \<and> stored u 10 26001 10 \<and> \<not> stored u 11 26001 50"
proof -
  let ?xs = "[AddItem 26001 60, Save, AddItem 26001 7, DestroySlot 11]"
  have len: "length (inv_queue sample_inv) + length ?xs \<le> 32767" "unat (inv_hiGuid sample_inv) + 2 * length ?xs < 2 ^ 32"
    "\<forall>x \<in> set ?xs. op_ok x"
    by (simp_all add: sample_inv_def)
  have bag: "fold (bag_op sample_idb) ?xs (abs_bag sample_inv) 10 = Some (26001, 10)"
    "fold (bag_op sample_idb) ?xs (abs_bag sample_inv) 11 = None"
    by code_simp+
  obtain t u where "foldR (exec_op sample_idb) ?xs sample_inv = Inr t"
    "abs_bag t = fold (bag_op sample_idb) ?xs (abs_bag sample_inv)"
    "SaveInventory (\<lambda>e. sample_idb e \<noteq> None) t = Inr u"
    "\<forall>k < PLAYER_SLOTS_COUNT. \<forall>entry count. stored u k entry count \<longleftrightarrow> abs_bag t k = Some (entry, count)"
    using inventory_session_refines [OF sample_inv_inv_ok len] by blast
  then show ?thesis
    using bag by (intro exI [of _ t] exI [of _ u]) simp
qed

end
