(* ===== verification/Hero.thy ===== *)
theory Hero
  imports Spells InventoryRefinement Messages
begin

text \<open>
  A player with what it owns (\<open>src/game/Player.h\<close>, \<open>src/game/Pet.h\<close>): its fields as a unit, its inventory,
  its pets in the ten slots of \<open>m_pets\<close>, the queue of pets to save and the table \<open>character_pet\<close>, and
  the messages sent so far. Pets are numbered objects in a heap, none once deleted.
\<close>

type_synonym petid = nat

record pet_rec =
  pt_low :: u32
  pt_unit :: unit_rec
  pt_name :: bytes
  pt_items :: "iid option list"
  pt_slot :: u8
  pt_battle :: u8
  pt_qpos :: int

text \<open>A row of \<open>character_pet\<close>: owner, name, value fields, loyalty, spell levels, slot, battle mode.\<close>

type_synonym pet_row = "u32 \<times> bytes \<times> (nat \<Rightarrow> u32) \<times> u8 \<times> u8 list \<times> u8 \<times> bool"

text \<open>A row of \<open>characters\<close>: account, name, map, position, value fields.\<close>

type_synonym char_row = "u32 \<times> bytes \<times> u16 \<times> u16 \<times> u16 \<times> (nat \<Rightarrow> u32)"

text \<open>
  \<open>h_insert\<close> is the database: the row it stores for the statement that \<open>Player::SaveToDB\<close> writes from a
  row, none if it refuses the statement. The statement holds the name between quotes as it is, so for a
  name with a quote or a backslash it may be any statement that begins like this one; a name of more than
  20 bytes does not fit its column.
\<close>

record hero =
  h_inv :: player_inv
  h_unit :: unit_rec
  h_account :: u32
  h_name :: bytes
  h_map :: u16
  h_x :: u16
  h_y :: u16
  h_session :: bool
  h_petHeap :: "petid \<Rightarrow> pet_rec option"
  h_pets :: "petid option list"
  h_battlePet :: "petid option"
  h_petNext :: petid
  h_petQueue :: "petid option list"
  h_petBlocked :: bool
  h_petRows :: "u32 \<Rightarrow> pet_row option"
  h_row :: "char_row option"
  h_spellRows :: "(u16 \<times> u8) list"
  h_insert :: "char_row \<Rightarrow> char_row option"
  h_out :: "outgoing list"

definition MAX_PET_SLOT :: nat where [simp]: "MAX_PET_SLOT = 10"
definition PET_SLOT_END :: nat where [simp]: "PET_SLOT_END = 4"
definition MAX_PET_ITEMS :: nat where [simp]: "MAX_PET_ITEMS = 6"
definition NULL_PET_SLOT :: u8 where [simp]: "NULL_PET_SLOT = 255"
definition HIGHGUID_UNIT :: u32 where [simp]: "HIGHGUID_UNIT = 0xF0070000"

definition MAKE_GUID :: "u32 \<Rightarrow> u32 \<Rightarrow> u64" where
  "MAKE_GUID l h = ucast l OR push_bit 32 (ucast h)"

text \<open>64 bit fields are two fields of 32 bits, the low one first.\<close>

definition uget64 :: "nat \<Rightarrow> unit_rec \<Rightarrow> u64" where
  "uget64 i u = ucast (uget u i) OR push_bit 32 (ucast (uget u (i + 1)))"

definition uset64 :: "nat \<Rightarrow> u64 \<Rightarrow> unit_rec \<Rightarrow> unit_rec" where
  "uset64 i v u = uset (i + 1) (ucast (drop_bit 32 v)) (uset i (ucast v) u)"

definition get_pet :: "petid \<Rightarrow> hero \<Rightarrow> pet_rec res" where
  "get_pet p h = (case h_petHeap h p of None \<Rightarrow> Inl UseAfterFree | Some x \<Rightarrow> Inr x)"

definition put_pet :: "petid \<Rightarrow> pet_rec \<Rightarrow> hero \<Rightarrow> hero" where
  "put_pet p x h = h\<lparr>h_petHeap := (h_petHeap h)(p \<mapsto> x)\<rparr>"

definition upd_pet :: "petid \<Rightarrow> (pet_rec \<Rightarrow> pet_rec) \<Rightarrow> hero \<Rightarrow> hero res" where
  "upd_pet p f h = bindR (get_pet p h) (\<lambda>x. Inr (put_pet p (f x) h))"

definition GetPet :: "nat \<Rightarrow> hero \<Rightarrow> petid option res" where
  "GetPet slot h = (if slot < length (h_pets h) then Inr (h_pets h ! slot) else Inl OutOfBounds)"

definition set_pet_slot :: "nat \<Rightarrow> petid option \<Rightarrow> hero \<Rightarrow> hero res" where
  "set_pet_slot slot v h =
     (if slot < length (h_pets h) then Inr (h\<lparr>h_pets := (h_pets h)[slot := v]\<rparr>) else Inl OutOfBounds)"

text \<open>An operation on the inventory alone.\<close>

definition on_inv :: "(player_inv \<Rightarrow> player_inv res) \<Rightarrow> hero \<Rightarrow> hero res" where
  "on_inv f h = bindR (f (h_inv h)) (\<lambda>s. Inr (h\<lparr>h_inv := s\<rparr>))"

definition say :: "audience \<Rightarrow> u8 \<Rightarrow> field list \<Rightarrow> hero \<Rightarrow> hero" where
  "say a opcode fs h = h\<lparr>h_out := h_out h @ [(a, opcode, fs)]\<rparr>"

text \<open>\<open>if( m_session ) m_session->SendPacket(...)\<close>\<close>

definition say_session :: "u8 \<Rightarrow> field list \<Rightarrow> hero \<Rightarrow> hero" where
  "say_session opcode fs h = (if h_session h then say ToSession opcode fs h else h)"

text \<open>\<open>GetSession()->SendPacket(...)\<close>\<close>

definition say_must :: "u8 \<Rightarrow> field list \<Rightarrow> hero \<Rightarrow> hero res" where
  "say_must opcode fs h = (if h_session h then Inr (say ToSession opcode fs h) else Inl NullDeref)"

definition GetExpGained :: "unit_rec \<Rightarrow> u32" where
  "GetExpGained u = uget u UNIT_FIELD_XP + uget u UNIT_FIELD_NEXT_LEVEL_XP + 6"

definition getLevel :: "unit_rec \<Rightarrow> u32" where
  "getLevel u = uget u UNIT_FIELD_LEVEL"

text \<open>\<open>Item::GetModelId\<close>: the model of the prototype, which must exist, in 16 bits.\<close>

definition item_model :: "item_db \<Rightarrow> iid \<Rightarrow> player_inv \<Rightarrow> u16 res" where
  "item_model idb i s =
     bindR (get_item i s) (\<lambda>it. case idb (it_entry it) of None \<Rightarrow> Inl NullDeref | Some p \<Rightarrow> Inr (ucast (ip_modelid p)))"

end
