(* ===== verification/PlayerPackets.thy ===== *)
theory PlayerPackets
  imports Hero
begin

text \<open>
  The messages that describe a player to its client and to others (\<open>src/game/Player.cpp\<close>): look, status,
  pets, inventory, equipment, gold, short keys and the single fields. Every builder is the list of
  fields the code appends, in its order.
\<close>

definition UPD_FLAG_HP :: u8 where [simp]: "UPD_FLAG_HP = 0x19"
definition UPD_FLAG_SP :: u8 where [simp]: "UPD_FLAG_SP = 0x1A"
definition UPD_FLAG_LEVEL :: u8 where [simp]: "UPD_FLAG_LEVEL = 0x23"
definition UPD_FLAG_SPELL_POINT :: u8 where [simp]: "UPD_FLAG_SPELL_POINT = 0x25"
definition UPD_FLAG_STAT_POINT :: u8 where [simp]: "UPD_FLAG_STAT_POINT = 0x26"
definition UPD_FLAG_HPX_MOD :: u8 where [simp]: "UPD_FLAG_HPX_MOD = 0xCF"
definition UPD_FLAG_SPX_MOD :: u8 where [simp]: "UPD_FLAG_SPX_MOD = 0xD0"
definition UPD_FLAG_ATK_MOD :: u8 where [simp]: "UPD_FLAG_ATK_MOD = 0xD2"
definition UPD_FLAG_DEF_MOD :: u8 where [simp]: "UPD_FLAG_DEF_MOD = 0xD3"
definition UPD_FLAG_INT_MOD :: u8 where [simp]: "UPD_FLAG_INT_MOD = 0xD4"
definition UPD_FLAG_AGI_MOD :: u8 where [simp]: "UPD_FLAG_AGI_MOD = 0xD6"

abbreviation fld8 :: "unit_rec \<Rightarrow> nat \<Rightarrow> field" where "fld8 u i \<equiv> FU8 (ucast (uget u i))"
abbreviation fld16 :: "unit_rec \<Rightarrow> nat \<Rightarrow> field" where "fld16 u i \<equiv> FU16 (ucast (uget u i))"
abbreviation fld32 :: "unit_rec \<Rightarrow> nat \<Rightarrow> field" where "fld32 u i \<equiv> FU32 (uget u i)"

subsection \<open>How a player looks\<close>

text \<open>The models of the equipped items, in the order of the slots.\<close>

fun slot_models :: "item_db \<Rightarrow> nat list \<Rightarrow> player_inv \<Rightarrow> u16 list res" where
  "slot_models idb [] s = Inr []"
| "slot_models idb (k # ks) s =
     bindR (GetItemByPos k s) (\<lambda>p.
       case p of
         None \<Rightarrow> slot_models idb ks s
       | Some i \<Rightarrow> bindR (item_model idb i s) (\<lambda>m. bindR (slot_models idb ks s) (\<lambda>ms. Inr (m # ms))))"

definition equip_models :: "item_db \<Rightarrow> player_inv \<Rightarrow> u16 list res" where
  "equip_models idb s = slot_models idb [0..<EQUIPMENT_SLOT_END] s"

definition look_fields :: "unit_rec \<Rightarrow> field list" where
  "look_fields u =
     [fld8 u PLAYER_HAIR, fld8 u PLAYER_FACE, fld8 u PLAYER_HAIR_COLOR_R, fld8 u PLAYER_HAIR_COLOR_G, fld8 u PLAYER_HAIR_COLOR_B,
      fld8 u PLAYER_SKIN_COLOR_R, fld8 u PLAYER_SKIN_COLOR_G, fld8 u PLAYER_SKIN_COLOR_B, fld8 u PLAYER_SHIRT_COLOR,
      fld8 u PLAYER_MISC_COLOR]"

definition BuildUpdateBlockVisibilityPacket :: "item_db \<Rightarrow> hero \<Rightarrow> (u8 \<times> field list) res" where
  "BuildUpdateBlockVisibilityPacket idb h =
     bindR (equip_models idb (h_inv h)) (\<lambda>ms.
       let u = h_unit h
       in Inr (0x03,
            [FU32 (h_account h), fld8 u PLAYER_GENDER, FU16 0, FU16 (h_map h), FU16 (h_x h), FU16 (h_y h), FU8 0] @
            look_fields u @ [FU8 (of_nat (length ms))] @ map FU16 ms @
            [FU16 0, FU16 0, FU16 0, fld8 u UNIT_FIELD_REBORN] @ str_fields (h_name h)))"

definition BuildUpdateBlockVisibilityForOthersPacket :: "item_db \<Rightarrow> hero \<Rightarrow> (u8 \<times> field list) res" where
  "BuildUpdateBlockVisibilityForOthersPacket idb h =
     bindR (equip_models idb (h_inv h)) (\<lambda>ms.
       let u = h_unit h
       in Inr (0x03,
            [FU32 (h_account h), fld8 u PLAYER_GENDER, fld8 u UNIT_FIELD_ELEMENT, fld8 u UNIT_FIELD_LEVEL, FU16 0,
             FU16 (h_map h), FU16 (h_x h), FU16 (h_y h), FU8 0] @
            look_fields u @ [FU8 (of_nat (length ms))] @ map FU16 ms @
            [FU32 0, FU16 0, fld8 u UNIT_FIELD_REBORN, FU8 0] @ str_fields (h_name h)))"

definition UpdateCurrentEquip :: "item_db \<Rightarrow> hero \<Rightarrow> hero res" where
  "UpdateCurrentEquip idb h =
     bindR (equip_models idb (h_inv h)) (\<lambda>ms.
       Inr (say_session 0x05 ([FU8 0, FU32 (h_account h)] @ map FU16 ms) h))"

subsection \<open>Status\<close>

definition BuildUpdateBlockStatusPacket :: "hero \<Rightarrow> u8 \<times> field list" where
  "BuildUpdateBlockStatusPacket h =
     (let u = h_unit h
      in (0x05,
          [FU8 3, fld8 u UNIT_FIELD_ELEMENT, fld16 u UNIT_FIELD_HP, fld16 u UNIT_FIELD_SP,
           fld16 u UNIT_FIELD_INT, fld16 u UNIT_FIELD_ATK, fld16 u UNIT_FIELD_DEF, fld16 u UNIT_FIELD_AGI,
           fld16 u UNIT_FIELD_HPX, fld16 u UNIT_FIELD_SPX, FU8 (ucast (getLevel u)), FU32 (GetExpGained u),
           fld16 u UNIT_FIELD_SPELL_POINT, fld16 u UNIT_FIELD_STAT_POINT, FU32 0,
           fld16 u UNIT_FIELD_HP_MAX, fld16 u UNIT_FIELD_SP_MAX,
           fld32 u UNIT_FIELD_ATK_MOD, fld32 u UNIT_FIELD_DEF_MOD, fld32 u UNIT_FIELD_INT_MOD, fld32 u UNIT_FIELD_AGI_MOD,
           fld32 u UNIT_FIELD_HPX_MOD, fld32 u UNIT_FIELD_SPX_MOD,
           fld16 u UNIT_MORAL_DONGWU, fld16 u UNIT_MORAL_2, fld16 u UNIT_MORAL_3, fld16 u UNIT_MORAL_4, fld16 u UNIT_MORAL_5,
           FU16 0, FU16 0x0101] @
          replicate 9 (FU32 0) @ [FU8 0, FU16 0] @
          concat (map (\<lambda>(_, sp). [FU16 (sp_entry sp), FU8 (sp_level sp)]) (u_spells u))))"

subsection \<open>Single fields\<close>

definition updatePlayer :: "u8 \<Rightarrow> u8 \<Rightarrow> u32 \<Rightarrow> u16 \<Rightarrow> hero \<Rightarrow> hero" where
  "updatePlayer updflag modifier value entry h =
     say_session 0x08 [FU8 1, FU8 updflag, FU8 modifier, FU32 value, FU16 entry, FU16 0] h"

definition updatePet :: "u8 \<Rightarrow> u8 \<Rightarrow> u8 \<Rightarrow> u32 \<Rightarrow> u16 \<Rightarrow> hero \<Rightarrow> hero" where
  "updatePet slot updflag modifier value entry h =
     say_session 0x08 [FU8 2, FU8 4, FU8 (slot + 1), FU8 0, FU8 updflag, FU8 modifier, FU32 value, FU16 entry, FU16 0] h"

text \<open>A signed modifier goes over as a sign and a magnitude.\<close>

definition sign_code :: "i32 \<Rightarrow> u8" where
  "sign_code v = (if v = 0 then 0 else if 0 < sint v then 1 else 2)"

definition magnitude :: "i32 \<Rightarrow> u32" where
  "magnitude v = (if sint v < 0 then - v else v)"

definition update_mod :: "u8 \<Rightarrow> nat \<Rightarrow> hero \<Rightarrow> hero" where
  "update_mod updflag i h =
     (let v = uget (h_unit h) i in updatePlayer updflag (sign_code v) (magnitude v) 0 h)"

definition UpdatePlayer :: "hero \<Rightarrow> hero" where
  "UpdatePlayer h =
     (let h1 = updatePlayer 0x19 1 (uget (h_unit h) UNIT_FIELD_HP) 0 h;
          h2 = updatePlayer 0x1A 1 (uget (h_unit h) UNIT_FIELD_SP) 0 h1;
          h3 = update_mod UPD_FLAG_HPX_MOD UNIT_FIELD_HPX_MOD h2;
          h4 = update_mod UPD_FLAG_SPX_MOD UNIT_FIELD_SPX_MOD h3;
          h5 = update_mod UPD_FLAG_ATK_MOD UNIT_FIELD_ATK_MOD h4;
          h6 = update_mod UPD_FLAG_DEF_MOD UNIT_FIELD_DEF_MOD h5;
          h7 = update_mod UPD_FLAG_INT_MOD UNIT_FIELD_INT_MOD h6;
          h8 = update_mod UPD_FLAG_AGI_MOD UNIT_FIELD_AGI_MOD h7
      in updatePlayer 0xDB 1 0 0 (updatePlayer 0xDA 1 0 0 h8))"

definition UpdatePlayerLevel :: "hero \<Rightarrow> hero" where
  "UpdatePlayerLevel h =
     (let h1 = updatePlayer UPD_FLAG_LEVEL 1 (getLevel (h_unit h)) 0 h;
          h2 = updatePlayer UPD_FLAG_SPELL_POINT 1 (uget (h_unit h) UNIT_FIELD_SPELL_POINT) 0 h1;
          h3 = updatePlayer UPD_FLAG_STAT_POINT 1 (uget (h_unit h) UNIT_FIELD_STAT_POINT) 0 h2
      in h3\<lparr>h_unit := (h_unit h3)\<lparr>u_levelUp := False\<rparr>\<rparr>)"

definition UpdatePetLevel :: "petid \<Rightarrow> hero \<Rightarrow> hero res" where
  "UpdatePetLevel p h =
     bindR (get_pet p h) (\<lambda>x.
       upd_pet p (\<lambda>y. y\<lparr>pt_unit := (pt_unit y)\<lparr>u_levelUp := False\<rparr>\<rparr>)
         (updatePet (pt_slot x) 0x23 1 (getLevel (pt_unit x)) 0 h))"

definition update_pet_mod :: "u8 \<Rightarrow> u8 \<Rightarrow> unit_rec \<Rightarrow> nat \<Rightarrow> hero \<Rightarrow> hero" where
  "update_pet_mod slot updflag u i h = updatePet slot updflag (sign_code (uget u i)) (magnitude (uget u i)) 0 h"

definition UpdatePet_slot :: "u8 \<Rightarrow> hero \<Rightarrow> hero res" where
  "UpdatePet_slot slot h =
     bindR (GetPet (unat slot) h) (\<lambda>pp.
       case pp of
         None \<Rightarrow> Inr h
       | Some p \<Rightarrow>
           bindR (get_pet p h) (\<lambda>x.
             let u = pt_unit x;
                 h1 = updatePet slot UPD_FLAG_HPX_MOD 1 0 0 h;
                 h2 = updatePet slot UPD_FLAG_HP 1 (uget u UNIT_FIELD_HP) 0 h1;
                 h3 = updatePet slot UPD_FLAG_SPX_MOD 1 0 0 h2;
                 h4 = updatePet slot UPD_FLAG_SP 1 (uget u UNIT_FIELD_SP) 0 h3;
                 h5 = update_pet_mod slot UPD_FLAG_ATK_MOD u UNIT_FIELD_ATK_MOD h4;
                 h6 = update_pet_mod slot UPD_FLAG_DEF_MOD u UNIT_FIELD_DEF_MOD h5;
                 h7 = update_pet_mod slot UPD_FLAG_INT_MOD u UNIT_FIELD_INT_MOD h6
             in Inr (update_pet_mod slot UPD_FLAG_AGI_MOD u UNIT_FIELD_AGI_MOD h7)))"

definition UpdatePet :: "hero \<Rightarrow> hero res" where
  "UpdatePet h = foldR (\<lambda>k. UpdatePet_slot (of_nat k)) [0..<MAX_PET_SLOT] h"

text \<open>Without a battle pet the first empty slot matches.\<close>

fun find_pet_slot :: "nat list \<Rightarrow> petid option \<Rightarrow> hero \<Rightarrow> nat option res" where
  "find_pet_slot [] bpet h = Inr None"
| "find_pet_slot (k # ks) bpet h =
     bindR (GetPet k h) (\<lambda>p. if p = bpet then Inr (Some k) else find_pet_slot ks bpet h)"

definition UpdatePetBattle :: "hero \<Rightarrow> hero res" where
  "UpdatePetBattle h =
     bindR (find_pet_slot [0..<MAX_PET_SLOT] (h_battlePet h) h) (\<lambda>k.
       case k of None \<Rightarrow> Inr h | Some slot \<Rightarrow> UpdatePet_slot (of_nat slot) h)"

subsection \<open>Inventory, gold, short keys\<close>

fun inventory_fields :: "item_db \<Rightarrow> nat list \<Rightarrow> player_inv \<Rightarrow> field list res" where
  "inventory_fields idb [] s = Inr []"
| "inventory_fields idb (k # ks) s =
     bindR (GetItemByPos k s) (\<lambda>p.
       case p of
         None \<Rightarrow> inventory_fields idb ks s
       | Some i \<Rightarrow>
           bindR (get_item i s) (\<lambda>it.
             case idb (it_entry it) of
               None \<Rightarrow> Inl NullDeref
             | Some pr \<Rightarrow>
                 bindR (inventory_fields idb ks s) (\<lambda>fs.
                   Inr ([FU8 (of_nat (k - INVENTORY_SLOT_ITEM_START + 1)), FU16 (ucast (ip_modelid pr)),
                         FU8 (ucast (it_count it)), FU32 0, FU32 0] @ fs))))"

definition UpdateInventory :: "item_db \<Rightarrow> hero \<Rightarrow> hero res" where
  "UpdateInventory idb h =
     bindR (inventory_fields idb inventory_slots (h_inv h)) (\<lambda>fs.
       Inr (if fs = [] then h else say_session 0x17 (FU8 5 # fs) h))"

definition UpdateInventoryForItem :: "u16 \<Rightarrow> u8 \<Rightarrow> hero \<Rightarrow> hero" where
  "UpdateInventoryForItem modelid count h = say_session 0x17 [FU8 6, FU16 modelid, FU16 (ucast count), FU32 0] h"

definition UpdateCurrentGold :: "hero \<Rightarrow> hero" where
  "UpdateCurrentGold h = say_session 0x1A [FU8 4, fld32 (h_unit h) PLAYER_GOLD_INHAND, FU32 100000] h"

definition UpdateGold :: "i32 \<Rightarrow> hero \<Rightarrow> hero" where
  "UpdateGold value h =
     (if value = 0 then h else say_session 0x1A [FU8 (if 0 < sint value then 1 else 2), FU32 (magnitude value)] h)"

definition shortkey_fields :: "unit_rec \<Rightarrow> nat \<Rightarrow> field list" where
  "shortkey_fields u i =
     (let v = uget u (PLAYER_SHORTKEY_F1 + i)
      in if v = 0 then [] else [FU8 (if v > 22000 then 1 else 2), FU16 (ucast v), FU8 (of_nat (i + 1))])"

definition UpdateShortkey :: "hero \<Rightarrow> hero" where
  "UpdateShortkey h =
     (let fs = concat (map (shortkey_fields (h_unit h)) [0..<10])
      in if fs = [] then h else say_session 0x28 (FU8 1 # fs) h)"

definition UpdateEnablePK :: "hero \<Rightarrow> hero" where
  "UpdateEnablePK h = say_session 0x21 [FU8 0] h"

definition UpdateEnableEngage :: "hero \<Rightarrow> hero" where
  "UpdateEnableEngage h =
     say_session 0x21 [FU8 2, FU8 (if uget (h_unit h) PLAYER_ENABLE_ENGAGE \<noteq> 0 then 1 else 0)] h"

definition Send0504 :: "hero \<Rightarrow> hero" where "Send0504 h = say_session 0x05 [FU8 4] h"
definition Send0F0A :: "hero \<Rightarrow> hero" where "Send0F0A h = say_session 0x0F [FU8 0x0A] h"
definition Send0602 :: "hero \<Rightarrow> hero" where "Send0602 h = say_session 0x06 [FU8 2] h"
definition Send1406 :: "hero \<Rightarrow> hero" where "Send1406 h = say_session 0x14 [FU8 6] h"
definition Send1408 :: "hero \<Rightarrow> hero" where "Send1408 h = say_session 0x14 [FU8 8] h"

definition AllowPlayerToMove :: "hero \<Rightarrow> hero" where "AllowPlayerToMove h = Send0F0A (Send0504 h)"
definition EndOfRequest :: "hero \<Rightarrow> hero" where "EndOfRequest h = Send1408 h"

subsection \<open>Pets\<close>

definition pet_model :: "pet_rec \<Rightarrow> u16" where
  "pet_model x = ucast (uget (pt_unit x) UNIT_FIELD_DISPLAYID)"

definition GetEquip :: "nat \<Rightarrow> pet_rec \<Rightarrow> iid option res" where
  "GetEquip slot x = (if slot < length (pt_items x) then Inr (pt_items x ! slot) else Inl OutOfBounds)"

definition GetEquipModelId :: "item_db \<Rightarrow> nat \<Rightarrow> pet_rec \<Rightarrow> player_inv \<Rightarrow> u16 res" where
  "GetEquipModelId idb slot x s =
     bindR (GetEquip slot x) (\<lambda>p. case p of None \<Rightarrow> Inr 0 | Some i \<Rightarrow> item_model idb i s)"

text \<open>The equipment of a pet goes over as head, body, wrists, weapon, feet, special.\<close>

fun pet_equip_fields :: "item_db \<Rightarrow> nat list \<Rightarrow> pet_rec \<Rightarrow> player_inv \<Rightarrow> field list res" where
  "pet_equip_fields idb [] x s = Inr []"
| "pet_equip_fields idb (k # ks) x s =
     bindR (GetEquipModelId idb k x s) (\<lambda>m. bindR (pet_equip_fields idb ks x s) (\<lambda>fs.
       Inr ([FU16 m, FU8 0xFF, FU32 0, FU16 0, FU8 0] @ fs)))"

definition pet_fields :: "item_db \<Rightarrow> pet_rec \<Rightarrow> player_inv \<Rightarrow> field list res" where
  "pet_fields idb x s =
     (let u = pt_unit x
      in bindR (pet_equip_fields idb [0, 1, 3, 2, 4, 5] x s) (\<lambda>eq. Inr (
          [FU8 (pt_slot x + 1), FU16 (pet_model x), FU32 (GetExpGained u), fld8 u UNIT_FIELD_LEVEL,
           fld16 u UNIT_FIELD_HP, fld16 u UNIT_FIELD_SP, fld16 u UNIT_FIELD_INT, fld16 u UNIT_FIELD_ATK, fld16 u UNIT_FIELD_DEF,
           fld16 u UNIT_FIELD_AGI, fld16 u UNIT_FIELD_HPX, fld16 u UNIT_FIELD_SPX, FU8 5, FU8 (u_loyalty u), FU8 1,
           fld16 u UNIT_FIELD_SPELL_POINT, FU8 (of_nat (length (pt_name x)))] @ str_fields (pt_name x) @
          [FU8 (GetSpellLevelByPos 0 u), FU8 (GetSpellLevelByPos 1 u), FU8 (GetSpellLevelByPos 2 u)] @ eq @ [FU16 0])))"

fun carried_fields :: "item_db \<Rightarrow> nat list \<Rightarrow> hero \<Rightarrow> field list res" where
  "carried_fields idb [] h = Inr []"
| "carried_fields idb (k # ks) h =
     bindR (GetPet k h) (\<lambda>pp.
       case pp of
         None \<Rightarrow> carried_fields idb ks h
       | Some p \<Rightarrow>
           bindR (get_pet p h) (\<lambda>x.
           bindR (pet_fields idb x (h_inv h)) (\<lambda>fs.
           bindR (carried_fields idb ks h) (\<lambda>gs. Inr (fs @ gs)))))"

definition UpdatePetCarried :: "item_db \<Rightarrow> hero \<Rightarrow> hero res" where
  "UpdatePetCarried idb h =
     bindR (carried_fields idb [0..<MAX_PET_SLOT] h) (\<lambda>fs.
       if fs = [] then Inr h else say_must 0x0F (FU8 8 # fs) h)"

definition UpdateBattlePet :: "hero \<Rightarrow> hero res" where
  "UpdateBattlePet h =
     bindR (case h_battlePet h of None \<Rightarrow> Inr 0 | Some p \<Rightarrow> bindR (get_pet p h) (\<lambda>x. Inr (pet_model x))) (\<lambda>m.
       Inr (say_session 0x13 [FU8 (if m \<noteq> 0 then 1 else 2), FU16 m, FU16 0] h))"

subsection \<open>Reading a modifier back\<close>

definition read_mod :: "u8 \<Rightarrow> u32 \<Rightarrow> i32" where
  "read_mod code v = (if code = 0 then 0 else if code = 1 then v else - v)"

lemma read_mod_sign_code: "read_mod (sign_code v) (magnitude v) = v"
  by (auto simp: read_mod_def sign_code_def magnitude_def word_sless_alt) (metis not_less_iff_gr_or_eq signed_eq_0_iff)

text \<open>The modifier a client holds for a field after some messages: the last one for the field counts.\<close>

fun client_mod :: "outgoing list \<Rightarrow> u8 \<Rightarrow> i32 option" where
  "client_mod [] flag = None"
| "client_mod (m # ms) flag =
     (case client_mod ms flag of
        Some v \<Rightarrow> Some v
      | None \<Rightarrow>
          (case m of
             (ToSession, opcode, [FU8 a, FU8 f, FU8 code, FU32 v, FU16 _, FU16 _]) \<Rightarrow>
               if opcode = 0x08 \<and> a = 1 \<and> f = flag then Some (read_mod code v) else None
           | _ \<Rightarrow> None))"

lemma client_mod_append:
  "client_mod (xs @ ys) flag = (case client_mod ys flag of Some v \<Rightarrow> Some v | None \<Rightarrow> client_mod xs flag)"
  by (induction xs) (auto split: option.splits)

lemma client_mod_updatePlayer:
  "h_session h \<Longrightarrow> client_mod (h_out (updatePlayer f code v e h)) flag =
     (if f = flag then Some (read_mod code v) else client_mod (h_out h) flag)"
  by (simp add: updatePlayer_def say_session_def say_def client_mod_append)

text \<open>The modifiers of a player and the flags their messages carry.\<close>

definition mod_flags :: "(u8 \<times> nat) list" where
  "mod_flags = [(UPD_FLAG_HPX_MOD, UNIT_FIELD_HPX_MOD), (UPD_FLAG_SPX_MOD, UNIT_FIELD_SPX_MOD),
     (UPD_FLAG_ATK_MOD, UNIT_FIELD_ATK_MOD), (UPD_FLAG_DEF_MOD, UNIT_FIELD_DEF_MOD),
     (UPD_FLAG_INT_MOD, UNIT_FIELD_INT_MOD), (UPD_FLAG_AGI_MOD, UNIT_FIELD_AGI_MOD)]"

lemma updatePlayer_keeps [simp]:
  "h_unit (updatePlayer f c v e h) = h_unit h" "h_session (updatePlayer f c v e h) = h_session h"
  "h_inv (updatePlayer f c v e h) = h_inv h"
  by (simp_all add: updatePlayer_def say_session_def say_def)

text \<open>After \<open>UpdatePlayer\<close> the client that reads the sign and the magnitude back holds exactly the six signed
  modifiers of the player, the most negative one included, and nothing but the messages has changed.\<close>

theorem UpdatePlayer_mods:
  assumes "h_session h"
  shows "(\<forall>(f, i) \<in> set mod_flags. client_mod (h_out (UpdatePlayer h)) f = Some (uget (h_unit h) i)) \<and>
    h_unit (UpdatePlayer h) = h_unit h \<and> h_inv (UpdatePlayer h) = h_inv h"
  using assms
  by (simp add: UpdatePlayer_def update_mod_def Let_def mod_flags_def client_mod_updatePlayer read_mod_sign_code)

definition sample_hero :: hero where
  "sample_hero = \<lparr>h_inv = sample_inv, h_unit = uset UNIT_FIELD_INT_MOD (- 5) sample_unit, h_account = 1, h_name = [74, 111],
     h_map = 10, h_x = 100, h_y = 200, h_session = True, h_petHeap = Map.empty, h_pets = replicate 10 None,
     h_battlePet = None, h_petNext = 0, h_petQueue = [], h_petBlocked = False, h_petRows = Map.empty, h_row = None, h_spellRows = [],
     h_insert = Some, h_out = []\<rparr>"

theorem UpdatePlayer_mods_witness:
  "client_mod (h_out (UpdatePlayer sample_hero)) UPD_FLAG_INT_MOD = Some (- 5)"
  using UpdatePlayer_mods [of sample_hero] by (simp add: sample_hero_def mod_flags_def uset_def)

end
