(* ===== verification/Equipment.thy ===== *)
theory Equipment
  imports PlayerPackets
begin

text \<open>
  Equipment of players and pets (\<open>src/game/Player.cpp\<close>): the modifiers an item applies, the bonus of a
  full item set, which slot an item fits, equipping and taking off. A unit is the player or one of its
  pets.
\<close>

datatype wearer = Self | PetUnit petid

definition wearer_unit :: "wearer \<Rightarrow> hero \<Rightarrow> unit_rec res" where
  "wearer_unit w h = (case w of Self \<Rightarrow> Inr (h_unit h) | PetUnit p \<Rightarrow> bindR (get_pet p h) (\<lambda>x. Inr (pt_unit x)))"

definition upd_wearer :: "wearer \<Rightarrow> (unit_rec \<Rightarrow> unit_rec) \<Rightarrow> hero \<Rightarrow> hero res" where
  "upd_wearer w f h =
     (case w of
        Self \<Rightarrow> Inr (h\<lparr>h_unit := f (h_unit h)\<rparr>)
      | PetUnit p \<Rightarrow> upd_pet p (\<lambda>x. x\<lparr>pt_unit := f (pt_unit x)\<rparr>) h)"

subsection \<open>Modifiers\<close>

definition ITEM_MOD_INT :: u32 where [simp]: "ITEM_MOD_INT = 3"
definition ITEM_MOD_ATK :: u32 where [simp]: "ITEM_MOD_ATK = 4"
definition ITEM_MOD_DEF :: u32 where [simp]: "ITEM_MOD_DEF = 5"
definition ITEM_MOD_HPX :: u32 where [simp]: "ITEM_MOD_HPX = 6"
definition ITEM_MOD_SPX :: u32 where [simp]: "ITEM_MOD_SPX = 7"
definition ITEM_MOD_AGI :: u32 where [simp]: "ITEM_MOD_AGI = 8"
definition ITEM_MOD_ELEMENT_EARTH :: u32 where [simp]: "ITEM_MOD_ELEMENT_EARTH = 10"
definition ITEM_MOD_ELEMENT_WATER :: u32 where [simp]: "ITEM_MOD_ELEMENT_WATER = 11"
definition ITEM_MOD_ELEMENT_FIRE :: u32 where [simp]: "ITEM_MOD_ELEMENT_FIRE = 12"
definition ITEM_MOD_ELEMENT_WIND :: u32 where [simp]: "ITEM_MOD_ELEMENT_WIND = 13"
definition ITEM_MOD_HP :: u32 where [simp]: "ITEM_MOD_HP = 15"
definition ITEM_MOD_SP :: u32 where [simp]: "ITEM_MOD_SP = 16"

definition IsEquipped :: "item \<Rightarrow> bool" where
  "IsEquipped it \<longleftrightarrow> it_container it \<noteq> None \<or> unat (it_slot it) < EQUIPMENT_SLOT_END"

definition IncItemSet :: "u8 \<Rightarrow> u8" where
  "IncItemSet n = (if n < 5 then n + 1 else 5)"

definition DecItemSet :: "u8 \<Rightarrow> u8" where
  "DecItemSet n = (if n > 0 then n - 1 else 0)"

text \<open>The field a stat of the item goes to, none for the others.\<close>

definition stat_field :: "u32 \<Rightarrow> nat option" where
  "stat_field t =
     (if t = ITEM_MOD_INT then Some UNIT_FIELD_INT_MOD
      else if t = ITEM_MOD_ATK then Some UNIT_FIELD_ATK_MOD
      else if t = ITEM_MOD_DEF then Some UNIT_FIELD_DEF_MOD
      else if t = ITEM_MOD_AGI then Some UNIT_FIELD_AGI_MOD
      else if t = ITEM_MOD_HPX then Some UNIT_FIELD_HPX_MOD
      else if t = ITEM_MOD_SPX then Some UNIT_FIELD_SPX_MOD
      else None)"

definition stat_element :: "u32 \<Rightarrow> u8 option" where
  "stat_element t =
     (if t = ITEM_MOD_ELEMENT_EARTH then Some 1
      else if t = ITEM_MOD_ELEMENT_WATER then Some 2
      else if t = ITEM_MOD_ELEMENT_FIRE then Some 3
      else if t = ITEM_MOD_ELEMENT_WIND then Some 4
      else None)"

text \<open>
  The loop over the stats: the modifiers collected so far (a \<open>std::map\<close>, where the first value of a
  field stays), whether an element matched, the bonus and the unit's item set count.
\<close>

type_synonym mods = "(nat \<times> i32) list"

fun parse_stats :: "u8 \<Rightarrow> bool \<Rightarrow> (u32 \<times> i32) list \<Rightarrow> mods \<times> bool \<times> i32 \<times> u8 \<Rightarrow> mods \<times> bool \<times> i32 \<times> u8" where
  "parse_stats element apply_it [] acc = acc"
| "parse_stats element apply_it ((t, value) # stats) (m, bonus, el, n) =
     parse_stats element apply_it stats
       (if t = 0 then (m, bonus, el, n)
        else case stat_element t of
               Some e \<Rightarrow>
                 if element \<noteq> e then (m, bonus, el, n)
                 else (m, True, el + value, if apply_it then IncItemSet n else DecItemSet n)
             | None \<Rightarrow>
                 (case stat_field t of
                    None \<Rightarrow> (m, bonus, el, n)
                  | Some f \<Rightarrow> (if map_of m f = None then m @ [(f, value)] else m, bonus, el, n)))"

text \<open>Applying one collected modifier; \<open>int32\<close> arithmetic wraps.\<close>

definition apply_mod :: "bool \<Rightarrow> bool \<Rightarrow> i32 \<Rightarrow> nat \<times> i32 \<Rightarrow> unit_rec \<Rightarrow> unit_rec" where
  "apply_mod apply_it bonus el = (\<lambda>(f, v) u.
     let d = (if bonus \<and> 0 < sint v then v + el else v)
     in uset f (if apply_it then uget u f + d else uget u f - d) u)"

text \<open>
  The part of \<open>_ApplyItemModsFor\<close> that changes the unit. The bonus of a full set, which the handlers refresh after it, is
  \<open>refresh_set\<close>.
\<close>

definition ApplyItemMods :: "(u32 \<times> i32) list \<Rightarrow> bool \<Rightarrow> unit_rec \<Rightarrow> unit_rec" where
  "ApplyItemMods stats apply_it u =
     (case parse_stats (ucast (uget u UNIT_FIELD_ELEMENT)) apply_it (take 10 stats) ([], False, 0, u_itemSet u) of
        (m, bonus, el, n) \<Rightarrow> fold (apply_mod apply_it bonus el) (sort_key fst m) (u\<lparr>u_itemSet := n\<rparr>))"

definition ApplyItemModsFor :: "item_db \<Rightarrow> wearer \<Rightarrow> iid option \<Rightarrow> bool \<Rightarrow> hero \<Rightarrow> hero res" where
  "ApplyItemModsFor idb w item apply_it h =
     (case item of
        None \<Rightarrow> Inr h
      | Some i \<Rightarrow>
          bindR (get_item i (h_inv h)) (\<lambda>it.
            if \<not> IsEquipped it then Inr h
            else case idb (it_entry it) of
                   None \<Rightarrow> Inr h
                 | Some p \<Rightarrow> upd_wearer w (ApplyItemMods (ip_stats p) apply_it) h))"

definition add_mod :: "i32 \<Rightarrow> nat \<Rightarrow> unit_rec \<Rightarrow> unit_rec" where
  "add_mod bonus f u = uset f (uget u f + bonus) u"

definition ApplyItemSetMods :: "bool \<Rightarrow> unit_rec \<Rightarrow> unit_rec" where
  "ApplyItemSetMods apply_it u =
     (if \<not> apply_it \<and> \<not> u_itemSetApplied u then u
      else let bonus = (if apply_it then 5 else - 5)
           in fold (add_mod bonus) [UNIT_FIELD_INT_MOD, UNIT_FIELD_ATK_MOD, UNIT_FIELD_DEF_MOD, UNIT_FIELD_AGI_MOD]
                (u\<lparr>u_itemSetApplied := apply_it\<rparr>))"

text \<open>What follows every change of equipment of the player.\<close>

definition refresh_set :: "unit_rec \<Rightarrow> unit_rec" where
  "refresh_set u = ApplyItemSetMods (u_itemSet u = 5) u"

subsection \<open>Taking an item off undoes putting it on\<close>

text \<open>The stats of the item that raise the item set count of a unit of this element.\<close>

definition set_pieces :: "u8 \<Rightarrow> (u32 \<times> i32) list \<Rightarrow> nat" where
  "set_pieces element stats = length (filter (\<lambda>(t, _). t \<noteq> 0 \<and> stat_element t = Some element) stats)"

lemma set_pieces_simps:
  "set_pieces e [] = 0"
  "set_pieces e ((t, v) # stats) = (if t \<noteq> 0 \<and> stat_element t = Some e then Suc (set_pieces e stats) else set_pieces e stats)"
  by (simp_all add: set_pieces_def)

lemma parse_stats_same:
  "\<exists>M B E. \<forall>b n. \<exists>N. parse_stats e b stats (m, bo, el, n) = (M, B, E, N)"
proof (induction stats arbitrary: m bo el)
  case Nil
  then show ?case by auto
next
  case (Cons s stats)
  obtain t v where s: "s = (t, v)" by fastforce
  define upd where "upd = (if t = 0 then (m, bo, el) else case stat_element t of
      Some e' \<Rightarrow> if e \<noteq> e' then (m, bo, el) else (m, True, el + v)
    | None \<Rightarrow> (case stat_field t of None \<Rightarrow> (m, bo, el)
        | Some f \<Rightarrow> (if map_of m f = None then m @ [(f, v)] else m, bo, el)))"
  obtain m' bo' el' where upd': "upd = (m', bo', el')" by (cases upd)
  have "\<exists>n'. parse_stats e b (s # stats) (m, bo, el, n) = parse_stats e b stats (m', bo', el', n')" for b n
    using upd' by (auto simp: s upd_def split: option.splits if_splits)
  then show ?case
    using Cons.IH [of m' bo' el'] by metis
qed

definition set_count :: "(mods \<times> bool \<times> i32 \<times> u8) \<Rightarrow> u8" where
  "set_count = (\<lambda>(_, _, _, n). n)"

lemma unat_Inc: "unat n < 5 \<Longrightarrow> unat (IncItemSet n) = Suc (unat n)"
  by (simp add: IncItemSet_def word_less_nat_alt unat_word_ariths)

lemma unat_Dec: "unat (DecItemSet n) = unat n - 1"
proof (cases "n = 0")
  case False
  then have "1 \<le> n" by (simp add: word_le_nat_alt unat_gt_0 Suc_leI)
  then show ?thesis using False by (simp add: DecItemSet_def word_gt_0 unat_sub)
qed (simp add: DecItemSet_def)

lemma parse_stats_up:
  "unat n + set_pieces e stats \<le> 5 \<Longrightarrow>
   unat (set_count (parse_stats e True stats (m, bo, el, n))) = unat n + set_pieces e stats"
proof (induction stats arbitrary: m bo el n)
  case Nil
  then show ?case by (simp add: set_count_def set_pieces_simps)
next
  case (Cons s stats)
  obtain t v where s: "s = (t, v)" by fastforce
  then show ?case
    using Cons.prems Cons.IH by (auto simp: set_pieces_simps unat_Inc split: option.splits if_splits)
qed

lemma parse_stats_down:
  "unat (set_count (parse_stats e False stats (m, bo, el, n))) = unat n - set_pieces e stats"
proof (induction stats arbitrary: m bo el n)
  case Nil
  then show ?case by (simp add: set_count_def set_pieces_simps)
next
  case (Cons s stats)
  obtain t v where s: "s = (t, v)" by fastforce
  then show ?case
    using Cons.IH by (auto simp: set_pieces_simps unat_Dec split: option.splits if_splits)
qed

definition mod_fields :: "nat set" where
  "mod_fields = {UNIT_FIELD_INT_MOD, UNIT_FIELD_ATK_MOD, UNIT_FIELD_DEF_MOD, UNIT_FIELD_AGI_MOD, UNIT_FIELD_HPX_MOD, UNIT_FIELD_SPX_MOD}"

lemma stat_field_mod: "stat_field t = Some f \<Longrightarrow> f \<in> mod_fields"
  by (auto simp: stat_field_def mod_fields_def split: if_splits)

lemma parse_stats_keys:
  assumes "parse_stats e b stats (m, bo, el, n) = (M, B, E, N)" and "distinct (map fst m)" and "fst ` set m \<subseteq> mod_fields"
  shows "distinct (map fst M) \<and> fst ` set M \<subseteq> mod_fields"
  using assms
proof (induction stats arbitrary: m bo el n)
  case Nil
  then show ?case by simp
next
  case (Cons s stats)
  obtain t v where s: "s = (t, v)" by fastforce
  have "distinct (map fst (if map_of m f = None then m @ [(f, v)] else m)) \<and>
      fst ` set (if map_of m f = None then m @ [(f, v)] else m) \<subseteq> mod_fields" if "stat_field t = Some f" for f
    using Cons.prems(2,3) stat_field_mod [OF that] by (auto simp: map_of_eq_None_iff)
  then show ?case
    using Cons.prems Cons.IH by (auto simp: s split: option.splits if_splits)
qed

lemma fold_apply_mod:
  assumes "distinct (map fst xs)"
  shows "fold (apply_mod b bonus el) xs u = u\<lparr>u_vals := (\<lambda>i. case map_of xs i of None \<Rightarrow> uget u i
    | Some v \<Rightarrow> let d = (if bonus \<and> 0 < sint v then v + el else v) in if b then uget u i + d else uget u i - d)\<rparr>"
  using assms
proof (induction xs arbitrary: u)
  case Nil
  then show ?case by simp
next
  case (Cons x xs)
  obtain f v where x: "x = (f, v)" by fastforce
  have "map_of xs f = None"
    using Cons.prems by (simp add: x map_of_eq_None_iff)
  then show ?case
    using Cons by (auto simp: x apply_mod_def uset_def Let_def fun_eq_iff split: option.splits)
qed

text \<open>C21: the modifiers of an item are undone exactly: applying them when it is put on and again when it is taken off
  restores the unit, modifiers, element bonus and item set count, for every list of stats, as long as the set
  count does not pass five. The bonus of a full set, which the handlers apply or remove after the modifiers, is not
  part of this.\<close>

theorem item_mods_undo:
  assumes "unat (u_itemSet u) + set_pieces (ucast (uget u UNIT_FIELD_ELEMENT)) (take 10 stats) \<le> 5"
  shows "ApplyItemMods stats False (ApplyItemMods stats True u) = u"
proof -
  let ?e = "ucast (uget u UNIT_FIELD_ELEMENT) :: u8"
  let ?stats = "take 10 stats"
  obtain M B E where same: "\<And>b n. \<exists>N. parse_stats ?e b ?stats ([], False, 0, n) = (M, B, E, N)"
    using parse_stats_same [of ?e ?stats "[]" False 0] by blast
  obtain N where N: "parse_stats ?e True ?stats ([], False, 0, u_itemSet u) = (M, B, E, N)"
    using same by blast
  have keys: "distinct (map fst M)" "fst ` set M \<subseteq> mod_fields"
    using parse_stats_keys [OF N] by simp_all
  define xs where "xs = sort_key fst M"
  have xs: "distinct (map fst xs)" "fst ` set xs \<subseteq> mod_fields"
    using keys by (simp_all add: xs_def distinct_map distinct_insort)
  have el: "map_of xs UNIT_FIELD_ELEMENT = None"
    using xs(2) by (auto simp: map_of_eq_None_iff mod_fields_def)
  have up: "unat N = unat (u_itemSet u) + set_pieces ?e ?stats"
    using parse_stats_up [OF assms, of "[]" False 0] N by (simp add: set_count_def)
  define v where "v = ApplyItemMods stats True u"
  have v: "v = u\<lparr>u_itemSet := N, u_vals := (\<lambda>i. case map_of xs i of None \<Rightarrow> uget u i
      | Some x \<Rightarrow> uget u i + (if B \<and> 0 < sint x then x + E else x))\<rparr>"
    using N fold_apply_mod [OF xs(1), of True B E "u\<lparr>u_itemSet := N\<rparr>"] by (simp add: v_def ApplyItemMods_def xs_def Let_def cong: option.case_cong)
  have ev: "uget v UNIT_FIELD_ELEMENT = uget u UNIT_FIELD_ELEMENT"
    using el by (simp add: v)
  obtain N' where N': "parse_stats ?e False ?stats ([], False, 0, N) = (M, B, E, N')"
    using same by blast
  then have "unat N' = unat N - set_pieces ?e ?stats"
    using parse_stats_down [of ?e ?stats "[]" False 0 N] by (simp add: set_count_def)
  then have "N' = u_itemSet u"
    using up by (simp add: word_unat_eq_iff)
  have "u_itemSet v = N" by (simp add: v)
  then have "ApplyItemMods stats False v = fold (apply_mod False B E) xs (v\<lparr>u_itemSet := N'\<rparr>)"
    using N' ev by (simp add: ApplyItemMods_def xs_def)
  also have "\<dots> = v\<lparr>u_itemSet := N', u_vals := (\<lambda>i. case map_of xs i of None \<Rightarrow> uget v i
      | Some x \<Rightarrow> uget v i - (if B \<and> 0 < sint x then x + E else x))\<rparr>"
    using fold_apply_mod [OF xs(1), of False B E "v\<lparr>u_itemSet := N'\<rparr>"] by (simp add: Let_def cong: option.case_cong)
  also have "(\<lambda>i. case map_of xs i of None \<Rightarrow> uget v i
      | Some x \<Rightarrow> uget v i - (if B \<and> 0 < sint x then x + E else x)) = u_vals u"
    by (rule ext) (simp add: v split: option.split)
  also have "v\<lparr>u_itemSet := N', u_vals := u_vals u\<rparr> = u"
    using \<open>N' = u_itemSet u\<close> by (simp add: v)
  finally show ?thesis by (simp add: v_def)
qed

theorem item_mods_undo_witness:
  "ApplyItemMods [(4, 7), (12, 3), (0, 9), (6, - 2)] False
     (ApplyItemMods [(4, 7), (12, 3), (0, 9), (6, - 2)] True (uset UNIT_FIELD_ELEMENT 3 sample_unit)) =
   uset UNIT_FIELD_ELEMENT 3 sample_unit"
proof -
  have "unat (u_itemSet (uset UNIT_FIELD_ELEMENT 3 sample_unit)) +
      set_pieces (ucast (uget (uset UNIT_FIELD_ELEMENT 3 sample_unit) UNIT_FIELD_ELEMENT)) (take 10 [(4, 7), (12, 3), (0, 9), (6, - 2)]) \<le> 5"
    by (simp add: uset_def sample_unit_def set_pieces_def stat_element_def)
  then show ?thesis by (rule item_mods_undo)
qed

subsection \<open>The bonus of a full set\<close>

definition set_fields :: "nat list" where
  "set_fields = [UNIT_FIELD_INT_MOD, UNIT_FIELD_ATK_MOD, UNIT_FIELD_DEF_MOD, UNIT_FIELD_AGI_MOD]"

lemma ApplyItemSetMods_fields:
  "f \<in> set set_fields \<Longrightarrow>
   uget (ApplyItemSetMods b u) f = (if \<not> b \<and> \<not> u_itemSetApplied u then uget u f else if b then uget u f + 5 else uget u f - 5)"
  by (auto simp: ApplyItemSetMods_def set_fields_def add_mod_def uset_def Let_def)

lemma ApplyItemSetMods_rest:
  "u_itemSet (ApplyItemSetMods b u) = u_itemSet u"
  "u_itemSetApplied (ApplyItemSetMods b u) = (if b then True else False)"
  by (auto simp: ApplyItemSetMods_def add_mod_def uset_def Let_def)

lemma refresh_set_many:
  assumes "u_itemSet u = 5" and "f \<in> set set_fields"
  shows "uget ((refresh_set ^^ n) u) f = uget u f + 5 * of_nat n \<and> u_itemSet ((refresh_set ^^ n) u) = 5 \<and>
    (0 < n \<longrightarrow> u_itemSetApplied ((refresh_set ^^ n) u))"
proof (induction n)
  case 0
  then show ?case using assms by simp
next
  case (Suc n)
  then show ?case
    using assms(2) by (simp add: refresh_set_def ApplyItemSetMods_fields ApplyItemSetMods_rest algebra_simps)
qed

text \<open>The bonus of a full set is added again at every change of equipment that leaves five pieces on, but taken
  away only once: after \<open>n\<close> changes with a full set and one that breaks it, each of the four modifiers keeps
  five points for every change but the first.\<close>

theorem item_set_bonus_grows:
  assumes "u_itemSet u = 5" and "f \<in> set set_fields" and "0 < n"
    and "v = (refresh_set ^^ n) u" and "broken = v\<lparr>u_itemSet := 4\<rparr>"
  shows "uget v f = uget u f + 5 * of_nat n \<and> uget (refresh_set broken) f = uget u f + 5 * of_nat (n - 1) \<and>
    refresh_set (refresh_set broken) = refresh_set broken"
proof -
  note many = refresh_set_many [OF assms(1,2), of n]
  have applied: "u_itemSetApplied broken" "uget broken f = uget u f + 5 * of_nat n" "u_itemSet broken = 4"
    using many assms(3) by (simp_all add: assms(4,5))
  have "refresh_set broken = ApplyItemSetMods False broken"
    using applied(3) by (simp add: refresh_set_def)
  then have once: "uget (refresh_set broken) f = uget broken f - 5" "\<not> u_itemSetApplied (refresh_set broken)" "u_itemSet (refresh_set broken) = 4"
    using applied assms(2) by (simp_all add: ApplyItemSetMods_fields ApplyItemSetMods_rest)
  then have "refresh_set (refresh_set broken) = refresh_set broken"
    by (simp add: refresh_set_def [of "refresh_set broken"] ApplyItemSetMods_def)
  moreover have "(5 :: i32) * of_nat n - 5 = 5 * of_nat (n - 1)"
    using assms(3) by (cases n) simp_all
  ultimately show ?thesis
    using many applied(2) once(1) assms(4) by (simp add: add_diff_eq [symmetric])
qed

theorem item_set_bonus_grows_witness:
  "uget (refresh_set (((refresh_set ^^ 3) (sample_unit\<lparr>u_itemSet := 5\<rparr>))\<lparr>u_itemSet := 4\<rparr>)) UNIT_FIELD_ATK_MOD = 10"
proof -
  have f: "UNIT_FIELD_ATK_MOD \<in> set set_fields" by (simp add: set_fields_def)
  have "u_itemSet (sample_unit\<lparr>u_itemSet := 5\<rparr>) = 5" "uget (sample_unit\<lparr>u_itemSet := 5\<rparr>) UNIT_FIELD_ATK_MOD = 0"
    by (simp_all add: sample_unit_def)
  then show ?thesis
    using item_set_bonus_grows [OF _ f, of "sample_unit\<lparr>u_itemSet := 5\<rparr>" 3, OF _ _ refl refl] by simp
qed

end
