(* ===== verification/Pets.thy ===== *)
theory Pets
  imports Equipment
begin

text \<open>
  The pets of a player (\<open>src/game/Pet.cpp\<close>, \<open>src/game/Player.cpp\<close>): their update state and queue, the
  table \<open>character_pet\<close>, creating, summoning, releasing them and the battle pet. Creature templates are
  the argument \<open>cdb\<close>. The owner an operation finds through the owner field of a pet is the player when
  the field holds its guid; another owner is none.
\<close>

record creature_info =
  ci_modelid :: u32
  ci_Name :: bytes
  ci_hp :: u32
  ci_sp :: u32
  ci_int :: u32
  ci_atk :: u32
  ci_def :: u32
  ci_hpx :: u32
  ci_spx :: u32
  ci_agi :: u32
  ci_level :: u32
  ci_element :: u32
  ci_reborn :: u32
  ci_spells :: "u32 list"
  ci_drops :: "u32 list"

type_synonym creature_db = "u32 \<Rightarrow> creature_info option"

datatype pet_change =
  PET_ERR_OK | PET_ERR_PET_NOT_FOUND | PET_ERR_PET_CANT_BE_SWAPPED | PET_ERR_PET_CANT_BE_SUMMONED
| PET_ERR_PET_ALREADY_SUMMONED

definition pet_guid :: "pet_rec \<Rightarrow> u64" where
  "pet_guid x = MAKE_GUID (pt_low x) HIGHGUID_UNIT"

definition pet_owner :: "pet_rec \<Rightarrow> u64" where
  "pet_owner x = uget64 UNIT_FIELD_SUMMONEDBY (pt_unit x)"

text \<open>\<open>Pet::SetOwnerGUID\<close> writes the owner field of items, which in a unit is the summon field.\<close>

definition pet_SetOwnerGUID :: "u64 \<Rightarrow> pet_rec \<Rightarrow> pet_rec" where
  "pet_SetOwnerGUID g x = x\<lparr>pt_unit := uset64 ITEM_FIELD_OWNER g (pt_unit x)\<rparr>"

subsection \<open>The update queue\<close>

definition pet_AddToUpdateQueue :: "petid \<Rightarrow> hero \<Rightarrow> hero res" where
  "pet_AddToUpdateQueue p h =
     bindR (get_pet p h) (\<lambda>x.
       if pt_qpos x \<noteq> - 1 then Inr h
       else if inv_guid (h_inv h) \<noteq> pet_owner x then Inr h
       else if h_petBlocked h then Inr h
       else let q = h_petQueue h @ [Some p]
            in Inr (put_pet p (x\<lparr>pt_qpos := to_int16 (length q - 1)\<rparr>) (h\<lparr>h_petQueue := q\<rparr>)))"

definition pet_RemoveFromUpdateQueue :: "petid \<Rightarrow> hero \<Rightarrow> hero res" where
  "pet_RemoveFromUpdateQueue p h =
     bindR (get_pet p h) (\<lambda>x.
       if pt_qpos x = - 1 then Inr h
       else if inv_guid (h_inv h) \<noteq> pet_owner x then Inr h
       else if h_petBlocked h then Inr h
       else if 0 \<le> pt_qpos x \<and> nat (pt_qpos x) < length (h_petQueue h)
       then Inr (put_pet p (x\<lparr>pt_qpos := - 1\<rparr>)
              (h\<lparr>h_petQueue := (h_petQueue h)[nat (pt_qpos x) := None]\<rparr>))
       else Inl OutOfBounds)"

definition delete_pet :: "petid \<Rightarrow> hero \<Rightarrow> hero" where
  "delete_pet p h = h\<lparr>h_petHeap := (h_petHeap h)(p := None)\<rparr>"

definition pet_state :: "pet_rec \<Rightarrow> pet_update_state" where
  "pet_state x = u_petState (pt_unit x)"

definition with_state :: "pet_update_state \<Rightarrow> pet_rec \<Rightarrow> pet_rec" where
  "with_state st x = x\<lparr>pt_unit := (pt_unit x)\<lparr>u_petState := st\<rparr>\<rparr>"

definition pet_SetState :: "petid \<Rightarrow> pet_update_state \<Rightarrow> hero \<Rightarrow> hero res" where
  "pet_SetState p st h =
     bindR (get_pet p h) (\<lambda>x.
       if pet_state x = PET_NEW \<and> st = PET_REMOVED
       then bindR (pet_RemoveFromUpdateQueue p h) (\<lambda>h1. Inr (delete_pet p h1))
       else if st \<noteq> PET_UNCHANGED
       then pet_AddToUpdateQueue p (if pet_state x \<noteq> PET_NEW then put_pet p (with_state st x) h else h)
       else Inr (put_pet p ((with_state PET_UNCHANGED x)\<lparr>pt_qpos := - 1\<rparr>) h))"

subsection \<open>Saving\<close>

definition pet_levels :: "pet_rec \<Rightarrow> u8 list" where
  "pet_levels x = map (\<lambda>i. GetSpellLevelByPos (of_nat i) (pt_unit x)) [0..<5]"

definition pet_row_of :: "pet_rec \<Rightarrow> pet_row" where
  "pet_row_of x =
     (GUID_LOPART (pet_owner x), pt_name x, u_vals (pt_unit x), u_loyalty (pt_unit x), pet_levels x, pt_slot x, pt_battle x = 1)"

text \<open>An update leaves the name, the loyalty and the slot of the row as they are.\<close>

definition pet_row_update :: "pet_rec \<Rightarrow> pet_row \<Rightarrow> pet_row" where
  "pet_row_update x = (\<lambda>(owner, name, vals, loyalty, levels, slot, battle).
     (GUID_LOPART (pet_owner x), name, u_vals (pt_unit x), loyalty, pet_levels x, slot, pt_battle x = 1))"

definition pet_SaveToDB :: "petid \<Rightarrow> hero \<Rightarrow> hero res" where
  "pet_SaveToDB p h =
     bindR (get_pet p h) (\<lambda>x.
       let g = pt_low x
       in case pet_state x of
            PET_NEW \<Rightarrow> pet_SetState p PET_UNCHANGED (h\<lparr>h_petRows := (h_petRows h)(g \<mapsto> pet_row_of x)\<rparr>)
          | PET_CHANGED \<Rightarrow>
              pet_SetState p PET_UNCHANGED
                (h\<lparr>h_petRows := (h_petRows h)(g := map_option (pet_row_update x) (h_petRows h g))\<rparr>)
          | PET_REMOVED \<Rightarrow> Inr (delete_pet p (h\<lparr>h_petRows := (h_petRows h)(g := None)\<rparr>))
          | PET_UNCHANGED \<Rightarrow> pet_SetState p PET_UNCHANGED h)"

definition save_pet_entry :: "petid option \<Rightarrow> hero \<Rightarrow> hero res" where
  "save_pet_entry e h =
     (case e of None \<Rightarrow> Inr h | Some p \<Rightarrow> bindR (get_pet p h) (\<lambda>_. pet_SaveToDB p h))"

definition SavePets :: "hero \<Rightarrow> hero res" where
  "SavePets h =
     (if h_petQueue h = [] then Inr h
      else bindR (foldR save_pet_entry (h_petQueue h) h) (\<lambda>h'. Inr (h'\<lparr>h_petQueue := []\<rparr>)))"

subsection \<open>Looking for pets\<close>

fun find_pet :: "(pet_rec \<Rightarrow> bool) \<Rightarrow> nat list \<Rightarrow> hero \<Rightarrow> petid option res" where
  "find_pet P [] h = Inr None"
| "find_pet P (k # ks) h =
     bindR (GetPet k h) (\<lambda>pp.
       case pp of
         None \<Rightarrow> find_pet P ks h
       | Some p \<Rightarrow> bindR (get_pet p h) (\<lambda>x. if P x then Inr (Some p) else find_pet P ks h))"

definition GetPetByGuid :: "u32 \<Rightarrow> hero \<Rightarrow> petid option res" where
  "GetPetByGuid g h = find_pet (\<lambda>x. pt_low x = g) [0..<MAX_PET_SLOT] h"

definition GetPetByModelId :: "u16 \<Rightarrow> hero \<Rightarrow> petid option res" where
  "GetPetByModelId m h = find_pet (\<lambda>x. pet_model x = m) [0..<MAX_PET_SLOT] h"

definition GetPetSlot :: "petid \<Rightarrow> hero \<Rightarrow> u8 res" where
  "GetPetSlot p h =
     bindR (find_pet_slot [0..<MAX_PET_SLOT] (Some p) h) (\<lambda>k.
       Inr (case k of None \<Rightarrow> 0 | Some slot \<Rightarrow> of_nat slot + 1))"

subsection \<open>Creating\<close>

text \<open>
  \<open>Pet::Create\<close> from a template. The constructor leaves loyalty, slot and battle mode uninitialised:
  they are the argument \<open>junk\<close>.
\<close>

definition pet_stats :: "u32 \<Rightarrow> u32 \<Rightarrow> creature_info \<Rightarrow> unit_rec \<Rightarrow> unit_rec" where
  "pet_stats low entry ci u =
     fold (\<lambda>(i, v). uset i v)
       [(OBJECT_FIELD_GUID, low), (OBJECT_FIELD_GUID + 1, HIGHGUID_UNIT), (OBJECT_FIELD_TYPE, ucast (u_type u)),
        (OBJECT_FIELD_ENTRY, entry), (UNIT_FIELD_DISPLAYID, ci_modelid ci), (UNIT_FIELD_HP, ci_hp ci), (UNIT_FIELD_SP, ci_sp ci),
        (UNIT_FIELD_INT, ci_int ci), (UNIT_FIELD_ATK, ci_atk ci), (UNIT_FIELD_DEF, ci_def ci), (UNIT_FIELD_HPX, ci_hpx ci),
        (UNIT_FIELD_SPX, ci_spx ci), (UNIT_FIELD_AGI, ci_agi ci), (UNIT_FIELD_LEVEL, ci_level ci),
        (UNIT_FIELD_ELEMENT, ci_element ci)] u"

definition pet_spells :: "spell_db \<Rightarrow> creature_info \<Rightarrow> unit_rec \<Rightarrow> unit_rec res" where
  "pet_spells sdb ci u =
     foldR (\<lambda>s v. bindR (AddSpell sdb (ucast s) 1 SPELL_UNCHANGED v) (\<lambda>(_, v'). Inr v')) (ci_spells ci) u"

definition blank_pet_unit :: "u8 \<Rightarrow> unit_rec" where
  "blank_pet_unit loyalty =
     \<lparr>u_vals = (\<lambda>_. 0), u_type = 1 OR TYPE_UNIT OR TYPE_PET, u_death = ALIVE, u_state = 0, u_levelUp = False, u_itemSet = 0,
      u_itemSetApplied = False, u_tmp_xp = 0, u_disabled_duration = 0, u_posbuf_duration = 0, u_spells = [],
      u_loyalty = loyalty, u_petState = PET_NEW\<rparr>"

definition pet_defaults :: "u64 \<Rightarrow> unit_rec \<Rightarrow> unit_rec" where
  "pet_defaults owner u =
     (let u1 = uset UNIT_NPC_FLAGS 0 (uset64 UNIT_FIELD_SUMMONEDBY owner u);
          u2 = uset UNIT_FIELD_HP_MAX (ucast (GetHPMax u1)) (uset UNIT_FIELD_HP (ucast (GetHPMax u1)) u1);
          u3 = uset UNIT_FIELD_SP_MAX (ucast (GetSPMax u2)) (uset UNIT_FIELD_SP (ucast (GetSPMax u2)) u2)
      in uset UNIT_FIELD_NEXT_LEVEL_XP 0 (uset UNIT_FIELD_XP 0 (uset UNIT_FIELD_LEVEL 1 u3)))"

definition CreatePet ::
  "spell_db \<Rightarrow> creature_db \<Rightarrow> u8 \<times> u8 \<times> u8 \<Rightarrow> u32 \<Rightarrow> u32 \<Rightarrow> hero \<Rightarrow> (petid option \<times> hero) res" where
  "CreatePet sdb cdb junk low entry h =
     (case cdb entry of
        None \<Rightarrow> Inr (None, h)
      | Some ci \<Rightarrow>
          (case junk of (loyalty, slot, battle) \<Rightarrow>
             bindR (pet_spells sdb ci (pet_stats low entry ci (blank_pet_unit loyalty))) (\<lambda>u.
               let p = h_petNext h;
                   x = \<lparr>pt_low = low, pt_unit = pet_defaults (inv_guid (h_inv h)) u, pt_name = ci_Name ci,
                        pt_items = replicate MAX_PET_ITEMS None, pt_slot = slot, pt_battle = battle, pt_qpos = - 1\<rparr>
               in Inr (Some p, put_pet p x (h\<lparr>h_petNext := p + 1\<rparr>)))))"

subsection \<open>Summoning\<close>

fun first_free_slot :: "nat list \<Rightarrow> hero \<Rightarrow> nat option res" where
  "first_free_slot [] h = Inr None"
| "first_free_slot (k # ks) h = bindR (GetPet k h) (\<lambda>p. if p = None then Inr (Some k) else first_free_slot ks h)"

definition FindSummonSlot :: "u8 \<Rightarrow> bool \<Rightarrow> hero \<Rightarrow> u8 res" where
  "FindSummonSlot slot swap h =
     bindR (first_free_slot [0..<PET_SLOT_END] h) (\<lambda>fr.
       let slots = (case fr of None \<Rightarrow> NULL_PET_SLOT | Some k \<Rightarrow> of_nat k)
       in if slot \<noteq> NULL_PET_SLOT
          then bindR (if swap then Inr True else bindR (GetPet (unat slot) h) (\<lambda>p. Inr (p = None))) (\<lambda>free.
                 Inr (if free \<and> slots = slot then slot else NULL_PET_SLOT))
          else bindR (if slots \<noteq> NULL_PET_SLOT then bindR (GetPet (unat slots) h) (\<lambda>p. Inr (p = None)) else Inr False) (\<lambda>free.
                 Inr (if free then slots else if slots \<noteq> NULL_PET_SLOT \<and> swap then slots else NULL_PET_SLOT)))"

definition same_kind :: "creature_info \<Rightarrow> creature_info \<Rightarrow> bool" where
  "same_kind a b \<longleftrightarrow> ci_Name a = ci_Name b \<and>
     (ci_level a = ci_level b \<and> ci_element a = ci_element b \<or> ci_reborn a \<noteq> ci_reborn b)"

definition pet_info :: "creature_db \<Rightarrow> pet_rec \<Rightarrow> creature_info option" where
  "pet_info cdb x = cdb (uget (pt_unit x) OBJECT_FIELD_ENTRY)"

fun pet_known :: "creature_db \<Rightarrow> creature_info option \<Rightarrow> nat list \<Rightarrow> hero \<Rightarrow> bool res" where
  "pet_known cdb ci [] h = Inr False"
| "pet_known cdb ci (k # ks) h =
     bindR (GetPet k h) (\<lambda>pp.
       case pp of
         None \<Rightarrow> pet_known cdb ci ks h
       | Some q \<Rightarrow>
           bindR (get_pet q h) (\<lambda>y.
             case (ci, pet_info cdb y) of
               (Some a, Some b) \<Rightarrow> if same_kind a b then Inr True else pet_known cdb ci ks h
             | _ \<Rightarrow> Inl NullDeref))"

definition CanSummonPet :: "creature_db \<Rightarrow> u8 \<Rightarrow> petid option \<Rightarrow> bool \<Rightarrow> hero \<Rightarrow> (pet_change \<times> u8) res" where
  "CanSummonPet cdb slot pet swap h =
     (case pet of
        None \<Rightarrow> Inr (if \<not> swap then PET_ERR_PET_NOT_FOUND else PET_ERR_PET_CANT_BE_SWAPPED, 0)
      | Some p \<Rightarrow>
          bindR (get_pet p h) (\<lambda>x.
          bindR (pet_known cdb (pet_info cdb x) [0..<MAX_PET_SLOT] h) (\<lambda>known.
            if known then Inr (PET_ERR_PET_ALREADY_SUMMONED, 0)
            else bindR (FindSummonSlot slot swap h) (\<lambda>s.
              Inr (if s = NULL_PET_SLOT then (PET_ERR_PET_CANT_BE_SUMMONED, 0) else (PET_ERR_OK, s))))))"

text \<open>\<open>ITEM_FIELD_CONTAINED\<close> is the owner field of units, \<open>ITEM_FIELD_OWNER\<close> their summon field.\<close>

definition VisualizePet :: "u8 \<Rightarrow> petid \<Rightarrow> hero \<Rightarrow> hero res" where
  "VisualizePet pos p h =
     bindR (set_pet_slot (unat pos) (Some p) h) (\<lambda>h1.
     bindR (upd_pet p (\<lambda>x. x\<lparr>pt_unit := uset64 ITEM_FIELD_OWNER (inv_guid (h_inv h))
                              (uset64 ITEM_FIELD_CONTAINED (inv_guid (h_inv h)) (pt_unit x)), pt_slot := pos\<rparr>) h1)
       (pet_SetState p PET_CHANGED))"

definition SummonPet :: "u8 \<Rightarrow> petid option \<Rightarrow> hero \<Rightarrow> (petid option \<times> hero) res" where
  "SummonPet pos pet h =
     (case pet of
        None \<Rightarrow> Inr (None, h)
      | Some p \<Rightarrow>
          bindR (GetPet (unat pos) h) (\<lambda>pp.
            case pp of
              None \<Rightarrow> bindR (VisualizePet pos p h) (\<lambda>h1. Inr (Some p, h1))
            | Some q \<Rightarrow>
                bindR (upd_pet p (pet_SetOwnerGUID (inv_guid (h_inv h))) h) (\<lambda>h1.
                bindR (pet_SetState p PET_REMOVED h1) (\<lambda>h2.
                bindR (pet_SetState q PET_CHANGED h2) (\<lambda>h3. Inr (Some q, h3))))))"

subsection \<open>The battle pet, releasing\<close>

definition SetBattlePet :: "petid option \<Rightarrow> hero \<Rightarrow> hero res" where
  "SetBattlePet pet h =
     bindR (case h_battlePet h of
              None \<Rightarrow> Inr h
            | Some b \<Rightarrow> bindR (upd_pet b (\<lambda>x. x\<lparr>pt_battle := 0\<rparr>) h) (pet_SetState b PET_CHANGED)) (\<lambda>h1.
       let h2 = h1\<lparr>h_battlePet := pet\<rparr>
       in case pet of
            None \<Rightarrow> Inr h2
          | Some p \<Rightarrow> bindR (upd_pet p (\<lambda>x. x\<lparr>pt_battle := 1\<rparr>) h2) (pet_SetState p PET_CHANGED))"

definition ReleasePet :: "u8 \<Rightarrow> hero \<Rightarrow> hero res" where
  "ReleasePet slot h =
     (if unat slot > MAX_PET_SLOT then Inr h
      else bindR (GetPet (unat slot) h) (\<lambda>pp.
        case pp of
          None \<Rightarrow> Inr h
        | Some p \<Rightarrow>
            bindR (if h_battlePet h = Some p then SetBattlePet None h else Inr h) (\<lambda>h1.
            bindR (pet_SetState p PET_REMOVED h1) (\<lambda>h2.
            bindR (set_pet_slot (unat slot) None h2) (\<lambda>h3.
            bindR (SavePets h3) (\<lambda>h4.
              Inr (say (ToSet True) 0x0F [FU8 2, FU32 (h_account h), FU8 (slot + 1)] h4)))))))"

end
