(* ===== verification/Wearing.thy ===== *)
theory Wearing
  imports Pets
begin

text \<open>
  Putting equipment on and taking it off, for the player and for its pets, and using up items
  (\<open>src/game/Player.cpp\<close>, \<open>Pet::SetEquip\<close>).
\<close>

subsection \<open>Which slot an item fits\<close>

definition equip_slot_of :: "u32 \<Rightarrow> u8 option" where
  "equip_slot_of invtype =
     (if invtype = 1 then Some 0 else if invtype = 2 then Some 1 else if invtype = 3 then Some 2
      else if invtype = 4 then Some 3 else if invtype = 5 then Some 4 else if invtype = 6 then Some 5 else None)"

text \<open>The search over the slots of the player or of a pet: \<open>look\<close> reads a slot.\<close>

definition find_equip_slot :: "(nat \<Rightarrow> iid option res) \<Rightarrow> item_proto \<Rightarrow> u32 \<Rightarrow> bool \<Rightarrow> u8 res" where
  "find_equip_slot look p slot swap =
     (case equip_slot_of (ip_InventoryType p) of
        None \<Rightarrow> Inr NULL_SLOT
      | Some e \<Rightarrow>
          if slot \<noteq> ucast NULL_SLOT
          then bindR (if swap then Inr True else bindR (look (unat (ucast slot :: u8))) (\<lambda>x. Inr (x = None))) (\<lambda>free.
                 Inr (if free \<and> ucast e = slot then ucast slot else NULL_SLOT))
          else bindR (look (unat e)) (\<lambda>x. Inr (if x = None then e else if swap then e else NULL_SLOT)))"

definition FindEquipSlot :: "item_proto \<Rightarrow> u32 \<Rightarrow> bool \<Rightarrow> hero \<Rightarrow> u8 res" where
  "FindEquipSlot p slot swap h = find_equip_slot (\<lambda>k. GetItemByPos k (h_inv h)) p slot swap"

definition GetPetItemByPos :: "pet_rec \<Rightarrow> nat \<Rightarrow> iid option res" where
  "GetPetItemByPos x slot = GetEquip slot x"

definition FindPetEquipSlot :: "pet_rec \<Rightarrow> item_proto \<Rightarrow> u32 \<Rightarrow> bool \<Rightarrow> u8 res" where
  "FindPetEquipSlot x p slot swap = find_equip_slot (GetPetItemByPos x) p slot swap"

definition CanUseItemFor :: "item_db \<Rightarrow> unit_rec \<Rightarrow> item \<Rightarrow> inventory_change" where
  "CanUseItemFor idb u it =
     (case idb (it_entry it) of
        None \<Rightarrow> EQUIP_ERR_ITEM_NOT_FOUND
      | Some p \<Rightarrow> if getLevel u < ip_RequiredLevel p then EQUIP_ERR_CANT_EQUIP_LEVEL_I else EQUIP_ERR_OK)"

definition can_equip ::
  "item_db \<Rightarrow> (item_proto \<Rightarrow> u8 res) \<Rightarrow> unit_rec \<Rightarrow> iid option \<Rightarrow> bool \<Rightarrow> hero \<Rightarrow> (inventory_change \<times> u8) res" where
  "can_equip idb find_slot u item swap h =
     (let missing = (if \<not> swap then EQUIP_ERR_ITEM_NOT_FOUND else EQUIP_ERR_ITEMS_CANT_BE_SWAPPED)
      in case item of
           None \<Rightarrow> Inr (missing, 0)
         | Some i \<Rightarrow>
             bindR (get_item i (h_inv h)) (\<lambda>it.
               case idb (it_entry it) of
                 None \<Rightarrow> Inr (missing, 0)
               | Some p \<Rightarrow>
                   bindR (CanTakeMoreSimilarItems idb i (h_inv h)) (\<lambda>r.
                     if r \<noteq> EQUIP_ERR_OK then Inr (r, 0)
                     else bindR (find_slot p) (\<lambda>e.
                       if e = NULL_SLOT then Inr (EQUIP_ERR_ITEM_CANT_BE_EQUIPPED, 0)
                       else let msg = CanUseItemFor idb u it
                            in Inr (if msg \<noteq> EQUIP_ERR_OK then (msg, 0) else (EQUIP_ERR_OK, e))))))"

definition CanEquipItem :: "item_db \<Rightarrow> u8 \<Rightarrow> iid option \<Rightarrow> bool \<Rightarrow> hero \<Rightarrow> (inventory_change \<times> u8) res" where
  "CanEquipItem idb slot item swap h =
     can_equip idb (\<lambda>p. FindEquipSlot p (ucast slot) swap h) (h_unit h) item swap h"

definition CanPetEquipItem :: "item_db \<Rightarrow> petid \<Rightarrow> u8 \<Rightarrow> iid option \<Rightarrow> bool \<Rightarrow> hero \<Rightarrow> (inventory_change \<times> u8) res" where
  "CanPetEquipItem idb pet slot item swap h =
     bindR (get_pet pet h) (\<lambda>x. can_equip idb (\<lambda>p. FindPetEquipSlot x p (ucast slot) swap) (pt_unit x) item swap h)"

definition can_unequip :: "item_db \<Rightarrow> iid option res \<Rightarrow> u8 \<Rightarrow> hero \<Rightarrow> inventory_change res" where
  "can_unequip idb look pos h =
     (if \<not> IsEquipmentPos pos then Inr EQUIP_ERR_OK
      else bindR look (\<lambda>item.
        case item of
          None \<Rightarrow> Inr EQUIP_ERR_OK
        | Some i \<Rightarrow>
            bindR (get_item i (h_inv h)) (\<lambda>it.
              Inr (if idb (it_entry it) = None then EQUIP_ERR_ITEM_NOT_FOUND else EQUIP_ERR_OK))))"

definition CanUnequipItem :: "item_db \<Rightarrow> u8 \<Rightarrow> hero \<Rightarrow> inventory_change res" where
  "CanUnequipItem idb pos h = can_unequip idb (GetItemByPos (unat pos) (h_inv h)) pos h"

definition CanPetUnequipItem :: "item_db \<Rightarrow> petid \<Rightarrow> u8 \<Rightarrow> hero \<Rightarrow> inventory_change res" where
  "CanPetUnequipItem idb pet pos h = bindR (get_pet pet h) (\<lambda>x. can_unequip idb (GetEquip (unat pos) x) pos h)"

subsection \<open>On and off\<close>

definition VisualizeItem :: "u8 \<Rightarrow> iid \<Rightarrow> hero \<Rightarrow> hero res" where
  "VisualizeItem pos i =
     on_inv (\<lambda>s.
       bindR (set_slot (unat pos) (Some i) s) (\<lambda>s1.
       bindR (upd_item i (\<lambda>it. it\<lparr>it_contained := inv_guid s, it_owner := inv_guid s, it_slot := pos, it_container := None\<rparr>) s1)
         (SetState i ITEM_CHANGED)))"

text \<open>What happens when the destination is taken: the counts are added and the item is removed.\<close>

definition merge_items :: "iid \<Rightarrow> iid \<Rightarrow> player_inv \<Rightarrow> player_inv res" where
  "merge_items i j s =
     bindR (get_item i s) (\<lambda>it.
     bindR (upd_item j (\<lambda>jt. jt\<lparr>it_count := it_count jt + it_count it\<rparr>) s) (\<lambda>s1.
     bindR (upd_item i (\<lambda>it. it\<lparr>it_owner := inv_guid s\<rparr>) s1) (\<lambda>s2.
     bindR (SetState i ITEM_REMOVED s2) (SetState j ITEM_CHANGED))))"

definition need_proto :: "item_db \<Rightarrow> iid \<Rightarrow> hero \<Rightarrow> item_proto res" where
  "need_proto idb i h =
     bindR (get_item i (h_inv h)) (\<lambda>it. case idb (it_entry it) of None \<Rightarrow> Inl NullDeref | Some p \<Rightarrow> Inr p)"

definition EquipItem :: "item_db \<Rightarrow> u8 \<Rightarrow> iid option \<Rightarrow> hero \<Rightarrow> hero res" where
  "EquipItem idb pos item h =
     (case item of
        None \<Rightarrow> Inr h
      | Some i \<Rightarrow>
          bindR (need_proto idb i h) (\<lambda>_.
          bindR (GetItemByPos (unat pos) (h_inv h)) (\<lambda>q.
            case q of None \<Rightarrow> VisualizeItem pos i h | Some j \<Rightarrow> on_inv (merge_items i j) h)))"

text \<open>A pet takes an item only into an empty slot.\<close>

definition SetEquip :: "petid \<Rightarrow> nat \<Rightarrow> iid option \<Rightarrow> hero \<Rightarrow> hero res" where
  "SetEquip pet slot item h =
     bindR (get_pet pet h) (\<lambda>x.
     bindR (GetEquip slot x) (\<lambda>cur.
       case item of
         None \<Rightarrow> Inr (put_pet pet (x\<lparr>pt_items := (pt_items x)[slot := None]\<rparr>) h)
       | Some i \<Rightarrow>
           if cur \<noteq> None then Inr h
           else bindR (on_inv (upd_item i (\<lambda>it. it\<lparr>it_contained := pet_guid x, it_owner := pet_owner x,
                         it_slot := of_nat slot, it_container := Some (pt_low x)\<rparr>)) h) (\<lambda>h1.
                Inr (put_pet pet (x\<lparr>pt_items := (pt_items x)[slot := Some i]\<rparr>) h1))))"

definition VisualizePetItem :: "petid \<Rightarrow> u8 \<Rightarrow> iid \<Rightarrow> hero \<Rightarrow> hero res" where
  "VisualizePetItem pet pos i h =
     bindR (SetEquip pet (unat pos) (Some i) h) (on_inv (SetState i ITEM_CHANGED))"

definition PetEquipItem :: "item_db \<Rightarrow> petid \<Rightarrow> u8 \<Rightarrow> iid option \<Rightarrow> hero \<Rightarrow> hero res" where
  "PetEquipItem idb pet pos item h =
     (case item of
        None \<Rightarrow> Inr h
      | Some i \<Rightarrow>
          bindR (get_pet pet h) (\<lambda>x.
          bindR (need_proto idb i h) (\<lambda>_.
          bindR (GetEquip (unat pos) x) (\<lambda>q.
            case q of None \<Rightarrow> VisualizePetItem pet pos i h | Some j \<Rightarrow> on_inv (merge_items i j) h))))"

text \<open>\<open>RemoveItem\<close> only takes the item out of its slot.\<close>

definition RemoveItem :: "item_db \<Rightarrow> u8 \<Rightarrow> hero \<Rightarrow> hero res" where
  "RemoveItem idb slot h =
     bindR (GetItemByPos (unat slot) (h_inv h)) (\<lambda>q.
       case q of
         None \<Rightarrow> Inr h
       | Some i \<Rightarrow>
           bindR (get_item i (h_inv h)) (\<lambda>_.
           bindR (if unat slot < EQUIPMENT_SLOT_END
                  then bindR (ApplyItemModsFor idb Self (Some i) False h) (\<lambda>h1.
                       bindR (item_model idb i (h_inv h1)) (\<lambda>m.
                         Inr (say (ToSet False) 0x05 [FU8 1, FU32 (h_account h), FU16 m] h1)))
                  else Inr h) (\<lambda>h2.
             on_inv (\<lambda>s. bindR (set_slot (unat slot) None s)
               (upd_item i (\<lambda>it. it\<lparr>it_slot := NULL_SLOT, it_contained := 0\<rparr>))) h2)))"

definition PetRemoveItem :: "item_db \<Rightarrow> petid \<Rightarrow> u8 \<Rightarrow> hero \<Rightarrow> hero res" where
  "PetRemoveItem idb pet slot h =
     bindR (get_pet pet h) (\<lambda>x.
     bindR (GetEquip (unat slot) x) (\<lambda>q.
       case q of
         None \<Rightarrow> Inr h
       | Some i \<Rightarrow>
           bindR (if unat slot < EQUIPMENT_SLOT_END then ApplyItemModsFor idb (PetUnit pet) (Some i) False h else Inr h) (\<lambda>h1.
           bindR (SetEquip pet (unat slot) None h1)
             (on_inv (upd_item i (\<lambda>it. it\<lparr>it_slot := NULL_SLOT, it_contained := 0\<rparr>))))))"

definition QuickEquipItem :: "u8 \<Rightarrow> iid option \<Rightarrow> hero \<Rightarrow> hero res" where
  "QuickEquipItem pos item h =
     (case item of
        None \<Rightarrow> Inr h
      | Some i \<Rightarrow> bindR (VisualizeItem pos i h)
          (on_inv (\<lambda>s. upd_item i (\<lambda>it. it\<lparr>it_inWorld := it_inWorld it \<or> inv_inWorld s\<rparr>) s)))"

definition QuickPetEquipItem :: "petid \<Rightarrow> u8 \<Rightarrow> iid option \<Rightarrow> hero \<Rightarrow> hero res" where
  "QuickPetEquipItem pet pos item h =
     (case item of
        None \<Rightarrow> Inr h
      | Some i \<Rightarrow> bindR (VisualizePetItem pet pos i h)
          (on_inv (\<lambda>s. upd_item i (\<lambda>it. it\<lparr>it_inWorld := it_inWorld it \<or> inv_inWorld s\<rparr>) s)))"

subsection \<open>All modifiers after loading\<close>

definition apply_worn :: "item_db \<Rightarrow> wearer \<Rightarrow> iid option \<Rightarrow> hero \<Rightarrow> hero res" where
  "apply_worn idb w item h =
     (case item of
        None \<Rightarrow> Inr h
      | Some i \<Rightarrow>
          bindR (get_item i (h_inv h)) (\<lambda>it.
            if idb (it_entry it) = None then Inr h else ApplyItemModsFor idb w (Some i) True h))"

definition apply_pet_mods :: "item_db \<Rightarrow> nat \<Rightarrow> hero \<Rightarrow> hero res" where
  "apply_pet_mods idb k h =
     bindR (GetPet k h) (\<lambda>pp.
       case pp of
         None \<Rightarrow> Inr h
       | Some p \<Rightarrow>
           bindR (foldR (\<lambda>e h1. bindR (get_pet p h1) (\<lambda>x. bindR (GetEquip e x) (\<lambda>item.
                    apply_worn idb (PetUnit p) item h1))) [0..<EQUIPMENT_SLOT_END] h)
             (upd_wearer (PetUnit p) refresh_set))"

definition ApplyAllItemMods :: "item_db \<Rightarrow> hero \<Rightarrow> hero res" where
  "ApplyAllItemMods idb h =
     bindR (foldR (\<lambda>e h1. bindR (GetItemByPos e (h_inv h1)) (\<lambda>item. apply_worn idb Self item h1)) [0..<EQUIPMENT_SLOT_END] h) (\<lambda>h2.
     bindR (upd_wearer Self refresh_set h2)
       (foldR (apply_pet_mods idb) [0..<MAX_PET_SLOT]))"

subsection \<open>Using up an item\<close>

definition consumable :: "string \<Rightarrow> bool" where
  "consumable t \<longleftrightarrow> t = ''Food'' \<or> t = ''Medicine'' \<or> t = ''Power'' \<or> t = ''RevivePill''"

text \<open>
  One stat of the item. The current value is compared with the maximum of the player, also for a pet, and the
  clamped \<open>modvalue\<close> the code computes is not used: the field changes by \<open>value * amount\<close>. A target that is
  no pet is a null pointer.
\<close>

definition consume_stat :: "u8 \<Rightarrow> wearer option \<Rightarrow> u8 \<Rightarrow> u32 \<times> i32 \<Rightarrow> hero \<Rightarrow> hero res" where
  "consume_stat target w amount = (\<lambda>(t, value) h.
     let hp = (t = ITEM_MOD_HP); sp = (t = ITEM_MOD_SP);
         field = (if hp then UNIT_FIELD_HP else UNIT_FIELD_SP);
         flag = (if hp then UPD_FLAG_HP else UPD_FLAG_SP);
         top = (if hp then GetHPMax (h_unit h) else GetSPMax (h_unit h))
     in if t = 0 \<or> \<not> (hp \<or> sp) then Inr h
        else case w of
               None \<Rightarrow> Inl NullDeref
             | Some x \<Rightarrow>
                 bindR (wearer_unit x h) (\<lambda>u.
                   if ucast top \<le> uget u field then Inr h
                   else bindR (upd_wearer x (uapply field (value * ucast amount) True) h) (\<lambda>h1.
                        bindR (wearer_unit x h1) (\<lambda>u1.
                          case x of
                            Self \<Rightarrow> Inr (updatePlayer flag 1 (uget u1 field) 0 h1)
                          | PetUnit p \<Rightarrow>
                              pet_SetState p PET_CHANGED (updatePet (target - 1) flag 1 (uget u1 field) 0 h1)))))"

definition consume_target :: "u8 \<Rightarrow> hero \<Rightarrow> wearer option option res" where
  "consume_target target h =
     (if target = 0 then Inr (Some (Some Self))
      else if target \<le> 4 then bindR (GetPet (unat target - 1) h) (\<lambda>pp. Inr (Some (map_option PetUnit pp)))
      else Inr None)"

text \<open>The counter goes down; at zero the item is destroyed, otherwise marked as changed.\<close>

definition use_up :: "iid \<Rightarrow> nat \<Rightarrow> u32 \<Rightarrow> player_inv \<Rightarrow> player_inv res" where
  "use_up i slot n s =
     bindR (upd_item i (\<lambda>it. it\<lparr>it_count := it_count it - n\<rparr>) s) (\<lambda>s1.
     bindR (get_item i s1) (\<lambda>it.
       if it_count it = 0 then DestroyItem slot s1 else SetState i ITEM_CHANGED s1))"

definition ConsumeInventoryItemFor :: "item_db \<Rightarrow> u8 \<Rightarrow> u8 \<Rightarrow> u8 \<Rightarrow> hero \<Rightarrow> (bool \<times> hero) res" where
  "ConsumeInventoryItemFor idb target invslot amount h =
     bindR (GetItemByPos (unat invslot) (h_inv h)) (\<lambda>q.
       case q of
         None \<Rightarrow> Inr (False, h)
       | Some i \<Rightarrow>
           bindR (get_item i (h_inv h)) (\<lambda>it.
             if amount = 0 then Inr (False, h)
             else case idb (it_entry it) of
                    None \<Rightarrow> Inr (False, h)
                  | Some p \<Rightarrow>
                      bindR (consume_target target h) (\<lambda>tw.
                        case tw of
                          None \<Rightarrow> Inr (False, h)
                        | Some w \<Rightarrow>
                            if \<not> consumable (ip_TypeDesc p) then Inr (False, h)
                            else bindR (foldR (consume_stat target w amount) (take 10 (ip_stats p)) h) (\<lambda>h1.
                                 bindR (on_inv (use_up i (unat invslot) (ucast amount)) h1) (\<lambda>h2. Inr (True, h2))))))"

end
