(* ===== verification/ItemHandler.thy ===== *)
theory ItemHandler
  imports Wearing
begin

text \<open>
  The item packets (\<open>src/game/ItemHandler.cpp\<close>): dropping, equipping, taking off and using up items, for
  the player and its pets, buying and selling. Each case of the switches is one function; its flag says
  whether it left the switch (\<open>break\<close>) or the handler (\<open>return\<close>). The generator of \<open>irand\<close> is threaded
  through, and so is the cache of item entries of \<open>ObjectMgr\<close>.
\<close>

text \<open>\<open>tmp_invslot + INVENTORY_SLOT_ITEM_START - 1\<close>, in a byte.\<close>

definition inv_pos :: "u8 \<Rightarrow> u8" where
  "inv_pos tmp = tmp + of_nat INVENTORY_SLOT_ITEM_START - 1"

definition eq_pos :: "u8 \<Rightarrow> u8" where
  "eq_pos tmp = tmp - 1"

subsection \<open>Dropping\<close>

fun drop_loop :: "nat \<Rightarrow> item_db \<Rightarrow> iid \<Rightarrow> hero \<times> u32 \<Rightarrow> (hero \<times> u32) res" where
  "drop_loop 0 idb i p = Inr p"
| "drop_loop (Suc n) idb i (h, rnd) =
     bindR (irand (- 35) 35 rnd) (\<lambda>(dx, rnd1).
     bindR (urand 10 35 rnd1) (\<lambda>(dy, rnd2).
     bindR (item_model idb i (h_inv h)) (\<lambda>m.
       drop_loop n idb i
         (say (ToSet True) 0x17 [FU8 3, FU16 m, FU16 (h_x h + ucast dx), FU16 (h_y h + ucast dy), FU8 1] h, rnd2))))"

definition use_drop :: "item_db \<Rightarrow> u8 \<Rightarrow> u8 \<Rightarrow> hero \<times> u32 \<Rightarrow> (bool \<times> hero \<times> u32) res" where
  "use_drop idb tmp amount = (\<lambda>(h, rnd).
     bindR (GetItemByPos (unat (inv_pos tmp)) (h_inv h)) (\<lambda>q.
       case q of
         None \<Rightarrow> Inr (False, h, rnd)
       | Some i \<Rightarrow>
           bindR (get_item i (h_inv h)) (\<lambda>it.
             if it_count it < ucast amount then Inr (False, h, rnd)
             else bindR (drop_loop (unat amount) idb i (h, rnd)) (\<lambda>(h1, rnd1).
                  bindR (on_inv (use_up i (unat (inv_pos tmp)) (ucast amount)) h1) (\<lambda>h2.
                    Inr (True, say ToSession 0x17 [FU8 9, FU8 tmp, FU8 amount] h2, rnd1))))))"

subsection \<open>Equipping and taking off\<close>

text \<open>
  What both equip cases do once the slot \<open>dest\<close> is found: the item leaves its place, what is worn there
  goes to that place, and the item is put on.
\<close>

definition put_back :: "u8 \<Rightarrow> iid \<Rightarrow> hero \<Rightarrow> hero res" where
  "put_back pos j = on_inv (\<lambda>s. bindR (StoreItem (unat pos) (Some j) False s) (\<lambda>(_, s'). Inr s'))"

definition equip_swap :: "item_db \<Rightarrow> u8 \<Rightarrow> u8 \<Rightarrow> iid \<Rightarrow> hero \<Rightarrow> hero res" where
  "equip_swap idb pos dest i h =
     bindR (RemoveItem idb pos h) (\<lambda>h1.
     bindR (GetItemByPos (unat dest) (h_inv h1)) (\<lambda>q.
     bindR (case q of
              None \<Rightarrow> Inr h1
            | Some j \<Rightarrow> bindR (RemoveItem idb dest h1) (put_back pos j)) (\<lambda>h2.
     bindR (EquipItem idb dest (Some i) h2)
       (ApplyItemModsFor idb Self (Some i) True))))"

definition use_equip :: "item_db \<Rightarrow> u8 \<Rightarrow> hero \<Rightarrow> (bool \<times> hero) res" where
  "use_equip idb tmp h =
     bindR (GetItemByPos (unat (inv_pos tmp)) (h_inv h)) (\<lambda>q.
       case q of
         None \<Rightarrow> Inr (False, h)
       | Some i \<Rightarrow>
           bindR (need_proto idb i h) (\<lambda>p.
             let slot = (ucast (ip_EquipmentSlot p) :: u8)
             in if \<not> IsEquipmentPos slot then Inr (False, h)
                else bindR (CanEquipItem idb slot (Some i) True h) (\<lambda>(r, dest).
                  if r \<noteq> EQUIP_ERR_OK then Inr (False, h)
                  else bindR (equip_swap idb (inv_pos tmp) dest i h) (\<lambda>h1.
                       bindR (upd_wearer Self refresh_set h1) (\<lambda>h2.
                       let h3 = say ToSession 0x17 [FU8 0x11, FU8 tmp] (UpdatePlayer h2)
                       in bindR (item_model idb i (h_inv h3)) (\<lambda>m.
                            Inr (True, say (ToAll True) 0x05 [FU8 2, FU32 (h_account h), FU16 m] h3)))))))"

definition use_unequip :: "item_db \<Rightarrow> u8 \<Rightarrow> u8 \<Rightarrow> hero \<Rightarrow> (bool \<times> hero) res" where
  "use_unequip idb tmp_eq tmp_inv h =
     bindR (CanUnequipItem idb (eq_pos tmp_eq) h) (\<lambda>r.
       if r \<noteq> EQUIP_ERR_OK then Inr (False, h)
       else bindR (GetItemByPos (unat (eq_pos tmp_eq)) (h_inv h)) (\<lambda>q.
         case q of
           None \<Rightarrow> Inr (False, h)
         | Some i \<Rightarrow>
             if \<not> IsInventoryPos (inv_pos tmp_inv) then Inr (False, h)
             else bindR (CanStoreItem idb (Some i) False (h_inv h)) (\<lambda>(c, dest).
                  bindR (if c = EQUIP_ERR_OK
                         then bindR (RemoveItem idb (eq_pos tmp_eq) h)
                                (on_inv (\<lambda>s. bindR (StoreItem dest (Some i) True s) (\<lambda>(_, s'). Inr s')))
                         else Inr h) (\<lambda>h1.
                  bindR (upd_wearer Self refresh_set h1) (\<lambda>h2.
                    Inr (True, say ToSession 0x17 [FU8 0x10, FU8 tmp_eq, FU8 tmp_inv] (UpdatePlayer h2)))))))"

definition use_consume :: "item_db \<Rightarrow> u8 \<Rightarrow> u8 \<Rightarrow> u8 \<Rightarrow> hero \<Rightarrow> (bool \<times> hero) res" where
  "use_consume idb tmp amount target h =
     bindR (ConsumeInventoryItemFor idb target (inv_pos tmp) amount h) (\<lambda>(ok, h1).
       Inr (True, if ok then say ToSession 0x17 [FU8 0x0F] (say ToSession 0x17 [FU8 9, FU8 tmp, FU8 amount] h1) else h1))"

subsection \<open>The equipment of pets\<close>

definition pet_equip_swap :: "item_db \<Rightarrow> petid \<Rightarrow> u8 \<Rightarrow> u8 \<Rightarrow> iid \<Rightarrow> hero \<Rightarrow> hero res" where
  "pet_equip_swap idb pet pos dest i h =
     bindR (RemoveItem idb pos h) (\<lambda>h1.
     bindR (get_pet pet h1) (\<lambda>x.
     bindR (GetEquip (unat dest) x) (\<lambda>q.
     bindR (case q of
              None \<Rightarrow> Inr h1
            | Some j \<Rightarrow> bindR (PetRemoveItem idb pet dest h1) (put_back pos j)) (\<lambda>h2.
     bindR (PetEquipItem idb pet dest (Some i) h2)
       (ApplyItemModsFor idb (PetUnit pet) (Some i) True)))))"

definition use_pet_equip :: "item_db \<Rightarrow> u8 \<Rightarrow> u8 \<Rightarrow> hero \<Rightarrow> (bool \<times> hero) res" where
  "use_pet_equip idb target tmp h =
     bindR (GetItemByPos (unat (inv_pos tmp)) (h_inv h)) (\<lambda>q.
       case q of
         None \<Rightarrow> Inr (False, h)
       | Some i \<Rightarrow>
           if target = 0 then Inr (False, h)
           else bindR (GetPet (unat target - 1) h) (\<lambda>pp.
             case pp of
               None \<Rightarrow> Inr (False, h)
             | Some pet \<Rightarrow>
                 bindR (need_proto idb i h) (\<lambda>p.
                   let slot = (ucast (ip_EquipmentSlot p) :: u8)
                   in if \<not> IsEquipmentPos slot then Inr (False, h)
                      else bindR (CanPetEquipItem idb pet slot (Some i) True h) (\<lambda>(r, dest).
                        if r \<noteq> EQUIP_ERR_OK then Inr (False, h)
                        else bindR (pet_equip_swap idb pet (inv_pos tmp) dest i h) (\<lambda>h1.
                             bindR (UpdatePet_slot (target - 1) h1) (\<lambda>h2.
                               Inr (True, say ToSession 0x17 [FU8 0x17, FU8 target, FU8 tmp] h2)))))))"

definition use_pet_unequip :: "item_db \<Rightarrow> u8 \<Rightarrow> u8 \<Rightarrow> u8 \<Rightarrow> hero \<Rightarrow> (bool \<times> hero) res" where
  "use_pet_unequip idb target tmp_eq tmp_inv h =
     (if target = 0 then Inr (False, h)
      else bindR (GetPet (unat target - 1) h) (\<lambda>pp.
        case pp of
          None \<Rightarrow> Inr (False, h)
        | Some pet \<Rightarrow>
            bindR (CanPetUnequipItem idb pet (eq_pos tmp_eq) h) (\<lambda>r.
              if r \<noteq> EQUIP_ERR_OK then Inr (False, h)
              else bindR (get_pet pet h) (\<lambda>x.
                   bindR (GetEquip (unat (eq_pos tmp_eq)) x) (\<lambda>q.
                     case q of
                       None \<Rightarrow> Inr (False, h)
                     | Some i \<Rightarrow>
                         if \<not> IsInventoryPos (inv_pos tmp_inv) then Inr (False, h)
                         else bindR (CanStoreItem idb (Some i) False (h_inv h)) (\<lambda>(c, dest).
                              bindR (if c = EQUIP_ERR_OK
                                     then bindR (PetRemoveItem idb pet (eq_pos tmp_eq) h)
                                            (on_inv (\<lambda>s. bindR (StoreItem dest (Some i) True s) (\<lambda>(_, s'). Inr s')))
                                     else Inr h) (\<lambda>h1.
                              bindR (UpdatePet_slot (target - 1) h1) (\<lambda>h2.
                                Inr (True, say ToSession 0x17 [FU8 0x16, FU8 target, FU8 tmp_eq, FU8 tmp_inv] h2)))))))))"

subsection \<open>The packet of using an item\<close>

text \<open>
  The switch of \<open>HandleUseItemOpcodes\<close>. The size that is checked is the size of the whole packet; what is
  read behind its end is a failed assertion.
\<close>

definition keep_rnd :: "u32 \<Rightarrow> (bool \<times> hero) res \<Rightarrow> (bool \<times> hero \<times> u32) res" where
  "keep_rnd rnd r = bindR r (\<lambda>(fin, h). Inr (fin, h, rnd))"

definition use_item :: "item_db \<Rightarrow> u8 \<Rightarrow> byte_buffer \<Rightarrow> hero \<times> u32 \<Rightarrow> (bool \<times> hero \<times> u32) res" where
  "use_item idb kind b = (\<lambda>(h, rnd).
     if kind = 0x02 then
       if bb_size b < 4 then Inr (False, h, rnd)
       else bindR (read_u16 b) (\<lambda>(_, b1). bindR (read_u8 b1) (\<lambda>_. Inr (True, h, rnd)))
     else if kind = 0x03 then
       if bb_size b < 3 then Inr (False, h, rnd)
       else bindR (read_u8 b) (\<lambda>(tmp, b1). bindR (read_u8 b1) (\<lambda>(amount, _). use_drop idb tmp amount (h, rnd)))
     else if kind = 0x0B then
       if bb_size b < 1 then Inr (False, h, rnd)
       else bindR (read_u8 b) (\<lambda>(tmp, _). keep_rnd rnd (use_equip idb tmp h))
     else if kind = 0x0C then
       if bb_size b < 2 then Inr (False, h, rnd)
       else bindR (read_u8 b) (\<lambda>(tmp_eq, b1). bindR (read_u8 b1) (\<lambda>(tmp_inv, _).
              keep_rnd rnd (use_unequip idb tmp_eq tmp_inv h)))
     else if kind = 0x0F then
       if bb_size b < 4 then Inr (False, h, rnd)
       else bindR (read_u8 b) (\<lambda>(tmp, b1). bindR (read_u8 b1) (\<lambda>(amount, b2).
            bindR (read_u8 b2) (\<lambda>(target, b3). bindR (read_u8 b3) (\<lambda>_.
              keep_rnd rnd (use_consume idb tmp amount target h)))))
     else if kind = 0x11 then
       if bb_size b < 2 then Inr (False, h, rnd)
       else bindR (read_u8 b) (\<lambda>(target, b1). bindR (read_u8 b1) (\<lambda>(tmp, _).
              keep_rnd rnd (use_pet_equip idb target tmp h)))
     else if kind = 0x12 then
       if bb_size b < 3 then Inr (False, h, rnd)
       else bindR (read_u8 b) (\<lambda>(target, b1). bindR (read_u8 b1) (\<lambda>(tmp_eq, b2).
            bindR (read_u8 b2) (\<lambda>(tmp_inv, _). keep_rnd rnd (use_pet_unequip idb target tmp_eq tmp_inv h))))
     else Inr (True, h, rnd))"

subsection \<open>Buying and selling\<close>

text \<open>
  The goods of the vendor the player talks to are the argument \<open>goods\<close>, none without a vendor in reach.
  The guard compares the gold with the number of items, not with their price.
\<close>

type_synonym item_cache = "u32 \<Rightarrow> u32 option"

definition set_unit :: "(unit_rec \<Rightarrow> unit_rec) \<Rightarrow> hero \<Rightarrow> hero" where
  "set_unit f h = h\<lparr>h_unit := f (h_unit h)\<rparr>"

definition buy_item ::
  "item_db \<Rightarrow> item_cache \<Rightarrow> (u8 \<Rightarrow> u32 option) option \<Rightarrow> u8 \<Rightarrow> u16 \<Rightarrow> item_cache \<times> hero \<Rightarrow> (item_cache \<times> hero) res" where
  "buy_item idb query goods slot count = (\<lambda>(cache, h).
     case goods of
       None \<Rightarrow> Inr (cache, h)
     | Some g \<Rightarrow>
         (case g slot of
            None \<Rightarrow> Inr (cache, h)
          | Some entry \<Rightarrow>
              (case idb entry of
                 None \<Rightarrow> Inr (cache, h)
               | Some p \<Rightarrow>
                   let price = ip_buyprice p * ucast count
                   in if uget (h_unit h) PLAYER_GOLD_INHAND < ucast count then Inr (cache, h)
                      else let h1 = set_unit (uapply PLAYER_GOLD_INHAND price False) h
                           in bindR (AddNewInventoryItem idb query (ip_modelid p) (ucast count) (cache, h_inv h1)) (\<lambda>(_, cache', s).
                              let h2 = UpdateGold (- price) (UpdateInventoryForItem (ucast (ip_modelid p)) (ucast count) (h1\<lparr>h_inv := s\<rparr>))
                              in bindR (say_must 0x1B [FU8 2, FU8 0] h2) (\<lambda>h3. Inr (cache', h3))))))"

definition sell_item :: "item_db \<Rightarrow> u8 \<Rightarrow> u8 \<Rightarrow> hero \<Rightarrow> hero res" where
  "sell_item idb slot count h =
     bindR (GetItemByPos (unat (inv_pos slot)) (h_inv h)) (\<lambda>q.
       case q of
         None \<Rightarrow> Inr h
       | Some i \<Rightarrow>
           bindR (need_proto idb i h) (\<lambda>p.
           bindR (get_item i (h_inv h)) (\<lambda>it.
             if it_count it < ucast count then Inr h
             else bindR (on_inv (upd_item i (\<lambda>it. it\<lparr>it_count := it_count it - ucast count\<rparr>)) h) (\<lambda>h1.
                  bindR (get_item i (h_inv h1)) (\<lambda>it1.
                  bindR (if it_count it1 = 0
                         then bindR (on_inv (SetState i ITEM_REMOVED) h1) (RemoveItem idb (inv_pos slot))
                         else on_inv (SetState i ITEM_CHANGED) h1) (\<lambda>h2.
                  let price = ip_sellprice p * ucast count;
                      h3 = set_unit (uapply PLAYER_GOLD_INHAND price True) h2
                  in bindR (say_must 0x17 [FU8 9, FU8 slot, FU8 count] h3) (\<lambda>h4.
                     say_must 0x1B [FU8 2, FU8 0] (UpdateGold price h4))))))))"

definition HandlePlayerTransacItemOpcodes ::
  "item_db \<Rightarrow> item_cache \<Rightarrow> (u8 \<Rightarrow> u32 option) option \<Rightarrow> byte_buffer \<Rightarrow> item_cache \<times> hero \<Rightarrow> (item_cache \<times> hero) res" where
  "HandlePlayerTransacItemOpcodes idb query goods b = (\<lambda>(cache, h).
     if bb_size b < 1 then Inr (cache, h)
     else bindR (read_u8 b) (\<lambda>(kind, b1).
       if kind = 1 then
         if bb_size b1 < 4 then Inr (cache, h)
         else bindR (read_u8 b1) (\<lambda>(slot, b2). bindR (read_u16 b2) (\<lambda>(count, _).
                buy_item idb query goods slot count (cache, h)))
       else if kind = 2 then
         if bb_size b1 < 3 then Inr (cache, h)
         else bindR (read_u8 b1) (\<lambda>(slot, b2). bindR (read_u8 b2) (\<lambda>(count, _).
                bindR (sell_item idb slot count h) (\<lambda>h'. Inr (cache, h'))))
       else Inr (cache, h)))"

end
