(* ===== verification/Trading.thy ===== *)
theory Trading
  imports ItemHandler
begin

text \<open>
  What buying, selling and using up do to the bag of a player and to its gold.
\<close>

subsection \<open>Using up\<close>

lemma use_up_refines:
  assumes ok: "inv_ok idb s" and room: "length (inv_queue s) < 32767" and k: "k < 145" "inv_slots s ! k = Some i"
    and it: "inv_heap s i = Some it"
  shows "\<exists>t. use_up i k n s = Inr t \<and> inv_ok idb t \<and>
    abs_bag t = (abs_bag s)(k := if it_count it = n then None else Some (it_entry it, it_count it - n)) \<and>
    length (inv_queue t) \<le> Suc (length (inv_queue s)) \<and> inv_hiGuid t = inv_hiGuid s \<and> inv_guid t = inv_guid s"
proof -
  note D = inv_okD [OF ok]
  have len: "length (inv_slots s) = 145" by (rule slots_ok_length [OF D(3)])
  have sits: "sits s k it" using slots_ok_sits [OF D(3) k] it by simp
  let ?it1 = "it\<lparr>it_count := it_count it - n\<rparr>"
  let ?s1 = "put_item i ?it1 s"
  have s1: "upd_item i (\<lambda>it. it\<lparr>it_count := it_count it - n\<rparr>) s = Inr ?s1" "get_item i ?s1 = Inr ?it1"
    using it by (simp_all add: upd_item_def get_item_def put_item_def)
  show ?thesis
  proof (cases "it_count it = n")
    case True
    let ?it2 = "?it1\<lparr>it_contained := 0, it_slot := NULL_SLOT\<rparr>"
    let ?s2 = "put_item i ?it2 (s\<lparr>inv_slots := (inv_slots s)[k := None]\<rparr>)"
    have "use_up i k n s = SetState i ITEM_REMOVED ?s2"
      using s1 True k len it
      by (simp add: use_up_def DestroyItem_def GetItemByPos_def set_slot_def upd_item_def get_item_def put_item_def)
    then show ?thesis
      using removed_refines [OF ok room k it, of ?s2 ?it2] True by (simp add: put_item_def)
  next
    case False
    have q1: "queue_ok ?s1"
      by (rule queue_ok_upd [OF D(1), where i = i and it' = ?it1]) (use it in \<open>simp_all add: put_item_def\<close>)
    have i1: "inv_heap ?s1 i = Some ?it1" "it_owner ?it1 = inv_guid ?s1" "length (inv_queue ?s1) < 32767"
      using sits room by (simp_all add: put_item_def sits_def)
    obtain t p where t: "SetState i ITEM_CHANGED ?s1 = Inr t" "queue_ok t" "p \<noteq> - 1"
      "inv_heap t = (inv_heap ?s1)(i \<mapsto> ?it1\<lparr>it_state := next_state ITEM_CHANGED ?it1, it_qpos := p\<rparr>)" "same_rest ?s1 t"
      "length (inv_queue t) \<le> Suc (length (inv_queue ?s1))"
      using SetState_change_ok [OF q1 i1, of ITEM_CHANGED] by auto
    have "use_up i k n s = Inr t"
      using s1 t(1) False by (simp add: use_up_def)
    moreover have "inv_ok idb t \<and> abs_bag t = (abs_bag s)(k \<mapsto> (it_entry it, it_count (?it1\<lparr>it_state := next_state ITEM_CHANGED ?it1, it_qpos := p\<rparr>)))"
      by (rule inv_ok_change [OF ok k it t(2)])
         (use t(3-5) in \<open>simp_all add: put_item_def same_rest_def next_state_def\<close>)
    ultimately show ?thesis
      using False t(5,6) by (simp add: put_item_def same_rest_def)
  qed
qed

lemma consume_stat_self: "\<exists>h'. consume_stat target (Some Self) amount tv h = Inr h' \<and> h_inv h' = h_inv h"
  by (cases tv) (simp add: consume_stat_def Let_def wearer_unit_def upd_wearer_def)

lemma consume_stats_self: "\<exists>h'. foldR (consume_stat target (Some Self) amount) tvs h = Inr h' \<and> h_inv h' = h_inv h"
proof (induction tvs arbitrary: h)
  case (Cons tv tvs)
  obtain h1 where "consume_stat target (Some Self) amount tv h = Inr h1" "h_inv h1 = h_inv h"
    using consume_stat_self by blast
  then show ?case using Cons.IH [of h1] by simp
qed simp

text \<open>The difference wraps where more is taken than there is.\<close>

lemma count_wraps:
  fixes c n :: u32
  assumes "c < n"
  shows "unat (c - n) = 2 ^ 32 + unat c - unat n"
  using assms by (simp add: unat_sub_if_size word_size word_less_nat_alt not_le [symmetric])

text \<open>C29: a player who uses up an item it can use always succeeds, whatever amount the client names: the bag loses
  the item when the amount is exactly its count, and otherwise keeps the difference of the counts, which for
  an amount above the count is close to \<open>2 ^ 32\<close>.\<close>

theorem consume_takes_any_amount:
  assumes "inv_ok idb (h_inv h)" and "length (inv_queue (h_inv h)) < 32767" and "unat invslot < 145"
    and "inv_slots (h_inv h) ! unat invslot = Some i" and "inv_heap (h_inv h) i = Some it" and "idb (it_entry it) = Some p"
    and "consumable (ip_TypeDesc p)" and "amount \<noteq> 0"
  shows "\<exists>h'. ConsumeInventoryItemFor idb 0 invslot amount h = Inr (True, h') \<and> inv_ok idb (h_inv h') \<and>
    abs_bag (h_inv h') = (abs_bag (h_inv h))(unat invslot :=
      if it_count it = ucast amount then None else Some (it_entry it, it_count it - ucast amount)) \<and>
    (it_count it < ucast amount \<longrightarrow> unat (it_count it - ucast amount) = 2 ^ 32 + unat (it_count it) - unat amount)"
proof -
  let ?k = "unat invslot"
  have len: "length (inv_slots (h_inv h)) = 145"
    by (rule slots_ok_length [OF inv_okD(3) [OF assms(1)]])
  obtain h1 where h1: "foldR (consume_stat 0 (Some Self) amount) (take 10 (ip_stats p)) h = Inr h1" "h_inv h1 = h_inv h"
    using consume_stats_self by blast
  obtain t where t: "use_up i ?k (ucast amount) (h_inv h) = Inr t" "inv_ok idb t"
    "abs_bag t = (abs_bag (h_inv h))(?k := if it_count it = ucast amount then None else Some (it_entry it, it_count it - ucast amount))"
    using use_up_refines [OF assms(1-5)] by blast
  have "ConsumeInventoryItemFor idb 0 invslot amount h = Inr (True, h1\<lparr>h_inv := t\<rparr>)"
    using assms(3-8) len h1 t(1)
    by (simp add: ConsumeInventoryItemFor_def GetItemByPos_def get_item_def consume_target_def on_inv_def)
  moreover have "unat (ucast amount :: u32) = unat amount"
    unfolding unat_ucast_mod using unsigned_less [of amount, where ?'a = nat] by simp
  ultimately show ?thesis
    using t(2,3) count_wraps [of "it_count it" "ucast amount"] by (intro exI [of _ "h1\<lparr>h_inv := t\<rparr>"]) simp
qed

subsection \<open>Selling\<close>

text \<open>A slot behind the equipment only loses its item; a deleted item is read.\<close>

lemma RemoveItem_slot:
  assumes "6 \<le> unat slot" and "unat slot < length (inv_slots (h_inv h))" and "inv_slots (h_inv h) ! unat slot = Some i"
  shows "RemoveItem idb slot h = (case inv_heap (h_inv h) i of
      None \<Rightarrow> Inl UseAfterFree
    | Some it \<Rightarrow> Inr (h\<lparr>h_inv := put_item i (it\<lparr>it_slot := NULL_SLOT, it_contained := 0\<rparr>)
                   ((h_inv h)\<lparr>inv_slots := (inv_slots (h_inv h))[unat slot := None]\<rparr>)\<rparr>))"
  using assms
  by (simp add: RemoveItem_def GetItemByPos_def get_item_def on_inv_def set_slot_def upd_item_def put_item_def
      split: option.split)

lemma sell_inv:
  assumes ok: "inv_ok idb s" and room: "length (inv_queue s) < 32767" and k: "k < 145" "inv_slots s ! k = Some i"
    and it: "inv_heap s i = Some it" and s1: "s1 = put_item i (it\<lparr>it_count := it_count it - n\<rparr>) s"
  shows "it_count it = n \<Longrightarrow> it_state it = ITEM_NEW \<Longrightarrow>
      \<exists>t. SetState i ITEM_REMOVED s1 = Inr t \<and> inv_heap t i = None \<and> inv_slots t = inv_slots s"
    and "it_count it = n \<Longrightarrow> it_state it \<noteq> ITEM_NEW \<Longrightarrow>
      \<exists>t jt. SetState i ITEM_REMOVED s1 = Inr t \<and> inv_heap t i = Some jt \<and> inv_slots t = inv_slots s \<and>
        (let u = put_item i (jt\<lparr>it_slot := NULL_SLOT, it_contained := 0\<rparr>) (t\<lparr>inv_slots := (inv_slots s)[k := None]\<rparr>)
         in inv_ok idb u \<and> abs_bag u = (abs_bag s)(k := None))"
    and "it_count it \<noteq> n \<Longrightarrow> \<exists>t. SetState i ITEM_CHANGED s1 = Inr t \<and> inv_ok idb t \<and>
      abs_bag t = (abs_bag s)(k \<mapsto> (it_entry it, it_count it - n))"
proof -
  note D = inv_okD [OF ok]
  have sits: "sits s k it" using slots_ok_sits [OF D(3) k] it by simp
  let ?it1 = "it\<lparr>it_count := it_count it - n\<rparr>"
  have q1: "queue_ok s1"
    by (rule queue_ok_upd [OF D(1), where i = i and it' = ?it1]) (use it in \<open>simp_all add: put_item_def s1\<close>)
  have i1: "inv_heap s1 i = Some ?it1" "it_owner ?it1 = inv_guid s1" "length (inv_queue s1) < 32767"
    using sits room by (simp_all add: put_item_def sits_def s1)
  show "\<exists>t. SetState i ITEM_REMOVED s1 = Inr t \<and> inv_heap t i = None \<and> inv_slots t = inv_slots s"
    if "it_count it = n" "it_state it = ITEM_NEW"
    using SetState_new_removed [OF q1 i1(1)] that(2) by (auto simp: same_rest_def s1 put_item_def)
  show "\<exists>t jt. SetState i ITEM_REMOVED s1 = Inr t \<and> inv_heap t i = Some jt \<and> inv_slots t = inv_slots s \<and>
      (let u = put_item i (jt\<lparr>it_slot := NULL_SLOT, it_contained := 0\<rparr>) (t\<lparr>inv_slots := (inv_slots s)[k := None]\<rparr>)
       in inv_ok idb u \<and> abs_bag u = (abs_bag s)(k := None))"
    if n: "it_count it = n" and st: "it_state it \<noteq> ITEM_NEW"
  proof -
    obtain t p where t: "SetState i ITEM_REMOVED s1 = Inr t" "queue_ok t" "p \<noteq> - 1"
      "inv_heap t = (inv_heap s1)(i \<mapsto> ?it1\<lparr>it_state := next_state ITEM_REMOVED ?it1, it_qpos := p\<rparr>)" "same_rest s1 t"
      using SetState_change_ok [OF q1 i1, of ITEM_REMOVED] st by auto
    let ?jt = "?it1\<lparr>it_state := ITEM_REMOVED, it_qpos := p\<rparr>"
    let ?jt2 = "?jt\<lparr>it_slot := NULL_SLOT, it_contained := 0\<rparr>"
    let ?u = "put_item i ?jt2 (t\<lparr>inv_slots := (inv_slots s)[k := None]\<rparr>)"
    have j: "inv_heap t i = Some ?jt" using t(4) st by (simp add: next_state_def)
    have rest: "inv_guid ?u = inv_guid s" "inv_slots ?u = (inv_slots s)[k := None]" "inv_next ?u = inv_next s"
      "inv_hiGuid ?u = inv_hiGuid s" "inv_rows ?u = inv_rows s" "inv_instances ?u = inv_instances s"
      using t(5) by (simp_all add: same_rest_def put_item_def s1)
    have heap: "inv_heap ?u = (inv_heap s)(i \<mapsto> ?jt2)"
      using t(4) by (simp add: put_item_def s1)
    have qu: "queue_ok ?u"
      by (rule queue_ok_upd [OF t(2), where i = i and it' = ?jt2]) (use j in \<open>simp_all add: put_item_def\<close>)
    have "persist_ok ?u"
      by (rule persist_ok_change [OF D(2) it heap rest(1,5,6), where st = ITEM_REMOVED])
         (use sits st t(3) in \<open>simp_all add: sits_def next_state_def\<close>)
    then have "inv_ok idb ?u \<and> abs_bag ?u = (abs_bag s)(k := None)"
      by (rule inv_ok_taken [OF ok k it qu _ heap _ rest(1-4)]) auto
    then show ?thesis
      using t(1,5) j by (auto simp: same_rest_def s1 put_item_def Let_def)
  qed
  show "\<exists>t. SetState i ITEM_CHANGED s1 = Inr t \<and> inv_ok idb t \<and> abs_bag t = (abs_bag s)(k \<mapsto> (it_entry it, it_count it - n))"
    if ne: "it_count it \<noteq> n"
  proof -
    obtain t where t: "use_up i k n s = Inr t" "inv_ok idb t" "abs_bag t = (abs_bag s)(k \<mapsto> (it_entry it, it_count it - n))"
      using use_up_refines [OF ok room k it, of n] unfolding if_not_P [OF ne] by blast
    moreover have "use_up i k n s = SetState i ITEM_CHANGED s1"
      using it ne by (simp add: use_up_def upd_item_def get_item_def put_item_def s1)
    ultimately show ?thesis by auto
  qed
qed

text \<open>C30: selling takes exactly the sold number out of the bag, adds the price to the gold and keeps the inventory
  consistent; but selling all of an item that was never saved deletes the item first and then reads it.\<close>

theorem sell_item_result:
  assumes "inv_ok idb (h_inv h)" and "length (inv_queue (h_inv h)) < 32767" and "h_session h"
    and "10 \<le> unat (inv_pos slot)" and "unat (inv_pos slot) < 145"
    and "inv_slots (h_inv h) ! unat (inv_pos slot) = Some i" and "inv_heap (h_inv h) i = Some it"
    and "idb (it_entry it) = Some p" and "ucast count \<le> it_count it"
  shows "if it_count it = ucast count \<and> it_state it = ITEM_NEW then sell_item idb slot count h = Inl UseAfterFree
    else \<exists>h'. sell_item idb slot count h = Inr h' \<and> inv_ok idb (h_inv h') \<and>
      abs_bag (h_inv h') = (abs_bag (h_inv h))(unat (inv_pos slot) :=
        if it_count it = ucast count then None else Some (it_entry it, it_count it - ucast count)) \<and>
      h_unit h' = uapply PLAYER_GOLD_INHAND (ip_sellprice p * ucast count) True (h_unit h)"
proof -
  let ?s = "h_inv h" and ?k = "unat (inv_pos slot)" and ?n = "ucast count :: u32"
  let ?s1 = "put_item i (it\<lparr>it_count := it_count it - ?n\<rparr>) ?s"
  have len: "length (inv_slots ?s) = 145" by (rule slots_ok_length [OF inv_okD(3) [OF assms(1)]])
  note inv = sell_inv [OF assms(1,2,5,6,7) refl, of ?n]
  have enough: "\<not> it_count it < ?n"
    using assms(9) by (simp add: not_less)
  have run: "sell_item idb slot count h =
      bindR (if it_count it = ?n then bindR (on_inv (SetState i ITEM_REMOVED) (h\<lparr>h_inv := ?s1\<rparr>)) (RemoveItem idb (inv_pos slot))
             else on_inv (SetState i ITEM_CHANGED) (h\<lparr>h_inv := ?s1\<rparr>)) (\<lambda>h2.
        bindR (say_must 0x17 [FU8 9, FU8 slot, FU8 count] (set_unit (uapply PLAYER_GOLD_INHAND (ip_sellprice p * ?n) True) h2)) (\<lambda>h4.
          say_must 0x1B [FU8 2, FU8 0] (UpdateGold (ip_sellprice p * ?n) h4)))"
    using assms(5-8) len enough
    by (simp add: sell_item_def GetItemByPos_def need_proto_def get_item_def on_inv_def upd_item_def put_item_def Let_def)
  have rest: "\<exists>h'. bindR (say_must 0x17 [FU8 9, FU8 slot, FU8 count] (set_unit (uapply PLAYER_GOLD_INHAND (ip_sellprice p * ?n) True) (h\<lparr>h_inv := u\<rparr>))) (\<lambda>h4.
          say_must 0x1B [FU8 2, FU8 0] (UpdateGold (ip_sellprice p * ?n) h4)) = Inr h' \<and> h_inv h' = u \<and>
      h_unit h' = uapply PLAYER_GOLD_INHAND (ip_sellprice p * ucast count) True (h_unit h)" for u
    using assms(3) by (simp add: say_must_def say_def set_unit_def UpdateGold_def say_session_def)
  consider (new) "it_count it = ?n" "it_state it = ITEM_NEW" | (all) "it_count it = ?n" "it_state it \<noteq> ITEM_NEW"
    | (some) "it_count it \<noteq> ?n" by blast
  then show ?thesis
  proof cases
    case new
    obtain t where t: "SetState i ITEM_REMOVED ?s1 = Inr t" "inv_heap t i = None" "inv_slots t = inv_slots ?s"
      using inv(1) [OF new] by blast
    have "RemoveItem idb (inv_pos slot) (h\<lparr>h_inv := t\<rparr>) = Inl UseAfterFree"
      using RemoveItem_slot [of "inv_pos slot" "h\<lparr>h_inv := t\<rparr>" i idb] t(2,3) assms(4-6) len by simp
    then show ?thesis
      using run new t(1) by (simp add: on_inv_def)
  next
    case all
    obtain t jt where t: "SetState i ITEM_REMOVED ?s1 = Inr t" "inv_heap t i = Some jt" "inv_slots t = inv_slots ?s"
      "inv_ok idb (put_item i (jt\<lparr>it_slot := NULL_SLOT, it_contained := 0\<rparr>) (t\<lparr>inv_slots := (inv_slots ?s)[?k := None]\<rparr>))"
      "abs_bag (put_item i (jt\<lparr>it_slot := NULL_SLOT, it_contained := 0\<rparr>) (t\<lparr>inv_slots := (inv_slots ?s)[?k := None]\<rparr>)) = (abs_bag ?s)(?k := None)"
      using inv(2) [OF all] unfolding Let_def by blast
    let ?u = "put_item i (jt\<lparr>it_slot := NULL_SLOT, it_contained := 0\<rparr>) (t\<lparr>inv_slots := (inv_slots ?s)[?k := None]\<rparr>)"
    have "RemoveItem idb (inv_pos slot) (h\<lparr>h_inv := t\<rparr>) = Inr (h\<lparr>h_inv := ?u\<rparr>)"
      using RemoveItem_slot [of "inv_pos slot" "h\<lparr>h_inv := t\<rparr>" i idb] t(2,3) assms(4-6) len by simp
    then show ?thesis
      using run all t(1,4,5) rest [of ?u] by (auto simp: on_inv_def)
  next
    case some
    obtain t where t: "SetState i ITEM_CHANGED ?s1 = Inr t" "inv_ok idb t" "abs_bag t = (abs_bag ?s)(?k \<mapsto> (it_entry it, it_count it - ?n))"
      using inv(3) [OF some] by blast
    then show ?thesis
      using run some rest [of t] by (auto simp: on_inv_def)
  qed
qed

subsection \<open>Buying\<close>

lemma underpaid:
  assumes "unat gold < unat price" and "unat price < 2 ^ 31"
  shows "ApplyModUInt32Var gold price False = 0"
proof -
  have "int (unat gold) < int (unat price)" "int (unat price) < int (2 ^ 31)"
    using assms unfolding of_nat_less_iff .
  then have u: "uint gold < uint price" "uint price < 2 ^ 31" by simp_all
  have "gold - price = word_of_int (uint gold - uint price)" by simp
  moreover have "sint (word_of_int (uint gold - uint price) :: 32 word) = uint gold - uint price"
    using u uint_ge_0 [of gold] by (intro sint_of_int_32) linarith+
  ultimately show ?thesis
    using u(1) by (simp add: ApplyModUInt32Var_def Let_def)
qed

text \<open>Buying takes the price from the gold and adds the items that fit to the bag; the only guard compares the
  gold with the number of items, so a player with less gold than the price ends with no gold and with the
  items, and with a full bag the gold is gone and nothing was bought.\<close>

theorem buy_item_result:
  assumes "inv_ok idb (h_inv h)" and "length (inv_queue (h_inv h)) < 32767" and "unat (inv_hiGuid (h_inv h)) + 2 < 2 ^ 32"
    and "h_session h" and "goods slot = Some entry" and "idb entry = Some p"
    and "GetItemEntryByModelId query (ip_modelid p) cache = (e, cache')"
    and "ucast count \<le> uget (h_unit h) PLAYER_GOLD_INHAND"
  shows "\<exists>h'. buy_item idb query (Some goods) slot count (cache, h) = Inr (cache', h') \<and> inv_ok idb (h_inv h') \<and>
    abs_bag (h_inv h') = snd (bag_add idb e (ucast count) (abs_bag (h_inv h))) \<and>
    uget (h_unit h') PLAYER_GOLD_INHAND =
      ApplyModUInt32Var (uget (h_unit h) PLAYER_GOLD_INHAND) (ip_buyprice p * ucast count) False \<and>
    (unat (uget (h_unit h) PLAYER_GOLD_INHAND) < unat (ip_buyprice p * ucast count) \<and> unat (ip_buyprice p * ucast count) < 2 ^ 31 \<longrightarrow>
       uget (h_unit h') PLAYER_GOLD_INHAND = 0)"
proof -
  let ?price = "ip_buyprice p * ucast count" and ?gold = "uget (h_unit h) PLAYER_GOLD_INHAND"
  obtain t where t: "add_new_item idb e (ucast count) (h_inv h) = Inr (fst (bag_add idb e (ucast count) (abs_bag (h_inv h))), t)"
    "inv_ok idb t" "abs_bag t = snd (bag_add idb e (ucast count) (abs_bag (h_inv h)))"
    using add_new_item_refines [OF assms(1-3), of e "ucast count"] by blast
  have enough: "\<not> ?gold < ucast count" using assms(8) by (simp add: not_less)
  let ?h1 = "set_unit (uapply PLAYER_GOLD_INHAND ?price False) h"
  let ?h2 = "UpdateGold (- ?price) (UpdateInventoryForItem (ucast (ip_modelid p)) (ucast count) (?h1\<lparr>h_inv := t\<rparr>))"
  have inv1: "h_inv ?h1 = h_inv h" by (simp add: set_unit_def)
  have run: "buy_item idb query (Some goods) slot count (cache, h) = bindR (say_must 0x1B [FU8 2, FU8 0] ?h2) (\<lambda>h3. Inr (cache', h3))"
    using assms(5,6,7) enough t(1)
    by (simp add: buy_item_def AddNewInventoryItem_def Let_def inv1 del: PLAYER_GOLD_INHAND_def)
  have fields: "h_inv ?h2 = t" "h_unit ?h2 = uapply PLAYER_GOLD_INHAND ?price False (h_unit h)" "h_session ?h2"
    using assms(4) by (simp_all add: UpdateGold_def UpdateInventoryForItem_def say_session_def say_def set_unit_def)
  have "uget (uapply PLAYER_GOLD_INHAND ?price False (h_unit h)) PLAYER_GOLD_INHAND = ApplyModUInt32Var ?gold ?price False"
    by (simp add: uapply_def)
  then show ?thesis
    using run fields t(2,3) underpaid [of ?gold ?price] by (auto simp: say_must_def say_def)
qed

subsection \<open>Witnesses\<close>

definition food_idb :: item_db where
  "food_idb = [26001 \<mapsto> sample_proto\<lparr>ip_TypeDesc := ''Food''\<rparr>]"

lemma food_ok: "inv_ok food_idb sample_inv"
  using sample_inv_inv_ok by (auto simp: inv_ok_def known_ok_def food_idb_def sample_idb_def split: if_splits)

lemma sample_slot:
  "inv_slots (h_inv sample_hero) ! unat (inv_pos 1) = Some 0" "inv_heap (h_inv sample_hero) 0 = Some sample_item"
  "unat (inv_pos 1) = 10" "length (inv_queue (h_inv sample_hero)) < 32767" "h_session sample_hero"
  "h_inv sample_hero = sample_inv" "unat (inv_hiGuid (h_inv sample_hero)) + 2 < 2 ^ 32"
  by (simp_all add: sample_hero_def sample_inv_def inv_pos_def)

theorem consume_takes_any_amount_witness:
  "\<exists>h'. ConsumeInventoryItemFor food_idb 0 10 4 sample_hero = Inr (True, h') \<and> abs_bag (h_inv h') 10 = Some (26001, 0xFFFFFFFF)"
proof -
  have "consumable (ip_TypeDesc (sample_proto\<lparr>ip_TypeDesc := ''Food''\<rparr>))" by (simp add: consumable_def)
  then show ?thesis
    using consume_takes_any_amount [of food_idb sample_hero 10 0 sample_item "sample_proto\<lparr>ip_TypeDesc := ''Food''\<rparr>" 4]
      food_ok sample_slot by (auto simp: sample_item_def food_idb_def)
qed

theorem sell_item_result_witness:
  "sell_item sample_idb 1 3 sample_hero = Inl UseAfterFree \<and>
   (\<exists>h'. sell_item sample_idb 1 2 sample_hero = Inr h' \<and> abs_bag (h_inv h') 10 = Some (26001, 1))"
  using sell_item_result [of sample_idb sample_hero 1 0 sample_item sample_proto 3]
    sell_item_result [of sample_idb sample_hero 1 0 sample_item sample_proto 2] sample_inv_inv_ok sample_slot
  by (auto simp: sample_item_def sample_idb_def)

theorem buy_item_result_witness:
  "\<exists>h'. buy_item sample_idb (\<lambda>_. None) (Some (\<lambda>_. Some 26001)) 1 2 (Map.empty(9 \<mapsto> 1), set_unit (uset PLAYER_GOLD_INHAND 15) sample_hero) =
     Inr (Map.empty(9 \<mapsto> 1), h') \<and> uget (h_unit h') PLAYER_GOLD_INHAND = 0"
  using buy_item_result [of sample_idb "set_unit (uset PLAYER_GOLD_INHAND 15) sample_hero" "\<lambda>_. Some 26001" 1 26001 sample_proto
      "\<lambda>_. None" "Map.empty(9 \<mapsto> 1)" 9 "Map.empty(9 \<mapsto> 1)" 2] sample_inv_inv_ok sample_slot
  by (auto simp: sample_idb_def sample_proto_def set_unit_def uset_def GetItemEntryByModelId_def)

end
