(* ===== verification/Saving.thy ===== *)
theory Saving
  imports Wearing "HOL-Library.Multiset"
begin

text \<open>
  Saving a player (\<open>Player::SaveToDB\<close>, \<open>_SaveSpells\<close>, \<open>_removeSpell\<close>) and loading its spells
  (\<open>_LoadSpells\<close>). The rows of \<open>character_spell\<close> that belong to the player are a list, since the table has
  no key on the entry.
\<close>

subsection \<open>Spells\<close>

definition removeSpell :: "u16 \<Rightarrow> (u16 \<times> spell) list \<Rightarrow> (u16 \<times> spell) list" where
  "removeSpell entry sps = filter (\<lambda>(e, _). e \<noteq> entry) sps"

definition set_saved :: "u16 \<Rightarrow> (u16 \<times> spell) list \<Rightarrow> (u16 \<times> spell) list" where
  "set_saved entry sps = map_spell entry (\<lambda>sp. sp\<lparr>sp_state := SPELL_UNCHANGED\<rparr>) sps"

text \<open>The statements and the change of the book for one spell.\<close>

definition save_spell ::
  "u16 \<times> spell \<Rightarrow> (u16 \<times> spell) list \<times> (u16 \<times> u8) list \<Rightarrow> (u16 \<times> spell) list \<times> (u16 \<times> u8) list" where
  "save_spell = (\<lambda>(e, sp) (book, rows).
     let st = sp_state sp;
         rows1 = (if st = SPELL_REMOVED \<or> st = SPELL_CHANGED then filter (\<lambda>(k, _). k \<noteq> e) rows else rows);
         rows2 = (if st = SPELL_NEW \<or> st = SPELL_CHANGED then rows1 @ [(e, sp_level sp)] else rows1)
     in (if st = SPELL_REMOVED then removeSpell e book else set_saved e book, rows2))"

definition SaveSpells :: "hero \<Rightarrow> hero" where
  "SaveSpells h =
     (case fold save_spell (u_spells (h_unit h)) (u_spells (h_unit h), h_spellRows h) of
        (book, rows) \<Rightarrow> h\<lparr>h_unit := (h_unit h)\<lparr>u_spells := book\<rparr>, h_spellRows := rows\<rparr>)"

definition ResetSpells :: "hero \<Rightarrow> hero" where
  "ResetSpells h =
     SaveSpells (h\<lparr>h_unit := (h_unit h)\<lparr>u_spells := map (\<lambda>(e, sp). (e, sp\<lparr>sp_state := SPELL_REMOVED\<rparr>)) (u_spells (h_unit h))\<rparr>\<rparr>)"

definition MAX_PLAYER_SPELL :: nat where [simp]: "MAX_PLAYER_SPELL = 254"

text \<open>The loop over the rows; a row that is no spell for the unit is skipped.\<close>

fun load_spells :: "spell_db \<Rightarrow> (u16 \<times> u8) list \<Rightarrow> nat \<Rightarrow> unit_rec \<Rightarrow> unit_rec res" where
  "load_spells sdb [] n u = Inr u"
| "load_spells sdb ((entry, level) # rows) n u =
     bindR (AddSpell sdb entry level SPELL_UNCHANGED u) (\<lambda>(ok, u1).
       if \<not> ok then load_spells sdb rows n u1
       else if n + 1 > MAX_PLAYER_SPELL then Inr u1
       else load_spells sdb rows (n + 1) u1)"

text \<open>\<open>rows\<close> is the result of the query, in the order of the entries.\<close>

definition LoadSpells :: "spell_db \<Rightarrow> (u16 \<times> u8) list \<Rightarrow> unit_rec \<Rightarrow> unit_rec res" where
  "LoadSpells sdb rows u = load_spells sdb rows 0 (u\<lparr>u_spells := []\<rparr>)"

subsection \<open>The player\<close>

definition char_row_of :: "hero \<Rightarrow> char_row" where
  "char_row_of h = (h_account h, h_name h, h_map h, h_x h, h_y h, u_vals (h_unit h))"

text \<open>
  All statements of a save are one transaction, and the row of the character, which holds the name as it
  is, comes first: a database that refuses it takes back the deletion of the old row and executes none of
  the statements behind it (\<open>SqlTransaction::Execute\<close>), while the objects are marked as saved.
\<close>

definition end_transaction :: "hero \<Rightarrow> hero \<Rightarrow> hero" where
  "end_transaction h k =
     (case h_insert h (char_row_of h) of
        Some r \<Rightarrow> k\<lparr>h_row := Some r\<rparr>
      | None \<Rightarrow> k\<lparr>h_row := h_row h, h_petRows := h_petRows h, h_spellRows := h_spellRows h,
                  h_inv := (h_inv k)\<lparr>inv_rows := inv_rows (h_inv h), inv_instances := inv_instances (h_inv h)\<rparr>\<rparr>)"

definition SaveToDB_player :: "item_db \<Rightarrow> hero \<Rightarrow> hero res" where
  "SaveToDB_player idb h =
     (if \<not> h_session h then Inl NullDeref
      else bindR (SavePets h) (\<lambda>h1.
           bindR (on_inv (SaveInventory (\<lambda>e. idb e \<noteq> None)) h1) (\<lambda>h2.
             Inr (end_transaction h (SaveSpells h2)))))"

text \<open>
  What is known of the database: a name of at most 20 printable ASCII characters without a quote or a
  backslash is stored as it is, for an account that fits its column.
\<close>

definition plain_name :: "bytes \<Rightarrow> bool" where
  "plain_name s \<longleftrightarrow> length s \<le> 20 \<and> (\<forall>c \<in> set s. 32 \<le> c \<and> c < 127 \<and> c \<noteq> 39 \<and> c \<noteq> 92)"

definition plain_row :: "char_row \<Rightarrow> bool" where
  "plain_row r \<longleftrightarrow> fst r < 0x80000000 \<and> plain_name (fst (snd r))"

definition takes_plain :: "hero \<Rightarrow> bool" where
  "takes_plain h \<longleftrightarrow> (\<forall>r. plain_row r \<longrightarrow> h_insert h r = Some r)"

text \<open>The rows of this player are stored as they are, whatever its fields and its place.\<close>

definition row_accepted :: "hero \<Rightarrow> bool" where
  "row_accepted h \<longleftrightarrow> (\<forall>m x y vals. h_insert h (h_account h, h_name h, m, x, y, vals) = Some (h_account h, h_name h, m, x, y, vals))"

lemma plain_accepted:
  "takes_plain h \<Longrightarrow> h_account h < 0x80000000 \<Longrightarrow> plain_name (h_name h) \<Longrightarrow> row_accepted h"
  by (simp add: takes_plain_def plain_row_def row_accepted_def)

lemma accepted_transaction: "row_accepted h \<Longrightarrow> end_transaction h k = k\<lparr>h_row := Some (char_row_of h)\<rparr>"
  by (simp add: end_transaction_def row_accepted_def char_row_of_def)

lemma saved_row:
  "SaveToDB_player idb h = Inr k \<Longrightarrow> h_row k = (case h_insert h (char_row_of h) of None \<Rightarrow> h_row h | Some r \<Rightarrow> Some r)"
  by (cases "h_insert h (char_row_of h)") (auto simp: SaveToDB_player_def end_transaction_def bindR_eq_Inr split: if_splits)

subsection \<open>What is in the table\<close>

definition kept :: "(u16 \<times> spell) list \<Rightarrow> (u16 \<times> spell) list" where
  "kept sps = map (\<lambda>(e, sp). (e, sp\<lparr>sp_state := SPELL_UNCHANGED\<rparr>)) (filter (\<lambda>(_, sp). sp_state sp \<noteq> SPELL_REMOVED) sps)"

definition levels :: "(u16 \<times> spell) list \<Rightarrow> (u16 \<times> u8) list" where
  "levels sps = map (\<lambda>(e, sp). (e, sp_level sp)) sps"

definition rows_at :: "u16 \<Rightarrow> (u16 \<times> u8) list \<Rightarrow> (u16 \<times> u8) list" where
  "rows_at e rows = filter (\<lambda>(k, _). k = e) rows"

text \<open>An unchanged spell has its row, a new one has none.\<close>

definition spell_rows_ok :: "(u16 \<times> spell) list \<Rightarrow> (u16 \<times> u8) list \<Rightarrow> bool" where
  "spell_rows_ok sps rows \<longleftrightarrow> (\<forall>(e, sp) \<in> set sps.
     (sp_state sp = SPELL_UNCHANGED \<longrightarrow> rows_at e rows = [(e, sp_level sp)]) \<and> (sp_state sp = SPELL_NEW \<longrightarrow> rows_at e rows = []))"

lemma map_spell_other: "e \<notin> fst ` set sps \<Longrightarrow> map_spell e f sps = sps"
  by (induction sps) (auto simp: map_spell_def)

lemma removeSpell_other: "e \<notin> fst ` set sps \<Longrightarrow> removeSpell e sps = sps"
  by (induction sps) (auto simp: removeSpell_def)

lemma rows_at_simps:
  "rows_at e (filter (\<lambda>(k, _). k \<noteq> e') rows) = (if e = e' then [] else rows_at e rows)"
  "rows_at e (rows @ rows') = rows_at e rows @ rows_at e rows'"
  by (auto simp: rows_at_def filter_empty_conv intro!: filter_cong)

lemma book_append:
  "removeSpell e (xs @ ys) = removeSpell e xs @ removeSpell e ys"
  "map_spell e f (xs @ ys) = map_spell e f xs @ map_spell e f ys"
  "removeSpell e ((e, sp) # ys) = removeSpell e ys" "map_spell e f ((e, sp) # ys) = (e, f sp) # map_spell e f ys"
  by (simp_all add: removeSpell_def map_spell_def)

lemma filter_other:
  "filter (\<lambda>(k, _). k \<notin> insert e K) (filter (\<lambda>(k, _). k \<noteq> e) rows) = filter (\<lambda>(k, _). k \<notin> insert e K) rows"
  by (induction rows) auto

lemma mset_without:
  "mset (filter (\<lambda>(k, _). k \<notin> K) rows) =
   mset (filter (\<lambda>(k, _). k \<notin> insert e K) rows) + (if e \<in> K then {#} else mset (rows_at e rows))"
  by (induction rows) (auto simp: rows_at_def)

lemma fold_save_spell:
  assumes "distinct (map fst (done @ sps))" and "spell_rows_ok sps rows"
  shows "\<exists>rows'. fold save_spell sps (done @ sps, rows) = (done @ kept sps, rows') \<and>
    mset rows' = mset (filter (\<lambda>(k, _). k \<notin> fst ` set sps) rows) + mset (levels (kept sps))"
  using assms
proof (induction sps arbitrary: "done" rows)
  case Nil
  then show ?case by (simp add: kept_def levels_def)
next
  case (Cons x sps)
  obtain e sp where x: "x = (e, sp)" by fastforce
  let ?st = "sp_state sp" and ?row = "(e, sp_level sp)" and ?sp = "(e, sp\<lparr>sp_state := SPELL_UNCHANGED\<rparr>)"
  obtain book rows2 where step: "save_spell x (done @ x # sps, rows) = (book, rows2)" by fastforce
  have other: "e \<notin> fst ` set done" "e \<notin> fst ` set sps" "distinct (map fst (done @ sps))"
    using Cons.prems(1) by (auto simp: x)
  define more where "more = (if ?st = SPELL_REMOVED then [] else [?sp])"
  have book: "book = (done @ more) @ sps"
    using step other(1,2)
    by (auto simp: x save_spell_def Let_def set_saved_def more_def book_append removeSpell_other map_spell_other)
  have rows2: "rows2 = (let r = (if ?st = SPELL_REMOVED \<or> ?st = SPELL_CHANGED then filter (\<lambda>(k, _). k \<noteq> e) rows else rows)
      in if ?st = SPELL_NEW \<or> ?st = SPELL_CHANGED then r @ [?row] else r)"
    using step by (simp add: x save_spell_def Let_def split: if_splits)
  have mine: "?st = SPELL_UNCHANGED \<Longrightarrow> rows_at e rows = [?row]" "?st = SPELL_NEW \<Longrightarrow> rows_at e rows = []"
    using Cons.prems(2) by (auto simp: x spell_rows_ok_def)
  have here: "rows_at e rows2 = (if ?st = SPELL_REMOVED then [] else [?row])"
    using mine by (cases ?st) (simp_all add: rows2 rows_at_simps, simp_all add: rows_at_def)
  have there: "rows_at k rows2 = rows_at k rows" if "k \<noteq> e" for k
    using that by (simp add: rows2 rows_at_simps Let_def) (simp add: rows_at_def)
  have "spell_rows_ok sps rows2"
    using Cons.prems(2) other(2) there unfolding spell_rows_ok_def by (force simp: x)
  moreover have "distinct (map fst ((done @ more) @ sps))"
    using Cons.prems(1) by (auto simp: x more_def)
  ultimately obtain rows' where r: "fold save_spell sps ((done @ more) @ sps, rows2) = ((done @ more) @ kept sps, rows')"
    "mset rows' = mset (filter (\<lambda>(k, _). k \<notin> fst ` set sps) rows2) + mset (levels (kept sps))"
    using Cons.IH by blast
  have "filter (\<lambda>(k, _). k \<notin> insert e (fst ` set sps)) rows2 = filter (\<lambda>(k, _). k \<notin> insert e (fst ` set sps)) rows"
    unfolding rows2 Let_def using filter_other [of e "fst ` set sps" rows] by simp
  then have rest: "mset (filter (\<lambda>(k, _). k \<notin> insert e (fst ` set sps)) rows2) =
      mset (filter (\<lambda>(k, _). k \<notin> insert e (fst ` set sps)) rows)"
    by simp
  have "kept (x # sps) = more @ kept sps"
    by (simp add: kept_def more_def x)
  moreover have "mset (levels (more @ kept sps)) = mset (rows_at e rows2) + mset (levels (kept sps))"
    by (simp add: levels_def more_def here)
  ultimately show ?case
    using r step book rest mset_without [of "fst ` set sps" rows2 e] other(2) by (simp add: x)
qed

subsection \<open>Loading gives the book back\<close>

definition loaded :: "(u16 \<times> u8) list \<Rightarrow> (u16 \<times> spell) list" where
  "loaded rows = map (\<lambda>(e, l). (e, \<lparr>sp_entry = e, sp_level = l, sp_state = SPELL_UNCHANGED\<rparr>)) rows"

lemma load_spells_all:
  assumes "distinct (map fst (u_spells u) @ map fst rows)" and "n + length rows \<le> 254"
    and "\<forall>(e, l) \<in> set rows. e \<noteq> 0 \<and> spell_allowed sdb u e"
  shows "load_spells sdb rows n u = Inr (u\<lparr>u_spells := u_spells u @ loaded rows\<rparr>)"
  using assms
proof (induction rows arbitrary: n u)
  case Nil
  then show ?case by (simp add: loaded_def)
next
  case (Cons r rows)
  obtain e l where r: "r = (e, l)" by fastforce
  have new: "FindSpell u e = None"
    using Cons.prems(1) by (auto simp: r FindSpell_def map_of_eq_None_iff)
  let ?u = "u\<lparr>u_spells := u_spells u @ [(e, \<lparr>sp_entry = e, sp_level = l, sp_state = SPELL_UNCHANGED\<rparr>)]\<rparr>"
  have "AddSpell sdb e l SPELL_UNCHANGED u = Inr (True, ?u)"
    using Cons.prems(3) new by (auto simp: r AddSpell_cases)
  moreover have "load_spells sdb rows (n + 1) ?u = Inr (?u\<lparr>u_spells := u_spells ?u @ loaded rows\<rparr>)"
    using Cons.prems by (intro Cons.IH) (auto simp: r)
  ultimately show ?case
    using Cons.prems(2) by (simp add: r loaded_def)
qed

lemma loaded_levels:
  assumes "\<forall>(e, sp) \<in> set sps. sp_entry sp = e \<and> sp_state sp = SPELL_UNCHANGED"
  shows "loaded (levels sps) = sps"
  using assms by (induction sps) (auto simp: loaded_def levels_def)

lemma rows_at_levels:
  assumes "distinct (map fst sps)" and "(e, sp) \<in> set sps"
  shows "rows_at e (levels sps) = [(e, sp_level sp)]"
  using assms by (induction sps) (force simp: rows_at_def levels_def filter_empty_conv)+

lemma rows_at_mset: "mset rows = mset rows' \<Longrightarrow> mset (rows_at e rows) = mset (rows_at e rows')"
  by (simp add: rows_at_def)

text \<open>C24: saving leaves in the table exactly one row with the level of every spell that was not removed, and only
  those spells in the book; loading the rows in any order gives the same book back.\<close>

theorem spells_saved_and_loaded:
  assumes "book_ok sdb (h_unit h)" and "spell_rows_ok (u_spells (h_unit h)) (h_spellRows h)"
    and "fst ` set (h_spellRows h) \<subseteq> fst ` set (u_spells (h_unit h))" and "length (u_spells (h_unit h)) \<le> 254"
    and "mset rows = mset (h_spellRows (SaveSpells h))"
  shows "u_spells (h_unit (SaveSpells h)) = kept (u_spells (h_unit h)) \<and>
    mset (h_spellRows (SaveSpells h)) = mset (levels (kept (u_spells (h_unit h)))) \<and>
    spell_rows_ok (u_spells (h_unit (SaveSpells h))) (h_spellRows (SaveSpells h)) \<and>
    (\<exists>v. LoadSpells sdb rows (h_unit h) = Inr v \<and> FindSpell v = FindSpell (h_unit (SaveSpells h)))"
proof -
  let ?book = "u_spells (h_unit h)" and ?h = "SaveSpells h"
  have dist: "distinct (map fst ?book)" using assms(1) by (simp add: book_ok_def)
  have none: "filter (\<lambda>(k, _). k \<notin> fst ` set ?book) (h_spellRows h) = []"
    using assms(3) by (force simp: filter_empty_conv)
  have "\<exists>rows'. fold save_spell ?book (?book, h_spellRows h) = (kept ?book, rows') \<and> mset rows' = mset (levels (kept ?book))"
    using fold_save_spell [of "[]" ?book "h_spellRows h"] dist assms(2) unfolding none by auto
  then have saved: "u_spells (h_unit ?h) = kept ?book" "mset (h_spellRows ?h) = mset (levels (kept ?book))"
    by (auto simp: SaveSpells_def)
  have kd: "distinct (map fst (kept ?book))"
    using dist unfolding kept_def by (auto simp: distinct_map inj_on_def case_prod_beta)
  have k: "sp_entry sp = e \<and> sp_state sp = SPELL_UNCHANGED \<and> e \<noteq> 0 \<and> spell_allowed sdb (h_unit h) e" if "(e, sp) \<in> set (kept ?book)" for e sp
    using that assms(1) by (auto simp: kept_def book_ok_def)
  have lev: "map fst (levels (kept ?book)) = map fst (kept ?book)"
    by (simp add: levels_def case_prod_beta)
  have rm: "mset rows = mset (levels (kept ?book))" using assms(5) saved(2) by simp
  have set_rows: "set rows = set (levels (kept ?book))" using rm by (rule mset_eq_setD)
  have rd: "distinct (map fst rows)"
    using kd lev rm by (metis mset_eq_imp_distinct_iff mset_map)
  have "length rows = length (kept ?book)" using mset_eq_length [OF rm] by (simp add: levels_def)
  also have "\<dots> \<le> length ?book" by (simp add: kept_def)
  finally have len: "length rows \<le> 254" using assms(4) by simp
  have "load_spells sdb rows 0 ((h_unit h)\<lparr>u_spells := []\<rparr>) = Inr ((h_unit h)\<lparr>u_spells := loaded rows\<rparr>)"
    using load_spells_all [of "(h_unit h)\<lparr>u_spells := []\<rparr>" rows 0 sdb] rd len k set_rows by (fastforce simp: levels_def)
  moreover have "map_of (loaded rows) = map_of (kept ?book)"
  proof (rule map_of_inject_set [THEN iffD2])
    show "distinct (map fst (loaded rows))" using rd by (simp add: loaded_def case_prod_beta comp_def)
    have "set (loaded rows) = set (loaded (levels (kept ?book)))" using set_rows by (simp add: loaded_def)
    then show "set (loaded rows) = set (kept ?book)" using k by (subst (asm) loaded_levels) auto
  qed (rule kd)
  moreover have "spell_rows_ok (kept ?book) (h_spellRows ?h)"
    unfolding spell_rows_ok_def
  proof clarify
    fix e sp
    assume m: "(e, sp) \<in> set (kept ?book)"
    have "mset (rows_at e (h_spellRows ?h)) = {#(e, sp_level sp)#}"
      using rows_at_mset [OF saved(2), of e] rows_at_levels [OF kd m] by simp
    then show "(sp_state sp = SPELL_UNCHANGED \<longrightarrow> rows_at e (h_spellRows ?h) = [(e, sp_level sp)]) \<and>
        (sp_state sp = SPELL_NEW \<longrightarrow> rows_at e (h_spellRows ?h) = [])"
      using k [OF m] by simp
  qed
  ultimately show ?thesis
    using saved by (simp add: LoadSpells_def FindSpell_def fun_eq_iff)
qed

definition spelling_hero :: hero where
  "spelling_hero = sample_hero\<lparr>h_unit := (h_unit sample_hero)\<lparr>u_spells :=
     [(12001, \<lparr>sp_entry = 12001, sp_level = 3, sp_state = SPELL_CHANGED\<rparr>)]\<rparr>, h_spellRows := [(12001, 1)]\<rparr>"

theorem spells_saved_and_loaded_witness:
  "mset (h_spellRows (SaveSpells spelling_hero)) = {#(12001, 3)#} \<and>
   (\<exists>v. LoadSpells sample_sdb [(12001, 3)] (h_unit spelling_hero) = Inr v \<and> map_option sp_level (FindSpell v 12001) = Some 3)"
proof -
  have book: "book_ok sample_sdb (h_unit spelling_hero)"
    by (simp add: book_ok_def spelling_hero_def sample_hero_def sample_unit_def sample_sdb_def spell_allowed_def
        opposite_element_def uset_def)
  have rows: "spell_rows_ok (u_spells (h_unit spelling_hero)) (h_spellRows spelling_hero)"
    "fst ` set (h_spellRows spelling_hero) \<subseteq> fst ` set (u_spells (h_unit spelling_hero))"
    by (simp_all add: spell_rows_ok_def spelling_hero_def)
  have saved: "h_spellRows (SaveSpells spelling_hero) = [(12001, 3)]"
    "u_spells (h_unit (SaveSpells spelling_hero)) = [(12001, \<lparr>sp_entry = 12001, sp_level = 3, sp_state = SPELL_UNCHANGED\<rparr>)]"
    by (simp_all add: SaveSpells_def spelling_hero_def save_spell_def set_saved_def map_spell_def)
  have len: "length (u_spells (h_unit spelling_hero)) \<le> 254"
    by (simp add: spelling_hero_def)
  have "mset [(12001, 3)] = mset (h_spellRows (SaveSpells spelling_hero))"
    by (simp only: saved(1))
  from spells_saved_and_loaded [OF book rows len this]
  obtain v where v: "LoadSpells sample_sdb [(12001, 3)] (h_unit spelling_hero) = Inr v"
    "FindSpell v = FindSpell (h_unit (SaveSpells spelling_hero))"
    by blast
  have "map_option sp_level (FindSpell v 12001) = Some 3"
    unfolding v(2) FindSpell_def saved(2) by simp
  with v(1) show ?thesis
    by (simp only: saved(1)) simp
qed

end
