(* ===== verification/BattleGrid.thy ===== *)
theory BattleGrid
  imports Spells ByteBuffer
begin

text \<open>
  The state of a battle and its field (\<open>src/game/BattleSystem.h\<close>, \<open>BattleSystem.cpp\<close>). Units are
  named by numbers; \<open>b_units\<close> is the heap they live in. \<open>m_BattleUnit[4][5]\<close> is the array of 20
  cells as C++ lays it out, column after column: an access \<open>[col][row]\<close> is cell \<open>5 * col + row\<close>,
  which for a row outside its column is a cell of another column, and outside the array is
  \<open>Inl OutOfBounds\<close>. Packets are an opcode and a list of scalars, each with the players it is sent
  to (\<open>WorldPacket\<close> says what bytes they are). The two random generators are part of the state.
\<close>

definition BATTLE_COL_MAX :: u8 where [simp]: "BATTLE_COL_MAX = 4"
definition BATTLE_ROW_MAX :: u8 where [simp]: "BATTLE_ROW_MAX = 5"
definition DEFENDER_COL_MAX :: u8 where [simp]: "DEFENDER_COL_MAX = 2"
definition ATTACKER_COL_MIN :: u8 where [simp]: "ATTACKER_COL_MIN = DEFENDER_COL_MAX"

type_synonym uid = nat

record battle_action =
  atkCol :: u8
  atkRow :: u8
  skill :: u16
  tgtCol :: u8
  tgtRow :: u8
  agility :: i32

definition BattleAction :: "u8 \<Rightarrow> u8 \<Rightarrow> u16 \<Rightarrow> u8 \<Rightarrow> u8 \<Rightarrow> battle_action" where
  "BattleAction a b s x y =
     \<lparr>atkCol = a, atkRow = b, skill = s, tgtCol = x, tgtRow = y, agility = 0\<rparr>"

record item_dropped =
  rcvCol :: u8
  rcvRow :: u8
  drop_item :: u16
  ctrCol :: u8
  ctrRow :: u8

type_synonym msg = "u8 \<times> field list"

record battle =
  b_grid :: "uid option list"
  b_units :: "uid \<Rightarrow> unit_rec"
  b_ground :: u16
  b_teamBattle :: bool
  b_teamLowest :: u8
  b_teamHighest :: u8
  b_teamLower :: u8
  b_master :: "uid option"
  b_masterOf :: "uid \<Rightarrow> uid option"
  b_players :: "uid list"
  b_need :: u8
  b_count :: u8
  b_wait :: bool
  b_actionTime :: u32
  b_animTime :: u32
  b_animTimeItem :: u32
  b_killed :: bool
  b_unitTurn :: "battle_action list"
  b_items :: "item_dropped list"
  b_Actions :: "battle_action list list"
  b_atkRate :: int
  b_defRate :: int
  b_rand32 :: int
  b_holdrand :: u32
  b_out :: "(uid list \<times> msg) list"

abbreviation unit_at :: "battle \<Rightarrow> uid \<Rightarrow> unit_rec" where
  "unit_at b i \<equiv> b_units b i"

definition upd_unit :: "uid \<Rightarrow> (unit_rec \<Rightarrow> unit_rec) \<Rightarrow> battle \<Rightarrow> battle" where
  "upd_unit i f b = b\<lparr>b_units := (b_units b)(i := f (b_units b i))\<rparr>"

definition isDead :: "unit_rec \<Rightarrow> bool" where "isDead u \<longleftrightarrow> u_death u = DEAD"
definition isAlive :: "unit_rec \<Rightarrow> bool" where "isAlive u \<longleftrightarrow> u_death u = ALIVE"

definition setDeathState :: "death_state \<Rightarrow> unit_rec \<Rightarrow> unit_rec" where
  "setDeathState d u = u\<lparr>u_death := d\<rparr>"

subsection \<open>Cells\<close>

definition cell :: "u8 \<Rightarrow> u8 \<Rightarrow> nat" where
  "cell col row = 5 * unat col + unat row"

definition grid_get :: "battle \<Rightarrow> u8 \<Rightarrow> u8 \<Rightarrow> uid option res" where
  "grid_get b col row =
     (if cell col row < length (b_grid b) then Inr (b_grid b ! cell col row) else Inl OutOfBounds)"

definition grid_set :: "u8 \<Rightarrow> u8 \<Rightarrow> uid option \<Rightarrow> battle \<Rightarrow> battle res" where
  "grid_set col row u b =
     (if cell col row < length (b_grid b)
      then Inr (b\<lparr>b_grid := (b_grid b)[cell col row := u]\<rparr>) else Inl OutOfBounds)"

definition SetPosition :: "uid \<Rightarrow> u8 \<Rightarrow> u8 \<Rightarrow> battle \<Rightarrow> battle res" where
  "SetPosition i col row b = grid_set col row (Some i) b"

text \<open>The guard of \<open>GetBattleUnit\<close> is \<open>>\<close>, not \<open>\<ge>\<close>.\<close>

definition GetBattleUnit :: "u8 \<Rightarrow> u8 \<Rightarrow> battle \<Rightarrow> uid option res" where
  "GetBattleUnit col row b =
     (if col > BATTLE_COL_MAX \<or> row > BATTLE_ROW_MAX then Inr None else grid_get b col row)"

definition isUnitAvail :: "u8 \<Rightarrow> u8 \<Rightarrow> bool \<Rightarrow> battle \<Rightarrow> bool res" where
  "isUnitAvail col row linked b =
     bindR (GetBattleUnit col row b) (\<lambda>u.
       Inr (case u of None \<Rightarrow> False | Some i \<Rightarrow> \<not> isDead (unit_at b i) \<or> linked))"

definition GetAttacker :: "battle_action \<Rightarrow> battle \<Rightarrow> uid option res" where
  "GetAttacker a b = GetBattleUnit (atkCol a) (atkRow a) b"

definition GetVictim :: "battle_action \<Rightarrow> battle \<Rightarrow> uid option res" where
  "GetVictim a b = GetBattleUnit (tgtCol a) (tgtRow a) b"

subsection \<open>Sides\<close>

definition isDefPos :: "u8 \<Rightarrow> bool" where "isDefPos col \<longleftrightarrow> col < DEFENDER_COL_MAX"
definition isAtkPos :: "u8 \<Rightarrow> bool" where "isAtkPos col \<longleftrightarrow> \<not> isDefPos col"

definition isDefPosBackRow :: "u8 \<Rightarrow> bool" where
  "isDefPosBackRow col \<longleftrightarrow> isDefPos col \<and> col \<noteq> DEFENDER_COL_MAX - 1"

definition isAtkPosBackRow :: "u8 \<Rightarrow> bool" where
  "isAtkPosBackRow col \<longleftrightarrow> isAtkPos col \<and> col \<noteq> ATTACKER_COL_MIN"

definition SameSide :: "battle_action option \<Rightarrow> battle_action \<Rightarrow> bool" where
  "SameSide prev act =
     (case prev of
        None \<Rightarrow> True
      | Some p \<Rightarrow>
          if isDefPos (atkCol p) then isDefPos (atkCol act) else \<not> isDefPos (atkCol act))"

text \<open>The rows and columns of the loops over the field, in their order.\<close>

definition rows :: "u8 list" where "rows = [0, 1, 2, 3, 4]"
definition def_cols :: "u8 list" where "def_cols = [0, 1]"
definition atk_cols :: "u8 list" where "atk_cols = [2, 3]"
definition all_cols :: "u8 list" where "all_cols = [0, 1, 2, 3]"

definition by_rows :: "u8 list \<Rightarrow> (u8 \<times> u8) list" where
  "by_rows cols = concat (map (\<lambda>r. map (\<lambda>c. (c, r)) cols) rows)"

definition by_cols :: "u8 list \<Rightarrow> (u8 \<times> u8) list" where
  "by_cols cols = concat (map (\<lambda>c. map (\<lambda>r. (c, r)) rows) cols)"

subsection \<open>Where a unit stands\<close>

fun find_pos :: "uid \<Rightarrow> (u8 \<times> u8) list \<Rightarrow> battle \<Rightarrow> (u8 \<times> u8) option res" where
  "find_pos u [] b = Inr None"
| "find_pos u ((i, j) # ps) b =
     bindR (GetBattleUnit i j b) (\<lambda>v. if v = Some u then Inr (Some (i, j)) else find_pos u ps b)"

definition GetPosFor :: "uid \<Rightarrow> battle \<Rightarrow> (u8 \<times> u8) option res" where
  "GetPosFor u b = find_pos u (by_cols all_cols) b"

text \<open>The pet of a player fights in the other column of its side.\<close>

definition other_col :: "u8 \<Rightarrow> u8" where
  "other_col c =
     (if isAtkPos c then if isAtkPosBackRow c then c - 1 else c + 1
      else if isDefPosBackRow c then c + 1 else c - 1)"

definition GetPetPosFor :: "uid \<Rightarrow> battle \<Rightarrow> (u8 \<times> u8) option res" where
  "GetPetPosFor player b =
     bindR (GetPosFor player b) (\<lambda>p.
       Inr (case p of None \<Rightarrow> None | Some (c, r) \<Rightarrow> Some (other_col c, r)))"

subsection \<open>The field as the code means it\<close>

definition grid_ok :: "battle \<Rightarrow> bool" where
  "grid_ok b \<longleftrightarrow> length (b_grid b) = 20"

definition on_field :: "u8 \<Rightarrow> u8 \<Rightarrow> bool" where
  "on_field col row \<longleftrightarrow> col < BATTLE_COL_MAX \<and> row < BATTLE_ROW_MAX"

text \<open>What stands at a position of the field.\<close>

definition standing :: "battle \<Rightarrow> u8 \<Rightarrow> u8 \<Rightarrow> uid option" where
  "standing b col row = (if on_field col row then b_grid b ! cell col row else None)"

lemma cell_bound: "on_field col row \<Longrightarrow> cell col row < 20"
  by (simp add: on_field_def cell_def word_less_nat_alt)

lemma cell_inj:
  assumes "row < BATTLE_ROW_MAX" and "row' < BATTLE_ROW_MAX" and "cell col row = cell col' row'"
  shows "col = col' \<and> row = row'"
proof -
  have "unat col = unat col' \<and> unat row = unat row'"
    using assms by (simp add: cell_def word_less_nat_alt) presburger
  then show ?thesis
    by (simp add: word_unat_eq_iff)
qed

lemma grid_get_field: "grid_ok b \<Longrightarrow> on_field col row \<Longrightarrow> grid_get b col row = Inr (standing b col row)"
  using cell_bound [of col row] by (simp add: grid_get_def standing_def grid_ok_def)

lemma GetBattleUnit_field:
  "grid_ok b \<Longrightarrow> on_field col row \<Longrightarrow> GetBattleUnit col row b = Inr (standing b col row)"
  by (simp add: GetBattleUnit_def grid_get_field) (simp add: on_field_def word_less_nat_alt word_le_nat_alt)

lemma grid_set_field:
  assumes "grid_ok b" and "on_field col row"
  shows "\<exists>b'. grid_set col row u b = Inr b' \<and> grid_ok b' \<and>
    (\<forall>c r. on_field c r \<longrightarrow> standing b' c r = (if c = col \<and> r = row then u else standing b c r)) \<and>
    b_units b' = b_units b"
proof -
  let ?b = "b\<lparr>b_grid := (b_grid b)[cell col row := u]\<rparr>"
  have eq: "cell col row = cell c r \<longleftrightarrow> c = col \<and> r = row" if "on_field c r" for c r
    using that assms(2) cell_inj [of r row c col] by (auto simp: on_field_def)
  have "grid_set col row u b = Inr ?b" "grid_ok ?b"
    using assms cell_bound [OF assms(2)] by (simp_all add: grid_set_def grid_ok_def)
  moreover have "standing ?b c r = (if c = col \<and> r = row then u else standing b c r)" if "on_field c r" for c r
    using assms(1) cell_bound [OF that] cell_bound [OF assms(2)] eq [OF that]
    by (auto simp: standing_def that grid_ok_def nth_list_update)
  ultimately show ?thesis by auto
qed

text \<open>Outside the field the guard lets column 4 and row 5 pass.\<close>

lemma GetBattleUnit_col4: "grid_ok b \<Longrightarrow> row \<le> 5 \<Longrightarrow> GetBattleUnit 4 row b = Inl OutOfBounds"
  by (simp add: GetBattleUnit_def grid_get_def grid_ok_def cell_def)

lemma GetBattleUnit_row5:
  assumes "grid_ok b" and "col < 3"
  shows "GetBattleUnit col 5 b = Inr (standing b (col + 1) 0)"
proof -
  have u: "unat (col + 1) = unat col + 1" "unat col < 3"
    using assms(2) by (simp_all add: word_less_nat_alt unat_word_ariths)
  then have "cell col 5 = cell (col + 1) 0" "on_field (col + 1) 0" "cell (col + 1) 0 < 20" "\<not> 4 < col"
    by (simp_all add: cell_def on_field_def word_less_nat_alt)
  with assms(1) show ?thesis
    by (simp add: GetBattleUnit_def grid_get_def grid_ok_def standing_def)
qed

lemma isUnitAvail_field:
  "grid_ok b \<Longrightarrow> on_field col row \<Longrightarrow>
   isUnitAvail col row linked b =
     Inr (case standing b col row of None \<Rightarrow> False | Some i \<Rightarrow> \<not> isDead (unit_at b i) \<or> linked)"
  by (simp add: isUnitAvail_def GetBattleUnit_field)

lemma pos_lists:
  "set (by_rows def_cols) = {(c, r). c < 2 \<and> r < 5}" "set (by_rows atk_cols) = {(c, r). 2 \<le> c \<and> c < 4 \<and> r < 5}"
  "set (by_rows all_cols) = {(c, r). on_field c r}" "set (by_cols all_cols) = {(c, r). on_field c r}"
proof -
  have r: "set rows = {r. r < 5}"
    by (auto simp: rows_def word_less_nat_alt word_unat_eq_iff)
  have d: "set def_cols = {c. c < 2}" and a: "set atk_cols = {c. 2 \<le> c \<and> c < 4}"
    and al: "set all_cols = {c. c < 4}"
    by (auto simp: def_cols_def atk_cols_def all_cols_def word_less_nat_alt word_le_nat_alt word_unat_eq_iff)
  show "set (by_rows def_cols) = {(c, r). c < 2 \<and> r < 5}"
    "set (by_rows atk_cols) = {(c, r). 2 \<le> c \<and> c < 4 \<and> r < 5}"
    "set (by_rows all_cols) = {(c, r). on_field c r}" "set (by_cols all_cols) = {(c, r). on_field c r}"
    by (auto simp: by_rows_def by_cols_def r d a al on_field_def)
qed

text \<open>On the field \<open>GetBattleUnit\<close> reads the cell it is asked for and beyond column 4 or row 5 it answers
  none; but its guard lets row 5 and column 4 pass: row 5 of a column is the first cell of the next
  column, and column 4, or row 5 of the last column, is read behind the array.\<close>

theorem GetBattleUnit_bounds:
  assumes "grid_ok b"
  shows "(on_field col row \<longrightarrow> GetBattleUnit col row b = Inr (b_grid b ! (5 * unat col + unat row))) \<and>
    (col > 4 \<or> row > 5 \<longrightarrow> GetBattleUnit col row b = Inr None) \<and>
    (col < 3 \<longrightarrow> GetBattleUnit col 5 b = GetBattleUnit (col + 1) 0 b) \<and>
    GetBattleUnit 3 5 b = Inl OutOfBounds \<and> (row \<le> 5 \<longrightarrow> GetBattleUnit 4 row b = Inl OutOfBounds)"
proof -
  have field: "GetBattleUnit c r b = Inr (b_grid b ! (5 * unat c + unat r))" if "on_field c r" for c r
    using GetBattleUnit_field [OF assms that] that by (simp add: standing_def cell_def)
  have "GetBattleUnit col row b = Inr None" if "col > 4 \<or> row > 5"
    using that by (simp add: GetBattleUnit_def)
  moreover have "GetBattleUnit col 5 b = GetBattleUnit (col + 1) 0 b" if "col < 3"
  proof -
    have "on_field (col + 1) 0"
      using that by (simp add: on_field_def word_less_nat_alt unat_word_ariths)
    then show ?thesis
      using GetBattleUnit_row5 [OF assms that] GetBattleUnit_field [OF assms] by simp
  qed
  moreover have "GetBattleUnit 3 5 b = Inl OutOfBounds"
    using assms by (simp add: GetBattleUnit_def grid_get_def grid_ok_def cell_def)
  ultimately show ?thesis
    using field GetBattleUnit_col4 [OF assms] by blast
qed

definition empty_battle :: battle where
  "empty_battle = \<lparr>b_grid = replicate 20 None, b_units = (\<lambda>_. sample_unit),
     b_ground = 357, b_teamBattle = False, b_teamLowest = 0, b_teamHighest = 0, b_teamLower = 0, b_master = None, b_masterOf = (\<lambda>_. None), b_players = [], b_need = 0,
     b_count = 0, b_wait = False, b_actionTime = 0, b_animTime = 0, b_animTimeItem = 0, b_killed = False,
     b_unitTurn = [], b_items = [], b_Actions = replicate 20 [], b_atkRate = 10, b_defRate = 10,
     b_rand32 = 1, b_holdrand = 0x89abcdef, b_out = []\<rparr>"

text \<open>Units 1, 2, 3 and 4 at (0,0), (1,0), (1,1) and (2,0).\<close>

definition sample_battle :: battle where
  "sample_battle = empty_battle\<lparr>b_grid :=
     [Some 1, None, None, None, None, Some 2, Some 3, None, None, None,
      Some 4, None, None, None, None, None, None, None, None, None]\<rparr>"

lemma sample_grid_ok [simp]: "grid_ok sample_battle"
  by (simp add: grid_ok_def sample_battle_def)

theorem GetBattleUnit_bounds_witness:
  "GetBattleUnit 1 1 sample_battle = Inr (Some 3) \<and>
   GetBattleUnit 1 5 sample_battle = GetBattleUnit 2 0 sample_battle \<and>
   GetBattleUnit 3 5 sample_battle = Inl OutOfBounds"
  using GetBattleUnit_bounds [OF sample_grid_ok, of 1 1]
  by (simp add: on_field_def sample_battle_def)

lemma find_pos_spec:
  assumes "grid_ok b" and "\<forall>(c, r) \<in> set ps. on_field c r"
  shows "\<exists>p. find_pos u ps b = Inr p \<and>
    (case p of None \<Rightarrow> \<forall>(c, r) \<in> set ps. standing b c r \<noteq> Some u
             | Some (c, r) \<Rightarrow> (c, r) \<in> set ps \<and> standing b c r = Some u)"
  using assms(2)
proof (induction ps)
  case Nil
  then show ?case by simp
next
  case (Cons x ps)
  obtain c r where x: "x = (c, r)" by fastforce
  have "GetBattleUnit c r b = Inr (standing b c r)"
    using Cons.prems x GetBattleUnit_field [OF assms(1)] by auto
  with Cons x show ?case
    by (auto split: option.splits)
qed

lemma GetPosFor_spec:
  assumes "grid_ok b"
  shows "\<exists>p. GetPosFor u b = Inr p \<and>
    (case p of None \<Rightarrow> \<forall>c r. standing b c r \<noteq> Some u | Some (c, r) \<Rightarrow> on_field c r \<and> standing b c r = Some u)"
  using find_pos_spec [OF assms, of "by_cols all_cols" u]
  by (auto simp: GetPosFor_def pos_lists standing_def split: option.splits)

lemma four_cols: "(c::u8) < 4 \<longleftrightarrow> c = 0 \<or> c = 1 \<or> c = 2 \<or> c = 3"
  by (auto simp: word_less_nat_alt word_unat_eq_iff)

lemma five_rows: "(r::u8) < 5 \<longleftrightarrow> r = 0 \<or> r = 1 \<or> r = 2 \<or> r = 3 \<or> r = 4"
  by (auto simp: word_less_nat_alt word_unat_eq_iff)

lemma other_col_facts:
  "c < 4 \<Longrightarrow> other_col c < 4 \<and> other_col c \<noteq> c \<and> isDefPos (other_col c) = isDefPos c \<and>
   other_col (other_col c) = c"
  unfolding four_cols
  by (auto simp: other_col_def isAtkPos_def isDefPos_def isAtkPosBackRow_def isDefPosBackRow_def)

text \<open>A player that stands on the field is found where it stands, and the position of its pet is on the
  field, in the same row and on the same side, in the other column; the position found for a unit
  that is not there is none. No search leaves the array.\<close>

theorem pet_position_spec:
  assumes "grid_ok b"
  shows "\<exists>p q. GetPosFor u b = Inr p \<and> GetPetPosFor u b = Inr q \<and>
    (case p of None \<Rightarrow> q = None \<and> (\<forall>c r. standing b c r \<noteq> Some u)
     | Some (c, r) \<Rightarrow> standing b c r = Some u \<and> (\<exists>c'. q = Some (c', r) \<and> on_field c' r \<and> c' \<noteq> c \<and>
         isDefPos c' = isDefPos c))"
proof -
  obtain p where p: "GetPosFor u b = Inr p"
    "case p of None \<Rightarrow> \<forall>c r. standing b c r \<noteq> Some u | Some (c, r) \<Rightarrow> on_field c r \<and> standing b c r = Some u"
    using GetPosFor_spec [OF assms] by blast
  show ?thesis
  proof (cases p)
    case None
    with p show ?thesis by (simp add: GetPetPosFor_def)
  next
    case (Some cr)
    obtain c r where cr: "cr = (c, r)" by fastforce
    with p Some have "on_field c r" "standing b c r = Some u" by auto
    moreover from this(1) have "other_col c < 4" "other_col c \<noteq> c" "isDefPos (other_col c) = isDefPos c"
      using other_col_facts [of c] by (simp_all add: on_field_def)
    ultimately show ?thesis
      using p(1) Some cr by (auto simp: GetPetPosFor_def on_field_def)
  qed
qed

theorem pet_position_spec_witness:
  "\<exists>p q. GetPosFor 4 sample_battle = Inr p \<and> GetPetPosFor 4 sample_battle = Inr q \<and>
    (case p of None \<Rightarrow> q = None | Some (c, r) \<Rightarrow> standing sample_battle c r = Some 4)"
proof -
  obtain p q where "GetPosFor 4 sample_battle = Inr p" "GetPetPosFor 4 sample_battle = Inr q"
    "case p of None \<Rightarrow> q = None \<and> (\<forall>c r. standing sample_battle c r \<noteq> Some 4)
     | Some (c, r) \<Rightarrow> standing sample_battle c r = Some 4 \<and> (\<exists>c'. q = Some (c', r) \<and> on_field c' r \<and> c' \<noteq> c \<and>
         isDefPos c' = isDefPos c)"
    using pet_position_spec [OF sample_grid_ok, of 4] by blast
  then show ?thesis by (cases p) auto
qed

end
