(* ===== verification/Floats.thy ===== *)
theory Floats
  imports Complex_Main Legacy_Prelude "HOL-Library.Log_Nat"
begin

text \<open>
  The floating point arithmetic of the game's formulas: values are rational numbers, and every
  operation of the code is the exact one followed by \<open>rnd 24\<close> (\<open>float\<close>) or \<open>rnd 53\<close>
  (\<open>double\<close>), rounding to nearest with ties to even as IEEE 754 does. The formulas of the code stay
  far inside the range of normal numbers, so neither overflow nor underflow is modelled. A
  conversion to an integer truncates; where the value does not fit its type C++ leaves the result
  undefined, which is a fault here for the 32 bit types. (The two conversions to 16 bits are in \<open>Spells\<close>.)
\<close>

definition flog2 :: "rat \<Rightarrow> int" where
  "flog2 x =
     (case quotient_of x of
        (a, b) \<Rightarrow> let k = bitlen a - bitlen b in if 2 powi k \<le> x then k else k - 1)"

definition round_even :: "rat \<Rightarrow> int" where
  "round_even x =
     (let n = \<lfloor>x\<rfloor>; f = x - of_int n
      in if f < 1 / 2 then n else if f > 1 / 2 then n + 1 else if even n then n else n + 1)"

definition rnd_pos :: "nat \<Rightarrow> rat \<Rightarrow> rat" where
  "rnd_pos p x = (let e = flog2 x - int p + 1 in of_int (round_even (x / 2 powi e)) * 2 powi e)"

definition rnd :: "nat \<Rightarrow> rat \<Rightarrow> rat" where
  "rnd p x = (if x = 0 then 0 else if x < 0 then - rnd_pos p (- x) else rnd_pos p x)"

definition f32 :: "rat \<Rightarrow> rat" where "f32 = rnd 24"
definition f64 :: "rat \<Rightarrow> rat" where "f64 = rnd 53"

definition trunc :: "rat \<Rightarrow> int" where
  "trunc x = (if x < 0 then - \<lfloor>- x\<rfloor> else \<lfloor>x\<rfloor>)"

definition to_int32 :: "rat \<Rightarrow> i32 res" where
  "to_int32 x =
     (if - (2 ^ 31) \<le> trunc x \<and> trunc x < 2 ^ 31 then Inr (word_of_int (trunc x)) else Inl UndefConv)"

lemma flog2_bounds:
  assumes "0 < x"
  shows "2 powi flog2 x \<le> x \<and> x < 2 powi (flog2 x + 1)"
proof -
  obtain a b where q: "quotient_of x = (a, b)" by fastforce
  then have x: "x = of_int a / of_int b" and b: "0 < b"
    using quotient_of_div quotient_of_denom_pos by blast+
  then have a: "0 < a"
    using assms by (simp add: zero_less_divide_iff)
  have ba: "2 powi (bitlen a - 1) \<le> (of_int a :: rat)" "(of_int a :: rat) < 2 powi bitlen a" if "0 < a" for a :: int
  proof -
    have "(2::int) ^ nat (bitlen a - 1) \<le> a" "a < 2 ^ nat (bitlen a)"
      using bitlen_bounds [OF that] by auto
    moreover have "0 \<le> bitlen a - 1" "0 \<le> bitlen a"
      using that by (auto simp: bitlen_def floorlog_def)
    ultimately have "(of_int (2 ^ nat (bitlen a - 1)) :: rat) \<le> of_int a" "(of_int a :: rat) < of_int (2 ^ nat (bitlen a))"
      by (simp_all only: of_int_le_iff of_int_less_iff)
    then show "2 powi (bitlen a - 1) \<le> (of_int a :: rat)" "(of_int a :: rat) < 2 powi bitlen a"
      using \<open>0 \<le> bitlen a - 1\<close> \<open>0 \<le> bitlen a\<close> by (simp_all add: power_int_def)
  qed
  let ?k = "bitlen a - bitlen b"
  have up: "x < 2 powi (?k + 1)"
  proof -
    have "of_int a * 2 powi (bitlen b - 1) < 2 powi bitlen a * (of_int b :: rat)"
      using ba(2) [OF a] ba(1) [OF b] a b by (intro mult_less_le_imp_less) (auto intro: less_imp_le)
    then have "(of_int a :: rat) / of_int b < 2 powi bitlen a / 2 powi (bitlen b - 1)"
      using b by (simp add: divide_simps mult.commute)
    then show ?thesis
      by (simp add: x flip: power_int_diff) (simp add: algebra_simps)
  qed
  have low: "2 powi (?k - 1) \<le> x"
  proof -
    have "2 powi (bitlen a - 1) * (of_int b :: rat) \<le> of_int a * 2 powi bitlen b"
      using ba(1) [OF a] ba(2) [OF b] a b by (intro mult_mono) (auto intro: less_imp_le)
    then have "2 powi (bitlen a - 1) / 2 powi bitlen b \<le> (of_int a :: rat) / of_int b"
      using b by (simp add: divide_simps mult.commute)
    then show ?thesis
      by (simp add: x flip: power_int_diff) (simp add: algebra_simps)
  qed
  show ?thesis
    using up low by (auto simp: flog2_def q Let_def)
qed

lemma powi_not_neg [simp]: "\<not> (2::rat) powi k < 0"
  by (meson less_asym zero_less_numeral zero_less_power_int)

lemma powi_less_iff: "(2::rat) powi m < 2 powi n \<longleftrightarrow> m < n"
proof
  assume "(2::rat) powi m < 2 powi n"
  then show "m < n"
    using power_int_increasing [of n m "2::rat"] by (meson not_le one_le_numeral)
next
  assume "m < n"
  then show "(2::rat) powi m < 2 powi n"
    by (intro power_int_strict_increasing) simp_all
qed

lemma flog2_unique:
  assumes "0 < x" and "2 powi e \<le> x" and "x < 2 powi (e + 1)"
  shows "flog2 x = e"
proof -
  have "(2::rat) powi flog2 x < 2 powi (e + 1)" "(2::rat) powi e < 2 powi (flog2 x + 1)"
    using flog2_bounds [OF assms(1)] assms(2,3) by (blast intro: le_less_trans)+
  then show ?thesis
    unfolding powi_less_iff by simp
qed

lemma flog2_mono: "0 < x \<Longrightarrow> x \<le> y \<Longrightarrow> flog2 x \<le> flog2 y"
proof -
  assume "0 < x" "x \<le> y"
  then have "(2::rat) powi flog2 x < 2 powi (flog2 y + 1)"
    using flog2_bounds [of x] flog2_bounds [of y] by (meson le_less_trans order_trans less_le_trans)
  then show ?thesis
    unfolding powi_less_iff by simp
qed

lemma round_even_of_int [simp]: "round_even (of_int n) = n"
  by (simp add: round_even_def)

lemma round_even_mono:
  assumes "x \<le> y"
  shows "round_even x \<le> round_even y"
proof (cases "\<lfloor>x\<rfloor> = \<lfloor>y\<rfloor>")
  case True
  with assms show ?thesis
    by (simp add: round_even_def Let_def)
next
  case False
  with assms have "\<lfloor>x\<rfloor> + 1 \<le> \<lfloor>y\<rfloor>"
    using floor_mono [OF assms] by linarith
  moreover have "round_even x \<le> \<lfloor>x\<rfloor> + 1" "\<lfloor>y\<rfloor> \<le> round_even y"
    by (simp_all add: round_even_def Let_def)
  ultimately show ?thesis by linarith
qed

text \<open>The rounding keeps the binade.\<close>

lemma rnd_pos_bounds:
  assumes "0 < x" and "0 < p"
  shows "2 powi flog2 x \<le> rnd_pos p x \<and> rnd_pos p x \<le> 2 powi (flog2 x + 1)"
proof -
  define e where "e = flog2 x - int p + 1"
  have pos: "0 < (2::rat) powi e" by simp
  have split: "(2::rat) powi flog2 x = of_int (2 ^ (p - 1)) * 2 powi e"
    "(2::rat) powi (flog2 x + 1) = of_int (2 ^ p) * 2 powi e"
    using assms(2) by (simp_all add: e_def power_int_diff power_int_add field_simps flip: power_int_of_nat)
  have "of_int (2 ^ (p - 1)) \<le> x / 2 powi e" "x / 2 powi e \<le> of_int (2 ^ p)"
    using flog2_bounds [OF assms(1)] pos unfolding split by (simp_all add: field_simps)
  then have "2 ^ (p - 1) \<le> round_even (x / 2 powi e)" "round_even (x / 2 powi e) \<le> 2 ^ p"
    using round_even_mono round_even_of_int by metis+
  then have "(of_int (2 ^ (p - 1)) :: rat) \<le> of_int (round_even (x / 2 powi e))"
    "(of_int (round_even (x / 2 powi e)) :: rat) \<le> of_int (2 ^ p)"
    unfolding of_int_le_iff by blast+
  then show ?thesis
    unfolding split rnd_pos_def Let_def e_def [symmetric] using pos by (simp add: mult_right_mono)
qed

lemma rnd_pos_mono:
  assumes "0 < x" and "x \<le> y" and "0 < p"
  shows "rnd_pos p x \<le> rnd_pos p y"
proof (cases "flog2 x = flog2 y")
  case True
  have "x / 2 powi (flog2 y - int p + 1) \<le> y / 2 powi (flog2 y - int p + 1)"
    using assms(2) by (simp add: divide_right_mono)
  from round_even_mono [OF this] True show ?thesis
    by (simp add: rnd_pos_def Let_def mult_right_mono)
next
  case False
  then have "flog2 x + 1 \<le> flog2 y"
    using flog2_mono [OF assms(1,2)] by simp
  then have "(2::rat) powi (flog2 x + 1) \<le> 2 powi flog2 y"
    by (intro power_int_increasing) simp_all
  moreover have "0 < y" using assms(1,2) by simp
  ultimately show ?thesis
    using rnd_pos_bounds [OF assms(1,3)] rnd_pos_bounds [of y p] assms(3) by fastforce
qed

lemma rnd_pos_pos: "0 < x \<Longrightarrow> 0 < p \<Longrightarrow> 0 < rnd_pos p x"
  using rnd_pos_bounds [of x p] zero_less_power_int [of "2::rat" "flog2 x"]
  by (meson less_le_trans zero_less_numeral)

lemma rnd_mono:
  assumes "x \<le> y" and "0 < p"
  shows "rnd p x \<le> rnd p y"
  using assms rnd_pos_mono [of x y p] rnd_pos_mono [of "- y" "- x" p] rnd_pos_pos [of y p] rnd_pos_pos [of "- x" p]
  by (auto simp: rnd_def dest: less_imp_le)

lemma rnd_0 [simp]: "rnd p 0 = 0"
  by (simp add: rnd_def)

lemma rnd_minus: "rnd p (- x) = - rnd p x"
  by (simp add: rnd_def)

lemma rnd_nonneg: "0 \<le> x \<Longrightarrow> 0 < p \<Longrightarrow> 0 \<le> rnd p x"
  using rnd_mono [of 0 x p] by simp

text \<open>Numbers with a mantissa of at most \<open>p\<close> bits are kept.\<close>

lemma rnd_exact:
  assumes "\<bar>m\<bar> < 2 ^ p" and "0 < p"
  shows "rnd p (of_int m * 2 powi k) = of_int m * 2 powi k"
proof -
  have pos: "rnd_pos p (of_int m * 2 powi k) = of_int m * 2 powi k" if m: "0 < m" "m < 2 ^ p" for m
  proof -
    let ?x = "of_int m * 2 powi k :: rat"
    have x: "0 < ?x" using m by simp
    define e where "e = flog2 ?x - int p + 1"
    have "?x < of_int (2 ^ p) * 2 powi k"
      using m(2) by (simp only: mult_less_cancel_right_pos zero_less_power_int zero_less_numeral of_int_less_iff)
    also have "of_int (2 ^ p) * 2 powi k = (2::rat) powi (int p + k)"
      by (simp add: power_int_add)
    finally have "(2::rat) powi flog2 ?x < 2 powi (int p + k)"
      using flog2_bounds [OF x] by (meson le_less_trans)
    then have "e \<le> k"
      unfolding powi_less_iff by (simp add: e_def)
    then obtain n where k: "k = e + int n"
      using zle_iff_zadd by blast
    then have "?x / 2 powi e = of_int (m * 2 ^ n)"
      by (simp add: power_int_add)
    then have "rnd_pos p ?x = of_int (m * 2 ^ n) * 2 powi e"
      unfolding rnd_pos_def Let_def e_def [symmetric] by (simp only: round_even_of_int)
    then show ?thesis
      by (simp add: k power_int_add)
  qed
  show ?thesis
    using pos [of m] pos [of "- m"] assms(1) by (cases "m = 0") (auto simp: rnd_def mult_less_0_iff)
qed

lemma rnd_of_int: "\<bar>m\<bar> < 2 ^ p \<Longrightarrow> 0 < p \<Longrightarrow> rnd p (of_int m) = of_int m"
  using rnd_exact [of m p 0] by simp

lemma rnd_idem:
  assumes "0 < p"
  shows "rnd p (rnd p x) = rnd p x"
proof -
  have pos: "rnd p (rnd_pos p x) = rnd_pos p x" if x: "0 < x" for x
  proof -
    define e where "e = flog2 x - int p + 1"
    define r where "r = round_even (x / 2 powi e)"
    have eq: "rnd_pos p x = of_int r * 2 powi e"
      by (simp add: rnd_pos_def Let_def e_def r_def)
    have "of_int r * 2 powi e \<le> (2::rat) powi (int p + e)" "0 < of_int r * (2::rat) powi e"
      using rnd_pos_bounds [OF x assms] rnd_pos_pos [OF x assms] unfolding eq by (simp_all add: e_def add.commute)
    then have "of_int r * 2 powi e \<le> of_int (2 ^ p) * (2::rat) powi e" "0 < r"
      by (simp_all add: power_int_add zero_less_mult_iff)
    then have r: "0 < r" "r \<le> 2 ^ p"
      by (simp_all only: mult_le_cancel_right_pos zero_less_power_int zero_less_numeral of_int_le_iff)
    show ?thesis
    proof (cases "r = 2 ^ p")
      case True
      then have "rnd_pos p x = of_int 1 * 2 powi (e + int p)"
        unfolding eq by (simp add: power_int_add)
      then show ?thesis
        using rnd_exact [of 1 p "e + int p"] assms by simp
    next
      case False
      with r show ?thesis
        unfolding eq using rnd_exact [of r p e] assms by simp
    qed
  qed
  show ?thesis
    using pos [of x] pos [of "- x"] by (cases "0 < x") (auto simp: rnd_def [of p x] rnd_minus)
qed

text \<open>A rounded number is kept by every wider format.\<close>

lemma rnd_wider:
  assumes "0 < p" and "p < q"
  shows "rnd q (rnd p x) = rnd p x"
proof -
  have pos: "rnd q (rnd_pos p x) = rnd_pos p x" if x: "0 < x" for x
  proof -
    define e where "e = flog2 x - int p + 1"
    define r where "r = round_even (x / 2 powi e)"
    have eq: "rnd_pos p x = of_int r * 2 powi e"
      by (simp add: rnd_pos_def Let_def e_def r_def)
    have "of_int r * 2 powi e \<le> (2::rat) powi (int p + e)" "0 < of_int r * (2::rat) powi e"
      using rnd_pos_bounds [OF x assms(1)] rnd_pos_pos [OF x assms(1)] unfolding eq by (simp_all add: e_def add.commute)
    then have "of_int r * 2 powi e \<le> of_int (2 ^ p) * (2::rat) powi e" "0 < r"
      by (simp_all add: power_int_add zero_less_mult_iff)
    then have r: "0 < r" "r \<le> 2 ^ p"
      by (simp_all only: mult_le_cancel_right_pos zero_less_power_int zero_less_numeral of_int_le_iff)
    moreover have "(2::int) ^ p < 2 ^ q"
      using assms(2) by simp
    ultimately have "\<bar>r\<bar> < 2 ^ q" by linarith
    then show ?thesis
      unfolding eq using rnd_exact [of r q e] assms by simp
  qed
  show ?thesis
    using pos [of x] pos [of "- x"] by (cases "0 < x") (auto simp: rnd_def [of p x] rnd_minus)
qed

text \<open>What is at most, or at least, a number of the format rounds to at most, or at least, it.\<close>

lemma rnd_le: "x \<le> rnd p y \<Longrightarrow> 0 < p \<Longrightarrow> rnd p x \<le> rnd p y"
  using rnd_mono [of x "rnd p y" p] by (simp add: rnd_idem)

lemma rnd_ge: "rnd p y \<le> x \<Longrightarrow> 0 < p \<Longrightarrow> rnd p y \<le> rnd p x"
  using rnd_mono [of "rnd p y" x p] by (simp add: rnd_idem)

lemma trunc_of_int [simp]: "trunc (of_int n) = n"
  by (simp add: trunc_def)

lemma trunc_mono: "x \<le> y \<Longrightarrow> trunc x \<le> trunc y"
proof -
  assume xy: "x \<le> y"
  have "- \<lfloor>- x\<rfloor> \<le> \<lfloor>y\<rfloor>" if "x < 0" "\<not> y < 0"
  proof -
    have "0 \<le> \<lfloor>- x\<rfloor>" "0 \<le> \<lfloor>y\<rfloor>" using that by simp_all
    then show ?thesis by linarith
  qed
  moreover have "\<lfloor>- y\<rfloor> \<le> \<lfloor>- x\<rfloor>"
    using xy by (intro floor_mono) simp
  ultimately show ?thesis
    using floor_mono [OF xy] xy by (cases "x < 0"; cases "y < 0") (simp_all add: trunc_def)
qed

end
