(* ===== verification/Damage.thy ===== *)
theory Damage
  imports BattleGrid Floats
begin

text \<open>
  The damage formulas (\<open>BattleSystem.cpp\<close>: \<open>GetDamage\<close>, \<open>GetDamageMultiplier\<close>,
  \<open>isDealDamageToAndKill\<close>), with every \<open>float\<close> and \<open>double\<close> operation rounded as the code rounds
  it, and the random choice between three quarters of the damage and the damage.
\<close>

definition SPELL_DAMAGE_SCHOOL :: u32 where [simp]: "SPELL_DAMAGE_SCHOOL = 0"
definition SPELL_DAMAGE_ATK_INT :: u32 where [simp]: "SPELL_DAMAGE_ATK_INT = 1"
definition SPELL_DAMAGE_INT :: u32 where [simp]: "SPELL_DAMAGE_INT = 2"
definition SPELL_DAMAGE_MECH :: u32 where [simp]: "SPELL_DAMAGE_MECH = 3"

definition SPELL_MOD_NONE :: u32 where [simp]: "SPELL_MOD_NONE = 0"
definition SPELL_MOD_BUF :: u32 where [simp]: "SPELL_MOD_BUF = 1"
definition SPELL_MOD_HURT :: u32 where [simp]: "SPELL_MOD_HURT = 2"
definition SPELL_MOD_BUF_HURT :: u32 where [simp]: "SPELL_MOD_BUF_HURT = 3"
definition SPELL_MOD_HEAL :: u32 where [simp]: "SPELL_MOD_HEAL = 6"
definition SPELL_MOD_DISABLED_BUF :: u32 where [simp]: "SPELL_MOD_DISABLED_BUF = 8"
definition SPELL_MOD_DISABLED_HURT :: u32 where [simp]: "SPELL_MOD_DISABLED_HURT = 10"
definition SPELL_MOD_POSITIVE_BUF :: u32 where [simp]: "SPELL_MOD_POSITIVE_BUF = 16"
definition SPELL_MOD_NEGATIVE_BUF :: u32 where [simp]: "SPELL_MOD_NEGATIVE_BUF = 32"

text \<open>The literals 0.01 and 0.1 are \<open>double\<close>s.\<close>

definition c001 :: rat where "c001 = f64 (1 / 100)"
definition c01 :: rat where "c01 = f64 (1 / 10)"

definition rat_of_u32 :: "u32 \<Rightarrow> rat" where "rat_of_u32 w = of_int (uint w)"

subsection \<open>The multiplier of the elements\<close>

definition el_step :: "u32 \<Rightarrow> u8 \<Rightarrow> rat \<Rightarrow> rat \<Rightarrow> rat \<Rightarrow> rat" where
  "el_step el el2 up down m =
     (let e2 = ucast el2 :: u32 in
      if el = ELEMENT_EARTH
      then if e2 = ELEMENT_WATER then f32 (m + up) else if e2 = ELEMENT_WIND then f32 (m - down) else m
      else if el = ELEMENT_WATER
      then if e2 = ELEMENT_FIRE then f32 (m + up) else if e2 = ELEMENT_EARTH then f32 (m - down) else m
      else if el = ELEMENT_FIRE
      then if e2 = ELEMENT_WIND then f32 (m + up) else if e2 = ELEMENT_WATER then f32 (m - down) else m
      else if el = ELEMENT_WIND
      then if e2 = ELEMENT_EARTH then f32 (m + up) else if e2 = ELEMENT_FIRE then f32 (m - down) else m
      else m)"

definition GetDamageMultiplier :: "u8 \<Rightarrow> u8 \<Rightarrow> spell_info \<Rightarrow> rat" where
  "GetDamageMultiplier el1 el2 info =
     el_step (si_Element info) el2 (1 / 2) (1 / 2) (el_step (ucast el1) el2 (3 / 4) (1 / 4) 1)"

subsection \<open>The damage of an action\<close>

text \<open>The modifier of the damage: none, a hurt or a heal.\<close>

definition dmg_mod_of :: "u32 \<Rightarrow> int option" where
  "dmg_mod_of m =
     (if m = SPELL_MOD_NONE \<or> m = SPELL_MOD_BUF \<or> m = SPELL_MOD_DISABLED_BUF \<or>
         m = SPELL_MOD_POSITIVE_BUF \<or> m = SPELL_MOD_NEGATIVE_BUF then None
      else if m = SPELL_MOD_HURT \<or> m = SPELL_MOD_BUF_HURT then Some (- 1)
      else if m = SPELL_MOD_HEAL then Some 1
      else Some (- 1))"

definition dmg_school_of :: "unit_rec \<Rightarrow> spell_info \<Rightarrow> rat" where
  "dmg_school_of attacker info =
     (let atk = uint (GetAttackPower attacker); mag = uint (GetMagicPower attacker) in
      if si_Type info = SPELL_DAMAGE_SCHOOL \<or> si_Type info = SPELL_DAMAGE_INT \<or>
         si_Type info = SPELL_DAMAGE_MECH
      then if si_Entry info = ucast SPELL_BASIC then of_int atk else of_int mag
      else if si_Type info = SPELL_DAMAGE_ATK_INT then of_int (atk + mag div 2)
      else of_int atk)"

definition diff_level :: "unit_rec \<Rightarrow> unit_rec \<Rightarrow> int" where
  "diff_level attacker victim =
     (let d = sint (uget attacker UNIT_FIELD_LEVEL - uget victim UNIT_FIELD_LEVEL)
      in if d > 0 then d else 1)"

text \<open>The damage of one hit before the reduction by the defence; \<open>hit\<close> is not zero here.\<close>

definition dmg_per_hit :: "unit_rec \<Rightarrow> unit_rec \<Rightarrow> spell_info \<Rightarrow> bool \<Rightarrow> rat" where
  "dmg_per_hit attacker victim info linked =
     (let mult = GetDamageMultiplier (ucast (uget attacker UNIT_FIELD_ELEMENT))
                   (ucast (uget victim UNIT_FIELD_ELEMENT)) info;
          level = of_int (uint (GetSpellLevel (ucast (si_Entry info)) attacker)) :: rat;
          school = f32 (f64 (dmg_school_of attacker info + f64 (of_int (diff_level attacker victim) * c001)));
          d0 = (if si_LearnPoint info \<noteq> 0 \<and> si_SP info \<noteq> 0
                then f32 (f64 (school + f64 (f64 (f32 (school * level) * f64 (rat_of_u32 (si_LearnPoint info) * c001)) *
                       f64 (rat_of_u32 (si_SP info) * c01))))
                else f32 (school + f32 (school * level)));
          d1 = f32 (d0 / f32 (rat_of_u32 (si_hit info)));
          d2 = f32 (d1 * mult)
      in if linked then f32 (f64 (d2 + f64 (d2 * (1 / 4)))) else d2)"

definition dmg_reduced :: "unit_rec \<Rightarrow> spell_info \<Rightarrow> rat \<Rightarrow> rat" where
  "dmg_reduced victim info d =
     (if si_DamageMod info = SPELL_MOD_HURT
      then let r = f32 (f64 (d - f64 (d * f64 (of_int (uint (GetDefensePower victim)) * c001))))
           in if r \<le> 0 then 1 else r
      else d)"

definition dmg_max :: "unit_rec \<Rightarrow> unit_rec \<Rightarrow> spell_info \<Rightarrow> bool \<Rightarrow> rat" where
  "dmg_max attacker victim info linked = dmg_reduced victim info (dmg_per_hit attacker victim info linked)"

definition dmg_min :: "rat \<Rightarrow> rat" where
  "dmg_min d = f32 (f64 (d - f64 (d * (1 / 4))))"

text \<open>The random choice and the sign.\<close>

definition dmg_roll :: "u32 \<Rightarrow> int \<Rightarrow> rat \<Rightarrow> u32 \<Rightarrow> (i32 \<times> u32) res" where
  "dmg_roll modtype sg d h =
     bindR (to_int32 (dmg_min d)) (\<lambda>mn.
     bindR (to_int32 d) (\<lambda>mx.
     bindR (irand mn mx h) (\<lambda>(r, h').
       let v = f32 (of_int (sint r));
           w = (if v \<le> 0 \<and> modtype = SPELL_MOD_HURT then 1 else v)
       in bindR (to_int32 (f32 (w * of_int sg))) (\<lambda>x. Inr (x, h')))))"

text \<open>With \<open>hit = 0\<close> the damage is infinite or not a number, so its conversion is undefined.\<close>

definition GetDamage ::
  "unit_rec \<Rightarrow> unit_rec \<Rightarrow> spell_info \<Rightarrow> bool \<Rightarrow> u32 \<Rightarrow> (i32 \<times> u32) res" where
  "GetDamage attacker victim info linked h =
     (if hasUnitState victim UNIT_STATE_AURA then Inr (0, h)
      else case dmg_mod_of (si_DamageMod info) of
             None \<Rightarrow> Inr (0, h)
           | Some sg \<Rightarrow>
               if si_hit info = 0 then Inl UndefConv
               else dmg_roll (si_DamageMod info) sg (dmg_max attacker victim info linked) h)"

text \<open>
  \<open>currentHP <= abs(damage)\<close> compares as \<open>uint32\<close>. What is no hurt leaves the victim alone, but
  marks a pet for saving: \<open>Pet::SetState(PET_CHANGED)\<close> keeps a new pet new.
\<close>

definition pet_SetState_changed :: "unit_rec \<Rightarrow> unit_rec" where
  "pet_SetState_changed u = (if u_petState u \<noteq> PET_NEW then u\<lparr>u_petState := PET_CHANGED\<rparr> else u)"

definition isDealDamageToAndKill :: "i32 \<Rightarrow> unit_rec \<Rightarrow> bool \<times> unit_rec" where
  "isDealDamageToAndKill damage victim =
     (if sint damage < 0
      then if uget victim UNIT_FIELD_HP \<le> - damage
           then (True, setDeathState DEAD (uset UNIT_FIELD_HP 0 victim))
           else (False, uset UNIT_FIELD_HP (uget victim UNIT_FIELD_HP + damage) victim)
      else (False, if isType victim TYPE_PET then pet_SetState_changed victim else victim))"

subsection \<open>Properties\<close>

text \<open>Each element beats one other: earth water, water fire, fire wind, wind earth.\<close>

definition beats :: "u32 \<Rightarrow> u32 \<Rightarrow> bool" where
  "beats e f \<longleftrightarrow> (e, f) \<in> {(ELEMENT_EARTH, ELEMENT_WATER), (ELEMENT_WATER, ELEMENT_FIRE),
     (ELEMENT_FIRE, ELEMENT_WIND), (ELEMENT_WIND, ELEMENT_EARTH)}"

definition el_bonus :: "u32 \<Rightarrow> u32 \<Rightarrow> rat \<Rightarrow> rat \<Rightarrow> rat" where
  "el_bonus e f up down = (if beats e f then up else if beats f e then - down else 0)"

lemma f32_quarter: "\<bar>m\<bar> < 2 ^ 24 \<Longrightarrow> f32 (of_int m / 4) = of_int m / 4"
proof -
  assume "\<bar>m\<bar> < 2 ^ 24"
  moreover have "(2::rat) powi (- 2) = 1 / 4" by (simp add: power_int_def power2_eq_square)
  ultimately show ?thesis
    using rnd_exact [of m 24 "- 2"] by (simp add: f32_def)
qed

lemma f32_quarters:
  "f32 (1 / 4) = 1 / 4" "f32 (1 / 2) = 1 / 2" "f32 (3 / 4) = 3 / 4" "f32 (5 / 4) = 5 / 4"
  "f32 (3 / 2) = 3 / 2" "f32 (7 / 4) = 7 / 4" "f32 (9 / 4) = 9 / 4"
  using f32_quarter [of 7] f32_quarter [of 3] f32_quarter [of 6] f32_quarter [of 2] f32_quarter [of 9]
    f32_quarter [of 5] f32_quarter [of 1] by simp_all

lemma beats_iff:
  "beats 1 f \<longleftrightarrow> f = 2" "beats 2 f \<longleftrightarrow> f = 3" "beats 3 f \<longleftrightarrow> f = 4" "beats 4 f \<longleftrightarrow> f = 1"
  "beats f 1 \<longleftrightarrow> f = 4" "beats f 2 \<longleftrightarrow> f = 1" "beats f 3 \<longleftrightarrow> f = 2" "beats f 4 \<longleftrightarrow> f = 3"
  by (auto simp: beats_def)

lemma beats_other: "x \<notin> {1, 2, 3, 4} \<Longrightarrow> \<not> beats x f \<and> \<not> beats f x"
  by (auto simp: beats_def)

lemma el_step_eq:
  "el_step x el2 up down m =
     (if beats x (ucast el2) then f32 (m + up) else if beats (ucast el2) x then f32 (m - down) else m)"
proof -
  define f where "f = (ucast el2 :: u32)"
  consider "x = 1" | "x = 2" | "x = 3" | "x = 4" | "x \<notin> {1, 2, 3, 4}" by blast
  then show ?thesis
  proof cases
    case 1
    then show ?thesis by (simp add: beats_iff el_step_def flip: f_def)
  next
    case 2
    then show ?thesis by (simp add: beats_iff el_step_def flip: f_def)
  next
    case 3
    then show ?thesis by (simp add: beats_iff el_step_def flip: f_def)
  next
    case 4
    then show ?thesis by (simp add: beats_iff el_step_def flip: f_def)
  next
    case 5
    then have "x \<noteq> 1" "x \<noteq> 2" "x \<noteq> 3" "x \<noteq> 4" by blast+
    then show ?thesis using beats_other [OF 5, of f] by (simp add: el_step_def flip: f_def)
  qed
qed

lemma beats_asym: "beats x y \<Longrightarrow> \<not> beats y x"
proof -
  assume b: "beats x y"
  then have "x \<in> {1, 2, 3, 4}"
    using beats_other by blast
  then consider "x = 1" | "x = 2" | "x = 3" | "x = 4" by blast
  then show ?thesis
    using b by cases (simp_all add: beats_iff)
qed

text \<open>The element multiplier is 1, three quarters more if the attacker's element beats the victim's and a
  quarter less if it is beaten, and a half more or less for the element of the spell: between a
  quarter and nine quarters, with no rounding.\<close>

theorem GetDamageMultiplier_spec:
  "GetDamageMultiplier el1 el2 info =
     1 + el_bonus (ucast el1) (ucast el2) (3 / 4) (1 / 4) + el_bonus (si_Element info) (ucast el2) (1 / 2) (1 / 2) \<and>
   1 / 4 \<le> GetDamageMultiplier el1 el2 info \<and> GetDamageMultiplier el1 el2 info \<le> 9 / 4"
  unfolding GetDamageMultiplier_def el_step_eq
  using beats_asym by (auto simp: el_bonus_def f32_quarters)

subsection \<open>The size of the damage\<close>

lemma f32_f64_mono: "x \<le> y \<Longrightarrow> f32 (f64 x) \<le> f32 (f64 y)"
  by (simp add: f32_def f64_def rnd_mono)

lemma f32_int: "\<bar>n\<bar> < 2 ^ 24 \<Longrightarrow> f32 (of_int n) = of_int n"
  by (simp add: f32_def rnd_of_int)

lemma f64_int: "\<bar>n\<bar> < 2 ^ 53 \<Longrightarrow> f64 (of_int n) = of_int n"
  by (simp add: f64_def rnd_of_int)

lemma f64_f32: "f64 (f32 x) = f32 x"
  by (simp add: f32_def f64_def rnd_wider)

lemma f32_idem: "f32 (f32 x) = f32 x"
  by (simp add: f32_def rnd_idem)

lemma rnd_nonnegs: "0 \<le> x \<Longrightarrow> 0 \<le> f32 x" "0 \<le> x \<Longrightarrow> 0 \<le> f64 x" "0 \<le> c001" "0 \<le> c01"
  by (simp_all add: f32_def f64_def c001_def c01_def rnd_nonneg)

lemma multiplier_nonneg: "0 \<le> GetDamageMultiplier el1 el2 info"
  unfolding GetDamageMultiplier_def el_step_eq
  using beats_asym by (auto simp: f32_quarters)

lemma rat_uint_nonneg: "0 \<le> (unsigned w :: rat)" for w :: "'a::len word"
proof -
  have "(0 :: rat) \<le> of_int (uint w)"
    by (simp only: of_int_0_le_iff) simp
  then show ?thesis by simp
qed

lemma dmg_per_hit_nonneg: "0 \<le> dmg_per_hit attacker victim info linked"
proof -
  have "0 \<le> dmg_school_of attacker info" "0 \<le> diff_level attacker victim" "0 \<le> rat_of_u32 w" for w
    by (auto simp: dmg_school_of_def Let_def diff_level_def rat_of_u32_def rat_uint_nonneg)
  then show ?thesis
    unfolding dmg_per_hit_def Let_def
    by (auto simp: rat_uint_nonneg intro!: rnd_nonnegs mult_nonneg_nonneg add_nonneg_nonneg divide_nonneg_nonneg multiplier_nonneg)
qed

lemma dmg_max_f32:
  "f32 (dmg_max attacker victim info linked) = dmg_max attacker victim info linked"
  "0 \<le> dmg_max attacker victim info linked"
  "si_DamageMod info = SPELL_MOD_HURT \<Longrightarrow> 0 < dmg_max attacker victim info linked"
  using dmg_per_hit_nonneg [of attacker victim info linked] f32_int [of 1]
  by (auto simp: dmg_max_def dmg_reduced_def Let_def f32_idem dmg_per_hit_def)

text \<open>The lower end of the range, between integers.\<close>

lemma dmg_min_upper: "0 \<le> d \<Longrightarrow> f32 d = d \<Longrightarrow> dmg_min d \<le> d"
proof -
  assume d: "0 \<le> d" "f32 d = d"
  then have "dmg_min d \<le> f32 (f64 d)"
    unfolding dmg_min_def by (intro f32_f64_mono) (simp add: rnd_nonnegs)
  then show ?thesis
    using d(2) f64_f32 [of d] by simp
qed

lemma int_range_aux:
  fixes a c e f :: int
  assumes "0 \<le> a" "c \<le> 2 ^ 23" "0 \<le> e" "f \<le> 2 ^ 22" "a \<le> c" "e \<le> f"
  shows "\<bar>a - f\<bar> < 2 ^ 24" "\<bar>c - e\<bar> < 2 ^ 24"
  using assms by simp_all

lemma dmg_min_ints:
  assumes "0 \<le> d" and "d < 2 ^ 23"
  shows "of_int (\<lfloor>d\<rfloor> - \<lceil>d / 4\<rceil>) \<le> dmg_min d \<and> dmg_min d \<le> of_int (\<lceil>d\<rceil> - \<lfloor>d / 4\<rfloor>)"
proof -
  have b: "0 \<le> \<lfloor>d\<rfloor>" "\<lceil>d\<rceil> \<le> 2 ^ 23" "0 \<le> \<lfloor>d / 4\<rfloor>" "\<lceil>d / 4\<rceil> \<le> 2 ^ 22"
    using assms by (simp_all add: ceiling_le_iff)
  have b': "\<lfloor>d\<rfloor> \<le> \<lceil>d\<rceil>" "\<lfloor>d / 4\<rfloor> \<le> \<lceil>d / 4\<rceil>"
    by (rule floor_le_ceiling)+
  have q: "f64 (of_int \<lfloor>d / 4\<rfloor>) \<le> f64 (d / 4)" "f64 (d / 4) \<le> f64 (of_int \<lceil>d / 4\<rceil>)"
    unfolding f64_def by (rule rnd_mono [OF of_int_floor_le], simp) (rule rnd_mono [OF le_of_int_ceiling], simp)
  then have q': "of_int \<lfloor>d / 4\<rfloor> \<le> f64 (d / 4)" "f64 (d / 4) \<le> of_int \<lceil>d / 4\<rceil>"
    using b b' by (simp_all add: f64_int)
  note n = int_range_aux(1) [OF b b'] and n' = int_range_aux(2) [OF b b']
  have exact: "f32 (f64 (of_int n)) = of_int n" if "\<bar>n\<bar> < 2 ^ 24" for n
    using that by (simp add: f64_int f32_int)
  have "of_int (\<lfloor>d\<rfloor> - \<lceil>d / 4\<rceil>) \<le> d - f64 (d / 4)"
    using q'(2) of_int_floor_le [of d] by simp linarith
  from f32_f64_mono [OF this] have "of_int (\<lfloor>d\<rfloor> - \<lceil>d / 4\<rceil>) \<le> dmg_min d"
    by (simp only: exact [OF n] exact [OF n']) (simp add: dmg_min_def)
  moreover have "d - f64 (d / 4) \<le> of_int (\<lceil>d\<rceil> - \<lfloor>d / 4\<rfloor>)"
    using q'(1) le_of_int_ceiling [of d] by simp linarith
  from f32_f64_mono [OF this] have "dmg_min d \<le> of_int (\<lceil>d\<rceil> - \<lfloor>d / 4\<rfloor>)"
    by (simp only: exact [OF n] exact [OF n']) (simp add: dmg_min_def)
  ultimately show ?thesis by blast
qed

lemma dmg_min_nonneg: "0 \<le> d \<Longrightarrow> f32 d = d \<Longrightarrow> 0 \<le> dmg_min d"
proof -
  assume d: "0 \<le> d" "f32 d = d"
  have "f64 (d * (1 / 4)) \<le> f64 d"
    using d(1) unfolding f64_def by (intro rnd_mono) simp_all
  then have "0 \<le> d - f64 (d * (1 / 4))"
    using f64_f32 [of d] d(2) by simp
  then show ?thesis
    by (simp add: dmg_min_def rnd_nonnegs)
qed

lemma to_int32_small: "0 \<le> x \<Longrightarrow> x < 2 ^ 23 \<Longrightarrow> to_int32 x = Inr (word_of_int \<lfloor>x\<rfloor>) \<and> 0 \<le> \<lfloor>x\<rfloor> \<and> \<lfloor>x\<rfloor> < 2 ^ 23"
proof -
  assume x: "0 \<le> x" "x < 2 ^ 23"
  then have "0 \<le> \<lfloor>x\<rfloor>" "\<lfloor>x\<rfloor> < 2 ^ 23"
    by (simp_all add: floor_less_iff)
  then show ?thesis
    using x by (simp add: to_int32_def trunc_def)
qed

lemma sint_word_of_small: "0 \<le> n \<Longrightarrow> n < 2 ^ 23 \<Longrightarrow> sint (word_of_int n :: i32) = n"
  by (rule sint_of_int_32) simp_all

definition sign_ok :: "int \<Rightarrow> bool" where "sign_ok sg \<longleftrightarrow> sg = 1 \<or> sg = - 1"

lemma dmg_finish:
  assumes "0 \<le> n" and "n < 2 ^ 23" and "sign_ok sg"
  shows "\<exists>x. to_int32 (f32 (of_int n * of_int sg)) = Inr x \<and> sint x = n * sg"
proof -
  have n: "\<bar>n * sg\<bar> < 2 ^ 24" "- (2 ^ 31) \<le> n * sg" "n * sg < 2 ^ 31"
    using assms by (auto simp: sign_ok_def)
  have "f32 (of_int n * of_int sg) = of_int (n * sg)"
    using f32_int [OF n(1)] by simp
  then have "to_int32 (f32 (of_int n * of_int sg)) = Inr (word_of_int (n * sg))"
    using n by (simp add: to_int32_def del: of_int_mult)
  then show ?thesis
    using sint_of_int_32 [OF n(2,3)] by blast
qed

text \<open>The random choice never fails up to a damage of 131068.\<close>

lemma dmg_roll_ok:
  assumes "0 \<le> d" and "f32 d = d" and "d \<le> 131068" and "sign_ok sg"
  shows "\<exists>x h'. dmg_roll modtype sg d h = Inr (x, h') \<and>
    (let v = sg * sint x in 0 \<le> v \<and> \<lfloor>d\<rfloor> - \<lceil>d / 4\<rceil> \<le> v \<and> v \<le> max 1 \<lfloor>d\<rfloor> \<and>
      (modtype = SPELL_MOD_HURT \<longrightarrow> 1 \<le> v) \<and> (modtype \<noteq> SPELL_MOD_HURT \<longrightarrow> v \<le> \<lfloor>d\<rfloor>))"
proof -
  let ?mn = "\<lfloor>dmg_min d\<rfloor>" and ?mx = "\<lfloor>d\<rfloor>"
  have small: "d < 2 ^ 23" using assms(3) by simp
  note mono = dmg_min_upper [OF assms(1,2)] and nonneg = dmg_min_nonneg [OF assms(1,2)]
  have mx: "to_int32 d = Inr (word_of_int ?mx)" "0 \<le> ?mx" "?mx < 2 ^ 23"
    using to_int32_small [OF assms(1) small] by blast+
  have "dmg_min d < 2 ^ 23" using mono small by linarith
  then have mn: "to_int32 (dmg_min d) = Inr (word_of_int ?mn)" "0 \<le> ?mn" "?mn < 2 ^ 23"
    using to_int32_small [OF nonneg] by blast+
  have le: "?mn \<le> ?mx" using floor_mono [OF mono] .
  have low: "?mx - \<lceil>d / 4\<rceil> \<le> ?mn"
    using dmg_min_ints [OF assms(1) small] by (simp only: le_floor_iff)
  have "\<lceil>d / 4\<rceil> \<le> 32767" using assms(3) by (simp add: ceiling_le_iff)
  with low have "?mx - ?mn < 32768" by linarith
  then have "sint (word_of_int ?mx :: i32) - sint (word_of_int ?mn :: i32) < 32768"
    "sint (word_of_int ?mn :: i32) \<le> sint (word_of_int ?mx :: i32)"
    using low le mn mx by (simp_all add: sint_word_of_small)
  from irand_ok [OF this(2,1)] obtain r h' where r: "irand (word_of_int ?mn) (word_of_int ?mx) h = Inr (r, h')"
    "?mn \<le> sint r" "sint r \<le> ?mx"
    using sint_word_of_small [OF mn(2,3)] sint_word_of_small [OF mx(2,3)] by metis
  have rr: "0 \<le> sint r" "sint r < 2 ^ 23"
    using r(2,3) mn(2) mx(3) by (blast intro: order_trans le_less_trans)+
  define n where "n = (if sint r \<le> 0 \<and> modtype = SPELL_MOD_HURT then 1 else sint r)"
  have v: "f32 (of_int (sint r)) = of_int (sint r)"
    using rr by (intro f32_int) simp
  have n: "0 \<le> n" "n < 2 ^ 23"
    using rr by (auto simp: n_def)
  obtain x where x: "to_int32 (f32 (of_int n * of_int sg)) = Inr x" "sint x = n * sg"
    using dmg_finish [OF n assms(4)] by blast
  have "dmg_roll modtype sg d h = Inr (x, h')"
  proof -
    have "(if f32 (of_int (sint r)) \<le> 0 \<and> modtype = SPELL_MOD_HURT then 1 else f32 (of_int (sint r))) = (of_int n :: rat)"
      unfolding v n_def of_int_le_0_iff by simp
    then show ?thesis
      using x(1) by (simp only: dmg_roll_def mn(1) mx(1) r(1) bindR_Inr split Let_def)
  qed
  moreover have "sg * sint x = n"
    using x(2) assms(4) by (auto simp: sign_ok_def)
  ultimately show ?thesis
    using r(2,3) rr low
    by - (rule exI [of _ x], rule exI [of _ h'], auto simp: n_def Let_def)
qed

text \<open>C13: a pure hurt on a victim without aura always takes at least one point, and at least three quarters (in
  whole points) and at most all of the reduced damage, as long as that damage is at most 131068.\<close>

theorem GetDamage_hurt:
  assumes "\<not> hasUnitState victim UNIT_STATE_AURA" and "si_DamageMod info = SPELL_MOD_HURT" and "si_hit info \<noteq> 0"
    and "dmg_max attacker victim info linked \<le> 131068"
  shows "\<exists>x h'. GetDamage attacker victim info linked h = Inr (x, h') \<and> sint x \<le> - 1 \<and>
    - sint x \<le> max 1 \<lfloor>dmg_max attacker victim info linked\<rfloor> \<and>
    \<lfloor>dmg_max attacker victim info linked\<rfloor> - \<lceil>dmg_max attacker victim info linked / 4\<rceil> \<le> - sint x"
proof -
  let ?d = "dmg_max attacker victim info linked"
  have "sign_ok (- 1)" by (simp add: sign_ok_def)
  from dmg_roll_ok [OF dmg_max_f32(2,1) assms(4) this, of SPELL_MOD_HURT h]
  obtain x h' where "dmg_roll SPELL_MOD_HURT (- 1) ?d h = Inr (x, h')" "1 \<le> - sint x"
    "\<lfloor>?d\<rfloor> - \<lceil>?d / 4\<rceil> \<le> - sint x" "- sint x \<le> max 1 \<lfloor>?d\<rfloor>"
    by (auto simp: Let_def)
  then show ?thesis
    using assms(1-3) by (auto simp: GetDamage_def dmg_mod_of_def)
qed

text \<open>A unit with the given attack power.\<close>

definition fighter :: "u32 \<Rightarrow> unit_rec" where
  "fighter atk = uset UNIT_FIELD_ATK atk sample_unit"

definition punch :: spell_info where
  "punch = \<lparr>si_Entry = 10000, si_SP = 0, si_Element = 0, si_hit = 1, si_LearnPoint = 0, si_LevelMax = 1,
     si_Type = 0, si_DamageMod = 2, si_Reborn = 0\<rparr>"

theorem GetDamage_hurt_witness:
  "\<exists>x h'. GetDamage (fighter 40) sample_unit punch False 1 = Inr (x, h') \<and> sint x \<le> - 1"
proof -
  have "dmg_max (fighter 40) sample_unit punch False \<le> 131068" by code_simp
  moreover have "\<not> hasUnitState sample_unit UNIT_STATE_AURA"
    by (simp add: hasUnitState_def sample_unit_def)
  moreover have "si_DamageMod punch = SPELL_MOD_HURT" "si_hit punch \<noteq> 0"
    by (simp_all add: punch_def)
  ultimately show ?thesis
    using GetDamage_hurt [of sample_unit punch "fighter 40" False 1] by blast
qed

text \<open>No damage is rolled for a victim with aura or for the pure buffs; every other modifier gives a damage of
  one sign, negative but for the heals, between three quarters and all of the computed one.\<close>

theorem GetDamage_signs:
  assumes "si_hit info \<noteq> 0" and "dmg_max attacker victim info linked \<le> 131068"
  shows "\<exists>x h'. GetDamage attacker victim info linked h = Inr (x, h') \<and>
    (if hasUnitState victim UNIT_STATE_AURA \<or> si_DamageMod info \<in> {0, 1, 8, 16, 32} then x = 0 \<and> h' = h
     else if si_DamageMod info = SPELL_MOD_HEAL
     then 0 \<le> sint x \<and> sint x \<le> \<lfloor>dmg_max attacker victim info linked\<rfloor>
     else sint x \<le> 0 \<and> - sint x \<le> max 1 \<lfloor>dmg_max attacker victim info linked\<rfloor>)"
proof (cases "hasUnitState victim UNIT_STATE_AURA \<or> si_DamageMod info \<in> {0, 1, 8, 16, 32}")
  case True
  then show ?thesis
    by (auto simp: GetDamage_def dmg_mod_of_def)
next
  case False
  let ?d = "dmg_max attacker victim info linked"
  define sg :: int where "sg = (if si_DamageMod info = SPELL_MOD_HEAL then 1 else - 1)"
  have sg: "sign_ok sg" "dmg_mod_of (si_DamageMod info) = Some sg"
    using False by (auto simp: sign_ok_def sg_def dmg_mod_of_def)
  from dmg_roll_ok [OF dmg_max_f32(2,1) assms(2) sg(1), of "si_DamageMod info" h]
  obtain x h' where "dmg_roll (si_DamageMod info) sg ?d h = Inr (x, h')" "0 \<le> sg * sint x" "sg * sint x \<le> max 1 \<lfloor>?d\<rfloor>"
    "si_DamageMod info \<noteq> SPELL_MOD_HURT \<Longrightarrow> sg * sint x \<le> \<lfloor>?d\<rfloor>"
    by (auto simp: Let_def)
  then show ?thesis
    using False assms(1) sg(2) by (auto simp: GetDamage_def sg_def split: if_splits)
qed

theorem GetDamage_signs_witness:
  "\<exists>x h'. GetDamage (fighter 40) sample_unit (punch\<lparr>si_DamageMod := 6\<rparr>) True 1 = Inr (x, h') \<and> 0 \<le> sint x"
proof -
  let ?heal = "punch\<lparr>si_DamageMod := 6\<rparr>"
  have "dmg_max (fighter 40) sample_unit ?heal True \<le> 131068" by code_simp
  moreover have "si_hit ?heal \<noteq> 0" by (simp add: punch_def)
  ultimately have "\<exists>x h'. GetDamage (fighter 40) sample_unit ?heal True 1 = Inr (x, h') \<and>
    (if hasUnitState sample_unit UNIT_STATE_AURA \<or> si_DamageMod ?heal \<in> {0, 1, 8, 16, 32} then x = 0 \<and> h' = 1
     else if si_DamageMod ?heal = SPELL_MOD_HEAL
     then 0 \<le> sint x \<and> sint x \<le> \<lfloor>dmg_max (fighter 40) sample_unit ?heal True\<rfloor>
     else sint x \<le> 0 \<and> - sint x \<le> max 1 \<lfloor>dmg_max (fighter 40) sample_unit ?heal True\<rfloor>)"
    by (rule GetDamage_signs [rotated])
  then show ?thesis
    by (simp add: hasUnitState_def sample_unit_def) blast
qed

text \<open>A damage of more than 131076 points (and below \<open>2 ^ 23\<close>) spans more than the 32768 values the generator
  allows: the assertion of \<open>irand\<close> fails and the server stops, whoever was about to be hit.\<close>

theorem GetDamage_assertion:
  assumes "\<not> hasUnitState victim UNIT_STATE_AURA" and "dmg_mod_of (si_DamageMod info) \<noteq> None" and "si_hit info \<noteq> 0"
    and "131076 \<le> dmg_max attacker victim info linked" and "dmg_max attacker victim info linked < 2 ^ 23"
  shows "GetDamage attacker victim info linked h = Inl AssertFailed"
proof -
  let ?d = "dmg_max attacker victim info linked"
  let ?mn = "\<lfloor>dmg_min ?d\<rfloor>"
  have d: "0 \<le> ?d" "f32 ?d = ?d" by (rule dmg_max_f32)+
  have mx: "to_int32 ?d = Inr (word_of_int \<lfloor>?d\<rfloor>)" "0 \<le> \<lfloor>?d\<rfloor>" "\<lfloor>?d\<rfloor> < 2 ^ 23"
    using to_int32_small [OF d(1) assms(5)] by blast+
  have "dmg_min ?d < 2 ^ 23" using dmg_min_upper [OF d] assms(5) by linarith
  then have mn: "to_int32 (dmg_min ?d) = Inr (word_of_int ?mn)" "0 \<le> ?mn" "?mn < 2 ^ 23"
    using to_int32_small [OF dmg_min_nonneg [OF d]] by blast+
  have "?mn \<le> \<lceil>?d\<rceil> - \<lfloor>?d / 4\<rfloor>"
    using dmg_min_ints [OF d(1) assms(5)] floor_mono [of "dmg_min ?d" "of_int (\<lceil>?d\<rceil> - \<lfloor>?d / 4\<rfloor>)"]
    by (simp only: floor_of_int)
  moreover have "\<lceil>?d\<rceil> \<le> \<lfloor>?d\<rfloor> + 1"
    by (simp add: ceiling_le_iff) (use floor_correct [of ?d] in linarith)
  moreover have "32769 \<le> \<lfloor>?d / 4\<rfloor>"
    using assms(4) by (simp add: le_floor_iff)
  ultimately have wide: "32768 \<le> \<lfloor>?d\<rfloor> - ?mn" by linarith
  have "sint (word_of_int \<lfloor>?d\<rfloor> - word_of_int ?mn :: i32) = \<lfloor>?d\<rfloor> - ?mn"
  proof -
    have "sint (word_of_int (\<lfloor>?d\<rfloor> - ?mn) :: i32) = \<lfloor>?d\<rfloor> - ?mn"
      using mx mn wide by (intro sint_word_of_small) linarith+
    then show ?thesis by simp
  qed
  then have "irand (word_of_int ?mn) (word_of_int \<lfloor>?d\<rfloor>) h = Inl AssertFailed"
    using wide by (simp add: irand_def)
  then show ?thesis
    using assms(1-3) by (auto simp: GetDamage_def dmg_roll_def mn(1) mx(1))
qed

theorem GetDamage_assertion_witness:
  "GetDamage (fighter 65534) sample_unit punch True 1 = Inl AssertFailed"
proof -
  have "131076 \<le> dmg_max (fighter 65534) sample_unit punch True" "dmg_max (fighter 65534) sample_unit punch True < 2 ^ 23"
    by code_simp+
  moreover have "\<not> hasUnitState sample_unit UNIT_STATE_AURA"
    by (simp add: hasUnitState_def sample_unit_def)
  moreover have "dmg_mod_of (si_DamageMod punch) \<noteq> None" "si_hit punch \<noteq> 0"
    by (simp_all add: punch_def dmg_mod_of_def)
  ultimately show ?thesis
    by (intro GetDamage_assertion)
qed

subsection \<open>Dealing the damage\<close>

text \<open>A hurt takes its points from the victim's HP, never past zero: it kills exactly when it is at least the HP,
  which are then 0; anything else, heals included, leaves HP and death state as they are.\<close>

theorem isDealDamageToAndKill_spec:
  assumes "sint damage \<noteq> - (2 ^ 31)"
  shows "let (killed, v) = isDealDamageToAndKill damage victim; hp = unat (uget victim UNIT_FIELD_HP);
             n = nat (- sint damage)
    in (killed \<longleftrightarrow> sint damage < 0 \<and> hp \<le> n) \<and> unat (uget v UNIT_FIELD_HP) = hp - n \<and>
       u_death v = (if killed then DEAD else u_death victim) \<and>
       (\<forall>j. j \<noteq> UNIT_FIELD_HP \<longrightarrow> uget v j = uget victim j)"
proof -
  have neg: "unat (- damage) = nat (- sint damage)" if "sint damage < 0"
  proof -
    have "- damage = word_of_int (- sint damage)" by simp
    moreover have "- sint damage < 2 ^ 31" "0 \<le> - sint damage"
      using assms that sint_ge [of damage] by simp_all
    ultimately have "uint (- damage) = - sint damage"
      by (simp only: uint_word_of_int_eq take_bit_eq_mod) simp
    then show ?thesis
      by (simp only: unat_eq_nat_uint)
  qed
  have sub: "unat (hp + damage) = unat hp - unat (- damage)" if "- damage < hp" for hp
    using unat_sub [of "- damage" hp] that by simp
  show ?thesis
  proof (cases "sint damage < 0")
    case True
    then have "uget victim UNIT_FIELD_HP \<le> - damage \<longleftrightarrow> unat (uget victim UNIT_FIELD_HP) \<le> nat (- sint damage)"
      using neg by (simp add: word_le_nat_alt)
    with True show ?thesis
      using sub [of "uget victim UNIT_FIELD_HP"] neg
      by (auto simp: isDealDamageToAndKill_def setDeathState_def Let_def simp del: UNIT_FIELD_HP_def)
  next
    case False
    then show ?thesis
      by (simp add: isDealDamageToAndKill_def pet_SetState_changed_def)
  qed
qed

theorem isDealDamageToAndKill_spec_witness:
  "let (killed, v) = isDealDamageToAndKill (word_of_int (- 7)) (uset UNIT_FIELD_HP 20 sample_unit)
   in \<not> killed \<and> unat (uget v UNIT_FIELD_HP) = 13"
proof -
  have "sint (word_of_int (- 7) :: i32) \<noteq> - (2 ^ 31)" by simp
  from isDealDamageToAndKill_spec [OF this, of "uset UNIT_FIELD_HP 20 sample_unit"] show ?thesis
    by (auto simp: Let_def)
qed

end
