(* ===== verification/ParseSpell.thy ===== *)
theory ParseSpell
  imports BattleGrid "HOL-Library.Multiset"
begin

text \<open>
  The area of a spell: \<open>BattleSystem::ParseSpell\<close> turns one action into the list of the single hits it
  makes. The targets are computed with \<open>uint8\<close> arithmetic and probed with \<open>isUnitAvail\<close>; the trace
  line at its head reads the name of the spell template, which is a null pointer for an unknown
  spell.
\<close>

definition SPELL_BERSERKER :: u16 where [simp]: "SPELL_BERSERKER = 13013"

definition hit_at :: "battle_action \<Rightarrow> u8 \<Rightarrow> u8 \<Rightarrow> battle_action" where
  "hit_at act c r = BattleAction (atkCol act) (atkRow act) (skill act) c r"

text \<open>\<open>if( isUnitAvail(c, r) ) hitInfo.push_back(new BattleAction(a,b,s,c,r))\<close>\<close>

definition probe_hit ::
  "battle \<Rightarrow> battle_action \<Rightarrow> u8 \<times> u8 \<Rightarrow> battle_action list \<Rightarrow> battle_action list res" where
  "probe_hit b act = (\<lambda>(c, r) hs.
     bindR (isUnitAvail c r False b) (\<lambda>av. Inr (if av then hs @ [hit_at act c r] else hs)))"

text \<open>The column hit beside the primary target by the rolling stone model.\<close>

definition rolling_col :: "u8 \<Rightarrow> u8" where
  "rolling_col x =
     (if isDefPos x then if isDefPosBackRow x then x + 1 else x - 1
      else if isAtkPosBackRow x then x + 1 else x - 1)"

text \<open>The upper and the lower neighbour of the fire arrow model, with its case for the berserker.\<close>

definition arrow_hit ::
  "battle \<Rightarrow> battle_action \<Rightarrow> bool \<Rightarrow> u8 \<times> u8 \<Rightarrow> battle_action list \<Rightarrow> battle_action list res" where
  "arrow_hit b act linked = (\<lambda>(c, r) hs.
     bindR (isUnitAvail c r False b) (\<lambda>av.
       if av \<or> linked
       then if skill act = SPELL_BERSERKER \<and> \<not> av then Inr (hs @ [act])
            else bindR (isUnitAvail c r linked b) (\<lambda>avl.
                   Inr (if avl then hs @ [hit_at act c r] else hs))
       else if skill act = SPELL_BERSERKER then Inr (hs @ [act])
       else Inr hs))"

text \<open>Hit types 6, 4 and 3 fall through into each other.\<close>

definition parse3 ::
  "battle \<Rightarrow> battle_action \<Rightarrow> bool \<Rightarrow> battle_action list \<Rightarrow> battle_action list res" where
  "parse3 b act linked hs =
     (let x = tgtCol act; y = tgtRow act
      in foldR (arrow_hit b act linked) [(x, y - 1), (x, y + 1)] (hs @ [act]))"

definition parse4 ::
  "battle \<Rightarrow> battle_action \<Rightarrow> bool \<Rightarrow> battle_action list \<Rightarrow> battle_action list res" where
  "parse4 b act linked hs =
     bindR (probe_hit b act (other_col (tgtCol act), tgtRow act) hs) (parse3 b act linked)"

definition parse6 ::
  "battle \<Rightarrow> battle_action \<Rightarrow> bool \<Rightarrow> battle_action list \<Rightarrow> battle_action list res" where
  "parse6 b act linked hs =
     (let x = other_col (tgtCol act); y = tgtRow act
      in bindR (foldR (probe_hit b act) [(x, y - 1), (x, y + 1)] hs) (parse4 b act linked))"

definition parse2 :: "battle \<Rightarrow> battle_action \<Rightarrow> battle_action list res" where
  "parse2 b act = probe_hit b act (rolling_col (tgtCol act), tgtRow act) [act]"

definition parse5 :: "battle \<Rightarrow> battle_action \<Rightarrow> battle_action list res" where
  "parse5 b act =
     foldR (probe_hit b act)
       (filter (\<lambda>p. snd p \<noteq> tgtRow act) (map (Pair (tgtCol act)) rows)) [act]"

text \<open>The whole side: a position is probed first and then skipped if it is the primary one.\<close>

definition side_hit ::
  "battle \<Rightarrow> battle_action \<Rightarrow> u8 \<times> u8 \<Rightarrow> battle_action list \<Rightarrow> battle_action list res" where
  "side_hit b act = (\<lambda>(c, r) hs.
     bindR (isUnitAvail c r False b) (\<lambda>av.
       Inr (if av then if c = tgtCol act \<and> r = tgtRow act then hs else hs @ [hit_at act c r]
            else hs)))"

definition parse10 :: "battle \<Rightarrow> battle_action \<Rightarrow> battle_action list res" where
  "parse10 b act =
     foldR (side_hit b act) (by_rows (if isDefPos (tgtCol act) then def_cols else atk_cols)) [act]"

definition parse1 :: "battle \<Rightarrow> battle_action \<Rightarrow> battle_action list res" where
  "parse1 b act =
     bindR (isUnitAvail (tgtCol act) (tgtRow act) False b) (\<lambda>av. Inr (if av then [act] else []))"

definition ParseSpell ::
  "spell_db \<Rightarrow> battle_action \<Rightarrow> u8 \<Rightarrow> bool \<Rightarrow> battle \<Rightarrow> battle_action list res" where
  "ParseSpell sdb act hit linked b =
     (if sdb (skill act) = None then Inl NullDeref
      else if hit = 2 then parse2 b act
      else if hit = 6 then parse6 b act linked []
      else if hit = 4 then parse4 b act linked []
      else if hit = 3 then parse3 b act linked []
      else if hit = 5 then parse5 b act
      else if hit = 10 then parse10 b act
      else parse1 b act)"

subsection \<open>What the probes see\<close>

text \<open>A position the code may probe: on the field, or in the row that \<open>0 - 1\<close> wraps to.\<close>

definition probed_ok :: "u8 \<times> u8 \<Rightarrow> bool" where
  "probed_ok p \<longleftrightarrow> on_field (fst p) (snd p) \<or> snd p = 255"

definition avail :: "battle \<Rightarrow> bool \<Rightarrow> u8 \<times> u8 \<Rightarrow> bool" where
  "avail b linked p =
     (case standing b (fst p) (snd p) of None \<Rightarrow> False | Some i \<Rightarrow> \<not> isDead (unit_at b i) \<or> linked)"

lemma avail_mono: "avail b False p \<Longrightarrow> avail b l p"
  by (auto simp: avail_def split: option.splits)

lemma avail_on_field: "avail b l p \<Longrightarrow> on_field (fst p) (snd p)"
  by (auto simp: avail_def standing_def split: if_splits)

lemma isUnitAvail_probe:
  assumes "grid_ok b" and "probed_ok (c, r)"
  shows "isUnitAvail c r l b = Inr (avail b l (c, r))"
proof (cases "on_field c r")
  case True
  then show ?thesis
    using assms(1) by (simp add: isUnitAvail_field avail_def)
next
  case False
  with assms(2) show ?thesis
    by (simp add: probed_ok_def isUnitAvail_def GetBattleUnit_def avail_def standing_def)
qed

lemma probe_hit_eq:
  "grid_ok b \<Longrightarrow> probed_ok p \<Longrightarrow>
   probe_hit b act p hs = Inr (hs @ (if avail b False p then [hit_at act (fst p) (snd p)] else []))"
  by (cases p) (simp add: probe_hit_def isUnitAvail_probe)

definition arrow_list :: "battle \<Rightarrow> battle_action \<Rightarrow> bool \<Rightarrow> u8 \<times> u8 \<Rightarrow> battle_action list" where
  "arrow_list b act linked p =
     (if skill act = SPELL_BERSERKER \<and> \<not> avail b False p then [act]
      else if avail b linked p then [hit_at act (fst p) (snd p)] else [])"

lemma arrow_hit_eq:
  "grid_ok b \<Longrightarrow> probed_ok p \<Longrightarrow> arrow_hit b act l p hs = Inr (hs @ arrow_list b act l p)"
  using avail_mono [of b p l]
  by (cases p; cases l) (auto simp: arrow_hit_def isUnitAvail_probe arrow_list_def)

lemma foldR_probe_hit:
  "grid_ok b \<Longrightarrow> list_all probed_ok ps \<Longrightarrow>
   foldR (probe_hit b act) ps hs =
     Inr (hs @ map (\<lambda>p. hit_at act (fst p) (snd p)) (filter (avail b False) ps))"
  by (induction ps arbitrary: hs) (simp_all add: probe_hit_eq)

lemma foldR_side_hit:
  "grid_ok b \<Longrightarrow> list_all probed_ok ps \<Longrightarrow>
   foldR (side_hit b act) ps hs =
     Inr (hs @ map (\<lambda>p. hit_at act (fst p) (snd p))
       (filter (\<lambda>p. p \<noteq> (tgtCol act, tgtRow act) \<and> avail b False p) ps))"
proof (induction ps arbitrary: hs)
  case Nil
  then show ?case by simp
next
  case (Cons p ps)
  then show ?case
    by (cases p) (auto simp: side_hit_def isUnitAvail_probe)
qed

subsection \<open>The positions of each model\<close>

text \<open>The targets of a hit type beside the primary one, in the order the code probes them.\<close>

definition side_targets :: "u8 \<Rightarrow> u8 \<Rightarrow> u8 \<Rightarrow> (u8 \<times> u8) list" where
  "side_targets hit x y =
     (if hit = 2 then [(rolling_col x, y)]
      else if hit = 6 then [(other_col x, y - 1), (other_col x, y + 1), (other_col x, y)]
      else if hit = 4 then [(other_col x, y)]
      else if hit = 5 then filter (\<lambda>p. snd p \<noteq> y) (map (Pair x) rows)
      else if hit = 10
      then filter (\<lambda>p. p \<noteq> (x, y)) (by_rows (if isDefPos x then def_cols else atk_cols))
      else [])"

text \<open>The hit types with the fire arrow core.\<close>

definition arrow_type :: "u8 \<Rightarrow> bool" where
  "arrow_type hit \<longleftrightarrow> hit = 3 \<or> hit = 4 \<or> hit = 6"

definition area_type :: "u8 \<Rightarrow> bool" where
  "area_type hit \<longleftrightarrow> arrow_type hit \<or> hit = 2 \<or> hit = 5 \<or> hit = 10"

lemma rolling_def: "x < 2 \<Longrightarrow> rolling_col x = other_col x"
proof -
  assume "x < 2"
  then have "isDefPos x" by (simp add: isDefPos_def)
  then show ?thesis by (simp add: rolling_col_def other_col_def isAtkPos_def)
qed

lemma other_on_field: "on_field x y \<Longrightarrow> on_field (other_col x) y"
  using other_col_facts [of x] by (simp add: on_field_def)

lemma rows_near:
  assumes "on_field x y" and "y < 4"
  shows "probed_ok (x, y - 1)" "probed_ok (x, y + 1)" "probed_ok (other_col x, y - 1)"
    "probed_ok (other_col x, y + 1)"
proof -
  have "y - 1 < 5 \<or> y - 1 = 255" "y + 1 < 5"
    using assms(2) unfolding four_cols by auto
  then show "probed_ok (x, y - 1)" "probed_ok (x, y + 1)" "probed_ok (other_col x, y - 1)"
    "probed_ok (other_col x, y + 1)"
    using assms(1) other_on_field [OF assms(1)] by (auto simp: probed_ok_def on_field_def)
qed

lemma side_probed:
  assumes "on_field x y"
  shows "list_all probed_ok (map (Pair x) rows)"
    "list_all probed_ok (by_rows def_cols)" "list_all probed_ok (by_rows atk_cols)"
proof -
  show "list_all probed_ok (map (Pair x) rows)"
    using assms by (simp add: rows_def probed_ok_def on_field_def)
  show "list_all probed_ok (by_rows def_cols)" "list_all probed_ok (by_rows atk_cols)"
    unfolding list_all_iff pos_lists
    by (auto simp: probed_ok_def on_field_def word_less_nat_alt)
qed

lemma side_targets_probed:
  assumes "on_field x y" and "y < 4" and "hit = 2 \<longrightarrow> isDefPos x"
  shows "list_all probed_ok (side_targets hit x y)"
proof -
  have "probed_ok (other_col x, y)"
    using other_on_field [OF assms(1)] by (simp add: probed_ok_def)
  moreover have "rolling_col x = other_col x" if "hit = 2"
    using assms(3) that rolling_def [of x] by (simp add: isDefPos_def)
  ultimately show ?thesis
    using rows_near [OF assms(1,2)] side_probed [OF assms(1)]
    by (auto simp: side_targets_def list_all_iff)
qed

abbreviation hit_all :: "battle \<Rightarrow> battle_action \<Rightarrow> (u8 \<times> u8) list \<Rightarrow> battle_action list" where
  "hit_all b act ps \<equiv> map (\<lambda>p. hit_at act (fst p) (snd p)) (filter (avail b False) ps)"

text \<open>The hits of an action, as lists.\<close>

lemma ParseSpell_lists:
  assumes "grid_ok b" and "on_field (tgtCol act) (tgtRow act)" and "tgtRow act < 4"
    and "hit = 2 \<longrightarrow> isDefPos (tgtCol act)" and "sdb (skill act) \<noteq> None"
  shows "ParseSpell sdb act hit linked b = Inr
    (let x = tgtCol act; y = tgtRow act; side = hit_all b act (side_targets hit x y)
     in if arrow_type hit
        then side @ [act] @ arrow_list b act linked (x, y - 1) @ arrow_list b act linked (x, y + 1)
        else if area_type hit then act # side
        else if avail b False (x, y) then [act] else [])"
proof -
  let ?x = "tgtCol act" and ?y = "tgtRow act"
  note near = rows_near [OF assms(2,3)] and side = side_probed [OF assms(2)]
  have own: "probed_ok (?x, ?y)" and oth: "probed_ok (other_col ?x, ?y)"
    using assms(2) other_on_field [OF assms(2)] by (simp_all add: probed_ok_def)
  have p3: "parse3 b act linked hs = Inr (hs @ [act] @ arrow_list b act linked (?x, ?y - 1) @
      arrow_list b act linked (?x, ?y + 1))" for hs
    using near by (simp add: parse3_def arrow_hit_eq [OF assms(1)] Let_def)
  have p4: "parse4 b act linked hs = Inr (hs @ hit_all b act [(other_col ?x, ?y)] @ [act] @
      arrow_list b act linked (?x, ?y - 1) @ arrow_list b act linked (?x, ?y + 1))" for hs
    using oth by (simp add: parse4_def p3 probe_hit_eq [OF assms(1)])
  have p6: "parse6 b act linked [] = Inr (hit_all b act (side_targets 6 ?x ?y) @ [act] @
      arrow_list b act linked (?x, ?y - 1) @ arrow_list b act linked (?x, ?y + 1))"
    using near by (simp add: parse6_def p4 probe_hit_eq [OF assms(1)] side_targets_def Let_def)
  have p2: "parse2 b act = Inr (act # hit_all b act (side_targets 2 ?x ?y))" if "hit = 2"
    using assms(4) that oth rolling_def [of ?x]
    by (simp add: parse2_def probe_hit_eq [OF assms(1)] side_targets_def isDefPos_def)
  have p5: "parse5 b act = Inr (act # hit_all b act (side_targets 5 ?x ?y))"
  proof -
    have "list_all probed_ok (filter (\<lambda>p. snd p \<noteq> ?y) (map (Pair ?x) rows))"
      using side(1) by (auto simp: list_all_iff)
    from foldR_probe_hit [OF assms(1) this] show ?thesis
      by (simp add: parse5_def side_targets_def)
  qed
  have p10: "parse10 b act = Inr (act # hit_all b act (side_targets 10 ?x ?y))"
    using side by (simp add: parse10_def foldR_side_hit [OF assms(1)] side_targets_def)
  have p1: "parse1 b act = Inr (if avail b False (?x, ?y) then [act] else [])"
    using own by (simp add: parse1_def isUnitAvail_probe [OF assms(1)])
  show ?thesis
    using assms(5) p2
    by (simp add: ParseSpell_def p3 p4 p6 p5 p10 p1 arrow_type_def area_type_def Let_def side_targets_def)
qed

subsection \<open>The area of a hit type\<close>

text \<open>
  The area of a hit type around its primary target, as the models describe it: on the same side, in
  the same row (2), the target and its neighbours in the column (3), that and the one behind or in
  front (4), the column (5), the rows around it (6), the side (10), else the target alone.
\<close>

definition near :: "u8 \<Rightarrow> u8 \<Rightarrow> bool" where
  "near y r \<longleftrightarrow> r = y \<or> r = y + 1 \<or> y = r + 1"

definition in_area :: "u8 \<Rightarrow> u8 \<Rightarrow> u8 \<Rightarrow> u8 \<Rightarrow> u8 \<Rightarrow> bool" where
  "in_area hit x y c r \<longleftrightarrow> isDefPos c = isDefPos x \<and>
     (if hit = 2 then r = y
      else if hit = 3 then c = x \<and> near y r
      else if hit = 4 then r = y \<or> c = x \<and> near y r
      else if hit = 5 then c = x
      else if hit = 6 then near y r
      else if hit = 10 then True
      else c = x \<and> r = y)"

definition hit_pos :: "battle_action \<Rightarrow> u8 \<times> u8" where
  "hit_pos h = (tgtCol h, tgtRow h)"

lemma hit_pos_hit_at [simp]: "hit_pos (hit_at act c r) = (c, r)"
  by (simp add: hit_pos_def hit_at_def BattleAction_def)

definition arrow_targets :: "u8 \<Rightarrow> u8 \<Rightarrow> u8 \<Rightarrow> (u8 \<times> u8) list" where
  "arrow_targets hit x y = (if arrow_type hit then [(x, y - 1), (x, y + 1)] else [])"

lemma side_of_col:
  "isDefPos 0" "isDefPos 1" "\<not> isDefPos 2" "\<not> isDefPos 3"
  "other_col 0 = 1" "other_col 1 = 0" "other_col 2 = 3" "other_col 3 = 2"
  by (simp_all add: isDefPos_def other_col_def isAtkPos_def isDefPosBackRow_def isAtkPosBackRow_def)

lemma same_side_cols:
  "x < 4 \<Longrightarrow> c < 4 \<Longrightarrow> isDefPos c = isDefPos x \<longleftrightarrow> c = x \<or> c = other_col x"
  unfolding four_cols by (elim disjE) (simp_all add: side_of_col)

lemma near_iff: "near y r \<longleftrightarrow> r = y \<or> r = y + 1 \<or> r = y - 1"
proof -
  have "y = r + 1 \<longleftrightarrow> r = y - 1"
    by (metis add_diff_cancel diff_add_cancel)
  then show ?thesis
    by (simp only: near_def)
qed

lemma targets_area:
  assumes "x < 4" and "y < 4" and "hit = 2 \<longrightarrow> isDefPos x" and "c < 4" and "r < 5"
  shows "(c, r) \<in> set (side_targets hit x y @ [(x, y)] @ arrow_targets hit x y) \<longleftrightarrow> in_area hit x y c r"
proof -
  note side = same_side_cols [OF assms(1,4)]
  have roll: "hit = 2 \<Longrightarrow> rolling_col x = other_col x"
    using assms(3) rolling_def [of x] by (simp add: isDefPos_def)
  have other: "other_col x \<noteq> x"
    using other_col_facts [OF assms(1)] by blast
  have rows: "r \<in> set rows"
    using assms(5) unfolding five_rows by (auto simp: rows_def)
  have sides: "(c, r) \<in> set (by_rows (if isDefPos x then def_cols else atk_cols)) \<longleftrightarrow>
      isDefPos c = isDefPos x"
    using assms(4,5) by (auto simp: pos_lists isDefPos_def not_less)
  consider "hit = 2" | "hit = 3" | "hit = 4" | "hit = 5" | "hit = 6" | "hit = 10"
    | "hit \<noteq> 2" "hit \<noteq> 3" "hit \<noteq> 4" "hit \<noteq> 5" "hit \<noteq> 6" "hit \<noteq> 10" by blast
  then show ?thesis
  proof cases
    case 1
    then show ?thesis using roll side by (auto simp: in_area_def side_targets_def arrow_targets_def arrow_type_def)
  next
    case 2
    then show ?thesis using side
      by (auto simp: in_area_def side_targets_def arrow_targets_def arrow_type_def near_iff)
  next
    case 3
    then show ?thesis using side
      by (auto simp: in_area_def side_targets_def arrow_targets_def arrow_type_def near_iff)
  next
    case 4
    then show ?thesis using rows
      by (auto simp: in_area_def side_targets_def arrow_targets_def arrow_type_def)
  next
    case 5
    then show ?thesis using side other
      by (auto simp: in_area_def side_targets_def arrow_targets_def arrow_type_def near_iff)
  next
    case 6
    then show ?thesis using sides
      by (simp add: in_area_def side_targets_def arrow_targets_def arrow_type_def) blast
  next
    case 7
    then show ?thesis
      by (auto simp: in_area_def side_targets_def arrow_targets_def arrow_type_def)
  qed
qed

lemma targets_distinct:
  assumes "x < 4" and "y < 4" and "hit = 2 \<longrightarrow> isDefPos x"
  shows "distinct (side_targets hit x y @ [(x, y)] @ arrow_targets hit x y)"
proof -
  have other: "other_col x \<noteq> x"
    using other_col_facts [OF assms(1)] by blast
  have roll: "hit = 2 \<Longrightarrow> rolling_col x = other_col x"
    using assms(3) rolling_def [of x] by (simp add: isDefPos_def)
  have near: "y - 1 \<noteq> y + 1" "y - 1 \<noteq> y" "y + 1 \<noteq> y"
    using assms(2) unfolding four_cols by (elim disjE; simp)+
  have "distinct rows" "distinct (by_rows def_cols)" "distinct (by_rows atk_cols)"
    by (simp_all add: rows_def by_rows_def def_cols_def atk_cols_def)
  with other roll near show ?thesis
    by (auto simp: side_targets_def arrow_targets_def arrow_type_def distinct_map inj_on_def)
qed

lemma length_targets:
  assumes "x < 4" and "y < 4"
  shows "length (side_targets hit x y) + (if area_type hit then 1 else 0) + length (arrow_targets hit x y) \<le>
    (if area_type hit then unat hit else 1)"
proof -
  have y: "y \<in> set rows"
    using assms(2) unfolding four_cols by (auto simp: rows_def)
  then have "length (filter (\<lambda>p. snd p \<noteq> y) (map (Pair x) rows)) < length (map (Pair x) rows)"
    by (intro length_filter_less [of "(x, y)"]) auto
  then have five: "length (filter (\<lambda>p. snd p \<noteq> y) (map (Pair x) rows)) \<le> 4"
    by (simp add: rows_def)
  have "(x, y) \<in> set (by_rows (if isDefPos x then def_cols else atk_cols))"
    using assms y unfolding four_cols by (auto simp: pos_lists isDefPos_def)
  then have "length (filter (\<lambda>p. p \<noteq> (x, y)) (by_rows (if isDefPos x then def_cols else atk_cols))) <
      length (by_rows (if isDefPos x then def_cols else atk_cols))"
    by (intro length_filter_less [of "(x, y)"]) auto
  then have ten: "length (filter (\<lambda>p. p \<noteq> (x, y)) (by_rows (if isDefPos x then def_cols else atk_cols))) \<le> 9"
    by (simp add: by_rows_def rows_def def_cols_def atk_cols_def split: if_splits)
  consider "hit = 2" | "hit = 3" | "hit = 4" | "hit = 5" | "hit = 6" | "hit = 10"
    | "hit \<noteq> 2" "hit \<noteq> 3" "hit \<noteq> 4" "hit \<noteq> 5" "hit \<noteq> 6" "hit \<noteq> 10" by blast
  then show ?thesis
    using five ten
    by cases (simp_all add: side_targets_def arrow_targets_def arrow_type_def area_type_def)
qed

lemma arrow_list_plain:
  "skill act \<noteq> SPELL_BERSERKER \<Longrightarrow> arrow_list b act False p = hit_all b act [p]"
  by (simp add: arrow_list_def)

text \<open>C10: a spell other than Berserker, in a hit that is not linked, on a target in the rows 0 to 3 (for hit type 2: on
  the side of the defenders) meets exactly the area of
  its hit type: one hit for each position of the field in the area where a living unit stands, and
  for the area types always one for the primary target, which may be dead; none twice, never more than the number the
  hit type is named after, and all by the same attacker with the same skill.\<close>

theorem ParseSpell_area:
  assumes "grid_ok b" and "on_field (tgtCol act) (tgtRow act)" and "tgtRow act < 4"
    and "hit = 2 \<longrightarrow> isDefPos (tgtCol act)" and "sdb (skill act) \<noteq> None"
    and "skill act \<noteq> SPELL_BERSERKER"
  shows "\<exists>hs. ParseSpell sdb act hit False b = Inr hs \<and> distinct (map hit_pos hs) \<and>
    length hs \<le> (if area_type hit then unat hit else 1) \<and>
    (\<forall>h \<in> set hs. atkCol h = atkCol act \<and> atkRow h = atkRow act \<and> skill h = skill act) \<and>
    (\<forall>c r. (c, r) \<in> hit_pos ` set hs \<longleftrightarrow> on_field c r \<and> in_area hit (tgtCol act) (tgtRow act) c r \<and>
       (avail b False (c, r) \<or> area_type hit \<and> (c, r) = hit_pos act))"
proof -
  let ?x = "tgtCol act" and ?y = "tgtRow act"
  let ?side = "side_targets hit ?x ?y" and ?arr = "arrow_targets hit ?x ?y"
  define hs where "hs = hit_all b act ?side @
    (if area_type hit \<or> avail b False (?x, ?y) then [act] else []) @ hit_all b act ?arr"
  define ks where "ks = (if arrow_type hit
        then hit_all b act ?side @ [act] @ arrow_list b act False (?x, ?y - 1) @ arrow_list b act False (?x, ?y + 1)
        else if area_type hit then act # hit_all b act ?side
        else if avail b False (?x, ?y) then [act] else [])"
  have x: "?x < 4" and pos: "hit_pos act = (?x, ?y)"
    using assms(2) by (simp_all add: on_field_def hit_pos_def)
  have none: "?side = []" if "\<not> area_type hit"
    using that by (simp add: side_targets_def area_type_def arrow_type_def)
  have perm: "mset ks = mset hs"
    by (cases "arrow_type hit"; cases "area_type hit")
       (simp_all add: ks_def hs_def none arrow_list_plain [OF assms(6)] arrow_targets_def area_type_def)
  have parse: "ParseSpell sdb act hit False b = Inr ks"
    using ParseSpell_lists [OF assms(1-4), of sdb False] assms(5) by (simp add: ks_def Let_def)
  have sub: "map hit_pos hs = filter (\<lambda>p. avail b False p \<or> area_type hit \<and> p = (?x, ?y)) (?side @ [(?x, ?y)] @ ?arr)"
  proof -
    have "filter (\<lambda>p. avail b False p \<or> area_type hit \<and> p = (?x, ?y)) ps = filter (avail b False) ps"
      if "(?x, ?y) \<notin> set ps" for ps
      using that by (intro filter_cong) auto
    moreover have "(?x, ?y) \<notin> set ?side" "(?x, ?y) \<notin> set ?arr"
      using targets_distinct [OF x assms(3,4)] by auto
    ultimately show ?thesis
      by (simp add: hs_def pos comp_def)
  qed
  have pick: "(c, r) \<in> hit_pos ` set hs \<longleftrightarrow> on_field c r \<and> in_area hit ?x ?y c r \<and>
       (avail b False (c, r) \<or> area_type hit \<and> (c, r) = (?x, ?y))" for c r
  proof -
    have "(c, r) \<in> hit_pos ` set hs \<longleftrightarrow> (c, r) \<in> set (?side @ [(?x, ?y)] @ ?arr) \<and>
        (avail b False (c, r) \<or> area_type hit \<and> (c, r) = (?x, ?y))"
      using arg_cong [OF sub, of set] by auto
    moreover have "on_field c r" if "avail b False (c, r) \<or> area_type hit \<and> (c, r) = (?x, ?y)"
      using that avail_on_field [of b False "(c, r)"] assms(2) by auto
    moreover have "(c, r) \<in> set (?side @ [(?x, ?y)] @ ?arr) \<longleftrightarrow> in_area hit ?x ?y c r" if "on_field c r"
      using targets_area [OF x assms(3,4)] that by (simp add: on_field_def)
    ultimately show ?thesis by blast
  qed
  have len: "length hs \<le> (if area_type hit then unat hit else 1)"
  proof -
    have "length hs \<le> length ?side + 1 + length ?arr" if "area_type hit"
      using length_filter_le [of "avail b False" ?side] length_filter_le [of "avail b False" ?arr]
      by (simp add: hs_def that) (rule add_mono, simp_all)
    moreover have "length hs \<le> 1" if "\<not> area_type hit"
      using that none [OF that] by (simp add: hs_def arrow_targets_def area_type_def)
    ultimately show ?thesis
      using length_targets [OF x assms(3), of hit] by (auto split: if_splits)
  qed
  have "distinct (map hit_pos hs)"
    unfolding sub by (rule distinct_filter) (rule targets_distinct [OF x assms(3,4)])
  then have "distinct (map hit_pos ks)" "set ks = set hs" "length ks = length hs"
    using mset_eq_imp_distinct_iff [of "map hit_pos ks" "map hit_pos hs"] mset_eq_setD [OF perm]
      mset_eq_length [OF perm] perm by simp_all
  moreover have "atkCol h = atkCol act \<and> atkRow h = atkRow act \<and> skill h = skill act" if "h \<in> set hs" for h
    using that by (auto simp: hs_def hit_at_def BattleAction_def split: if_splits)
  ultimately show ?thesis
    using parse len pick pos by (intro exI [of _ ks]) simp
qed

definition arrow_action :: battle_action where
  "arrow_action = BattleAction 2 0 12001 1 0"

theorem ParseSpell_area_witness:
  "\<exists>hs. ParseSpell sample_sdb arrow_action 3 False sample_battle = Inr hs \<and>
    (1, 1) \<in> hit_pos ` set hs \<and> (0, 0) \<notin> hit_pos ` set hs"
proof -
  have h: "on_field (tgtCol arrow_action) (tgtRow arrow_action)" "tgtRow arrow_action < 4"
    "3 = (2 :: u8) \<longrightarrow> isDefPos (tgtCol arrow_action)" "sample_sdb (skill arrow_action) \<noteq> None"
    "skill arrow_action \<noteq> SPELL_BERSERKER"
    by (simp_all add: arrow_action_def BattleAction_def on_field_def sample_sdb_def)
  have "on_field 1 1" "in_area 3 1 0 1 1" "\<not> in_area 3 1 0 0 0" "avail sample_battle False (1, 1)"
    by (simp_all add: on_field_def in_area_def near_def isDefPos_def avail_def standing_def cell_def
        sample_battle_def empty_battle_def sample_unit_def isDead_def)
  then show ?thesis
    using ParseSpell_area [where sdb = sample_sdb and act = arrow_action, OF sample_grid_ok h]
    by (auto simp: arrow_action_def BattleAction_def)
qed

text \<open>The berserker always lands three hits: what no neighbour takes falls on the primary target again,
  whether the action is linked or not.\<close>

theorem berserker_three_hits:
  assumes "grid_ok b" and "on_field (tgtCol act) (tgtRow act)" and "tgtRow act < 4"
    and "sdb (skill act) \<noteq> None" and "skill act = SPELL_BERSERKER"
  shows "\<exists>h1 h2. ParseSpell sdb act 3 linked b = Inr [act, h1, h2] \<and>
    (\<forall>h \<in> {h1, h2}. h = act \<or> avail b False (hit_pos h) \<and> tgtCol h = tgtCol act \<and> near (tgtRow act) (tgtRow h))"
proof -
  have one: "\<exists>h. arrow_list b act linked (tgtCol act, r) = [h] \<and>
      (h = act \<or> avail b False (hit_pos h) \<and> hit_pos h = (tgtCol act, r))" for r
    using avail_mono [of b "(tgtCol act, r)" linked] assms(5)
    by (cases "avail b False (tgtCol act, r)") (auto simp: arrow_list_def)
  obtain h1 h2 where h: "arrow_list b act linked (tgtCol act, tgtRow act - 1) = [h1]"
    "arrow_list b act linked (tgtCol act, tgtRow act + 1) = [h2]"
    "h1 = act \<or> avail b False (hit_pos h1) \<and> hit_pos h1 = (tgtCol act, tgtRow act - 1)"
    "h2 = act \<or> avail b False (hit_pos h2) \<and> hit_pos h2 = (tgtCol act, tgtRow act + 1)"
    using one [of "tgtRow act - 1"] one [of "tgtRow act + 1"] by blast
  have "ParseSpell sdb act 3 linked b = Inr [act, h1, h2]"
    using ParseSpell_lists [of b act 3 sdb linked] assms(1-4) h(1,2)
    by (simp add: arrow_type_def side_targets_def Let_def)
  then show ?thesis
    using h(3,4) by (auto simp: hit_pos_def near_iff)
qed

theorem berserker_three_hits_witness:
  "\<exists>h1 h2. ParseSpell (\<lambda>_. sample_sdb 12001) (BattleAction 2 0 13013 1 0) 3 True sample_battle =
     Inr [BattleAction 2 0 13013 1 0, h1, h2]"
  using berserker_three_hits [OF sample_grid_ok, of "BattleAction 2 0 13013 1 0" "\<lambda>_. sample_sdb 12001" True]
  by (auto simp: BattleAction_def on_field_def sample_sdb_def)

text \<open>At the edges the area leaves the side of its target. In row 4 the lower neighbour is row 5: in the
  columns 0 to 2 that is the head of the next column, so an arrow at the defender (1, 4) strikes the
  attacker at (2, 0), and in column 3 it is read behind the array. The rolling stone on an attacker
  looks for its second hit the wrong way: at the defender in column 1, or in column 4.\<close>

theorem ParseSpell_leaves_side:
  assumes "grid_ok b" and "sdb (skill act) \<noteq> None"
  shows "(tgtRow act = 4 \<and> tgtCol act < 3 \<and> skill act \<noteq> SPELL_BERSERKER \<and> avail b False (tgtCol act + 1, 0) \<longrightarrow>
      (\<exists>hs h. ParseSpell sdb act 3 False b = Inr hs \<and> h \<in> set hs \<and>
         GetVictim h b = Inr (standing b (tgtCol act + 1) 0))) \<and>
    (tgtRow act = 4 \<and> tgtCol act = 3 \<longrightarrow> ParseSpell sdb act 3 False b = Inl OutOfBounds) \<and>
    (tgtRow act < 5 \<and> tgtCol act = 2 \<and> avail b False (1, tgtRow act) \<longrightarrow>
      ParseSpell sdb act 2 linked b = Inr [act, hit_at act 1 (tgtRow act)]) \<and>
    (tgtRow act < 5 \<and> tgtCol act = 3 \<longrightarrow> ParseSpell sdb act 2 linked b = Inl OutOfBounds)"
proof -
  let ?x = "tgtCol act"
  have upper: "arrow_hit b act False (?x, 3) [act] = Inr (act # arrow_list b act False (?x, 3))"
    if "?x < 4"
    using that by (simp add: arrow_hit_eq [OF assms(1)] probed_ok_def on_field_def)
  have row4: "(4 :: u8) - 1 = 3" "(4 :: u8) + 1 = 5" by simp_all
  have arrow: "\<exists>hs h. ParseSpell sdb act 3 False b = Inr hs \<and> h \<in> set hs \<and>
      GetVictim h b = Inr (standing b (?x + 1) 0)"
    if r: "tgtRow act = 4" and c: "?x < 3" and s: "skill act \<noteq> SPELL_BERSERKER"
      and av: "avail b False (?x + 1, 0)"
  proof -
    have "?x < 4" using c by (simp add: word_less_nat_alt)
    moreover have "isUnitAvail ?x 5 False b = Inr True"
      using av GetBattleUnit_row5 [OF assms(1) c] by (simp add: isUnitAvail_def avail_def)
    then have "arrow_hit b act False (?x, 5) hs = Inr (hs @ [hit_at act ?x 5])" for hs
      by (simp add: arrow_hit_def)
    ultimately have "ParseSpell sdb act 3 False b = Inr (act # arrow_list b act False (?x, 3) @ [hit_at act ?x 5])"
      using assms(2) upper s r row4 by (simp add: ParseSpell_def parse3_def Let_def)
    moreover have "GetVictim (hit_at act ?x 5) b = Inr (standing b (?x + 1) 0)"
      using GetBattleUnit_row5 [OF assms(1) c] by (simp add: GetVictim_def hit_at_def BattleAction_def)
    ultimately show ?thesis
      by (intro exI [of _ "act # arrow_list b act False (?x, 3) @ [hit_at act ?x 5]"] exI [of _ "hit_at act ?x 5"]) simp
  qed
  have oob: "isUnitAvail 3 5 False b = Inl OutOfBounds"
    using assms(1) by (simp add: isUnitAvail_def GetBattleUnit_def grid_get_def grid_ok_def cell_def)
  have "ParseSpell sdb act 3 False b = Inl OutOfBounds" if "tgtRow act = 4" "?x = 3"
  proof -
    have "arrow_hit b act False (3, 5) hs = Inl OutOfBounds" for hs
      using oob by (simp add: arrow_hit_def)
    then show ?thesis
      using assms(2) upper that row4 by (simp add: ParseSpell_def parse3_def Let_def)
  qed
  moreover have "ParseSpell sdb act 2 linked b = Inr [act, hit_at act 1 (tgtRow act)]"
    if "tgtRow act < 5" "?x = 2" "avail b False (1, tgtRow act)"
    using assms that by (auto simp: ParseSpell_def parse2_def rolling_col_def isDefPos_def
        isAtkPosBackRow_def probe_hit_eq probed_ok_def on_field_def)
  moreover have "ParseSpell sdb act 2 linked b = Inl OutOfBounds" if "tgtRow act < 5" "?x = 3"
  proof -
    have "tgtRow act \<le> 5" using that(1) by simp
    then have "isUnitAvail 4 (tgtRow act) False b = Inl OutOfBounds"
      using GetBattleUnit_col4 [OF assms(1)] by (simp add: isUnitAvail_def)
    then show ?thesis
      using assms that by (auto simp: ParseSpell_def parse2_def rolling_col_def isDefPos_def
          isAtkPosBackRow_def isAtkPos_def probe_hit_def)
  qed
  ultimately show ?thesis
    using arrow by blast
qed

theorem ParseSpell_leaves_side_witness:
  "ParseSpell sample_sdb (BattleAction 0 0 12001 2 0) 2 False sample_battle =
     Inr [BattleAction 0 0 12001 2 0, hit_at (BattleAction 0 0 12001 2 0) 1 0]"
proof -
  have "avail sample_battle False (1, 0)"
    by (simp add: avail_def standing_def on_field_def cell_def sample_battle_def empty_battle_def sample_unit_def isDead_def)
  moreover have "sample_sdb (skill (BattleAction 0 0 12001 2 0)) \<noteq> None"
    by (simp add: BattleAction_def sample_sdb_def)
  ultimately show ?thesis
    using ParseSpell_leaves_side [where sdb = sample_sdb and act = "BattleAction 0 0 12001 2 0" and linked = False, OF sample_grid_ok]
    by (simp add: BattleAction_def)
qed

end
