(* ===== verification/BattleActions.thy ===== *)
theory BattleActions
  imports ParseSpell Experience Floats
begin

text \<open>
  The actions of a turn (\<open>BattleSystem.cpp\<close>: \<open>AIMove\<close>, \<open>AddBattleAction\<close>, \<open>CanLink\<close>,
  \<open>BuildActions\<close>, \<open>NeedRedirectTarget\<close>, \<open>RedirectTarget\<close>): the creatures choose theirs, all are
  sorted by agility, and neighbours that can be linked share one of the 20 entries of
  \<open>m_Actions\<close>. The configured agility tolerance is the argument \<open>rate\<close>.
\<close>

subsection \<open>The list of the turn\<close>

definition AddBattleAction :: "battle_action \<Rightarrow> battle \<Rightarrow> battle res" where
  "AddBattleAction act b =
     bindR (GetAttacker act b) (\<lambda>a.
       Inr (case a of
              None \<Rightarrow> b
            | Some i \<Rightarrow> b\<lparr>b_unitTurn := b_unitTurn b @
                [act\<lparr>agility := uget (unit_at b i) UNIT_FIELD_AGI + uget (unit_at b i) UNIT_FIELD_AGI_MOD\<rparr>]\<rparr>))"

text \<open>The first living unit of a list of positions.\<close>

fun first_living :: "(u8 \<times> u8) list \<Rightarrow> battle \<Rightarrow> (u8 \<times> u8) option res" where
  "first_living [] b = Inr None"
| "first_living ((c, r) # ps) b =
     bindR (grid_get b c r) (\<lambda>u.
       case u of
         None \<Rightarrow> first_living ps b
       | Some i \<Rightarrow> if isDead (unit_at b i) then first_living ps b else Inr (Some (c, r)))"

text \<open>
  One creature of the defenders. The spell is a variable of the whole \<open>AIMove\<close>: a creature that
  does not roll a new one takes over the one of the creature before it.
\<close>

definition ai_spell :: "spell_db \<Rightarrow> unit_rec \<Rightarrow> u16 \<Rightarrow> battle \<Rightarrow> (u16 \<times> battle) res" where
  "ai_spell sdb u spell b =
     (case rand32 (b_rand32 b) of
        (r, st) \<Rightarrow>
          let b1 = b\<lparr>b_rand32 := st\<rparr>
          in if chance_below r 50
             then bindR (GetRandomSpell 50 u (b_holdrand b1)) (\<lambda>(s, h).
                    if sdb s = None then Inl NullDeref else Inr (s, b1\<lparr>b_holdrand := h\<rparr>))
             else Inr (spell, b1))"

definition ai_unit :: "spell_db \<Rightarrow> u8 \<times> u8 \<Rightarrow> u16 \<times> battle \<Rightarrow> (u16 \<times> battle) res" where
  "ai_unit sdb = (\<lambda>(c, r) (spell, b).
     bindR (grid_get b c r) (\<lambda>u.
       case u of
         None \<Rightarrow> Inr (spell, b)
       | Some i \<Rightarrow>
           let a = unit_at b i
           in if isType a TYPE_PLAYER \<or> isType a TYPE_PET then Inr (spell, b)
              else if isDead a \<or> isDisabled a then Inr (spell, b)
              else bindR (ai_spell sdb a spell b) (\<lambda>(s, b1).
                   bindR (first_living (by_rows atk_cols) b1) (\<lambda>t.
                     case t of
                       None \<Rightarrow> Inr (s, b1)
                     | Some (c2, r2) \<Rightarrow>
                         bindR (AddBattleAction (BattleAction c r s c2 r2) b1) (\<lambda>b2. Inr (s, b2))))))"

definition AIMove :: "spell_db \<Rightarrow> battle \<Rightarrow> battle res" where
  "AIMove sdb b =
     bindR (foldR (ai_unit sdb) (by_rows def_cols) (SPELL_BASIC, b)) (\<lambda>(s, b'). Inr b')"

subsection \<open>Linking\<close>

definition isLinkable :: "spell_db \<Rightarrow> battle_action \<Rightarrow> bool res" where
  "isLinkable sdb act =
     (if skill act = SPELL_BASIC then Inr True
      else case sdb (skill act) of None \<Rightarrow> Inl NullDeref | Some info \<Rightarrow> Inr (si_Type info > 0))"

text \<open>\<open>compare_agility\<close> sorts in descending order; \<open>std::list::sort\<close> is stable.\<close>

definition sort_agility :: "battle_action list \<Rightarrow> battle_action list" where
  "sort_agility xs = sort_key (\<lambda>a. - sint (agility a)) xs"

definition agility_close :: "int \<Rightarrow> battle_action \<Rightarrow> battle_action \<Rightarrow> bool" where
  "agility_close rate act1 act2 =
     (let agi1 = f32 (of_int (sint (agility act1)));
          agi2 = f32 (of_int (sint (agility act2)));
          rt = f32 (of_int rate)
      in \<not> (f32 (agi1 - rt) > agi2 \<or> f32 (agi1 + rt) < agi2))"

text \<open>The trace line at its head reads the templates of both spells.\<close>

definition CanLink :: "spell_db \<Rightarrow> int \<Rightarrow> battle_action \<Rightarrow> battle_action \<Rightarrow> battle \<Rightarrow> (bool \<times> battle) res" where
  "CanLink sdb rate act1 act2 b =
     (if sdb (skill act1) = None \<or> sdb (skill act2) = None then Inl NullDeref
      else if tgtCol act1 \<noteq> tgtCol act2 \<or> tgtRow act1 \<noteq> tgtRow act2 then Inr (False, b)
      else if atkCol act1 = atkCol act2 \<and> atkRow act1 = atkRow act2 then Inr (False, b)
      else bindR (isLinkable sdb act1) (\<lambda>l1. bindR (isLinkable sdb act2) (\<lambda>l2.
        if \<not> l1 \<or> \<not> l2 then Inr (False, b)
        else case rand32 (b_rand32 b) of
          (r, st) \<Rightarrow>
            let b1 = b\<lparr>b_rand32 := st\<rparr>;
                diff = (if atkCol act1 \<ge> ATTACKER_COL_MIN then b_atkRate b - b_defRate b
                        else b_defRate b - b_atkRate b)
            in if chance_below r (50 - diff) then Inr (False, b1)
               else Inr (agility_close rate act1 act2, b1))))"

subsection \<open>The groups of a turn\<close>

definition push_action :: "nat \<Rightarrow> battle_action \<Rightarrow> battle \<Rightarrow> battle res" where
  "push_action i act b =
     (if i < length (b_Actions b)
      then Inr (b\<lparr>b_Actions := (b_Actions b)[i := b_Actions b ! i @ [act]]\<rparr>) else Inl OutOfBounds)"

text \<open>\<open>if( !m_Actions[i_action].empty() ) i_action++\<close>\<close>

definition next_slot :: "nat \<Rightarrow> battle \<Rightarrow> nat res" where
  "next_slot i b =
     (if i < length (b_Actions b) then Inr (if b_Actions b ! i \<noteq> [] then i + 1 else i) else Inl OutOfBounds)"

fun group_actions ::
  "spell_db \<Rightarrow> int \<Rightarrow> battle_action list \<Rightarrow> battle_action option \<Rightarrow> nat \<Rightarrow> battle \<Rightarrow> battle res" where
  "group_actions sdb rate [] prev i b = Inr b"
| "group_actions sdb rate (act # acts) prev i b =
     (if \<not> SameSide prev act
      then bindR (next_slot i b) (\<lambda>i'. bindR (push_action i' act b) (\<lambda>b'.
             group_actions sdb rate acts (Some act) i' b'))
      else case prev of
        None \<Rightarrow> bindR (push_action i act b) (\<lambda>b'. group_actions sdb rate acts (Some act) i b')
      | Some p \<Rightarrow>
          bindR (CanLink sdb rate p act b) (\<lambda>(link, b1).
            if link
            then bindR (push_action i act b1) (\<lambda>b'. group_actions sdb rate acts (Some act) i b')
            else bindR (next_slot i b1) (\<lambda>i'. bindR (push_action i' act b1) (\<lambda>b'.
                   group_actions sdb rate acts (Some act) i' b'))))"

definition BuildActions :: "spell_db \<Rightarrow> int \<Rightarrow> battle \<Rightarrow> battle res" where
  "BuildActions sdb rate b =
     (let b1 = b\<lparr>b_wait := False, b_actionTime := 0, b_Actions := map (\<lambda>_. []) (b_Actions b)\<rparr>
      in bindR (AIMove sdb b1) (\<lambda>b2.
           group_actions sdb rate (sort_agility (b_unitTurn b2)) None 0 (b2\<lparr>b_unitTurn := []\<rparr>)))"

subsection \<open>Redirection\<close>

definition NeedRedirectTarget :: "battle_action \<Rightarrow> battle \<Rightarrow> bool res" where
  "NeedRedirectTarget act b =
     bindR (isUnitAvail (tgtCol act) (tgtRow act) False b) (\<lambda>av.
       if \<not> av then Inr True
       else bindR (GetVictim act b) (\<lambda>v.
              case v of None \<Rightarrow> Inl NullDeref | Some i \<Rightarrow> Inr (isDead (unit_at b i))))"

text \<open>The trace lines read the name of the attacker.\<close>

definition RedirectTarget :: "battle_action \<Rightarrow> battle \<Rightarrow> battle_action res" where
  "RedirectTarget act b =
     bindR (GetAttacker act b) (\<lambda>a.
     bindR (first_living (by_rows (if isDefPos (atkCol act) then atk_cols else def_cols)) b) (\<lambda>t.
       if a = None then Inl NullDeref
       else Inr (case t of None \<Rightarrow> act | Some (c, r) \<Rightarrow> act\<lparr>tgtCol := c, tgtRow := r\<rparr>)))"

subsection \<open>What the groups hold\<close>

text \<open>The neighbours of a group were linked: same target, same side, not the same attacker.\<close>

definition linkable_pair :: "battle_action \<Rightarrow> battle_action \<Rightarrow> bool" where
  "linkable_pair p a \<longleftrightarrow> SameSide (Some p) a \<and> tgtCol p = tgtCol a \<and> tgtRow p = tgtRow a \<and>
     (atkCol p, atkRow p) \<noteq> (atkCol a, atkRow a)"

fun group_ok :: "battle_action list \<Rightarrow> bool" where
  "group_ok (p # a # as) \<longleftrightarrow> linkable_pair p a \<and> group_ok (a # as)"
| "group_ok _ \<longleftrightarrow> True"

text \<open>
  While the groups are built: the groups up to the current one hold what was taken from the list,
  in order, the later ones are empty, and the previous action is the end of the current group.
\<close>

definition groups_inv :: "battle_action option \<Rightarrow> nat \<Rightarrow> battle \<Rightarrow> bool" where
  "groups_inv prev i b \<longleftrightarrow> i < length (b_Actions b) \<and>
     (\<forall>j. i < j \<and> j < length (b_Actions b) \<longrightarrow> b_Actions b ! j = []) \<and>
     (\<forall>g \<in> set (b_Actions b). group_ok g) \<and>
     (case prev of None \<Rightarrow> b_Actions b ! i = [] | Some p \<Rightarrow> b_Actions b ! i \<noteq> [] \<and> last (b_Actions b ! i) = p)"

lemma group_ok_snoc: "g \<noteq> [] \<Longrightarrow> group_ok (g @ [a]) \<longleftrightarrow> group_ok g \<and> linkable_pair (last g) a"
  by (induction g rule: group_ok.induct) auto

lemma CanLink_cases:
  assumes "CanLink sdb rate p a b = Inr (l, b')"
  shows "\<exists>st. b' = b\<lparr>b_rand32 := st\<rparr> \<and>
    (l \<longrightarrow> tgtCol p = tgtCol a \<and> tgtRow p = tgtRow a \<and> (atkCol p, atkRow p) \<noteq> (atkCol a, atkRow a))"
proof -
  have same: "\<exists>st. b = b\<lparr>b_rand32 := st\<rparr>"
    by (rule exI [of _ "b_rand32 b"]) simp
  have known: "\<not> (sdb (skill p) = None \<or> sdb (skill a) = None)"
  proof
    assume n: "sdb (skill p) = None \<or> sdb (skill a) = None"
    show False
      using assms unfolding CanLink_def if_P [OF n] by simp
  qed
  note step = assms [unfolded CanLink_def if_not_P [OF known]]
  show ?thesis
  proof (cases "tgtCol p \<noteq> tgtCol a \<or> tgtRow p \<noteq> tgtRow a")
    case True
    with step same show ?thesis by auto
  next
    case tgt: False
    note step2 = step [unfolded if_not_P [OF tgt]]
    show ?thesis
    proof (cases "atkCol p = atkCol a \<and> atkRow p = atkRow a")
      case True
      with step2 same show ?thesis by auto
    next
      case atk: False
      note step3 = step2 [unfolded if_not_P [OF atk]]
      obtain r st where r: "rand32 (b_rand32 b) = (r, st)" by fastforce
      have "b' = b \<or> b' = b\<lparr>b_rand32 := st\<rparr>"
        using step3 unfolding r by (auto simp: bindR_eq_Inr Let_def split: if_splits)
      with tgt atk same show ?thesis by auto
    qed
  qed
qed

lemma concat_update_end:
  assumes "i < length gs" and "\<And>j. i < j \<Longrightarrow> j < length gs \<Longrightarrow> gs ! j = []"
  shows "concat (gs[i := gs ! i @ [a]]) = concat gs @ [a]"
proof -
  have rest: "concat (drop (Suc i) gs) = []"
    using assms(2) by (auto simp: concat_eq_Nil_conv in_set_conv_nth)
  have "gs = take i gs @ gs ! i # drop (Suc i) gs"
    using assms(1) by (rule id_take_nth_drop)
  then have "concat gs = concat (take i gs) @ gs ! i"
    using rest by (metis append_Nil2 concat.simps(2) concat_append)
  moreover have "gs[i := gs ! i @ [a]] = take i gs @ (gs ! i @ [a]) # drop (Suc i) gs"
    using assms(1) by (simp add: upd_conv_take_nth_drop)
  ultimately show ?thesis
    using rest by simp
qed

lemma push_inv:
  assumes "groups_inv prev i b"
    and "j = i \<and> (\<forall>p. prev = Some p \<longrightarrow> linkable_pair p a) \<or> j = Suc i \<and> j < length (b_Actions b)"
  shows "\<exists>b'. push_action j a b = Inr b' \<and> groups_inv (Some a) j b' \<and>
    concat (b_Actions b') = concat (b_Actions b) @ [a] \<and> length (b_Actions b') = length (b_Actions b) \<and>
    b_unitTurn b' = b_unitTurn b"
proof -
  let ?gs = "b_Actions b"
  let ?b = "b\<lparr>b_Actions := ?gs[j := ?gs ! j @ [a]]\<rparr>"
  have j: "j < length ?gs" and later: "\<And>k. j < k \<Longrightarrow> k < length ?gs \<Longrightarrow> ?gs ! k = []"
    using assms by (auto simp: groups_inv_def)
  have ok: "group_ok (?gs ! j @ [a])"
  proof (cases "j = i")
    case True
    then have "?gs ! j \<noteq> [] \<Longrightarrow> group_ok (?gs ! j) \<and> linkable_pair (last (?gs ! j)) a"
      using assms j by (auto simp: groups_inv_def split: option.splits)
    then show ?thesis
      by (cases "?gs ! j = []") (simp_all add: group_ok_snoc)
  next
    case False
    with assms have "?gs ! j = []" by (auto simp: groups_inv_def)
    then show ?thesis by simp
  qed
  have "groups_inv (Some a) j ?b"
    using assms(1) j later ok by (auto simp: groups_inv_def dest!: subsetD [OF set_update_subset_insert])
  moreover have "push_action j a b = Inr ?b"
    using j by (simp add: push_action_def)
  moreover have "concat (b_Actions ?b) = concat ?gs @ [a]"
    using concat_update_end [OF j later] by simp
  ultimately show ?thesis by simp
qed

lemma CanLink_total:
  assumes "sdb (skill p) \<noteq> None" and "sdb (skill a) \<noteq> None"
  shows "\<exists>l b'. CanLink sdb rate p a b = Inr (l, b')"
proof -
  have l: "\<exists>l. isLinkable sdb p = Inr l" "\<exists>l. isLinkable sdb a = Inr l"
    using assms by (auto simp: isLinkable_def)
  obtain r st where "rand32 (b_rand32 b) = (r, st)" by fastforce
  with l assms show ?thesis
    by (auto simp: CanLink_def Let_def simp del: ATTACKER_COL_MIN_def)
qed

lemma groups_inv_rand [simp]: "groups_inv prev i (b\<lparr>b_rand32 := st\<rparr>) = groups_inv prev i b"
  by (cases prev) (simp_all add: groups_inv_def)

lemma group_actions_spec:
  assumes "groups_inv prev i b" and "case prev of None \<Rightarrow> i + length acts \<le> length (b_Actions b) | Some p \<Rightarrow>
      i + length acts < length (b_Actions b) \<and> sdb (skill p) \<noteq> None"
    and "\<forall>a \<in> set acts. sdb (skill a) \<noteq> None"
  shows "\<exists>b'. group_actions sdb rate acts prev i b = Inr b' \<and> concat (b_Actions b') = concat (b_Actions b) @ acts \<and>
    length (b_Actions b') = length (b_Actions b) \<and> (\<forall>g \<in> set (b_Actions b'). group_ok g) \<and>
    b_unitTurn b' = b_unitTurn b"
  using assms
proof (induction acts arbitrary: prev i b)
  case Nil
  then show ?case by (simp add: groups_inv_def)
next
  case (Cons a acts)
  have step: "\<exists>b'. bindR (push_action j a c) (\<lambda>b'. group_actions sdb rate acts (Some a) j b') = Inr b' \<and>
      concat (b_Actions b') = concat (b_Actions b) @ a # acts \<and>
      length (b_Actions b') = length (b_Actions b) \<and> (\<forall>g \<in> set (b_Actions b'). group_ok g) \<and>
      b_unitTurn b' = b_unitTurn b"
    if "c = b\<lparr>b_rand32 := st\<rparr>" and "j + length acts < length (b_Actions b)"
      and "j = i \<and> (\<forall>p. prev = Some p \<longrightarrow> linkable_pair p a) \<or> j = Suc i" for c st j
  proof -
    have "groups_inv prev i c" using that(1) Cons.prems(1) by simp
    moreover have "j = i \<and> (\<forall>p. prev = Some p \<longrightarrow> linkable_pair p a) \<or> j = Suc i \<and> j < length (b_Actions c)"
      using that by auto
    moreover have "b_Actions c = b_Actions b" "b_unitTurn c = b_unitTurn b"
      using that(1) by simp_all
    ultimately obtain c' where c': "push_action j a c = Inr c'" "groups_inv (Some a) j c'"
      "concat (b_Actions c') = concat (b_Actions b) @ [a]" "length (b_Actions c') = length (b_Actions b)"
      "b_unitTurn c' = b_unitTurn b"
      using push_inv [of prev i c j a] by metis
    show ?thesis
      using Cons.IH [OF c'(2)] c' that(2) Cons.prems(3) by auto
  qed
  have self: "b = b\<lparr>b_rand32 := b_rand32 b\<rparr>" by simp
  note step_here = step [OF self]
  show ?case
  proof (cases prev)
    case None
    then have "i + length acts < length (b_Actions b)" using Cons.prems(2) by simp
    then show ?thesis
      using step_here [of i] None by (auto simp: SameSide_def)
  next
    case (Some p)
    then have room: "Suc i + length acts < length (b_Actions b)" and known: "sdb (skill p) \<noteq> None"
      and slot: "i < length (b_Actions b)" "b_Actions b ! i \<noteq> []"
      using Cons.prems(1,2) by (auto simp: groups_inv_def)
    show ?thesis
    proof (cases "SameSide prev a")
      case False
      then show ?thesis
        using step_here [of "Suc i"] room slot by (auto simp: next_slot_def)
    next
      case True
      obtain l c where link: "CanLink sdb rate p a b = Inr (l, c)"
        using CanLink_total [where sdb = sdb and p = p and a = a, OF known] Cons.prems(3) by fastforce
      obtain st where c: "c = b\<lparr>b_rand32 := st\<rparr>" and l: "l \<Longrightarrow> linkable_pair p a"
        using CanLink_cases [OF link] True Some by (auto simp: linkable_pair_def)
      show ?thesis
      proof (cases l)
        case True
        then show ?thesis
          using step [OF c, of i] l link room \<open>SameSide prev a\<close> Some by auto
      next
        case False
        then show ?thesis
          using step [OF c, of "Suc i"] link room slot \<open>SameSide prev a\<close> Some c by (auto simp: next_slot_def)
      qed
    qed
  qed
qed

subsection \<open>The moves of the creatures\<close>

definition same_field :: "battle \<Rightarrow> battle \<Rightarrow> bool" where
  "same_field b b' \<longleftrightarrow> b_grid b' = b_grid b \<and> b_units b' = b_units b \<and> b_Actions b' = b_Actions b"

definition atk_pos :: "battle_action \<Rightarrow> u8 \<times> u8" where
  "atk_pos a = (atkCol a, atkRow a)"

definition living :: "battle \<Rightarrow> u8 \<Rightarrow> u8 \<Rightarrow> bool" where
  "living b c r \<longleftrightarrow> (\<exists>i. standing b c r = Some i \<and> \<not> isDead (unit_at b i))"

text \<open>What an action of a creature must be.\<close>

definition ai_action_ok :: "spell_db \<Rightarrow> battle \<Rightarrow> battle_action \<Rightarrow> bool" where
  "ai_action_ok sdb b a \<longleftrightarrow>
     (\<exists>i. standing b (atkCol a) (atkRow a) = Some i \<and> \<not> isDead (unit_at b i) \<and> \<not> isDisabled (unit_at b i) \<and>
        \<not> isType (unit_at b i) TYPE_PLAYER \<and> \<not> isType (unit_at b i) TYPE_PET) \<and>
     isDefPos (atkCol a) \<and> isAtkPos (tgtCol a) \<and> living b (tgtCol a) (tgtRow a) \<and> sdb (skill a) \<noteq> None"

lemma same_field_standing: "same_field b b' \<Longrightarrow> standing b' c r = standing b c r"
  by (simp add: same_field_def standing_def)

lemma same_field_simps:
  "same_field b (b'\<lparr>b_rand32 := st\<rparr>) = same_field b b'" "same_field b (b'\<lparr>b_holdrand := h\<rparr>) = same_field b b'"
  "same_field b (b'\<lparr>b_unitTurn := t\<rparr>) = same_field b b'" "same_field b b"
  by (simp_all add: same_field_def)

lemma first_living_spec:
  assumes "grid_ok b" and "\<forall>(c, r) \<in> set ps. on_field c r"
  shows "\<exists>t. first_living ps b = Inr t \<and>
    (case t of None \<Rightarrow> \<forall>(c, r) \<in> set ps. \<not> living b c r | Some (c, r) \<Rightarrow> (c, r) \<in> set ps \<and> living b c r)"
  using assms(2)
proof (induction ps)
  case Nil
  then show ?case by simp
next
  case (Cons p ps)
  obtain c r where p: "p = (c, r)" by fastforce
  with Cons.prems have "grid_get b c r = Inr (standing b c r)"
    by (simp add: grid_get_field [OF assms(1)])
  with Cons p show ?case
    by (auto simp: living_def split: option.splits)
qed

lemma spell_by_pos_in: "spell_by_pos sps i p = Some sp \<Longrightarrow> sp \<in> snd ` set sps"
  by (induction sps i p rule: spell_by_pos.induct) (auto split: if_splits)

lemma sint_ucast_u8: "sint (ucast (n::u8) :: i32) = uint n" "0 \<le> uint n" "uint n < 256" for n :: u8
proof -
  show b: "0 \<le> uint n" "uint n < 256"
    using unsigned_less [of n, where ?'a = int] by simp_all
  have "- (2 ^ 31) \<le> uint n"
    by (rule order_trans [OF _ b(1)]) simp
  moreover have "uint n < 2 ^ 31"
    using b(2) by simp
  ultimately have "sint (word_of_int (uint n) :: i32) = uint n"
    by (rule sint_of_int_32)
  then show "sint (ucast n :: i32) = uint n"
    by simp
qed

lemma living_same: "same_field b b' \<Longrightarrow> living b' c r = living b c r"
  by (simp add: living_def same_field_standing) (simp add: same_field_def)

lemma GetRandomSpell_known:
  assumes "book_ok sdb u" and "sdb SPELL_BASIC \<noteq> None"
  shows "\<exists>s h'. GetRandomSpell d u h = Inr (s, h') \<and> sdb s \<noteq> None"
proof -
  let ?n = "of_nat (length (u_spells u)) :: u8"
  have "sint (0 :: i32) \<le> sint (ucast ?n :: i32)" "sint (ucast ?n :: i32) - sint (0 :: i32) < 32768"
    using sint_ucast_u8 [of ?n] by simp_all
  from irand_ok [OF this] obtain r h' where r: "urand 0 (ucast ?n) h = Inr (r, h')"
    unfolding urand_def by blast
  have "sdb (sp_entry sp) \<noteq> None" if "GetSpellByPos p u = Some sp" for p sp
    using spell_by_pos_in [OF that [unfolded GetSpellByPos_def]] assms(1)
    by (auto simp: book_ok_def spell_allowed_def)
  then show ?thesis
    using r assms(2) by (auto simp: GetRandomSpell_def Let_def split: option.splits)
qed

lemma ai_spell_known:
  assumes "book_ok sdb u" and "sdb SPELL_BASIC \<noteq> None" and "sdb s \<noteq> None"
  shows "\<exists>s' b'. ai_spell sdb u s b = Inr (s', b') \<and> sdb s' \<noteq> None \<and> same_field b b' \<and> b_unitTurn b' = b_unitTurn b"
proof -
  obtain r st where r: "rand32 (b_rand32 b) = (r, st)" by fastforce
  obtain s1 h1 where s1: "GetRandomSpell 50 u (b_holdrand b) = Inr (s1, h1)" "sdb s1 \<noteq> None"
    using GetRandomSpell_known [OF assms(1,2)] by blast
  show ?thesis
    using s1 assms(3) by (cases "chance_below r 50") (auto simp: ai_spell_def r Let_def same_field_simps)
qed

lemma ai_unit_spec:
  assumes "grid_ok b" and "\<forall>i. book_ok sdb (unit_at b i)" and "sdb SPELL_BASIC \<noteq> None"
    and "same_field b b1" and "sdb s \<noteq> None" and "isDefPos c" and "r < 5"
  shows "\<exists>s' b2 new. ai_unit sdb (c, r) (s, b1) = Inr (s', b2) \<and> sdb s' \<noteq> None \<and> same_field b b2 \<and>
    b_unitTurn b2 = b_unitTurn b1 @ new \<and> (\<forall>a \<in> set new. ai_action_ok sdb b a) \<and>
    map atk_pos new \<in> {[], [(c, r)]}"
proof -
  have on: "on_field c r"
    using assms(6,7) by (simp add: on_field_def isDefPos_def word_less_nat_alt)
  have ok1: "grid_ok b1" and units: "b_units b1 = b_units b"
    using assms(1,4) by (simp_all add: grid_ok_def same_field_def)
  have get: "grid_get b1 c r = Inr (standing b c r)"
    using grid_get_field [OF ok1 on] same_field_standing [OF assms(4)] by simp
  show ?thesis
  proof (cases "\<exists>i. standing b c r = Some i \<and> \<not> isType (unit_at b i) TYPE_PLAYER \<and> \<not> isType (unit_at b i) TYPE_PET \<and>
      \<not> isDead (unit_at b i) \<and> \<not> isDisabled (unit_at b i)")
    case False
    then have "ai_unit sdb (c, r) (s, b1) = Inr (s, b1)"
      using get units by (auto simp: ai_unit_def Let_def split: option.splits)
    then show ?thesis using assms(4,5) by simp
  next
    case True
    then obtain i where i: "standing b c r = Some i" "\<not> isType (unit_at b i) TYPE_PLAYER" "\<not> isType (unit_at b i) TYPE_PET"
      "\<not> isDead (unit_at b i)" "\<not> isDisabled (unit_at b i)" by blast
    obtain s' b2 where s': "ai_spell sdb (unit_at b i) s b1 = Inr (s', b2)" "sdb s' \<noteq> None" "same_field b1 b2"
      "b_unitTurn b2 = b_unitTurn b1"
      using ai_spell_known [OF assms(2) [rule_format, of i] assms(3,5)] by blast
    have same2: "same_field b b2" and ok2: "grid_ok b2"
      using assms(1,4) s'(3) by (simp_all add: same_field_def grid_ok_def)
    have atk: "\<forall>(c, r) \<in> set (by_rows atk_cols). on_field c r"
      by (auto simp: pos_lists on_field_def)
    obtain t where t: "first_living (by_rows atk_cols) b2 = Inr t"
      "case t of None \<Rightarrow> \<forall>(c, r) \<in> set (by_rows atk_cols). \<not> living b2 c r
       | Some (c, r) \<Rightarrow> (c, r) \<in> set (by_rows atk_cols) \<and> living b2 c r"
      using first_living_spec [OF ok2 atk] by blast
    have run: "ai_unit sdb (c, r) (s, b1) = (case t of None \<Rightarrow> Inr (s', b2)
        | Some (c2, r2) \<Rightarrow> bindR (AddBattleAction (BattleAction c r s' c2 r2) b2) (\<lambda>b2. Inr (s', b2)))"
      using get i s'(1) t(1) units by (simp add: ai_unit_def Let_def)
    show ?thesis
    proof (cases t)
      case None
      then show ?thesis using run s' same2 by simp
    next
      case (Some p)
      obtain c2 r2 where p: "p = (c2, r2)" by fastforce
      have "GetAttacker (BattleAction c r s' c2 r2) b2 = Inr (Some i)"
        using GetBattleUnit_field [OF ok2 on] same_field_standing [OF same2, of c r] i(1)
        by (simp add: GetAttacker_def BattleAction_def)
      moreover have "ai_action_ok sdb b (BattleAction c r s' c2 r2\<lparr>agility := g\<rparr>)" for g
      proof -
        have "isAtkPos c2" "living b c2 r2"
          using t(2) Some p living_same [OF same2] by (auto simp: pos_lists isAtkPos_def isDefPos_def not_less)
        then show ?thesis
          using i s'(2) assms(6) by (simp add: ai_action_ok_def BattleAction_def)
      qed
      ultimately show ?thesis
        using run Some p s' same2
        by (auto simp: AddBattleAction_def same_field_simps BattleAction_def atk_pos_def)
    qed
  qed
qed

lemma ai_units_spec:
  assumes "grid_ok b" and "\<forall>i. book_ok sdb (unit_at b i)" and "sdb SPELL_BASIC \<noteq> None"
  shows "same_field b b1 \<Longrightarrow> sdb s \<noteq> None \<Longrightarrow> \<forall>(c, r) \<in> set ps. isDefPos c \<and> r < 5 \<Longrightarrow> distinct ps \<Longrightarrow>
    \<exists>s' b2 new. foldR (ai_unit sdb) ps (s, b1) = Inr (s', b2) \<and> same_field b b2 \<and>
      b_unitTurn b2 = b_unitTurn b1 @ new \<and> (\<forall>a \<in> set new. ai_action_ok sdb b a) \<and>
      distinct (map atk_pos new) \<and> atk_pos ` set new \<subseteq> set ps"
proof (induction ps arbitrary: s b1)
  case Nil
  then show ?case by simp
next
  case (Cons p ps)
  obtain c r where p: "p = (c, r)" by fastforce
  with Cons.prems have cr: "isDefPos c" "r < 5" by auto
  obtain s' b2 new where one: "ai_unit sdb (c, r) (s, b1) = Inr (s', b2)" "sdb s' \<noteq> None" "same_field b b2"
    "b_unitTurn b2 = b_unitTurn b1 @ new" "\<forall>a \<in> set new. ai_action_ok sdb b a"
    "map atk_pos new \<in> {[], [(c, r)]}"
    using ai_unit_spec [OF assms Cons.prems(1,2) cr] by (elim exE conjE) (rule that)
  have rest: "\<forall>(c, r) \<in> set ps. isDefPos c \<and> r < 5" "distinct ps" "p \<notin> set ps"
    using Cons.prems by auto
  obtain s3 b3 new' where more: "foldR (ai_unit sdb) ps (s', b2) = Inr (s3, b3)" "same_field b b3"
    "b_unitTurn b3 = b_unitTurn b2 @ new'" "\<forall>a \<in> set new'. ai_action_ok sdb b a"
    "distinct (map atk_pos new')" "atk_pos ` set new' \<subseteq> set ps"
    using Cons.IH [OF one(3,2) rest(1,2)] by blast
  have "distinct (map atk_pos (new @ new'))"
    "atk_pos ` set (new @ new') \<subseteq> set (p # ps)"
    using one(6) more(5,6) rest(3) p by auto
  then show ?case
    using one more p by (intro exI [of _ s3] exI [of _ b3] exI [of _ "new @ new'"]) auto
qed

lemma AIMove_ok:
  assumes "grid_ok b" and "\<forall>i. book_ok sdb (unit_at b i)" and "sdb SPELL_BASIC \<noteq> None"
  shows "\<exists>b' new. AIMove sdb b = Inr b' \<and> same_field b b' \<and> b_unitTurn b' = b_unitTurn b @ new \<and>
    (\<forall>a \<in> set new. ai_action_ok sdb b a) \<and> distinct (map atk_pos new) \<and> length new \<le> 10"
proof -
  have ps: "\<forall>(c, r) \<in> set (by_rows def_cols). isDefPos c \<and> r < 5" "distinct (by_rows def_cols)"
    by (auto simp: pos_lists isDefPos_def) (simp add: by_rows_def rows_def def_cols_def)
  obtain s' b2 new where n: "foldR (ai_unit sdb) (by_rows def_cols) (SPELL_BASIC, b) = Inr (s', b2)" "same_field b b2"
    "b_unitTurn b2 = b_unitTurn b @ new" "\<forall>a \<in> set new. ai_action_ok sdb b a"
    "distinct (map atk_pos new)"
    "atk_pos ` set new \<subseteq> set (by_rows def_cols)"
    using ai_units_spec [OF assms same_field_simps(4) assms(3) ps] by blast
  have "length new = card (atk_pos ` set new)"
    using distinct_card [OF n(5)] by simp
  also have "\<dots> \<le> card (set (by_rows def_cols))"
    using n(6) by (rule card_mono [rotated]) simp
  also have "\<dots> \<le> length (by_rows def_cols)" by (rule card_length)
  finally have "length new \<le> 10"
    by (simp add: by_rows_def rows_def def_cols_def)
  then show ?thesis
    using n by (auto simp: AIMove_def)
qed

text \<open>The creatures move without fault: each living, not disabled creature among the defenders acts at most
  once, on a living unit of the attackers and with a spell that exists; nothing but the list of the turn
  and the random generators changes.\<close>

theorem AIMove_spec:
  assumes "grid_ok b" and "\<forall>i. book_ok sdb (b_units b i)" and "sdb SPELL_BASIC \<noteq> None"
  shows "\<exists>b' new. AIMove sdb b = Inr b' \<and> same_field b b' \<and> b_unitTurn b' = b_unitTurn b @ new \<and>
    (\<forall>a \<in> set new. ai_action_ok sdb b a) \<and> distinct (map atk_pos new) \<and> length new \<le> 10"
  using AIMove_ok [OF assms] .

lemma sample_books: "\<forall>i. book_ok (\<lambda>_. sample_sdb 12001) (b_units sample_battle i)"
  by (simp add: book_ok_def sample_battle_def empty_battle_def sample_unit_def)

theorem AIMove_spec_witness:
  "\<exists>b' new. AIMove (\<lambda>_. sample_sdb 12001) sample_battle = Inr b' \<and> b_unitTurn b' = new \<and> length new \<le> 10"
proof -
  have "sample_sdb 12001 \<noteq> None" "b_unitTurn sample_battle = []"
    by (simp_all add: sample_sdb_def sample_battle_def empty_battle_def)
  then show ?thesis
    using AIMove_spec [OF sample_grid_ok sample_books] by auto
qed

text \<open>C16: the groups of a turn hold every action of the players and the creatures exactly once, by descending
  agility, and none is lost or shared: their concatenation is the sorted list. Two neighbours in a group
  have the same side and target and different attackers. With at most ten waiting actions the 20
  entries are enough.\<close>

theorem BuildActions_groups:
  assumes "grid_ok b" and "\<forall>i. book_ok sdb (b_units b i)" and "sdb SPELL_BASIC \<noteq> None"
    and "length (b_Actions b) = 20" and "length (b_unitTurn b) \<le> 10"
    and "\<forall>a \<in> set (b_unitTurn b). sdb (skill a) \<noteq> None"
  shows "\<exists>b' new. BuildActions sdb rate b = Inr b' \<and> b_unitTurn b' = [] \<and> length (b_Actions b') = 20 \<and>
    concat (b_Actions b') = sort_agility (b_unitTurn b @ new) \<and> (\<forall>a \<in> set new. ai_action_ok sdb b a) \<and>
    mset (concat (b_Actions b')) = mset (b_unitTurn b) + mset new \<and>
    sorted (map (\<lambda>a. - sint (agility a)) (concat (b_Actions b'))) \<and> (\<forall>g \<in> set (b_Actions b'). group_ok g)"
proof -
  define b1 where "b1 = b\<lparr>b_wait := False, b_actionTime := 0, b_Actions := map (\<lambda>_. []) (b_Actions b)\<rparr>"
  have b1: "grid_ok b1" "\<forall>i. book_ok sdb (unit_at b1 i)" "b_unitTurn b1 = b_unitTurn b"
    "b_Actions b1 = replicate 20 []"
    using assms(1,2,4) by (simp_all add: b1_def grid_ok_def map_replicate_const)
  obtain b2 new where ai: "AIMove sdb b1 = Inr b2" "same_field b1 b2" "b_unitTurn b2 = b_unitTurn b @ new"
    "\<forall>a \<in> set new. ai_action_ok sdb b1 a" "length new \<le> 10"
    using AIMove_ok [OF b1(1,2) assms(3)] b1(3) by auto
  let ?sorted = "sort_agility (b_unitTurn b @ new)" and ?b3 = "b2\<lparr>b_unitTurn := []\<rparr>"
  have "b_Actions ?b3 = replicate 20 []"
    using ai(2) b1(4) by (simp add: same_field_def)
  moreover from this have "groups_inv None 0 ?b3"
    by (simp add: groups_inv_def)
  moreover have "length ?sorted \<le> 20"
    using ai(5) assms(5) by (simp add: sort_agility_def)
  moreover have "\<forall>a \<in> set ?sorted. sdb (skill a) \<noteq> None"
    using ai(4) assms(6) by (auto simp: sort_agility_def ai_action_ok_def)
  ultimately obtain b' where "group_actions sdb rate ?sorted None 0 ?b3 = Inr b'"
    "concat (b_Actions b') = ?sorted" "length (b_Actions b') = 20" "\<forall>g \<in> set (b_Actions b'). group_ok g"
    "b_unitTurn b' = []"
    using group_actions_spec [of None 0 ?b3 ?sorted sdb rate] by auto
  moreover have "ai_action_ok sdb b1 a = ai_action_ok sdb b a" for a
    by (simp add: ai_action_ok_def living_def standing_def b1_def)
  moreover have "BuildActions sdb rate b = group_actions sdb rate ?sorted None 0 ?b3"
    using ai(1,3) by (simp add: BuildActions_def b1_def Let_def)
  ultimately show ?thesis
    using ai(4) by (intro exI [of _ b'] exI [of _ new]) (simp add: sort_agility_def)
qed

theorem BuildActions_groups_witness:
  "\<exists>b' new. BuildActions (\<lambda>_. sample_sdb 12001) 5 sample_battle = Inr b' \<and>
    concat (b_Actions b') = sort_agility new"
proof -
  have h: "sample_sdb 12001 \<noteq> None" "length (b_Actions sample_battle) = 20" "length (b_unitTurn sample_battle) \<le> 10"
    "\<forall>a \<in> set (b_unitTurn sample_battle). sample_sdb 12001 \<noteq> None" "b_unitTurn sample_battle = []"
    by (simp_all add: sample_sdb_def sample_battle_def empty_battle_def)
  show ?thesis
    using BuildActions_groups [OF sample_grid_ok sample_books h(1-4), of 5] unfolding h(5) by auto
qed

text \<open>An action whose target is gone is turned to the first living unit of the other side, row by row, and kept
  as it is if there is none; but if its attacker has left the field the redirection dereferences a null
  pointer.\<close>

theorem RedirectTarget_spec:
  assumes "grid_ok b" and "on_field (atkCol act) (atkRow act)"
  shows "(standing b (atkCol act) (atkRow act) = None \<longrightarrow> RedirectTarget act b = Inl NullDeref) \<and>
    (standing b (atkCol act) (atkRow act) \<noteq> None \<longrightarrow>
      (\<exists>act'. RedirectTarget act b = Inr act' \<and> atk_pos act' = atk_pos act \<and> skill act' = skill act \<and>
        (if \<exists>c r. living b c r \<and> isDefPos c \<noteq> isDefPos (atkCol act)
         then living b (tgtCol act') (tgtRow act') \<and> isDefPos (tgtCol act') \<noteq> isDefPos (atkCol act)
         else act' = act)))"
proof -
  let ?ps = "by_rows (if isDefPos (atkCol act) then atk_cols else def_cols)"
  have ps: "(c, r) \<in> set ?ps \<longleftrightarrow> on_field c r \<and> isDefPos c \<noteq> isDefPos (atkCol act)" for c r
  proof -
    have "c < 4" if "c < 2" using that by (rule less_trans) simp
    then show ?thesis by (auto simp: pos_lists isDefPos_def on_field_def not_less)
  qed
  then have "\<forall>(c, r) \<in> set ?ps. on_field c r" by auto
  from first_living_spec [OF assms(1) this] obtain t where t: "first_living ?ps b = Inr t"
    "case t of None \<Rightarrow> \<forall>(c, r) \<in> set ?ps. \<not> living b c r | Some (c, r) \<Rightarrow> (c, r) \<in> set ?ps \<and> living b c r"
    by blast
  have atk: "GetAttacker act b = Inr (standing b (atkCol act) (atkRow act))"
    using GetBattleUnit_field [OF assms] by (simp add: GetAttacker_def)
  have field: "on_field c r" if "living b c r" for c r
    using that by (auto simp: living_def standing_def split: if_splits)
  show ?thesis
  proof (cases t)
    case None
    with t(2) ps field have none: "\<not> (living b c r \<and> isDefPos c \<noteq> isDefPos (atkCol act))" for c r
      by fastforce
    show ?thesis
      using None t(1) atk none by (auto simp: RedirectTarget_def)
  next
    case (Some p)
    obtain c r where p: "p = (c, r)" by fastforce
    with Some t(2) have cr: "(c, r) \<in> set ?ps" "living b c r" by auto
    show ?thesis
      using Some p t(1) atk cr ps [of c r] by (auto simp: RedirectTarget_def atk_pos_def)
  qed
qed

theorem RedirectTarget_spec_witness:
  "\<exists>act'. RedirectTarget (BattleAction 0 0 10000 3 4) sample_battle = Inr act' \<and>
    living sample_battle (tgtCol act') (tgtRow act')"
proof -
  let ?a = "BattleAction 0 0 10000 3 4"
  have on: "on_field (atkCol ?a) (atkRow ?a)"
    by (simp add: BattleAction_def on_field_def)
  have here: "standing sample_battle (atkCol ?a) (atkRow ?a) \<noteq> None" "living sample_battle 2 0"
    "isDefPos 2 \<noteq> isDefPos (atkCol ?a)"
    by (simp_all add: standing_def on_field_def cell_def sample_battle_def empty_battle_def living_def sample_unit_def
        isDead_def isDefPos_def BattleAction_def)
  then have enemy: "\<exists>c r. living sample_battle c r \<and> isDefPos c \<noteq> isDefPos (atkCol ?a)"
    by blast
  show ?thesis
    using RedirectTarget_spec [OF sample_grid_ok on] here(1) unfolding if_P [OF enemy] by blast
qed

end
