(* ===== verification/Arena.thy ===== *)
theory Arena
  imports ItemHandler Saving Damage BattleActions Team
begin

text \<open>
  A battle with its players (\<open>src/game/BattleSystem.cpp\<close>, \<open>src/game/Player.h\<close>). The units on the field live in the
  heap of the battle, the players with their pets, items and messages beside it: a player and each of its
  pets that was on a field has a number there, and an operation of a player is run on the player with the
  units of the battle put into it, and its units are put back afterwards, since they are the same objects.
  A unit that is used as a player and is none is a fault.
\<close>

text \<open>
  What the server configures and what it reads from its databases: spell, item and creature templates,
  the query of item models, the creature a guid of the
  database stands for and the guids of its team, the rates as \<open>float\<close>s.
  \<open>sort_drops\<close> is \<open>std::list::sort\<close> with \<open>compare_position\<close>, which is no order.
\<close>

record rules =
  cf_sdb :: spell_db
  cf_idb :: item_db
  cf_cdb :: creature_db
  cf_query :: "u32 \<Rightarrow> u32 option"
  cf_spawn :: "u32 \<Rightarrow> unit_rec option"
  cf_enemies :: "u32 \<Rightarrow> (u8 \<times> u8 \<Rightarrow> u32) option"
  cf_agility :: int
  cf_kill_rate :: rat
  cf_hit_xp :: u32
  cf_lost_rate :: i32
  cf_drop_rate :: rat
  cf_sort_drops :: "item_dropped list \<Rightarrow> item_dropped list"

record arena =
  ar_b :: battle
  ar_hero :: "uid \<Rightarrow> hero option"
  ar_pets :: "(uid \<times> petid \<times> uid) list"
  ar_next :: uid
  ar_engine :: "uid \<Rightarrow> bool"
  ar_guid :: "u64 \<Rightarrow> uid option"
  ar_members :: "uid \<Rightarrow> uid list"
  ar_leader :: "uid \<Rightarrow> u32"
  ar_cache :: item_cache
  ar_petLow :: u32

abbreviation unit_of :: "arena \<Rightarrow> uid \<Rightarrow> unit_rec" where
  "unit_of a i \<equiv> b_units (ar_b a) i"

definition on_battle :: "(battle \<Rightarrow> battle) \<Rightarrow> arena \<Rightarrow> arena" where
  "on_battle f a = a\<lparr>ar_b := f (ar_b a)\<rparr>"

definition on_unit :: "uid \<Rightarrow> (unit_rec \<Rightarrow> unit_rec) \<Rightarrow> arena \<Rightarrow> arena" where
  "on_unit i f = on_battle (upd_unit i f)"

subsection \<open>Players and their pets as units\<close>

definition pet_uid :: "uid \<Rightarrow> petid \<Rightarrow> arena \<Rightarrow> uid option" where
  "pet_uid p x a = map_option (\<lambda>e. snd (snd e)) (find (\<lambda>(o1, y, _). o1 = p \<and> y = x) (ar_pets a))"

definition pet_of :: "uid \<Rightarrow> arena \<Rightarrow> (uid \<times> petid) option" where
  "pet_of u a = map_option (\<lambda>(o1, x, _). (o1, x)) (find (\<lambda>(_, _, v). v = u) (ar_pets a))"

definition pull :: "uid \<Rightarrow> arena \<Rightarrow> hero \<Rightarrow> hero" where
  "pull p a h =
     h\<lparr>h_unit := unit_of a p,
       h_petHeap := (\<lambda>x. case h_petHeap h x of
                            None \<Rightarrow> None
                          | Some r \<Rightarrow> (case pet_uid p x a of None \<Rightarrow> Some r | Some u \<Rightarrow> Some (r\<lparr>pt_unit := unit_of a u\<rparr>)))\<rparr>"

definition pushed :: "uid \<Rightarrow> hero \<Rightarrow> arena \<Rightarrow> uid \<Rightarrow> unit_rec" where
  "pushed p h a u =
     (if u = p then h_unit h
      else case pet_of u a of
             None \<Rightarrow> unit_of a u
           | Some (o1, x) \<Rightarrow>
               if o1 = p then (case h_petHeap h x of None \<Rightarrow> unit_of a u | Some r \<Rightarrow> pt_unit r) else unit_of a u)"

definition push :: "uid \<Rightarrow> hero \<Rightarrow> arena \<Rightarrow> arena" where
  "push p h a = a\<lparr>ar_b := (ar_b a)\<lparr>b_units := pushed p h a\<rparr>, ar_hero := (ar_hero a)(p \<mapsto> h)\<rparr>"

definition get_hero :: "uid \<Rightarrow> arena \<Rightarrow> hero res" where
  "get_hero p a = (case ar_hero a p of None \<Rightarrow> Inl NullDeref | Some h \<Rightarrow> Inr (pull p a h))"

definition run_hero :: "uid \<Rightarrow> (hero \<Rightarrow> ('r \<times> hero) res) \<Rightarrow> arena \<Rightarrow> ('r \<times> arena) res" where
  "run_hero p f a = bindR (get_hero p a) (\<lambda>h. bindR (f h) (\<lambda>(r, h'). Inr (r, push p h' a)))"

definition with_hero :: "uid \<Rightarrow> (hero \<Rightarrow> hero res) \<Rightarrow> arena \<Rightarrow> arena res" where
  "with_hero p f a = bindR (run_hero p (\<lambda>h. bindR (f h) (\<lambda>h'. Inr ((), h'))) a) (\<lambda>(_, a'). Inr a')"

text \<open>\<open>Unit::GetOwner\<close>: the player in the world whose guid the owner field holds.\<close>

definition owner_of :: "uid \<Rightarrow> arena \<Rightarrow> uid option" where
  "owner_of u a =
     (let g = uget64 UNIT_FIELD_SUMMONEDBY (unit_of a u) in if g = 0 then None else ar_guid a g)"

text \<open>The battle pet of a player as a unit; a pet that was on no field yet gets a number.\<close>

definition pet_unit :: "uid \<Rightarrow> petid \<Rightarrow> arena \<Rightarrow> (uid \<times> arena) res" where
  "pet_unit p x a =
     (case pet_uid p x a of
        Some u \<Rightarrow> Inr (u, a)
      | None \<Rightarrow>
          bindR (get_hero p a) (\<lambda>h. bindR (get_pet x h) (\<lambda>r.
            let u = ar_next a
            in Inr (u, on_unit u (\<lambda>_. pt_unit r) (a\<lparr>ar_next := u + 1, ar_pets := ar_pets a @ [(p, x, u)]\<rparr>)))))"

definition battle_pet :: "uid \<Rightarrow> arena \<Rightarrow> (uid option \<times> arena) res" where
  "battle_pet p a =
     bindR (get_hero p a) (\<lambda>h.
       case h_battlePet h of
         None \<Rightarrow> Inr (None, a)
       | Some x \<Rightarrow> bindR (pet_unit p x a) (\<lambda>(u, a'). Inr (Some u, a')))"

text \<open>\<open>((Pet*) unit)->SetState(PET_CHANGED)\<close>\<close>

definition pet_changed :: "uid \<Rightarrow> arena \<Rightarrow> arena res" where
  "pet_changed u a =
     (case pet_of u a of
        None \<Rightarrow> Inr (on_unit u pet_SetState_changed a)
      | Some (p, x) \<Rightarrow>
          if ar_hero a p = None then Inr (on_unit u pet_SetState_changed a)
          else with_hero p (pet_SetState x PET_CHANGED) a)"

subsection \<open>The team around a player\<close>

text \<open>\<open>GetTeamGuid\<close> and \<open>BuildUpdateBlockTeam\<close> (see the theory \<open>Team\<close>) for the players of a battle.\<close>

definition team_guid :: "uid \<Rightarrow> nat \<Rightarrow> arena \<Rightarrow> u32 res" where
  "team_guid p index a =
     (if index = 0 \<or> length (ar_members a p) < index then Inr 0
      else case ar_hero a (ar_members a p ! (index - 1)) of
             None \<Rightarrow> Inl UseAfterFree
           | Some h \<Rightarrow> Inr (GUID_LOPART (inv_guid (h_inv h))))"

fun team_accounts :: "uid list \<Rightarrow> arena \<Rightarrow> field list res" where
  "team_accounts [] a = Inr []"
| "team_accounts (m # ms) a =
     (case ar_hero a m of
        None \<Rightarrow> Inl UseAfterFree
      | Some h \<Rightarrow> bindR (team_accounts ms a) (\<lambda>fs. Inr (FU32 (h_account h) # fs)))"

fun carried_blocks :: "nat list \<Rightarrow> hero \<Rightarrow> field list res" where
  "carried_blocks [] h = Inr []"
| "carried_blocks (k # ks) h =
     bindR (GetPet k h) (\<lambda>pp.
       case pp of
         None \<Rightarrow> carried_blocks ks h
       | Some x \<Rightarrow> bindR (get_pet x h) (\<lambda>r. bindR (carried_blocks ks h) (\<lambda>fs. Inr (pet_block k (pet_model r) @ fs))))"

definition team_block :: "uid \<Rightarrow> arena \<Rightarrow> hero \<Rightarrow> (u8 \<times> field list) option res" where
  "team_block p a h =
     (if ar_members a p = []
      then if ar_leader a p \<noteq> 0 then Inr None
           else bindR (carried_blocks [0..<MAX_PET_SLOT] h) (\<lambda>fs.
                  Inr (if fs = [] then None else Some (0x0F, [FU8 7, FU32 (h_account h)] @ fs)))
      else bindR (team_accounts (ar_members a p) a) (\<lambda>fs.
             Inr (Some (0x0D, [FU8 6, FU32 (h_account h), FU8 (of_nat (length (ar_members a p)))] @ fs))))"

subsection \<open>Messages of the battle\<close>

definition has_session :: "arena \<Rightarrow> uid \<Rightarrow> bool" where
  "has_session a p = (case ar_hero a p of None \<Rightarrow> False | Some h \<Rightarrow> h_session h)"

definition record_msg :: "uid list \<Rightarrow> u8 \<Rightarrow> field list \<Rightarrow> arena \<Rightarrow> arena" where
  "record_msg ps opcode fs = on_battle (\<lambda>b. b\<lparr>b_out := b_out b @ [(ps, opcode, fs)]\<rparr>)"

text \<open>\<open>BattleSystem::SendMessageToSet\<close>: a player of the list that was deleted is still asked for its session.\<close>

definition to_set :: "u8 \<Rightarrow> field list \<Rightarrow> arena \<Rightarrow> arena res" where
  "to_set opcode fs a =
     (if \<exists>p \<in> set (b_players (ar_b a)). ar_hero a p = None then Inl UseAfterFree
      else Inr (record_msg (filter (has_session a) (b_players (ar_b a))) opcode fs a))"

definition to_player :: "uid option \<Rightarrow> u8 \<Rightarrow> field list \<Rightarrow> arena \<Rightarrow> arena res" where
  "to_player who opcode fs a =
     (case who of
        None \<Rightarrow> Inr a
      | Some p \<Rightarrow>
          (case ar_hero a p of
             None \<Rightarrow> Inl NullDeref
           | Some h \<Rightarrow> Inr (if h_session h then record_msg [p] opcode fs a else a)))"

text \<open>\<open>SendMessageToAttacker\<close> and \<open>SendMessageToDefender\<close>: the players of one column.\<close>

definition to_cell :: "u8 \<Rightarrow> u8 \<Rightarrow> field list \<Rightarrow> u8 \<Rightarrow> arena \<Rightarrow> arena res" where
  "to_cell col opcode fs row a =
     bindR (grid_get (ar_b a) col row) (\<lambda>u.
       case u of
         None \<Rightarrow> Inr a
       | Some i \<Rightarrow> if isType (unit_of a i) TYPE_PLAYER then to_player (Some i) opcode fs a else Inr a)"

definition to_column :: "u8 \<Rightarrow> u8 \<Rightarrow> field list \<Rightarrow> arena \<Rightarrow> arena res" where
  "to_column col opcode fs = foldR (to_cell col opcode fs) rows"

end
