(* ===== verification/BattleRewards.thy ===== *)
theory BattleRewards
  imports Arena
begin

text \<open>
  What a battle gives (\<open>src/game/BattleSystem.cpp\<close>, \<open>src/game/Unit.cpp\<close>): experience for kills and hits, the
  items creatures drop and their delivery, and what a player gets when the battle is over.
\<close>

text \<open>\<open>rand_chance() > k\<close> for a whole number, and the chance as the \<open>double\<close> it is.\<close>

definition chance_above :: "int \<Rightarrow> int \<Rightarrow> bool" where
  "chance_above r k \<longleftrightarrow> k * (RAND32_MAX + 1) < r * 100"

definition chance_of :: "int \<Rightarrow> rat" where
  "chance_of r = f64 (of_int r / f64 (of_int (RAND32_MAX + 1) / 100))"

definition draw :: "arena \<Rightarrow> int \<times> arena" where
  "draw a = (case rand32 (b_rand32 (ar_b a)) of (r, st) \<Rightarrow> (r, on_battle (\<lambda>b. b\<lparr>b_rand32 := st\<rparr>) a))"

text \<open>\<open>round\<close> rounds halves away from zero.\<close>

definition round_away :: "rat \<Rightarrow> int" where
  "round_away x = (if x < 0 then - \<lfloor>- x + 1 / 2\<rfloor> else \<lfloor>x + 1 / 2\<rfloor>)"

definition to_uint32 :: "rat \<Rightarrow> u32 res" where
  "to_uint32 x = (if 0 \<le> trunc x \<and> trunc x < 2 ^ 32 then Inr (word_of_int (trunc x)) else Inl UndefConv)"

subsection \<open>Experience\<close>

definition SPELL_TEACHING :: u16 where [simp]: "SPELL_TEACHING = 14027"
definition SPELL_UNITED :: u16 where [simp]: "SPELL_UNITED = 14028"

definition kill_xp :: "bool \<Rightarrow> u8 \<Rightarrow> u8 \<Rightarrow> rat" where
  "kill_xp linked level enemyLevel =
     (let diff = uint enemyLevel - uint level;
          d = (if diff > 0 then diff else 2)
      in if uint level - uint enemyLevel > 15 then 0
         else if linked then f32 (f64 (of_int d + f64 (of_int d * c01)))
         else f32 (of_int d))"

definition team_xp :: "bool \<Rightarrow> u8 \<Rightarrow> u8 \<Rightarrow> u8 \<Rightarrow> unit_rec \<Rightarrow> rat \<Rightarrow> rat" where
  "team_xp inTeam lowest lowerCount level u xp =
     (if HaveSpell SPELL_UNITED u \<and> isType u TYPE_PLAYER \<and> inTeam
      then let xp1 = f32 (f64 (xp + f64 (xp * c01)));
               diff = (word_of_int \<bar>uint level - uint lowest\<bar> :: u8)
           in if HaveSpell SPELL_TEACHING u \<and> diff > 10
              then f32 (f64 (xp1 + f64 (f64 (of_int (uint diff) * (3 / 4)) * of_int (uint lowerCount))))
              else xp1
      else xp)"

definition AddKillExp :: "rules \<Rightarrow> u8 \<Rightarrow> bool \<Rightarrow> bool \<Rightarrow> u8 \<Rightarrow> u8 \<Rightarrow> unit_rec \<Rightarrow> unit_rec res" where
  "AddKillExp cf enemyLevel linked inTeam lowest lowerCount u =
     (let level = (ucast (uget u UNIT_FIELD_LEVEL) :: u8)
      in if level \<ge> 200 then Inr u
         else let xp = team_xp inTeam lowest lowerCount level u (kill_xp linked level enemyLevel)
              in bindR (to_uint32 (of_int (round_away (f32 (xp * cf_kill_rate cf))))) (\<lambda>gained.
                   Inr (AddExpGained_acc (cf_lost_rate cf) gained u)))"

definition fights_for_players :: "unit_rec \<Rightarrow> bool" where
  "fights_for_players u \<longleftrightarrow> isType u TYPE_PLAYER \<or> isType u TYPE_PET"

definition AddKillExpGained :: "rules \<Rightarrow> uid \<Rightarrow> uid \<Rightarrow> bool \<Rightarrow> arena \<Rightarrow> arena res" where
  "AddKillExpGained cf killer victim linked a =
     (if fights_for_players (unit_of a victim) \<or> \<not> fights_for_players (unit_of a killer) then Inr a
      else bindR (AddKillExp cf (ucast (getLevel (unit_of a victim))) linked False 0 0 (unit_of a killer)) (\<lambda>u.
           let a1 = on_unit killer (\<lambda>_. u) a
           in if isType u TYPE_PET then pet_changed killer a1 else Inr a1))"

definition AddHitExpGained :: "rules \<Rightarrow> uid \<Rightarrow> uid \<Rightarrow> bool \<Rightarrow> arena \<Rightarrow> arena res" where
  "AddHitExpGained cf hitter victim linked a =
     (if fights_for_players (unit_of a victim) \<or> \<not> fights_for_players (unit_of a hitter) then Inr a
      else let a1 = on_unit hitter (AddHitExp (cf_hit_xp cf) (cf_lost_rate cf) (ucast (getLevel (unit_of a victim))) linked) a
           in if isType (unit_of a hitter) TYPE_PET then pet_changed hitter a1 else Inr a1)"

subsection \<open>Dropped items\<close>

definition CREATURE_DROP_ITEM_MAX :: nat where [simp]: "CREATURE_DROP_ITEM_MAX = 10"

text \<open>The golem, goddess, phoenix and dragon of the elements.\<close>

definition herald_of :: "u32 \<Rightarrow> u16 option" where
  "herald_of el =
     (if el = ELEMENT_EARTH then Some 23086 else if el = ELEMENT_WATER then Some 23087
      else if el = ELEMENT_FIRE then Some 23088 else if el = ELEMENT_WIND then Some 23089 else None)"

definition drop_dice :: "rules \<Rightarrow> nat \<Rightarrow> int \<Rightarrow> bool" where
  "drop_dice cf index r \<longleftrightarrow>
     \<not> chance_of r < f64 (of_nat (100 + 5 * index) - f64 (f64 (3333 / 100) * cf_drop_rate cf))"

definition GetItemDropped :: "rules \<Rightarrow> unit_rec \<Rightarrow> nat \<Rightarrow> arena \<Rightarrow> u16 \<times> arena" where
  "GetItemDropped cf u index a =
     (let special = (getLevel u \<ge> 15 \<and> uget u UNIT_FIELD_ELEMENT \<noteq> 0);
          (r, a1) = (if special then draw a else (0, a));
          herald = (if special \<and> chance_of r > f64 (5991 / 100) then herald_of (uget u UNIT_FIELD_ELEMENT) else None)
      in case herald of
           Some item \<Rightarrow> (item, a1)
         | None \<Rightarrow>
             (case cf_cdb cf (uget u OBJECT_FIELD_ENTRY) of
                None \<Rightarrow> (0, a1)
              | Some ci \<Rightarrow>
                  (case draw a1 of
                     (r2, a2) \<Rightarrow>
                       (if \<not> drop_dice cf index r2 then 0
                        else if index < length (ci_drops ci) then ucast (ci_drops ci ! index) else 0, a2))))"

fun first_drop :: "rules \<Rightarrow> unit_rec \<Rightarrow> nat list \<Rightarrow> arena \<Rightarrow> u16 \<times> arena" where
  "first_drop cf u [] a = (0, a)"
| "first_drop cf u (i # is) a =
     (case GetItemDropped cf u i a of (item, a1) \<Rightarrow> if item \<noteq> 0 then (item, a1) else first_drop cf u is a1)"

definition new_item_for :: "rules \<Rightarrow> uid \<Rightarrow> u32 \<Rightarrow> u32 \<Rightarrow> arena \<Rightarrow> (bool \<times> arena) res" where
  "new_item_for cf p modelid n a =
     bindR (run_hero p (\<lambda>h.
       bindR (AddNewInventoryItem (cf_idb cf) (cf_query cf) modelid n (ar_cache a, h_inv h)) (\<lambda>(ok, cache, s).
         Inr ((ok, cache), h\<lparr>h_inv := s\<rparr>))) a) (\<lambda>((ok, cache), a1). Inr (ok, a1\<lparr>ar_cache := cache\<rparr>))"

text \<open>The receiver of a drop: the player itself, or the owner of the pet.\<close>

definition receiver_player :: "uid \<Rightarrow> arena \<Rightarrow> uid option" where
  "receiver_player u a = (if isType (unit_of a u) TYPE_PLAYER then Some u else owner_of u a)"

text \<open>The first item a creature gives up goes to the inventory, and if it fits it is shown later.\<close>

definition give_drop :: "rules \<Rightarrow> battle_action \<Rightarrow> uid \<Rightarrow> uid \<Rightarrow> arena \<Rightarrow> arena res" where
  "give_drop cf act p v a =
     (case first_drop cf (unit_of a v) [0..<CREATURE_DROP_ITEM_MAX] a of
        (item, a1) \<Rightarrow>
          if item = 0 then Inr a1
          else bindR (new_item_for cf p (ucast item) 1 a1) (\<lambda>(ok, a2).
                 Inr (if ok
                      then on_battle (\<lambda>b. b\<lparr>b_items := b_items b @
                             [\<lparr>rcvCol = atkCol act, rcvRow = atkRow act, drop_item = item,
                               ctrCol = tgtCol act, ctrRow = tgtRow act\<rparr>]\<rparr>) a2
                      else a2)))"

definition drop_between :: "rules \<Rightarrow> battle_action \<Rightarrow> uid \<Rightarrow> uid \<Rightarrow> arena \<Rightarrow> arena res" where
  "drop_between cf act u v a =
     (if fights_for_players (unit_of a v) \<or> \<not> fights_for_players (unit_of a u) then Inr a
      else case receiver_player u a of None \<Rightarrow> Inr a | Some p \<Rightarrow> give_drop cf act p v a)"

definition AddKillItemDropped :: "rules \<Rightarrow> battle_action \<Rightarrow> arena \<Rightarrow> arena res" where
  "AddKillItemDropped cf act a0 =
     (case draw a0 of
        (r, a) \<Rightarrow>
          if \<not> drop_dice cf 0 r then Inr a
          else bindR (GetAttacker act (ar_b a)) (\<lambda>rcv. bindR (GetVictim act (ar_b a)) (\<lambda>ctr.
                 case rcv of
                   None \<Rightarrow> Inr a
                 | Some u \<Rightarrow> (case ctr of None \<Rightarrow> Inr a | Some v \<Rightarrow> drop_between cf act u v a))))"

definition SendItemDropped :: "item_dropped \<Rightarrow> arena \<Rightarrow> arena res" where
  "SendItemDropped it a =
     bindR (GetBattleUnit (rcvCol it) (rcvRow it) (ar_b a)) (\<lambda>rcv.
     bindR (GetBattleUnit (ctrCol it) (ctrRow it) (ar_b a)) (\<lambda>_.
       case rcv of
         None \<Rightarrow> Inl NullDeref
       | Some u \<Rightarrow>
           to_player (if isType (unit_of a u) TYPE_PET then owner_of u a else Some u)
             0x17 [FU8 6, FU16 (drop_item it), FU16 1, FU32 0] a))"

text \<open>
  The packet of one contributor collects its receivers. \<open>data\<close> is none before the first \<open>Initialize\<close>; the
  column of the item before the first one is uninitialised and the argument \<open>junk\<close>. Five bytes are the header.
\<close>

definition field_width :: "field \<Rightarrow> nat" where "field_width f = length (field_bytes f)"

definition fields_size :: "field list \<Rightarrow> nat" where
  "fields_size fs = sum_list (map field_width fs)"

definition flush_drops :: "field list option \<times> field list \<Rightarrow> arena \<Rightarrow> arena res" where
  "flush_drops d a =
     (case d of
        (Some start, rest) \<Rightarrow> if 5 + fields_size (start @ rest) > 6 then to_set 0x35 (start @ rest) a else Inr a
      | (None, rest) \<Rightarrow> if fields_size rest > 6 then to_set 0 rest a else Inr a)"

fun give_drops :: "item_dropped list \<Rightarrow> u8 \<times> u8 \<Rightarrow> field list option \<times> field list \<Rightarrow> arena \<Rightarrow> arena res" where
  "give_drops [] prev d a = flush_drops d a"
| "give_drops (it # its) prev d a =
     bindR (SendItemDropped it a) (\<lambda>a1.
       let pos = (ctrCol it, ctrRow it); rcv = [FU8 (rcvCol it), FU8 (rcvRow it)]
       in if pos \<noteq> prev
          then bindR (flush_drops d a1)
                 (give_drops its pos (Some [FU8 4, FU16 (drop_item it), FU8 (ctrCol it), FU8 (ctrRow it)], rcv))
          else give_drops its pos (fst d, snd d @ rcv) a1)"

definition GiveItemDropped :: "rules \<Rightarrow> u8 \<Rightarrow> arena \<Rightarrow> arena res" where
  "GiveItemDropped cf junk a =
     (let its = b_items (ar_b a)
      in if its = [] then Inr a
         else give_drops (cf_sort_drops cf its) (junk, 0) (None, [])
                (on_battle (\<lambda>b. b\<lparr>b_animTimeItem := 3, b_items := []\<rparr>) a))"

subsection \<open>The end of a battle\<close>

definition UPD_FLAG_XP :: u8 where [simp]: "UPD_FLAG_XP = 0x24"
definition UPD_FLAG_LOYALTY :: u8 where [simp]: "UPD_FLAG_LOYALTY = 0x40"

definition upd_loyalty :: "u8 \<Rightarrow> petid \<Rightarrow> hero \<Rightarrow> hero res" where
  "upd_loyalty code x h =
     bindR (get_pet x h) (\<lambda>r. Inr (updatePet (pt_slot r) UPD_FLAG_LOYALTY code (ucast (u_loyalty (pt_unit r))) 0 h))"

definition pet_levelled :: "item_db \<Rightarrow> petid \<Rightarrow> hero \<Rightarrow> hero res" where
  "pet_levelled idb x h =
     bindR (UpdatePetLevel x h) (\<lambda>h1.
     bindR (UpdatePetCarried idb h1) (\<lambda>h2.
     bindR (get_pet x h2) (\<lambda>r.
       upd_loyalty 1 x
         (updatePet (pt_slot r) UPD_FLAG_SPELL_POINT 1 (uget (pt_unit r) UNIT_FIELD_SPELL_POINT) 0 h2))))"

definition give_pet_exp :: "rules \<Rightarrow> petid \<Rightarrow> hero \<times> int \<Rightarrow> (hero \<times> int) res" where
  "give_pet_exp cf x = (\<lambda>(h, st).
     bindR (get_pet x h) (\<lambda>r.
       let u = pt_unit r; u0 = (if isDead u then AddExpGained_acc (cf_lost_rate cf) 0 u else u)
       in bindR (AddExpGained (cf_sdb cf) (u0, st)) (\<lambda>(u1, st1).
            let h1 = updatePet (pt_slot r) UPD_FLAG_XP 1 (GetExpGained u1) 0 (put_pet x (r\<lparr>pt_unit := u1\<rparr>) h)
            in bindR (if u_levelUp u1 then pet_levelled (cf_idb cf) x h1 else Inr h1) (\<lambda>h2.
               bindR (if isDead u1
                      then bindR (upd_pet x (\<lambda>r. r\<lparr>pt_unit := (pt_unit r)\<lparr>u_loyalty := u_loyalty (pt_unit r) - 1\<rparr>\<rparr>) h2) (upd_loyalty 2 x)
                      else Inr h2) (\<lambda>h3. Inr (h3, st1))))))"

definition give_exp :: "rules \<Rightarrow> hero \<times> int \<Rightarrow> (hero \<times> int) res" where
  "give_exp cf = (\<lambda>(h, st).
     let u0 = (if isDead (h_unit h) then AddExpGained_acc (cf_lost_rate cf) (- 1) (h_unit h) else h_unit h)
     in bindR (AddExpGained (cf_sdb cf) (u0, st)) (\<lambda>(u1, st1).
          let h1 = updatePlayer UPD_FLAG_XP 1 (GetExpGained u1) 0 (h\<lparr>h_unit := u1\<rparr>);
              h2 = (if u_levelUp u1 then UpdatePlayerLevel (h1\<lparr>h_unit := u1\<lparr>u_levelUp := False\<rparr>\<rparr>) else h1)
          in case h_battlePet h2 of None \<Rightarrow> Inr (h2, st1) | Some x \<Rightarrow> give_pet_exp cf x (h2, st1)))"

definition GiveExpGainedFor :: "rules \<Rightarrow> uid \<Rightarrow> arena \<Rightarrow> arena res" where
  "GiveExpGainedFor cf p a =
     bindR (run_hero p (\<lambda>h. bindR (give_exp cf (h, b_rand32 (ar_b a))) (\<lambda>(h', st). Inr (st, h'))) a)
       (\<lambda>(st, a1). Inr (on_battle (\<lambda>b. b\<lparr>b_rand32 := st\<rparr>) a1))"

end
