(* ===== verification/BattleTurn.thy ===== *)
theory BattleTurn
  imports BattleRewards
begin

text \<open>
  A turn of a battle (\<open>src/game/BattleSystem.cpp\<close>): an action becomes a block of a packet and its hits change
  the units, groups of actions are sent one after the other, and between them the battle waits for
  animations, hands out drops and looks whether it is over; then it waits for the next actions.
\<close>

subsection \<open>Leaving\<close>

text \<open>What a player takes out of a battle: alive with one point, without states, and saved.\<close>

definition revive :: "unit_rec \<Rightarrow> unit_rec" where
  "revive u =
     ResetAllState (if isDead u \<or> uget u UNIT_FIELD_HP = 0 then setDeathState ALIVE (uset UNIT_FIELD_HP 1 u) else u)"

definition leave_hero :: "item_db \<Rightarrow> hero \<Rightarrow> hero res" where
  "leave_hero idb h =
     bindR (let h1 = UpdatePlayer (set_unit revive h)
            in case h_battlePet h1 of
                 None \<Rightarrow> Inr h1
               | Some x \<Rightarrow> bindR (upd_pet x (\<lambda>r. r\<lparr>pt_unit := revive (pt_unit r)\<rparr>) h1) UpdatePetBattle)
       (SaveToDB_player idb)"

definition clear_unit :: "uid option \<Rightarrow> battle \<Rightarrow> battle" where
  "clear_unit u b = b\<lparr>b_grid := map (\<lambda>v. if v = u then None else v) (b_grid b)\<rparr>"

definition LeaveBattle :: "rules \<Rightarrow> uid \<Rightarrow> arena \<Rightarrow> arena res" where
  "LeaveBattle cf p a =
     bindR (battle_pet p a) (\<lambda>(pet, a0).
     bindR (with_hero p (leave_hero (cf_idb cf)) a0) (\<lambda>a1.
       let out = (if p \<in> set (b_players (ar_b a1))
                  then (\<lambda>b. b\<lparr>b_masterOf := (b_masterOf b)(p := None), b_players := filter (\<lambda>q. q \<noteq> p) (b_players b)\<rparr>)
                  else (\<lambda>b. b))
       in Inr (on_battle (clear_unit pet \<circ> clear_unit (Some p) \<circ> out) a1)))"

text \<open>The player that escapes stands in the back row of the attacker's side.\<close>

definition escape_col :: "u8 \<Rightarrow> u8" where
  "escape_col c =
     (let c1 = (if isAtkPos c \<and> \<not> isAtkPosBackRow c then c + 1 else c)
      in if isDefPos c1 \<and> \<not> isDefPosBackRow c1 then c1 - 1 else c1)"

definition Escaped :: "rules \<Rightarrow> battle_action \<Rightarrow> arena \<Rightarrow> arena res" where
  "Escaped cf act a =
     (let col = escape_col (atkCol act); row = atkRow act
      in bindR (GetBattleUnit col row (ar_b a)) (\<lambda>u.
         case u of
           None \<Rightarrow> Inl NullDeref
         | Some p \<Rightarrow>
             bindR (with_hero p (\<lambda>h. Inr (say (ToSet True) 0x0B [FU8 0, FU32 (h_account h), FU16 0] h)) a) (\<lambda>a1.
             bindR (to_set 0x0B [FU8 1, FU8 col, FU8 row, FU8 0] a1) (\<lambda>a2.
             bindR (with_hero p (\<lambda>h. Inr (Send1408 (Send1406 h))) a2) (LeaveBattle cf p)))))"

subsection \<open>Catching\<close>

definition SPELL_SUCCESS_CATCH :: u16 where [simp]: "SPELL_SUCCESS_CATCH = 15003"
definition SPELL_ESCAPE_FAILED :: u16 where [simp]: "SPELL_ESCAPE_FAILED = 18002"

definition CanCatchPet :: "uid option \<Rightarrow> uid \<Rightarrow> arena \<Rightarrow> bool \<times> arena" where
  "CanCatchPet catcher victim a =
     (case catcher of
        None \<Rightarrow> (False, a)
      | Some c \<Rightarrow>
          let v = unit_of a victim
          in if of_int (uint (uget v UNIT_FIELD_HP))
                  > (of_int (round_away (f64 (of_int (uint (uget v UNIT_FIELD_HP_MAX)) * f64 (1 / 5)))) :: rat) then (False, a)
             else if getLevel (unit_of a c) + 5 < getLevel v then (False, a)
             else case draw a of (r, a1) \<Rightarrow> (chance_above r 50, a1))"

text \<open>
  \<open>CreatePet\<close> takes the next guid and leaves the fields its constructor does not set to chance: \<open>junk\<close>. The
  guard that should keep players and pets from being caught joins its halves with \<open>||\<close> and always holds; the entry
  of a caught player is read like that of a creature.
\<close>

definition caught_pet :: "rules \<Rightarrow> u8 \<times> u8 \<times> u8 \<Rightarrow> u32 \<Rightarrow> u32 \<Rightarrow> uid \<Rightarrow> arena \<Rightarrow> hero \<Rightarrow> (bool \<times> hero) res" where
  "caught_pet cf junk low entry c a h =
     bindR (CreatePet (cf_sdb cf) (cf_cdb cf) junk low entry h) (\<lambda>(pet, h1).
       case pet of
         None \<Rightarrow> Inr (False, h1)
       | Some x \<Rightarrow>
           bindR (CanSummonPet (cf_cdb cf) NULL_PET_SLOT pet False h1) (\<lambda>(r, dest).
             if r \<noteq> PET_ERR_OK then Inr (False, delete_pet x h1)
             else bindR (upd_pet x (\<lambda>r. r\<lparr>pt_unit := (pt_unit r)\<lparr>u_loyalty := 60\<rparr>\<rparr>) h1) (\<lambda>h2.
                  bindR (SummonPet dest pet h2) (\<lambda>(_, h3).
                  bindR (UpdatePetCarried (cf_idb cf) h3) (\<lambda>h4.
                  bindR (team_block c a h4) (\<lambda>blk.
                    Inr (True, case blk of None \<Rightarrow> say (ToSet True) 0 [] h4 | Some (opcode, fs) \<Rightarrow> say (ToSet True) opcode fs h4)))))))"

definition catch_for :: "rules \<Rightarrow> u8 \<times> u8 \<times> u8 \<Rightarrow> uid option \<Rightarrow> uid \<Rightarrow> arena \<Rightarrow> (bool \<times> arena) res" where
  "catch_for cf junk catcher victim a =
     (case CanCatchPet catcher victim a of
        (ok, a1) \<Rightarrow>
          (case catcher of
             None \<Rightarrow> Inr (False, a1)
           | Some c \<Rightarrow>
               if \<not> ok then Inr (False, a1)
               else let entry = uget (unit_of a1 victim) OBJECT_FIELD_ENTRY; low = ar_petLow a1 + 1
                    in run_hero c (caught_pet cf junk low entry c a1)
                         (if cf_cdb cf entry = None then a1 else a1\<lparr>ar_petLow := low\<rparr>)))"

definition try_catch :: "rules \<Rightarrow> u8 \<times> u8 \<times> u8 \<Rightarrow> battle_action \<Rightarrow> arena \<Rightarrow> (bool \<times> arena) res" where
  "try_catch cf junk act a =
     bindR (GetVictim act (ar_b a)) (\<lambda>v. bindR (GetAttacker act (ar_b a)) (\<lambda>w.
       case v of
         None \<Rightarrow> Inl NullDeref
       | Some victim \<Rightarrow>
           (case w of
              None \<Rightarrow> Inl NullDeref
            | Some attacker \<Rightarrow>
                if \<not> fights_for_players (unit_of a attacker) then Inr (False, a)
                else catch_for cf junk (receiver_player attacker a) victim a)))"

subsection \<open>The block of a hit\<close>

definition SPELL_TREESPIRIT :: u32 where [simp]: "SPELL_TREESPIRIT = 10004"
definition SPELL_AURA :: u32 where [simp]: "SPELL_AURA = 10010"
definition SPELL_MIRROR :: u32 where [simp]: "SPELL_MIRROR = 10015"
definition SPELL_ICEWALL :: u32 where [simp]: "SPELL_ICEWALL = 11002"
definition SPELL_FREEZING :: u32 where [simp]: "SPELL_FREEZING = 11014"
definition SPELL_CYCLONE :: u32 where [simp]: "SPELL_CYCLONE = 13002"
definition SPELL_DODGE :: u32 where [simp]: "SPELL_DODGE = 13003"
definition SPELL_INVISIBLE :: u32 where [simp]: "SPELL_INVISIBLE = 13005"
definition SPELL_STUN :: u32 where [simp]: "SPELL_STUN = 13007"
definition SPELL_MINIFY :: u32 where [simp]: "SPELL_MINIFY = 13011"
definition SPELL_MAGNIFY :: u32 where [simp]: "SPELL_MAGNIFY = 13012"
definition SPELL_VIGOR :: u32 where [simp]: "SPELL_VIGOR = 13014"

text \<open>The status a spell puts on its victim and for how many turns.\<close>

definition spell_status :: "u32 \<Rightarrow> (u32 \<times> u8) option" where
  "spell_status entry =
     map_of [(SPELL_TREESPIRIT, UNIT_STATE_ROOT, 3), (SPELL_FREEZING, UNIT_STATE_FREEZE, 5), (SPELL_STUN, UNIT_STATE_STUN, 2),
       (SPELL_CYCLONE, UNIT_STATE_CYCLONE, 3), (SPELL_ICEWALL, UNIT_STATE_ICEWALL, 2), (SPELL_AURA, UNIT_STATE_AURA, 4),
       (SPELL_MIRROR, UNIT_STATE_MIRROR, 4), (SPELL_VIGOR, UNIT_STATE_VIGOR, 4), (SPELL_DODGE, UNIT_STATE_DODGE, 2),
       (SPELL_INVISIBLE, UNIT_STATE_INVISIBLE, 4), (SPELL_MAGNIFY, UNIT_STATE_MAGNIFY, 4), (SPELL_MINIFY, UNIT_STATE_MINIFY, 4)] entry"

text \<open>The status code of the message and the animation of the target.\<close>

definition status_code :: "u32 \<Rightarrow> u8 \<times> u8" where
  "status_code dmod =
     (if dmod = SPELL_MOD_DISABLED_HURT \<or> dmod = SPELL_MOD_DISABLED_BUF then (0xDD, 0)
      else if dmod = SPELL_MOD_POSITIVE_BUF then (0xDE, 1)
      else if dmod = SPELL_MOD_NEGATIVE_BUF then (0xDF, 1)
      else if dmod = SPELL_MOD_HEAL then (0x19, 1)
      else (0x19, 0))"

definition dodged :: "spell_info \<Rightarrow> bool \<Rightarrow> int \<Rightarrow> unit_rec \<Rightarrow> bool" where
  "dodged info catched r victim \<longleftrightarrow>
     chance_above r 90 \<and> \<not> catched \<and> si_DamageMod info \<noteq> SPELL_MOD_POSITIVE_BUF \<and> si_DamageMod info \<noteq> SPELL_MOD_HEAL \<or>
     hasUnitState victim UNIT_STATE_DODGE"

text \<open>The damage is dealt, and a kill or a hit is rewarded.\<close>

definition deal_hit :: "rules \<Rightarrow> battle_action \<Rightarrow> uid \<Rightarrow> uid \<Rightarrow> i32 \<Rightarrow> bool \<Rightarrow> arena \<Rightarrow> arena res" where
  "deal_hit cf hit attacker victim damage linked a =
     (case isDealDamageToAndKill damage (unit_of a victim) of
        (killed, v) \<Rightarrow>
          let a1 = on_unit victim (\<lambda>_. v) a
          in bindR (if \<not> sint damage < 0 \<and> isType v TYPE_PET then pet_changed victim a1 else Inr a1) (\<lambda>a2.
             if killed
             then bindR (AddKillExpGained cf attacker victim linked (on_battle (\<lambda>b. b\<lparr>b_killed := True\<rparr>) a2))
                    (AddKillItemDropped cf hit)
             else AddHitExpGained cf attacker victim linked a2))"

definition mod_fields :: "bool \<Rightarrow> u8 \<Rightarrow> u8 \<Rightarrow> i32 \<Rightarrow> u8 \<Rightarrow> field list" where
  "mod_fields missed ani_t stcode damage modifier =
     (let n = (ucast (if sint damage < 0 then - damage else damage) :: u16)
      in [FU8 (if missed then 0 else 1), FU8 (if missed then 2 else ani_t)] @
         (if damage \<noteq> 0 \<and> stcode \<noteq> 0x19 then [FU8 2, FU8 0x19, FU16 n, FU8 modifier] else [FU8 1]) @
         [FU8 stcode, FU16 (if stcode = 0x19 then n else 0), FU8 modifier])"

definition BuildUpdateBlockSpellMod ::
  "rules \<Rightarrow> battle_action \<Rightarrow> spell_info \<Rightarrow> uid \<Rightarrow> uid \<Rightarrow> i32 \<Rightarrow> u8 \<Rightarrow> bool \<Rightarrow> bool \<Rightarrow> arena \<Rightarrow> (field list \<times> arena) res" where
  "BuildUpdateBlockSpellMod cf hit info attacker victim damage0 modifier0 linked catched a0 =
     (case draw a0 of
        (r, a) \<Rightarrow>
          let dodge = dodged info catched r (unit_of a victim);
              damage = (if dodge then 0 else damage0);
              modifier = (if dodge then 0 else modifier0);
              (stcode0, ani0) = status_code (si_DamageMod info);
              (cast_ok, a1) =
                (if \<not> dodge \<and> stcode0 \<noteq> 0x19
                 then case spell_status (si_Entry info) of
                        None \<Rightarrow> (True, a)
                      | Some (st, dur) \<Rightarrow>
                          (case addUnitState st dur (unit_of a victim) of (ok, v) \<Rightarrow> (ok, on_unit victim (\<lambda>_. v) a))
                 else (True, a));
              missed = (dodge \<or> \<not> cast_ok);
              stcode = (if cast_ok then stcode0 else 0)
          in bindR (if missed then Inr a1 else deal_hit cf hit attacker victim damage linked a1) (\<lambda>a2.
               let v = unit_of a2 victim;
                   ani1 = (if \<not> missed \<and> hasUnitState v (UNIT_STATE_DEFEND OR UNIT_STATE_ICEWALL) then 1 else ani0);
                   guarded = (\<not> missed \<and> hasUnitState v (UNIT_STATE_AURA OR UNIT_STATE_MIRROR));
                   ani_t = (if guarded then 4 else ani1);
                   damage' = (if guarded then 0 else damage);
                   missed' = (missed \<or> si_Entry info = ucast SPELL_ESCAPE)
               in Inr (mod_fields missed' ani_t stcode damage' modifier, a2)))"

end
