(* ===== verification/BattleRound.thy ===== *)
theory BattleRound
  imports BattleTurn
begin

text \<open>
  The actions of a round (\<open>src/game/BattleSystem.cpp\<close>): the block of an action in the packet, the packet of a
  group of actions, and \<open>UpdateBattleAction\<close>, which is called on every tick of the battle master, with the
  end of the battle. What the code leaves uninitialised is the argument \<open>junk\<close>: the column of the last
  drop and the fields of a new pet.
\<close>

record chance =
  jk_drop :: u8
  jk_pet :: "u8 \<times> u8 \<times> u8"

subsection \<open>The block of an action\<close>

text \<open>The hits of an action: their blocks one after the other. A caught unit leaves the field.\<close>

definition hit_pos_fields :: "battle_action \<Rightarrow> battle_action \<Rightarrow> field list" where
  "hit_pos_fields act hit =
     (if skill act = SPELL_DEFENSE \<or> skill act = SPELL_ESCAPE then [FU8 (atkCol hit), FU8 (atkRow hit)]
      else [FU8 (tgtCol hit), FU8 (tgtRow hit)])"

definition hit_units ::
  "rules \<Rightarrow> battle_action \<Rightarrow> spell_info \<Rightarrow> bool \<Rightarrow> bool \<Rightarrow> battle_action \<Rightarrow> uid \<Rightarrow> uid \<Rightarrow> field list \<times> arena \<Rightarrow> (field list \<times> arena) res" where
  "hit_units cf act info linked catched hit attacker victim = (\<lambda>(fs, a).
     bindR (GetDamage (unit_of a attacker) (unit_of a victim) info linked (b_holdrand (ar_b a))) (\<lambda>(n, hr).
     bindR (BuildUpdateBlockSpellMod cf hit info attacker victim n (if sint n < 0 then 1 else 0) linked catched
              (on_battle (\<lambda>b. b\<lparr>b_holdrand := hr\<rparr>) a)) (\<lambda>(blk, a1).
     bindR (if catched then grid_set (tgtCol hit) (tgtRow hit) None (ar_b a1) else Inr (ar_b a1)) (\<lambda>b'.
       Inr (fs @ hit_pos_fields act hit @ blk, a1\<lparr>ar_b := b'\<rparr>)))))"

definition hit_block ::
  "rules \<Rightarrow> battle_action \<Rightarrow> spell_info \<Rightarrow> bool \<Rightarrow> bool \<Rightarrow> battle_action \<Rightarrow> field list \<times> arena \<Rightarrow> (field list \<times> arena) res" where
  "hit_block cf act info linked catched hit = (\<lambda>(fs, a).
     bindR (GetAttacker hit (ar_b a)) (\<lambda>w. bindR (GetVictim hit (ar_b a)) (\<lambda>v.
       case w of
         None \<Rightarrow> Inl NullDeref
       | Some attacker \<Rightarrow>
           (case v of
              None \<Rightarrow> Inl NullDeref
            | Some victim \<Rightarrow> hit_units cf act info linked catched hit attacker victim (fs, a)))))"

definition shown_skill :: "bool \<Rightarrow> u16 \<Rightarrow> u16" where
  "shown_skill catched s =
     (if s = SPELL_ESCAPE then SPELL_ESCAPE_FAILED else if catched then SPELL_SUCCESS_CATCH
      else if s < 26000 then s else 19001)"

text \<open>
  The length in front of the block is written as \<open>0x000F\<close> first and put right at the end; the sizes are those of
  the packet, with its header of five bytes, in 16 bits.
\<close>

definition packet_size :: "field list \<Rightarrow> u16" where
  "packet_size fs = of_nat (5 + fields_size fs)"

definition BuildUpdateBlockAction ::
  "rules \<Rightarrow> chance \<Rightarrow> battle_action \<Rightarrow> bool \<Rightarrow> field list \<times> arena \<Rightarrow> (field list \<times> arena) res" where
  "BuildUpdateBlockAction cf jk act linked = (\<lambda>(data, a).
     bindR (if skill act = SPELL_CATCH \<or> skill act = SPELL_CATCH2 then try_catch cf (jk_pet jk) act a else Inr (False, a)) (\<lambda>(catched, a1).
       case cf_sdb cf (skill act) of
         None \<Rightarrow> Inl NullDeref
       | Some info \<Rightarrow>
           bindR (ParseSpell (cf_sdb cf) act (ucast (si_hit info)) linked (ar_b a1)) (\<lambda>hits.
           bindR (foldR (hit_block cf act info linked catched) hits
                    (data @ [FU16 0x000F, FU8 (atkCol act), FU8 (atkRow act), FU16 (shown_skill catched (skill act)), FU8 1, FU8 (ucast (si_hit info))], a1))
             (\<lambda>(fs, a2). Inr (fs[length data := FU16 (packet_size fs - packet_size data - 2)], a2)))))"

subsection \<open>A group of actions\<close>

definition WaitForAnimation :: "u16 \<Rightarrow> battle \<Rightarrow> battle" where
  "WaitForAnimation spell b =
     b\<lparr>b_animTime := (if spell = SPELL_DEFENSE then 0 else if spell = SPELL_BASIC \<or> spell = SPELL_ESCAPE then 12
                     else if spell > 26000 then 40 else 25)\<rparr>"

text \<open>
  The loop of \<open>SendAction\<close> over a group: the fields of the packet, the skill of the animation, whether there is
  something to send, and whether a defence ended the loop. \<open>linked\<close> stays set once more than one action was left.
\<close>

fun send_group ::
  "rules \<Rightarrow> chance \<Rightarrow> battle_action list \<Rightarrow> bool \<Rightarrow> field list \<times> u16 \<times> bool \<Rightarrow> arena \<Rightarrow> (bool \<times> (field list \<times> u16 \<times> bool) \<times> arena) res" where
  "send_group cf jk [] linked0 (data, sk, valid) a = Inr (False, (data, sk, valid), a)"
| "send_group cf jk (act # acts) linked0 (data, sk, valid) a =
     (let linked = (linked0 \<or> acts \<noteq> [])
      in bindR (GetAttacker act (ar_b a)) (\<lambda>w.
           case w of
             None \<Rightarrow> send_group cf jk acts linked (data, sk, valid) a
           | Some i \<Rightarrow>
               if isDead (unit_of a i) \<or> isDisabled (unit_of a i) then send_group cf jk acts linked (data, sk, valid) a
               else if skill act = SPELL_DEFENSE
               then Inr (True, (data, sk, valid), on_unit i (addUnitState1 UNIT_STATE_DEFEND) a)
               else let (r, a1) = (if skill act = SPELL_ESCAPE then draw a else (0, a))
                    in if skill act = SPELL_ESCAPE \<and> chance_above r 65
                       then bindR (Escaped cf act a1) (send_group cf jk acts linked (data, sk, valid))
                       else bindR (BuildUpdateBlockAction cf jk act linked (data, a1)) (\<lambda>(data', a2).
                              send_group cf jk acts linked (data', skill act, True) a2)))"

text \<open>The first group that is not empty is taken from \<open>m_Actions\<close>.\<close>

fun first_group :: "battle_action list list \<Rightarrow> (nat \<times> battle_action list) option" where
  "first_group [] = None"
| "first_group (g # gs) = (if g \<noteq> [] then Some (0, g) else map_option (\<lambda>(i, h). (Suc i, h)) (first_group gs))"

text \<open>
  If the target of the first action is gone the action is redirected and alone, and the rest of the group goes
  back to its place, which is empty now.
\<close>

definition unlink_group :: "nat \<Rightarrow> battle_action list \<Rightarrow> arena \<Rightarrow> (battle_action list \<times> arena) res" where
  "unlink_group i g a =
     bindR (GetVictim (hd g) (ar_b a)) (\<lambda>_.
     bindR (NeedRedirectTarget (hd g) (ar_b a)) (\<lambda>need.
       if \<not> need then Inr (g, a)
       else bindR (RedirectTarget (hd g) (ar_b a)) (\<lambda>act.
              Inr ([act], on_battle (\<lambda>b. b\<lparr>b_Actions := (b_Actions b)[i := tl g]\<rparr>) a))))"

definition SendAction :: "rules \<Rightarrow> chance \<Rightarrow> arena \<Rightarrow> (bool \<times> arena) res" where
  "SendAction cf jk a =
     (case first_group (b_Actions (ar_b a)) of
        None \<Rightarrow> Inr (False, a)
      | Some (i, g) \<Rightarrow>
          bindR (unlink_group i g (on_battle (\<lambda>b. b\<lparr>b_Actions := (b_Actions b)[i := []]\<rparr>) a)) (\<lambda>(acts, a1).
          bindR (send_group cf jk acts False ([FU8 1], SPELL_BASIC, False) a1) (\<lambda>(defended, (data, sk, valid), a2).
            if defended \<or> \<not> valid then Inr (True, a2)
            else bindR (to_set 0x32 data a2) (\<lambda>a3. Inr (True, on_battle (WaitForAnimation sk) a3)))))"

subsection \<open>The end of a round\<close>

definition release_msg :: "u8 \<Rightarrow> u8 \<Rightarrow> u8 \<Rightarrow> arena \<Rightarrow> arena res" where
  "release_msg col row flag = to_set 0x35 [FU8 1, FU8 col, FU8 row, FU8 flag, FU16 0]"

definition reset_cell :: "u8 \<times> u8 \<Rightarrow> arena \<Rightarrow> arena res" where
  "reset_cell = (\<lambda>(c, r) a.
     bindR (grid_get (ar_b a) c r) (\<lambda>q.
       case q of
         None \<Rightarrow> Inr a
       | Some i \<Rightarrow>
           let u = unit_of a i;
               a1 = (if fights_for_players u \<and> \<not> isDead u \<and> \<not> isDisabled u
                     then on_battle (\<lambda>b. b\<lparr>b_need := b_need b + 1\<rparr>) a else a);
               (rel, u1) = isReleaseFromDisabledState u
           in bindR (if rel then release_msg c r 1 (on_unit i (\<lambda>_. u1) a1) else Inr (on_unit i (\<lambda>_. u1) a1)) (\<lambda>a2.
              let (ex, u2) = isPositiveBufExpired u1
              in bindR (if ex then release_msg c r 2 (on_unit i (\<lambda>_. u2) a2) else Inr (on_unit i (\<lambda>_. u2) a2)) (\<lambda>a3.
                 Inr (on_unit i (clearUnitState UNIT_STATE_DEFEND) a3)))))"

definition ResetAction :: "arena \<Rightarrow> arena res" where
  "ResetAction a =
     foldR reset_cell (by_rows all_cols) (on_battle (\<lambda>b. b\<lparr>b_actionTime := 0, b_count := 0, b_need := 0\<rparr>) a)"

definition SendTurnComplete :: "arena \<Rightarrow> arena res" where
  "SendTurnComplete a =
     bindR (ResetAction a) (\<lambda>a1. to_set 0x34 [FU8 1] (on_battle (\<lambda>b. b\<lparr>b_wait := True\<rparr>) a1))"

definition MAX_ACTION_TIME :: u32 where [simp]: "MAX_ACTION_TIME = 220"

definition isActionTimedOut :: "battle \<Rightarrow> bool \<times> battle" where
  "isActionTimedOut b =
     (if \<not> b_wait b then (False, b)
      else (\<not> b_actionTime b + 1 < MAX_ACTION_TIME, b\<lparr>b_actionTime := b_actionTime b + 1\<rparr>))"

subsection \<open>The end of the battle\<close>

fun any_alive :: "(u8 \<times> u8) list \<Rightarrow> battle \<Rightarrow> bool res" where
  "any_alive [] b = Inr False"
| "any_alive ((c, r) # ps) b =
     bindR (grid_get b c r) (\<lambda>q.
       case q of
         None \<Rightarrow> any_alive ps b
       | Some i \<Rightarrow> if isAlive (unit_at b i) then Inr True else any_alive ps b)"

definition BattleConcluded :: "rules \<Rightarrow> chance \<Rightarrow> arena \<Rightarrow> (bool \<times> arena) res" where
  "BattleConcluded cf jk a =
     (if 0 < b_animTime (ar_b a) then Inr (False, a)
      else bindR (GiveItemDropped cf (jk_drop jk) a) (\<lambda>a1.
        if 0 < b_animTimeItem (ar_b a1) then Inr (False, a1)
        else bindR (any_alive (by_rows def_cols) (ar_b a1)) (\<lambda>def_alive.
          if \<not> def_alive then Inr (True, a1)
          else bindR (any_alive (by_rows atk_cols) (ar_b a1)) (\<lambda>atk_alive. Inr (\<not> atk_alive, a1)))))"

definition stop_cell :: "rules \<Rightarrow> u8 \<times> u8 \<Rightarrow> arena \<Rightarrow> arena res" where
  "stop_cell cf = (\<lambda>(c, r) a.
     bindR (grid_get (ar_b a) c r) (\<lambda>q.
       case q of
         None \<Rightarrow> Inr a
       | Some i \<Rightarrow>
           if \<not> fights_for_players (unit_of a i) then Inr a
           else bindR (if isType (unit_of a i) TYPE_PLAYER then GiveExpGainedFor cf i a else Inr a)
                  (to_set 0x0B [FU8 1, FU8 c, FU8 r, FU8 0])))"

text \<open>
  The loop over \<open>m_PlayerList\<close> lets the player leave, which takes it out of the set the loop runs over: the
  increment that follows works on an iterator that is no longer valid, whatever the set still holds.
\<close>

definition stop_players :: "rules \<Rightarrow> arena \<Rightarrow> arena res" where
  "stop_players cf a =
     (case b_players (ar_b a) of
        [] \<Rightarrow> Inr a
      | p # _ \<Rightarrow>
          bindR (with_hero p (\<lambda>h. Inr (Send1408 (Send1406 h))) a) (\<lambda>a1.
          bindR (LeaveBattle cf p a1) (\<lambda>_. Inl UseAfterFree)))"

definition BattleStop :: "rules \<Rightarrow> arena \<Rightarrow> arena res" where
  "BattleStop cf a =
     (if 0 < b_animTimeItem (ar_b a) then Inr a
      else bindR (foldR (stop_cell cf) (by_rows all_cols) a) (\<lambda>a1.
           bindR (stop_players cf a1) (\<lambda>a2.
             case b_master (ar_b a2) of
               None \<Rightarrow> Inl NullDeref
             | Some m \<Rightarrow> with_hero m (\<lambda>h. Inr (say (ToSet False) 0x0B [FU8 0, FU32 (h_account h), FU16 0] h)) a2)))"

subsection \<open>A tick\<close>

definition show_player :: "uid \<Rightarrow> arena \<Rightarrow> arena res" where
  "show_player p = with_hero p (\<lambda>h. UpdatePetBattle (UpdatePlayer h))"

definition UpdateBattleAction :: "rules \<Rightarrow> chance \<Rightarrow> arena \<Rightarrow> arena res" where
  "UpdateBattleAction cf jk a =
     (if 0 < b_animTimeItem (ar_b a) then Inr (on_battle (\<lambda>b. b\<lparr>b_animTimeItem := b_animTimeItem b - 1\<rparr>) a)
      else bindR (BattleConcluded cf jk a) (\<lambda>(done1, a1).
        if done1 \<and> b_animTimeItem (ar_b a1) = 0 then BattleStop cf a1
        else if b_wait (ar_b a1) then Inr a1
        else if 0 < b_animTime (ar_b a1) then Inr (on_battle (\<lambda>b. b\<lparr>b_animTime := b_animTime b - 1\<rparr>) a1)
        else bindR (if b_killed (ar_b a1)
                    then GiveItemDropped cf (jk_drop jk) (on_battle (\<lambda>b. b\<lparr>b_killed := False\<rparr>) a1)
                    else Inr a1) (\<lambda>a2.
             bindR (SendAction cf jk a2) (\<lambda>(sent, a3).
             bindR (if sent then Inr a3 else SendTurnComplete a3) (\<lambda>a4.
               foldR show_player (b_players (ar_b a4)) a4)))))"

text \<open>The battle part of \<open>Player::Update\<close> for the player whose \<open>PlayerBattleClass\<close> it is.\<close>

definition Update_battle :: "rules \<Rightarrow> chance \<Rightarrow> uid \<Rightarrow> arena \<Rightarrow> arena res" where
  "Update_battle cf jk p a =
     (if \<not> ar_engine a p then Inr a
      else case isActionTimedOut (ar_b a) of
        (late, b1) \<Rightarrow>
          bindR (if late then BuildActions (cf_sdb cf) (cf_agility cf) b1 else Inr b1) (\<lambda>b2.
          bindR (UpdateBattleAction cf jk (a\<lparr>ar_b := b2\<rparr>)) (\<lambda>a1.
          bindR (BattleConcluded cf jk a1) (\<lambda>(done1, a2).
            if \<not> done1 then Inr a2
            else bindR (BattleStop cf a2) (\<lambda>a3. Inr (a3\<lparr>ar_engine := (ar_engine a3)(p := False)\<rparr>))))))"

end
