(* ===== verification/BattleStart.thy ===== *)
theory BattleStart
  imports BattleRound
begin

text \<open>
  How a battle starts and who is in it (\<open>src/game/BattleSystem.cpp\<close>, \<open>src/game/Player.cpp\<close>): the units of both
  sides on the field, the messages that show it, a pet that comes in or goes out, and a player that logs
  out of it. Numbers of units stand for their addresses, so the set of players is in their order.
\<close>

subsection \<open>Who takes part\<close>

text \<open>The constructor; everything else is set when the battle engages.\<close>

definition new_battle :: "uid \<Rightarrow> battle \<Rightarrow> battle res" where
  "new_battle master b =
     bindR (urand 357 434 (b_holdrand b)) (\<lambda>(g, hr).
       let ground = (ucast g :: u16)
       in Inr (b\<lparr>b_holdrand := hr, b_ground := (if ground = 367 then 357 else ground), b_need := 0, b_count := 0,
                 b_actionTime := 0, b_animTime := 0, b_animTimeItem := 0, b_killed := False, b_wait := False,
                 b_master := Some master, b_teamBattle := False, b_teamLowest := 0, b_teamHighest := 0, b_teamLower := 0,
                 b_players := [], b_unitTurn := [], b_items := [], b_Actions := replicate 20 []\<rparr>))"

definition clear_field :: "battle \<Rightarrow> battle" where
  "clear_field b = b\<lparr>b_need := 0, b_count := 0, b_actionTime := 0, b_wait := False, b_grid := replicate 20 None\<rparr>"

definition JoinBattle :: "uid \<Rightarrow> battle \<Rightarrow> battle" where
  "JoinBattle p b =
     b\<lparr>b_players := (if p \<in> set (b_players b) then b_players b else insort p (b_players b)),
       b_masterOf := (b_masterOf b)(p := b_master b)\<rparr>"

text \<open>The next player of the set takes over.\<close>

definition FindNewMaster :: "arena \<Rightarrow> bool \<times> arena" where
  "FindNewMaster a =
     (case find (\<lambda>p. b_master (ar_b a) \<noteq> Some p) (b_players (ar_b a)) of
        None \<Rightarrow> (False, a)
      | Some p \<Rightarrow>
          (True, a\<lparr>ar_engine := (ar_engine a)(p := True),
             ar_b := (ar_b a)\<lparr>b_master := Some p,
               b_masterOf := (\<lambda>q. if q \<in> set (b_players (ar_b a)) then Some p else b_masterOf (ar_b a) q)\<rparr>\<rparr>))"

text \<open>Units and levels counted so far; the unit count is a byte.\<close>

type_synonym tally = "u8 \<times> u32"

definition count_level :: "uid \<Rightarrow> arena \<Rightarrow> tally \<Rightarrow> tally" where
  "count_level u a = (\<lambda>(n, l). (n + 1, l + getLevel (unit_of a u)))"

definition place :: "uid \<Rightarrow> u8 \<Rightarrow> u8 \<Rightarrow> arena \<Rightarrow> arena res" where
  "place u col row a = bindR (SetPosition u col row (ar_b a)) (\<lambda>b. Inr (a\<lparr>ar_b := b\<rparr>))"

definition place_pet :: "uid \<Rightarrow> u8 \<Rightarrow> u8 \<Rightarrow> tally \<times> arena \<Rightarrow> (tally \<times> arena) res" where
  "place_pet p col row = (\<lambda>(t, a).
     bindR (battle_pet p a) (\<lambda>(pet, a1).
       case pet of
         None \<Rightarrow> Inr (t, a1)
       | Some u \<Rightarrow> bindR (place u col row a1) (\<lambda>a2. Inr (count_level u a2 t, a2))))"

definition team_levels :: "u32 \<Rightarrow> battle \<Rightarrow> battle" where
  "team_levels lvl b =
     (let b1 = (if lvl > ucast (b_teamHighest b) then b\<lparr>b_teamHighest := ucast lvl\<rparr> else b);
          b2 = (if lvl < ucast (b_teamLowest b1) then b1\<lparr>b_teamLowest := ucast lvl\<rparr> else b1)
      in if lvl + 10 < ucast (b_teamHighest b2) then b2\<lparr>b_teamLower := b_teamLower b2 + 1\<rparr> else b2)"

definition init_attacker :: "u32 \<times> u8 \<Rightarrow> tally \<times> arena \<Rightarrow> (tally \<times> arena) res" where
  "init_attacker = (\<lambda>(guid, row) (t, a).
     case ar_guid a (ucast guid) of
       None \<Rightarrow> Inr (t, a)
     | Some p \<Rightarrow>
         bindR (place p 3 row a) (\<lambda>a1.
           let a2 = on_battle (team_levels (getLevel (unit_of a1 p)) \<circ> JoinBattle p) a1
           in place_pet p 2 row (count_level p a2 t, a2)))"

definition average_level :: "tally \<Rightarrow> int res" where
  "average_level = (\<lambda>(n, l). if n = 0 then Inl DivByZero else Inr (uint (l div ucast n)))"

definition InitAttackerPosition :: "u32 list \<Rightarrow> arena \<Rightarrow> arena res" where
  "InitAttackerPosition guids a =
     bindR (foldR init_attacker (zip guids rows) ((0, 0), a)) (\<lambda>(t, a1).
     bindR (average_level t) (\<lambda>rate.
       Inr (on_battle (\<lambda>b. b\<lparr>b_atkRate := rate, b_teamBattle := (fst t > 2)\<rparr>) a1)))"

text \<open>A creature of the team that is not in the database is left out.\<close>

definition init_defender :: "rules \<Rightarrow> (u8 \<times> u8 \<Rightarrow> u32) \<Rightarrow> u8 \<times> u8 \<Rightarrow> tally \<times> arena \<Rightarrow> (tally \<times> arena) res" where
  "init_defender cf team = (\<lambda>(c, r) (t, a).
     if team (c, r) = 0 then Inr (t, a)
     else case cf_spawn cf (team (c, r)) of
            None \<Rightarrow> Inr (t, a)
          | Some unit \<Rightarrow>
              let u = ar_next a; a1 = on_unit u (\<lambda>_. unit) (a\<lparr>ar_next := u + 1\<rparr>)
              in bindR (place u c r a1) (\<lambda>a2. Inr (count_level u a2 t, a2)))"

definition InitDefenderPosition :: "rules \<Rightarrow> (u8 \<times> u8 \<Rightarrow> u32) \<Rightarrow> arena \<Rightarrow> arena res" where
  "InitDefenderPosition cf team a =
     bindR (foldR (init_defender cf team) (by_rows def_cols) ((0, 0), a)) (\<lambda>(t, a1).
     bindR (average_level t) (\<lambda>rate. Inr (on_battle (\<lambda>b. b\<lparr>b_defRate := rate\<rparr>) a1)))"

definition init_defender2 :: "u32 \<times> u8 \<Rightarrow> tally \<times> arena \<Rightarrow> (tally \<times> arena) res" where
  "init_defender2 = (\<lambda>(guid, row) (t, a).
     case ar_guid a (ucast guid) of
       None \<Rightarrow> Inr (t, a)
     | Some p \<Rightarrow>
         bindR (place p 0 row a) (\<lambda>a1.
           place_pet p 1 row (count_level p a1 t, on_battle (JoinBattle p) a1)))"

definition InitDefenderPosition2 :: "u32 list \<Rightarrow> arena \<Rightarrow> arena res" where
  "InitDefenderPosition2 guids a =
     bindR (foldR init_defender2 (zip guids rows) ((0, 0), a)) (\<lambda>(t, a1).
     bindR (average_level t) (\<lambda>rate. Inr (on_battle (\<lambda>b. b\<lparr>b_defRate := rate\<rparr>) a1)))"

subsection \<open>The messages of the start\<close>

definition bar_fields :: "unit_rec \<Rightarrow> field list" where
  "bar_fields u = [fld16 u UNIT_FIELD_HP_MAX, fld16 u UNIT_FIELD_SP_MAX, fld16 u UNIT_FIELD_HP, fld16 u UNIT_FIELD_SP]"

definition account_of :: "uid \<Rightarrow> arena \<Rightarrow> u32 res" where
  "account_of p a = bindR (get_hero p a) (\<lambda>h. Inr (h_account h))"

text \<open>The players at the given places.\<close>

fun screen_fields :: "u8 \<Rightarrow> (u8 \<times> u8) list \<Rightarrow> arena \<Rightarrow> field list res" where
  "screen_fields k [] a = Inr []"
| "screen_fields k ((c, r) # ps) a =
     bindR (GetBattleUnit c r (ar_b a)) (\<lambda>q.
     bindR (screen_fields k ps a) (\<lambda>fs.
       case q of
         None \<Rightarrow> Inr fs
       | Some i \<Rightarrow>
           let u = unit_of a i
           in if \<not> isType u TYPE_PLAYER then Inr fs
              else bindR (account_of i a) (\<lambda>acc.
                Inr ([FU8 k, FU8 2, FU32 acc, FU16 0, FU16 0, FU16 0, FU8 c, FU8 r] @ bar_fields u @
                     [fld8 u UNIT_FIELD_LEVEL, fld8 u UNIT_FIELD_ELEMENT] @ fs))))"

definition BattleScreenTrigger2 :: "arena \<Rightarrow> arena res" where
  "BattleScreenTrigger2 a =
     bindR (screen_fields 5 (by_cols all_cols) a) (\<lambda>fs.
       to_column 0 0x0B ([FU8 0xFA, FU16 (b_ground (ar_b a))] @ fs) a)"

definition BattleScreenTrigger :: "arena \<Rightarrow> arena res" where
  "BattleScreenTrigger a =
     bindR (screen_fields 1 (by_cols [3]) a) (\<lambda>fs.
     bindR (to_column 3 0x0B ([FU8 0xFA, FU16 (b_ground (ar_b a))] @ fs) a) (\<lambda>a1.
     bindR (BattleScreenTrigger2 a1) (to_set 0x0B [FU8 0x0A, FU8 1])))"

definition owner_account :: "uid \<Rightarrow> arena \<Rightarrow> u32 res" where
  "owner_account u a =
     (case ar_guid a (uget64 UNIT_FIELD_SUMMONEDBY (unit_of a u)) of None \<Rightarrow> Inr 0 | Some p \<Rightarrow> account_of p a)"

definition BuildUpdateBlockPetPosition :: "uid \<Rightarrow> u8 \<Rightarrow> u8 \<Rightarrow> arena \<Rightarrow> field list res" where
  "BuildUpdateBlockPetPosition u col row a =
     bindR (owner_account u a) (\<lambda>acc.
       let x = unit_of a u
       in Inr ([FU8 5, FU8 5, FU8 4, fld16 x UNIT_FIELD_DISPLAYID, FU16 0, FU16 4, FU32 acc, FU8 col, FU8 row] @ bar_fields x @
               [fld16 x UNIT_FIELD_LEVEL, fld16 x UNIT_FIELD_ELEMENT]))"

text \<open>Everything in the two front columns is sent like a pet, creatures too.\<close>

definition send_pet_cell :: "u8 \<times> u8 \<Rightarrow> arena \<Rightarrow> arena res" where
  "send_pet_cell = (\<lambda>(c, r) a.
     bindR (grid_get (ar_b a) c r) (\<lambda>q.
       case q of
         None \<Rightarrow> Inr a
       | Some u \<Rightarrow> bindR (BuildUpdateBlockPetPosition u c r a) (\<lambda>fs. to_set 0x0B fs a)))"

definition SendPetPosition :: "arena \<Rightarrow> arena res" where
  "SendPetPosition = foldR send_pet_cell (by_cols [1, 2])"

definition send_defender_cell :: "u8 \<times> u8 \<Rightarrow> u8 \<times> arena \<Rightarrow> (u8 \<times> arena) res" where
  "send_defender_cell = (\<lambda>(c, r) (n, a).
     bindR (grid_get (ar_b a) c r) (\<lambda>q.
       case q of
         None \<Rightarrow> Inr (n, a)
       | Some i \<Rightarrow>
           let u = unit_of a i; pl = isType u TYPE_PLAYER
           in if isType u TYPE_PET then Inr (n, a)
              else bindR (if pl then bindR (account_of i a) (\<lambda>acc. Inr (ucast acc :: u16))
                          else Inr (ucast (uget u UNIT_FIELD_DISPLAYID))) (\<lambda>who.
                   bindR (to_set 0x0B ([FU8 5, FU8 (if pl then 5 else 1), FU8 (if pl then 2 else 7), FU16 who, FU16 0, FU8 n, FU8 0,
                            FU16 0, FU16 0, FU8 c, FU8 r] @ bar_fields u @ [fld8 u UNIT_FIELD_LEVEL, fld8 u UNIT_FIELD_ELEMENT]) a)
                     (\<lambda>a'. Inr (n + 1, a')))))"

definition SendDefenderPosition :: "arena \<Rightarrow> arena res" where
  "SendDefenderPosition a = bindR (foldR send_defender_cell (by_cols [0]) (0, a)) (\<lambda>(_, a'). Inr a')"

definition BattleStart :: "arena \<Rightarrow> arena res" where
  "BattleStart a =
     bindR (to_set 0x14 [FU8 0x0C] a) (\<lambda>a1.
     bindR (to_set 0x06 [FU8 2] a1) (\<lambda>a2.
     bindR (foldR (\<lambda>p. with_hero p (\<lambda>h. Inr (UpdatePlayer h))) (b_players (ar_b a2)) a2) (\<lambda>a3.
     bindR (BattleScreenTrigger a3) (\<lambda>a4.
     bindR (foldR (\<lambda>p. with_hero p UpdatePetBattle) (b_players (ar_b a4)) a4) (\<lambda>a5.
     bindR (SendPetPosition a5) (\<lambda>a6.
     bindR (SendDefenderPosition a6) SendTurnComplete))))))"

subsection \<open>Engaging\<close>

definition hero_guid :: "uid \<Rightarrow> arena \<Rightarrow> u32 res" where
  "hero_guid p a = bindR (get_hero p a) (\<lambda>h. Inr (GUID_LOPART (inv_guid (h_inv h))))"

text \<open>The row of a player: itself in the middle, the first two of its team beside it, the others outside.\<close>

definition player_row :: "uid \<Rightarrow> arena \<Rightarrow> u32 list res" where
  "player_row p a =
     bindR (team_guid p 3 a) (\<lambda>g3. bindR (team_guid p 2 a) (\<lambda>g2. bindR (hero_guid p a) (\<lambda>g.
     bindR (team_guid p 1 a) (\<lambda>g1. bindR (team_guid p 4 a) (\<lambda>g4. Inr [g3, g2, g, g1, g4])))))"

definition Engage_creature :: "rules \<Rightarrow> uid \<Rightarrow> u32 \<Rightarrow> u8 \<Rightarrow> arena \<Rightarrow> arena res" where
  "Engage_creature cf p enemy mapNpc a =
     (case cf_enemies cf enemy of
        None \<Rightarrow> Inl NullDeref
      | Some team \<Rightarrow>
          bindR (player_row p a) (\<lambda>guids.
          bindR (InitDefenderPosition cf (team((0, 2) := enemy)) (on_battle clear_field a)) (\<lambda>a1.
          bindR (InitAttackerPosition guids a1) (\<lambda>a2.
          bindR (BattleStart a2)
            (with_hero p (\<lambda>h. Inr (say (ToSet False) 0x0B [FU8 4, FU8 2, FU32 (h_account h), FU16 0, FU8 mapNpc] h)))))))"

definition Engage_player :: "uid \<Rightarrow> uid \<Rightarrow> arena \<Rightarrow> arena res" where
  "Engage_player p enemy a =
     bindR (player_row enemy a) (\<lambda>defs. bindR (player_row p a) (\<lambda>atks.
     bindR (InitDefenderPosition2 defs (on_battle clear_field a)) (\<lambda>a1.
     bindR (InitAttackerPosition atks a1) BattleStart)))"

text \<open>\<open>Player::Engage\<close>: a player whose battle goes on starts no other one.\<close>

definition start_battle :: "uid \<Rightarrow> (arena \<Rightarrow> arena res) \<Rightarrow> arena \<Rightarrow> arena res" where
  "start_battle p engage a =
     (if ar_engine a p then Inr a
      else bindR (new_battle p (ar_b a)) (\<lambda>b. engage (a\<lparr>ar_engine := (ar_engine a)(p := True), ar_b := b\<rparr>)))"

subsection \<open>Pets that come and go\<close>

definition ActivatePetFor :: "uid \<Rightarrow> petid \<Rightarrow> arena \<Rightarrow> (bool \<times> arena) res" where
  "ActivatePetFor p x a =
     bindR (get_hero p a) (\<lambda>h.
       if h_battlePet h \<noteq> Some x then Inr (False, a)
       else bindR (GetPetPosFor p (ar_b a)) (\<lambda>pos.
         case pos of
           None \<Rightarrow> Inr (False, a)
         | Some (c, r) \<Rightarrow>
             bindR (pet_unit p x a) (\<lambda>(u, a1).
             bindR (place u c r a1) (\<lambda>a2.
             bindR (BuildUpdateBlockPetPosition u c r a2) (\<lambda>fs.
             bindR (to_set 0x0B fs a2) (\<lambda>a3. Inr (True, a3)))))))"

text \<open>The function ends without a \<open>return\<close> after it took the pet out: its result is the argument \<open>junk\<close>.\<close>

definition DeactivatePetFor :: "bool \<Rightarrow> uid \<Rightarrow> arena \<Rightarrow> (bool \<times> arena) res" where
  "DeactivatePetFor junk p a =
     bindR (get_hero p a) (\<lambda>h.
       if h_battlePet h = None then Inr (False, a)
       else bindR (GetPetPosFor p (ar_b a)) (\<lambda>pos.
         case pos of
           None \<Rightarrow> Inr (False, a)
         | Some (c, r) \<Rightarrow>
             bindR (grid_set c r None (ar_b a)) (\<lambda>b.
             bindR (to_set 0x0B [FU8 1, FU8 c, FU8 r] (a\<lparr>ar_b := b\<rparr>)) (\<lambda>a1. Inr (junk, a1)))))"

subsection \<open>Logging out of a battle\<close>

text \<open>
  \<open>Player::LeaveBattle\<close> and the part of \<open>Player::~Player\<close> before it. The battle ends with its last player; the
  pointers of others to the master are not looked at.
\<close>

definition Player_LeaveBattle :: "rules \<Rightarrow> uid \<Rightarrow> arena \<Rightarrow> arena res" where
  "Player_LeaveBattle cf p a =
     bindR (case b_masterOf (ar_b a) p of
              None \<Rightarrow> Inr a
            | Some m \<Rightarrow> if ar_engine a m then LeaveBattle cf p a else Inr a) (\<lambda>a1.
       Inr (a1\<lparr>ar_engine := (ar_engine a1)(p := False), ar_b := (ar_b a1)\<lparr>b_masterOf := (b_masterOf (ar_b a1))(p := None)\<rparr>\<rparr>))"

definition leave_as_player :: "rules \<Rightarrow> uid \<Rightarrow> arena \<Rightarrow> arena res" where
  "leave_as_player cf p a =
     (let a1 = (if ar_engine a p
                then case FindNewMaster a of (found, a') \<Rightarrow> if found then a' else a'\<lparr>ar_engine := (ar_engine a')(p := False)\<rparr>
                else a)
      in Player_LeaveBattle cf p a1)"

end
