(* ===== verification/BattleHandlers.thy ===== *)
theory BattleHandlers
  imports BattleStart
begin

text \<open>
  The packets of a fight (\<open>src/game/CombatHandler.cpp\<close>, \<open>src/game/PetHandler.cpp\<close>, \<open>src/game/ItemHandler.cpp\<close>):
  starting one, choosing an action, calling pets and using items in it. An arena is one battle: a handler
  that starts a battle replaces the one before it, so the players of an arena are those of one fight.
\<close>

definition isActionComplete :: "battle \<Rightarrow> bool" where
  "isActionComplete b \<longleftrightarrow> b_need b = b_count b"

definition IncAction :: "battle \<Rightarrow> battle" where
  "IncAction b = b\<lparr>b_count := b_count b + 1\<rparr>"

text \<open>The engine a player reaches through its battle master.\<close>

definition has_engine :: "uid \<Rightarrow> arena \<Rightarrow> bool" where
  "has_engine p a = (case b_masterOf (ar_b a) p of None \<Rightarrow> False | Some m \<Rightarrow> ar_engine a m)"

definition tell :: "uid \<Rightarrow> u8 \<Rightarrow> field list \<Rightarrow> arena \<Rightarrow> arena res" where
  "tell p opcode fs = with_hero p (\<lambda>h. Inr (say ToSession opcode fs h))"

definition build_actions :: "rules \<Rightarrow> arena \<Rightarrow> arena res" where
  "build_actions cf a = bindR (BuildActions (cf_sdb cf) (cf_agility cf) (ar_b a)) (\<lambda>b. Inr (a\<lparr>ar_b := b\<rparr>))"

definition build_if_complete :: "rules \<Rightarrow> arena \<Rightarrow> arena res" where
  "build_if_complete cf a = (if isActionComplete (ar_b a) then build_actions cf a else Inr a)"

subsection \<open>Starting a fight\<close>

definition accepts_pk :: "unit_rec \<Rightarrow> bool" where
  "accepts_pk u \<longleftrightarrow> uget u PLAYER_ENABLE_PK = 1"

text \<open>\<open>account\<close> finds a player by its account; \<open>npc\<close> the creature of a map by its number there, with its guid.\<close>

definition HandlePlayerBattleCommandOpcodes ::
  "rules \<Rightarrow> (u32 \<Rightarrow> uid option) \<Rightarrow> (u16 \<Rightarrow> u16 \<Rightarrow> (u32 \<times> u8) option) \<Rightarrow> uid \<Rightarrow> byte_buffer \<Rightarrow> arena \<Rightarrow> arena res" where
  "HandlePlayerBattleCommandOpcodes cf account npc p b a =
     (if bb_size b < 8 then Inr a
      else bindR (read_u8 b) (\<lambda>(cmd, b1).
        if cmd \<noteq> 2 then Inr a
        else bindR (read_u8 b1) (\<lambda>(kind, b2). bindR (read_u32 b2) (\<lambda>(target, b3). bindR (read_u16 b3) (\<lambda>(npcid, _).
          if kind = 2 then
            if \<not> accepts_pk (unit_of a p) then Inr a
            else (case account target of
                    None \<Rightarrow> Inr a
                  | Some enemy \<Rightarrow>
                      if \<not> accepts_pk (unit_of a enemy) then tell p 0x21 [FU8 1, FU8 1] a
                      else start_battle p (Engage_player p enemy) a)
          else if kind = 3 then
            bindR (get_hero p a) (\<lambda>h.
              case npc (h_map h) npcid of
                None \<Rightarrow> Inr a
              | Some (enemy, mapNpc) \<Rightarrow> start_battle p (Engage_creature cf p enemy mapNpc) a)
          else Inr a)))))"

subsection \<open>Choosing an action\<close>

definition chosen_skill :: "spell_db \<Rightarrow> unit_rec \<Rightarrow> u16 \<Rightarrow> u16" where
  "chosen_skill sdb u spell = (if \<not> HaveSpell spell u \<and> sdb spell = None then SPELL_BASIC else spell)"

definition player_attack :: "rules \<Rightarrow> uid \<Rightarrow> battle_action \<Rightarrow> arena \<Rightarrow> arena res" where
  "player_attack cf p act a =
     (if \<not> has_engine p a then Inr a
      else bindR (GetAttacker act (ar_b a)) (\<lambda>w.
        case w of
          None \<Rightarrow> Inl AssertFailed
        | Some i \<Rightarrow>
            if isActionComplete (ar_b a) then Inr a
            else bindR (AddBattleAction (act\<lparr>skill := chosen_skill (cf_sdb cf) (unit_of a i) (skill act)\<rparr>) (ar_b a)) (\<lambda>b1.
                 let a1 = a\<lparr>ar_b := IncAction b1\<rparr>
                 in if isActionComplete (ar_b a1) then build_actions cf a1
                    else tell p 0x35 [FU8 5, FU8 (atkCol act), FU8 (atkRow act)] a1)))"

definition HandlePlayerAttackOpcode :: "rules \<Rightarrow> uid \<Rightarrow> byte_buffer \<Rightarrow> arena \<Rightarrow> arena res" where
  "HandlePlayerAttackOpcode cf p b a =
     (if bb_size b < 7 then Inr a
      else bindR (read_u8 b) (\<lambda>(kind, b1). bindR (read_u8 b1) (\<lambda>(ac, b2). bindR (read_u8 b2) (\<lambda>(ar, b3).
           bindR (read_u8 b3) (\<lambda>(tc, b4). bindR (read_u8 b4) (\<lambda>(tr, b5). bindR (read_u16 b5) (\<lambda>(spell, _).
             let self = (spell = SPELL_DEFENSE \<or> spell = SPELL_ESCAPE)
             in player_attack cf p (BattleAction ac ar spell (if self then ac else tc) (if self then ar else tr)) a)))))))"

subsection \<open>Pets in a fight\<close>

text \<open>Where the player stands; the bytes are uninitialised, \<open>junk\<close>, when it is not on the field.\<close>

definition tell_turn :: "u8 \<times> u8 \<Rightarrow> uid \<Rightarrow> arena \<Rightarrow> arena res" where
  "tell_turn junk p a =
     (if \<not> has_engine p a then Inr a
      else bindR (GetPosFor p (ar_b a)) (\<lambda>pos.
        if isActionComplete (ar_b a) then Inr a
        else case (case pos of None \<Rightarrow> junk | Some cr \<Rightarrow> cr) of (c, r) \<Rightarrow> tell p 0x35 [FU8 5, FU8 c, FU8 r] a))"

definition inc_if :: "bool \<Rightarrow> arena \<Rightarrow> arena" where
  "inc_if ok = (if ok then on_battle IncAction else (\<lambda>a. a))"

definition pet_battle :: "bool \<Rightarrow> uid \<Rightarrow> u16 \<Rightarrow> arena \<Rightarrow> (bool \<times> arena) res" where
  "pet_battle junk p model a =
     bindR (get_hero p a) (\<lambda>h.
     bindR (GetPetByModelId model h) (\<lambda>pet.
       case pet of
         None \<Rightarrow> Inr (False, a)
       | Some x \<Rightarrow>
           let engine = has_engine p a
           in bindR (if engine then DeactivatePetFor junk p a else Inr (False, a)) (\<lambda>(out, a1).
              bindR (with_hero p (\<lambda>h. bindR (SetBattlePet None h) (\<lambda>h1. bindR (UpdateBattlePet h1) (SetBattlePet (Some x)))) (inc_if out a1)) (\<lambda>a2.
              bindR (if engine then ActivatePetFor p x a2 else Inr (False, a2)) (\<lambda>(in1, a3).
                Inr (True, inc_if in1 a3))))))"

definition pet_rest :: "bool \<Rightarrow> uid \<Rightarrow> arena \<Rightarrow> arena res" where
  "pet_rest junk p a =
     bindR (get_hero p a) (\<lambda>h.
     bindR (if has_engine p a \<and> h_battlePet h \<noteq> None
            then bindR (DeactivatePetFor junk p a) (\<lambda>(out, a1). Inr (inc_if True (inc_if out a1)))
            else Inr a) (with_hero p (SetBattlePet None)))"

definition HandlePetCommandOpcodes ::
  "rules \<Rightarrow> bool \<Rightarrow> u8 \<times> u8 \<Rightarrow> uid \<Rightarrow> byte_buffer \<Rightarrow> arena \<Rightarrow> arena res" where
  "HandlePetCommandOpcodes cf junk junkpos p b a =
     (if bb_size b < 1 then Inr a
      else bindR (read_u8 b) (\<lambda>(cmd, b1).
           bindR (tell_turn junkpos p a) (\<lambda>a1.
           bindR (if cmd = 1 then
                    if bb_size b < 4 then Inr (False, a1)
                    else bindR (read_u16 b1) (\<lambda>(model, _). pet_battle junk p model a1)
                  else if cmd = 2 then bindR (pet_rest junk p a1) (\<lambda>a2. Inr (True, a2))
                  else Inr (True, a1)) (\<lambda>(go, a2).
             if \<not> go then Inr a2
             else bindR (with_hero p UpdateBattlePet a2) (\<lambda>a3.
                  if has_engine p a then build_if_complete cf a3 else Inr a3)))))"

definition HandlePetReleaseOpcode :: "uid \<Rightarrow> byte_buffer \<Rightarrow> arena \<Rightarrow> arena res" where
  "HandlePetReleaseOpcode p b a =
     (if bb_size b < 2 then Inr a
      else bindR (read_u8 b) (\<lambda>(cmd, b1). bindR (read_u8 b1) (\<lambda>(slot, _).
             if slot = 0 \<or> unat slot > MAX_PET_SLOT then Inr a
             else if cmd = 2 then with_hero p (ReleasePet (slot - 1)) a else Inr a)))"

subsection \<open>Items in a fight\<close>

definition HandleUseItemOpcodes :: "rules \<Rightarrow> u8 \<times> u8 \<Rightarrow> uid \<Rightarrow> byte_buffer \<Rightarrow> arena \<Rightarrow> arena res" where
  "HandleUseItemOpcodes cf junkpos p b a =
     (if bb_size b < 1 then Inr a
      else bindR (read_u8 b) (\<lambda>(kind, b1).
           bindR (tell_turn junkpos p a) (\<lambda>a1.
           bindR (run_hero p (\<lambda>h.
                    bindR (use_item (cf_idb cf) kind b1 (h, b_holdrand (ar_b a1))) (\<lambda>(fin, h', hr). Inr ((fin, hr), h'))) a1)
             (\<lambda>((fin, hr), a2).
                let a3 = on_battle (\<lambda>b. b\<lparr>b_holdrand := hr\<rparr>) a2
                in if fin \<and> has_engine p a then build_if_complete cf (on_battle IncAction a3) else Inr a3))))"

end
