(* ===== verification/ArenaFrame.thy ===== *)
theory ArenaFrame
  imports BattleHandlers
begin

text \<open>
  What the operations of a battle leave alone. A property of an arena that survives a few elementary changes
  survives every operation: the locale \<open>quiet_inv\<close> holds the changes that hits, rewards and catching are made of,
  \<open>turn_inv\<close> adds leaving, \<open>battle_inv\<close> what a tick and the packets change, and \<open>engage_inv\<close> joining.
\<close>

subsection \<open>Elementary changes\<close>

definition quiet :: "battle \<Rightarrow> battle \<Rightarrow> bool" where
  "quiet b b' \<longleftrightarrow> b_wait b' = b_wait b \<and> b_actionTime b' = b_actionTime b \<and> b_animTime b' = b_animTime b \<and>
     b_animTimeItem b' = b_animTimeItem b \<and> b_Actions b' = b_Actions b \<and> b_master b' = b_master b \<and>
     b_masterOf b' = b_masterOf b \<and> b_players b' = b_players b \<and> length (b_grid b') = length (b_grid b)"

definition same_cast :: "battle \<Rightarrow> battle \<Rightarrow> bool" where
  "same_cast b b' \<longleftrightarrow> b_master b' = b_master b \<and> b_masterOf b' = b_masterOf b \<and> b_players b' = b_players b \<and>
     length (b_grid b') = length (b_grid b) \<and> length (b_Actions b') = length (b_Actions b)"

lemma quiet_same_cast: "quiet b b' \<Longrightarrow> same_cast b b'"
  by (simp add: quiet_def same_cast_def)

text \<open>A player that leaves is taken from the list and forgets its master.\<close>

definition drop_player :: "uid \<Rightarrow> battle \<Rightarrow> battle" where
  "drop_player p b = b\<lparr>b_masterOf := (b_masterOf b)(p := None), b_players := filter (\<lambda>q. q \<noteq> p) (b_players b)\<rparr>"

lemma on_battle_comp: "on_battle (f \<circ> g) a = on_battle f (on_battle g a)"
  by (simp add: on_battle_def)

named_theorems keeps "operations that keep a property of the arena, as destruction rules"

subsection \<open>Within a turn\<close>

locale quiet_inv =
  fixes Q :: "arena \<Rightarrow> bool"
  assumes quiet_change: "Q a \<Longrightarrow> quiet (ar_b a) b \<Longrightarrow> Q (a\<lparr>ar_b := b\<rparr>)"
    and hero_change: "Q a \<Longrightarrow> ar_hero a p \<noteq> None \<Longrightarrow> Q (a\<lparr>ar_hero := (ar_hero a)(p \<mapsto> h)\<rparr>)"
    and pets_change: "Q a \<Longrightarrow> Q (a\<lparr>ar_next := n, ar_pets := ps\<rparr>)"
    and cache_change: "Q a \<Longrightarrow> Q (a\<lparr>ar_cache := c\<rparr>)"
    and low_change: "Q a \<Longrightarrow> Q (a\<lparr>ar_petLow := l\<rparr>)"
begin

lemma on_quiet: "Q a \<Longrightarrow> quiet (ar_b a) (f (ar_b a)) \<Longrightarrow> Q (on_battle f a)"
  by (simp add: on_battle_def quiet_change)

lemma small_changes [intro!]:
  "Q a \<Longrightarrow> Q (on_unit i g a)" "Q a \<Longrightarrow> Q (record_msg ps opcode fs a)"
  "Q a \<Longrightarrow> Q (on_battle (\<lambda>b. b\<lparr>b_rand32 := s1 b\<rparr>) a)" "Q a \<Longrightarrow> Q (on_battle (\<lambda>b. b\<lparr>b_holdrand := s2 b\<rparr>) a)"
  "Q a \<Longrightarrow> Q (on_battle (\<lambda>b. b\<lparr>b_items := its b\<rparr>) a)" "Q a \<Longrightarrow> Q (on_battle (\<lambda>b. b\<lparr>b_killed := k b\<rparr>) a)"
  "Q a \<Longrightarrow> Q (a\<lparr>ar_cache := c\<rparr>)" "Q a \<Longrightarrow> Q (a\<lparr>ar_petLow := l\<rparr>)" "Q a \<Longrightarrow> Q (a\<lparr>ar_next := n, ar_pets := qs\<rparr>)"
  by (auto simp: on_unit_def record_msg_def upd_unit_def quiet_def cache_change low_change pets_change intro!: on_quiet)

lemma push_change: "Q a \<Longrightarrow> ar_hero a p \<noteq> None \<Longrightarrow> Q (push p h a)"
proof -
  assume a: "Q a" "ar_hero a p \<noteq> None"
  have "push p h a = (on_battle (\<lambda>b. b\<lparr>b_units := pushed p h a\<rparr>) a)\<lparr>ar_hero := (ar_hero a)(p \<mapsto> h)\<rparr>"
    by (simp add: push_def on_battle_def)
  also have "Q \<dots>"
    using hero_change [of "on_battle (\<lambda>b. b\<lparr>b_units := pushed p h a\<rparr>) a" p h] on_quiet [OF a(1)] a(2)
    by (simp add: on_battle_def quiet_def)
  finally show "Q (push p h a)" .
qed

lemma draw_keeps [keeps]: "draw a = (r, b) \<Longrightarrow> Q a \<longrightarrow> Q b"
  by (auto simp: draw_def split: prod.splits)

lemma run_hero_keeps [keeps]: "run_hero p f a = Inr (r, b) \<Longrightarrow> Q a \<longrightarrow> Q b"
  by (auto simp: run_hero_def get_hero_def bindR_eq_Inr split: option.splits intro: push_change)

lemma with_hero_keeps [keeps]: "with_hero p f a = Inr b \<Longrightarrow> Q a \<longrightarrow> Q b"
  by (auto simp: with_hero_def bindR_eq_Inr dest!: keeps)

lemma pet_unit_keeps [keeps]: "pet_unit p x a = Inr (u, b) \<Longrightarrow> Q a \<longrightarrow> Q b"
  by (auto simp: pet_unit_def bindR_eq_Inr Let_def split: option.splits)

lemma battle_pet_keeps [keeps]: "battle_pet p a = Inr (u, b) \<Longrightarrow> Q a \<longrightarrow> Q b"
  by (auto simp: battle_pet_def bindR_eq_Inr split: option.splits dest!: keeps)

lemma pet_changed_keeps [keeps]: "pet_changed u a = Inr b \<Longrightarrow> Q a \<longrightarrow> Q b"
  by (auto simp: pet_changed_def split: option.splits if_splits dest!: keeps)

lemma to_set_keeps [keeps]: "to_set opcode fs a = Inr b \<Longrightarrow> Q a \<longrightarrow> Q b"
  by (auto simp: to_set_def split: if_splits)

lemma to_player_keeps [keeps]: "to_player who opcode fs a = Inr b \<Longrightarrow> Q a \<longrightarrow> Q b"
  by (auto simp: to_player_def split: option.splits)

lemma AddKillExpGained_keeps [keeps]: "AddKillExpGained cf k v l a = Inr b \<Longrightarrow> Q a \<longrightarrow> Q b"
  by (auto simp: AddKillExpGained_def bindR_eq_Inr Let_def split: if_splits dest!: keeps)

lemma AddHitExpGained_keeps [keeps]: "AddHitExpGained cf k v l a = Inr b \<Longrightarrow> Q a \<longrightarrow> Q b"
  by (auto simp: AddHitExpGained_def Let_def split: if_splits dest!: keeps)

lemma GetItemDropped_keeps [keeps]: "GetItemDropped cf u i a = (r, b) \<Longrightarrow> Q a \<longrightarrow> Q b"
  by (auto simp: GetItemDropped_def Let_def split: prod.splits option.splits if_splits dest!: keeps)

lemma first_drop_keeps [keeps]: "first_drop cf u is a = (r, b) \<Longrightarrow> Q a \<longrightarrow> Q b"
  by (induction cf u "is" a rule: first_drop.induct) (auto split: prod.splits if_splits dest!: keeps)

lemma new_item_for_keeps [keeps]: "new_item_for cf p m n a = Inr (ok, b) \<Longrightarrow> Q a \<longrightarrow> Q b"
  by (auto simp: new_item_for_def bindR_eq_Inr dest!: keeps)

lemma give_drop_keeps [keeps]: "give_drop cf act p v a = Inr b \<Longrightarrow> Q a \<longrightarrow> Q b"
  by (auto simp: give_drop_def bindR_eq_Inr split: prod.splits if_splits dest!: keeps)

lemma drop_between_keeps [keeps]: "drop_between cf act u v a = Inr b \<Longrightarrow> Q a \<longrightarrow> Q b"
  by (auto simp: drop_between_def split: option.splits if_splits dest!: keeps)

lemma AddKillItemDropped_keeps [keeps]: "AddKillItemDropped cf act a = Inr b \<Longrightarrow> Q a \<longrightarrow> Q b"
proof -
  assume run: "AddKillItemDropped cf act a = Inr b"
  obtain r a1 where d: "draw a = (r, a1)" by fastforce
  then have k: "Q a \<longrightarrow> Q a1" by (rule draw_keeps)
  have "b = a1 \<or> (\<exists>u v. drop_between cf act u v a1 = Inr b)"
    using run by (cases "GetAttacker act (ar_b a1)"; cases "GetVictim act (ar_b a1)")
      (auto simp: AddKillItemDropped_def d split: if_splits option.splits)
  then show ?thesis using k by (auto dest!: keeps)
qed

lemma SendItemDropped_keeps [keeps]: "SendItemDropped it a = Inr b \<Longrightarrow> Q a \<longrightarrow> Q b"
  by (auto simp: SendItemDropped_def bindR_eq_Inr split: option.splits dest!: keeps)

lemma flush_drops_keeps [keeps]: "flush_drops d a = Inr b \<Longrightarrow> Q a \<longrightarrow> Q b"
  by (auto simp: flush_drops_def split: prod.splits option.splits if_splits dest!: keeps)

lemma give_drops_keeps [keeps]: "give_drops its prev d a = Inr b \<Longrightarrow> Q a \<longrightarrow> Q b"
proof (induction its arbitrary: prev d a)
  case Nil
  then show ?case by (auto dest!: keeps)
next
  case (Cons it its)
  then show ?case by (auto simp: bindR_eq_Inr Let_def split: if_splits dest!: keeps Cons.IH)
qed

subsection \<open>Hits\<close>

lemma CanCatchPet_keeps [keeps]: "CanCatchPet c v a = (r, b) \<Longrightarrow> Q a \<longrightarrow> Q b"
  by (auto simp: CanCatchPet_def Let_def split: prod.splits option.splits if_splits dest!: keeps)

lemma catch_for_keeps [keeps]: "catch_for cf jk c v a = Inr (r, b) \<Longrightarrow> Q a \<longrightarrow> Q b"
  by (auto simp: catch_for_def Let_def split: prod.splits option.splits if_splits dest!: keeps)

lemma try_catch_keeps [keeps]: "try_catch cf jk act a = Inr (r, b) \<Longrightarrow> Q a \<longrightarrow> Q b"
  by (auto simp: try_catch_def bindR_eq_Inr split: option.splits if_splits dest!: keeps)

lemma deal_hit_keeps [keeps]: "deal_hit cf hit w v d l a = Inr b \<Longrightarrow> Q a \<longrightarrow> Q b"
  by (auto simp: deal_hit_def bindR_eq_Inr Let_def split: prod.splits if_splits dest!: keeps)

lemma SpellMod_keeps [keeps]:
  "BuildUpdateBlockSpellMod cf hit info w v d m l c a = Inr (fs, b) \<Longrightarrow> Q a \<longrightarrow> Q b"
  by (auto simp: BuildUpdateBlockSpellMod_def bindR_eq_Inr Let_def split: prod.splits option.splits if_splits dest!: keeps)

lemma grid_set_keeps [keeps]: "grid_set c r u (ar_b a) = Inr b \<Longrightarrow> Q a \<longrightarrow> Q (a\<lparr>ar_b := b\<rparr>)"
  by (auto simp: grid_set_def quiet_def intro!: quiet_change split: if_splits)

lemma hit_units_keeps [keeps]: "hit_units cf act info l c hit w v (fs, a) = Inr (gs, b) \<Longrightarrow> Q a \<longrightarrow> Q b"
  by (auto simp: hit_units_def bindR_eq_Inr split: if_splits dest!: keeps)

lemma hit_block_keeps [keeps]: "hit_block cf act info l c hit (fs, a) = Inr (gs, b) \<Longrightarrow> Q a \<longrightarrow> Q b"
  by (auto simp: hit_block_def bindR_eq_Inr split: option.splits dest!: keeps)

lemma hit_blocks_keep [keeps]: "foldR (hit_block cf act info l c) hits (fs, a) = Inr (gs, b) \<Longrightarrow> Q a \<longrightarrow> Q b"
proof (induction hits arbitrary: fs a)
  case Nil
  then show ?case by simp
next
  case (Cons hit hits)
  then show ?case by (auto simp: bindR_eq_Inr dest!: keeps Cons.IH)
qed

lemma ActionBlock_keeps [keeps]: "BuildUpdateBlockAction cf jk act l (data, a) = Inr (gs, b) \<Longrightarrow> Q a \<longrightarrow> Q b"
  by (auto simp: BuildUpdateBlockAction_def bindR_eq_Inr split: option.splits if_splits dest!: keeps)

lemma clear_unit_keeps: "Q a \<Longrightarrow> Q (on_battle (clear_unit u) a)"
  by (rule on_quiet) (simp_all add: clear_unit_def quiet_def)

lemma GiveExpGainedFor_keeps [keeps]: "GiveExpGainedFor cf p a = Inr b \<Longrightarrow> Q a \<longrightarrow> Q b"
  by (auto simp: GiveExpGainedFor_def bindR_eq_Inr dest!: keeps)

lemma foldR_keeps: "(\<And>x s t. f x s = Inr t \<Longrightarrow> Q s \<longrightarrow> Q t) \<Longrightarrow> foldR f xs a = Inr b \<Longrightarrow> Q a \<longrightarrow> Q b"
  using foldR_invariant [of xs Q f a b] by blast

lemma show_players_keep [keeps]: "foldR show_player ps a = Inr b \<Longrightarrow> Q a \<longrightarrow> Q b"
  by (rule foldR_keeps [rotated]) (auto simp: show_player_def dest!: keeps)

lemma stop_cells_keep [keeps]: "foldR (stop_cell cf) ps a = Inr b \<Longrightarrow> Q a \<longrightarrow> Q b"
  by (rule foldR_keeps [rotated]) (auto simp: stop_cell_def bindR_eq_Inr split: option.splits if_splits dest!: keeps)

end

subsection \<open>Leaving\<close>

locale turn_inv = quiet_inv +
  assumes leave_change: "Q a \<Longrightarrow> Q (on_battle (drop_player p) a)"
begin

lemma LeaveBattle_keeps [keeps]: "LeaveBattle cf p a = Inr b \<Longrightarrow> Q a \<longrightarrow> Q b"
  by (auto simp: LeaveBattle_def bindR_eq_Inr Let_def on_battle_comp drop_player_def [symmetric] on_battle_def [of "\<lambda>b. b"]
        split: if_splits intro!: clear_unit_keeps leave_change dest!: keeps)

lemma Escaped_keeps [keeps]: "Escaped cf act a = Inr b \<Longrightarrow> Q a \<longrightarrow> Q b"
  by (auto simp: Escaped_def bindR_eq_Inr Let_def split: option.splits dest!: keeps)

lemma send_group_keeps [keeps]: "send_group cf jk acts l d a = Inr (r, d', b) \<Longrightarrow> Q a \<longrightarrow> Q b"
proof (induction acts arbitrary: l d a)
  case Nil
  then show ?case by (cases d) auto
next
  case (Cons act acts)
  obtain data sk valid where d: "d = (data, sk, valid)" by (cases d)
  show ?case
    using Cons.prems unfolding d
    by (auto simp: bindR_eq_Inr Let_def split: prod.split_asm option.split_asm if_split_asm dest!: keeps Cons.IH)
qed

end

subsection \<open>Building the actions\<close>

lemma same_cast_trans: "same_cast b c \<Longrightarrow> same_cast c d \<Longrightarrow> same_cast b d"
  by (simp add: same_cast_def)

lemma AddBattleAction_cast: "AddBattleAction act b = Inr b' \<Longrightarrow> same_cast b b'"
  by (auto simp: AddBattleAction_def bindR_eq_Inr same_cast_def split: option.splits)

lemma ai_spell_cast: "ai_spell sdb u s b = Inr (t, b') \<Longrightarrow> same_cast b b'"
  by (auto simp: ai_spell_def bindR_eq_Inr same_cast_def Let_def split: prod.splits if_splits)

lemma ai_unit_cast:
  assumes "ai_unit sdb p (s, b) = Inr (t, b')"
  shows "same_cast b b'"
proof -
  obtain c r where p: "p = (c, r)" by (cases p)
  have self: "same_cast b b" by (simp add: same_cast_def)
  obtain q where q: "grid_get b c r = Inr q"
    using assms by (auto simp: p ai_unit_def bindR_eq_Inr)
  show ?thesis
  proof (cases "b' = b")
    case False
    with assms q obtain i where i: "q = Some i" by (cases q) (auto simp: p ai_unit_def)
    have "bindR (ai_spell sdb (unit_at b i) s b) (\<lambda>(s1, b1). bindR (first_living (by_rows atk_cols) b1) (\<lambda>pos.
            case pos of None \<Rightarrow> Inr (s1, b1)
            | Some (c2, r2) \<Rightarrow> bindR (AddBattleAction (BattleAction c r s1 c2 r2) b1) (\<lambda>b2. Inr (s1, b2)))) = Inr (t, b')"
      using assms q False by (simp add: p i ai_unit_def Let_def split: if_split_asm)
    then obtain s1 b1 pos where r: "ai_spell sdb (unit_at b i) s b = Inr (s1, b1)"
      "(case pos of None \<Rightarrow> Inr (s1, b1)
        | Some (c2, r2) \<Rightarrow> bindR (AddBattleAction (BattleAction c r s1 c2 r2) b1) (\<lambda>b2. Inr (s1, b2))) = Inr (t, b')"
      by (simp only: bindR_eq_Inr split_paired_Ex prod.case) blast
    show ?thesis
      using ai_spell_cast [OF r(1)] r(2) by (cases pos) (auto simp: bindR_eq_Inr dest!: AddBattleAction_cast intro: same_cast_trans)
  qed (simp add: self)
qed

lemma AIMove_cast:
  assumes "AIMove sdb b = Inr b'"
  shows "same_cast b b'"
proof -
  obtain s where f: "foldR (ai_unit sdb) (by_rows def_cols) (SPELL_BASIC, b) = Inr (s, b')"
    using assms by (auto simp: AIMove_def bindR_eq_Inr)
  have "same_cast b (snd (s, b'))"
    by (rule foldR_invariant [where P = "\<lambda>z. same_cast b (snd z)", OF _ _ f])
      (auto dest!: ai_unit_cast simp: same_cast_def)
  then show ?thesis by simp
qed

lemma push_action_cast: "push_action i act b = Inr b' \<Longrightarrow> same_cast b b'"
  by (auto simp: push_action_def same_cast_def split: if_splits)

lemma CanLink_cast: "CanLink sdb rate p act b = Inr (l, b') \<Longrightarrow> same_cast b b'"
  by (drule CanLink_cases) (auto simp: same_cast_def)

lemma group_actions_cast: "group_actions sdb rate acts prev i b = Inr b' \<Longrightarrow> same_cast b b'"
proof (induction acts arbitrary: prev i b)
  case Nil
  then show ?case by (simp add: same_cast_def)
next
  case (Cons act acts)
  have step: "same_cast b b'" if "push_action j act c = Inr d" "group_actions sdb rate acts (Some act) j d = Inr b'" "same_cast b c" for c d j
    using push_action_cast [OF that(1)] Cons.IH [OF that(2)] that(3) by (blast intro: same_cast_trans)
  have "same_cast b b" by (simp add: same_cast_def)
  with Cons.prems show ?case
    by (auto simp: bindR_eq_Inr split: if_splits option.splits intro: step dest: CanLink_cast)
qed

lemma BuildActions_cast:
  assumes "BuildActions sdb rate b = Inr b'"
  shows "same_cast b b'"
proof -
  let ?b = "b\<lparr>b_wait := False, b_actionTime := 0, b_Actions := map (\<lambda>_. []) (b_Actions b)\<rparr>"
  obtain c where c: "AIMove sdb ?b = Inr c" "group_actions sdb rate (sort_agility (b_unitTurn c)) None 0 (c\<lparr>b_unitTurn := []\<rparr>) = Inr b'"
    using assms by (auto simp: BuildActions_def bindR_eq_Inr Let_def)
  show ?thesis
    using AIMove_cast [OF c(1)] group_actions_cast [OF c(2)] by (simp add: same_cast_def)
qed

lemma reset_cell_Inr:
  assumes "reset_cell (c, r) a = Inr b"
  obtains "grid_get (ar_b a) c r = Inr None" "b = a"
  | i a1 a2 a3 rel u1 ex u2 where "grid_get (ar_b a) c r = Inr (Some i)"
      "a1 = (if fights_for_players (unit_of a i) \<and> \<not> isDead (unit_of a i) \<and> \<not> isDisabled (unit_of a i)
             then on_battle (\<lambda>b. b\<lparr>b_need := b_need b + 1\<rparr>) a else a)"
      "isReleaseFromDisabledState (unit_of a i) = (rel, u1)" "isPositiveBufExpired u1 = (ex, u2)"
      "(if rel then release_msg c r 1 (on_unit i (\<lambda>_. u1) a1) else Inr (on_unit i (\<lambda>_. u1) a1)) = Inr a2"
      "(if ex then release_msg c r 2 (on_unit i (\<lambda>_. u2) a2) else Inr (on_unit i (\<lambda>_. u2) a2)) = Inr a3"
      "b = on_unit i (clearUnitState UNIT_STATE_DEFEND) a3"
proof -
  obtain q where q: "grid_get (ar_b a) c r = Inr q"
    using assms by (auto simp: reset_cell_def bindR_eq_Inr)
  show thesis
  proof (cases q)
    case None
    then have "grid_get (ar_b a) c r = Inr None" "b = a" using assms q by (auto simp: reset_cell_def)
    then show ?thesis by (rule that(1))
  next
    case (Some i)
    obtain rel u1 where u1: "isReleaseFromDisabledState (unit_of a i) = (rel, u1)" by (rule prod.exhaust)
    obtain ex u2 where u2: "isPositiveBufExpired u1 = (ex, u2)" by (rule prod.exhaust)
    define a1 where "a1 = (if fights_for_players (unit_of a i) \<and> \<not> isDead (unit_of a i) \<and> \<not> isDisabled (unit_of a i)
             then on_battle (\<lambda>b. b\<lparr>b_need := b_need b + 1\<rparr>) a else a)"
    have "bindR (if rel then release_msg c r 1 (on_unit i (\<lambda>_. u1) a1) else Inr (on_unit i (\<lambda>_. u1) a1)) (\<lambda>a2.
          bindR (if ex then release_msg c r 2 (on_unit i (\<lambda>_. u2) a2) else Inr (on_unit i (\<lambda>_. u2) a2)) (\<lambda>a3.
            Inr (on_unit i (clearUnitState UNIT_STATE_DEFEND) a3))) = Inr b"
      using assms by (simp only: reset_cell_def a1_def Let_def u1 u2 q Some bindR_Inr prod.case option.case)
    then obtain a2 a3 where run: "(if rel then release_msg c r 1 (on_unit i (\<lambda>_. u1) a1) else Inr (on_unit i (\<lambda>_. u1) a1)) = Inr a2"
      "(if ex then release_msg c r 2 (on_unit i (\<lambda>_. u2) a2) else Inr (on_unit i (\<lambda>_. u2) a2)) = Inr a3"
      "b = on_unit i (clearUnitState UNIT_STATE_DEFEND) a3"
      by (simp only: bindR_eq_Inr sum.inject) blast
    show ?thesis
      by (rule that(2) [OF _ a1_def u1 u2 run]) (simp add: q Some)
  qed
qed

lemma stop_players_Inr: "stop_players cf a = Inr b \<Longrightarrow> b = a \<and> b_players (ar_b a) = []"
  by (cases "b_players (ar_b a)") (auto simp: stop_players_def bindR_eq_Inr)

subsection \<open>Ticks and packets\<close>

locale battle_inv = turn_inv +
  assumes cast_change: "Q a \<Longrightarrow> same_cast (ar_b a) b \<Longrightarrow> Q (a\<lparr>ar_b := b\<rparr>)"
begin

lemma on_cast: "Q a \<Longrightarrow> same_cast (ar_b a) (f (ar_b a)) \<Longrightarrow> Q (on_battle f a)"
  by (simp add: on_battle_def cast_change)

lemma clock_changes [intro!]:
  "Q a \<Longrightarrow> Q (on_battle (\<lambda>b. b\<lparr>b_need := n1 b\<rparr>) a)" "Q a \<Longrightarrow> Q (on_battle (\<lambda>b. b\<lparr>b_wait := w b\<rparr>) a)"
  "Q a \<Longrightarrow> Q (on_battle (\<lambda>b. b\<lparr>b_animTimeItem := t1 b\<rparr>) a)" "Q a \<Longrightarrow> Q (on_battle (\<lambda>b. b\<lparr>b_animTime := t2 b\<rparr>) a)"
  "Q a \<Longrightarrow> Q (on_battle (\<lambda>b. b\<lparr>b_animTimeItem := t3 b, b_items := its b\<rparr>) a)"
  "Q a \<Longrightarrow> Q (on_battle (\<lambda>b. b\<lparr>b_actionTime := t4 b, b_count := c1 b, b_need := n2 b\<rparr>) a)"
  "Q a \<Longrightarrow> Q (on_battle (\<lambda>b. b\<lparr>b_Actions := (b_Actions b)[i := g]\<rparr>) a)"
  "Q a \<Longrightarrow> Q (on_battle (WaitForAnimation sk) a)" "Q a \<Longrightarrow> Q (on_battle IncAction a)"
  by (auto simp: same_cast_def WaitForAnimation_def IncAction_def intro!: on_cast)

lemma GiveItemDropped_keeps [keeps]: "GiveItemDropped cf jk a = Inr b \<Longrightarrow> Q a \<longrightarrow> Q b"
  by (auto simp: GiveItemDropped_def Let_def split: if_splits dest!: keeps)

lemma BattleConcluded_keeps [keeps]: "BattleConcluded cf jk a = Inr (f, b) \<Longrightarrow> Q a \<longrightarrow> Q b"
  by (auto simp: BattleConcluded_def bindR_eq_Inr split: if_splits dest!: keeps)

lemma unlink_group_keeps [keeps]: "unlink_group i g a = Inr (acts, b) \<Longrightarrow> Q a \<longrightarrow> Q b"
  by (auto simp: unlink_group_def bindR_eq_Inr split: if_splits)

lemma SendAction_keeps [keeps]: "SendAction cf jk a = Inr (s, b) \<Longrightarrow> Q a \<longrightarrow> Q b"
  by (auto simp: SendAction_def bindR_eq_Inr split: option.splits if_splits prod.splits dest!: keeps)

lemma release_msg_keeps [keeps]: "release_msg c r f a = Inr b \<Longrightarrow> Q a \<longrightarrow> Q b"
  by (auto simp: release_msg_def dest!: keeps)

lemma reset_cell_keeps [keeps]: "reset_cell p a = Inr b \<Longrightarrow> Q a \<longrightarrow> Q b"
  by (cases p) (auto elim!: reset_cell_Inr split: if_splits dest!: keeps)

lemma reset_cells_keep [keeps]: "foldR reset_cell ps a = Inr b \<Longrightarrow> Q a \<longrightarrow> Q b"
  by (rule foldR_keeps [rotated]) (auto dest!: keeps)

lemma ResetAction_keeps [keeps]: "ResetAction a = Inr b \<Longrightarrow> Q a \<longrightarrow> Q b"
  by (auto simp: ResetAction_def dest!: keeps)

lemma SendTurnComplete_keeps [keeps]: "SendTurnComplete a = Inr b \<Longrightarrow> Q a \<longrightarrow> Q b"
  by (auto simp: SendTurnComplete_def bindR_eq_Inr dest!: keeps)

lemma BattleStop_keeps [keeps]: "BattleStop cf a = Inr b \<Longrightarrow> Q a \<longrightarrow> Q b"
  by (auto simp: BattleStop_def bindR_eq_Inr split: option.splits if_splits dest!: keeps stop_players_Inr)

lemma UpdateBattleAction_keeps [keeps]: "UpdateBattleAction cf jk a = Inr b \<Longrightarrow> Q a \<longrightarrow> Q b"
  by (auto simp: UpdateBattleAction_def bindR_eq_Inr split: if_splits dest!: keeps)

lemma BuildActions_keeps: "BuildActions sdb rate (ar_b a) = Inr b \<Longrightarrow> Q a \<longrightarrow> Q (a\<lparr>ar_b := b\<rparr>)"
  by (auto intro: cast_change BuildActions_cast)

lemma build_actions_keeps [keeps]: "build_actions cf a = Inr b \<Longrightarrow> Q a \<longrightarrow> Q b"
  by (auto simp: build_actions_def bindR_eq_Inr dest!: BuildActions_keeps)

lemma build_if_complete_keeps [keeps]: "build_if_complete cf a = Inr b \<Longrightarrow> Q a \<longrightarrow> Q b"
  by (auto simp: build_if_complete_def split: if_splits dest!: keeps)

lemma AddBattleAction_keeps [keeps]: "AddBattleAction act (ar_b a) = Inr b \<Longrightarrow> Q a \<longrightarrow> Q (a\<lparr>ar_b := IncAction b\<rparr>)"
  by (auto intro!: cast_change dest!: AddBattleAction_cast simp: same_cast_def IncAction_def)

lemma tell_keeps [keeps]: "tell p opcode fs a = Inr b \<Longrightarrow> Q a \<longrightarrow> Q b"
  by (auto simp: tell_def dest!: keeps)

lemma player_attack_keeps [keeps]: "player_attack cf p act a = Inr b \<Longrightarrow> Q a \<longrightarrow> Q b"
  by (auto simp: player_attack_def bindR_eq_Inr Let_def split: if_splits option.splits dest!: keeps)

lemma HandlePlayerAttack_keeps [keeps]: "HandlePlayerAttackOpcode cf p pk a = Inr b \<Longrightarrow> Q a \<longrightarrow> Q b"
  by (auto simp: HandlePlayerAttackOpcode_def bindR_eq_Inr Let_def split: if_splits dest!: keeps)

lemma tell_turn_keeps [keeps]: "tell_turn jk p a = Inr b \<Longrightarrow> Q a \<longrightarrow> Q b"
  by (auto simp: tell_turn_def bindR_eq_Inr split: if_splits prod.splits option.splits dest!: keeps)

lemma DeactivatePetFor_keeps [keeps]: "DeactivatePetFor jk p a = Inr (r, b) \<Longrightarrow> Q a \<longrightarrow> Q b"
  by (auto simp: DeactivatePetFor_def bindR_eq_Inr split: option.splits if_splits dest!: keeps)

lemma place_keeps [keeps]: "place u c r a = Inr b \<Longrightarrow> Q a \<longrightarrow> Q b"
  by (auto simp: place_def SetPosition_def bindR_eq_Inr dest!: keeps)

lemma ActivatePetFor_keeps [keeps]: "ActivatePetFor p x a = Inr (r, b) \<Longrightarrow> Q a \<longrightarrow> Q b"
  by (auto simp: ActivatePetFor_def bindR_eq_Inr split: option.splits if_splits dest!: keeps)

lemma inc_if_keeps [intro!]: "Q a \<Longrightarrow> Q (inc_if ok a)"
  by (auto simp: inc_if_def)

lemma pet_battle_keeps [keeps]: "pet_battle jk p m a = Inr (r, b) \<Longrightarrow> Q a \<longrightarrow> Q b"
  by (auto simp: pet_battle_def bindR_eq_Inr Let_def split: option.splits if_splits dest!: keeps)

lemma pet_rest_keeps [keeps]: "pet_rest jk p a = Inr b \<Longrightarrow> Q a \<longrightarrow> Q b"
  by (auto simp: pet_rest_def bindR_eq_Inr split: option.splits if_splits dest!: keeps)

lemma HandlePetCommand_keeps [keeps]: "HandlePetCommandOpcodes cf jk jp p pk a = Inr b \<Longrightarrow> Q a \<longrightarrow> Q b"
  by (auto simp: HandlePetCommandOpcodes_def bindR_eq_Inr split: if_splits dest!: keeps)

lemma HandlePetRelease_keeps [keeps]: "HandlePetReleaseOpcode p pk a = Inr b \<Longrightarrow> Q a \<longrightarrow> Q b"
  by (auto simp: HandlePetReleaseOpcode_def bindR_eq_Inr split: if_splits dest!: keeps)

lemma HandleUseItem_keeps [keeps]: "HandleUseItemOpcodes cf jp p pk a = Inr b \<Longrightarrow> Q a \<longrightarrow> Q b"
  by (auto simp: HandleUseItemOpcodes_def bindR_eq_Inr Let_def split: if_splits dest!: keeps)

subsection \<open>The start of a battle\<close>

lemma count_keeps [intro!]: "Q a \<Longrightarrow> Q (a\<lparr>ar_next := n\<rparr>)"
  using pets_change [where a = a and n = n and ps = "ar_pets a"] by simp

lemma to_cell_keeps [keeps]: "to_cell col opcode fs r a = Inr b \<Longrightarrow> Q a \<longrightarrow> Q b"
  by (auto simp: to_cell_def bindR_eq_Inr split: option.splits if_splits dest!: keeps)

lemma to_column_keeps [keeps]: "to_column col opcode fs a = Inr b \<Longrightarrow> Q a \<longrightarrow> Q b"
  unfolding to_column_def by (rule foldR_keeps [rotated]) (auto dest!: keeps)

lemma ScreenTrigger_keeps [keeps]: "BattleScreenTrigger a = Inr b \<Longrightarrow> Q a \<longrightarrow> Q b"
  by (auto simp: BattleScreenTrigger_def BattleScreenTrigger2_def bindR_eq_Inr dest!: keeps)

lemma SendPetPosition_keeps [keeps]: "SendPetPosition a = Inr b \<Longrightarrow> Q a \<longrightarrow> Q b"
  unfolding SendPetPosition_def
  by (rule foldR_keeps [rotated]) (auto simp: send_pet_cell_def bindR_eq_Inr split: option.splits dest!: keeps)

lemma send_defender_cell_keeps: "send_defender_cell p (n, a) = Inr (m, b) \<Longrightarrow> Q a \<longrightarrow> Q b"
proof -
  assume run: "send_defender_cell p (n, a) = Inr (m, b)"
  obtain c r where p: "p = (c, r)" by (cases p)
  obtain q where q: "grid_get (ar_b a) c r = Inr q"
    using run by (auto simp: p send_defender_cell_def bindR_eq_Inr)
  show ?thesis
    using run q by (cases q) (auto simp: p send_defender_cell_def bindR_eq_Inr Let_def split: if_split_asm dest!: keeps)
qed

lemma SendDefenderPosition_keeps [keeps]: "SendDefenderPosition a = Inr b \<Longrightarrow> Q a \<longrightarrow> Q b"
proof -
  assume "SendDefenderPosition a = Inr b"
  then obtain n where "foldR send_defender_cell (by_cols [0]) (0, a) = Inr (n, b)"
    by (auto simp: SendDefenderPosition_def bindR_eq_Inr)
  then have "Q (snd (0 :: u8, a)) \<Longrightarrow> Q (snd (n, b))"
    by (rule foldR_invariant [where P = "\<lambda>z. Q (snd z)", rotated 2]) (auto dest!: send_defender_cell_keeps)
  then show ?thesis by simp
qed

lemma BattleStart_keeps [keeps]: "BattleStart a = Inr b \<Longrightarrow> Q a \<longrightarrow> Q b"
proof -
  have heroes: "foldR (\<lambda>p. with_hero p f) ps x = Inr y \<Longrightarrow> Q x \<longrightarrow> Q y" for f ps x y
    by (rule foldR_keeps [rotated]) (auto dest!: keeps)
  show "BattleStart a = Inr b \<Longrightarrow> Q a \<longrightarrow> Q b"
    by (auto simp: BattleStart_def bindR_eq_Inr dest!: keeps heroes)
qed

lemma place_pet_keeps [keeps]: "place_pet p c r (t, a) = Inr (t', b) \<Longrightarrow> Q a \<longrightarrow> Q b"
  by (auto simp: place_pet_def bindR_eq_Inr split: option.splits dest!: keeps)

lemma init_defender_keeps [keeps]: "init_defender cf team p (t, a) = Inr (t', b) \<Longrightarrow> Q a \<longrightarrow> Q b"
  by (cases p) (auto simp: init_defender_def bindR_eq_Inr Let_def split: option.splits if_splits dest!: keeps)

lemma InitDefender_keeps [keeps]: "InitDefenderPosition cf team a = Inr b \<Longrightarrow> Q a \<longrightarrow> Q b"
proof -
  assume "InitDefenderPosition cf team a = Inr b"
  then obtain t rate c where f: "foldR (init_defender cf team) (by_rows def_cols) ((0, 0), a) = Inr (t, c)"
    and b: "b = on_battle (\<lambda>b. b\<lparr>b_defRate := rate\<rparr>) c"
    by (auto simp: InitDefenderPosition_def bindR_eq_Inr)
  from f have "Q (snd ((0 :: u8, 0 :: u32), a)) \<Longrightarrow> Q (snd (t, c))"
    by (rule foldR_invariant [where P = "\<lambda>z. Q (snd z)", rotated 2]) (auto dest!: keeps)
  then show ?thesis by (auto simp: b same_cast_def intro: on_cast)
qed

end

text \<open>Players that the world knows may join.\<close>

locale engage_inv = battle_inv +
  assumes join_change: "Q a \<Longrightarrow> ar_guid a g = Some p \<Longrightarrow> Q (on_battle (JoinBattle p) a)"
begin

lemma place_guid_eq: "place u c r a = Inr b \<Longrightarrow> ar_guid b = ar_guid a"
  by (auto simp: place_def bindR_eq_Inr)

lemma init_attacker_keeps [keeps]: "init_attacker gr (t, a) = Inr (t', b) \<Longrightarrow> Q a \<longrightarrow> Q b"
proof -
  assume run: "init_attacker gr (t, a) = Inr (t', b)"
  obtain g r where gr: "gr = (g, r)" by (cases gr)
  show ?thesis
  proof (cases "ar_guid a (ucast g)")
    case None
    then show ?thesis using run by (simp add: gr init_attacker_def)
  next
    case (Some p)
    then obtain a1 where p: "place p 3 r a = Inr a1"
      and pet: "place_pet p 2 r (count_level p (on_battle (team_levels (getLevel (unit_of a1 p)) \<circ> JoinBattle p) a1) t, on_battle (team_levels (getLevel (unit_of a1 p)) \<circ> JoinBattle p) a1) = Inr (t', b)"
      using run by (auto simp: gr init_attacker_def bindR_eq_Inr Let_def)
    have "Q a1 \<longrightarrow> Q (on_battle (JoinBattle p) a1)"
      using join_change [of a1 "ucast g" p] place_guid_eq [OF p] Some by simp
    moreover have "Q x \<longrightarrow> Q (on_battle (team_levels l) x)" for l x
      by (auto intro!: on_cast simp: team_levels_def same_cast_def Let_def)
    ultimately show ?thesis
      using place_keeps [OF p] place_pet_keeps [OF pet [unfolded count_level_def split_beta]] by (auto simp: on_battle_comp)
  qed
qed

lemma InitAttacker_keeps [keeps]: "InitAttackerPosition gs a = Inr b \<Longrightarrow> Q a \<longrightarrow> Q b"
proof -
  assume "InitAttackerPosition gs a = Inr b"
  then obtain t rate c where f: "foldR init_attacker (zip gs rows) ((0, 0), a) = Inr (t, c)"
    and b: "b = on_battle (\<lambda>b. b\<lparr>b_atkRate := rate, b_teamBattle := (fst t > 2)\<rparr>) c"
    by (auto simp: InitAttackerPosition_def bindR_eq_Inr)
  from f have "Q (snd ((0 :: u8, 0 :: u32), a)) \<Longrightarrow> Q (snd (t, c))"
    by (rule foldR_invariant [where P = "\<lambda>z. Q (snd z)", rotated 2]) (auto dest!: keeps)
  then show ?thesis by (auto simp: b same_cast_def intro: on_cast)
qed

lemma init_defender2_keeps [keeps]: "init_defender2 gr (t, a) = Inr (t', b) \<Longrightarrow> Q a \<longrightarrow> Q b"
proof -
  assume run: "init_defender2 gr (t, a) = Inr (t', b)"
  obtain g r where gr: "gr = (g, r)" by (cases gr)
  show ?thesis
  proof (cases "ar_guid a (ucast g)")
    case None
    then show ?thesis using run by (simp add: gr init_defender2_def)
  next
    case (Some p)
    then obtain a1 where p: "place p 0 r a = Inr a1"
      and pet: "place_pet p 1 r (count_level p a1 t, on_battle (JoinBattle p) a1) = Inr (t', b)"
      using run by (auto simp: gr init_defender2_def bindR_eq_Inr)
    have "Q a1 \<longrightarrow> Q (on_battle (JoinBattle p) a1)"
      using join_change [of a1 "ucast g" p] place_guid_eq [OF p] Some by simp
    then show ?thesis using place_keeps [OF p] place_pet_keeps [OF pet [unfolded count_level_def split_beta]] by auto
  qed
qed

lemma InitDefender2_keeps [keeps]: "InitDefenderPosition2 gs a = Inr b \<Longrightarrow> Q a \<longrightarrow> Q b"
proof -
  assume "InitDefenderPosition2 gs a = Inr b"
  then obtain t rate c where f: "foldR init_defender2 (zip gs rows) ((0, 0), a) = Inr (t, c)"
    and b: "b = on_battle (\<lambda>b. b\<lparr>b_defRate := rate\<rparr>) c"
    by (auto simp: InitDefenderPosition2_def bindR_eq_Inr)
  from f have "Q (snd ((0 :: u8, 0 :: u32), a)) \<Longrightarrow> Q (snd (t, c))"
    by (rule foldR_invariant [where P = "\<lambda>z. Q (snd z)", rotated 2]) (auto dest!: keeps)
  then show ?thesis by (auto simp: b same_cast_def intro: on_cast)
qed

end

end
