(* ===== verification/DuelStart.thy ===== *)
theory DuelStart
  imports ArenaFrame
begin

text \<open>
  The start of a battle between players without pets (\<open>src/game/BattleSystem.cpp\<close>): it never faults, and who stands where.
\<close>

lemma new_battle_fresh:
  assumes "new_battle p b = Inr c"
  shows "b_master c = Some p" and "b_players c = []" and "length (b_Actions c) = 20"
  using assms by (auto simp: new_battle_def bindR_eq_Inr Let_def)

subsection \<open>Players on the stage\<close>

definition registry_ok :: "arena \<Rightarrow> bool" where
  "registry_ok a \<longleftrightarrow> (\<forall>g p. ar_guid a g = Some p \<longrightarrow> ar_hero a p \<noteq> None)"

definition petless :: "hero \<Rightarrow> bool" where
  "petless h \<longleftrightarrow> h_battlePet h = None \<and> h_pets h = replicate MAX_PET_SLOT None"

text \<open>The field and the list are given, everybody there is in memory, and nobody in the list has a pet.\<close>

definition stage :: "uid option list \<Rightarrow> uid list \<Rightarrow> arena \<Rightarrow> bool" where
  "stage G P a \<longleftrightarrow> b_grid (ar_b a) = G \<and> length G = 20 \<and> b_players (ar_b a) = P \<and> registry_ok a \<and>
     (\<forall>p \<in> set P. \<exists>h. ar_hero a p = Some h \<and> petless h) \<and> (\<forall>i. Some i \<in> set G \<longrightarrow> ar_hero a i \<noteq> None)"

lemma foldR_total:
  assumes "\<And>x s. x \<in> set xs \<Longrightarrow> R s \<Longrightarrow> \<exists>t. f x s = Inr t \<and> R t"
  shows "R s \<Longrightarrow> \<exists>t. foldR f xs s = Inr t \<and> R t"
  using assms
proof (induction xs arbitrary: s)
  case Nil
  then show ?case by simp
next
  case (Cons x xs)
  then obtain t where "f x s = Inr t" "R t" by (metis list.set_intros(1))
  with Cons.IH [of t] Cons.prems(2) show ?case by auto
qed

lemma stage_battle:
  "stage G P a \<Longrightarrow> b_grid (f (ar_b a)) = b_grid (ar_b a) \<Longrightarrow> b_players (f (ar_b a)) = b_players (ar_b a) \<Longrightarrow> stage G P (on_battle f a)"
  by (simp add: stage_def on_battle_def registry_ok_def)

lemma to_set_total: "stage G P a \<Longrightarrow> \<exists>b. to_set opcode fs a = Inr b \<and> stage G P b"
  by (fastforce simp: to_set_def record_msg_def stage_def intro!: stage_battle)

lemma to_player_total: "stage G P a \<Longrightarrow> ar_hero a i \<noteq> None \<Longrightarrow> \<exists>b. to_player (Some i) opcode fs a = Inr b \<and> stage G P b"
  by (auto simp: to_player_def record_msg_def intro!: stage_battle)

lemma stage_cell: "stage G P a \<Longrightarrow> on_field c r \<Longrightarrow> grid_get (ar_b a) c r = Inr (G ! cell c r)"
  using cell_bound [of c r] by (simp add: grid_get_def stage_def)

lemma stage_unit: "stage G P a \<Longrightarrow> on_field c r \<Longrightarrow> G ! cell c r = Some i \<Longrightarrow> \<exists>h. ar_hero a i = Some h"
  using cell_bound [of c r] by (auto simp: stage_def) (metis nth_mem)

lemma stage_GetBattleUnit: "stage G P a \<Longrightarrow> on_field c r \<Longrightarrow> GetBattleUnit c r (ar_b a) = Inr (G ! cell c r)"
  using GetBattleUnit_field [of "ar_b a" c r] by (simp add: stage_def grid_ok_def standing_def)

lemma with_hero_total:
  assumes s: "stage G P a" and p: "ar_hero a p = Some h" and f: "f (pull p a h) = Inr h'" and pet: "petless h \<Longrightarrow> petless h'"
  shows "\<exists>b. with_hero p f a = Inr b \<and> stage G P b"
proof -
  have "with_hero p f a = Inr (push p h' a)"
    using p f by (simp add: with_hero_def run_hero_def get_hero_def)
  moreover have "stage G P (push p h' a)"
    using s p pet by (auto simp: stage_def push_def registry_ok_def)
  ultimately show ?thesis by blast
qed

lemma pull_petless [simp]: "petless (pull p a h) = petless h"
  by (simp add: petless_def pull_def)

lemma updatePlayer_pets [simp]:
  "h_battlePet (updatePlayer f m v e h) = h_battlePet h" "h_pets (updatePlayer f m v e h) = h_pets h"
  by (simp_all add: updatePlayer_def say_session_def say_def)

lemma UpdatePlayer_petless [simp]: "petless (UpdatePlayer h) = petless h"
  by (simp add: petless_def UpdatePlayer_def update_mod_def Let_def)

lemma UpdatePetBattle_petless:
  assumes "petless h"
  shows "UpdatePetBattle h = Inr h"
proof -
  have slot: "GetPet 0 h = Inr None" using assms by (simp add: petless_def GetPet_def)
  have "[0..<MAX_PET_SLOT] = 0 # [Suc 0..<MAX_PET_SLOT]" by (subst upt_conv_Cons) simp_all
  then have "find_pet_slot [0..<MAX_PET_SLOT] None h = Inr (Some 0)" by (simp only: find_pet_slot.simps slot bindR_Inr simp_thms if_True)
  then show ?thesis using assms slot by (simp add: petless_def UpdatePetBattle_def UpdatePet_slot_def)
qed

lemma screen_fields_total:
  "stage G P a \<Longrightarrow> \<forall>(c, r) \<in> set ps. on_field c r \<Longrightarrow> \<exists>fs. screen_fields k ps a = Inr fs"
proof (induction ps)
  case Nil
  then show ?case by simp
next
  case (Cons cr ps)
  obtain c r where cr: "cr = (c, r)" by (cases cr)
  then have on: "on_field c r" using Cons.prems by auto
  obtain fs where fs: "screen_fields k ps a = Inr fs" using Cons by auto
  show ?case
  proof (cases "G ! cell c r")
    case None
    then show ?thesis using fs stage_GetBattleUnit [OF Cons.prems(1) on] by (simp add: cr)
  next
    case (Some i)
    then show ?thesis
      using fs stage_GetBattleUnit [OF Cons.prems(1) on] stage_unit [OF Cons.prems(1) on Some]
      by (auto simp: cr Let_def account_of_def get_hero_def)
  qed
qed

lemma to_column_total:
  assumes "stage G P a" and "c < BATTLE_COL_MAX"
  shows "\<exists>b. to_column c opcode fs a = Inr b \<and> stage G P b"
  unfolding to_column_def
proof (rule foldR_total [where R = "stage G P", OF _ assms(1)])
  fix r x assume r: "r \<in> set rows" and x: "stage G P x"
  then have on: "on_field c r" using assms(2) by (auto simp: on_field_def rows_def)
  show "\<exists>t. to_cell c opcode fs r x = Inr t \<and> stage G P t"
    using x stage_cell [OF x on] to_player_total [OF x] stage_unit [OF x on]
    by (cases "G ! cell c r") (auto simp: to_cell_def)
qed

lemma ScreenTrigger_total:
  assumes "stage G P a"
  shows "\<exists>b. BattleScreenTrigger a = Inr b \<and> stage G P b"
proof -
  have on: "\<forall>(c, r) \<in> set (by_cols [3]). on_field c r" "\<forall>(c, r) \<in> set (by_cols all_cols). on_field c r"
    by (auto simp: by_cols_def all_cols_def rows_def on_field_def)
  obtain fs where fs: "screen_fields 1 (by_cols [3]) a = Inr fs" using screen_fields_total [OF assms on(1)] by blast
  obtain a1 where a1: "to_column 3 0x0B ([FU8 0xFA, FU16 (b_ground (ar_b a))] @ fs) a = Inr a1" "stage G P a1"
    using to_column_total [OF assms, of 3] by auto
  obtain gs where gs: "screen_fields 5 (by_cols all_cols) a1 = Inr gs" using screen_fields_total [OF a1(2) on(2)] by blast
  obtain a2 where a2: "to_column 0 0x0B ([FU8 0xFA, FU16 (b_ground (ar_b a1))] @ gs) a1 = Inr a2" "stage G P a2"
    using to_column_total [OF a1(2), of 0] by auto
  show ?thesis
    using fs a1 gs a2 to_set_total [OF a2(2)] by (auto simp: BattleScreenTrigger_def BattleScreenTrigger2_def)
qed

lemma heroes_total:
  assumes "stage G P a" and "set ps \<subseteq> set P" and "\<And>h. petless h \<Longrightarrow> \<exists>h'. f h = Inr h' \<and> petless h'"
  shows "\<exists>b. foldR (\<lambda>p. with_hero p f) ps a = Inr b \<and> stage G P b"
proof (rule foldR_total [where R = "stage G P", OF _ assms(1)])
  fix p x assume p: "p \<in> set ps" and x: "stage G P x"
  then have "p \<in> set P" using assms(2) by blast
  with x obtain h where h: "ar_hero x p = Some h" "petless h" unfolding stage_def by blast
  obtain h' where "f (pull p x h) = Inr h'" "petless h'" using assms(3) [of "pull p x h"] h(2) by auto
  then show "\<exists>t. with_hero p f x = Inr t \<and> stage G P t"
    using with_hero_total [OF x h(1)] by blast
qed

lemma PetPosition_total:
  assumes "stage G P a"
  shows "\<exists>b. SendPetPosition a = Inr b \<and> stage G P b"
  unfolding SendPetPosition_def
proof (rule foldR_total [where R = "stage G P", OF _ assms])
  fix cr x assume cr: "cr \<in> set (by_cols [1, 2])" and x: "stage G P x"
  obtain c r where p: "cr = (c, r)" by (cases cr)
  have on: "on_field c r" using cr by (auto simp: p by_cols_def rows_def on_field_def)
  have "\<exists>acc. owner_account u x = Inr acc" for u
    using x by (fastforce simp: owner_account_def account_of_def get_hero_def stage_def registry_ok_def split: option.splits)
  then have "\<exists>fs. BuildUpdateBlockPetPosition u c r x = Inr fs" for u
    by (metis BuildUpdateBlockPetPosition_def bindR_Inr)
  then have shown: "\<exists>t. bindR (BuildUpdateBlockPetPosition u c r x) (\<lambda>fs. to_set 0x0B fs x) = Inr t \<and> stage G P t" for u
    using to_set_total [OF x] by (metis bindR_Inr)
  show "\<exists>t. send_pet_cell cr x = Inr t \<and> stage G P t"
    using stage_cell [OF x on] shown x by (cases "G ! cell c r") (simp_all add: p send_pet_cell_def)
qed

lemma DefenderPosition_total:
  assumes "stage G P a"
  shows "\<exists>b. SendDefenderPosition a = Inr b \<and> stage G P b"
proof -
  have "\<exists>t. foldR send_defender_cell (by_cols [0]) (0, a) = Inr t \<and> stage G P (snd t)"
  proof (rule foldR_total [where R = "\<lambda>z. stage G P (snd z)"])
    fix cr and z :: "u8 \<times> arena" assume cr: "cr \<in> set (by_cols [0])" and z: "stage G P (snd z)"
    obtain c r where p: "cr = (c, r)" by (cases cr)
    obtain n x where zx: "z = (n, x)" by (cases z)
    have on: "on_field c r" using cr by (auto simp: p by_cols_def rows_def on_field_def)
    have x: "stage G P x" using z by (simp add: zx)
    show "\<exists>t. send_defender_cell cr z = Inr t \<and> stage G P (snd t)"
    proof (cases "G ! cell c r")
      case None
      then show ?thesis using stage_cell [OF x on] x by (simp add: p zx send_defender_cell_def)
    next
      case (Some i)
      obtain h where "ar_hero x i = Some h" using stage_unit [OF x on Some] by blast
      then obtain acc where acc: "account_of i x = Inr acc" by (auto simp: account_of_def get_hero_def)
      have sent: "\<exists>t. bindR (to_set opcode fs x) (\<lambda>a'. Inr (m, a')) = Inr t \<and> stage G P (snd t)" for opcode fs and m :: u8
        using to_set_total [OF x, of opcode fs] by auto
      show ?thesis
        using stage_cell [OF x on] Some x sent acc
        by (simp add: p zx send_defender_cell_def Let_def del: TYPE_PLAYER_def TYPE_PET_def UNIT_FIELD_DISPLAYID_def)
    qed
  qed (simp add: assms)
  then show ?thesis by (auto simp: SendDefenderPosition_def)
qed

lemma TurnComplete_total:
  assumes "stage G P a"
  shows "\<exists>b. SendTurnComplete a = Inr b \<and> stage G P b \<and> b_wait (ar_b b)"
proof -
  have cell: "\<exists>t. reset_cell cr x = Inr t \<and> stage G P t" if cr: "cr \<in> set (by_rows all_cols)" and x: "stage G P x" for cr x
  proof -
    obtain c r where p: "cr = (c, r)" by (cases cr)
    have on: "on_field c r" using cr by (auto simp: p by_rows_def all_cols_def rows_def on_field_def)
    have u: "stage G P y \<Longrightarrow> stage G P (on_unit i f y)" for y i f
      by (simp add: on_unit_def upd_unit_def stage_battle)
    have rel: "\<exists>z. (if rl then release_msg c r k y else Inr y) = Inr z \<and> stage G P z" if "stage G P y" for rl y k
      using to_set_total [OF that] that by (simp add: release_msg_def)
    show ?thesis
    proof (cases "G ! cell c r")
      case None
      then show ?thesis using stage_cell [OF x on] x by (simp add: p reset_cell_def)
    next
      case (Some i)
      let ?x = "if fights_for_players (unit_of x i) \<and> \<not> isDead (unit_of x i) \<and> \<not> isDisabled (unit_of x i)
                then on_battle (\<lambda>b. b\<lparr>b_need := b_need b + 1\<rparr>) x else x"
      have x1: "stage G P ?x" using x by (simp add: stage_battle)
      obtain rl u1 where u1: "isReleaseFromDisabledState (unit_of x i) = (rl, u1)" by (rule prod.exhaust)
      obtain ex u2 where u2: "isPositiveBufExpired u1 = (ex, u2)" by (rule prod.exhaust)
      obtain a2 where a2: "(if rl then release_msg c r 1 (on_unit i (\<lambda>_. u1) ?x) else Inr (on_unit i (\<lambda>_. u1) ?x)) = Inr a2" "stage G P a2"
        using rel [OF u [OF x1]] by blast
      obtain a3 where a3: "(if ex then release_msg c r 2 (on_unit i (\<lambda>_. u2) a2) else Inr (on_unit i (\<lambda>_. u2) a2)) = Inr a3" "stage G P a3"
        using rel [OF u [OF a2(2)]] by blast
      have "reset_cell cr x = Inr (on_unit i (clearUnitState UNIT_STATE_DEFEND) a3)"
        by (simp only: p reset_cell_def Let_def prod.case stage_cell [OF x on] Some bindR_Inr option.case u1 u2 a2(1) a3(1))
      then show ?thesis using u [OF a3(2)] by blast
    qed
  qed
  have "stage G P (on_battle (\<lambda>b. b\<lparr>b_actionTime := 0, b_count := 0, b_need := 0\<rparr>) a)"
    using assms by (simp add: stage_battle)
  then obtain b where b: "ResetAction a = Inr b" "stage G P b"
    using foldR_total [where R = "stage G P" and f = reset_cell and xs = "by_rows all_cols"] cell
    unfolding ResetAction_def by blast
  have w: "stage G P (on_battle (\<lambda>b. b\<lparr>b_wait := True\<rparr>) b)" using b(2) by (simp add: stage_battle)
  obtain d where d: "to_set 0x34 [FU8 1] (on_battle (\<lambda>b. b\<lparr>b_wait := True\<rparr>) b) = Inr d" "stage G P d"
    using to_set_total [OF w] by blast
  have "b_wait (ar_b d)" using d(1) by (auto simp: to_set_def record_msg_def on_battle_def split: if_splits)
  then show ?thesis using b d by (simp add: SendTurnComplete_def)
qed

lemma BattleStart_total:
  assumes "stage G P a"
  shows "\<exists>b. BattleStart a = Inr b \<and> stage G P b \<and> b_wait (ar_b b)"
proof -
  obtain a1 where a1: "to_set 0x14 [FU8 0x0C] a = Inr a1" "stage G P a1" using to_set_total [OF assms] by blast
  obtain a2 where a2: "to_set 0x06 [FU8 2] a1 = Inr a2" "stage G P a2" using to_set_total [OF a1(2)] by blast
  obtain a3 where a3: "foldR (\<lambda>p. with_hero p (\<lambda>h. Inr (UpdatePlayer h))) (b_players (ar_b a2)) a2 = Inr a3" "stage G P a3"
    using heroes_total [OF a2(2), of "b_players (ar_b a2)" "\<lambda>h. Inr (UpdatePlayer h)"] a2(2) by (auto simp: stage_def)
  obtain a4 where a4: "BattleScreenTrigger a3 = Inr a4" "stage G P a4" using ScreenTrigger_total [OF a3(2)] by blast
  obtain a5 where a5: "foldR (\<lambda>p. with_hero p UpdatePetBattle) (b_players (ar_b a4)) a4 = Inr a5" "stage G P a5"
    using heroes_total [OF a4(2), of "b_players (ar_b a4)" UpdatePetBattle] a4(2) by (auto simp: stage_def UpdatePetBattle_petless)
  obtain a6 where a6: "SendPetPosition a5 = Inr a6" "stage G P a6" using PetPosition_total [OF a5(2)] by blast
  obtain a7 where a7: "SendDefenderPosition a6 = Inr a7" "stage G P a7" using DefenderPosition_total [OF a6(2)] by blast
  show ?thesis
    using TurnComplete_total [OF a7(2)] a1 a2 a3 a4 a5 a6 a7 by (auto simp: BattleStart_def)
qed

subsection \<open>Two players without a team\<close>

definition lone :: "uid \<Rightarrow> arena \<Rightarrow> bool" where
  "lone p a \<longleftrightarrow> ar_members a p = [] \<and> (\<exists>h. ar_hero a p = Some h \<and> petless h \<and>
     ar_guid a (ucast (GUID_LOPART (inv_guid (h_inv h)))) = Some p)"

definition on_cell :: "nat \<Rightarrow> uid \<Rightarrow> battle \<Rightarrow> battle" where
  "on_cell k u b = b\<lparr>b_grid := (b_grid b)[k := Some u]\<rparr>"

lemma lone_row:
  assumes "lone p a" and "ar_guid a 0 = None"
  obtains g where "player_row p a = Inr [0, 0, g, 0, 0]" "ar_guid a (ucast g) = Some p"
  using assms by (auto simp: lone_def player_row_def team_guid_def hero_guid_def get_hero_def pull_def)

lemma place_cell: "length (b_grid (ar_b a)) = 20 \<Longrightarrow> cell c r < 20 \<Longrightarrow> place u c r a = Inr (on_battle (on_cell (cell c r) u) a)"
  by (simp add: place_def SetPosition_def grid_set_def on_battle_def on_cell_def)

lemma duel_cells: "cell 0 2 = 2" "cell 3 2 = 17"
  by (simp_all add: cell_def)

lemma place_pet_petless:
  "ar_hero a p = Some h \<Longrightarrow> petless h \<Longrightarrow> place_pet p c r (t, a) = Inr (t, a)"
  by (simp add: place_pet_def battle_pet_def get_hero_def pull_def petless_def)

lemma lone_defender:
  assumes "length (b_grid (ar_b a)) = 20" and "ar_guid a 0 = None" and g: "ar_guid a (ucast g) = Some e"
    and h: "ar_hero a e = Some h" "petless h"
  shows "\<exists>r. InitDefenderPosition2 [0, 0, g, 0, 0] a =
    Inr (on_battle (\<lambda>b. (JoinBattle e (on_cell 2 e b))\<lparr>b_defRate := r\<rparr>) a)"
proof -
  have none: "init_defender2 (0, r) (t, x) = Inr (t, x)" if "ar_guid x = ar_guid a" for r t x
    using that assms(2) by (simp add: init_defender2_def)
  let ?x = "on_battle (JoinBattle e) (on_battle (on_cell 2 e) a)"
  have "place e 0 2 a = Inr (on_battle (on_cell 2 e) a)"
    using place_cell [OF assms(1), of 0 2 e] unfolding duel_cells by simp
  moreover have "place_pet e 1 2 (t, ?x) = Inr (t, ?x)" for t
    using h by (intro place_pet_petless) (simp_all add: on_battle_def)
  moreover obtain l where "count_level e (on_battle (on_cell 2 e) a) (0, 0) = (1, l)" by (auto simp: count_level_def)
  ultimately have "init_defender2 (g, 2) ((0, 0), a) = Inr ((1, l), ?x)"
    using g by (simp add: init_defender2_def)
  then have "foldR init_defender2 (zip [0, 0, g, 0, 0] rows) ((0, 0), a) = Inr ((1, l), ?x)"
    by (simp add: rows_def none) (simp add: none on_battle_def)
  then show ?thesis
    by (auto simp: InitDefenderPosition2_def average_level_def on_battle_def)
qed

lemma lone_attacker:
  assumes "length (b_grid (ar_b a)) = 20" and "ar_guid a 0 = None" and g: "ar_guid a (ucast g) = Some e"
    and h: "ar_hero a e = Some h" "petless h"
  shows "\<exists>r l. InitAttackerPosition [0, 0, g, 0, 0] a =
    Inr (on_battle (\<lambda>b. (team_levels l (JoinBattle e (on_cell 17 e b)))\<lparr>b_atkRate := r, b_teamBattle := False\<rparr>) a)"
proof -
  have none: "init_attacker (0, r) (t, x) = Inr (t, x)" if "ar_guid x = ar_guid a" for r t x
    using that assms(2) by (simp add: init_attacker_def)
  let ?y = "on_battle (on_cell 17 e) a"
  let ?x = "on_battle (team_levels (getLevel (unit_of ?y e)) \<circ> JoinBattle e) ?y"
  have "place e 3 2 a = Inr ?y"
    using place_cell [OF assms(1), of 3 2 e] unfolding duel_cells by simp
  moreover have "place_pet e 2 2 (t, ?x) = Inr (t, ?x)" for t
    using h by (intro place_pet_petless) (simp_all add: on_battle_def)
  moreover obtain l where "count_level e ?x (0, 0) = (1, l)" by (auto simp: count_level_def)
  ultimately have "init_attacker (g, 2) ((0, 0), a) = Inr ((1, l), ?x)"
    using g by (simp add: init_attacker_def Let_def)
  then have "foldR init_attacker (zip [0, 0, g, 0, 0] rows) ((0, 0), a) = Inr ((1, l), ?x)"
    by (simp add: rows_def none) (simp add: none on_battle_def)
  then show ?thesis
    by (auto simp: InitAttackerPosition_def average_level_def on_battle_def)
qed

definition duel_field :: "uid \<Rightarrow> uid \<Rightarrow> uid option list" where
  "duel_field p e = (replicate 20 None)[2 := Some e, 17 := Some p]"

lemma new_battle_total: "\<exists>c. new_battle p b = Inr c"
  by (simp add: new_battle_def urand_def irand_def Let_def)

lemma duel_starts:
  assumes off: "\<not> ar_engine a p" and reg: "registry_ok a" and g0: "ar_guid a 0 = None" and ne: "p \<noteq> e"
    and p: "lone p a" and e: "lone e a"
  shows "\<exists>b. start_battle p (Engage_player p e) a = Inr b \<and> stage (duel_field p e) [min p e, max p e] b \<and> b_wait (ar_b b)"
proof -
  obtain c where c: "new_battle p (ar_b a) = Inr c" using new_battle_total by blast
  let ?a = "a\<lparr>ar_engine := (ar_engine a)(p := True), ar_b := c\<rparr>"
  let ?clear = "on_battle clear_field ?a"
  have lone: "lone q ?a = lone q a" for q by (simp add: lone_def)
  obtain gp where gp: "player_row p ?a = Inr [0, 0, gp, 0, 0]" "ar_guid ?a (ucast gp) = Some p"
    using lone_row [of p ?a] p g0 lone by auto
  obtain ge where ge: "player_row e ?a = Inr [0, 0, ge, 0, 0]" "ar_guid ?a (ucast ge) = Some e"
    using lone_row [of e ?a] e g0 lone by auto
  obtain hp he where hp: "ar_hero a p = Some hp" "petless hp" and he: "ar_hero a e = Some he" "petless he"
    using p e by (auto simp: lone_def)
  have len0: "length (b_grid (ar_b ?clear)) = 20" by (simp add: on_battle_def clear_field_def)
  obtain r where d: "InitDefenderPosition2 [0, 0, ge, 0, 0] ?clear =
      Inr (on_battle (\<lambda>b. (JoinBattle e (on_cell 2 e b))\<lparr>b_defRate := r\<rparr>) ?clear)"
    using lone_defender [OF len0, of ge e he] g0 ge(2) he by (auto simp: on_battle_def)
  let ?placed = "on_battle (\<lambda>b. (JoinBattle e (on_cell 2 e b))\<lparr>b_defRate := r\<rparr>) ?clear"
  have len1: "length (b_grid (ar_b ?placed)) = 20" by (simp add: on_battle_def clear_field_def JoinBattle_def on_cell_def)
  obtain r' l where t: "InitAttackerPosition [0, 0, gp, 0, 0] ?placed =
      Inr (on_battle (\<lambda>b. (team_levels l (JoinBattle p (on_cell 17 p b)))\<lparr>b_atkRate := r', b_teamBattle := False\<rparr>) ?placed)"
    using lone_attacker [OF len1, of gp p hp] g0 gp(2) hp by (auto simp: on_battle_def)
  let ?ready = "on_battle (\<lambda>b. (team_levels l (JoinBattle p (on_cell 17 p b)))\<lparr>b_atkRate := r', b_teamBattle := False\<rparr>) ?placed"
  have tl: "b_grid (team_levels l b) = b_grid b" "b_players (team_levels l b) = b_players b" for b
    by (simp_all add: team_levels_def Let_def)
  have "b_players (ar_b ?ready) = [min p e, max p e]"
    using new_battle_fresh(2) [OF c] ne by (auto simp: tl on_battle_def JoinBattle_def on_cell_def clear_field_def min_def max_def)
  moreover have "b_grid (ar_b ?ready) = duel_field p e"
    by (simp add: tl on_battle_def JoinBattle_def on_cell_def clear_field_def duel_field_def)
  moreover have "set (duel_field p e) \<subseteq> {None, Some p, Some e}"
    unfolding duel_field_def by (auto dest!: set_update_subset_insert [THEN subsetD])
  ultimately have "stage (duel_field p e) [min p e, max p e] ?ready"
    using reg hp he by (auto simp: stage_def duel_field_def registry_ok_def on_battle_def min_def max_def)
  from BattleStart_total [OF this] show ?thesis
    using off c gp(1) ge(1) d t by (auto simp: start_battle_def Engage_player_def)
qed

end
