(* ===== verification/BattleSession.thy ===== *)
theory BattleSession
  imports DuelStart
begin

text \<open>
  A battle from its start to its end: whatever ticks, packets and logouts follow each other, the arrays keep
  their sizes, and the list of players, their master and their engine stay consistent, so that no message
  is sent to a player that is gone.
\<close>

subsection \<open>Sessions\<close>

text \<open>A logout: the destructor, and the player is no longer found by its guid.\<close>

definition log_out :: "rules \<Rightarrow> uid \<Rightarrow> arena \<Rightarrow> arena res" where
  "log_out cf p a =
     bindR (leave_as_player cf p a) (\<lambda>b.
       Inr (b\<lparr>ar_hero := (ar_hero b)(p := None), ar_guid := (\<lambda>g. if ar_guid b g = Some p then None else ar_guid b g)\<rparr>))"

datatype battle_event =
    Tick uid
  | AttackPacket uid byte_buffer
  | PetPacket uid byte_buffer
  | ReleasePacket uid byte_buffer
  | UseItemPacket uid byte_buffer
  | LogOut uid

text \<open>What the code leaves uninitialised: the drops and pets of a tick, a missing return value, a position.\<close>

type_synonym chances = "chance \<times> bool \<times> (u8 \<times> u8)"

fun handle_event :: "rules \<Rightarrow> chances \<Rightarrow> battle_event \<Rightarrow> arena \<Rightarrow> arena res" where
  "handle_event cf (jk, out, pos) (Tick p) = Update_battle cf jk p"
| "handle_event cf (jk, out, pos) (AttackPacket p b) = HandlePlayerAttackOpcode cf p b"
| "handle_event cf (jk, out, pos) (PetPacket p b) = HandlePetCommandOpcodes cf out pos p b"
| "handle_event cf (jk, out, pos) (ReleasePacket p b) = HandlePetReleaseOpcode p b"
| "handle_event cf (jk, out, pos) (UseItemPacket p b) = HandleUseItemOpcodes cf pos p b"
| "handle_event cf (jk, out, pos) (LogOut p) = log_out cf p"

text \<open>
  The runs of one battle, from its start on, while no operation faults. A second \<open>Engage\<close> is no event: that of the
  master does nothing, and that of another member (\<open>isBattleInProgress\<close> only looks for a battle of its own) makes it
  the master of a battle of its own while the list of the first keeps it.
\<close>

inductive battle_run :: "rules \<Rightarrow> arena \<Rightarrow> bool" for cf where
  creature: "\<forall>m. \<not> ar_engine a m \<Longrightarrow> registry_ok a \<Longrightarrow>
    start_battle p (Engage_creature cf p enemy npc) a = Inr b \<Longrightarrow> battle_run cf b"
| player: "\<forall>m. \<not> ar_engine a m \<Longrightarrow> registry_ok a \<Longrightarrow>
    start_battle p (Engage_player p enemy) a = Inr b \<Longrightarrow> battle_run cf b"
| event: "battle_run cf a \<Longrightarrow> handle_event cf jk ev a = Inr b \<Longrightarrow> battle_run cf b"

subsection \<open>The invariant\<close>

definition arena_ok :: "arena \<Rightarrow> bool" where
  "arena_ok a \<longleftrightarrow> length (b_grid (ar_b a)) = 20 \<and> length (b_Actions (ar_b a)) = 20 \<and> registry_ok a \<and>
     (\<forall>m. ar_engine a m \<longrightarrow> b_master (ar_b a) = Some m \<and> ar_hero a m \<noteq> None \<and> distinct (b_players (ar_b a)) \<and>
       (\<forall>p \<in> set (b_players (ar_b a)). ar_hero a p \<noteq> None \<and> b_masterOf (ar_b a) p = Some m))"

interpretation ok: engage_inv arena_ok
  by unfold_locales
    (auto simp: arena_ok_def registry_ok_def same_cast_def quiet_def on_battle_def drop_player_def JoinBattle_def distinct_insort set_insort_key
       split: if_splits)

lemma arena_ok_engine_off:
  "arena_ok a \<Longrightarrow> arena_ok (a\<lparr>ar_engine := (ar_engine a)(p := False)\<rparr>)"
  by (auto simp: arena_ok_def registry_ok_def)

lemma Update_battle_ok:
  assumes "Update_battle cf jk p a = Inr b" and "arena_ok a"
  shows "arena_ok b"
proof (cases "ar_engine a p")
  case True
  obtain late b1 where t: "isActionTimedOut (ar_b a) = (late, b1)" by (cases "isActionTimedOut (ar_b a)")
  then obtain b2 a1 fin a2 where r: "(if late then BuildActions (cf_sdb cf) (cf_agility cf) b1 else Inr b1) = Inr b2"
    "UpdateBattleAction cf jk (a\<lparr>ar_b := b2\<rparr>) = Inr a1" "BattleConcluded cf jk a1 = Inr (fin, a2)"
    "(if \<not> fin then Inr a2 else bindR (BattleStop cf a2) (\<lambda>a3. Inr (a3\<lparr>ar_engine := (ar_engine a3)(p := False)\<rparr>))) = Inr b"
    using assms(1) True by (auto simp: Update_battle_def bindR_eq_Inr)
  have "same_cast (ar_b a) b1"
    using t by (auto simp: isActionTimedOut_def same_cast_def split: if_splits)
  with r(1) have "same_cast (ar_b a) b2"
    by (auto split: if_splits dest!: BuildActions_cast intro: same_cast_trans)
  then have "arena_ok (a\<lparr>ar_b := b2\<rparr>)" using assms(2) by (rule ok.cast_change [rotated])
  then have "arena_ok a2" using ok.UpdateBattleAction_keeps [OF r(2)] ok.BattleConcluded_keeps [OF r(3)] by blast
  then show ?thesis
    using r(4) by (auto simp: bindR_eq_Inr split: if_splits dest!: ok.BattleStop_keeps intro: arena_ok_engine_off)
qed (use assms in \<open>simp add: Update_battle_def\<close>)


subsection \<open>Logging out\<close>

text \<open>Who takes part, and the sizes of the arrays.\<close>

definition crew :: "arena \<Rightarrow> uid list \<times> (uid \<Rightarrow> uid option) \<times> uid option \<times> (uid \<Rightarrow> bool) \<times> (u64 \<Rightarrow> uid option) \<times> uid set \<times> nat \<times> nat" where
  "crew a = (b_players (ar_b a), b_masterOf (ar_b a), b_master (ar_b a), ar_engine a, ar_guid a, dom (ar_hero a),
     length (b_grid (ar_b a)), length (b_Actions (ar_b a)))"

interpretation crew: quiet_inv "\<lambda>a. crew a = c" for c
  by unfold_locales (auto simp: crew_def quiet_def)

lemma filter_absent [simp]: "p \<notin> set xs \<Longrightarrow> filter (\<lambda>q. q \<noteq> p) xs = xs"
  by (induction xs) auto

lemma drop_player_eq: "(\<lambda>b. b\<lparr>b_masterOf := (b_masterOf b)(p := None), b_players := filter (\<lambda>q. q \<noteq> p) (b_players b)\<rparr>) = drop_player p"
  by (simp add: drop_player_def fun_eq_iff)

lemma LeaveBattle_crew:
  assumes "LeaveBattle cf p a = Inr b"
  shows "crew b = crew (on_battle (drop_player p) a) \<or> p \<notin> set (b_players (ar_b a)) \<and> crew b = crew a"
proof -
  obtain pet a0 a1 where p: "battle_pet p a = Inr (pet, a0)" and h: "with_hero p (leave_hero (cf_idb cf)) a0 = Inr a1"
    and b: "b = on_battle (clear_unit pet \<circ> clear_unit (Some p) \<circ> (if p \<in> set (b_players (ar_b a1)) then drop_player p else (\<lambda>b. b))) a1"
    using assms by (auto simp: LeaveBattle_def bindR_eq_Inr drop_player_eq Let_def cong: if_cong)
  have c: "crew a1 = crew a"
    using crew.battle_pet_keeps [OF p] crew.with_hero_keeps [OF h] by blast
  have clear: "crew (on_battle (clear_unit u) x) = crew x" for u x
    by (simp add: crew_def on_battle_def clear_unit_def)
  have "crew (on_battle (drop_player p) a1) = crew (on_battle (drop_player p) a)"
    using c by (simp add: crew_def on_battle_def drop_player_def)
  then show ?thesis
    using c by (auto simp: b on_battle_comp clear on_battle_def [of "\<lambda>b. b"]) (auto simp: crew_def)
qed

lemma Player_LeaveBattle_crew:
  assumes "Player_LeaveBattle cf p a = Inr b"
  shows "ar_engine b = (ar_engine a)(p := False)" and "ar_guid b = ar_guid a" and "dom (ar_hero b) = dom (ar_hero a)"
    and "b_master (ar_b b) = b_master (ar_b a)" and "b_masterOf (ar_b b) = (b_masterOf (ar_b a))(p := None)"
    and "length (b_grid (ar_b b)) = length (b_grid (ar_b a))" and "length (b_Actions (ar_b b)) = length (b_Actions (ar_b a))"
    and "b_players (ar_b b) = (if \<exists>m. b_masterOf (ar_b a) p = Some m \<and> ar_engine a m
           then filter (\<lambda>q. q \<noteq> p) (b_players (ar_b a)) else b_players (ar_b a))"
proof -
  obtain a1 where r: "(case b_masterOf (ar_b a) p of None \<Rightarrow> Inr a
      | Some m \<Rightarrow> if ar_engine a m then LeaveBattle cf p a else Inr a) = Inr a1"
    and b: "b = a1\<lparr>ar_engine := (ar_engine a1)(p := False), ar_b := (ar_b a1)\<lparr>b_masterOf := (b_masterOf (ar_b a1))(p := None)\<rparr>\<rparr>"
    using assms by (auto simp: Player_LeaveBattle_def bindR_eq_Inr)
  have c: "crew a1 = (if \<exists>m. b_masterOf (ar_b a) p = Some m \<and> ar_engine a m
      then (filter (\<lambda>q. q \<noteq> p) (b_players (ar_b a)), b_masterOf (ar_b a1), snd (snd (crew a))) else crew a) \<and>
    (b_masterOf (ar_b a1))(p := None) = (b_masterOf (ar_b a))(p := None)"
  proof (cases "\<exists>m. b_masterOf (ar_b a) p = Some m \<and> ar_engine a m")
    case True
    then have "LeaveBattle cf p a = Inr a1" using r by auto
    from LeaveBattle_crew [OF this] True show ?thesis
      by (elim disjE) (auto simp: crew_def on_battle_def drop_player_def)
  next
    case False
    then have "a1 = a" using r by (auto split: option.splits if_splits)
    with False show ?thesis by auto
  qed
  from c show "ar_engine b = (ar_engine a)(p := False)" "ar_guid b = ar_guid a" "dom (ar_hero b) = dom (ar_hero a)"
    "b_master (ar_b b) = b_master (ar_b a)" "b_masterOf (ar_b b) = (b_masterOf (ar_b a))(p := None)"
    "length (b_grid (ar_b b)) = length (b_grid (ar_b a))" "length (b_Actions (ar_b b)) = length (b_Actions (ar_b a))"
    "b_players (ar_b b) = (if \<exists>m. b_masterOf (ar_b a) p = Some m \<and> ar_engine a m
      then filter (\<lambda>q. q \<noteq> p) (b_players (ar_b a)) else b_players (ar_b a))"
    by (auto simp: b crew_def split: if_splits)
qed

lemma find_None_all: "find P xs = None \<Longrightarrow> x \<in> set xs \<Longrightarrow> \<not> P x"
  by (simp add: find_None_iff)

lemma arena_ok_sizes: "arena_ok a \<Longrightarrow> length (b_grid (ar_b a)) = 20 \<and> length (b_Actions (ar_b a)) = 20 \<and> registry_ok a"
  by (simp add: arena_ok_def)

lemma arena_ok_engine:
  "arena_ok a \<Longrightarrow> ar_engine a m \<Longrightarrow> b_master (ar_b a) = Some m \<and> ar_hero a m \<noteq> None \<and> distinct (b_players (ar_b a)) \<and>
    (\<forall>p \<in> set (b_players (ar_b a)). ar_hero a p \<noteq> None \<and> b_masterOf (ar_b a) p = Some m)"
  by (simp add: arena_ok_def)

lemma registry_same: "ar_guid b = ar_guid a \<Longrightarrow> dom (ar_hero b) = dom (ar_hero a) \<Longrightarrow> registry_ok b = registry_ok a"
  by (simp add: registry_ok_def dom_def) blast

text \<open>The destructor keeps the battle consistent and takes the player out of it, while another one keeps the engine.\<close>

lemma leave_as_player_ok:
  assumes "leave_as_player cf p a = Inr b" and ok: "arena_ok a"
  shows "arena_ok b" and "\<not> ar_engine b p" and "ar_engine b m \<Longrightarrow> p \<notin> set (b_players (ar_b b))"
proof -
  have "arena_ok b \<and> \<not> ar_engine b p \<and> (ar_engine b m \<longrightarrow> p \<notin> set (b_players (ar_b b)))"
  proof (cases "ar_engine a p")
    case True
    note E = arena_ok_engine [OF ok True]
    have only: "ar_engine a q \<Longrightarrow> q = p" for q using arena_ok_engine [OF ok, of q] E by simp
    show ?thesis
    proof (cases "find (\<lambda>q. b_master (ar_b a) \<noteq> Some q) (b_players (ar_b a))")
      case None
      then have "Player_LeaveBattle cf p (a\<lparr>ar_engine := (ar_engine a)(p := False)\<rparr>) = Inr b"
        using assms(1) True by (simp add: leave_as_player_def FindNewMaster_def)
      note L = Player_LeaveBattle_crew [OF this]
      have "\<not> ar_engine b x" for x using L(1) only by auto
      then show ?thesis
        using registry_same [of b a] L(2,3,6,7) arena_ok_sizes [OF ok] by (simp add: arena_ok_def)
    next
      case (Some q)
      then have q: "q \<in> set (b_players (ar_b a))" "q \<noteq> p"
        using E by (auto simp: find_Some_iff)
      let ?a = "a\<lparr>ar_engine := (ar_engine a)(q := True), ar_b := (ar_b a)\<lparr>b_master := Some q,
          b_masterOf := (\<lambda>x. if x \<in> set (b_players (ar_b a)) then Some q else b_masterOf (ar_b a) x)\<rparr>\<rparr>"
      have "Player_LeaveBattle cf p ?a = Inr b"
        using assms(1) True Some by (simp add: leave_as_player_def FindNewMaster_def)
      note L = Player_LeaveBattle_crew [OF this]
      have reg: "registry_ok b" and sz: "length (b_grid (ar_b b)) = 20" "length (b_Actions (ar_b b)) = 20"
        using L(2,3,6,7) registry_same [of b a] arena_ok_sizes [OF ok] by simp_all
      have pl: "p \<notin> set (b_players (ar_b b))" "set (b_players (ar_b b)) \<subseteq> set (b_players (ar_b a))" "distinct (b_players (ar_b b))"
        using L(8) E by auto
      have hero: "ar_hero b x \<noteq> None" if "x \<in> set (b_players (ar_b a))" for x
        using E that L(3) by (auto simp: dom_def)
      have "ar_engine b x \<longleftrightarrow> x = q" for x using L(1) only q by auto
      moreover have "b_masterOf (ar_b b) x = Some q" if "x \<in> set (b_players (ar_b b))" for x
        using that pl L(5) by auto
      ultimately show ?thesis
        using reg sz pl hero q L(4) by (auto simp: arena_ok_def)
    qed
  next
    case False
    then have "Player_LeaveBattle cf p a = Inr b" using assms(1) by (simp add: leave_as_player_def)
    note L = Player_LeaveBattle_crew [OF this]
    have reg: "registry_ok b" and sz: "length (b_grid (ar_b b)) = 20" "length (b_Actions (ar_b b)) = 20"
      using L(2,3,6,7) registry_same [of b a] arena_ok_sizes [OF ok] by simp_all
    have run: "b_master (ar_b b) = Some x \<and> ar_hero b x \<noteq> None \<and> distinct (b_players (ar_b b)) \<and> p \<notin> set (b_players (ar_b b)) \<and>
        (\<forall>y \<in> set (b_players (ar_b b)). ar_hero b y \<noteq> None \<and> b_masterOf (ar_b b) y = Some x)" if e: "ar_engine b x" for x
    proof -
      have x: "ar_engine a x" using e L(1) by (simp split: if_splits)
      note E = arena_ok_engine [OF ok x]
      have "p \<notin> set (b_players (ar_b b))" using L(8) E x by auto
      moreover have "set (b_players (ar_b b)) \<subseteq> set (b_players (ar_b a))" using L(8) by auto
      moreover have "distinct (b_players (ar_b b))" using L(8) E by auto
      moreover have "ar_hero b y \<noteq> None" if "ar_hero a y \<noteq> None" for y using that L(3) by (auto simp: dom_def)
      ultimately show ?thesis using E L(4,5) by auto
    qed
    show ?thesis using reg sz run L(1) by (auto simp: arena_ok_def)
  qed
  then show "arena_ok b" "\<not> ar_engine b p" "ar_engine b m \<Longrightarrow> p \<notin> set (b_players (ar_b b))" by auto
qed

lemma log_out_ok:
  assumes "log_out cf p a = Inr b" and "arena_ok a"
  shows "arena_ok b"
proof -
  obtain c where c: "leave_as_player cf p a = Inr c"
    and b: "b = c\<lparr>ar_hero := (ar_hero c)(p := None), ar_guid := (\<lambda>g. if ar_guid c g = Some p then None else ar_guid c g)\<rparr>"
    using assms(1) by (auto simp: log_out_def bindR_eq_Inr)
  note L = leave_as_player_ok [OF c assms(2)]
  have "registry_ok b" using arena_ok_sizes [OF L(1)] by (auto simp: b registry_ok_def)
  moreover have "b_master (ar_b b) = Some x \<and> ar_hero b x \<noteq> None \<and> distinct (b_players (ar_b b)) \<and>
      (\<forall>y \<in> set (b_players (ar_b b)). ar_hero b y \<noteq> None \<and> b_masterOf (ar_b b) y = Some x)" if "ar_engine b x" for x
    using that arena_ok_engine [OF L(1), of x] L(2) L(3) [of x] by (auto simp: b)
  ultimately show ?thesis using arena_ok_sizes [OF L(1)] by (auto simp: arena_ok_def b)
qed

subsection \<open>Starting\<close>

lemma fresh_ok:
  assumes "\<forall>m. \<not> ar_engine a m" and "registry_ok a" and "new_battle p (ar_b a) = Inr c" and "ar_hero a p \<noteq> None"
  shows "arena_ok (on_battle clear_field (a\<lparr>ar_engine := (ar_engine a)(p := True), ar_b := c\<rparr>))"
  using assms new_battle_fresh [OF assms(3)] by (auto simp: arena_ok_def registry_ok_def on_battle_def clear_field_def)

lemma player_row_hero: "player_row p a = Inr gs \<Longrightarrow> ar_hero a p \<noteq> None"
  by (auto simp: player_row_def hero_guid_def get_hero_def bindR_eq_Inr split: option.splits)

lemma Engage_creature_ok:
  assumes "\<forall>m. \<not> ar_engine a m" and "registry_ok a" and "start_battle p (Engage_creature cf p enemy npc) a = Inr b"
  shows "arena_ok b"
proof -
  obtain c where c: "new_battle p (ar_b a) = Inr c"
    and e: "Engage_creature cf p enemy npc (a\<lparr>ar_engine := (ar_engine a)(p := True), ar_b := c\<rparr>) = Inr b"
    using assms(1,3) by (auto simp: start_battle_def bindR_eq_Inr)
  let ?a = "a\<lparr>ar_engine := (ar_engine a)(p := True), ar_b := c\<rparr>"
  obtain team gs a1 a2 a3 where t: "cf_enemies cf enemy = Some team" "player_row p ?a = Inr gs"
    "InitDefenderPosition cf (team((0, 2) := enemy)) (on_battle clear_field ?a) = Inr a1"
    "InitAttackerPosition gs a1 = Inr a2" "BattleStart a2 = Inr a3"
    "with_hero p (\<lambda>h. Inr (say (ToSet False) 0x0B [FU8 4, FU8 2, FU32 (h_account h), FU16 0, FU8 npc] h)) a3 = Inr b"
    using e by (auto simp: Engage_creature_def bindR_eq_Inr split: option.splits)
  have "arena_ok (on_battle clear_field ?a)"
    using fresh_ok [OF assms(1,2) c] player_row_hero [OF t(2)] by simp
  then show ?thesis
    using ok.InitDefender_keeps [OF t(3)] ok.InitAttacker_keeps [OF t(4)] ok.BattleStart_keeps [OF t(5)] ok.with_hero_keeps [OF t(6)]
    by blast
qed

lemma Engage_player_ok:
  assumes "\<forall>m. \<not> ar_engine a m" and "registry_ok a" and "start_battle p (Engage_player p enemy) a = Inr b"
  shows "arena_ok b"
proof -
  obtain c where c: "new_battle p (ar_b a) = Inr c"
    and e: "Engage_player p enemy (a\<lparr>ar_engine := (ar_engine a)(p := True), ar_b := c\<rparr>) = Inr b"
    using assms(1,3) by (auto simp: start_battle_def bindR_eq_Inr)
  let ?a = "a\<lparr>ar_engine := (ar_engine a)(p := True), ar_b := c\<rparr>"
  obtain ds gs a1 a2 where t: "player_row p ?a = Inr gs"
    "InitDefenderPosition2 ds (on_battle clear_field ?a) = Inr a1"
    "InitAttackerPosition gs a1 = Inr a2" "BattleStart a2 = Inr b"
    using e by (auto simp: Engage_player_def bindR_eq_Inr)
  have "arena_ok (on_battle clear_field ?a)"
    using fresh_ok [OF assms(1,2) c] player_row_hero [OF t(1)] by simp
  then show ?thesis
    using ok.InitDefender2_keeps [OF t(2)] ok.InitAttacker_keeps [OF t(3)] ok.BattleStart_keeps [OF t(4)] by blast
qed

text \<open>The player that starts the battle runs it.\<close>

interpretation engine: engage_inv "\<lambda>a. ar_engine a = c" for c
  by unfold_locales (auto simp: on_battle_def)

lemma Engage_player_engine:
  assumes "\<not> ar_engine a p" and "start_battle p (Engage_player p enemy) a = Inr b"
  shows "ar_engine b p"
proof -
  obtain c where "Engage_player p enemy (a\<lparr>ar_engine := (ar_engine a)(p := True), ar_b := c\<rparr>) = Inr b"
    using assms by (auto simp: start_battle_def bindR_eq_Inr)
  then obtain ds gs a1 a2 where
    "InitDefenderPosition2 ds (on_battle clear_field (a\<lparr>ar_engine := (ar_engine a)(p := True), ar_b := c\<rparr>)) = Inr a1"
    "InitAttackerPosition gs a1 = Inr a2" "BattleStart a2 = Inr b"
    by (auto simp: Engage_player_def bindR_eq_Inr)
  then have "ar_engine b = (ar_engine a)(p := True)"
    using engine.InitDefender2_keeps engine.InitAttacker_keeps engine.BattleStart_keeps by (fastforce simp: on_battle_def)
  then show ?thesis by simp
qed

lemma handle_event_ok: "handle_event cf jk ev a = Inr b \<Longrightarrow> arena_ok a \<Longrightarrow> arena_ok b"
  by (cases "(cf, jk, ev)" rule: handle_event.cases) (auto dest: ok.HandlePlayerAttack_keeps ok.HandlePetCommand_keeps ok.HandlePetRelease_keeps ok.HandleUseItem_keeps intro: Update_battle_ok log_out_ok)

lemma battle_run_ok: "battle_run cf a \<Longrightarrow> arena_ok a"
  by (induction rule: battle_run.induct) (blast intro: Engage_creature_ok Engage_player_ok handle_event_ok)+

text \<open>C5: in one battle, from its start in any way on and through any ticks, battle packets and logouts, in whatever
  order, but without a second engagement of one of its members, the field has its twenty cells and the turn its twenty entries; as long as some player runs the
  battle, that player is its master and in memory, the list holds every player once, all of them in
  memory and under that master, and so a message to all of them never reads a deleted player.\<close>

theorem battle_session_ok:
  assumes "battle_run cf a"
  shows "length (b_grid (ar_b a)) = 20 \<and> length (b_Actions (ar_b a)) = 20 \<and>
    (\<forall>m. ar_engine a m \<longrightarrow> b_master (ar_b a) = Some m \<and> ar_hero a m \<noteq> None \<and> distinct (b_players (ar_b a)) \<and>
      (\<forall>p \<in> set (b_players (ar_b a)). ar_hero a p \<noteq> None \<and> b_masterOf (ar_b a) p = Some m) \<and>
      (\<forall>opcode fs. to_set opcode fs a = Inr (record_msg (filter (has_session a) (b_players (ar_b a))) opcode fs a)))"
  using battle_run_ok [OF assms] by (auto simp: arena_ok_def to_set_def)

text \<open>Two players without pets and teams fight.\<close>

definition idle_rules :: rules where
  "idle_rules = \<lparr>cf_sdb = (\<lambda>_. None), cf_idb = (\<lambda>_. None), cf_cdb = (\<lambda>_. None), cf_query = (\<lambda>_. None), cf_spawn = (\<lambda>_. None),
     cf_enemies = (\<lambda>_. None), cf_agility = 0, cf_kill_rate = 1, cf_hit_xp = 1, cf_lost_rate = 1, cf_drop_rate = 1,
     cf_sort_drops = (\<lambda>its. its)\<rparr>"

definition duel_hero :: "u64 \<Rightarrow> hero" where
  "duel_hero g = sample_hero\<lparr>h_inv := (h_inv sample_hero)\<lparr>inv_guid := g\<rparr>\<rparr>"

definition duel_arena :: arena where
  "duel_arena = \<lparr>ar_b = empty_battle, ar_hero = [1 \<mapsto> duel_hero 1, 2 \<mapsto> duel_hero 2], ar_pets = [], ar_next = 100,
     ar_engine = (\<lambda>_. False), ar_guid = [1 \<mapsto> 1, 2 \<mapsto> 2], ar_members = (\<lambda>_. []), ar_leader = (\<lambda>_. 0),
     ar_cache = (\<lambda>_. None), ar_petLow = 0\<rparr>"

lemma duel_arena_start:
  "\<exists>b. start_battle 1 (Engage_player 1 2) duel_arena = Inr b \<and> stage (duel_field 1 2) [1, 2] b \<and> b_wait (ar_b b)"
proof -
  have "lone 1 duel_arena" "lone 2 duel_arena"
    by (simp_all add: lone_def duel_arena_def duel_hero_def petless_def sample_hero_def GUID_LOPART_def)
  moreover have "registry_ok duel_arena"
    by (simp add: registry_ok_def duel_arena_def)
  ultimately show ?thesis
    using duel_starts [of duel_arena 1 2] by (simp add: duel_arena_def min_def max_def)
qed

theorem battle_session_ok_witness:
  "\<exists>a. start_battle 1 (Engage_player 1 2) duel_arena = Inr a \<and> b_players (ar_b a) = [1, 2] \<and> b_master (ar_b a) = Some 1 \<and>
     b_masterOf (ar_b a) 2 = Some 1 \<and> (\<exists>b. to_set 0x34 [FU8 1] a = Inr b)"
proof -
  obtain a where a: "start_battle 1 (Engage_player 1 2) duel_arena = Inr a" "stage (duel_field 1 2) [1, 2] a"
    using duel_arena_start by blast
  have "registry_ok duel_arena" by (simp add: registry_ok_def duel_arena_def)
  then have run: "battle_run idle_rules a"
    using a(1) by (intro battle_run.player [of duel_arena 1 2]) (simp_all add: duel_arena_def)
  have e: "ar_engine a 1" using a(1) Engage_player_engine [of duel_arena 1 2 a] by (simp add: duel_arena_def)
  have pl: "b_players (ar_b a) = [1, 2]" using a(2) by (simp add: stage_def)
  have "b_master (ar_b a) = Some 1 \<and> b_masterOf (ar_b a) 2 = Some 1 \<and>
      (\<forall>opcode fs. to_set opcode fs a = Inr (record_msg (filter (has_session a) (b_players (ar_b a))) opcode fs a))"
    using battle_session_ok [OF run] e pl by simp
  then show ?thesis using a(1) pl by blast
qed

end
