(* ===== verification/BattleProgress.thy ===== *)
theory BattleProgress
  imports BattleSession
begin

text \<open>
  A battle comes to its next round: what happens within a tick leaves the clocks of the battle alone, every
  tick without waiting brings them down, and a battle that waits is woken by its time limit.
\<close>

subsection \<open>What leaves the clocks alone\<close>

type_synonym clocks = "bool \<times> u32 \<times> u32 \<times> u32 \<times> battle_action list list"

definition clocks :: "arena \<Rightarrow> clocks" where
  "clocks a = (b_wait (ar_b a), b_actionTime (ar_b a), b_animTime (ar_b a), b_animTimeItem (ar_b a), b_Actions (ar_b a))"

interpretation clk: turn_inv "\<lambda>a. clocks a = c" for c
  by unfold_locales (auto simp: clocks_def quiet_def on_battle_def drop_player_def)

lemma send_group_clocks: "send_group cf jk acts l d a = Inr (r, d', b) \<Longrightarrow> clocks b = clocks a"
  using clk.send_group_keeps by blast

lemma to_set_clocks: "to_set opcode fs a = Inr b \<Longrightarrow> clocks b = clocks a"
  using clk.to_set_keeps by blast

lemma with_hero_clocks: "with_hero p f a = Inr b \<Longrightarrow> clocks b = clocks a"
  using clk.with_hero_keeps by blast

lemma stop_cells_clocks: "foldR (stop_cell cf) ps a = Inr b \<Longrightarrow> clocks b = clocks a"
  using clk.stop_cells_keep by blast

lemma give_drops_clocks: "give_drops its prev d a = Inr b \<Longrightarrow> clocks b = clocks a"
  using clk.give_drops_keeps by blast

lemma show_players_clocks: "foldR show_player ps a = Inr b \<Longrightarrow> clocks b = clocks a"
  using clk.show_players_keep by blast

subsection \<open>The clocks of a tick\<close>

definition actions_left :: "arena \<Rightarrow> nat" where
  "actions_left a = sum_list (map length (b_Actions (ar_b a)))"

text \<open>An action is worth more than its animation and the drops it may cause.\<close>

definition pending :: "arena \<Rightarrow> nat" where
  "pending a =
     unat (b_animTime (ar_b a)) + unat (b_animTimeItem (ar_b a)) + (if b_items (ar_b a) = [] then 0 else 4) + 45 * actions_left a"

lemma to_set_items: "to_set opcode fs a = Inr b \<Longrightarrow> b_items (ar_b b) = b_items (ar_b a)"
  by (auto simp: to_set_def record_msg_def on_battle_def split: if_splits)

lemma to_player_items: "to_player who opcode fs a = Inr b \<Longrightarrow> b_items (ar_b b) = b_items (ar_b a)"
  by (auto simp: to_player_def record_msg_def on_battle_def split: option.splits if_splits)

lemma give_drops_items: "give_drops its prev d a = Inr b \<Longrightarrow> b_items (ar_b b) = b_items (ar_b a)"
proof (induction its arbitrary: prev d a)
  case Nil
  then show ?case
    by (auto simp: flush_drops_def split: prod.splits option.splits if_splits dest: to_set_items)
next
  case (Cons it its)
  have "b_items (ar_b c) = b_items (ar_b a)" if "SendItemDropped it a = Inr c" for c
    using that by (auto simp: SendItemDropped_def bindR_eq_Inr split: option.splits dest: to_player_items)
  moreover have "b_items (ar_b c) = b_items (ar_b x)" if "flush_drops d x = Inr c" for c x
    using that by (auto simp: flush_drops_def split: prod.splits option.splits if_splits dest: to_set_items)
  ultimately show ?case
    using Cons by (auto simp: bindR_eq_Inr Let_def split: if_splits dest!: Cons.IH)
qed

lemma GiveItemDropped_clocks:
  assumes "GiveItemDropped cf jk a = Inr b"
  shows "b_items (ar_b b) = []" and "b_wait (ar_b b) = b_wait (ar_b a)" and "b_animTime (ar_b b) = b_animTime (ar_b a)"
    and "b_Actions (ar_b b) = b_Actions (ar_b a)" and "b_actionTime (ar_b b) = b_actionTime (ar_b a)"
    and "b_animTimeItem (ar_b b) = (if b_items (ar_b a) = [] then b_animTimeItem (ar_b a) else 3)"
proof -
  let ?a = "on_battle (\<lambda>b. b\<lparr>b_animTimeItem := 3, b_items := []\<rparr>) a"
  have "b_items (ar_b a) = [] \<and> b = a \<or>
      b_items (ar_b a) \<noteq> [] \<and> clocks b = clocks ?a \<and> b_items (ar_b b) = b_items (ar_b ?a)"
    using assms give_drops_clocks [of _ _ _ ?a b] give_drops_items [of _ _ _ ?a b]
    by (auto simp: GiveItemDropped_def Let_def split: if_splits)
  then show "b_items (ar_b b) = []" "b_wait (ar_b b) = b_wait (ar_b a)" "b_animTime (ar_b b) = b_animTime (ar_b a)"
    "b_Actions (ar_b b) = b_Actions (ar_b a)" "b_actionTime (ar_b b) = b_actionTime (ar_b a)"
    "b_animTimeItem (ar_b b) = (if b_items (ar_b a) = [] then b_animTimeItem (ar_b a) else 3)"
    by (auto simp: clocks_def on_battle_def)
qed

subsection \<open>A group of actions is used up\<close>

lemma first_group_Some:
  "first_group gs = Some (i, g) \<Longrightarrow> i < length gs \<and> g = gs ! i \<and> g \<noteq> []"
  by (induction gs arbitrary: i) (auto split: if_splits)

lemma first_group_None: "first_group gs = None \<longleftrightarrow> sum_list (map length gs) = 0"
  by (induction gs) auto

lemma sum_list_update_length:
  "i < length gs \<Longrightarrow> sum_list (map length (gs[i := h])) + length (gs ! i) = sum_list (map length gs) + length h"
proof (induction gs arbitrary: i)
  case Nil
  then show ?case by simp
next
  case (Cons g gs)
  then show ?case by (cases i) auto
qed

lemma SendAction_uses_group:
  assumes "SendAction cf jk a = Inr (True, b)"
  shows "actions_left b < actions_left a" and "b_wait (ar_b b) = b_wait (ar_b a)"
    and "b_animTimeItem (ar_b b) = b_animTimeItem (ar_b a)"
    and "unat (b_animTime (ar_b b)) \<le> max (unat (b_animTime (ar_b a))) 40"
proof -
  obtain i g where g: "first_group (b_Actions (ar_b a)) = Some (i, g)"
    using assms by (auto simp: SendAction_def split: option.splits)
  let ?a0 = "on_battle (\<lambda>b. b\<lparr>b_Actions := (b_Actions b)[i := []]\<rparr>) a"
  obtain acts a1 def data sk valid a2 where u: "unlink_group i g ?a0 = Inr (acts, a1)"
    and s: "send_group cf jk acts False ([FU8 1], SPELL_BASIC, False) a1 = Inr (def, (data, sk, valid), a2)"
    and b: "(def \<or> \<not> valid) \<and> b = a2 \<or> (\<exists>a3. to_set 0x32 data a2 = Inr a3 \<and> b = on_battle (WaitForAnimation sk) a3)"
    using assms g by (auto simp: SendAction_def bindR_eq_Inr split: if_splits)
  have c2: "clocks a2 = clocks a1" using s by (rule send_group_clocks)
  have c1: "\<exists>h. length h < length g \<and> clocks a1 = (case clocks a of (w, wt, t, ti, acts) \<Rightarrow> (w, wt, t, ti, acts[i := h]))"
  proof -
    have "a1 = ?a0 \<or> a1 = on_battle (\<lambda>b. b\<lparr>b_Actions := (b_Actions b)[i := tl g]\<rparr>) ?a0"
      using u by (auto simp: unlink_group_def bindR_eq_Inr split: if_splits)
    then show ?thesis
    proof
      assume "a1 = ?a0"
      then show ?thesis using first_group_Some [OF g] by (intro exI [of _ "[]"]) (auto simp: clocks_def on_battle_def)
    next
      assume "a1 = on_battle (\<lambda>b. b\<lparr>b_Actions := (b_Actions b)[i := tl g]\<rparr>) ?a0"
      then show ?thesis using first_group_Some [OF g] by (intro exI [of _ "tl g"]) (auto simp: clocks_def on_battle_def)
    qed
  qed
  then obtain h where h: "length h < length g" "b_Actions (ar_b a2) = (b_Actions (ar_b a))[i := h]"
    "b_wait (ar_b a2) = b_wait (ar_b a)" "b_animTimeItem (ar_b a2) = b_animTimeItem (ar_b a)" "b_animTime (ar_b a2) = b_animTime (ar_b a)"
    using c2 by (auto simp: clocks_def)
  have n: "actions_left a2 < actions_left a"
    using sum_list_update_length [of i "b_Actions (ar_b a)" h] first_group_Some [OF g] h(1,2) by (simp add: actions_left_def)
  show "actions_left b < actions_left a" "b_wait (ar_b b) = b_wait (ar_b a)" "b_animTimeItem (ar_b b) = b_animTimeItem (ar_b a)"
    "unat (b_animTime (ar_b b)) \<le> max (unat (b_animTime (ar_b a))) 40"
    using b n h(3-5) by (auto simp: actions_left_def WaitForAnimation_def on_battle_def clocks_def dest!: to_set_clocks)
qed

subsection \<open>Every tick brings the battle forward\<close>

definition concluded :: "rules \<Rightarrow> chance \<Rightarrow> arena \<Rightarrow> bool" where
  "concluded cf jk a \<longleftrightarrow> (\<exists>b. BattleConcluded cf jk a = Inr (True, b))"

lemma SendTurnComplete_waits:
  assumes "SendTurnComplete a = Inr b"
  shows "b_wait (ar_b b)"
  using assms by (auto simp: SendTurnComplete_def bindR_eq_Inr clocks_def on_battle_def dest!: to_set_clocks)

lemma unat_dec: "0 < w \<Longrightarrow> unat (w - 1) < unat w" for w :: u32
  by (metis measure_unat word_not_simps(1))

lemma tick_pending:
  assumes "UpdateBattleAction cf jk a = Inr b" and "\<not> b_wait (ar_b a)" and "\<not> concluded cf jk a"
  shows "b_wait (ar_b b) \<or> pending b < pending a"
proof (cases "0 < b_animTimeItem (ar_b a)")
  case True
  then have "b = on_battle (\<lambda>b. b\<lparr>b_animTimeItem := b_animTimeItem b - 1\<rparr>) a"
    using assms(1) by (simp add: UpdateBattleAction_def)
  then show ?thesis
    using unat_dec [OF True] by (simp add: pending_def on_battle_def actions_left_def)
next
  case False
  then have ti: "b_animTimeItem (ar_b a) = 0" by (simp add: word_gt_0)
  obtain fin a1 where c: "BattleConcluded cf jk a = Inr (fin, a1)"
    using assms(1) False by (auto simp: UpdateBattleAction_def bindR_eq_Inr)
  with assms(3) have "\<not> fin" by (auto simp: concluded_def)
  show ?thesis
  proof (cases "0 < b_animTime (ar_b a)")
    case True
    then have "a1 = a" using c by (simp add: BattleConcluded_def)
    then have "b = on_battle (\<lambda>b. b\<lparr>b_animTime := b_animTime b - 1\<rparr>) a"
      using assms(1,2) False c True \<open>\<not> fin\<close> by (simp add: UpdateBattleAction_def)
    then show ?thesis
      using unat_dec [OF True] by (simp add: pending_def on_battle_def actions_left_def)
  next
    case no_anim: False
    then have t: "b_animTime (ar_b a) = 0" by (simp add: word_gt_0)
    have g: "GiveItemDropped cf (jk_drop jk) a = Inr a1"
      using c no_anim \<open>\<not> fin\<close> by (auto simp: BattleConcluded_def bindR_eq_Inr split: if_splits)
    note g1 = GiveItemDropped_clocks [OF g]
    obtain a2 a3 a4 sent where a2: "(if b_killed (ar_b a1) then GiveItemDropped cf (jk_drop jk) (on_battle (\<lambda>b. b\<lparr>b_killed := False\<rparr>) a1) else Inr a1) = Inr a2"
      and a3: "SendAction cf jk a2 = Inr (sent, a3)" and a4: "(if sent then Inr a3 else SendTurnComplete a3) = Inr a4"
      and b: "foldR show_player (b_players (ar_b a4)) a4 = Inr b"
      using assms(1,2) False c \<open>\<not> fin\<close> g1(2,3) t by (auto simp: UpdateBattleAction_def bindR_eq_Inr)
    have s2: "b_items (ar_b a2) = []" "b_wait (ar_b a2) = b_wait (ar_b a1)" "b_animTime (ar_b a2) = b_animTime (ar_b a1)"
      "b_animTimeItem (ar_b a2) = b_animTimeItem (ar_b a1)" "b_Actions (ar_b a2) = b_Actions (ar_b a1)"
      using a2 g1(1) GiveItemDropped_clocks [of cf "jk_drop jk" "on_battle (\<lambda>b. b\<lparr>b_killed := False\<rparr>) a1" a2]
      by (auto simp: on_battle_def split: if_splits)
    have cb: "clocks b = clocks a4" using b by (rule show_players_clocks)
    show ?thesis
    proof (cases sent)
      case False
      then show ?thesis using a4 cb SendTurnComplete_waits by (auto simp: clocks_def)
    next
      case True
      with a3 have "SendAction cf jk a2 = Inr (True, a3)" by simp
      note u = SendAction_uses_group [OF this]
      have "b_animTime (ar_b b) = b_animTime (ar_b a3)" "b_animTimeItem (ar_b b) = b_animTimeItem (ar_b a3)" "actions_left b = actions_left a3"
        using cb a4 True by (auto simp: clocks_def actions_left_def)
      moreover have "actions_left a2 = actions_left a" using s2(5) g1(4) by (simp add: actions_left_def)
      moreover have "unat (b_animTimeItem (ar_b a3)) \<le> (if b_items (ar_b a) = [] then 0 else 3)"
        using u(3) s2(4) g1(6) ti by simp
      moreover have "unat (b_animTime (ar_b a3)) \<le> 40" using u(4) s2(3) g1(3) t by simp
      ultimately have "pending b < pending a"
        using u(1) t ti by (auto simp: pending_def split: if_splits)
      then show ?thesis ..
    qed
  qed
qed

fun ticks :: "rules \<Rightarrow> chance \<Rightarrow> nat \<Rightarrow> arena \<Rightarrow> arena res" where
  "ticks cf jk 0 a = Inr a"
| "ticks cf jk (Suc n) a = bindR (UpdateBattleAction cf jk a) (ticks cf jk n)"

text \<open>C8: a round always comes to its end. From every state that is not waiting for actions, after at most as many
  ticks as the clocks, the drops and the actions left amount to, the battle waits for the next actions or is
  decided, unless an operation faults on the way.\<close>

theorem round_ends:
  assumes "\<not> b_wait (ar_b a)"
  shows "\<exists>n \<le> pending a + 1. (case ticks cf jk n a of Inl _ \<Rightarrow> True | Inr b \<Rightarrow> b_wait (ar_b b) \<or> concluded cf jk b)"
  using assms
proof (induction "pending a" arbitrary: a rule: less_induct)
  case less
  show ?case
  proof (cases "concluded cf jk a")
    case True
    then show ?thesis by (intro exI [of _ 0]) simp
  next
    case going: False
    show ?thesis
    proof (cases "UpdateBattleAction cf jk a")
      case (Inl e)
      then show ?thesis by (intro exI [of _ "Suc 0"]) simp
    next
      case (Inr b)
      show ?thesis
      proof (cases "b_wait (ar_b b)")
        case True
        then show ?thesis using Inr by (intro exI [of _ "Suc 0"]) simp
      next
        case False
        then have "pending b < pending a" using tick_pending [OF Inr less.prems going] by simp
        with less.hyps [of b] False obtain n where "n \<le> pending b + 1"
          "case ticks cf jk n b of Inl _ \<Rightarrow> True | Inr c \<Rightarrow> b_wait (ar_b c) \<or> concluded cf jk c"
          by blast
        then show ?thesis
          using Inr \<open>pending b < pending a\<close> by (intro exI [of _ "Suc n"]) simp
      qed
    qed
  qed
qed

text \<open>Two units face each other after an action that takes two more ticks, with nothing left to do.\<close>

definition idle_arena :: arena where
  "idle_arena = \<lparr>ar_b = sample_battle\<lparr>b_animTime := 2\<rparr>, ar_hero = (\<lambda>_. None), ar_pets = [], ar_next = 100, ar_engine = (\<lambda>_. False),
     ar_guid = (\<lambda>_. None), ar_members = (\<lambda>_. []), ar_leader = (\<lambda>_. 0), ar_cache = (\<lambda>_. None), ar_petLow = 0\<rparr>"

theorem round_ends_witness:
  "pending idle_arena = 2 \<and>
   (\<exists>n. case ticks idle_rules \<lparr>jk_drop = 0, jk_pet = (0, 0, 0)\<rparr> n idle_arena of
          Inl _ \<Rightarrow> True | Inr b \<Rightarrow> b_wait (ar_b b) \<or> concluded idle_rules \<lparr>jk_drop = 0, jk_pet = (0, 0, 0)\<rparr> b)"
proof
  have "\<not> b_wait (ar_b idle_arena)"
    by (simp add: idle_arena_def sample_battle_def empty_battle_def)
  from round_ends [OF this] show "\<exists>n. case ticks idle_rules \<lparr>jk_drop = 0, jk_pet = (0, 0, 0)\<rparr> n idle_arena of
          Inl _ \<Rightarrow> True | Inr b \<Rightarrow> b_wait (ar_b b) \<or> concluded idle_rules \<lparr>jk_drop = 0, jk_pet = (0, 0, 0)\<rparr> b"
    by blast
  show "pending idle_arena = 2"
    by (simp add: pending_def actions_left_def idle_arena_def sample_battle_def empty_battle_def)
qed

subsection \<open>Waiting comes to its end\<close>

fun updates :: "rules \<Rightarrow> chance \<Rightarrow> uid \<Rightarrow> nat \<Rightarrow> arena \<Rightarrow> arena res" where
  "updates cf jk p 0 a = Inr a"
| "updates cf jk p (Suc n) a = bindR (Update_battle cf jk p a) (updates cf jk p n)"

lemma BattleConcluded_timer:
  assumes "BattleConcluded cf jk a = Inr (f, b)"
  shows "b_wait (ar_b b) = b_wait (ar_b a)" and "b_actionTime (ar_b b) = b_actionTime (ar_b a)"
proof -
  have "b = a \<or> GiveItemDropped cf (jk_drop jk) a = Inr b"
    using assms by (auto simp: BattleConcluded_def bindR_eq_Inr split: if_splits)
  then show "b_wait (ar_b b) = b_wait (ar_b a)" "b_actionTime (ar_b b) = b_actionTime (ar_b a)"
    using GiveItemDropped_clocks(2,5) by auto
qed

lemma BattleStop_timer:
  assumes "BattleStop cf a = Inr b"
  shows "clocks b = clocks a"
proof -
  have "b = a \<or> (\<exists>c. foldR (stop_cell cf) (by_rows all_cols) a = Inr c \<and> clocks b = clocks c)"
    using assms by (auto simp: BattleStop_def bindR_eq_Inr split: if_splits option.splits dest!: stop_players_Inr with_hero_clocks)
  then show ?thesis using stop_cells_clocks by auto
qed

lemma UpdateBattleAction_waiting:
  assumes "UpdateBattleAction cf jk a = Inr b" and "b_wait (ar_b a)"
  shows "b_wait (ar_b b)" and "b_actionTime (ar_b b) = b_actionTime (ar_b a)"
proof -
  have "b = on_battle (\<lambda>b. b\<lparr>b_animTimeItem := b_animTimeItem b - 1\<rparr>) a \<or>
      (\<exists>f c. BattleConcluded cf jk a = Inr (f, c) \<and> (clocks b = clocks c \<or> b = c))"
    using assms BattleConcluded_timer(1)
    by (auto simp: UpdateBattleAction_def bindR_eq_Inr split: if_splits dest: BattleStop_timer)
  then show "b_wait (ar_b b)" "b_actionTime (ar_b b) = b_actionTime (ar_b a)"
    using assms(2) BattleConcluded_timer by (auto simp: on_battle_def clocks_def)
qed

lemma Update_battle_waiting:
  assumes "Update_battle cf jk p a = Inr b" and "b_wait (ar_b a)" and "ar_engine a p" and "\<not> fst (isActionTimedOut (ar_b a))"
  shows "\<not> ar_engine b p \<or> b_wait (ar_b b) \<and> b_actionTime (ar_b b) = b_actionTime (ar_b a) + 1"
proof -
  let ?late = "a\<lparr>ar_b := (ar_b a)\<lparr>b_actionTime := b_actionTime (ar_b a) + 1\<rparr>\<rparr>"
  obtain a1 f a2 where u: "UpdateBattleAction cf jk ?late = Inr a1" and c: "BattleConcluded cf jk a1 = Inr (f, a2)"
    and b: "(if \<not> f then Inr a2 else bindR (BattleStop cf a2) (\<lambda>a3. Inr (a3\<lparr>ar_engine := (ar_engine a3)(p := False)\<rparr>))) = Inr b"
    using assms by (auto simp: Update_battle_def isActionTimedOut_def bindR_eq_Inr)
  show ?thesis
  proof (cases f)
    case True
    then show ?thesis using b by (auto simp: bindR_eq_Inr)
  next
    case False
    then show ?thesis
      using b UpdateBattleAction_waiting [OF u] BattleConcluded_timer [OF c] assms(2) by simp
  qed
qed

lemma ticks_left:
  fixes t :: u32
  assumes "t + 1 < 220"
  shows "unat (219 - t) = Suc (unat (219 - (t + 1))) \<and> unat (219 - t) \<le> 220"
proof -
  define s where "s = t + 1"
  have s: "unat s < 220" using assms by (simp add: s_def word_less_nat_alt)
  have n: "unat (220 - s) = 220 - unat s" "unat (219 - s) = 219 - unat s"
    using s by (simp_all add: unat_sub word_le_nat_alt)
  have e: "219 - t = 220 - s" by (simp add: s_def)
  show ?thesis using s unfolding e s_def [symmetric] n by arith
qed

lemma time_runs_out:
  assumes "b_wait (ar_b a)" and "ar_engine a p"
  shows "\<exists>n \<le> 220. case updates cf jk p n a of Inl _ \<Rightarrow> True
    | Inr b \<Rightarrow> \<not> ar_engine b p \<or> b_wait (ar_b b) \<and> fst (isActionTimedOut (ar_b b))"
    (is "\<exists>n \<le> 220. ?ends n a")
proof -
  have "\<exists>n. n \<le> unat (219 - b_actionTime (ar_b a)) \<and> n \<le> 220 \<and> ?ends n a"
    using assms
  proof (induction "unat (219 - b_actionTime (ar_b a))" arbitrary: a rule: less_induct)
    case less
    let ?t = "b_actionTime (ar_b a)"
    show ?case
    proof (cases "fst (isActionTimedOut (ar_b a))")
      case True
      then show ?thesis using less.prems by (intro exI [of _ 0]) simp
    next
      case early: False
      then have t: "?t + 1 < 220" using less.prems by (simp add: isActionTimedOut_def)
      have m: "unat (219 - ?t) = Suc (unat (219 - (?t + 1)))" "unat (219 - ?t) \<le> 220"
        using ticks_left [OF t] by simp_all
      show ?thesis
      proof (cases "Update_battle cf jk p a")
        case (Inl e)
        then show ?thesis using m by (intro exI [of _ "Suc 0"]) simp
      next
        case (Inr b)
        show ?thesis
        proof (cases "ar_engine b p")
          case False
          then show ?thesis using Inr m by (intro exI [of _ "Suc 0"]) simp
        next
          case True
          then have b: "b_wait (ar_b b)" "b_actionTime (ar_b b) = ?t + 1"
            using Update_battle_waiting [OF Inr less.prems early] by auto
          then obtain n where "n \<le> unat (219 - b_actionTime (ar_b b))" "?ends n b"
            using less.hyps [of b] True m(1) by auto
          then show ?thesis using Inr b(2) m by (intro exI [of _ "Suc n"]) simp
        qed
      qed
    qed
  qed
  then show ?thesis by blast
qed

text \<open>Building a turn ends the wait.\<close>

definition same_wait :: "battle \<Rightarrow> battle \<Rightarrow> bool" where
  "same_wait b c \<longleftrightarrow> b_wait c = b_wait b \<and> b_actionTime c = b_actionTime b"

lemma same_wait_trans: "same_wait b c \<Longrightarrow> same_wait c d \<Longrightarrow> same_wait b d"
  by (simp add: same_wait_def)

lemma ai_spell_wait: "ai_spell sdb u s b = Inr (t, c) \<Longrightarrow> same_wait b c"
  by (auto simp: ai_spell_def bindR_eq_Inr same_wait_def Let_def split: prod.splits if_splits)

lemma AddBattleAction_wait: "AddBattleAction act b = Inr c \<Longrightarrow> same_wait b c"
  by (auto simp: AddBattleAction_def bindR_eq_Inr same_wait_def split: option.splits)

lemma ai_unit_wait:
  assumes "ai_unit sdb p (s, b) = Inr (t, c)"
  shows "same_wait b c"
proof -
  obtain x y where p: "p = (x, y)" by (cases p)
  show ?thesis
  proof (cases "c = b")
    case False
    obtain q where q: "grid_get b x y = Inr q" using assms by (auto simp: p ai_unit_def bindR_eq_Inr)
    with assms False obtain i where i: "q = Some i" by (cases q) (auto simp: p ai_unit_def)
    have "bindR (ai_spell sdb (unit_at b i) s b) (\<lambda>(s1, b1). bindR (first_living (by_rows atk_cols) b1) (\<lambda>pos.
            case pos of None \<Rightarrow> Inr (s1, b1)
            | Some (c2, r2) \<Rightarrow> bindR (AddBattleAction (BattleAction x y s1 c2 r2) b1) (\<lambda>b2. Inr (s1, b2)))) = Inr (t, c)"
      using assms q False by (simp add: p i ai_unit_def Let_def split: if_split_asm)
    then obtain s1 b1 pos where r: "ai_spell sdb (unit_at b i) s b = Inr (s1, b1)"
      "(case pos of None \<Rightarrow> Inr (s1, b1)
        | Some (c2, r2) \<Rightarrow> bindR (AddBattleAction (BattleAction x y s1 c2 r2) b1) (\<lambda>b2. Inr (s1, b2))) = Inr (t, c)"
      by (simp only: bindR_eq_Inr split_paired_Ex prod.case) blast
    show ?thesis
      using ai_spell_wait [OF r(1)] r(2)
      by (cases pos) (auto simp: bindR_eq_Inr dest!: AddBattleAction_wait intro: same_wait_trans)
  qed (simp add: same_wait_def)
qed

lemma AIMove_wait:
  assumes "AIMove sdb b = Inr c"
  shows "same_wait b c"
proof -
  obtain s where f: "foldR (ai_unit sdb) (by_rows def_cols) (SPELL_BASIC, b) = Inr (s, c)"
    using assms by (auto simp: AIMove_def bindR_eq_Inr)
  have "same_wait b (snd (s, c))"
    by (rule foldR_invariant [where P = "\<lambda>z. same_wait b (snd z)", OF _ _ f])
      (auto dest!: ai_unit_wait simp: same_wait_def)
  then show ?thesis by simp
qed

definition same_turn :: "battle \<Rightarrow> battle \<Rightarrow> bool" where
  "same_turn b c \<longleftrightarrow> same_wait b c \<and> b_unitTurn c = b_unitTurn b"

lemma same_turn_trans: "same_turn b c \<Longrightarrow> same_turn c d \<Longrightarrow> same_turn b d"
  by (auto simp: same_turn_def intro: same_wait_trans)

lemma push_action_turn: "push_action j act b = Inr c \<Longrightarrow> same_turn b c"
  by (auto simp: push_action_def same_turn_def same_wait_def split: if_splits)

lemma CanLink_turn: "CanLink sdb rate q act b = Inr (l, c) \<Longrightarrow> same_turn b c"
  using CanLink_cases [of sdb rate q act b l c] by (auto simp: same_turn_def same_wait_def)

lemma group_actions_turn: "group_actions sdb rate acts prev i b = Inr c \<Longrightarrow> same_turn b c"
proof (induction acts arbitrary: prev i b)
  case Nil
  then show ?case by (simp add: same_turn_def same_wait_def)
next
  case (Cons act acts)
  have step: "same_turn b c" if "push_action j act d = Inr e" "group_actions sdb rate acts (Some act) j e = Inr c" "same_turn b d" for d e j
    using push_action_turn [OF that(1)] Cons.IH [OF that(2)] that(3) by (blast intro: same_turn_trans)
  have "same_turn b b" by (simp add: same_turn_def same_wait_def)
  with Cons.prems show ?case
    by (auto simp: bindR_eq_Inr split: if_splits option.splits intro: step dest: CanLink_turn)
qed

lemma BuildActions_wait:
  assumes "BuildActions sdb rate b = Inr c"
  shows "\<not> b_wait c \<and> b_actionTime c = 0 \<and> b_unitTurn c = []"
proof -
  let ?b = "b\<lparr>b_wait := False, b_actionTime := 0, b_Actions := map (\<lambda>_. []) (b_Actions b)\<rparr>"
  obtain d where d: "AIMove sdb ?b = Inr d" "group_actions sdb rate (sort_agility (b_unitTurn d)) None 0 (d\<lparr>b_unitTurn := []\<rparr>) = Inr c"
    using assms by (auto simp: BuildActions_def bindR_eq_Inr Let_def)
  show ?thesis using AIMove_wait [OF d(1)] group_actions_turn [OF d(2)] by (simp add: same_wait_def same_turn_def)
qed

text \<open>C11: nobody can keep a battle waiting. From every state in which the battle waits for actions, after at most 220
  ticks of its master the battle has ended, a tick has faulted, or the time limit is over; in the last case the
  next tick, unless it faults, builds the turn from the actions there are: the wait ends, its clock starts over,
  no action is left outside the turn, and the round starts from that turn.\<close>

theorem waiting_ends:
  assumes "b_wait (ar_b a)" and "ar_engine a p"
  shows "\<exists>n \<le> 220. case updates cf jk p n a of Inl _ \<Rightarrow> True
    | Inr b \<Rightarrow> \<not> ar_engine b p \<or> b_wait (ar_b b) \<and> fst (isActionTimedOut (ar_b b)) \<and>
        (\<forall>c. Update_battle cf jk p b = Inr c \<longrightarrow>
          (\<exists>t d. BuildActions (cf_sdb cf) (cf_agility cf) (snd (isActionTimedOut (ar_b b))) = Inr t \<and>
             \<not> b_wait t \<and> b_actionTime t = 0 \<and> b_unitTurn t = [] \<and> UpdateBattleAction cf jk (b\<lparr>ar_b := t\<rparr>) = Inr d))"
proof -
  obtain n where n: "n \<le> 220" "case updates cf jk p n a of Inl _ \<Rightarrow> True
    | Inr b \<Rightarrow> \<not> ar_engine b p \<or> b_wait (ar_b b) \<and> fst (isActionTimedOut (ar_b b))"
    using time_runs_out [OF assms, of cf jk] by blast
  have built: "\<exists>t d. BuildActions (cf_sdb cf) (cf_agility cf) (snd (isActionTimedOut (ar_b b))) = Inr t \<and>
      \<not> b_wait t \<and> b_actionTime t = 0 \<and> b_unitTurn t = [] \<and> UpdateBattleAction cf jk (b\<lparr>ar_b := t\<rparr>) = Inr d"
    if "Update_battle cf jk p b = Inr c" "ar_engine b p" "fst (isActionTimedOut (ar_b b))" for b c
    using that BuildActions_wait by (auto simp: Update_battle_def bindR_eq_Inr split: prod.splits if_splits)
  show ?thesis
  proof (cases "updates cf jk p n a")
    case (Inl e)
    then show ?thesis using n(1) by (intro exI [of _ n]) simp
  next
    case (Inr b)
    then show ?thesis using n built [of b] by (intro exI [of _ n]) auto
  qed
qed

theorem waiting_ends_witness:
  "\<exists>a. start_battle 1 (Engage_player 1 2) duel_arena = Inr a \<and>
     (\<exists>n. case updates idle_rules \<lparr>jk_drop = 0, jk_pet = (0, 0, 0)\<rparr> 1 n a of Inl _ \<Rightarrow> True
        | Inr b \<Rightarrow> \<not> ar_engine b 1 \<or> b_wait (ar_b b) \<and> fst (isActionTimedOut (ar_b b)))"
proof -
  obtain a where a: "start_battle 1 (Engage_player 1 2) duel_arena = Inr a" "b_wait (ar_b a)"
    using duel_arena_start by blast
  moreover have "ar_engine a 1" using a(1) Engage_player_engine [of duel_arena 1 2 a] by (simp add: duel_arena_def)
  ultimately obtain n where n: "case updates idle_rules \<lparr>jk_drop = 0, jk_pet = (0, 0, 0)\<rparr> 1 n a of Inl _ \<Rightarrow> True
      | Inr b \<Rightarrow> \<not> ar_engine b 1 \<or> b_wait (ar_b b) \<and> fst (isActionTimedOut (ar_b b)) \<and>
        (\<forall>c. Update_battle idle_rules \<lparr>jk_drop = 0, jk_pet = (0, 0, 0)\<rparr> 1 b = Inr c \<longrightarrow>
          (\<exists>t d. BuildActions (cf_sdb idle_rules) (cf_agility idle_rules) (snd (isActionTimedOut (ar_b b))) = Inr t \<and>
             \<not> b_wait t \<and> b_actionTime t = 0 \<and> b_unitTurn t = [] \<and>
             UpdateBattleAction idle_rules \<lparr>jk_drop = 0, jk_pet = (0, 0, 0)\<rparr> (b\<lparr>ar_b := t\<rparr>) = Inr d))"
    using waiting_ends [of a 1 idle_rules "\<lparr>jk_drop = 0, jk_pet = (0, 0, 0)\<rparr>"] by blast
  then have "case updates idle_rules \<lparr>jk_drop = 0, jk_pet = (0, 0, 0)\<rparr> 1 n a of Inl _ \<Rightarrow> True
      | Inr b \<Rightarrow> \<not> ar_engine b 1 \<or> b_wait (ar_b b) \<and> fst (isActionTimedOut (ar_b b))"
    by (auto split: sum.splits)
  with a(1) show ?thesis by blast
qed

end
