(* ===== verification/ActionPackets.thy ===== *)
theory ActionPackets
  imports BattleProgress "HOL-Library.Sublist"
begin

text \<open>
  The packet of a group of actions (\<open>src/game/BattleSystem.cpp\<close>): every block is as long as the length in front
  of it says, so a client can cut the packet into the blocks of the actions.
\<close>

subsection \<open>Sizes\<close>

lemma field_width_simps [simp]:
  "field_width (FU8 a) = 1" "field_width (FU16 b) = 2" "field_width (FU32 c) = 4"
  by (simp_all add: field_width_def wire_u8.enc_width wire_u16.enc_width wire_u32.enc_width)

lemma fields_size_simps [simp]:
  "fields_size [] = 0" "fields_size (f # fs) = field_width f + fields_size fs" "fields_size (fs @ gs) = fields_size fs + fields_size gs"
  by (simp_all add: fields_size_def)

lemma fields_size_bytes: "length (concat (map field_bytes fs)) = fields_size fs"
  by (induction fs) (simp_all add: field_width_def)

text \<open>A loop that adds at most one hit at a time.\<close>

lemma foldR_adds_one:
  assumes "\<And>x ys zs. f x ys = Inr zs \<Longrightarrow> length zs \<le> Suc (length ys)" and "foldR f xs ys = Inr zs"
  shows "length zs \<le> length ys + length xs"
  using assms(2)
proof (induction xs arbitrary: ys)
  case Nil
  then show ?case by simp
next
  case (Cons x xs)
  then obtain us where "f x ys = Inr us" "foldR f xs us = Inr zs" by (auto simp: bindR_eq_Inr)
  then show ?case using Cons.IH [of us] assms(1) [of x ys us] by simp
qed

lemma one_hit:
  "probe_hit b act p hs = Inr gs \<Longrightarrow> length gs \<le> Suc (length hs)"
  "arrow_hit b act l p hs = Inr gs \<Longrightarrow> length gs \<le> Suc (length hs)"
  "side_hit b act p hs = Inr gs \<Longrightarrow> length gs \<le> Suc (length hs)"
  by (auto simp: probe_hit_def arrow_hit_def side_hit_def bindR_eq_Inr split: prod.splits if_splits)

lemma parse_lengths:
  "parse3 b act l hs = Inr gs \<Longrightarrow> length gs \<le> length hs + 3"
  "parse4 b act l hs = Inr gs \<Longrightarrow> length gs \<le> length hs + 4"
  "parse6 b act l hs = Inr gs \<Longrightarrow> length gs \<le> length hs + 6"
proof -
  have three: "parse3 b act l hs = Inr gs \<Longrightarrow> length gs \<le> length hs + 3" for hs gs
    using foldR_adds_one [of "arrow_hit b act l" "[(tgtCol act, tgtRow act - 1), (tgtCol act, tgtRow act + 1)]" "hs @ [act]" gs]
    by (simp add: parse3_def Let_def one_hit)
  have four: "parse4 b act l hs = Inr gs \<Longrightarrow> length gs \<le> length hs + 4" for hs gs
    by (auto simp: parse4_def bindR_eq_Inr dest!: one_hit three)
  show "parse3 b act l hs = Inr gs \<Longrightarrow> length gs \<le> length hs + 3" by (rule three)
  show "parse4 b act l hs = Inr gs \<Longrightarrow> length gs \<le> length hs + 4" by (rule four)
  assume "parse6 b act l hs = Inr gs"
  then obtain ks where k: "foldR (probe_hit b act) [(other_col (tgtCol act), tgtRow act - 1), (other_col (tgtCol act), tgtRow act + 1)] hs = Inr ks"
    and g: "parse4 b act l ks = Inr gs"
    by (auto simp: parse6_def bindR_eq_Inr Let_def)
  from k have "length ks \<le> length hs + length [(other_col (tgtCol act), tgtRow act - 1), (other_col (tgtCol act), tgtRow act + 1)]"
    by (rule foldR_adds_one [rotated]) (rule one_hit)
  with four [OF g] show "length gs \<le> length hs + 6" by simp
qed

lemma ParseSpell_length:
  assumes "ParseSpell sdb act hit l b = Inr hs"
  shows "length hs \<le> 11"
proof -
  have "length hs \<le> 11" if "parse10 b act = Inr hs"
  proof -
    let ?ps = "by_rows (if isDefPos (tgtCol act) then def_cols else atk_cols)"
    have "length hs \<le> length [act] + length ?ps"
      using that unfolding parse10_def by (rule foldR_adds_one [rotated]) (rule one_hit)
    moreover have "length ?ps = 10" by (simp add: by_rows_def def_cols_def atk_cols_def rows_def)
    ultimately show ?thesis by simp
  qed
  moreover have "length hs \<le> 6" if "parse5 b act = Inr hs"
  proof -
    have "length hs \<le> length [act] + length (filter (\<lambda>p. snd p \<noteq> tgtRow act) (map (Pair (tgtCol act)) rows))"
      using that unfolding parse5_def by (rule foldR_adds_one [rotated]) (rule one_hit)
    also have "\<dots> \<le> 1 + length rows" using length_filter_le [of _ "map (Pair (tgtCol act)) rows"] by simp
    finally show ?thesis by (simp add: rows_def)
  qed
  moreover have "length hs \<le> 2" if "parse2 b act = Inr hs"
    using one_hit(1) that unfolding parse2_def by fastforce
  moreover have "length hs \<le> 1" if "parse1 b act = Inr hs"
    using that by (auto simp: parse1_def bindR_eq_Inr)
  moreover note parse_lengths [of b act l "[]" hs]
  ultimately show ?thesis
    using assms by (auto simp: ParseSpell_def split: if_splits)
qed

lemma mod_fields_size: "fields_size (mod_fields m ani st d k) \<le> 11"
  by (simp add: mod_fields_def Let_def)

lemma SpellMod_size:
  "BuildUpdateBlockSpellMod cf hit info w v d m l c a = Inr (fs, b) \<Longrightarrow> fields_size fs \<le> 11"
  by (auto simp: BuildUpdateBlockSpellMod_def bindR_eq_Inr Let_def mod_fields_size split: prod.splits option.splits if_splits)

lemma hit_block_adds:
  assumes "hit_block cf act info l c hit (fs, a) = Inr (gs, b)"
  shows "\<exists>blk. gs = fs @ blk \<and> fields_size blk \<le> 13"
proof -
  obtain q1 q2 where "GetAttacker hit (ar_b a) = Inr q1" "GetVictim hit (ar_b a) = Inr q2"
    using assms by (auto simp: hit_block_def bindR_eq_Inr)
  then obtain w v where "hit_units cf act info l c hit w v (fs, a) = Inr (gs, b)"
    using assms by (cases q1; cases q2) (auto simp: hit_block_def)
  then obtain n k x blk y where "BuildUpdateBlockSpellMod cf hit info w v n k l c x = Inr (blk, y)" "gs = fs @ hit_pos_fields act hit @ blk"
    by (auto simp: hit_units_def bindR_eq_Inr)
  then show ?thesis using SpellMod_size by (fastforce simp: hit_pos_fields_def)
qed

lemma hit_blocks_add:
  "foldR (hit_block cf act info l c) hits (fs, a) = Inr (gs, b) \<Longrightarrow> \<exists>blk. gs = fs @ blk \<and> fields_size blk \<le> 13 * length hits"
proof (induction hits arbitrary: fs a)
  case Nil
  then show ?case by simp
next
  case (Cons hit hits)
  then obtain fs1 a1 where 1: "hit_block cf act info l c hit (fs, a) = Inr (fs1, a1)" "foldR (hit_block cf act info l c) hits (fs1, a1) = Inr (gs, b)"
    by (auto simp: bindR_eq_Inr)
  from hit_block_adds [OF 1(1)] Cons.IH [OF 1(2)] show ?case by fastforce
qed

subsection \<open>Blocks\<close>

definition framed :: "field list \<Rightarrow> field list" where
  "framed blk = FU16 (of_nat (fields_size blk)) # blk"

text \<open>The block of an action: the place of the actor comes first.\<close>

definition block_of :: "battle_action \<Rightarrow> field list \<Rightarrow> bool" where
  "block_of act blk \<longleftrightarrow> take 2 blk = [FU8 (atkCol act), FU8 (atkRow act)] \<and> fields_size blk < 2 ^ 16"

lemma ActionBlock_framed:
  assumes "BuildUpdateBlockAction cf jk act l (data, a) = Inr (data', b)"
  shows "\<exists>blk. data' = data @ framed blk \<and> block_of act blk"
proof -
  obtain catched a1 info hits fs where h: "ParseSpell (cf_sdb cf) act (ucast (si_hit info)) l (ar_b a1) = Inr hits"
    and f: "foldR (hit_block cf act info l catched) hits (data @ [FU16 0x000F, FU8 (atkCol act), FU8 (atkRow act),
        FU16 (shown_skill catched (skill act)), FU8 1, FU8 (ucast (si_hit info))], a1) = Inr (fs, b)"
    and d: "data' = fs[length data := FU16 (packet_size fs - packet_size data - 2)]"
    using assms by (auto simp: BuildUpdateBlockAction_def bindR_eq_Inr split: option.splits)
  obtain more where m: "fs = (data @ [FU16 0x000F, FU8 (atkCol act), FU8 (atkRow act),
      FU16 (shown_skill catched (skill act)), FU8 1, FU8 (ucast (si_hit info))]) @ more" "fields_size more \<le> 13 * length hits"
    using hit_blocks_add [OF f] by blast
  define blk where "blk = [FU8 (atkCol act), FU8 (atkRow act), FU16 (shown_skill catched (skill act)), FU8 1, FU8 (ucast (si_hit info))] @ more"
  have fs: "fs = data @ FU16 0x000F # blk" by (simp add: m(1) blk_def)
  have "packet_size fs - packet_size data - 2 = of_nat (fields_size blk)"
    by (simp add: fs packet_size_def)
  then have "data' = data @ framed blk"
    by (simp add: d fs framed_def)
  moreover have "fields_size blk < 2 ^ 16"
    using m(2) ParseSpell_length [OF h] by (simp add: blk_def)
  ultimately show ?thesis by (auto simp: block_of_def blk_def)
qed

lemma send_group_blocks:
  assumes "send_group cf jk acts l (data, sk, valid) a = Inr (fin, (data', sk', valid'), b)"
  shows "\<exists>as blks. data' = data @ concat (map framed blks) \<and> subseq as acts \<and> list_all2 block_of as blks \<and>
    (valid' \<longleftrightarrow> valid \<or> blks \<noteq> [])"
  using assms
proof (induction acts arbitrary: l data sk valid a)
  case Nil
  then show ?case by (intro exI [of _ "[]"]) simp
next
  case (Cons act acts)
  obtain w where w: "GetAttacker act (ar_b a) = Inr w"
    using Cons.prems by (auto simp: bindR_eq_Inr Let_def)
  consider (stop) "data' = data" "valid' = valid"
    | (skip) l' x where "send_group cf jk acts l' (data, sk, valid) x = Inr (fin, (data', sk', valid'), b)"
    | (act) l' data1 x y where "BuildUpdateBlockAction cf jk act l' (data, x) = Inr (data1, y)"
        "send_group cf jk acts l' (data1, skill act, True) y = Inr (fin, (data', sk', valid'), b)"
  proof (cases w)
    case None
    then show ?thesis using Cons.prems w that by (auto simp: Let_def)
  next
    case (Some i)
    then show ?thesis using Cons.prems w that
      by (auto simp: Let_def bindR_eq_Inr split: prod.split_asm if_split_asm)
  qed
  then show ?case
  proof cases
    case stop
    then show ?thesis by (intro exI [of _ "[]"]) simp
  next
    case skip
    from Cons.IH [OF skip] show ?thesis by (blast intro: subseq_Cons')
  next
    case act
    obtain blk where blk: "data1 = data @ framed blk" "block_of act blk" using ActionBlock_framed [OF act(1)] by blast
    obtain as blks where "data' = data1 @ concat (map framed blks)" "subseq as acts" "list_all2 block_of as blks" "valid'"
      using Cons.IH [OF act(2)] by auto
    then show ?thesis using blk by (intro exI [of _ "act # as"] exI [of _ "blk # blks"]) simp
  qed
qed

subsection \<open>Cutting the packet\<close>

definition bytes_of :: "field list \<Rightarrow> bytes" where
  "bytes_of fs = concat (map field_bytes fs)"

fun cut_blocks :: "bytes \<Rightarrow> bytes list option" where
  "cut_blocks [] = Some []"
| "cut_blocks [_] = None"
| "cut_blocks (x # y # bs) =
     (let n = unat (dec_u16 [x, y])
      in if n \<le> length bs then map_option (Cons (take n bs)) (cut_blocks (drop n bs)) else None)"

lemma cut_framed:
  assumes "fields_size blk < 2 ^ 16"
  shows "cut_blocks (bytes_of (framed blk) @ bs) = map_option (Cons (bytes_of blk)) (cut_blocks bs)"
proof -
  obtain x y where xy: "enc_u16 (of_nat (fields_size blk)) = [x, y]"
    using wire_u16.enc_width [of "of_nat (fields_size blk)"] by (auto simp: numeral_2_eq_2 length_Suc_conv)
  have "dec_u16 [x, y] = of_nat (fields_size blk)" by (simp flip: xy add: wire_u16.dec_enc)
  then have n: "unat (dec_u16 [x, y]) = length (bytes_of blk)"
    using assms by (simp add: unat_of_nat_small bytes_of_def fields_size_bytes)
  show ?thesis by (simp add: bytes_of_def framed_def xy Let_def) (simp add: n bytes_of_def [symmetric])
qed

lemma cut_all:
  "list_all2 block_of as blks \<Longrightarrow> cut_blocks (bytes_of (concat (map framed blks))) = Some (map bytes_of blks)"
proof (induction rule: list_all2_induct)
  case Nil
  then show ?case by (simp add: bytes_of_def)
next
  case (Cons a as blk blks)
  have "bytes_of (framed blk @ fs) = bytes_of (framed blk) @ bytes_of fs" for fs by (simp add: bytes_of_def)
  then show ?case using Cons cut_framed [of blk] by (simp add: block_of_def)
qed

text \<open>C36: the body of the packet of a group is one byte and then the blocks of those of its actions that were
  carried out, in their order; following the length in front of each block, a client cuts the bytes into
  exactly these blocks, each with the place of its actor first, and no length wraps.\<close>

theorem group_packet_roundtrip:
  assumes "send_group cf jk acts False ([FU8 1], SPELL_BASIC, False) a = Inr (fin, (data, sk, valid), b)"
  shows "\<exists>as blks. subseq as acts \<and> list_all2 block_of as blks \<and> bytes_of data = enc_u8 1 @ bytes_of (concat (map framed blks)) \<and>
    cut_blocks (drop 1 (bytes_of data)) = Some (map bytes_of blks) \<and> (valid \<longleftrightarrow> blks \<noteq> [])"
proof -
  obtain as blks where g: "data = [FU8 1] @ concat (map framed blks)" "subseq as acts" "list_all2 block_of as blks" "valid \<longleftrightarrow> blks \<noteq> []"
    using send_group_blocks [OF assms] by auto
  moreover have "bytes_of data = enc_u8 1 @ bytes_of (concat (map framed blks))" by (simp add: g(1) bytes_of_def)
  ultimately show ?thesis
    using cut_all [OF g(3)] wire_u8.enc_width [of 1] by (intro exI conjI) auto
qed

text \<open>Nobody stands at the first actor's place; the second one hits an empty cell.\<close>

definition punch_rules :: rules where
  "punch_rules = idle_rules\<lparr>cf_sdb := (\<lambda>s. if s = 10000 then Some punch else None)\<rparr>"

lemma punch_group:
  "send_group punch_rules jk [BattleAction 3 3 10000 0 0, BattleAction 2 0 10000 1 4] False ([FU8 1], SPELL_BASIC, False) idle_arena =
   Inr (False, ([FU8 1, FU16 6, FU8 2, FU8 0, FU16 10000, FU8 1, FU8 1], 10000, True), idle_arena)"
  by (simp add: punch_rules_def idle_rules_def idle_arena_def BattleAction_def GetAttacker_def GetBattleUnit_def grid_get_def
      sample_battle_def empty_battle_def cell_def isDead_def isDisabled_def sample_unit_def BuildUpdateBlockAction_def ParseSpell_def
      parse1_def isUnitAvail_def packet_size_def shown_skill_def punch_def Let_def hasUnitState_def)

theorem group_packet_roundtrip_witness:
  "\<exists>blks. blks \<noteq> [] \<and> subseq [BattleAction 2 0 10000 1 4] [BattleAction 3 3 10000 0 0, BattleAction 2 0 10000 1 4] \<and>
     cut_blocks (drop 1 (bytes_of [FU8 1, FU16 6, FU8 2, FU8 0, FU16 10000, FU8 1, FU8 1])) = Some (map bytes_of blks)"
  using group_packet_roundtrip [OF punch_group] by auto

end
