(* ===== verification/RoundFacts.thy ===== *)
theory RoundFacts
  imports BattleProgress
begin

text \<open>
  What a round does (\<open>src/game/BattleSystem.cpp\<close>): when a battle is decided and how it ends, how many actions the
  next round waits for, and the frame of the packet of a group.
\<close>

subsection \<open>The end\<close>

text \<open>Somebody on a side is alive.\<close>

definition side_alive :: "battle \<Rightarrow> bool \<Rightarrow> bool" where
  "side_alive b def \<longleftrightarrow> (\<exists>c r i. standing b c r = Some i \<and> isDefPos c = def \<and> isAlive (unit_at b i))"

lemma any_alive_spec:
  assumes "grid_ok b" and "\<forall>(c, r) \<in> set ps. on_field c r"
  shows "any_alive ps b = Inr (\<exists>(c, r) \<in> set ps. \<exists>i. standing b c r = Some i \<and> isAlive (unit_at b i))"
  using assms(2)
proof (induction ps)
  case Nil
  then show ?case by simp
next
  case (Cons p ps)
  obtain c r where p: "p = (c, r)" by (cases p)
  have "grid_get b c r = Inr (standing b c r)"
    using grid_get_field [OF assms(1)] Cons.prems by (simp add: p)
  then show ?case using Cons by (cases "standing b c r") (auto simp: p)
qed

lemma sides:
  "(\<exists>(c, r) \<in> set (by_rows def_cols). \<exists>i. standing b c r = Some i \<and> isAlive (unit_at b i)) = side_alive b True"
  "(\<exists>(c, r) \<in> set (by_rows atk_cols). \<exists>i. standing b c r = Some i \<and> isAlive (unit_at b i)) = side_alive b False"
proof -
  have on: "standing b c r = Some i \<Longrightarrow> c < 4 \<and> r < 5" for c r i
    by (auto simp: standing_def on_field_def split: if_splits)
  have d: "isDefPos c = (c < 2)" for c by (simp add: isDefPos_def)
  show "(\<exists>(c, r) \<in> set (by_rows def_cols). \<exists>i. standing b c r = Some i \<and> isAlive (unit_at b i)) = side_alive b True"
    unfolding side_alive_def pos_lists d using on by blast
  show "(\<exists>(c, r) \<in> set (by_rows atk_cols). \<exists>i. standing b c r = Some i \<and> isAlive (unit_at b i)) = side_alive b False"
    unfolding side_alive_def pos_lists d using on by (simp add: not_less) blast
qed

lemma side_cells:
  "\<forall>(c, r) \<in> set (by_rows def_cols). on_field c r" "\<forall>(c, r) \<in> set (by_rows atk_cols). on_field c r"
  by (simp_all add: by_rows_def def_cols_def atk_cols_def rows_def on_field_def)

lemma BattleConcluded_quiet:
  assumes "grid_ok (ar_b a)" and "b_items (ar_b a) = []"
  shows "BattleConcluded cf jk a = Inr (b_animTime (ar_b a) = 0 \<and> b_animTimeItem (ar_b a) = 0 \<and>
    \<not> (side_alive (ar_b a) True \<and> side_alive (ar_b a) False), a)"
proof -
  have "GiveItemDropped cf (jk_drop jk) a = Inr a" using assms(2) by (simp add: GiveItemDropped_def)
  moreover have "any_alive (by_rows def_cols) (ar_b a) = Inr (side_alive (ar_b a) True)"
    "any_alive (by_rows atk_cols) (ar_b a) = Inr (side_alive (ar_b a) False)"
    using any_alive_spec [OF assms(1), of "by_rows def_cols"] any_alive_spec [OF assms(1), of "by_rows atk_cols"]
    unfolding sides using side_cells by simp_all
  ultimately show ?thesis
    by (auto simp: BattleConcluded_def word_gt_0)
qed

lemma BattleStop_faults:
  assumes "b_animTimeItem (ar_b a) = 0" and "b_players (ar_b a) \<noteq> []"
  shows "\<exists>e. BattleStop cf a = Inl e"
proof (cases "BattleStop cf a")
  case (Inr b)
  then obtain c d where c: "foldR (stop_cell cf) (by_rows all_cols) a = Inr c" and d: "stop_players cf c = Inr d"
    using assms(1) by (auto simp: BattleStop_def bindR_eq_Inr)
  have "b_players (ar_b c) = b_players (ar_b a)"
    using crew.stop_cells_keep [OF c] by (auto simp: crew_def)
  with stop_players_Inr [OF d] assms(2) show ?thesis by simp
qed simp

text \<open>With nothing left to animate or to deliver the battle is decided exactly when one of the two sides has
  nobody alive, and asking changes nothing. The tick that finds it decided never comes to its end while
  players are in the list: \<open>BattleStop\<close> takes each of them out of the set it iterates over and goes on with
  an iterator that is no longer valid.\<close>

theorem decided_battle:
  assumes "length (b_grid (ar_b a)) = 20" and "b_items (ar_b a) = []" and "b_animTime (ar_b a) = 0" and "b_animTimeItem (ar_b a) = 0"
  shows "BattleConcluded cf jk a = Inr (\<not> side_alive (ar_b a) True \<or> \<not> side_alive (ar_b a) False, a) \<and>
    (if (\<not> side_alive (ar_b a) True \<or> \<not> side_alive (ar_b a) False) \<and> b_players (ar_b a) \<noteq> []
     then \<exists>e. UpdateBattleAction cf jk a = Inl e
     else b_wait (ar_b a) \<and> side_alive (ar_b a) True \<and> side_alive (ar_b a) False \<longrightarrow> UpdateBattleAction cf jk a = Inr a)"
proof -
  have "BattleConcluded cf jk a = Inr (\<not> side_alive (ar_b a) True \<or> \<not> side_alive (ar_b a) False, a)"
    using BattleConcluded_quiet [of a cf jk] assms by (auto simp: grid_ok_def)
  moreover have "\<exists>e. BattleStop cf a = Inl e" if "b_players (ar_b a) \<noteq> []"
    using BattleStop_faults [OF assms(4) that] .
  ultimately show ?thesis using assms(4) by (auto simp: UpdateBattleAction_def)
qed

definition over_arena :: arena where
  "over_arena = duel_arena\<lparr>ar_b := empty_battle\<lparr>b_players := [1, 2]\<rparr>\<rparr>"

theorem decided_battle_witness: "\<exists>e. UpdateBattleAction idle_rules \<lparr>jk_drop = 0, jk_pet = (0, 0, 0)\<rparr> over_arena = Inl e"
proof -
  have "standing (ar_b over_arena) c r = None" for c r
    by (simp add: over_arena_def empty_battle_def standing_def cell_bound)
  then show ?thesis
    using decided_battle [of over_arena idle_rules "\<lparr>jk_drop = 0, jk_pet = (0, 0, 0)\<rparr>"]
    by (simp add: side_alive_def over_arena_def empty_battle_def)
qed

subsection \<open>The actions a round waits for\<close>

text \<open>What the end of a turn does to a unit on the field: disabling states and buffs run down, a guard is lowered.\<close>

definition rested :: "unit_rec \<Rightarrow> unit_rec" where
  "rested u = clearUnitState UNIT_STATE_DEFEND (snd (isPositiveBufExpired (snd (isReleaseFromDisabledState u))))"

definition may_act :: "unit_rec \<Rightarrow> bool" where
  "may_act u \<longleftrightarrow> fights_for_players u \<and> \<not> isDead u \<and> \<not> isDisabled u"

text \<open>No unit stands in two places.\<close>

definition one_place :: "battle \<Rightarrow> bool" where
  "one_place b \<longleftrightarrow> (\<forall>c r c' r' i. standing b c r = Some i \<and> standing b c' r' = Some i \<longrightarrow> (c, r) = (c', r'))"

definition ready_cells :: "battle \<Rightarrow> (u8 \<times> u8) list \<Rightarrow> (u8 \<times> u8) list" where
  "ready_cells b ps = filter (\<lambda>(c, r). case standing b c r of None \<Rightarrow> False | Some i \<Rightarrow> may_act (unit_at b i)) ps"

lemma release_msg_battle:
  "(if f then release_msg c r k a else Inr a) = Inr b \<Longrightarrow>
   b_grid (ar_b b) = b_grid (ar_b a) \<and> b_units (ar_b b) = b_units (ar_b a) \<and> b_need (ar_b b) = b_need (ar_b a) \<and>
   b_count (ar_b b) = b_count (ar_b a) \<and> b_actionTime (ar_b b) = b_actionTime (ar_b a)"
  by (auto simp: release_msg_def to_set_def record_msg_def on_battle_def split: if_splits)

lemma on_unit_battle:
  "b_grid (ar_b (on_unit i f a)) = b_grid (ar_b a)" "b_units (ar_b (on_unit i f a)) = (b_units (ar_b a))(i := f (unit_of a i))"
  "b_need (ar_b (on_unit i f a)) = b_need (ar_b a)" "b_count (ar_b (on_unit i f a)) = b_count (ar_b a)"
  "b_actionTime (ar_b (on_unit i f a)) = b_actionTime (ar_b a)"
  by (simp_all add: on_unit_def upd_unit_def on_battle_def)

lemma standing_grid: "b_grid b' = b_grid b \<Longrightarrow> standing b' c r = standing b c r"
  by (simp add: standing_def)

lemma reset_cell_spec:
  assumes run: "reset_cell (c, r) a = Inr b" and ok: "grid_ok (ar_b a)" "on_field c r"
  shows "b_grid (ar_b b) = b_grid (ar_b a) \<and> b_count (ar_b b) = b_count (ar_b a) \<and> b_actionTime (ar_b b) = b_actionTime (ar_b a) \<and>
    b_need (ar_b b) = b_need (ar_b a) + of_nat (length (ready_cells (ar_b a) [(c, r)])) \<and>
    b_units (ar_b b) = (case standing (ar_b a) c r of None \<Rightarrow> b_units (ar_b a)
      | Some i \<Rightarrow> (b_units (ar_b a))(i := rested (unit_of a i)))"
  using run
proof (cases rule: reset_cell_Inr)
  case 1
  then have "standing (ar_b a) c r = None" using grid_get_field [OF ok] by simp
  then show ?thesis using 1(2) by (simp add: ready_cells_def)
next
  case (2 i a1 a2 a3 rel u1 ex u2)
  have st: "standing (ar_b a) c r = Some i" using 2(1) grid_get_field [OF ok] by simp
  have r: "rested (unit_of a i) = clearUnitState UNIT_STATE_DEFEND u2" by (simp add: rested_def 2(3,4))
  have a1: "b_grid (ar_b a1) = b_grid (ar_b a)" "b_units (ar_b a1) = b_units (ar_b a)" "b_count (ar_b a1) = b_count (ar_b a)"
    "b_actionTime (ar_b a1) = b_actionTime (ar_b a)"
    "b_need (ar_b a1) = b_need (ar_b a) + (if may_act (unit_of a i) then 1 else 0)"
    by (simp_all add: 2(2) on_battle_def may_act_def)
  note a2 = release_msg_battle [OF 2(5)] and a3 = release_msg_battle [OF 2(6)]
  have u: "b_units (ar_b a3) = (b_units (ar_b a))(i := u2)"
    using a1 a2 a3 by (simp add: on_unit_battle)
  have "length (ready_cells (ar_b a) [(c, r)]) = (if may_act (unit_of a i) then 1 else 0)"
    by (simp add: ready_cells_def st)
  then show ?thesis
    using a1 a2 a3 by (simp add: 2(7) r st on_unit_battle u del: UNIT_STATE_DEFEND_def)
qed

lemma reset_cells_spec:
  assumes "foldR reset_cell ps a = Inr b" and "grid_ok (ar_b a)" and "\<forall>(c, r) \<in> set ps. on_field c r" and "distinct ps"
    and "one_place (ar_b a)"
  shows "b_grid (ar_b b) = b_grid (ar_b a) \<and> b_count (ar_b b) = b_count (ar_b a) \<and> b_actionTime (ar_b b) = b_actionTime (ar_b a) \<and>
    b_need (ar_b b) = b_need (ar_b a) + of_nat (length (ready_cells (ar_b a) ps)) \<and>
    (\<forall>i. unit_of b i = (if \<exists>(c, r) \<in> set ps. standing (ar_b a) c r = Some i then rested (unit_of a i) else unit_of a i))"
  using assms
proof (induction ps arbitrary: a)
  case Nil
  then show ?case by (simp add: ready_cells_def)
next
  case (Cons p ps)
  obtain c r where p: "p = (c, r)" by (cases p)
  obtain x where x: "reset_cell (c, r) a = Inr x" and rest: "foldR reset_cell ps x = Inr b"
    using Cons.prems(1) by (auto simp: p bindR_eq_Inr)
  have on: "on_field c r" using Cons.prems(3) by (simp add: p)
  note X = reset_cell_spec [OF x Cons.prems(2) on]
  have st: "standing (ar_b x) c' r' = standing (ar_b a) c' r'" for c' r' using X by (intro standing_grid) simp
  have other: "standing (ar_b a) c' r' \<noteq> Some i" if "(c', r') \<in> set ps" "standing (ar_b a) c r = Some i" for c' r' i
  proof
    assume "standing (ar_b a) c' r' = Some i"
    then have "(c', r') = p" using Cons.prems(5) that(2) unfolding one_place_def p by blast
    with that(1) Cons.prems(4) show False by simp
  qed
  have same: "unit_of x i = unit_of a i" if "(c', r') \<in> set ps" "standing (ar_b a) c' r' = Some i" for c' r' i
    using X other [OF that(1)] that(2) by (auto split: option.splits)
  have ready: "ready_cells (ar_b x) ps = ready_cells (ar_b a) ps"
    unfolding ready_cells_def by (rule filter_cong) (auto simp: st same split: option.splits)
  have IH: "b_grid (ar_b b) = b_grid (ar_b x) \<and> b_count (ar_b b) = b_count (ar_b x) \<and> b_actionTime (ar_b b) = b_actionTime (ar_b x) \<and>
    b_need (ar_b b) = b_need (ar_b x) + of_nat (length (ready_cells (ar_b x) ps)) \<and>
    (\<forall>i. unit_of b i = (if \<exists>(c, r) \<in> set ps. standing (ar_b x) c r = Some i then rested (unit_of x i) else unit_of x i))"
    using Cons.IH [OF rest] Cons.prems X by (simp add: grid_ok_def one_place_def st)
  have units: "unit_of b i = (if \<exists>(c, r) \<in> set (p # ps). standing (ar_b a) c r = Some i then rested (unit_of a i) else unit_of a i)" for i
  proof (cases "standing (ar_b a) c r = Some i")
    case True
    then have "unit_of x i = rested (unit_of a i)" using X by simp
    moreover have "\<not> (\<exists>(c, r) \<in> set ps. standing (ar_b a) c r = Some i)" using other True by blast
    ultimately show ?thesis using IH True by (simp add: p st)
  next
    case False
    then have "unit_of x i = unit_of a i" using X by (auto split: option.splits)
    with IH False show ?thesis by (simp add: p st)
  qed
  have "length (ready_cells (ar_b a) (p # ps)) = length (ready_cells (ar_b a) [p]) + length (ready_cells (ar_b a) ps)"
    by (simp add: ready_cells_def)
  with X IH ready units show ?case by (simp add: p add.assoc)
qed

text \<open>The next round waits for exactly as many actions as players and pets are alive and not disabled when the
  last one ends, starts with no action and no time, and every unit on the field has rested once: its states
  ran down and its guard is lowered. A unit that is set free by this very call may act but is not counted.\<close>

theorem ResetAction_counts:
  assumes "ResetAction a = Inr b" and "length (b_grid (ar_b a)) = 20" and "one_place (ar_b a)"
  shows "unat (b_need (ar_b b)) = card {(c, r). \<exists>i. standing (ar_b a) c r = Some i \<and> may_act (unit_of a i)} \<and>
    b_count (ar_b b) = 0 \<and> b_actionTime (ar_b b) = 0 \<and>
    (\<forall>i. unit_of b i = (if \<exists>c r. standing (ar_b a) c r = Some i then rested (unit_of a i) else unit_of a i))"
proof -
  define x where "x = on_battle (\<lambda>b. b\<lparr>b_actionTime := 0, b_count := 0, b_need := 0\<rparr>) a"
  have x0: "b_need (ar_b x) = 0" "b_count (ar_b x) = 0" "b_actionTime (ar_b x) = 0" "length (b_grid (ar_b x)) = 20"
    using assms(2) by (simp_all add: x_def on_battle_def)
  let ?ps = "by_rows all_cols"
  have st: "standing (ar_b x) c r = standing (ar_b a) c r" for c r by (simp add: x_def standing_def on_battle_def)
  have d: "distinct ?ps" by (simp add: by_rows_def all_cols_def rows_def)
  have on: "\<forall>(c, r) \<in> set ?ps. on_field c r" by (simp add: pos_lists)
  have f: "foldR reset_cell ?ps x = Inr b" using assms(1) by (simp add: ResetAction_def x_def)
  have g: "grid_ok (ar_b x)" "one_place (ar_b x)" using assms(3) x0 by (simp_all add: grid_ok_def one_place_def st)
  note R = reset_cells_spec [OF f g(1) on d g(2)]
  have in_ps: "standing (ar_b a) c r = Some i \<Longrightarrow> (c, r) \<in> set ?ps" for c r i
    by (auto simp: pos_lists standing_def split: if_splits)
  then have cells: "(\<exists>(c, r) \<in> set ?ps. standing (ar_b a) c r = Some i) = (\<exists>c r. standing (ar_b a) c r = Some i)" for i
    by blast
  have u: "unit_of x i = unit_of a i" for i by (simp add: x_def on_battle_def)
  let ?rs = "ready_cells (ar_b x) ?ps"
  have "set ?rs = {(c, r). \<exists>i. standing (ar_b a) c r = Some i \<and> may_act (unit_of a i)}"
    using in_ps by (auto simp: ready_cells_def st u split: option.splits)
  moreover have "distinct ?rs" using d by (simp add: ready_cells_def)
  ultimately have card: "card {(c, r). \<exists>i. standing (ar_b a) c r = Some i \<and> may_act (unit_of a i)} = length ?rs"
    using distinct_card by metis
  have "length ?ps = 20" by (simp add: by_rows_def all_cols_def rows_def)
  moreover have "length (filter f xs) \<le> length xs" for f and xs :: "(u8 \<times> u8) list" by simp
  ultimately have "length ?rs \<le> 20" unfolding ready_cells_def by metis
  then have "unat (b_need (ar_b b)) = length ?rs"
    using R x0(1) by (simp add: unat_of_nat_small)
  with R show ?thesis
    by (simp only: x0 st cells u card) simp
qed

definition one_unit_arena :: arena where
  "one_unit_arena = idle_arena\<lparr>ar_b := empty_battle\<lparr>b_grid := (replicate 20 None)[17 := Some 7],
     b_units := (\<lambda>_. sample_unit\<lparr>u_type := TYPE_PLAYER, u_vals := (\<lambda>i. if i = UNIT_FIELD_HP then 50 else 0)\<rparr>), b_need := 3, b_count := 3\<rparr>\<rparr>"

theorem ResetAction_counts_witness:
  "\<exists>b. ResetAction one_unit_arena = Inr b \<and> unat (b_need (ar_b b)) = card {(3 :: u8, 2 :: u8)} \<and> b_count (ar_b b) = 0"
proof -
  have "\<exists>b. ResetAction one_unit_arena = Inr b"
    by (simp add: ResetAction_def one_unit_arena_def on_battle_def by_rows_def all_cols_def rows_def reset_cell_def grid_get_def cell_def
        empty_battle_def isReleaseFromDisabledState_def isPositiveBufExpired_def sample_unit_def Let_def on_unit_battle)
  then obtain b where b: "ResetAction one_unit_arena = Inr b" by blast
  have len: "length (b_grid (ar_b one_unit_arena)) = 20" by (simp add: one_unit_arena_def)
  have st: "standing (ar_b one_unit_arena) c r = (if (c, r) = (3, 2) then Some 7 else None)" for c r
  proof (cases "on_field c r")
    case True
    then have "cell c r = 17 \<longleftrightarrow> (c, r) = (3, 2)"
      using cell_inj [of r 2 c 3] by (auto simp: on_field_def cell_def)
    then show ?thesis using True cell_bound [OF True]
      by (auto simp: standing_def one_unit_arena_def nth_list_update)
  next
    case False
    then show ?thesis by (auto simp: standing_def on_field_def)
  qed
  have act: "may_act (unit_of one_unit_arena 7)"
    by (simp add: isType_def hasUnitState_def may_act_def fights_for_players_def isDead_def isDisabled_def one_unit_arena_def empty_battle_def sample_unit_def)
  have "{(c, r). \<exists>i. standing (ar_b one_unit_arena) c r = Some i \<and> may_act (unit_of one_unit_arena i)} = {(3, 2)}"
    using act by (auto simp: st split: if_splits)
  moreover have "one_place (ar_b one_unit_arena)" by (auto simp: one_place_def st split: if_splits)
  ultimately show ?thesis using ResetAction_counts [OF b len] b by auto
qed

end
