(* ===== verification/FightPackets.thy ===== *)
theory FightPackets
  imports RoundFacts
begin

text \<open>
  The packets of a fight from their bytes (\<open>src/game/CombatHandler.cpp\<close>): a challenge and a chosen action.
\<close>

subsection \<open>Reading fields\<close>

text \<open>What is left to read from a packet.\<close>

definition holds :: "byte_buffer \<Rightarrow> field list \<Rightarrow> bool" where
  "holds b fs \<longleftrightarrow> bb_rpos b \<le> length (bb_storage b) \<and> drop (bb_rpos b) (bb_storage b) = concat (map field_bytes fs)"

lemma holds_split:
  assumes "holds b (f # fs)"
  shows "bb_storage b = take (bb_rpos b) (bb_storage b) @ field_bytes f @ concat (map field_bytes fs)"
    and "length (take (bb_rpos b) (bb_storage b)) = bb_rpos b"
proof -
  have "drop (bb_rpos b) (bb_storage b) = field_bytes f @ concat (map field_bytes fs)" using assms by (simp add: holds_def)
  then show "bb_storage b = take (bb_rpos b) (bb_storage b) @ field_bytes f @ concat (map field_bytes fs)"
    by (metis append_take_drop_id)
  show "length (take (bb_rpos b) (bb_storage b)) = bb_rpos b" using assms by (simp add: holds_def)
qed

lemma holds_next:
  assumes "holds b (f # fs)" and "length (field_bytes f) = w"
  shows "holds (b\<lparr>bb_rpos := bb_rpos b + w\<rparr>) fs"
proof -
  have len: "length (bb_storage b) = bb_rpos b + (w + length (concat (map field_bytes fs)))"
    using arg_cong [OF holds_split(1) [OF assms(1)], of length] holds_split(2) [OF assms(1)] assms(2) by simp
  have "drop w (drop (bb_rpos b) (bb_storage b)) = concat (map field_bytes fs)"
    using assms by (simp add: holds_def)
  then show ?thesis using len by (simp add: holds_def add.commute)
qed

lemma read_u8_holds: "holds b (FU8 x # fs) \<Longrightarrow> \<exists>b'. read_u8 b = Inr (x, b') \<and> holds b' fs \<and> bb_storage b' = bb_storage b"
  using wire_u8.read_written [of b "take (bb_rpos b) (bb_storage b)" x "concat (map field_bytes fs)"] holds_split [of b "FU8 x" fs]
    holds_next [of b "FU8 x" fs 1] by (auto simp: read_u8_def wire_u8.enc_width)

lemma read_u16_holds: "holds b (FU16 x # fs) \<Longrightarrow> \<exists>b'. read_u16 b = Inr (x, b') \<and> holds b' fs \<and> bb_storage b' = bb_storage b"
  using wire_u16.read_written [of b "take (bb_rpos b) (bb_storage b)" x "concat (map field_bytes fs)"] holds_split [of b "FU16 x" fs]
    holds_next [of b "FU16 x" fs 2] by (auto simp: read_u16_def wire_u16.enc_width)

lemma read_u32_holds: "holds b (FU32 x # fs) \<Longrightarrow> \<exists>b'. read_u32 b = Inr (x, b') \<and> holds b' fs \<and> bb_storage b' = bb_storage b"
  using wire_u32.read_written [of b "take (bb_rpos b) (bb_storage b)" x "concat (map field_bytes fs)"] holds_split [of b "FU32 x" fs]
    holds_next [of b "FU32 x" fs 4] by (auto simp: read_u32_def wire_u32.enc_width)

lemma holds_size: "holds b fs \<Longrightarrow> length (concat (map field_bytes fs)) \<le> bb_size b"
  by (metis bb_size_def diff_le_self holds_def length_drop)

subsection \<open>Choosing an action\<close>

lemma HandlePlayerAttack_reads:
  assumes "holds b [FU8 k, FU8 ac, FU8 ar, FU8 tc, FU8 tr, FU16 spell]"
  shows "HandlePlayerAttackOpcode cf p b a = player_attack cf p (if spell = SPELL_DEFENSE \<or> spell = SPELL_ESCAPE
    then BattleAction ac ar spell ac ar else BattleAction ac ar spell tc tr) a"
proof -
  have "\<not> bb_size b < 7"
    using holds_size [OF assms] by (simp add: wire_u8.enc_width wire_u16.enc_width)
  moreover obtain b1 where b1: "read_u8 b = Inr (k, b1)" "holds b1 [FU8 ac, FU8 ar, FU8 tc, FU8 tr, FU16 spell]"
    using read_u8_holds [OF assms] by blast
  moreover obtain b2 where b2: "read_u8 b1 = Inr (ac, b2)" "holds b2 [FU8 ar, FU8 tc, FU8 tr, FU16 spell]"
    using read_u8_holds [OF b1(2)] by blast
  moreover obtain b3 where b3: "read_u8 b2 = Inr (ar, b3)" "holds b3 [FU8 tc, FU8 tr, FU16 spell]"
    using read_u8_holds [OF b2(2)] by blast
  moreover obtain b4 where b4: "read_u8 b3 = Inr (tc, b4)" "holds b4 [FU8 tr, FU16 spell]"
    using read_u8_holds [OF b3(2)] by blast
  moreover obtain b5 where b5: "read_u8 b4 = Inr (tr, b5)" "holds b5 [FU16 spell]"
    using read_u8_holds [OF b4(2)] by blast
  moreover obtain b6 where "read_u16 b5 = Inr (spell, b6)"
    using read_u16_holds [OF b5(2)] by blast
  ultimately show ?thesis by (simp add: HandlePlayerAttackOpcode_def Let_def)
qed

text \<open>The action a packet puts into the turn for the unit at the named cell.\<close>

definition named_action :: "spell_db \<Rightarrow> unit_rec \<Rightarrow> u8 \<Rightarrow> u8 \<Rightarrow> u8 \<Rightarrow> u8 \<Rightarrow> u16 \<Rightarrow> battle_action" where
  "named_action sdb u ac ar tc tr spell =
     \<lparr>atkCol = ac, atkRow = ar, skill = (if HaveSpell spell u \<or> sdb spell \<noteq> None then spell else SPELL_BASIC),
      tgtCol = (if spell \<in> {SPELL_DEFENSE, SPELL_ESCAPE} then ac else tc), tgtRow = (if spell \<in> {SPELL_DEFENSE, SPELL_ESCAPE} then ar else tr),
      agility = uget u UNIT_FIELD_AGI + uget u UNIT_FIELD_AGI_MOD\<rparr>"

text \<open>C40: the attack packet of a player in a battle is not held to the player's own units. Naming an empty cell fails
  an assertion, which stops the server; while the round waits, naming any other cell adds an action of
  whoever stands there, with any spell the database knows, and counts it; once the round is
  complete nothing happens.\<close>

theorem attack_packet_unchecked:
  assumes "holds b [FU8 k, FU8 ac, FU8 ar, FU8 tc, FU8 tr, FU16 spell]"
    and "has_engine p a" and "length (b_grid (ar_b a)) = 20" and "ac < 4" and "ar < 5"
  shows "case standing (ar_b a) ac ar of
      None \<Rightarrow> HandlePlayerAttackOpcode cf p b a = Inl AssertFailed
    | Some i \<Rightarrow> HandlePlayerAttackOpcode cf p b a =
        (if b_need (ar_b a) = b_count (ar_b a) then Inr a
         else let c = on_battle (\<lambda>b. b\<lparr>b_unitTurn := b_unitTurn b @ [named_action (cf_sdb cf) (unit_of a i) ac ar tc tr spell],
                b_count := b_count b + 1\<rparr>) a
              in if b_need (ar_b a) = b_count (ar_b a) + 1 then build_actions cf c else tell p 0x35 [FU8 5, FU8 ac, FU8 ar] c)"
proof -
  have "on_field ac ar" using assms(4,5) by (simp add: on_field_def)
  then have g: "GetBattleUnit ac ar (ar_b a) = Inr (standing (ar_b a) ac ar)"
    using GetBattleUnit_field [of "ar_b a" ac ar] assms(3) by (simp add: grid_ok_def)
  show ?thesis
  proof (cases "standing (ar_b a) ac ar")
    case None
    then show ?thesis
      using assms(2) g by (simp add: HandlePlayerAttack_reads [OF assms(1)] player_attack_def GetAttacker_def BattleAction_def)
  next
    case (Some i)
    let ?self = "spell = SPELL_DEFENSE \<or> spell = SPELL_ESCAPE"
    let ?act = "if ?self then BattleAction ac ar spell ac ar else BattleAction ac ar spell tc tr"
    have place: "atkCol ?act = ac" "atkRow ?act = ar" "skill ?act = spell" by (simp_all add: BattleAction_def)
    have "AddBattleAction (?act\<lparr>skill := chosen_skill (cf_sdb cf) (unit_of a i) (skill ?act)\<rparr>) (ar_b a) =
        Inr ((ar_b a)\<lparr>b_unitTurn := b_unitTurn (ar_b a) @ [named_action (cf_sdb cf) (unit_of a i) ac ar tc tr spell]\<rparr>)"
      using g Some by (auto simp: AddBattleAction_def GetAttacker_def named_action_def chosen_skill_def BattleAction_def)
    then show ?thesis
      using assms(2) g Some place
      by (simp add: HandlePlayerAttack_reads [OF assms(1)] player_attack_def GetAttacker_def isActionComplete_def IncAction_def
          on_battle_def Let_def)
  qed
qed

definition attack_arena :: arena where
  "attack_arena = idle_arena\<lparr>ar_engine := (\<lambda>q. q = 7), ar_b := (ar_b idle_arena)\<lparr>b_masterOf := [7 \<mapsto> 7], b_need := 2\<rparr>\<rparr>"

definition attack_packet :: byte_buffer where
  "attack_packet = \<lparr>bb_rpos = 0, bb_wpos = 0,
     bb_storage = concat (map field_bytes [FU8 1, FU8 3, FU8 3, FU8 0, FU8 0, FU16 10000])\<rparr>"

theorem attack_packet_unchecked_witness:
  "HandlePlayerAttackOpcode idle_rules 7 attack_packet attack_arena = Inl AssertFailed"
proof -
  have "holds attack_packet [FU8 1, FU8 3, FU8 3, FU8 0, FU8 0, FU16 10000]" by (simp add: holds_def attack_packet_def)
  moreover have "has_engine 7 attack_arena" by (simp add: has_engine_def attack_arena_def)
  moreover have "length (b_grid (ar_b attack_arena)) = 20"
    by (simp add: attack_arena_def idle_arena_def sample_battle_def)
  moreover have "standing (ar_b attack_arena) 3 3 = None"
    by (simp add: attack_arena_def idle_arena_def sample_battle_def standing_def on_field_def cell_def)
  ultimately show ?thesis
    using attack_packet_unchecked [of attack_packet 1 3 3 0 0 10000 7 attack_arena idle_rules] by simp
qed

subsection \<open>A challenge\<close>

lemma HandlePlayerBattleCommand_reads:
  assumes "holds b [FU8 2, FU8 2, FU32 target, FU16 npcid]"
  shows "HandlePlayerBattleCommandOpcodes cf account npc p b a =
    (if \<not> accepts_pk (unit_of a p) then Inr a
     else case account target of
            None \<Rightarrow> Inr a
          | Some e \<Rightarrow> if \<not> accepts_pk (unit_of a e) then tell p 0x21 [FU8 1, FU8 1] a else start_battle p (Engage_player p e) a)"
proof -
  have "\<not> bb_size b < 8"
    using holds_size [OF assms] by (simp add: wire_u8.enc_width wire_u16.enc_width wire_u32.enc_width)
  moreover obtain b1 where b1: "read_u8 b = Inr (2, b1)" "holds b1 [FU8 2, FU32 target, FU16 npcid]"
    using read_u8_holds [OF assms] by blast
  moreover obtain b2 where b2: "read_u8 b1 = Inr (2, b2)" "holds b2 [FU32 target, FU16 npcid]"
    using read_u8_holds [OF b1(2)] by blast
  moreover obtain b3 where b3: "read_u32 b2 = Inr (target, b3)" "holds b3 [FU16 npcid]"
    using read_u32_holds [OF b2(2)] by blast
  moreover obtain b4 where "read_u16 b3 = Inr (npcid, b4)"
    using read_u16_holds [OF b3(2)] by blast
  ultimately show ?thesis
    by (simp add: HandlePlayerBattleCommandOpcodes_def cong: if_cong option.case_cong)
qed

text \<open>C14: a player that challenges another one, both without team and pets and both accepting fights, always gets its
  battle: the challenger stands in the middle of the back column of the attackers, the other one opposite,
  nobody else is on the field, both are in the list, and the round waits for actions. If the challenger
  does not accept fights nothing happens, if the other one does not, the challenger is told.\<close>

theorem challenge_starts_duel:
  assumes "holds b [FU8 2, FU8 2, FU32 target, FU16 npcid]" and "account target = Some e"
    and "\<not> ar_engine a p" and "registry_ok a" and "ar_guid a 0 = None" and "p \<noteq> e" and "lone p a" and "lone e a"
  shows "if accepts_pk (unit_of a p) \<and> accepts_pk (unit_of a e)
    then \<exists>c. HandlePlayerBattleCommandOpcodes cf account npc p b a = Inr c \<and> b_wait (ar_b c) \<and>
      (\<forall>x y. standing (ar_b c) x y = (if (x, y) = (3, 2) then Some p else if (x, y) = (0, 2) then Some e else None)) \<and>
      b_players (ar_b c) = [min p e, max p e] \<and> ar_engine c p
    else HandlePlayerBattleCommandOpcodes cf account npc p b a =
      (if accepts_pk (unit_of a p) then tell p 0x21 [FU8 1, FU8 1] a else Inr a)"
proof (cases "accepts_pk (unit_of a p) \<and> accepts_pk (unit_of a e)")
  case True
  then have h: "HandlePlayerBattleCommandOpcodes cf account npc p b a = start_battle p (Engage_player p e) a"
    using assms(2) by (simp add: HandlePlayerBattleCommand_reads [OF assms(1)])
  obtain c where c: "start_battle p (Engage_player p e) a = Inr c" "stage (duel_field p e) [min p e, max p e] c" "b_wait (ar_b c)"
    using duel_starts [OF assms(3-8)] by blast
  have "standing (ar_b c) x y = (if (x, y) = (3, 2) then Some p else if (x, y) = (0, 2) then Some e else None)" for x y
  proof (cases "on_field x y")
    case True
    have "cell x y = cell u v \<longleftrightarrow> (x, y) = (u, v)" if "on_field u v" for u v
      using cell_inj [of y v x u] True that by (auto simp: on_field_def)
    from this [of 3 2] this [of 0 2] show ?thesis
      using c(2) True cell_bound [OF True] unfolding duel_cells
      by (auto simp: stage_def standing_def duel_field_def nth_list_update on_field_def)
  next
    case False
    then show ?thesis by (auto simp: standing_def on_field_def)
  qed
  with c h True Engage_player_engine [OF assms(3) c(1)] show ?thesis by (auto simp: stage_def)
next
  case False
  then show ?thesis using assms(2) by (simp add: HandlePlayerBattleCommand_reads [OF assms(1)])
qed

definition willing_arena :: arena where
  "willing_arena = duel_arena\<lparr>ar_b := empty_battle\<lparr>b_units := (\<lambda>_. uset PLAYER_ENABLE_PK 1 sample_unit)\<rparr>\<rparr>"

definition challenge_packet :: byte_buffer where
  "challenge_packet = \<lparr>bb_rpos = 0, bb_wpos = 0, bb_storage = concat (map field_bytes [FU8 2, FU8 2, FU32 77, FU16 0])\<rparr>"

theorem challenge_starts_duel_witness:
  "\<exists>c. HandlePlayerBattleCommandOpcodes idle_rules (\<lambda>t. if t = 77 then Some 2 else None) (\<lambda>_ _. None) 1 challenge_packet willing_arena = Inr c \<and>
     b_players (ar_b c) = [1, 2] \<and> standing (ar_b c) 3 2 = Some 1 \<and> standing (ar_b c) 0 2 = Some 2"
proof -
  have "holds challenge_packet [FU8 2, FU8 2, FU32 77, FU16 0]" by (simp add: holds_def challenge_packet_def)
  moreover have "lone 1 willing_arena" "lone 2 willing_arena"
    by (simp_all add: lone_def willing_arena_def duel_arena_def duel_hero_def petless_def sample_hero_def GUID_LOPART_def)
  moreover have "registry_ok willing_arena" by (simp add: registry_ok_def willing_arena_def duel_arena_def)
  moreover have "accepts_pk (unit_of willing_arena p)" for p by (simp add: accepts_pk_def willing_arena_def)
  ultimately show ?thesis
    using challenge_starts_duel [of challenge_packet 77 0 "\<lambda>t. if t = 77 then Some 2 else None" 2 willing_arena 1 idle_rules "\<lambda>_ _. None"]
    by (simp add: willing_arena_def duel_arena_def) (auto simp: min_def max_def)
qed
end
