(* ===== verification/Loading.thy ===== *)
theory Loading
  imports Saving
begin

text \<open>
  Loading a player (\<open>Player::LoadFromDB\<close>, \<open>_LoadPets\<close>, \<open>_LoadInventory\<close>, \<open>Pet::LoadPetFromDB\<close>,
  \<open>Item::LoadFromDB\<close>). The results of the queries are arguments, in the order the database returns the
  rows: for the inventory and the pets by slot, for the spells by entry. A text of value fields is the
  list of its numbers, which \<open>LoadValues\<close> takes when there are as many as the object has fields. Traces
  are left out; the prototypes they name exist where they are printed.
\<close>

definition HIGHGUID_PLAYER :: u32 where [simp]: "HIGHGUID_PLAYER = 0"

text \<open>\<open>SELECT * FROM characters\<close>: account, value fields, name, map and position.\<close>

record char_query =
  cq_account :: u32
  cq_data :: "u32 list"
  cq_name :: bytes
  cq_map :: u16
  cq_x :: u16
  cq_y :: u16

record pet_query =
  pq_name :: bytes
  pq_data :: "u32 list"
  pq_loyalty :: u8
  pq_levels :: "u8 list"
  pq_battle :: u8

text \<open>
  A row of the inventory joined with its instance. The fields of an item that are modelled are its entry,
  owner, container and count; none stands for a text with a wrong number of values.
\<close>

record inv_query =
  iq_data :: "(u32 \<times> u64 \<times> u64 \<times> u32) option"
  iq_pet :: u32
  iq_slot :: u8
  iq_item :: u32
  iq_entry :: u32

record login_queries =
  lq_char :: "char_query option"
  lq_pets :: "(u32 \<times> u8) list option"
  lq_pet :: "u32 \<Rightarrow> pet_query option"
  lq_inv :: "inv_query list option"
  lq_spells :: "(u16 \<times> u8) list option"

definition load_values :: "u32 list \<Rightarrow> unit_rec \<Rightarrow> unit_rec option" where
  "load_values vs u =
     (if length vs \<noteq> PLAYER_END then None
      else Some (u\<lparr>u_vals := (\<lambda>i. if i < PLAYER_END then vs ! i else uget u i)\<rparr>))"

subsection \<open>A new player\<close>

definition blank_player_unit :: unit_rec where
  "blank_player_unit =
     \<lparr>u_vals = (\<lambda>_. 0), u_type = 1 OR TYPE_UNIT OR TYPE_PLAYER, u_death = ALIVE, u_state = 0, u_levelUp = False, u_itemSet = 0,
      u_itemSetApplied = False, u_tmp_xp = 0, u_disabled_duration = 0, u_posbuf_duration = 0, u_spells = [],
      u_loyalty = 0, u_petState = PET_UNCHANGED\<rparr>"

text \<open>The constructor; \<open>db\<close> holds the tables and the counters of the server.\<close>

definition new_player :: "u32 \<Rightarrow> hero \<Rightarrow> hero" where
  "new_player account db =
     db\<lparr>h_inv := (h_inv db)\<lparr>inv_guid := 0, inv_inWorld := False, inv_slots := replicate PLAYER_SLOTS_COUNT None,
          inv_heap := (\<lambda>_. None), inv_queue := [], inv_blocked := False\<rparr>,
        h_unit := blank_player_unit, h_account := account, h_name := [], h_map := 0, h_x := 0, h_y := 0, h_session := True,
        h_petHeap := (\<lambda>_. None), h_pets := replicate MAX_PET_SLOT None, h_battlePet := None, h_petQueue := [],
        h_petBlocked := False, h_out := []\<rparr>"

text \<open>The fields of an object as \<open>Object::_Create\<close> leaves them.\<close>

definition fresh_object :: "u32 \<Rightarrow> u32 \<Rightarrow> unit_rec \<Rightarrow> unit_rec" where
  "fresh_object low high u = uset 2 (ucast (u_type u)) (uset 1 high (uset 0 low u))"

subsection \<open>Items\<close>

definition blank_item :: item where
  "blank_item =
     \<lparr>it_guid = 0, it_entry = 0, it_owner = 0, it_contained = 0, it_count = 0, it_slot = 0, it_container = None,
      it_inWorld = False, it_state = ITEM_NEW, it_qpos = - 1\<rparr>"

definition Item_LoadFromDB :: "u32 \<Rightarrow> u64 \<Rightarrow> (u32 \<times> u64 \<times> u64 \<times> u32) option \<Rightarrow> item \<Rightarrow> bool \<times> item" where
  "Item_LoadFromDB guid owner_guid data it =
     (case data of
        None \<Rightarrow> (False, it\<lparr>it_guid := guid\<rparr>)
      | Some (entry, owner, place, n) \<Rightarrow>
          (True, it\<lparr>it_guid := guid, it_entry := entry, it_contained := place, it_count := n,
             it_owner := (if owner_guid \<noteq> 0 then owner_guid else owner)\<rparr>))"

definition forget_row :: "u32 \<Rightarrow> player_inv \<Rightarrow> player_inv" where
  "forget_row g s = s\<lparr>inv_rows := (inv_rows s)(g := None)\<rparr>"

definition forget_instance :: "u32 \<Rightarrow> player_inv \<Rightarrow> player_inv" where
  "forget_instance g s = s\<lparr>inv_instances := (inv_instances s)(g := None)\<rparr>"

text \<open>
  An item of the player itself: whether it got a place, and the item that is there then. The slot of a row
  in the bag is not used, the item goes where \<open>CanStoreItem\<close> says; \<open>CanBankItem\<close> always agrees. A slot of
  no part of the inventory is no error.
\<close>

definition load_own :: "item_db \<Rightarrow> u8 \<Rightarrow> iid \<Rightarrow> hero \<Rightarrow> (bool \<times> iid option \<times> hero) res" where
  "load_own idb slot i h =
     bindR (on_inv (upd_item i (\<lambda>it. it\<lparr>it_container := None, it_slot := slot\<rparr>)) h) (\<lambda>h1.
       if IsInventoryPos slot then
         bindR (CanStoreItem idb (Some i) False (h_inv h1)) (\<lambda>(r, dest).
           if r \<noteq> EQUIP_ERR_OK then Inr (False, Some i, h1)
           else bindR (StoreItem dest (Some i) True (h_inv h1)) (\<lambda>(j, s). Inr (True, j, h1\<lparr>h_inv := s\<rparr>)))
       else if IsEquipmentPos slot then
         bindR (CanEquipItem idb slot (Some i) False h1) (\<lambda>(r, dest).
           if r \<noteq> EQUIP_ERR_OK then Inr (False, Some i, h1)
           else bindR (QuickEquipItem dest (Some i) h1) (\<lambda>h2. Inr (True, Some i, h2)))
       else if IsBankPos slot then
         bindR (StoreItem (unat slot) (Some i) True (h_inv h1)) (\<lambda>(j, s). Inr (True, j, h1\<lparr>h_inv := s\<rparr>))
       else Inr (True, Some i, h1))"

definition load_for_pet :: "item_db \<Rightarrow> u32 \<Rightarrow> u8 \<Rightarrow> petid \<Rightarrow> iid \<Rightarrow> hero \<Rightarrow> (bool \<times> iid option \<times> hero) res" where
  "load_for_pet idb g slot p i h =
     (if IsEquipmentPos slot then
        bindR (CanPetEquipItem idb p slot (Some i) False h) (\<lambda>(r, dest).
          if r \<noteq> EQUIP_ERR_OK then Inr (False, Some i, h)
          else bindR (QuickPetEquipItem p dest (Some i) h) (\<lambda>h1. Inr (True, Some i, h1)))
      else Inr (False, Some i, h\<lparr>h_inv := forget_row g (h_inv h)\<rparr>))"

text \<open>A broken or homeless item: its rows go, and \<open>SaveToDB\<close> deletes it.\<close>

definition discard_item :: "u32 \<Rightarrow> iid \<Rightarrow> player_inv \<Rightarrow> player_inv res" where
  "discard_item g i s = bindR (upd_item i (\<lambda>it. it\<lparr>it_state := ITEM_REMOVED\<rparr>) (forget_row g s)) (SaveToDB i)"

definition load_row :: "item_db \<Rightarrow> inv_query \<Rightarrow> hero \<Rightarrow> hero res" where
  "load_row idb r h =
     (let g = iq_item r; i = inv_next (h_inv h)
      in if idb (iq_entry r) = None then Inr (h\<lparr>h_inv := forget_instance g (forget_row g (h_inv h))\<rparr>)
         else case Item_LoadFromDB g (inv_guid (h_inv h)) (iq_data r) blank_item of
           (ok, it) \<Rightarrow>
             let h1 = h\<lparr>h_inv := put_item i it ((h_inv h)\<lparr>inv_next := i + 1\<rparr>)\<rparr>
             in if \<not> ok then on_inv (discard_item g i) h1
                else bindR (if iq_pet r = 0 then Inr None else GetPetByGuid (iq_pet r) h1) (\<lambda>pet.
                  if iq_pet r \<noteq> 0 \<and> pet = None then on_inv (discard_item g i) h1
                  else bindR (case pet of None \<Rightarrow> load_own idb (iq_slot r) i h1
                                        | Some p \<Rightarrow> load_for_pet idb g (iq_slot r) p i h1) (\<lambda>(ok, j, h2).
                       if ok then (case j of None \<Rightarrow> Inl NullDeref | Some k \<Rightarrow> on_inv (SetState k ITEM_UNCHANGED) h2)
                       else Inr (h2\<lparr>h_inv := forget_row g (h_inv h2)\<rparr>))))"

definition block_items :: "bool \<Rightarrow> hero \<Rightarrow> hero" where
  "block_items b h = h\<lparr>h_inv := (h_inv h)\<lparr>inv_blocked := b\<rparr>\<rparr>"

definition LoadInventory :: "item_db \<Rightarrow> inv_query list option \<Rightarrow> hero \<Rightarrow> hero res" where
  "LoadInventory idb result h =
     bindR (case result of
              None \<Rightarrow> Inr h
            | Some rows \<Rightarrow> bindR (foldR (load_row idb) rows (block_items True h)) (\<lambda>h1. Inr (block_items False h1)))
       (ApplyAllItemMods idb)"

subsection \<open>Pets\<close>

text \<open>\<open>new Pet\<close>: loyalty, slot and battle mode are set before anybody looks at them.\<close>

definition blank_pet :: pet_rec where
  "blank_pet =
     \<lparr>pt_low = 0, pt_unit = blank_pet_unit 0, pt_name = [], pt_items = replicate MAX_PET_ITEMS None, pt_slot = 0, pt_battle = 0,
      pt_qpos = - 1\<rparr>"

text \<open>The template \<open>cinfo\<close> that is filled from the saved fields.\<close>

definition saved_info :: "unit_rec \<Rightarrow> creature_info \<Rightarrow> creature_info" where
  "saved_info u proto =
     proto\<lparr>ci_modelid := uget u UNIT_FIELD_DISPLAYID, ci_hp := uget u UNIT_FIELD_HP, ci_sp := uget u UNIT_FIELD_SP,
       ci_int := uget u UNIT_FIELD_INT, ci_atk := uget u UNIT_FIELD_ATK, ci_def := uget u UNIT_FIELD_DEF,
       ci_hpx := uget u UNIT_FIELD_HPX, ci_spx := uget u UNIT_FIELD_SPX, ci_agi := uget u UNIT_FIELD_AGI,
       ci_level := getLevel u, ci_element := uget u UNIT_FIELD_ELEMENT\<rparr>"

definition saved_levels :: "creature_info \<Rightarrow> u8 list \<Rightarrow> unit_rec \<Rightarrow> unit_rec" where
  "saved_levels proto ls u = fold (\<lambda>(s, l). SetSpellLevel (ucast s) l) (zip (ci_spells proto) ls) u"

definition LoadPetFromDB ::
  "spell_db \<Rightarrow> creature_db \<Rightarrow> (u32 \<Rightarrow> pet_query option) \<Rightarrow> u32 \<Rightarrow> petid \<Rightarrow> hero \<Rightarrow> (bool \<times> hero) res" where
  "LoadPetFromDB sdb cdb query guid p h =
     bindR (get_pet p h) (\<lambda>x.
       case query guid of
         None \<Rightarrow> Inr (False, h)
       | Some q \<Rightarrow>
           (case load_values (pq_data q) (pt_unit x) of
              None \<Rightarrow> Inr (False, h)
            | Some u \<Rightarrow>
                (case cdb (uget u OBJECT_FIELD_ENTRY) of
                   None \<Rightarrow> Inr (False, h)
                 | Some proto \<Rightarrow>
                     bindR (pet_spells sdb (saved_info u proto) (pet_stats guid (uget u OBJECT_FIELD_ENTRY) (saved_info u proto) u)) (\<lambda>u1.
                       let owner = inv_guid (h_inv h);
                           u2 = uset64 OBJECT_FIELD_GUID (MAKE_GUID guid HIGHGUID_UNIT) u1;
                           u3 = (if owner \<noteq> 0 then uset64 ITEM_FIELD_OWNER owner u2 else u2);
                           u4 = uset64 UNIT_FIELD_SUMMONEDBY owner u3;
                           u5 = saved_levels proto (pq_levels q) (u4\<lparr>u_loyalty := pq_loyalty q\<rparr>);
                           u6 = uset UNIT_NPC_FLAGS 0 u5;
                           u7 = uset UNIT_FIELD_HP_MAX (ucast (GetHPMax u6)) u6;
                           u8 = uset UNIT_FIELD_SP_MAX (ucast (GetSPMax u7)) u7
                       in Inr (True, put_pet p (x\<lparr>pt_low := guid, pt_unit := u8, pt_name := pq_name q, pt_battle := pq_battle q\<rparr>)
                            (h\<lparr>h_unit := uset64 UNIT_FIELD_SUMMON (MAKE_GUID guid HIGHGUID_UNIT) (h_unit h)\<rparr>))))))"

text \<open>
  The loop over the rows. A slot equal to \<open>MAX_PET_SLOT\<close> passes; a pet that finds its slot taken is
  deleted in \<open>SummonPet\<close> and used afterwards.
\<close>

fun load_pets ::
  "spell_db \<Rightarrow> creature_db \<Rightarrow> (u32 \<Rightarrow> pet_query option) \<Rightarrow> (u32 \<times> u8) list \<Rightarrow> nat \<Rightarrow> hero \<Rightarrow> hero res" where
  "load_pets sdb cdb query [] n h = Inr h"
| "load_pets sdb cdb query ((guid, slot) # rows) n h =
     (if unat slot > MAX_PET_SLOT then load_pets sdb cdb query rows n h
      else let p = h_petNext h
           in bindR (LoadPetFromDB sdb cdb query guid p (put_pet p blank_pet (h\<lparr>h_petNext := p + 1\<rparr>))) (\<lambda>(ok, h1).
                if \<not> ok then load_pets sdb cdb query rows n (delete_pet p h1)
                else bindR (SummonPet slot (Some p) h1) (\<lambda>(_, h2).
                     bindR (get_pet p h2) (\<lambda>x.
                     bindR (pet_SetState p PET_UNCHANGED (if pt_battle x = 1 then h2\<lparr>h_battlePet := Some p\<rparr> else h2)) (\<lambda>h3.
                       if n + 1 > MAX_PET_SLOT then Inr h3 else load_pets sdb cdb query rows (n + 1) h3)))))"

text \<open>The query for a missing result is stored in a variable of an inner block, so nothing is loaded then.\<close>

definition LoadPets ::
  "spell_db \<Rightarrow> creature_db \<Rightarrow> (u32 \<Rightarrow> pet_query option) \<Rightarrow> (u32 \<times> u8) list option \<Rightarrow> hero \<Rightarrow> hero res" where
  "LoadPets sdb cdb query result h =
     (case result of
        None \<Rightarrow> Inr h
      | Some rows \<Rightarrow> bindR (load_pets sdb cdb query rows 0 (h\<lparr>h_petBlocked := True\<rparr>)) (\<lambda>h1. Inr (h1\<lparr>h_petBlocked := False\<rparr>)))"

subsection \<open>The player\<close>

definition drop_equipped :: "nat \<Rightarrow> player_inv \<Rightarrow> player_inv res" where
  "drop_equipped k s =
     bindR (GetItemByPos k s) (\<lambda>q. case q of None \<Rightarrow> Inr s | Some i \<Rightarrow> set_slot k None (delete_item i s))"

definition all_mod_fields :: "nat list" where
  "all_mod_fields = [UNIT_FIELD_INT_MOD, UNIT_FIELD_ATK_MOD, UNIT_FIELD_DEF_MOD, UNIT_FIELD_HPX_MOD, UNIT_FIELD_SPX_MOD, UNIT_FIELD_AGI_MOD]"

text \<open>The last lines: nobody comes back dead, and the maxima are computed anew.\<close>

definition rise :: "unit_rec \<Rightarrow> unit_rec" where
  "rise u =
     (let u1 = (if u_death u = DEAD \<or> uget u UNIT_FIELD_HP = 0 then (uset UNIT_FIELD_HP 1 u)\<lparr>u_death := ALIVE\<rparr> else u);
          u2 = uset UNIT_FIELD_HP_MAX (ucast (GetHPMax u1)) u1
      in uset UNIT_FIELD_SP_MAX (ucast (GetSPMax u2)) u2)"

text \<open>The number is given before the fields are read, so a player with broken fields keeps it.\<close>

definition create_object :: "u32 \<Rightarrow> hero \<Rightarrow> hero" where
  "create_object guid h =
     h\<lparr>h_unit := fresh_object guid HIGHGUID_PLAYER (h_unit h), h_inv := (h_inv h)\<lparr>inv_guid := MAKE_GUID guid HIGHGUID_PLAYER\<rparr>\<rparr>"

definition LoadFromDB ::
  "spell_db \<Rightarrow> item_db \<Rightarrow> creature_db \<Rightarrow> u32 \<Rightarrow> login_queries \<Rightarrow> hero \<Rightarrow> (bool \<times> hero) res" where
  "LoadFromDB sdb idb cdb guid q h =
     (case lq_char q of
        None \<Rightarrow> Inr (False, h)
      | Some c \<Rightarrow>
          if cq_account c \<noteq> h_account h then Inr (False, h)
          else (case load_values (cq_data c) (h_unit (create_object guid h)) of
                  None \<Rightarrow> Inr (False, create_object guid h)
                | Some u \<Rightarrow>
                    let me = MAKE_GUID guid HIGHGUID_PLAYER;
                        h1 = h\<lparr>h_unit := uset64 OBJECT_FIELD_GUID me (fold (\<lambda>i. uset i 0) all_mod_fields u),
                               h_inv := (h_inv h)\<lparr>inv_guid := me\<rparr>\<rparr>
                    in bindR (on_inv (foldR drop_equipped [0..<EQUIPMENT_SLOT_END]) h1) (\<lambda>h2.
                       bindR (LoadPets sdb cdb (lq_pet q) (lq_pets q)
                         (h2\<lparr>h_name := cq_name c, h_x := cq_x c, h_y := cq_y c, h_map := cq_map c\<rparr>)) (\<lambda>h3.
                       bindR (LoadInventory idb (lq_inv q) h3) (\<lambda>h4.
                       bindR (LoadSpells sdb (case lq_spells q of None \<Rightarrow> [] | Some rows \<Rightarrow> rows) (h_unit h4)) (\<lambda>u.
                         Inr (True, h4\<lparr>h_unit := rise u\<rparr>)))))))"

end
