(* ===== verification/LoadedBag.thy ===== *)
theory LoadedBag
  imports Loading
begin

text \<open>
  What loading the inventory does to the bag (\<open>Player::_LoadInventory\<close>): row by row, on the map from slots to
  entries and counts. The operations on slots, heap, queue and tables refine it.
\<close>

subsection \<open>The bag row by row\<close>

definition bag_merge :: "nat \<Rightarrow> u32 \<times> u32 \<Rightarrow> bag \<Rightarrow> bag" where
  "bag_merge k en b = b(k \<mapsto> (case b k of None \<Rightarrow> en | Some (e, m) \<Rightarrow> (e, m + snd en)))"

definition over_max :: "item_proto \<Rightarrow> u32 \<Rightarrow> bag \<Rightarrow> bool" where
  "over_max p n b \<longleftrightarrow> ip_MaxCount p \<noteq> 0 \<and>
     bag_total (ip_ItemId p) b [0..<35] + bag_total (ip_ItemId p) b [70..<120] + n > ip_MaxCount p"

text \<open>Gear goes on when its slot is free and right for it, the level suffices and there are not too many.\<close>

definition wearable :: "item_proto \<Rightarrow> u32 \<Rightarrow> u8 \<Rightarrow> u32 \<Rightarrow> bag \<Rightarrow> bool" where
  "wearable p level slot n b \<longleftrightarrow> \<not> over_max p n b \<and> equip_slot_of (ip_InventoryType p) = Some slot \<and>
     b (unat slot) = None \<and> ip_RequiredLevel p \<le> level"

definition bag_item :: "item_db \<Rightarrow> u32 \<Rightarrow> u8 \<Rightarrow> u32 \<Rightarrow> u32 \<Rightarrow> bag \<Rightarrow> bag" where
  "bag_item idb level slot e n b =
     (if IsInventoryPos slot then
        (case idb e of
           None \<Rightarrow> b
         | Some p \<Rightarrow> (case bag_place p e n b of (r, k) \<Rightarrow> if r = EQUIP_ERR_OK then bag_merge k (e, n) b else b))
      else if IsEquipmentPos slot then
        (case idb e of
           None \<Rightarrow> b
         | Some p \<Rightarrow> if wearable p level slot n b then b(unat slot \<mapsto> (e, n)) else b)
      else if IsBankPos slot then bag_merge (unat slot) (e, n) b
      else b)"

definition bag_row :: "item_db \<Rightarrow> u32 \<Rightarrow> inv_query \<Rightarrow> bag \<Rightarrow> bag" where
  "bag_row idb level r b =
     (if iq_pet r \<noteq> 0 \<or> idb (iq_entry r) = None then b
      else case iq_data r of None \<Rightarrow> b | Some (e, _, _, n) \<Rightarrow> bag_item idb level (iq_slot r) e n b)"

subsection \<open>The state between two rows\<close>

definition loading :: "player_inv \<Rightarrow> bool" where
  "loading s \<longleftrightarrow> slots_ok s \<and> inv_queue s = [] \<and> inv_blocked s \<and> (\<forall>i. inv_heap s i \<noteq> None \<longrightarrow> i < inv_next s) \<and>
     (\<forall>k < 145. \<forall>i it. inv_slots s ! k = Some i \<and> inv_heap s i = Some it \<longrightarrow> it_state it = ITEM_UNCHANGED \<and> it_qpos it = - 1)"

definition same_tables :: "player_inv \<Rightarrow> player_inv \<Rightarrow> bool" where
  "same_tables s t \<longleftrightarrow> inv_guid t = inv_guid s \<and> inv_rows t = inv_rows s \<and> inv_instances t = inv_instances s \<and>
     inv_next t = Suc (inv_next s)"

lemma loadingD:
  assumes "loading s"
  shows "slots_ok s" "inv_queue s = []" "inv_blocked s" "length (inv_slots s) = 145" "inv_heap s (inv_next s) = None"
    "\<And>k. k < 145 \<Longrightarrow> inv_slots s ! k \<noteq> Some (inv_next s)"
proof -
  show "slots_ok s" "inv_queue s = []" "inv_blocked s" using assms by (simp_all add: loading_def)
  then show "length (inv_slots s) = 145" by (simp add: slots_ok_length)
  show n: "inv_heap s (inv_next s) = None" using assms unfolding loading_def by (metis less_irrefl)
  show "inv_slots s ! k \<noteq> Some (inv_next s)" if "k < 145" for k
    using slots_ok_sits [OF \<open>slots_ok s\<close> that, of "inv_next s"] n by auto
qed

text \<open>A new item in a free slot.\<close>

definition settled :: "player_inv \<Rightarrow> nat \<Rightarrow> item \<Rightarrow> item" where
  "settled s k it = it\<lparr>it_contained := inv_guid s, it_owner := inv_guid s, it_slot := of_nat k, it_container := None,
     it_state := ITEM_UNCHANGED, it_qpos := - 1\<rparr>"

definition with_new :: "item \<Rightarrow> player_inv \<Rightarrow> player_inv" where
  "with_new it s = put_item (inv_next s) it (s\<lparr>inv_next := Suc (inv_next s)\<rparr>)"

lemma with_new_simps [simp]:
  "inv_heap (with_new it s) = (inv_heap s)(inv_next s \<mapsto> it)" "inv_slots (with_new it s) = inv_slots s"
  "inv_guid (with_new it s) = inv_guid s" "inv_queue (with_new it s) = inv_queue s" "inv_blocked (with_new it s) = inv_blocked s"
  "inv_rows (with_new it s) = inv_rows s" "inv_instances (with_new it s) = inv_instances s"
  "inv_next (with_new it s) = Suc (inv_next s)" "inv_inWorld (with_new it s) = inv_inWorld s"
  by (simp_all add: with_new_def put_item_def)

lemma settle_new:
  assumes "loading s" and "k < 145" and "inv_slots s ! k = None"
    and "inv_heap t = (inv_heap s)(inv_next s \<mapsto> it)" "inv_slots t = (inv_slots s)[k := Some (inv_next s)]"
    and "it_owner it = inv_guid s" "it_slot it = of_nat k" "it_container it = None" "it_state it = ITEM_UNCHANGED" "it_qpos it = - 1"
    and "same_tables s t" "inv_queue t = []" "inv_blocked t"
  shows "loading t \<and> abs_bag t = (abs_bag s)(k \<mapsto> (it_entry it, it_count it))"
proof -
  note D = loadingD [OF assms(1)]
  have slot: "inv_slots t ! l = (if l = k then Some (inv_next s) else inv_slots s ! l)" if "l < 145" for l
    using that assms(2) D(4) by (simp add: assms(5))
  have "slots_ok t"
  proof (rule slots_okI)
    show "length (inv_slots t) = 145" by (simp add: assms(5) D(4))
    fix l x
    assume l: "l < 145" "inv_slots t ! l = Some x"
    show "\<exists>y. inv_heap t x = Some y \<and> sits t l y"
    proof (cases "l = k")
      case True
      then show ?thesis using l assms(2,6-9,11) by (auto simp: slot assms(4) sits_def same_tables_def unat_of_nat_small)
    next
      case False
      then have x: "inv_slots s ! l = Some x" "x \<noteq> inv_next s" using l D(6) [OF l(1)] by (auto simp: slot)
      then show ?thesis using slots_ok_sits [OF D(1) l(1) x(1)] assms(11) by (auto simp: assms(4) sits_def same_tables_def)
    qed
  qed
  moreover have "\<forall>i. inv_heap t i \<noteq> None \<longrightarrow> i < inv_next t"
    using assms(1,11) by (auto simp: assms(4) loading_def same_tables_def less_Suc_eq)
  moreover have "\<forall>l < 145. \<forall>i y. inv_slots t ! l = Some i \<and> inv_heap t i = Some y \<longrightarrow> it_state y = ITEM_UNCHANGED \<and> it_qpos y = - 1"
  proof (intro allI impI, elim conjE)
    fix l i y
    assume l: "l < 145" "inv_slots t ! l = Some i" "inv_heap t i = Some y"
    show "it_state y = ITEM_UNCHANGED \<and> it_qpos y = - 1"
    proof (cases "l = k")
      case True
      then show ?thesis using l assms(9,10) by (auto simp: slot assms(4))
    next
      case False
      then have "inv_slots s ! l = Some i" "i \<noteq> inv_next s" using l D(6) [OF l(1)] by (auto simp: slot)
      then show ?thesis using assms(1) l by (auto simp: assms(4) loading_def)
    qed
  qed
  ultimately have "loading t" using assms(12,13) by (simp add: loading_def)
  moreover have "abs_bag t l = ((abs_bag s)(k \<mapsto> (it_entry it, it_count it))) l" for l
  proof (cases "l < 145")
    case True
    then show ?thesis using D(6) [OF True] D(4) slot [OF True] by (cases "inv_slots s ! l") (auto simp: abs_bag_def item_in_def assms(4,5))
  next
    case False
    then show ?thesis using assms(2) D(4) by (simp add: abs_bag_def item_in_def assms(5))
  qed
  ultimately show ?thesis by blast
qed

text \<open>An item that is there already takes the count of the new one, which is gone.\<close>

lemma settle_merge:
  assumes "loading s" and "k < 145" and "inv_slots s ! k = Some j" and "inv_heap s j = Some jt"
    and "inv_heap t = (inv_heap s)(j \<mapsto> jt\<lparr>it_count := n, it_state := ITEM_UNCHANGED, it_qpos := - 1\<rparr>)" "inv_slots t = inv_slots s"
    and "same_tables s t" "inv_queue t = []" "inv_blocked t"
  shows "loading t \<and> abs_bag t = (abs_bag s)(k \<mapsto> (it_entry jt, n))"
proof -
  note D = loadingD [OF assms(1)]
  have "slots_ok t"
  proof (rule slots_okI)
    show "length (inv_slots t) = 145" by (simp add: assms(6) D(4))
    fix l x
    assume l: "l < 145" "inv_slots t ! l = Some x"
    then show "\<exists>y. inv_heap t x = Some y \<and> sits t l y"
      using slots_ok_sits [OF D(1) l(1), of x] assms(4,7) by (auto simp: assms(5,6) sits_def same_tables_def)
  qed
  moreover have "\<forall>i. inv_heap t i \<noteq> None \<longrightarrow> i < inv_next t"
    using assms(1,4,7) unfolding loading_def same_tables_def assms(5) by (auto simp: less_Suc_eq)
  moreover have "\<forall>l < 145. \<forall>i y. inv_slots t ! l = Some i \<and> inv_heap t i = Some y \<longrightarrow> it_state y = ITEM_UNCHANGED \<and> it_qpos y = - 1"
    using assms(1) unfolding loading_def assms(5,6) by auto
  ultimately have "loading t" using assms(8,9) by (simp add: loading_def)
  moreover have "abs_bag t l = ((abs_bag s)(k \<mapsto> (it_entry jt, n))) l" for l
  proof (cases "l < 145")
    case True
    then show ?thesis using slots_inj [OF D(1) True assms(2) _ assms(3)] assms(2-4) D(4)
      by (cases "inv_slots s ! l") (auto simp: abs_bag_def item_in_def assms(5,6))
  next
    case False
    then show ?thesis using assms(2) D(4) by (simp add: abs_bag_def item_in_def assms(6))
  qed
  ultimately show ?thesis by blast
qed

text \<open>Storing the new item at a slot, and the change of its state that follows.\<close>

lemma store_new:
  assumes "loading s" and "it_state it = ITEM_NEW" and "it_qpos it = - 1" and "k < 145" and "\<not> inv_inWorld s"
  shows "\<exists>j t u. StoreItem k (Some (inv_next s)) True (with_new it s) = Inr (Some j, t) \<and> SetState j ITEM_UNCHANGED t = Inr u \<and>
    loading u \<and> abs_bag u = bag_merge k (it_entry it, it_count it) (abs_bag s) \<and> same_tables s u \<and> \<not> inv_inWorld u \<and>
    (inv_slots s ! k = None \<longrightarrow> map_option it_guid (item_in u k) = Some (it_guid it)) \<and>
    (inv_slots s ! k \<noteq> None \<longrightarrow> map_option it_guid (item_in u k) = map_option it_guid (item_in s k)) \<and>
    (\<forall>l. l \<noteq> k \<longrightarrow> item_in u l = item_in s l)"
proof (cases "inv_slots s ! k")
  case None
  note D = loadingD [OF assms(1)]
  let ?i = "inv_next s"
  let ?t = "put_item ?i (it\<lparr>it_contained := inv_guid s, it_owner := inv_guid s, it_slot := of_nat k, it_container := None\<rparr>)
      ((with_new it s)\<lparr>inv_slots := (inv_slots s)[k := Some ?i]\<rparr>)"
  let ?u = "put_item ?i (settled s k it) ?t"
  have "StoreItem k (Some ?i) True (with_new it s) = Inr (Some ?i, ?t)"
    using None assms(2-5) D(3,4)
    by (simp add: StoreItem_def GetItemByPos_def set_slot_def upd_item_def get_item_def SetState_def AddToUpdateQueueOf_def put_item_def)
  moreover have "SetState ?i ITEM_UNCHANGED ?t = Inr ?u"
    by (simp add: SetState_def get_item_def put_item_def settled_def)
  moreover have u: "inv_heap ?u = (inv_heap s)(?i \<mapsto> settled s k it)" "inv_slots ?u = (inv_slots s)[k := Some ?i]"
    "same_tables s ?u" "inv_queue ?u = []" "inv_blocked ?u"
    using D(2,3) by (simp_all add: put_item_def same_tables_def)
  moreover have "loading ?u \<and> abs_bag ?u = (abs_bag s)(k \<mapsto> (it_entry (settled s k it), it_count (settled s k it)))"
    by (rule settle_new [OF assms(1,4) None u(1,2)]) (use u in \<open>simp_all add: settled_def\<close>)
  moreover have "abs_bag s k = None" using None assms(4) D(1) by (simp add: abs_bag_None)
  moreover have "map_option it_guid (item_in ?u k) = Some (it_guid it)"
    using assms(4) D(4) unfolding item_in_def u(1,2) by (simp add: settled_def)
  moreover have "item_in ?u l = item_in s l" if "l \<noteq> k" for l
    using that D(4) D(6) [of l] unfolding item_in_def u(1,2) by (cases "inv_slots s ! l") auto
  moreover have "\<not> inv_inWorld ?u" using assms(5) by (simp add: put_item_def)
  ultimately show ?thesis
    using None by (intro exI [of _ ?i] exI [of _ ?t] exI [of _ ?u]) (auto simp: bag_merge_def settled_def)
next
  case (Some j)
  note D = loadingD [OF assms(1)]
  let ?i = "inv_next s"
  obtain jt where jt: "inv_heap s j = Some jt" "sits s k jt"
    using slots_ok_sits [OF D(1) assms(4) Some] by blast
  have ij: "j \<noteq> ?i" using Some D(6) [OF assms(4)] by auto
  have js: "it_state jt = ITEM_UNCHANGED" "it_qpos jt = - 1" using assms(1,4) Some jt(1) by (auto simp: loading_def)
  let ?jt = "jt\<lparr>it_count := it_count jt + it_count it\<rparr>"
  let ?t = "put_item j (?jt\<lparr>it_state := ITEM_CHANGED\<rparr>)
      (delete_item ?i (put_item ?i (it\<lparr>it_owner := inv_guid s\<rparr>) (put_item j ?jt (with_new it s))))"
  let ?u = "put_item j (?jt\<lparr>it_state := ITEM_UNCHANGED, it_qpos := - 1\<rparr>) ?t"
  have own: "it_owner jt = inv_guid s" using jt(2) by (simp add: sits_def)
  have "StoreItem k (Some ?i) True (with_new it s) = Inr (Some j, ?t)"
    using Some assms(2-5) D(3,4) jt(1) ij js own
    by (simp add: StoreItem_def GetItemByPos_def upd_item_def get_item_def SetState_def AddToUpdateQueueOf_def
        RemoveFromUpdateQueueOf_def put_item_def delete_item_def fun_upd_twist)
  moreover have "SetState j ITEM_UNCHANGED ?t = Inr ?u"
    by (simp add: SetState_def get_item_def put_item_def)
  moreover have heap: "inv_heap ?u = (inv_heap s)(j \<mapsto> jt\<lparr>it_count := it_count jt + it_count it, it_state := ITEM_UNCHANGED, it_qpos := - 1\<rparr>)"
    using D(5) ij by (auto simp: put_item_def delete_item_def fun_eq_iff)
  moreover have u: "inv_slots ?u = inv_slots s" "same_tables s ?u" "inv_queue ?u = []" "inv_blocked ?u"
    using D(2,3) by (simp_all add: put_item_def delete_item_def same_tables_def)
  moreover have "loading ?u \<and> abs_bag ?u = (abs_bag s)(k \<mapsto> (it_entry jt, it_count jt + it_count it))"
    by (rule settle_merge [OF assms(1,4) Some jt(1) heap u])
  moreover have "abs_bag s k = Some (it_entry jt, it_count jt)"
    using abs_bag_Some [OF D(1) assms(4) Some jt(1)] .
  moreover have "map_option it_guid (item_in ?u k) = map_option it_guid (item_in s k)"
    using assms(4) D(4) Some jt(1) unfolding item_in_def u(1) heap by simp
  moreover have "item_in ?u l = item_in s l" if "l \<noteq> k" for l
    using that D(4) slots_inj [OF D(1) _ assms(4) _ Some, of l] unfolding item_in_def u(1) heap by (cases "inv_slots s ! l") auto
  moreover have "\<not> inv_inWorld ?u" using assms(5) by (simp add: put_item_def delete_item_def)
  ultimately show ?thesis
    using Some by (intro exI [of _ j] exI [of _ ?t] exI [of _ ?u]) (simp add: bag_merge_def)
qed

subsection \<open>Looking for a place\<close>

lemma with_new_bag: "loading s \<Longrightarrow> abs_bag (with_new it s) = abs_bag s"
proof
  fix k
  assume "loading s"
  note D = loadingD [OF this]
  show "abs_bag (with_new it s) k = abs_bag s k"
    using D(6) [of k] D(4) by (cases "inv_slots s ! k") (auto simp: abs_bag_def item_in_def)
qed

lemma with_new_live:
  assumes "loading s" and "set ks \<subseteq> {..<145}"
  shows "live_slots ks (with_new it s)"
  using live_slotsI [OF loadingD(1) [OF assms(1)] assms(2)] by (auto simp: live_slots_def)

lemma with_new_nowhere: "loading s \<Longrightarrow> \<forall>k < 145. inv_slots (with_new it s) ! k \<noteq> Some (inv_next s)"
  using loadingD(6) by simp

lemma take_more_new:
  assumes "loading s" and "idb (it_entry it) = Some p"
  shows "CanTakeMoreSimilarItems idb (inv_next s) (with_new it s) =
    Inr (if over_max p (it_count it) (abs_bag s) then EQUIP_ERR_CANT_CARRY_MORE_OF_THIS else EQUIP_ERR_OK)"
proof -
  have sub: "set [0..<35] \<subseteq> {..<145}" "set [70..<120] \<subseteq> {..<145}" by auto
  have no: "\<forall>k \<in> set ks. inv_slots (with_new it s) ! k \<noteq> Some (inv_next s) \<or> Some (inv_next s) = None" if "set ks \<subseteq> {..<145}" for ks
    using with_new_nowhere [OF assms(1), of it] that by blast
  note c = count_slots_eq [OF with_new_live [OF assms(1) sub(1)] no [OF sub(1)]] count_slots_eq [OF with_new_live [OF assms(1) sub(2)] no [OF sub(2)]]
  show ?thesis
    using assms(2) c [of "ip_ItemId p" 0] with_new_bag [OF assms(1), of it]
    by (simp add: CanTakeMoreSimilarItems_def get_item_def GetItemCount_def GetBankItemCount_def over_max_def
        del: upt_Suc upt_rec_numeral)
qed

lemma can_store_new:
  assumes "loading s"
  shows "CanStoreItem idb (Some (inv_next s)) False (with_new it s) =
    Inr (case idb (it_entry it) of None \<Rightarrow> (EQUIP_ERR_ITEM_NOT_FOUND, 0) | Some p \<Rightarrow> bag_place p (it_entry it) (it_count it) (abs_bag s))"
proof (cases "idb (it_entry it)")
  case None
  then show ?thesis by (simp add: CanStoreItem_def get_item_def)
next
  case (Some p)
  have sub: "set [0..<145] \<subseteq> {..<145}" by auto
  have "inv_heap (with_new it s) (inv_next s) = Some it" by simp
  from CanStoreItem_eq [where it = it and idb = idb, OF with_new_live [OF assms sub] with_new_nowhere [OF assms] this Some, of False]
  show ?thesis using Some with_new_bag [OF assms] by simp
qed

lemma narrow_widen: "ucast (ucast (e :: u8) :: u32) = e"
proof -
  have "unat e < 256" using unsigned_less [of e] by simp
  then show ?thesis by (intro word_unat_eq_iff [THEN iffD2]) (simp add: unat_ucast_mod)
qed

lemma can_equip_new:
  assumes "loading s" and "h_inv h = with_new it s" and "unat slot < 6"
  shows "\<exists>r d. CanEquipItem idb slot (Some (inv_next s)) False h = Inr (r, d) \<and>
    (r = EQUIP_ERR_OK \<longrightarrow> d = slot) \<and>
    (r = EQUIP_ERR_OK \<longleftrightarrow> (\<exists>p. idb (it_entry it) = Some p \<and> wearable p (getLevel (h_unit h)) slot (it_count it) (abs_bag s)))"
proof (cases "idb (it_entry it)")
  case None
  then show ?thesis by (simp add: CanEquipItem_def can_equip_def assms(2) get_item_def)
next
  case (Some p)
  note D = loadingD [OF assms(1)]
  have ns: "ucast slot \<noteq> (ucast NULL_SLOT :: u32)"
  proof
    assume "ucast slot = (ucast NULL_SLOT :: u32)"
    then have "unat (ucast slot :: u32) = unat (ucast NULL_SLOT :: u32)" by simp
    then show False using assms(3) by (simp add: unat_ucast_mod)
  qed
  have same: "ucast e = (ucast slot :: u32) \<longleftrightarrow> e = slot" for e :: u8
    by (metis narrow_widen)
  have look: "GetItemByPos (unat slot) (h_inv h) = Inr (inv_slots s ! unat slot)"
    using assms(2,3) D(4) by (simp add: GetItemByPos_def)
  have free: "inv_slots s ! unat slot = None \<longleftrightarrow> abs_bag s (unat slot) = None"
    using abs_bag_None [OF D(1), of "unat slot"] assms(3) by simp
  have null: "slot \<noteq> NULL_SLOT" using assms(3) by auto
  have find: "FindEquipSlot p (ucast slot) False h =
      Inr (if equip_slot_of (ip_InventoryType p) = Some slot \<and> abs_bag s (unat slot) = None then slot else NULL_SLOT)"
    using ns look free narrow_widen same
    by (auto simp: FindEquipSlot_def find_equip_slot_def split: option.splits)
  show ?thesis
  proof (cases "over_max p (it_count it) (abs_bag s)")
    case True
    then show ?thesis
      using Some assms(2) take_more_new [OF assms(1), of idb it p]
      by (simp add: CanEquipItem_def can_equip_def get_item_def wearable_def)
  next
    case False
    then show ?thesis
      using Some assms(2) take_more_new [OF assms(1), of idb it p] find null
      by (auto simp: CanEquipItem_def can_equip_def get_item_def wearable_def CanUseItemFor_def not_less)
  qed
qed

subsection \<open>One row\<close>

definition item_placed :: "item_db \<Rightarrow> u32 \<Rightarrow> u8 \<Rightarrow> u32 \<Rightarrow> u32 \<Rightarrow> bag \<Rightarrow> bool" where
  "item_placed idb level slot e n b \<longleftrightarrow>
     (if IsInventoryPos slot then (case idb e of None \<Rightarrow> False | Some p \<Rightarrow> fst (bag_place p e n b) = EQUIP_ERR_OK)
      else if IsEquipmentPos slot then (case idb e of None \<Rightarrow> False | Some p \<Rightarrow> wearable p level slot n b)
      else True)"

definition row_placed :: "item_db \<Rightarrow> u32 \<Rightarrow> inv_query \<Rightarrow> bag \<Rightarrow> bool" where
  "row_placed idb level r b \<longleftrightarrow> idb (iq_entry r) \<noteq> None \<and>
     (case iq_data r of None \<Rightarrow> False | Some (e, _, _, n) \<Rightarrow> item_placed idb level (iq_slot r) e n b)"

text \<open>What a row leaves of the two tables.\<close>

definition rows_after :: "item_db \<Rightarrow> u32 \<Rightarrow> inv_query \<Rightarrow> player_inv \<Rightarrow> player_inv \<Rightarrow> bool" where
  "rows_after idb level r s t \<longleftrightarrow>
     inv_rows t = (if row_placed idb level r (abs_bag s) then inv_rows s else (inv_rows s)(iq_item r := None)) \<and>
     inv_instances t = (if idb (iq_entry r) = None \<or> iq_data r = None then (inv_instances s)(iq_item r := None) else inv_instances s)"

text \<open>An item without a slot.\<close>

lemma settle_leak:
  assumes "loading s" and "\<And>i. i \<noteq> inv_next s \<Longrightarrow> inv_heap t i = inv_heap s i" and "inv_slots t = inv_slots s"
    and "inv_guid t = inv_guid s" "inv_next s \<le> inv_next t" "inv_heap t (inv_next s) \<noteq> None \<Longrightarrow> inv_next s < inv_next t"
    and "inv_queue t = []" "inv_blocked t"
  shows "loading t \<and> abs_bag t = abs_bag s \<and> (\<forall>k. item_in t k = item_in s k)"
proof -
  note D = loadingD [OF assms(1)]
  have heap: "inv_heap t i = inv_heap s i" if "k < 145" "inv_slots s ! k = Some i" for k i
    using D(6) [OF that(1)] that(2) assms(2) by auto
  have "slots_ok t"
  proof (rule slots_okI)
    show "length (inv_slots t) = 145" by (simp add: assms(3) D(4))
    fix l x
    assume l: "l < 145" "inv_slots t ! l = Some x"
    then show "\<exists>y. inv_heap t x = Some y \<and> sits t l y"
      using slots_ok_sits [OF D(1) l(1), of x] heap [of l x] by (auto simp: assms(3,4) sits_def)
  qed
  moreover have "\<forall>i. inv_heap t i \<noteq> None \<longrightarrow> i < inv_next t"
  proof (intro allI impI)
    fix i
    assume i: "inv_heap t i \<noteq> None"
    show "i < inv_next t"
    proof (cases "i = inv_next s")
      case False
      then show ?thesis using i assms(1,2,5) unfolding loading_def by force
    qed (use i assms(6) in simp)
  qed
  moreover have "\<forall>l < 145. \<forall>i y. inv_slots t ! l = Some i \<and> inv_heap t i = Some y \<longrightarrow> it_state y = ITEM_UNCHANGED \<and> it_qpos y = - 1"
    using assms(1) heap unfolding loading_def assms(3) by metis
  ultimately have "loading t" using assms(7,8) by (simp add: loading_def)
  moreover have in_eq: "item_in t k = item_in s k" for k
    using heap [of k] D(4) by (cases "inv_slots s ! k") (auto simp: item_in_def assms(3))
  ultimately show ?thesis by (auto simp: abs_bag_def fun_eq_iff)
qed

text \<open>What loading one item does, whatever becomes of it.\<close>

definition row_done :: "item_db \<Rightarrow> u32 \<Rightarrow> inv_query \<Rightarrow> player_inv \<Rightarrow> player_inv \<Rightarrow> bool" where
  "row_done idb level r s t \<longleftrightarrow> loading t \<and> \<not> inv_inWorld t \<and> inv_guid t = inv_guid s \<and>
     abs_bag t = bag_row idb level r (abs_bag s) \<and> rows_after idb level r s t \<and>
     (\<forall>k. map_option it_guid (item_in t k) =
        (if abs_bag s k = None \<and> abs_bag t k \<noteq> None then Some (iq_item r) else map_option it_guid (item_in s k)))"

lemma load_row_unknown:
  assumes "loading (h_inv h)" and "\<not> inv_inWorld (h_inv h)" and "iq_pet r = 0"
    and "idb (iq_entry r) = None \<or> iq_data r = None"
  shows "\<exists>t. load_row idb r h = Inr (h\<lparr>h_inv := t\<rparr>) \<and> row_done idb level r (h_inv h) t"
proof (cases "idb (iq_entry r)")
  case None
  let ?t = "forget_instance (iq_item r) (forget_row (iq_item r) (h_inv h))"
  have "loading ?t \<and> abs_bag ?t = abs_bag (h_inv h) \<and> (\<forall>k. item_in ?t k = item_in (h_inv h) k)"
    by (rule settle_leak [OF assms(1)])
      (use loadingD [OF assms(1)] in \<open>simp_all add: forget_instance_def forget_row_def\<close>)
  then show ?thesis
    using None assms(2)
    by (intro exI [of _ ?t]) (auto simp: load_row_def Let_def row_done_def bag_row_def rows_after_def row_placed_def
        forget_instance_def forget_row_def)
next
  case (Some p)
  then have d: "iq_data r = None" using assms(4) by simp
  let ?g = "iq_item r" and ?i = "inv_next (h_inv h)"
  let ?w = "with_new (blank_item\<lparr>it_guid := ?g, it_state := ITEM_REMOVED\<rparr>) (h_inv h)"
  let ?t = "delete_item ?i (?w\<lparr>inv_rows := (inv_rows (h_inv h))(?g := None), inv_instances := (inv_instances (h_inv h))(?g := None)\<rparr>)"
  have run: "load_row idb r h = Inr (h\<lparr>h_inv := ?t\<rparr>)"
    using Some d
    by (simp add: load_row_def Item_LoadFromDB_def on_inv_def discard_item_def upd_item_def get_item_def put_item_def forget_row_def
        SaveToDB_def delete_item_def with_new_def blank_item_def Let_def)
  have "loading ?t \<and> abs_bag ?t = abs_bag (h_inv h) \<and> (\<forall>k. item_in ?t k = item_in (h_inv h) k)"
    by (rule settle_leak [OF assms(1)]) (use loadingD [OF assms(1)] in \<open>simp_all add: delete_item_def\<close>)
  then show ?thesis
    using run Some d assms(2,3)
    by (intro exI [of _ ?t]) (auto simp: row_done_def bag_row_def rows_after_def row_placed_def delete_item_def)
qed

lemma load_row_known:
  assumes "idb (iq_entry r) \<noteq> None" and "iq_data r = Some (e, owner, place, n)" and "iq_pet r = 0"
  obtains it where "it_entry it = e" "it_count it = n" "it_guid it = iq_item r" "it_state it = ITEM_NEW" "it_qpos it = - 1"
    "load_row idb r h = bindR (load_own idb (iq_slot r) (inv_next (h_inv h)) (h\<lparr>h_inv := with_new it (h_inv h)\<rparr>)) (\<lambda>(ok, j, h2).
       if ok then (case j of None \<Rightarrow> Inl NullDeref | Some k \<Rightarrow> on_inv (SetState k ITEM_UNCHANGED) h2)
       else Inr (h2\<lparr>h_inv := forget_row (iq_item r) (h_inv h2)\<rparr>))"
proof
  let ?it = "snd (Item_LoadFromDB (iq_item r) (inv_guid (h_inv h)) (iq_data r) blank_item)"
  show "it_entry ?it = e" "it_count ?it = n" "it_guid ?it = iq_item r" "it_state ?it = ITEM_NEW" "it_qpos ?it = - 1"
    by (simp_all add: Item_LoadFromDB_def assms(2) blank_item_def)
  show "load_row idb r h = bindR (load_own idb (iq_slot r) (inv_next (h_inv h)) (h\<lparr>h_inv := with_new ?it (h_inv h)\<rparr>)) (\<lambda>(ok, j, h2).
       if ok then (case j of None \<Rightarrow> Inl NullDeref | Some k \<Rightarrow> on_inv (SetState k ITEM_UNCHANGED) h2)
       else Inr (h2\<lparr>h_inv := forget_row (iq_item r) (h_inv h2)\<rparr>))"
    using assms by (auto simp: load_row_def Item_LoadFromDB_def with_new_def Let_def)
qed

lemma load_own_start:
  "on_inv (upd_item (inv_next s) (\<lambda>it. it\<lparr>it_container := None, it_slot := slot\<rparr>)) (h\<lparr>h_inv := with_new it s\<rparr>) =
     Inr (h\<lparr>h_inv := with_new (it\<lparr>it_container := None, it_slot := slot\<rparr>) s\<rparr>)"
  by (simp add: on_inv_def upd_item_def get_item_def put_item_def with_new_def)

text \<open>Storing at a slot of the bag or the bank.\<close>

lemma load_at:
  assumes "loading (h_inv h)" and "\<not> inv_inWorld (h_inv h)" and "it_state it = ITEM_NEW" "it_qpos it = - 1" and "k < 145"
  shows "\<exists>t. bindR (StoreItem k (Some (inv_next (h_inv h))) True (with_new it (h_inv h))) (\<lambda>(j, s).
       case j of None \<Rightarrow> Inl NullDeref | Some i \<Rightarrow> on_inv (SetState i ITEM_UNCHANGED) (h\<lparr>h_inv := s\<rparr>)) = Inr (h\<lparr>h_inv := t\<rparr>) \<and>
    loading t \<and> \<not> inv_inWorld t \<and> abs_bag t = bag_merge k (it_entry it, it_count it) (abs_bag (h_inv h)) \<and> same_tables (h_inv h) t \<and>
    (\<forall>l. map_option it_guid (item_in t l) = (if l = k \<and> inv_slots (h_inv h) ! k = None then Some (it_guid it)
       else map_option it_guid (item_in (h_inv h) l)))"
proof -
  obtain j t u where t: "StoreItem k (Some (inv_next (h_inv h))) True (with_new it (h_inv h)) = Inr (Some j, t)"
    "SetState j ITEM_UNCHANGED t = Inr u" "loading u" "abs_bag u = bag_merge k (it_entry it, it_count it) (abs_bag (h_inv h))"
    "same_tables (h_inv h) u" "\<not> inv_inWorld u"
    "inv_slots (h_inv h) ! k = None \<longrightarrow> map_option it_guid (item_in u k) = Some (it_guid it)"
    "inv_slots (h_inv h) ! k \<noteq> None \<longrightarrow> map_option it_guid (item_in u k) = map_option it_guid (item_in (h_inv h) k)"
    "\<forall>l. l \<noteq> k \<longrightarrow> item_in u l = item_in (h_inv h) l"
    using store_new [OF assms(1,3,4,5,2)] by (elim exE conjE) (rule that; assumption)
  have g: "\<forall>l. map_option it_guid (item_in u l) = (if l = k \<and> inv_slots (h_inv h) ! k = None then Some (it_guid it)
       else map_option it_guid (item_in (h_inv h) l))"
    using t(7-9) by metis
  show ?thesis by (intro exI [of _ u] conjI g) (use t in \<open>simp_all add: on_inv_def\<close>)
qed

lemma load_worn:
  assumes "loading (h_inv h)" and "\<not> inv_inWorld (h_inv h)" and "it_state it = ITEM_NEW" "it_qpos it = - 1"
    and "unat slot < 6" and "abs_bag (h_inv h) (unat slot) = None"
  shows "\<exists>t. bindR (QuickEquipItem slot (Some (inv_next (h_inv h))) (h\<lparr>h_inv := with_new it (h_inv h)\<rparr>))
       (on_inv (SetState (inv_next (h_inv h)) ITEM_UNCHANGED)) = Inr (h\<lparr>h_inv := t\<rparr>) \<and>
    loading t \<and> \<not> inv_inWorld t \<and> abs_bag t = (abs_bag (h_inv h))(unat slot \<mapsto> (it_entry it, it_count it)) \<and> same_tables (h_inv h) t \<and>
    (\<forall>l. map_option it_guid (item_in t l) = (if l = unat slot then Some (it_guid it) else map_option it_guid (item_in (h_inv h) l)))"
proof -
  let ?s = "h_inv h"
  let ?i = "inv_next ?s"
  note D = loadingD [OF assms(1)]
  have k: "unat slot < 145" "inv_slots ?s ! unat slot = None"
    using assms(5,6) abs_bag_None [OF D(1), of "unat slot"] by simp_all
  let ?it = "it\<lparr>it_contained := inv_guid ?s, it_owner := inv_guid ?s, it_slot := slot, it_container := None, it_state := ITEM_UNCHANGED,
      it_qpos := - 1\<rparr>"
  let ?t = "put_item ?i ?it ((with_new it ?s)\<lparr>inv_slots := (inv_slots ?s)[unat slot := Some ?i]\<rparr>)"
  have "bindR (QuickEquipItem slot (Some ?i) (h\<lparr>h_inv := with_new it ?s\<rparr>)) (on_inv (SetState ?i ITEM_UNCHANGED)) = Inr (h\<lparr>h_inv := ?t\<rparr>)"
    using assms(2-4) k D(3,4)
    by (simp add: QuickEquipItem_def VisualizeItem_def on_inv_def set_slot_def upd_item_def get_item_def SetState_def
        AddToUpdateQueueOf_def put_item_def)
  moreover have t: "inv_heap ?t = (inv_heap ?s)(?i \<mapsto> ?it)" "inv_slots ?t = (inv_slots ?s)[unat slot := Some ?i]"
    "same_tables ?s ?t" "inv_queue ?t = []" "inv_blocked ?t" "\<not> inv_inWorld ?t"
    using D(2,3) assms(2) by (simp_all add: put_item_def same_tables_def)
  moreover have "loading ?t \<and> abs_bag ?t = (abs_bag ?s)(unat slot \<mapsto> (it_entry ?it, it_count ?it))"
    by (rule settle_new [OF assms(1) k t(1,2)]) (use t in simp_all)
  moreover have "map_option it_guid (item_in ?t l) = (if l = unat slot then Some (it_guid it) else map_option it_guid (item_in ?s l))" for l
    using k(1) D(4) D(6) [of l] unfolding item_in_def t(1,2) by (cases "inv_slots ?s ! l") (auto simp: nth_list_update)
  ultimately show ?thesis by (intro exI [of _ ?t]) auto
qed

lemma load_row_own:
  assumes "loading (h_inv h)" and "\<not> inv_inWorld (h_inv h)" and "iq_pet r = 0"
  shows "\<exists>t. load_row idb r h = Inr (h\<lparr>h_inv := t\<rparr>) \<and> row_done idb (getLevel (h_unit h)) r (h_inv h) t"
proof (cases "idb (iq_entry r) = None \<or> iq_data r = None")
  case True
  then show ?thesis using load_row_unknown [OF assms] by blast
next
  case False
  then obtain e owner place n where d: "iq_data r = Some (e, owner, place, n)" and known: "idb (iq_entry r) \<noteq> None"
    by (cases "iq_data r") auto
  let ?s = "h_inv h" and ?slot = "iq_slot r" and ?b = "abs_bag (h_inv h)" and ?l = "getLevel (h_unit h)"
  obtain it0 where it0: "it_entry it0 = e" "it_count it0 = n" "it_guid it0 = iq_item r" "it_state it0 = ITEM_NEW" "it_qpos it0 = - 1"
    and run: "load_row idb r h = bindR (load_own idb ?slot (inv_next ?s) (h\<lparr>h_inv := with_new it0 ?s\<rparr>)) (\<lambda>(ok, j, h2).
       if ok then (case j of None \<Rightarrow> Inl NullDeref | Some k \<Rightarrow> on_inv (SetState k ITEM_UNCHANGED) h2)
       else Inr (h2\<lparr>h_inv := forget_row (iq_item r) (h_inv h2)\<rparr>))"
    by (rule load_row_known [where idb = idb and h = h, OF known d assms(3)])
  define it where "it = it0\<lparr>it_container := None, it_slot := ?slot\<rparr>"
  have it: "it_entry it = e" "it_count it = n" "it_state it = ITEM_NEW" "it_qpos it = - 1" "it_guid it = iq_item r" using it0 by (simp_all add: it_def)
  let ?h = "h\<lparr>h_inv := with_new it ?s\<rparr>"
  have inv: "h_inv ?h = with_new it ?s" "h_unit ?h = h_unit h" by simp_all
  have start: "on_inv (upd_item (inv_next ?s) (\<lambda>it. it\<lparr>it_container := None, it_slot := ?slot\<rparr>)) (h\<lparr>h_inv := with_new it0 ?s\<rparr>) = Inr ?h"
    by (simp only: load_own_start it_def)
  have fail: "row_done idb ?l r ?s (forget_row (iq_item r) (with_new it ?s))"
    if "\<not> item_placed idb ?l ?slot e n ?b" "bag_item idb ?l ?slot e n ?b = ?b"
  proof -
    have "loading (forget_row (iq_item r) (with_new it ?s)) \<and> abs_bag (forget_row (iq_item r) (with_new it ?s)) = ?b \<and>
        (\<forall>k. item_in (forget_row (iq_item r) (with_new it ?s)) k = item_in ?s k)"
      by (rule settle_leak [OF assms(1)]) (use loadingD [OF assms(1)] in \<open>simp_all add: forget_row_def\<close>)
    then show ?thesis
      using that assms(2,3) known d
      by (auto simp: row_done_def bag_row_def rows_after_def row_placed_def forget_row_def)
  qed
  have whole: "row_done idb ?l r ?s t"
    if "item_placed idb ?l ?slot e n ?b" "bag_item idb ?l ?slot e n ?b = abs_bag t" "loading t" "\<not> inv_inWorld t" "same_tables ?s t"
      "\<And>k. map_option it_guid (item_in t k) =
        (if ?b k = None \<and> abs_bag t k \<noteq> None then Some (iq_item r) else map_option it_guid (item_in ?s k))" for t
    using that assms(3) known d by (auto simp: row_done_def bag_row_def rows_after_def row_placed_def same_tables_def)
  have free: "inv_slots ?s ! k = None \<longleftrightarrow> ?b k = None" if "k < 145" for k
    using abs_bag_None [OF loadingD(1) [OF assms(1)] that] by simp
  consider (bag) "IsInventoryPos ?slot" | (gear) "\<not> IsInventoryPos ?slot" "IsEquipmentPos ?slot"
    | (bank) "\<not> IsInventoryPos ?slot" "\<not> IsEquipmentPos ?slot" "IsBankPos ?slot"
    | (nowhere) "\<not> IsInventoryPos ?slot" "\<not> IsEquipmentPos ?slot" "\<not> IsBankPos ?slot"
    by blast
  then show ?thesis
  proof cases
    case bag
    note can = can_store_new [OF assms(1), of idb it, unfolded it]
    show ?thesis
    proof (cases "item_placed idb ?l ?slot e n ?b")
      case True
      then obtain p k where p: "idb e = Some p" "bag_place p e n ?b = (EQUIP_ERR_OK, k)"
        using bag by (cases "idb e") (auto simp: item_placed_def fst_def split: prod.splits)
      have k: "k < 145" using bag_place_OK [OF p(2)] by simp
      obtain t where t: "bindR (StoreItem k (Some (inv_next ?s)) True (with_new it ?s)) (\<lambda>(j, s).
           case j of None \<Rightarrow> Inl NullDeref | Some i \<Rightarrow> on_inv (SetState i ITEM_UNCHANGED) (h\<lparr>h_inv := s\<rparr>)) = Inr (h\<lparr>h_inv := t\<rparr>)"
        "loading t" "\<not> inv_inWorld t" "abs_bag t = bag_merge k (e, n) ?b" "same_tables ?s t"
        "\<forall>l. map_option it_guid (item_in t l) = (if l = k \<and> inv_slots ?s ! k = None then Some (iq_item r)
           else map_option it_guid (item_in ?s l))"
        using load_at [OF assms(1,2) it(3,4) k] unfolding it by blast
      have "load_row idb r h = Inr (h\<lparr>h_inv := t\<rparr>)"
        using bag can p t(1)
        by (cases "StoreItem k (Some (inv_next ?s)) True (with_new it ?s)") (auto simp: run load_own_def start)
      moreover have "map_option it_guid (item_in t l) =
          (if ?b l = None \<and> abs_bag t l \<noteq> None then Some (iq_item r) else map_option it_guid (item_in ?s l))" for l
        using t(6) free [OF k] by (auto simp: t(4) bag_merge_def)
      ultimately show ?thesis using whole [OF True _ t(2,3,5)] bag p t(4) by (auto simp: bag_item_def)
    next
      case False
      then have "load_row idb r h = Inr (h\<lparr>h_inv := forget_row (iq_item r) (with_new it ?s)\<rparr>)" and "bag_item idb ?l ?slot e n ?b = ?b"
        using bag can by (auto simp: run load_own_def start item_placed_def bag_item_def split: option.splits prod.splits)
      then show ?thesis using fail [OF False] by blast
    qed
  next
    case gear
    then have six: "unat ?slot < 6" by (simp add: IsEquipmentPos_def)
    obtain x d where can: "CanEquipItem idb ?slot (Some (inv_next ?s)) False ?h = Inr (x, d)" "x = EQUIP_ERR_OK \<longrightarrow> d = ?slot"
      "x = EQUIP_ERR_OK \<longleftrightarrow> (\<exists>p. idb e = Some p \<and> wearable p ?l ?slot n ?b)"
      using can_equip_new [OF assms(1) inv(1) six, of idb] unfolding it inv(2) by blast
    show ?thesis
    proof (cases "item_placed idb ?l ?slot e n ?b")
      case True
      then obtain p where p: "idb e = Some p" "wearable p ?l ?slot n ?b"
        using gear by (auto simp: item_placed_def split: option.splits)
      then have x: "x = EQUIP_ERR_OK" "d = ?slot" using can by auto
      have bare: "?b (unat ?slot) = None" using p(2) by (simp add: wearable_def)
      obtain t where t: "bindR (QuickEquipItem ?slot (Some (inv_next ?s)) ?h) (on_inv (SetState (inv_next ?s) ITEM_UNCHANGED)) = Inr (h\<lparr>h_inv := t\<rparr>)"
        "loading t" "\<not> inv_inWorld t" "abs_bag t = ?b(unat ?slot \<mapsto> (e, n))" "same_tables ?s t"
        "\<forall>l. map_option it_guid (item_in t l) = (if l = unat ?slot then Some (iq_item r) else map_option it_guid (item_in ?s l))"
        using load_worn [OF assms(1,2) it(3,4) six bare] unfolding it by blast
      have "load_row idb r h = Inr (h\<lparr>h_inv := t\<rparr>)"
        using gear can(1) x t(1)
        by (cases "QuickEquipItem ?slot (Some (inv_next ?s)) ?h") (auto simp: run load_own_def start)
      moreover have "map_option it_guid (item_in t l) =
          (if ?b l = None \<and> abs_bag t l \<noteq> None then Some (iq_item r) else map_option it_guid (item_in ?s l))" for l
        using t(6) bare by (auto simp: t(4))
      ultimately show ?thesis using whole [OF True _ t(2,3,5)] gear p t(4) by (auto simp: bag_item_def)
    next
      case False
      then have "\<not> (\<exists>p. idb e = Some p \<and> wearable p ?l ?slot n ?b)" using gear by (auto simp: item_placed_def)
      then have x: "x \<noteq> EQUIP_ERR_OK" using can(3) by blast
      have "load_row idb r h = Inr (h\<lparr>h_inv := forget_row (iq_item r) (with_new it ?s)\<rparr>)"
        using gear can(1) x by (simp add: run load_own_def start)
      moreover have "bag_item idb ?l ?slot e n ?b = ?b"
        using gear False by (auto simp: item_placed_def bag_item_def split: option.splits)
      ultimately show ?thesis using fail [OF False] by blast
    qed
  next
    case bank
    then have k: "unat ?slot < 145" by (simp add: IsBankPos_def)
    obtain t where t: "bindR (StoreItem (unat ?slot) (Some (inv_next ?s)) True (with_new it ?s)) (\<lambda>(j, s).
         case j of None \<Rightarrow> Inl NullDeref | Some i \<Rightarrow> on_inv (SetState i ITEM_UNCHANGED) (h\<lparr>h_inv := s\<rparr>)) = Inr (h\<lparr>h_inv := t\<rparr>)"
      "loading t" "\<not> inv_inWorld t" "abs_bag t = bag_merge (unat ?slot) (e, n) ?b" "same_tables ?s t"
      "\<forall>l. map_option it_guid (item_in t l) = (if l = unat ?slot \<and> inv_slots ?s ! unat ?slot = None then Some (iq_item r)
         else map_option it_guid (item_in ?s l))"
      using load_at [OF assms(1,2) it(3,4) k] unfolding it by blast
    have "load_row idb r h = Inr (h\<lparr>h_inv := t\<rparr>)"
      using bank t(1)
      by (cases "StoreItem (unat ?slot) (Some (inv_next ?s)) True (with_new it ?s)") (auto simp: run load_own_def start)
    moreover have "item_placed idb ?l ?slot e n ?b" using bank by (simp add: item_placed_def)
    moreover have "map_option it_guid (item_in t l) =
        (if ?b l = None \<and> abs_bag t l \<noteq> None then Some (iq_item r) else map_option it_guid (item_in ?s l))" for l
      using t(6) free [OF k] by (auto simp: t(4) bag_merge_def)
    ultimately show ?thesis using whole [OF _ _ t(2,3,5)] bank t(4) by (auto simp: bag_item_def)
  next
    case nowhere
    let ?t = "put_item (inv_next ?s) (it\<lparr>it_state := ITEM_UNCHANGED, it_qpos := - 1\<rparr>) (with_new it ?s)"
    have "load_row idb r h = Inr (h\<lparr>h_inv := ?t\<rparr>)"
      using nowhere start by (simp add: run load_own_def) (simp add: on_inv_def SetState_def get_item_def)
    moreover have L: "loading ?t \<and> abs_bag ?t = ?b \<and> (\<forall>k. item_in ?t k = item_in ?s k)"
      by (rule settle_leak [OF assms(1)]) (use loadingD [OF assms(1)] in \<open>simp_all add: put_item_def\<close>)
    have "item_placed idb ?l ?slot e n ?b" "bag_item idb ?l ?slot e n ?b = ?b"
      using nowhere by (simp_all add: item_placed_def bag_item_def)
    then have "row_done idb ?l r ?s ?t"
      using L assms(2) by (intro whole) (auto simp: put_item_def same_tables_def)
    ultimately show ?thesis by blast
  qed
qed

subsection \<open>All rows, and the modifiers\<close>

lemma load_rows_own:
  assumes "loading (h_inv h)" and "\<not> inv_inWorld (h_inv h)" and "\<forall>r \<in> set rows. iq_pet r = 0"
  shows "\<exists>t. foldR (load_row idb) rows h = Inr (h\<lparr>h_inv := t\<rparr>) \<and> loading t \<and> \<not> inv_inWorld t \<and> inv_guid t = inv_guid (h_inv h) \<and>
    abs_bag t = fold (bag_row idb (getLevel (h_unit h))) rows (abs_bag (h_inv h))"
  using assms
proof (induction rows arbitrary: h)
  case Nil
  then show ?case by (intro exI [of _ "h_inv h"]) simp
next
  case (Cons r rows)
  have "iq_pet r = 0" using Cons.prems(3) by simp
  from load_row_own [OF Cons.prems(1,2) this, of idb]
  obtain t where t: "load_row idb r h = Inr (h\<lparr>h_inv := t\<rparr>)" "row_done idb (getLevel (h_unit h)) r (h_inv h) t"
    by blast
  have p: "loading (h_inv (h\<lparr>h_inv := t\<rparr>))" "\<not> inv_inWorld (h_inv (h\<lparr>h_inv := t\<rparr>))" "\<forall>r \<in> set rows. iq_pet r = 0"
    using t(2) Cons.prems(3) by (simp_all add: row_done_def)
  show ?case using Cons.IH [OF p] t by (simp add: row_done_def)
qed

text \<open>Modifiers change their own fields and the count of the set.\<close>

definition mods_only :: "unit_rec \<Rightarrow> unit_rec \<Rightarrow> bool" where
  "mods_only u v \<longleftrightarrow> (\<forall>i. i \<notin> mod_fields \<longrightarrow> uget v i = uget u i) \<and> u_death v = u_death u \<and> u_spells v = u_spells u \<and> u_type v = u_type u"

lemma mods_only_refl: "mods_only u u"
  by (simp add: mods_only_def)

lemma mods_only_trans: "mods_only u v \<Longrightarrow> mods_only v w \<Longrightarrow> mods_only u w"
  by (simp add: mods_only_def)

lemma ApplyItemMods_only: "mods_only u (ApplyItemMods stats b u)"
proof -
  obtain m bo el n where p: "parse_stats (ucast (uget u UNIT_FIELD_ELEMENT)) b (take 10 stats) ([], False, 0, u_itemSet u) = (m, bo, el, n)"
    using prod_cases4 by blast
  have keys: "distinct (map fst m)" "fst ` set m \<subseteq> mod_fields"
    using parse_stats_keys [OF p] by simp_all
  define xs where "xs = sort_key fst m"
  have xs: "distinct (map fst xs)" "fst ` set xs \<subseteq> mod_fields"
    using keys by (simp_all add: xs_def distinct_map distinct_insort)
  have no: "map_of xs i = None" if "i \<notin> mod_fields" for i
    using xs(2) that by (auto simp: map_of_eq_None_iff)
  show ?thesis
    using p fold_apply_mod [OF xs(1), of b bo el "u\<lparr>u_itemSet := n\<rparr>"] no
    by (simp add: ApplyItemMods_def xs_def mods_only_def)
qed

lemma add_mod_only: "f \<in> mod_fields \<Longrightarrow> mods_only u (add_mod d f u)"
  by (auto simp: mods_only_def add_mod_def uset_def)

lemma refresh_set_only: "mods_only u (refresh_set u)"
proof -
  have f: "UNIT_FIELD_INT_MOD \<in> mod_fields" "UNIT_FIELD_ATK_MOD \<in> mod_fields" "UNIT_FIELD_DEF_MOD \<in> mod_fields" "UNIT_FIELD_AGI_MOD \<in> mod_fields"
    by (simp_all add: mod_fields_def)
  have "mods_only v (fold (add_mod d) [UNIT_FIELD_INT_MOD, UNIT_FIELD_ATK_MOD, UNIT_FIELD_DEF_MOD, UNIT_FIELD_AGI_MOD] v)" for v d
    using add_mod_only [OF f(1)] add_mod_only [OF f(2)] add_mod_only [OF f(3)] add_mod_only [OF f(4)] mods_only_trans
    by (simp del: UNIT_FIELD_INT_MOD_def UNIT_FIELD_ATK_MOD_def UNIT_FIELD_DEF_MOD_def UNIT_FIELD_AGI_MOD_def) metis
  then have "mods_only u (fold (add_mod d) [UNIT_FIELD_INT_MOD, UNIT_FIELD_ATK_MOD, UNIT_FIELD_DEF_MOD, UNIT_FIELD_AGI_MOD]
      (u\<lparr>u_itemSetApplied := b\<rparr>))" for d b
    by (rule mods_only_trans [rotated]) (simp add: mods_only_def)
  then show ?thesis
    unfolding refresh_set_def ApplyItemSetMods_def Let_def by (simp add: mods_only_refl)
qed

definition pets_bare :: "hero \<Rightarrow> bool" where
  "pets_bare h \<longleftrightarrow> length (h_pets h) = MAX_PET_SLOT \<and>
     (\<forall>p. Some p \<in> set (h_pets h) \<longrightarrow> (\<exists>x. h_petHeap h p = Some x \<and> pt_items x = replicate MAX_PET_ITEMS None))"

text \<open>What computing all modifiers leaves alone.\<close>

definition gear_frame :: "hero \<Rightarrow> hero \<Rightarrow> bool" where
  "gear_frame h k \<longleftrightarrow> h_inv k = h_inv h \<and> mods_only (h_unit h) (h_unit k) \<and> h_pets k = h_pets h \<and> pets_bare k \<and>
     h_name k = h_name h \<and> h_map k = h_map h \<and> h_x k = h_x h \<and> h_y k = h_y h \<and> h_account k = h_account h \<and>
     h_spellRows k = h_spellRows h"

lemma gear_frame_trans: "gear_frame h k \<Longrightarrow> gear_frame k l \<Longrightarrow> gear_frame h l"
  using mods_only_trans by (auto simp: gear_frame_def)

lemma gear_frame_refl: "pets_bare h \<Longrightarrow> gear_frame h h"
  by (simp add: gear_frame_def mods_only_refl)

lemma foldR_frame:
  assumes "\<And>x k. x \<in> set xs \<Longrightarrow> gear_frame h k \<Longrightarrow> \<exists>l. f x k = Inr l \<and> gear_frame h l" and "gear_frame h k"
  shows "\<exists>l. foldR f xs k = Inr l \<and> gear_frame h l"
  using assms
proof (induction xs arbitrary: k)
  case Nil
  then show ?case by simp
next
  case (Cons x xs)
  obtain l where l: "f x k = Inr l" "gear_frame h l" using Cons.prems(1) [of x k] Cons.prems(2) by auto
  then show ?case using Cons.IH [of l] Cons.prems(1) by auto
qed

lemma worn_frame:
  assumes "gear_frame h k" and "\<And>i. item = Some i \<Longrightarrow> inv_heap (h_inv h) i \<noteq> None"
  shows "\<exists>l. apply_worn idb Self item k = Inr l \<and> gear_frame h l"
proof (cases item)
  case None
  then show ?thesis using assms(1) by (simp add: apply_worn_def)
next
  case (Some i)
  then obtain it where it: "inv_heap (h_inv k) i = Some it" using assms by (auto simp: gear_frame_def)
  have "gear_frame h (k\<lparr>h_unit := ApplyItemMods stats b (h_unit k)\<rparr>)" for stats b
    using assms(1) mods_only_trans [OF _ ApplyItemMods_only] by (auto simp: gear_frame_def pets_bare_def)
  then show ?thesis
    using Some it assms(1)
    by (auto simp: apply_worn_def get_item_def ApplyItemModsFor_def upd_wearer_def split: option.splits)
qed

lemma pet_mods_frame:
  assumes "gear_frame h k" and "n < 10"
  shows "\<exists>l. apply_pet_mods idb n k = Inr l \<and> gear_frame h l"
proof -
  have b: "pets_bare k" using assms(1) by (simp add: gear_frame_def)
  show ?thesis
  proof (cases "h_pets k ! n")
    case None
    then show ?thesis using b assms by (simp add: apply_pet_mods_def GetPet_def pets_bare_def)
  next
    case (Some p)
    then have "Some p \<in> set (h_pets k)" using b assms(2) by (metis MAX_PET_SLOT_def nth_mem pets_bare_def)
    then obtain x where x: "h_petHeap k p = Some x" "pt_items x = replicate 6 None" using b by (auto simp: pets_bare_def)
    have step: "bindR (get_pet p k) (\<lambda>x. bindR (GetEquip e x) (\<lambda>item. apply_worn idb (PetUnit p) item k)) = Inr k" if "e < 6" for e
      using x that by (simp add: get_pet_def GetEquip_def apply_worn_def)
    have "foldR (\<lambda>e h1. bindR (get_pet p h1) (\<lambda>x. bindR (GetEquip e x) (\<lambda>item. apply_worn idb (PetUnit p) item h1))) es k = Inr k"
      if "\<forall>e \<in> set es. e < 6" for es
      using that step by (induction es) auto
    from this [of "[0..<EQUIPMENT_SLOT_END]"] have run: "apply_pet_mods idb n k = Inr (put_pet p (x\<lparr>pt_unit := refresh_set (pt_unit x)\<rparr>) k)"
      using Some b assms(2) x
      by (simp add: apply_pet_mods_def GetPet_def pets_bare_def upd_wearer_def upd_pet_def get_pet_def del: upt_Suc upt_rec_numeral)
    show ?thesis using run assms(1) x(2) by (auto simp: gear_frame_def put_pet_def pets_bare_def)
  qed
qed

lemma ApplyAllItemMods_frame:
  assumes "pets_bare h" and "slots_ok (h_inv h)"
  shows "\<exists>k. ApplyAllItemMods idb h = Inr k \<and> gear_frame h k"
proof -
  have len: "length (inv_slots (h_inv h)) = 145" by (rule slots_ok_length [OF assms(2)])
  have worn: "\<exists>l. bindR (GetItemByPos e (h_inv k)) (\<lambda>item. apply_worn idb Self item k) = Inr l \<and> gear_frame h l"
    if "e \<in> set [0..<EQUIPMENT_SLOT_END]" "gear_frame h k" for e k
  proof -
    have e: "e < 6" using that(1) by simp
    then have "GetItemByPos e (h_inv k) = Inr (inv_slots (h_inv h) ! e)"
      using that(2) len by (simp add: GetItemByPos_def gear_frame_def)
    moreover have "inv_heap (h_inv h) i \<noteq> None" if "inv_slots (h_inv h) ! e = Some i" for i
      using slots_ok_sits [OF assms(2) _ that] e by auto
    ultimately show ?thesis using worn_frame [OF that(2), of "inv_slots (h_inv h) ! e" idb] by auto
  qed
  obtain k where k: "foldR (\<lambda>e h1. bindR (GetItemByPos e (h_inv h1)) (\<lambda>item. apply_worn idb Self item h1)) [0..<EQUIPMENT_SLOT_END] h = Inr k"
    "gear_frame h k"
    using foldR_frame [where f = "\<lambda>e h1. bindR (GetItemByPos e (h_inv h1)) (\<lambda>item. apply_worn idb Self item h1)" and h = h
        and xs = "[0..<EQUIPMENT_SLOT_END]", OF worn gear_frame_refl [OF assms(1)]] by blast
  have k2: "gear_frame h (k\<lparr>h_unit := refresh_set (h_unit k)\<rparr>)"
    using k(2) mods_only_trans [OF _ refresh_set_only] by (auto simp: gear_frame_def pets_bare_def)
  have "\<exists>l. apply_pet_mods idb n x = Inr l \<and> gear_frame h l" if "n \<in> set [0..<MAX_PET_SLOT]" "gear_frame h x" for n x
    using pet_mods_frame [OF that(2), of n idb] that(1) by simp
  from foldR_frame [where f = "apply_pet_mods idb" and xs = "[0..<MAX_PET_SLOT]", OF this k2] k(1)
  show ?thesis by (simp add: ApplyAllItemMods_def upd_wearer_def del: upt_Suc upt_rec_numeral)
qed

subsection \<open>The whole inventory\<close>

definition fresh_inv :: "player_inv \<Rightarrow> bool" where
  "fresh_inv s \<longleftrightarrow> inv_slots s = replicate PLAYER_SLOTS_COUNT None \<and> inv_queue s = [] \<and> inv_heap s = (\<lambda>_. None) \<and> \<not> inv_inWorld s"

lemma fresh_loading: "fresh_inv (h_inv h) \<Longrightarrow> loading (h_inv (block_items True h)) \<and> abs_bag (h_inv (block_items True h)) = Map.empty"
  by (auto simp: fresh_inv_def block_items_def loading_def slots_ok_def abs_bag_def item_in_def fun_eq_iff)

lemma abs_bag_blocked: "abs_bag (s\<lparr>inv_blocked := b\<rparr>) = abs_bag s"
  by (simp add: abs_bag_def item_in_def fun_eq_iff)

definition rows_of :: "inv_query list option \<Rightarrow> inv_query list" where
  "rows_of result = (case result of None \<Rightarrow> [] | Some rows \<Rightarrow> rows)"

definition stowed :: "player_inv \<Rightarrow> bool" where
  "stowed s \<longleftrightarrow> slots_ok s \<and> inv_queue s = [] \<and> \<not> inv_blocked s \<and> (\<forall>i. inv_heap s i \<noteq> None \<longrightarrow> i < inv_next s) \<and>
     (\<forall>n < 145. \<forall>it. item_in s n = Some it \<longrightarrow> it_state it = ITEM_UNCHANGED \<and> it_qpos it = - 1)"

lemma loading_stowed: "loading t \<Longrightarrow> stowed (t\<lparr>inv_blocked := False\<rparr>)"
proof -
  assume t: "loading t"
  note D = loadingD [OF t]
  have "it_state it = ITEM_UNCHANGED \<and> it_qpos it = - 1" if "n < 145" "item_in (t\<lparr>inv_blocked := False\<rparr>) n = Some it" for n it
    using that t D(4) by (cases "inv_slots t ! n") (auto simp: item_in_def loading_def)
  then show ?thesis using t by (simp add: stowed_def loading_def slots_ok_def)
qed

lemma inventory_after:
  assumes "fresh_inv (h_inv h)" and "pets_bare h" and "foldR (load_row idb) rows (block_items True h) = Inr ((block_items True h)\<lparr>h_inv := t\<rparr>)"
    and "loading t"
  shows "\<exists>k. LoadInventory idb (Some rows) h = Inr k \<and> gear_frame (h\<lparr>h_inv := t\<lparr>inv_blocked := False\<rparr>\<rparr>) k"
proof -
  let ?k = "h\<lparr>h_inv := t\<lparr>inv_blocked := False\<rparr>\<rparr>"
  have "pets_bare ?k" "slots_ok (h_inv ?k)" using assms(2) loadingD(1) [OF assms(4)] by (simp_all add: pets_bare_def slots_ok_def)
  then obtain k where "ApplyAllItemMods idb ?k = Inr k" "gear_frame ?k k" using ApplyAllItemMods_frame by blast
  then show ?thesis using assms(3) by (simp add: LoadInventory_def block_items_def)
qed

lemma inventory_run:
  assumes "fresh_inv (h_inv h)" and "pets_bare h" and "\<forall>r \<in> set (rows_of result). iq_pet r = 0" and "\<not> inv_blocked (h_inv h)"
  shows "\<exists>k t. LoadInventory idb result h = Inr k \<and> gear_frame (h\<lparr>h_inv := t\<rparr>) k \<and> stowed t \<and> inv_guid t = inv_guid (h_inv h) \<and>
    abs_bag t = fold (bag_row idb (getLevel (h_unit h))) (rows_of result) Map.empty"
proof (cases result)
  case None
  have s: "slots_ok (h_inv h)" using assms(1) by (auto simp: fresh_inv_def slots_ok_def)
  obtain k where "ApplyAllItemMods idb h = Inr k" "gear_frame h k" using ApplyAllItemMods_frame [OF assms(2) s] by blast
  then show ?thesis
    using None assms(1,4) s
    by (intro exI [of _ k] exI [of _ "h_inv h"])
      (auto simp: LoadInventory_def rows_of_def stowed_def fresh_inv_def item_in_def abs_bag_def fun_eq_iff)
next
  case (Some rows)
  let ?h = "block_items True h"
  have f: "loading (h_inv ?h)" "abs_bag (h_inv ?h) = Map.empty" using fresh_loading [OF assms(1)] by simp_all
  have w: "\<not> inv_inWorld (h_inv ?h)" using assms(1) by (simp add: fresh_inv_def block_items_def)
  have u: "h_unit ?h = h_unit h" "inv_guid (h_inv ?h) = inv_guid (h_inv h)" by (simp_all add: block_items_def)
  have own: "\<forall>r \<in> set rows. iq_pet r = 0" using assms(3) Some by (simp add: rows_of_def)
  obtain t where t: "foldR (load_row idb) rows ?h = Inr (?h\<lparr>h_inv := t\<rparr>)" "loading t" "inv_guid t = inv_guid (h_inv h)"
    "abs_bag t = fold (bag_row idb (getLevel (h_unit h))) rows Map.empty"
    using load_rows_own [OF f(1) w own, of idb] unfolding f(2) u by blast
  obtain k where "LoadInventory idb (Some rows) h = Inr k" "gear_frame (h\<lparr>h_inv := t\<lparr>inv_blocked := False\<rparr>\<rparr>) k"
    using inventory_after [OF assms(1,2) t(1,2)] by blast
  then show ?thesis
    using Some t(3,4) loading_stowed [OF t(2)]
    by (intro exI [of _ k] exI [of _ "t\<lparr>inv_blocked := False\<rparr>"]) (simp add: rows_of_def abs_bag_blocked)
qed

text \<open>C15: loading the inventory of a player whose pets carry nothing never faults, whatever the rows hold, and fills the
  bag row by row: a row of the bag goes to the first stack it fits or the first free slot, not to its own
  slot; gear goes on if its slot is right and free, the level suffices and the maximum is kept; a row of
  the bank is added to whatever is in its slot. Every item is as saved and nothing waits to be written.\<close>

theorem inventory_loaded:
  assumes "fresh_inv (h_inv h)" and "\<not> inv_blocked (h_inv h)" and "pets_bare h" and "\<forall>r \<in> set rows. iq_pet r = 0"
  shows "\<exists>k. LoadInventory idb (Some rows) h = Inr k \<and>
    abs_bag (h_inv k) = fold (bag_row idb (getLevel (h_unit h))) rows Map.empty \<and> slots_ok (h_inv k) \<and>
    inv_queue (h_inv k) = [] \<and> (\<forall>n < 145. \<forall>it. item_in (h_inv k) n = Some it \<longrightarrow> it_state it = ITEM_UNCHANGED)"
proof -
  have own: "\<forall>r \<in> set (rows_of (Some rows)). iq_pet r = 0" using assms(4) by (simp add: rows_of_def)
  obtain k t where "LoadInventory idb (Some rows) h = Inr k" "gear_frame (h\<lparr>h_inv := t\<rparr>) k" "stowed t"
    "abs_bag t = fold (bag_row idb (getLevel (h_unit h))) (rows_of (Some rows)) Map.empty"
    using inventory_run [OF assms(1,3) own assms(2), of idb] by blast
  then show ?thesis by (auto simp: gear_frame_def stowed_def rows_of_def)
qed

theorem inventory_loaded_witness:
  "\<exists>k. LoadInventory sample_idb (Some [\<lparr>iq_data = Some (26001, 0, 0, 30), iq_pet = 0, iq_slot = 33, iq_item = 5, iq_entry = 26001\<rparr>,
     \<lparr>iq_data = Some (26001, 0, 0, 20), iq_pet = 0, iq_slot = 34, iq_item = 6, iq_entry = 26001\<rparr>]) (new_player 7 sample_hero) = Inr k \<and>
   abs_bag (h_inv k) = [10 \<mapsto> (26001, 50)]"
proof -
  let ?rows = "[\<lparr>iq_data = Some (26001, 0, 0, 30), iq_pet = 0, iq_slot = 33, iq_item = 5, iq_entry = 26001\<rparr>,
     \<lparr>iq_data = Some (26001, 0, 0, 20), iq_pet = 0, iq_slot = 34, iq_item = 6, iq_entry = 26001\<rparr>] :: inv_query list"
  have "fold (bag_row sample_idb l) ?rows Map.empty = [10 \<mapsto> (26001, 50)]" for l
    by (simp add: bag_row_def bag_item_def bag_place_def bag_merge_def sample_idb_def sample_proto_def upt_rec IsInventoryPos_def)
  moreover have "fresh_inv (h_inv (new_player 7 sample_hero))" "\<not> inv_blocked (h_inv (new_player 7 sample_hero))"
    "pets_bare (new_player 7 sample_hero)"
    by (simp_all add: new_player_def fresh_inv_def pets_bare_def)
  ultimately show ?thesis using inventory_loaded [of "new_player 7 sample_hero" ?rows sample_idb] by auto
qed

end
