(* ===== verification/LoadFacts.thy ===== *)
theory LoadFacts
  imports LoadedBag
begin

text \<open>
  What logging in gives back (\<open>Player::LoadFromDB\<close>): the fields, the pets and the spells that were saved, a
  player in good order whatever the tables hold, and a stack that loading loses in the table.
\<close>

subsection \<open>Pets\<close>

lemma uget64_uset64: "uget64 i (uset64 i v u) = v"
proof -
  have "uget64 i (uset64 i v u) = ucast (ucast v :: u32) OR push_bit 32 (ucast (ucast (drop_bit 32 v) :: u32))"
    by (simp add: uget64_def uset64_def uset_def)
  also have "\<dots> = v"
    by (rule bit_eqI) (auto simp: bit_simps)
  finally show ?thesis .
qed

lemma uget64_uset64_other: "j \<noteq> i \<Longrightarrow> j + 1 \<noteq> i \<Longrightarrow> i + 1 \<noteq> j \<Longrightarrow> uget64 j (uset64 i v u) = uget64 j u"
  by (simp add: uget64_def uset64_def uset_def)

text \<open>What loading a pet changes of the unit of the player: the field that names its pet.\<close>

definition summon_only :: "unit_rec \<Rightarrow> unit_rec \<Rightarrow> bool" where
  "summon_only u v \<longleftrightarrow> (\<forall>i. i \<notin> {UNIT_FIELD_SUMMON, UNIT_FIELD_SUMMON + 1} \<longrightarrow> uget v i = uget u i) \<and>
     u_death v = u_death u \<and> u_spells v = u_spells u \<and> u_type v = u_type u"

lemma summon_only_uset64: "summon_only u v \<Longrightarrow> summon_only u (uset64 UNIT_FIELD_SUMMON g v)"
  by (auto simp: summon_only_def uset64_def uset_def)

definition pet_frame :: "hero \<Rightarrow> hero \<Rightarrow> bool" where
  "pet_frame h k \<longleftrightarrow> h_inv k = h_inv h \<and> summon_only (h_unit h) (h_unit k) \<and> h_name k = h_name h \<and> h_map k = h_map h \<and>
     h_x k = h_x h \<and> h_y k = h_y h \<and> h_account k = h_account h \<and> h_spellRows k = h_spellRows h"

definition pet_settled :: "hero \<Rightarrow> nat \<Rightarrow> petid \<Rightarrow> bool" where
  "pet_settled h n p \<longleftrightarrow> (\<exists>x. h_petHeap h p = Some x \<and> pt_items x = replicate MAX_PET_ITEMS None \<and> unat (pt_slot x) = n \<and>
     pet_owner x = inv_guid (h_inv h) \<and> pet_state x = PET_UNCHANGED \<and> (h_battlePet h = Some p \<longrightarrow> pt_battle x = 1))"

definition pets_loading :: "hero \<Rightarrow> bool" where
  "pets_loading h \<longleftrightarrow> length (h_pets h) = MAX_PET_SLOT \<and> h_petBlocked h \<and> h_petQueue h = [] \<and>
     (\<forall>n < 10. \<forall>p. h_pets h ! n = Some p \<longrightarrow> p < h_petNext h \<and> pet_settled h n p) \<and>
     (\<forall>p. h_battlePet h = Some p \<longrightarrow> Some p \<in> set (h_pets h))"

lemma AddSpell_step: "\<exists>b v. AddSpell sdb e l st u = Inr (b, v)"
  by (simp add: AddSpell_cases)

lemma pet_spells_total: "\<exists>v. pet_spells sdb ci u = Inr v"
proof -
  have "\<exists>v. foldR (\<lambda>s v. bindR (AddSpell sdb (ucast s) 1 SPELL_UNCHANGED v) (\<lambda>(_, v'). Inr v')) ss u = Inr v" for ss :: "u32 list"
  proof (induction ss arbitrary: u)
    case (Cons s ss)
    obtain b v where "AddSpell sdb (ucast s) 1 SPELL_UNCHANGED u = Inr (b, v)" using AddSpell_step by blast
    then show ?case using Cons by simp
  qed simp
  then show ?thesis by (simp add: pet_spells_def)
qed

lemma LoadPetFromDB_cases:
  assumes "h_petHeap h p = Some x"
  shows "LoadPetFromDB sdb cdb query guid p h = Inr (False, h) \<or>
    (\<exists>y g. LoadPetFromDB sdb cdb query guid p h = Inr (True, put_pet p y (h\<lparr>h_unit := uset64 UNIT_FIELD_SUMMON g (h_unit h)\<rparr>)) \<and>
       pt_items y = pt_items x \<and> pt_qpos y = pt_qpos x)"
proof (cases "query guid")
  case None
  then show ?thesis using assms by (simp add: LoadPetFromDB_def get_pet_def)
next
  case (Some q)
  show ?thesis
  proof (cases "load_values (pq_data q) (pt_unit x)")
    case None
    then show ?thesis using assms Some by (simp add: LoadPetFromDB_def get_pet_def)
  next
    case u: (Some u)
    show ?thesis
    proof (cases "cdb (uget u OBJECT_FIELD_ENTRY)")
      case None
      then show ?thesis using assms Some u by (simp add: LoadPetFromDB_def get_pet_def)
    next
      case (Some proto)
      obtain v where "pet_spells sdb (saved_info u proto) (pet_stats guid (uget u OBJECT_FIELD_ENTRY) (saved_info u proto) u) = Inr v"
        using pet_spells_total by blast
      then show ?thesis using assms \<open>query guid = Some q\<close> u Some by (auto simp: LoadPetFromDB_def get_pet_def Let_def)
    qed
  qed
qed

lemma SummonPet_free:
  assumes "h_petHeap h p = Some x" and "pt_qpos x = - 1" and "h_petBlocked h" and "unat slot < length (h_pets h)" and "h_pets h ! unat slot = None"
  shows "\<exists>y. SummonPet slot (Some p) h = Inr (Some p, put_pet p y (h\<lparr>h_pets := (h_pets h)[unat slot := Some p]\<rparr>)) \<and>
    pt_items y = pt_items x \<and> pt_slot y = slot \<and> pt_battle y = pt_battle x \<and> pet_owner y = inv_guid (h_inv h)"
proof -
  let ?g = "inv_guid (h_inv h)"
  let ?x = "x\<lparr>pt_unit := uset64 ITEM_FIELD_OWNER ?g (uset64 ITEM_FIELD_CONTAINED ?g (pt_unit x)), pt_slot := slot\<rparr>"
  let ?y = "if pet_state ?x \<noteq> PET_NEW then with_state PET_CHANGED ?x else ?x"
  let ?h = "h\<lparr>h_pets := (h_pets h)[unat slot := Some p]\<rparr>"
  have "pet_SetState p PET_CHANGED (put_pet p ?x ?h) = Inr (put_pet p ?y ?h)"
    using assms(2,3) by (simp add: pet_SetState_def get_pet_def put_pet_def pet_AddToUpdateQueue_def with_state_def)
  then have "SummonPet slot (Some p) h = Inr (Some p, put_pet p ?y ?h)"
    using assms by (simp add: SummonPet_def GetPet_def VisualizePet_def set_pet_slot_def upd_pet_def get_pet_def put_pet_def)
  moreover have "pet_owner ?y = ?g"
    using uget64_uset64_other [of UNIT_FIELD_SUMMONEDBY ITEM_FIELD_OWNER] uget64_uset64 [of UNIT_FIELD_SUMMONEDBY]
    by (simp add: pet_owner_def with_state_def uget64_def)
  ultimately show ?thesis by (intro exI [of _ ?y]) (simp add: with_state_def)
qed

text \<open>One row of the pets: nothing, or a pet more.\<close>

lemma load_pet_step:
  assumes L: "pets_loading h" and slot: "unat slot < 10" "h_pets h ! unat slot = None"
  defines "p \<equiv> h_petNext h" and "h0 \<equiv> put_pet (h_petNext h) blank_pet (h\<lparr>h_petNext := h_petNext h + 1\<rparr>)"
  shows "(LoadPetFromDB sdb cdb query guid p h0 = Inr (False, h0) \<and> pets_loading (delete_pet p h0) \<and> pet_frame h (delete_pet p h0) \<and>
        h_pets (delete_pet p h0) = h_pets h) \<or>
    (\<exists>h1 h2 x h3. LoadPetFromDB sdb cdb query guid p h0 = Inr (True, h1) \<and> SummonPet slot (Some p) h1 = Inr (Some p, h2) \<and>
        get_pet p h2 = Inr x \<and>
        pet_SetState p PET_UNCHANGED (if pt_battle x = 1 then h2\<lparr>h_battlePet := Some p\<rparr> else h2) = Inr h3 \<and>
        pets_loading h3 \<and> pet_frame h h3 \<and> h_pets h3 = (h_pets h)[unat slot := Some p])"
proof -
  have len: "length (h_pets h) = 10" using L by (simp add: pets_loading_def)
  have old: "q < p \<and> pet_settled h n q" if "n < 10" "h_pets h ! n = Some q" for n q
    using L that by (simp add: pets_loading_def p_def)
  have x0: "h_petHeap h0 p = Some blank_pet" by (simp add: h0_def p_def put_pet_def)
  have frame0: "summon_only (h_unit h) (h_unit h0)" by (simp add: summon_only_def h0_def put_pet_def)
  have set: "Some q \<in> set (h_pets h) \<Longrightarrow> \<exists>n < 10. h_pets h ! n = Some q" for q using len by (metis in_set_conv_nth)
  have new: "h_battlePet h \<noteq> Some p"
  proof
    assume "h_battlePet h = Some p"
    then have "Some p \<in> set (h_pets h)" using L by (simp add: pets_loading_def)
    then show False using set [of p] old [of _ p] by blast
  qed
  from LoadPetFromDB_cases [OF x0, of sdb cdb query guid] show ?thesis
  proof (elim disjE exE conjE)
    assume "LoadPetFromDB sdb cdb query guid p h0 = Inr (False, h0)"
    moreover have "pet_settled (delete_pet p h0) n q" if "pet_settled h n q" "q < p" for n q
      using that by (auto simp: pet_settled_def delete_pet_def h0_def put_pet_def p_def)
    then have "pets_loading (delete_pet p h0)"
      using L old by (fastforce simp: pets_loading_def delete_pet_def h0_def put_pet_def p_def)
    moreover have "pet_frame h (delete_pet p h0)" using frame0 by (simp add: pet_frame_def delete_pet_def h0_def put_pet_def)
    ultimately show ?thesis by (simp add: delete_pet_def h0_def put_pet_def)
  next
    fix y g
    let ?h1 = "put_pet p y (h0\<lparr>h_unit := uset64 UNIT_FIELD_SUMMON g (h_unit h0)\<rparr>)"
    assume load: "LoadPetFromDB sdb cdb query guid p h0 = Inr (True, ?h1)" and y: "pt_items y = pt_items blank_pet" "pt_qpos y = pt_qpos blank_pet"
    have h1: "h_petHeap ?h1 p = Some y" "h_petBlocked ?h1" "unat slot < length (h_pets ?h1)" "h_pets ?h1 ! unat slot = None"
      "inv_guid (h_inv ?h1) = inv_guid (h_inv h)" "h_pets ?h1 = h_pets h"
      using L slot len by (simp_all add: put_pet_def h0_def pets_loading_def)
    have "pt_qpos y = - 1" using y(2) by (simp add: blank_pet_def)
    from SummonPet_free [OF h1(1) this h1(2-4)]
    obtain z where sum: "SummonPet slot (Some p) ?h1 = Inr (Some p, put_pet p z (?h1\<lparr>h_pets := (h_pets h)[unat slot := Some p]\<rparr>))"
      and z: "pt_items z = pt_items y" "pt_slot z = slot" "pet_owner z = inv_guid (h_inv h)"
      unfolding h1(5,6) by blast
    let ?h2 = "put_pet p z (?h1\<lparr>h_pets := (h_pets h)[unat slot := Some p]\<rparr>)"
    let ?b = "if pt_battle z = 1 then ?h2\<lparr>h_battlePet := Some p\<rparr> else ?h2"
    let ?z = "(with_state PET_UNCHANGED z)\<lparr>pt_qpos := - 1\<rparr>"
    let ?h3 = "put_pet p ?z ?b"
    have get: "get_pet p ?h2 = Inr z" by (simp add: get_pet_def put_pet_def)
    have st: "pet_SetState p PET_UNCHANGED ?b = Inr ?h3" by (simp add: pet_SetState_def get_pet_def put_pet_def)
    have pz: "pt_items ?z = replicate 6 None" "pt_slot ?z = slot" "pet_owner ?z = inv_guid (h_inv h)" "pet_state ?z = PET_UNCHANGED"
      "pt_battle ?z = pt_battle z"
      using z y(1) by (simp_all add: with_state_def blank_pet_def pet_owner_def uget64_def pet_state_def)
    have h3: "h_petHeap ?h3 p = Some ?z" "h_pets ?h3 = (h_pets h)[unat slot := Some p]" "h_petNext ?h3 = Suc p"
      "h_inv ?h3 = h_inv h" "h_battlePet ?h3 = (if pt_battle z = 1 then Some p else h_battlePet h)" "h_petBlocked ?h3" "h_petQueue ?h3 = []"
      using L by (simp_all add: put_pet_def h0_def p_def pets_loading_def)
    have other: "h_petHeap ?h3 q = h_petHeap h q" if "q \<noteq> p" for q
      using that by (simp add: put_pet_def h0_def p_def)
    have "pets_loading ?h3"
      unfolding pets_loading_def
    proof (intro conjI allI impI)
      fix n q
      assume n: "n < 10" "h_pets ?h3 ! n = Some q"
      show "q < h_petNext ?h3"
        using n old len slot(1) unfolding h3(2,3) by (cases "n = unat slot") (auto simp: less_Suc_eq)
      show "pet_settled ?h3 n q"
      proof (cases "n = unat slot")
        case True
        then have q: "q = p" using n len unfolding h3(2) by simp
        show ?thesis unfolding pet_settled_def q h3(1,4,5)
          using pz True new by (intro exI [of _ ?z]) auto
      next
        case False
        then have "q < p" "pet_settled h n q" using n old unfolding h3(2) by auto
        then show ?thesis using other [of q] unfolding pet_settled_def h3(4,5) by auto
      qed
    next
      fix q
      assume "h_battlePet ?h3 = Some q"
      then show "Some q \<in> set (h_pets ?h3)"
        using L len slot set_update_memI [of "unat slot" "h_pets h" "Some p"] set [of q]
        unfolding h3(2,5) pets_loading_def
        by (auto split: if_splits) (metis length_list_update nth_list_update_neq nth_mem option.distinct(1))
    qed (use len in \<open>simp_all only: h3 length_list_update MAX_PET_SLOT_def\<close>)
    moreover have "pet_frame h ?h3"
      using summon_only_uset64 [OF frame0, of g] by (simp add: pet_frame_def put_pet_def h0_def)
    ultimately show ?thesis using load sum get st h3(2) by blast
  qed
qed

lemma pet_frame_trans: "pet_frame h k \<Longrightarrow> pet_frame k l \<Longrightarrow> pet_frame h l"
  by (simp add: pet_frame_def summon_only_def)

lemma load_pets_total:
  assumes "pets_loading h" and "distinct (map snd rows)" and "\<forall>(g, s) \<in> set rows. unat s < 10 \<and> h_pets h ! unat s = None"
  shows "\<exists>k. load_pets sdb cdb query rows n h = Inr k \<and> pets_loading k \<and> pet_frame h k"
  using assms
proof (induction rows arbitrary: h n)
  case Nil
  then show ?case by (simp add: pet_frame_def summon_only_def)
next
  case (Cons r rows)
  obtain g s where r: "r = (g, s)" by (cases r)
  have slot: "unat s < 10" "h_pets h ! unat s = None" using Cons.prems(3) by (simp_all add: r)
  have rest: "distinct (map snd rows)" using Cons.prems(2) by simp
  have later: "s' \<noteq> s" if "(g', s') \<in> set rows" for g' s'
    using that Cons.prems(2) by (force simp: r)
  have free: "\<forall>(g, s') \<in> set rows. unat s' < 10 \<and> pets ! unat s' = None" if "pets = h_pets h \<or> pets = (h_pets h)[unat s := Some p]" for pets p
    using that Cons.prems(1,3) later by (fastforce simp: r pets_loading_def nth_list_update word_unat_eq_iff)
  from load_pet_step [OF Cons.prems(1) slot, of sdb cdb query g] show ?case
  proof (elim disjE exE conjE)
    let ?start = "put_pet (h_petNext h) blank_pet (h\<lparr>h_petNext := h_petNext h + 1\<rparr>)"
    let ?gone = "delete_pet (h_petNext h) ?start"
    assume a: "LoadPetFromDB sdb cdb query g (h_petNext h) ?start = Inr (False, ?start)" "pets_loading ?gone" "pet_frame h ?gone" "h_pets ?gone = h_pets h"
    obtain k where "load_pets sdb cdb query rows n ?gone = Inr k" "pets_loading k" "pet_frame ?gone k"
      using Cons.IH [OF a(2) rest free, of n] a(4) by auto
    then show ?thesis using a slot(1) pet_frame_trans [OF a(3)] by (auto simp: r Let_def)
  next
    let ?p = "h_petNext h"
    fix h1 h2 x h3
    assume a: "LoadPetFromDB sdb cdb query g ?p (put_pet ?p blank_pet (h\<lparr>h_petNext := ?p + 1\<rparr>)) = Inr (True, h1)"
      "SummonPet s (Some ?p) h1 = Inr (Some ?p, h2)" "get_pet ?p h2 = Inr x"
      "pet_SetState ?p PET_UNCHANGED (if pt_battle x = 1 then h2\<lparr>h_battlePet := Some ?p\<rparr> else h2) = Inr h3"
      "pets_loading h3" "pet_frame h h3" "h_pets h3 = (h_pets h)[unat s := Some ?p]"
    obtain k where "load_pets sdb cdb query rows (n + 1) h3 = Inr k" "pets_loading k" "pet_frame h3 k"
      using Cons.IH [OF a(5) rest free [where pets = "h_pets h3" and p = ?p], of "n + 1"] a(7) by auto
    then show ?thesis using a slot(1) pet_frame_trans [OF a(6)] by (auto simp: r Let_def)
  qed
qed

lemma load_spells_frame:
  "\<exists>v. load_spells sdb rows n u = Inr v \<and> u_vals v = u_vals u \<and> u_death v = u_death u \<and> (book_ok sdb u \<longrightarrow> book_ok sdb v)"
proof (induction rows arbitrary: n u)
  case Nil
  then show ?case by simp
next
  case (Cons r rows)
  obtain e l where r: "r = (e, l)" by (cases r)
  obtain b v where v: "AddSpell sdb e l SPELL_UNCHANGED u = Inr (b, v)" using AddSpell_step by blast
  have "u_vals v = u_vals u \<and> u_death v = u_death u" using v by (auto simp: AddSpell_cases split: if_splits)
  moreover have "book_ok sdb u \<longrightarrow> book_ok sdb v" using AddSpell_ok v by blast
  ultimately show ?case using v Cons.IH [of n v] Cons.IH [of "n + 1" v] by (auto simp: r)
qed

subsection \<open>Logging in\<close>

text \<open>The queries of a player that owns the pets in \<open>ps\<close>, in different slots, which carry nothing.\<close>

definition plain_login :: "login_queries \<Rightarrow> bool" where
  "plain_login q \<longleftrightarrow>
     (\<forall>ps. lq_pets q = Some ps \<longrightarrow> distinct (map snd ps) \<and> (\<forall>(g, s) \<in> set ps. unat s < MAX_PET_SLOT)) \<and>
     (\<forall>r \<in> set (rows_of (lq_inv q)). iq_pet r = 0)"

text \<open>The fields that loading computes anew.\<close>

definition recomputed :: "nat set" where
  "recomputed = mod_fields \<union> {OBJECT_FIELD_GUID, OBJECT_FIELD_GUID + 1, UNIT_FIELD_SUMMON, UNIT_FIELD_SUMMON + 1,
     UNIT_FIELD_HP_MAX, UNIT_FIELD_SP_MAX}"

definition player_ok :: "spell_db \<Rightarrow> hero \<Rightarrow> bool" where
  "player_ok sdb h \<longleftrightarrow> slots_ok (h_inv h) \<and> inv_queue (h_inv h) = [] \<and> \<not> inv_blocked (h_inv h) \<and>
     (\<forall>n < 145. \<forall>it. item_in (h_inv h) n = Some it \<longrightarrow> it_state it = ITEM_UNCHANGED) \<and>
     length (h_pets h) = MAX_PET_SLOT \<and> (\<forall>n < 10. \<forall>p. h_pets h ! n = Some p \<longrightarrow> h_petHeap h p \<noteq> None) \<and>
     book_ok sdb (h_unit h) \<and> u_death (h_unit h) = ALIVE \<and> uget (h_unit h) UNIT_FIELD_HP \<noteq> 0 \<and>
     uget (h_unit h) UNIT_FIELD_HP_MAX = ucast (GetHPMax (h_unit h)) \<and> uget (h_unit h) UNIT_FIELD_SP_MAX = ucast (GetSPMax (h_unit h))"

lemma rise_spec:
  "u_death u \<in> {ALIVE, DEAD} \<Longrightarrow> u_death (rise u) = ALIVE"
  "uget (rise u) UNIT_FIELD_HP \<noteq> 0" "u_spells (rise u) = u_spells u"
  "uget (rise u) UNIT_FIELD_HP_MAX = ucast (GetHPMax (rise u))" "uget (rise u) UNIT_FIELD_SP_MAX = ucast (GetSPMax (rise u))"
  "i \<notin> {UNIT_FIELD_HP, UNIT_FIELD_HP_MAX, UNIT_FIELD_SP_MAX} \<Longrightarrow> uget (rise u) i = uget u i"
  "uget (rise u) UNIT_FIELD_HP = (if u_death u = DEAD \<or> uget u UNIT_FIELD_HP = 0 then 1 else uget u UNIT_FIELD_HP)"
  by (auto simp: rise_def Let_def uset_def GetHPMax_def GetSPMax_def)

lemma book_ok_rise: "book_ok sdb u \<Longrightarrow> book_ok sdb (rise u)"
proof -
  have "uget (rise u) UNIT_FIELD_ELEMENT = uget u UNIT_FIELD_ELEMENT" by (rule rise_spec(6)) simp
  then have "spell_allowed sdb (rise u) e = spell_allowed sdb u e" for e by (simp only: spell_allowed_def)
  then show "book_ok sdb u \<Longrightarrow> book_ok sdb (rise u)" by (simp add: book_ok_def rise_spec(3))
qed

lemma login_run:
  assumes q: "plain_login q" and c: "lq_char q = Some c" "cq_account c = account" "length (cq_data c) = PLAYER_END"
  shows "\<exists>k. LoadFromDB sdb idb cdb guid q (new_player account db) = Inr (True, k) \<and> player_ok sdb k \<and>
    inv_guid (h_inv k) = MAKE_GUID guid HIGHGUID_PLAYER \<and>
    h_name k = cq_name c \<and> h_map k = cq_map c \<and> h_x k = cq_x c \<and> h_y k = cq_y c \<and>
    (\<forall>i < PLAYER_END. i \<notin> insert UNIT_FIELD_HP recomputed \<longrightarrow> uget (h_unit k) i = cq_data c ! i) \<and>
    uget (h_unit k) UNIT_FIELD_HP = (if cq_data c ! UNIT_FIELD_HP = 0 then 1 else cq_data c ! UNIT_FIELD_HP) \<and>
    abs_bag (h_inv k) = fold (bag_row idb (cq_data c ! UNIT_FIELD_LEVEL)) (rows_of (lq_inv q)) Map.empty"
proof -
  let ?me = "MAKE_GUID guid HIGHGUID_PLAYER" and ?n = "new_player account db"
  define u where "u = blank_player_unit\<lparr>u_vals := (\<lambda>i. if i < PLAYER_END then cq_data c ! i else 0)\<rparr>"
  define v where "v = uset64 OBJECT_FIELD_GUID ?me (fold (\<lambda>i. uset i 0) all_mod_fields u)"
  have uv: "load_values (cq_data c) (h_unit (create_object guid ?n)) = Some u"
    using c(3) by (simp add: load_values_def create_object_def fresh_object_def new_player_def u_def blank_player_unit_def fun_eq_iff uset_def)
  have v: "uget v i = cq_data c ! i" if "i < PLAYER_END" "i \<notin> recomputed" for i
    using that by (auto simp: v_def u_def all_mod_fields_def uset64_def uset_def recomputed_def mod_fields_def)
  have vs: "u_death v = ALIVE" "u_spells v = []"
    by (simp_all add: v_def u_def all_mod_fields_def uset64_def blank_player_unit_def)
  define h1 where "h1 = ?n\<lparr>h_unit := v, h_inv := (h_inv ?n)\<lparr>inv_guid := ?me\<rparr>\<rparr>"
  have inv1: "fresh_inv (h_inv h1)" "inv_guid (h_inv h1) = ?me" by (simp_all add: fresh_inv_def h1_def new_player_def)
  have drop: "foldR drop_equipped [0..<EQUIPMENT_SLOT_END] (h_inv h1) = Inr (h_inv h1)"
    using inv1(1) by (simp add: drop_equipped_def GetItemByPos_def fresh_inv_def upt_rec)
  define h2 where "h2 = h1\<lparr>h_name := cq_name c, h_x := cq_x c, h_y := cq_y c, h_map := cq_map c\<rparr>"
  have pets: "\<exists>h3. LoadPets sdb cdb (lq_pet q) (lq_pets q) h2 = Inr h3 \<and> pet_frame h2 h3 \<and> pets_bare h3"
  proof (cases "lq_pets q")
    case None
    then show ?thesis
      by (simp add: LoadPets_def pet_frame_def summon_only_def pets_bare_def h2_def h1_def new_player_def)
  next
    case (Some ps)
    have ps: "distinct (map snd ps)" "\<forall>(g, s) \<in> set ps. unat s < 10" using q Some by (auto simp: plain_login_def)
    let ?b = "h2\<lparr>h_petBlocked := True\<rparr>"
    have "pets_loading ?b" by (simp add: pets_loading_def h2_def h1_def new_player_def)
    moreover have "\<forall>(g, s) \<in> set ps. unat s < 10 \<and> h_pets ?b ! unat s = None"
      using ps(2) by (auto simp: h2_def h1_def new_player_def)
    ultimately obtain k where k: "load_pets sdb cdb (lq_pet q) ps 0 ?b = Inr k" "pets_loading k" "pet_frame ?b k"
      using load_pets_total [OF _ ps(1)] by blast
    have "\<exists>x. h_petHeap k p = Some x \<and> pt_items x = replicate 6 None" if "Some p \<in> set (h_pets k)" for p
      using k(2) that unfolding pets_loading_def pet_settled_def by (metis MAX_PET_ITEMS_def MAX_PET_SLOT_def in_set_conv_nth)
    then show ?thesis
      using k Some by (auto simp: LoadPets_def pet_frame_def pets_bare_def pets_loading_def)
  qed
  then obtain h3 where h3: "LoadPets sdb cdb (lq_pet q) (lq_pets q) h2 = Inr h3" "pet_frame h2 h3" "pets_bare h3" by blast
  have u3: "uget (h_unit h3) i = uget v i" if "i \<notin> {UNIT_FIELD_SUMMON, UNIT_FIELD_SUMMON + 1}" for i
    using h3(2) that by (simp add: pet_frame_def summon_only_def h2_def h1_def)
  have d3: "u_death (h_unit h3) = ALIVE" using h3(2) vs by (simp add: pet_frame_def summon_only_def h2_def h1_def)
  have f3: "fresh_inv (h_inv h3)" "inv_guid (h_inv h3) = ?me" using h3(2) inv1 by (simp_all add: pet_frame_def h2_def h1_def)
  have lev: "getLevel (h_unit h3) = cq_data c ! UNIT_FIELD_LEVEL"
    using u3 [of UNIT_FIELD_LEVEL] v [of UNIT_FIELD_LEVEL] by (simp add: getLevel_def recomputed_def mod_fields_def)
  have own: "\<forall>r \<in> set (rows_of (lq_inv q)). iq_pet r = 0"
    using q by (simp add: plain_login_def)
  have nb: "\<not> inv_blocked (h_inv h3)" using h3(2) by (simp add: pet_frame_def h2_def h1_def new_player_def)
  obtain h4 t where h4: "LoadInventory idb (lq_inv q) h3 = Inr h4" "gear_frame (h3\<lparr>h_inv := t\<rparr>) h4" "stowed t" "inv_guid t = ?me"
    "abs_bag t = fold (bag_row idb (cq_data c ! UNIT_FIELD_LEVEL)) (rows_of (lq_inv q)) Map.empty"
    using inventory_run [OF f3(1) h3(3) own nb, of idb] unfolding f3(2) lev by blast
  have u4: "uget (h_unit h4) i = uget (h_unit h3) i" if "i \<notin> mod_fields" for i
    using h4(2) that by (simp add: gear_frame_def mods_only_def)
  have d4: "u_death (h_unit h4) = ALIVE" using h4(2) d3 by (simp add: gear_frame_def mods_only_def)
  define srows where "srows = (case lq_spells q of None \<Rightarrow> [] | Some rows \<Rightarrow> rows)"
  obtain w where w: "LoadSpells sdb srows (h_unit h4) = Inr w" "u_vals w = u_vals (h_unit h4)" "u_death w = ALIVE" "book_ok sdb w"
    using load_spells_frame [of sdb srows 0 "(h_unit h4)\<lparr>u_spells := []\<rparr>"] d4 by (auto simp: LoadSpells_def book_ok_def)
  let ?k = "h4\<lparr>h_unit := rise w\<rparr>"
  have run: "LoadFromDB sdb idb cdb guid q ?n = Inr (True, ?k)"
    using c(1,2) uv drop h3(1) h4(1) w(1)
    by (simp add: LoadFromDB_def Let_def on_inv_def h1_def v_def h2_def srows_def new_player_def)
  have vals: "uget w i = cq_data c ! i" if "i < PLAYER_END" "i \<notin> recomputed" for i
    using that v [OF that] u3 [of i] u4 [of i] w(2) by (simp add: recomputed_def)
  have field: "uget (rise w) i = cq_data c ! i" if "i < PLAYER_END" "i \<notin> insert UNIT_FIELD_HP recomputed" for i
    using that vals [of i] rise_spec(6) [of i w] by (simp add: recomputed_def)
  have hp: "uget (rise w) UNIT_FIELD_HP = (if cq_data c ! UNIT_FIELD_HP = 0 then 1 else cq_data c ! UNIT_FIELD_HP)"
    using vals [of UNIT_FIELD_HP] w(3) rise_spec(7) [of w] by (simp add: recomputed_def mod_fields_def)
  have bare: "pets_bare h4" "h_inv h4 = t" using h4(2) by (simp_all add: gear_frame_def)
  have "player_ok sdb ?k"
    unfolding player_ok_def
  proof (intro conjI allI impI)
    fix n p
    assume n: "n < 10" "h_pets ?k ! n = Some p"
    then have "h_pets h4 ! n = Some p" "n < length (h_pets h4)" using bare(1) by (simp_all add: pets_bare_def)
    then have "Some p \<in> set (h_pets h4)" using nth_mem [of n "h_pets h4"] by simp
    then show "h_petHeap ?k p \<noteq> None" using bare(1) by (auto simp: pets_bare_def)
  next
    show "book_ok sdb (h_unit ?k)" using book_ok_rise [OF w(4)] by simp
    show "u_death (h_unit ?k) = ALIVE" using rise_spec(1) [of w] w(3) by simp
    show "uget (h_unit ?k) UNIT_FIELD_HP \<noteq> 0" using rise_spec(2) [of w] by simp
    show "uget (h_unit ?k) UNIT_FIELD_HP_MAX = ucast (GetHPMax (h_unit ?k))" using rise_spec(4) [of w] by simp
    show "uget (h_unit ?k) UNIT_FIELD_SP_MAX = ucast (GetSPMax (h_unit ?k))" using rise_spec(5) [of w] by simp
    show "length (h_pets ?k) = MAX_PET_SLOT" using bare(1) by (simp add: pets_bare_def)
  qed (use h4(3) bare(2) in \<open>auto simp: stowed_def\<close>)
  moreover have "h_name ?k = cq_name c \<and> h_map ?k = cq_map c \<and> h_x ?k = cq_x c \<and> h_y ?k = cq_y c"
    using h4(2) h3(2) by (simp add: gear_frame_def pet_frame_def h2_def)
  ultimately show ?thesis using run field hp h4(4,5) bare(2) by (intro exI [of _ ?k]) simp
qed

text \<open>
  The powers of a unit whose product with the root of its level fits 16 bits: for others C++ leaves the
  conversion in \<open>GetHPMax\<close> and \<open>GetSPMax\<close> undefined. A login computes both for the player and for its pets,
  from the fields in the tables.
\<close>

definition powers_fit :: "unit_rec \<Rightarrow> bool" where
  "powers_fit u \<longleftrightarrow>
     (let r = root4 (unat (ucast (uget u UNIT_FIELD_LEVEL) :: u8))
      in unat (ucast (uget u UNIT_FIELD_HPX) :: u16) * (4 * r) < 65536 \<and> unat (ucast (uget u UNIT_FIELD_SPX) :: u16) * (2 * r) < 65536)"

definition powers_login :: "login_queries \<Rightarrow> bool" where
  "powers_login q \<longleftrightarrow>
     (\<forall>c u. lq_char q = Some c \<longrightarrow> load_values (cq_data c) blank_player_unit = Some u \<longrightarrow> powers_fit u) \<and>
     (\<forall>g r u. lq_pet q g = Some r \<longrightarrow> load_values (pq_data r) (blank_pet_unit 0) = Some u \<longrightarrow> powers_fit u)"

lemma powers_fit_cong:
  assumes "\<And>i. i \<in> {UNIT_FIELD_LEVEL, UNIT_FIELD_HPX, UNIT_FIELD_SPX} \<Longrightarrow> uget u i = uget v i"
  shows "powers_fit u = powers_fit v"
  unfolding powers_fit_def using assms by simp

text \<open>C17: whatever the tables hold, as long as the stored powers fit the maxima computed from them, logging in with
  gear for the player alone and pets in different slots never faults. It is refused exactly when the
  account has no character, the character belongs to another account or its fields are broken; then
  nothing has changed but, in the last case, the object fields of the player, which has its number
  already. Otherwise the player is in good order: every slot
  refers to a live item of its own that is as saved, nothing waits to be written, the spell book is
  well-formed, the player is alive with at least one point and its maxima fit its fields.\<close>

theorem loaded_player_ok:
  assumes "plain_login q" and "powers_login q"
  shows "\<exists>ok k. LoadFromDB sdb idb cdb guid q (new_player account db) = Inr (ok, k) \<and>
    (case lq_char q of
       None \<Rightarrow> \<not> ok \<and> k = new_player account db
     | Some c \<Rightarrow>
         if cq_account c \<noteq> account then \<not> ok \<and> k = new_player account db
         else if length (cq_data c) \<noteq> PLAYER_END then \<not> ok \<and> k = create_object guid (new_player account db)
         else ok \<and> player_ok sdb k \<and> powers_fit (h_unit k))"
proof (cases "lq_char q")
  case None
  then show ?thesis by (intro exI [of _ False] exI [of _ "new_player account db"]) (simp add: LoadFromDB_def)
next
  case (Some c)
  have acc: "h_account (new_player account db) = account" by (simp add: new_player_def)
  show ?thesis
  proof (cases "cq_account c = account \<and> length (cq_data c) = PLAYER_END")
    case True
    then obtain k where k: "LoadFromDB sdb idb cdb guid q (new_player account db) = Inr (True, k)" "player_ok sdb k"
      "\<And>i. i < PLAYER_END \<Longrightarrow> i \<notin> insert UNIT_FIELD_HP recomputed \<Longrightarrow> uget (h_unit k) i = cq_data c ! i"
      using login_run [OF assms(1) Some, of account sdb idb cdb guid db] by blast
    obtain u where u: "load_values (cq_data c) blank_player_unit = Some u" "\<And>i. i < PLAYER_END \<Longrightarrow> uget u i = cq_data c ! i"
      using True by (simp add: load_values_def)
    have "powers_fit u" using assms(2) Some u(1) unfolding powers_login_def by blast
    moreover have "uget (h_unit k) i = uget u i" if "i \<in> {UNIT_FIELD_LEVEL, UNIT_FIELD_HPX, UNIT_FIELD_SPX}" for i
    proof -
      have "i < PLAYER_END" "i \<notin> insert UNIT_FIELD_HP recomputed" using that by (auto simp: recomputed_def mod_fields_def)
      then show ?thesis using k(3) u(2) by simp
    qed
    ultimately have "powers_fit (h_unit k)" using powers_fit_cong [of "h_unit k" u] by blast
    then show ?thesis using True Some k(1,2) by (intro exI [of _ True] exI [of _ k]) simp
  next
    case False
    let ?k = "if cq_account c \<noteq> account then new_player account db else create_object guid (new_player account db)"
    show ?thesis
      using False Some acc by (intro exI [of _ False] exI [of _ ?k]) (auto simp: LoadFromDB_def load_values_def)
  qed
qed

definition sample_login :: "char_query option \<Rightarrow> login_queries" where
  "sample_login c =
     \<lparr>lq_char = c, lq_pets = Some [(9, 0)], lq_pet = (\<lambda>_. None), lq_inv = Some [], lq_spells = Some []\<rparr>"

lemma sample_login_plain: "plain_login (sample_login c)"
  by (simp add: plain_login_def sample_login_def rows_of_def)

lemma sample_login_powers:
  "powers_login (sample_login (Some
      \<lparr>cq_account = 7, cq_data = replicate PLAYER_END 0, cq_name = [97, 110, 110], cq_map = 12001, cq_x = 5, cq_y = 6\<rparr>))"
  by (auto simp: powers_login_def powers_fit_def sample_login_def load_values_def blank_player_unit_def Let_def simp del: PLAYER_END_def)

theorem loaded_player_ok_witness:
  "\<exists>k. LoadFromDB sample_sdb sample_idb Map.empty 1 (sample_login (Some
      \<lparr>cq_account = 7, cq_data = replicate PLAYER_END 0, cq_name = [97, 110, 110], cq_map = 12001, cq_x = 5, cq_y = 6\<rparr>)) (new_player 7 sample_hero) =
    Inr (True, k) \<and> player_ok sample_sdb k"
  using loaded_player_ok [OF sample_login_plain sample_login_powers, of sample_sdb sample_idb Map.empty 1 7 sample_hero]
  by (auto simp: sample_login_def)

text \<open>The query for the character on the tables a player is saved to.\<close>

definition char_result :: "hero \<Rightarrow> char_query option" where
  "char_result h = map_option (\<lambda>(account, name, m, x, y, vals).
     \<lparr>cq_account = account, cq_data = map vals [0..<PLAYER_END], cq_name = name, cq_map = m, cq_x = x, cq_y = y\<rparr>) (h_row h)"

text \<open>C18: a player with a plain name and an account that fits its column, that is saved to a database that stores such
  rows and logs in again gets name, place and fields back, except those that loading computes
  anew (its number, its pet, modifiers and maxima) and a player without points, which has one; no other
  account gets anything. A save whose row the database refuses, which it may for any other name, leaves
  all tables as they were, so the next login gets what was saved before.\<close>

theorem saved_player_restored:
  assumes "SaveToDB_player idb h = Inr h1" and "plain_login q" and "powers_login q" and "lq_char q = char_result h1"
  shows "if h_insert h (char_row_of h) = None
    then h_row h1 = h_row h \<and> h_petRows h1 = h_petRows h \<and> h_spellRows h1 = h_spellRows h \<and>
      inv_rows (h_inv h1) = inv_rows (h_inv h) \<and> inv_instances (h_inv h1) = inv_instances (h_inv h)
    else takes_plain h \<and> plain_row (char_row_of h) \<longrightarrow>
      (\<exists>k. LoadFromDB sdb idb cdb guid q (new_player (h_account h) db) = Inr (True, k) \<and>
        (h_name k, h_map k, h_x k, h_y k) = (h_name h, h_map h, h_x h, h_y h) \<and>
        (\<forall>i < PLAYER_END. i \<notin> insert UNIT_FIELD_HP recomputed \<longrightarrow> uget (h_unit k) i = uget (h_unit h) i) \<and>
        uget (h_unit k) UNIT_FIELD_HP = (if uget (h_unit h) UNIT_FIELD_HP = 0 then 1 else uget (h_unit h) UNIT_FIELD_HP) \<and>
        (\<forall>a. a \<noteq> h_account h \<longrightarrow> LoadFromDB sdb idb cdb guid q (new_player a db) = Inr (False, new_player a db)))"
proof (cases "h_insert h (char_row_of h) = None")
  case True
  then show ?thesis using assms(1) by (auto simp: SaveToDB_player_def end_transaction_def bindR_eq_Inr split: if_splits)
next
  case False
  let ?c = "\<lparr>cq_account = h_account h, cq_data = map (uget (h_unit h)) [0..<PLAYER_END], cq_name = h_name h, cq_map = h_map h,
      cq_x = h_x h, cq_y = h_y h\<rparr>"
  have "\<exists>k. LoadFromDB sdb idb cdb guid q (new_player (h_account h) db) = Inr (True, k) \<and>
        (h_name k, h_map k, h_x k, h_y k) = (h_name h, h_map h, h_x h, h_y h) \<and>
        (\<forall>i < PLAYER_END. i \<notin> insert UNIT_FIELD_HP recomputed \<longrightarrow> uget (h_unit k) i = uget (h_unit h) i) \<and>
        uget (h_unit k) UNIT_FIELD_HP = (if uget (h_unit h) UNIT_FIELD_HP = 0 then 1 else uget (h_unit h) UNIT_FIELD_HP) \<and>
        (\<forall>a. a \<noteq> h_account h \<longrightarrow> LoadFromDB sdb idb cdb guid q (new_player a db) = Inr (False, new_player a db))"
    if plain: "takes_plain h" "plain_row (char_row_of h)"
  proof -
    have "h_insert h (char_row_of h) = Some (char_row_of h)" using plain unfolding takes_plain_def by blast
    then have "h_row h1 = Some (char_row_of h)" using saved_row [OF assms(1)] by simp
    then have c: "lq_char q = Some ?c" using assms(4) by (simp add: char_result_def char_row_of_def)
    have "LoadFromDB sdb idb cdb guid q (new_player a db) = Inr (False, new_player a db)" if "a \<noteq> h_account h" for a
      using c that by (simp add: LoadFromDB_def new_player_def)
    moreover have "cq_account ?c = h_account h" "length (cq_data ?c) = PLAYER_END" by simp_all
    note login_run [OF assms(2) c this, of sdb idb cdb guid db]
    moreover have "cq_data ?c ! i = uget (h_unit h) i" if "i < PLAYER_END" for i using that by (simp del: upt_Suc upt_rec_numeral PLAYER_END_def)
    ultimately show ?thesis by (auto simp del: upt_Suc upt_rec_numeral)
  qed
  then show ?thesis using False by (simp only: if_False) blast
qed

theorem saved_player_restored_witness:
  "\<exists>h1 k. SaveToDB_player sample_idb (new_player 7 sample_hero) = Inr h1 \<and>
    LoadFromDB sample_sdb sample_idb Map.empty 1 (sample_login (char_result h1)) (new_player 7 sample_hero) = Inr (True, k) \<and>
    uget (h_unit k) UNIT_FIELD_HP = 1"
proof -
  let ?h = "new_player 7 sample_hero"
  obtain h1 where h1: "SaveToDB_player sample_idb ?h = Inr h1"
    by (simp add: SaveToDB_player_def new_player_def on_inv_def SaveInventory_def SavePets_def)
  have c: "lq_char (sample_login (char_result h1)) = char_result h1" by (simp add: sample_login_def)
  have h: "h_account ?h = 7" "uget (h_unit ?h) UNIT_FIELD_HP = 0" "h_insert ?h = Some" "h_name ?h = []"
    by (simp_all add: new_player_def blank_player_unit_def sample_hero_def)
  have plain: "takes_plain ?h" "plain_row (char_row_of ?h)"
    using h by (simp_all add: takes_plain_def plain_row_def plain_name_def char_row_of_def)
  have "uget (h_unit ?h) i = 0" for i by (simp add: new_player_def blank_player_unit_def)
  then have "powers_login (sample_login (char_result h1))"
    using saved_row [OF h1] h(3)
    by (auto simp: powers_login_def powers_fit_def sample_login_def load_values_def char_result_def char_row_of_def blank_player_unit_def Let_def
        simp del: upt_Suc upt_rec_numeral PLAYER_END_def)
  from saved_player_restored [OF h1 sample_login_plain this c, of sample_sdb Map.empty 1 sample_hero]
  show ?thesis using h1 h plain by auto
qed

subsection \<open>A stack that comes back\<close>

lemma destroy_stowed:
  assumes "stowed s" and "k < 145" and "item_in s k = Some it" and "proto (it_entry it)"
  shows "\<exists>t u. DestroyItem k s = Inr t \<and> SaveInventory proto t = Inr u \<and> abs_bag u = (abs_bag s)(k := None) \<and>
    inv_rows u = (inv_rows s)(it_guid it := None) \<and> inv_instances u = (inv_instances s)(it_guid it := None)"
proof -
  have S: "slots_ok s" "inv_queue s = []" "\<not> inv_blocked s" using assms(1) by (simp_all add: stowed_def)
  have len: "length (inv_slots s) = 145" by (rule slots_ok_length [OF S(1)])
  obtain i where i: "inv_slots s ! k = Some i" "inv_heap s i = Some it"
    using assms(2,3) len by (cases "inv_slots s ! k") (auto simp: item_in_def)
  have st: "it_state it = ITEM_UNCHANGED" "it_qpos it = - 1" using assms(1-3) by (auto simp: stowed_def)
  have own: "it_owner it = inv_guid s" using slots_ok_sits [OF S(1) assms(2) i(1)] i(2) by (simp add: sits_def)
  let ?it = "it\<lparr>it_contained := 0, it_slot := NULL_SLOT, it_state := ITEM_REMOVED, it_qpos := 0\<rparr>"
  let ?t = "put_item i ?it (s\<lparr>inv_slots := (inv_slots s)[k := None], inv_queue := [Some i]\<rparr>)"
  let ?u = "(delete_item i (?t\<lparr>inv_rows := (inv_rows s)(it_guid it := None), inv_instances := (inv_instances s)(it_guid it := None)\<rparr>))\<lparr>inv_queue := []\<rparr>"
  have "DestroyItem k s = Inr ?t"
    using assms(2) len i st own S
    by (simp add: DestroyItem_def GetItemByPos_def set_slot_def upd_item_def get_item_def put_item_def SetState_def AddToUpdateQueueOf_def
        to_int16_def)
  moreover have "SaveInventory proto ?t = Inr ?u"
    using assms(4) by (simp add: SaveInventory_def save_entry_def SaveToDB_def get_item_def put_item_def delete_item_def)
  moreover have "abs_bag ?u l = ((abs_bag s)(k := None)) l" for l
  proof (cases "l < 145 \<and> l \<noteq> k")
    case True
    then show ?thesis
      using slots_inj [OF S(1) _ assms(2) _ i(1), of l] len
      by (cases "inv_slots s ! l") (auto simp: abs_bag_def item_in_def delete_item_def put_item_def)
  next
    case False
    then have "l = k \<or> 145 \<le> l" by linarith
    then show ?thesis using len assms(2) by (elim disjE) (simp_all add: abs_bag_def item_in_def delete_item_def put_item_def)
  qed
  then have "abs_bag ?u = (abs_bag s)(k := None)" by (rule ext)
  moreover have "inv_rows ?u = (inv_rows s)(it_guid it := None)" "inv_instances ?u = (inv_instances s)(it_guid it := None)"
    by (simp_all add: delete_item_def put_item_def)
  ultimately show ?thesis by (intro exI [of _ ?t] exI [of _ ?u] conjI)
qed

definition bag_result :: "u32 \<Rightarrow> u8 \<Rightarrow> u32 \<Rightarrow> u32 \<Rightarrow> inv_query" where
  "bag_result e slot g n = \<lparr>iq_data = Some (e, 0, 0, n), iq_pet = 0, iq_slot = slot, iq_item = g, iq_entry = e\<rparr>"

text \<open>Two saved stacks of the same item that fit into one are merged by loading, but the table keeps both rows: the
  second row stays with all its items. Destroying the merged stack and saving deletes the first row only,
  so the items of the second come back with the next login.\<close>

theorem merged_stack_comes_back:
  assumes "fresh_inv (h_inv h)" and "pets_bare h" and "idb e = Some p" and "1 < ip_Stackable p" and "ip_MaxCount p = 0"
    and "n + m \<le> ip_Stackable p" and "IsInventoryPos x" and "IsInventoryPos y"
  shows "\<exists>k t u. LoadInventory idb (Some [bag_result e x g n, bag_result e y g' m]) h = Inr k \<and>
    abs_bag (h_inv k) = [10 \<mapsto> (e, n + m)] \<and> DestroyItem 10 (h_inv k) = Inr t \<and> SaveInventory (\<lambda>i. idb i \<noteq> None) t = Inr u \<and>
    abs_bag u = Map.empty \<and> inv_rows u = (inv_rows (h_inv h))(g := None) \<and> inv_instances u = (inv_instances (h_inv h))(g := None)"
proof -
  let ?h = "block_items True h" and ?r = "bag_result e x g n" and ?q = "bag_result e y g' m" and ?l = "getLevel (h_unit h)"
  have f: "loading (h_inv ?h)" "abs_bag (h_inv ?h) = Map.empty" using fresh_loading [OF assms(1)] by simp_all
  have b: "\<not> inv_inWorld (h_inv ?h)" "h_unit ?h = h_unit h" "inv_rows (h_inv ?h) = inv_rows (h_inv h)"
    "inv_instances (h_inv ?h) = inv_instances (h_inv h)" "inv_slots (h_inv ?h) = replicate 145 None"
    using assms(1) by (simp_all add: fresh_inv_def block_items_def)
  have own: "iq_pet ?r = 0" "iq_pet ?q = 0" by (simp_all add: bag_result_def)
  have first: "bag_place p e n Map.empty = (EQUIP_ERR_OK, 10)"
    using assms(5) by (simp add: bag_place_def upt_rec)
  have second: "bag_place p e m [10 \<mapsto> (e, n)] = (EQUIP_ERR_OK, 10)"
    using assms(4-6) by (simp add: bag_place_def upt_rec)
  obtain s where s: "load_row idb ?r ?h = Inr (?h\<lparr>h_inv := s\<rparr>)" "row_done idb ?l ?r (h_inv ?h) s"
    using load_row_own [OF f(1) b(1) own(1), of idb] b(2) by auto
  have bag1: "abs_bag s = [10 \<mapsto> (e, n)]"
    using s(2) assms(3,7) first unfolding row_done_def f(2)
    by (simp add: bag_row_def bag_result_def bag_item_def bag_merge_def)
  have rows1: "inv_rows s = inv_rows (h_inv h)" "inv_instances s = inv_instances (h_inv h)"
    using s(2) assms(3,7) first unfolding row_done_def rows_after_def f(2) b(3,4)
    by (simp_all add: row_placed_def bag_result_def item_placed_def)
  have guid1: "map_option it_guid (item_in s 10) = Some g"
    using s(2) bag1 unfolding row_done_def f(2) by (simp add: bag_result_def)
  let ?s = "?h\<lparr>h_inv := s\<rparr>"
  have ls: "loading (h_inv ?s)" "\<not> inv_inWorld (h_inv ?s)" "h_unit ?s = h_unit h" using s(2) b(2) by (simp_all add: row_done_def)
  obtain t where t: "load_row idb ?q ?s = Inr (?s\<lparr>h_inv := t\<rparr>)" "row_done idb ?l ?q s t"
    using load_row_own [OF ls(1,2) own(2), of idb] ls(3) by auto
  have bag2: "abs_bag t = [10 \<mapsto> (e, n + m)]"
    using t(2) assms(3,8) second unfolding row_done_def bag1
    by (simp add: bag_row_def bag_result_def bag_item_def bag_merge_def)
  have rows2: "inv_rows t = inv_rows (h_inv h)" "inv_instances t = inv_instances (h_inv h)"
    using t(2) assms(3,8) second unfolding row_done_def rows_after_def bag1 rows1
    by (simp_all add: row_placed_def bag_result_def item_placed_def)
  have guid2: "map_option it_guid (item_in t 10) = Some g"
    using t(2) guid1 unfolding row_done_def bag1 by simp
  have lt: "loading t" using t(2) by (simp add: row_done_def)
  have run: "foldR (load_row idb) [?r, ?q] ?h = Inr (?h\<lparr>h_inv := t\<rparr>)" using s(1) t(1) by simp
  obtain k where k: "LoadInventory idb (Some [?r, ?q]) h = Inr k" "gear_frame (h\<lparr>h_inv := t\<lparr>inv_blocked := False\<rparr>\<rparr>) k"
    using inventory_after [OF assms(1,2) run lt] by blast
  have inv: "h_inv k = t\<lparr>inv_blocked := False\<rparr>" using k(2) by (simp add: gear_frame_def)
  have st: "stowed (h_inv k)" unfolding inv by (rule loading_stowed [OF lt])
  have bag: "abs_bag (h_inv k) = [10 \<mapsto> (e, n + m)]" unfolding inv abs_bag_blocked by (rule bag2)
  obtain it where it: "item_in (h_inv k) 10 = Some it" "it_entry it = e" "it_guid it = g"
  proof -
    obtain it where i: "item_in (h_inv k) 10 = Some it"
      using fun_cong [OF bag, of 10] by (cases "item_in (h_inv k) 10") (simp_all add: abs_bag_def)
    moreover have "it_entry it = e" using fun_cong [OF bag, of 10] i by (simp add: abs_bag_def)
    moreover have "item_in (h_inv k) 10 = item_in t 10" by (simp add: inv item_in_def)
    then have "map_option it_guid (Some it) = Some g" using guid2 i by (simp only:)
    then have "it_guid it = g" by simp
    ultimately show ?thesis by (rule that)
  qed
  have ten: "(10 :: nat) < 145" and known: "idb (it_entry it) \<noteq> None" using it(2) assms(3) by simp_all
  show ?thesis
    using destroy_stowed [OF st ten it(1), of "\<lambda>i. idb i \<noteq> None"] known k(1) bag rows2 it(3)
    by (auto simp: inv)
qed

theorem merged_stack_comes_back_witness:
  "\<exists>k t u. LoadInventory sample_idb (Some [bag_result 26001 10 5 30, bag_result 26001 11 6 20]) (new_player 7 sample_hero) = Inr k \<and>
    abs_bag (h_inv k) = [10 \<mapsto> (26001, 50)] \<and> DestroyItem 10 (h_inv k) = Inr t \<and>
    SaveInventory (\<lambda>i. sample_idb i \<noteq> None) t = Inr u \<and> abs_bag u = Map.empty"
proof -
  have "fresh_inv (h_inv (new_player 7 sample_hero))" "pets_bare (new_player 7 sample_hero)"
    by (simp_all add: new_player_def fresh_inv_def pets_bare_def)
  from merged_stack_comes_back [OF this, of sample_idb 26001 sample_proto 30 20 10 11 5 6]
  have "\<exists>k t u. LoadInventory sample_idb (Some [bag_result 26001 10 5 30, bag_result 26001 11 6 (20 :: u32)]) (new_player 7 sample_hero) = Inr k \<and>
    abs_bag (h_inv k) = [10 \<mapsto> (26001, 30 + 20)] \<and> DestroyItem 10 (h_inv k) = Inr t \<and>
    SaveInventory (\<lambda>i. sample_idb i \<noteq> None) t = Inr u \<and> abs_bag u = Map.empty"
    by (elim meta_impE exE conjE) (simp_all add: sample_idb_def sample_proto_def IsInventoryPos_def)
  then show ?thesis by simp
qed

end
