(* ===== verification/Creation.thy ===== *)
theory Creation
  imports Loading Experience
begin

text \<open>
  Creating a character (\<open>Player::Create\<close>, \<open>WorldSession::HandleCharCreate\<close>): the packet with its look, its
  stats and two passwords, the first clothes, and the first save. The name was chosen by an earlier
  packet; the account table with the hashes of the passwords is not modelled, the passwords are results.
\<close>

text \<open>Nineteen bytes, read one by one, in the order of the code.\<close>

definition read_look :: "byte_buffer \<Rightarrow> (u8 list \<times> byte_buffer) res" where
  "read_look = op_read_n dec_u8 1 19"

text \<open>A password is copied through an array of 100 bytes.\<close>

fun read_chars :: "nat \<Rightarrow> nat \<Rightarrow> byte_buffer \<Rightarrow> (bytes \<times> byte_buffer) res" where
  "read_chars i 0 b = Inr ([], b)"
| "read_chars i (Suc n) b =
     bindR (read_u8 b) (\<lambda>(c, b1).
       if i \<ge> 100 then Inl OutOfBounds
       else bindR (read_chars (i + 1) n b1) (\<lambda>(cs, b2). Inr (c # cs, b2)))"

text \<open>None if the whole packet is shorter than the password says.\<close>

definition read_password :: "byte_buffer \<Rightarrow> (bytes option \<times> byte_buffer) res" where
  "read_password b =
     bindR (read_u8 b) (\<lambda>(n, b1).
       if bb_size b1 < unat n then Inr (None, b1)
       else bindR (read_chars 0 (unat n) b1) (\<lambda>(cs, b2). Inr (Some cs, b2)))"

definition look_of :: "u8 list \<Rightarrow> (nat \<times> u32) list" where
  "look_of vs =
     [(UNIT_FIELD_ELEMENT, ucast (vs ! 12)), (UNIT_FIELD_REBORN, ucast (vs ! 3)), (UNIT_FIELD_LEVEL, 1),
      (UNIT_FIELD_INT, ucast (vs ! 13)), (UNIT_FIELD_ATK, ucast (vs ! 14)), (UNIT_FIELD_DEF, ucast (vs ! 15)),
      (UNIT_FIELD_HPX, ucast (vs ! 16)), (UNIT_FIELD_SPX, ucast (vs ! 17)), (UNIT_FIELD_AGI, ucast (vs ! 18)),
      (PLAYER_GENDER, ucast (vs ! 0)), (PLAYER_FACE, ucast (vs ! 1)), (PLAYER_HAIR, ucast (vs ! 2)),
      (PLAYER_HAIR_COLOR_R, ucast (vs ! 4)), (PLAYER_HAIR_COLOR_G, ucast (vs ! 5)), (PLAYER_HAIR_COLOR_B, ucast (vs ! 6)),
      (PLAYER_SKIN_COLOR_R, ucast (vs ! 7)), (PLAYER_SKIN_COLOR_G, ucast (vs ! 8)), (PLAYER_SKIN_COLOR_B, ucast (vs ! 9)),
      (PLAYER_SHIRT_COLOR, ucast (vs ! 10)), (PLAYER_MISC_COLOR, ucast (vs ! 11))]"

definition uset_all :: "(nat \<times> u32) list \<Rightarrow> unit_rec \<Rightarrow> unit_rec" where
  "uset_all xs u = fold (\<lambda>(i, v). uset i v) xs u"

definition no_points :: "(nat \<times> u32) list" where
  "no_points = [(UNIT_FIELD_XP, 0), (UNIT_FIELD_NEXT_LEVEL_XP, 0), (UNIT_FIELD_SPELL_POINT, 0), (UNIT_FIELD_STAT_POINT, 0),
     (PLAYER_GOLD_INHAND, 0), (PLAYER_GOLD_INBANK, 0)]"

definition Player_Create :: "u32 \<Rightarrow> bytes \<Rightarrow> byte_buffer \<Rightarrow> hero \<Rightarrow> ((bytes \<times> bytes) option \<times> hero) res" where
  "Player_Create guid name b h =
     bindR (normalizePlayerName name) (\<lambda>name'.
     bindR (read_look b) (\<lambda>(vs, b1).
     bindR (read_password b1) (\<lambda>(p1, b2).
     let h1 = h\<lparr>h_unit := fresh_object guid HIGHGUID_PLAYER (h_unit h), h_name := name',
                h_inv := (h_inv h)\<lparr>inv_guid := MAKE_GUID guid HIGHGUID_PLAYER\<rparr>\<rparr>
     in case p1 of
          None \<Rightarrow> Inr (None, h1)
        | Some pass1 \<Rightarrow>
            bindR (read_password b2) (\<lambda>(p2, _).
              case p2 of
                None \<Rightarrow> Inr (None, h1)
              | Some pass2 \<Rightarrow>
                  Inr (Some (pass1, pass2),
                    h1\<lparr>h_unit := uset_all no_points (refill (uset_all (look_of vs) (h_unit h1))), h_map := 10816, h_x := 442, h_y := 758\<rparr>)))))"

subsection \<open>The first clothes\<close>

definition first_shirt :: "item_db \<Rightarrow> hero \<Rightarrow> hero res" where
  "first_shirt idb h =
     (case CreateItem idb 864 1 (h_inv h) of
        (None, s) \<Rightarrow> Inr (h\<lparr>h_inv := s\<rparr>)
      | (Some i, s) \<Rightarrow>
          let h1 = h\<lparr>h_inv := s\<rparr>
          in bindR (need_proto idb i h1) (\<lambda>p.
             bindR (CanEquipItem idb (ucast (ip_EquipmentSlot p)) (Some i) False h1) (\<lambda>(r, dest).
               if r = EQUIP_ERR_OK then EquipItem idb dest (Some i) h1
               else Inr (h1\<lparr>h_inv := delete_item i (h_inv h1)\<rparr>))))"

definition first_gear :: "u32 list" where
  "first_gear = [10012, 19001, 20711, 21011, 22401]"

definition add_gear :: "item_db \<Rightarrow> (u32 \<Rightarrow> u32 option) \<Rightarrow> u32 \<Rightarrow> (u32 \<Rightarrow> u32 option) \<times> hero \<Rightarrow> ((u32 \<Rightarrow> u32 option) \<times> hero) res" where
  "add_gear idb query modelid = (\<lambda>(cache, h).
     bindR (AddNewInventoryItem idb query modelid 1 (cache, h_inv h)) (\<lambda>(_, cache', s). Inr (cache', h\<lparr>h_inv := s\<rparr>)))"

text \<open>
  What a session and the server keep while a character is created: the chosen name, the last number given
  to a character, the cache of item entries, the tables, what was sent, and the passwords of the
  character that was created.
\<close>

record creation =
  cr_name :: bytes
  cr_counter :: u32
  cr_cache :: "u32 \<Rightarrow> u32 option"
  cr_db :: hero
  cr_out :: "outgoing list"
  cr_passwords :: "(bytes \<times> bytes) option"

definition HandleCharCreate ::
  "item_db \<Rightarrow> (u32 \<Rightarrow> u32 option) \<Rightarrow> u32 \<Rightarrow> byte_buffer \<Rightarrow> creation \<Rightarrow> creation res" where
  "HandleCharCreate idb query account b c =
     (if bb_size b < 20 then Inr c
      else if cr_name c = [] then Inr c
      else let c1 = c\<lparr>cr_counter := cr_counter c + 1\<rparr>
           in bindR (Player_Create (cr_counter c1) (cr_name c) b (new_player account (cr_db c))) (\<lambda>(passwords, h).
                case passwords of
                  None \<Rightarrow> Inr c1
                | Some _ \<Rightarrow>
                    bindR (first_shirt idb h) (\<lambda>h1.
                    bindR (foldR (add_gear idb query) first_gear (cr_cache c, h1)) (\<lambda>(cache, h2).
                    bindR (SaveToDB_player idb h2) (\<lambda>h3.
                      Inr (c1\<lparr>cr_cache := cache, cr_db := h3, cr_passwords := passwords, cr_name := []\<rparr>))))))"

text \<open>The name is kept before anybody looks whether it is taken.\<close>

definition HandleCharCreateSelectName :: "(bytes \<Rightarrow> bool) \<Rightarrow> byte_buffer \<Rightarrow> creation \<Rightarrow> creation" where
  "HandleCharCreateSelectName taken b c =
     (if bb_size b < 1 then c
      else let name = fst (op_read_string [] b)
           in c\<lparr>cr_name := name, cr_out := cr_out c @ [(ToSession, 0x09, [FU8 3, FU8 (if taken name then 1 else 0)])]\<rparr>)"

definition HandleCharCreateOpcode ::
  "item_db \<Rightarrow> (u32 \<Rightarrow> u32 option) \<Rightarrow> u32 \<Rightarrow> (bytes \<Rightarrow> bool) \<Rightarrow> byte_buffer \<Rightarrow> creation \<Rightarrow> creation res" where
  "HandleCharCreateOpcode idb query account taken b c =
     (if bb_size b < 1 then Inr c
      else bindR (read_u8 b) (\<lambda>(cmd, b1).
        if cmd = 1 then HandleCharCreate idb query account b1 c
        else if cmd = 2 then Inr (HandleCharCreateSelectName taken b1 c)
        else Inr c))"

end
