(* ===== verification/Growth.thy ===== *)
theory Growth
  imports Saving
begin

text \<open>
  The packets with which a player spends points and sets options, and the creation of a character
  (\<open>src/game/CharacterHandler.cpp\<close>, \<open>Player::Create\<close>). \<open>CHECK_PACKET_SIZE\<close> drops a packet that is shorter
  than it says; what is read behind the end of a longer one is a failed assertion.
\<close>

definition UPD_FLAG_INT :: u8 where [simp]: "UPD_FLAG_INT = 0x1B"
definition UPD_FLAG_ATK :: u8 where [simp]: "UPD_FLAG_ATK = 0x1C"
definition UPD_FLAG_DEF :: u8 where [simp]: "UPD_FLAG_DEF = 0x1D"
definition UPD_FLAG_AGI :: u8 where [simp]: "UPD_FLAG_AGI = 0x1E"
definition UPD_FLAG_HPX :: u8 where [simp]: "UPD_FLAG_HPX = 0x1F"
definition UPD_FLAG_SPX :: u8 where [simp]: "UPD_FLAG_SPX = 0x20"
definition UPD_FLAG_ADD_SPELL :: u8 where [simp]: "UPD_FLAG_ADD_SPELL = 0x6E"

definition on_hero_unit :: "(unit_rec \<Rightarrow> unit_rec) \<Rightarrow> hero \<Rightarrow> hero" where
  "on_hero_unit f h = h\<lparr>h_unit := f (h_unit h)\<rparr>"

lemma on_hero_unit_simps [simp]:
  "h_unit (on_hero_unit f h) = f (h_unit h)" "h_inv (on_hero_unit f h) = h_inv h" "h_session (on_hero_unit f h) = h_session h"
  "h_out (on_hero_unit f h) = h_out h" "h_pets (on_hero_unit f h) = h_pets h" "h_petHeap (on_hero_unit f h) = h_petHeap h"
  "h_petQueue (on_hero_unit f h) = h_petQueue h" "h_spellRows (on_hero_unit f h) = h_spellRows h"
  by (simp_all add: on_hero_unit_def)

subsection \<open>Points for a stat\<close>

text \<open>The field a flag names, 0 for none.\<close>

definition flag_field :: "u8 \<Rightarrow> nat" where
  "flag_field flag =
     (if flag = UPD_FLAG_INT then UNIT_FIELD_INT
      else if flag = UPD_FLAG_ATK then UNIT_FIELD_ATK
      else if flag = UPD_FLAG_DEF then UNIT_FIELD_DEF
      else if flag = UPD_FLAG_HPX then UNIT_FIELD_HPX
      else if flag = UPD_FLAG_SPX then UNIT_FIELD_SPX
      else if flag = UPD_FLAG_AGI then UNIT_FIELD_AGI
      else 0)"

definition add_stat :: "u8 \<Rightarrow> u8 \<Rightarrow> hero \<Rightarrow> hero" where
  "add_stat flag val h =
     (let f = flag_field flag
      in if f = 0 \<or> val = 0 then h
         else let h1 = on_hero_unit (uapply UNIT_FIELD_STAT_POINT (ucast val) False) (on_hero_unit (uapply f (ucast val) True) h);
                  h2 = updatePlayer UPD_FLAG_STAT_POINT 1 (uget (h_unit h1) UNIT_FIELD_STAT_POINT) 0 h1
              in updatePlayer flag 1 (uget (h_unit h2) f) 0 h2)"

definition HandlePlayerStatAddOpcodes :: "byte_buffer \<Rightarrow> hero \<Rightarrow> hero res" where
  "HandlePlayerStatAddOpcodes b h =
     (if bb_size b < 9 then Inr h
      else if uget (h_unit h) UNIT_FIELD_STAT_POINT = 0 then Inr h
      else bindR (read_u8 b) (\<lambda>(_, b1). bindR (read_u8 b1) (\<lambda>(_, b2). bindR (read_u8 b2) (\<lambda>(_, b3).
           bindR (read_u8 b3) (\<lambda>(flag, b4). bindR (read_u8 b4) (\<lambda>(val, b5). bindR (read_u32 b5) (\<lambda>_.
             Inr (add_stat flag val h))))))))"

subsection \<open>Points for spells\<close>

text \<open>
  What one entry of the packet does to a unit, none if it is skipped. A spell that is known is set to the
  level the packet names, for one point.
\<close>

definition raise_spell :: "spell_db \<Rightarrow> u16 \<Rightarrow> u8 \<Rightarrow> unit_rec \<Rightarrow> unit_rec option res" where
  "raise_spell sdb entry level u =
     (if \<not> HaveSpell entry u then
        let cost = GetSpellLearnPoint sdb entry u
        in if cost = 0 then Inr None
           else if uget u UNIT_FIELD_SPELL_POINT < cost then Inr None
           else bindR (AddSpell sdb entry 1 SPELL_NEW u) (\<lambda>(ok, v).
                  if \<not> ok then Inr None else Inr (Some (uapply UNIT_FIELD_SPELL_POINT cost False v)))
      else if uget u UNIT_FIELD_SPELL_POINT = 0 then Inr None
      else bindR (isSpellLevelMaxed sdb entry u) (\<lambda>m.
             if m then Inr None
             else if GetSpellLevel entry u = level then Inr None
             else Inr (Some (uapply UNIT_FIELD_SPELL_POINT 1 False (SetSpellLevel entry level u)))))"

text \<open>The unit the packet is about: the player (none) or a pet.\<close>

definition spell_unit :: "petid option \<Rightarrow> hero \<Rightarrow> unit_rec res" where
  "spell_unit who h = (case who of None \<Rightarrow> Inr (h_unit h) | Some p \<Rightarrow> bindR (get_pet p h) (\<lambda>x. Inr (pt_unit x)))"

definition set_spell_unit :: "petid option \<Rightarrow> unit_rec \<Rightarrow> hero \<Rightarrow> hero res" where
  "set_spell_unit who u h =
     (case who of None \<Rightarrow> Inr (h\<lparr>h_unit := u\<rparr>) | Some p \<Rightarrow> upd_pet p (\<lambda>x. x\<lparr>pt_unit := u\<rparr>) h)"

definition announce_spell :: "u8 \<Rightarrow> unit_rec \<Rightarrow> u16 \<Rightarrow> u8 \<Rightarrow> hero \<Rightarrow> hero" where
  "announce_spell petslot u entry level h =
     (if isType u TYPE_PLAYER
      then updatePlayer UPD_FLAG_ADD_SPELL 1 (ucast level) entry
             (updatePlayer UPD_FLAG_SPELL_POINT 1 (uget (h_unit h) UNIT_FIELD_SPELL_POINT) 0 h)
      else if isType u TYPE_PET
      then updatePet (petslot - 1) UPD_FLAG_ADD_SPELL 1 (ucast level) entry
             (updatePet (petslot - 1) UPD_FLAG_SPELL_POINT 1 (uget u UNIT_FIELD_SPELL_POINT) 0 h)
      else h)"

definition spell_entry :: "spell_db \<Rightarrow> petid option \<Rightarrow> u8 \<Rightarrow> u16 \<Rightarrow> u8 \<Rightarrow> hero \<Rightarrow> hero res" where
  "spell_entry sdb who petslot entry level h =
     bindR (spell_unit who h) (\<lambda>u.
     bindR (raise_spell sdb entry level u) (\<lambda>q.
       case q of
         None \<Rightarrow> Inr h
       | Some v \<Rightarrow> bindR (set_spell_unit who v h) (\<lambda>h1. Inr (announce_spell petslot v entry level h1))))"

fun spell_entries :: "spell_db \<Rightarrow> petid option \<Rightarrow> u8 \<Rightarrow> nat \<Rightarrow> byte_buffer \<Rightarrow> hero \<Rightarrow> hero res" where
  "spell_entries sdb who petslot 0 b h = Inr h"
| "spell_entries sdb who petslot (Suc n) b h =
     bindR (read_u16 b) (\<lambda>(entry, b1).
     bindR (read_u8 b1) (\<lambda>(level, b2).
     bindR (spell_entry sdb who petslot entry level h) (spell_entries sdb who petslot n b2)))"

text \<open>The type of a player never contains \<open>TYPE_PET\<close>.\<close>

definition add_spells :: "spell_db \<Rightarrow> item_db \<Rightarrow> petid option \<Rightarrow> u8 \<Rightarrow> nat \<Rightarrow> byte_buffer \<Rightarrow> hero \<Rightarrow> hero res" where
  "add_spells sdb idb who petslot n b h =
     bindR (spell_unit who h) (\<lambda>u.
       if uget u UNIT_FIELD_SPELL_POINT = 0 then Inr h
       else bindR (spell_entries sdb who petslot n b h) (\<lambda>h1.
            bindR (case who of
                     None \<Rightarrow> Inr h1
                   | Some p \<Rightarrow> if isType u TYPE_PET then pet_SetState p PET_CHANGED h1 else Inr h1)
              (SaveToDB_player idb)))"

definition HandlePlayerSpellAddOpcodes :: "spell_db \<Rightarrow> item_db \<Rightarrow> byte_buffer \<Rightarrow> hero \<Rightarrow> hero res" where
  "HandlePlayerSpellAddOpcodes sdb idb b h =
     (if bb_size b < 4 then Inr h
      else let psize = (of_nat ((bb_size b - 1) div 3) :: u8)
           in if psize = 0 then Inr h
              else bindR (read_u8 b) (\<lambda>(target, b1).
                if target = 1 then add_spells sdb idb None 0 (unat psize) b1 h
                else if target = 2 then
                  bindR (read_u8 b1) (\<lambda>(petslot, b2).
                  bindR (GetPet (unat (petslot - 1)) h) (\<lambda>q.
                    case q of
                      None \<Rightarrow> Inr h
                    | Some p \<Rightarrow> add_spells sdb idb (Some p) petslot (unat psize) b2 h))
                else Inr h))"

subsection \<open>Short keys and options\<close>

definition shortkey_field :: "u8 \<Rightarrow> nat" where
  "shortkey_field k =
     (if 1 \<le> k \<and> k \<le> 5 then PLAYER_SHORTKEY_F1 + (unat k - 1)
      else if 6 \<le> k \<and> k \<le> 10 then PLAYER_SHORTKEY_ALT1 + (unat k - 6)
      else 0)"

definition HandlePlayerSetupShortkeyOpcodes :: "byte_buffer \<Rightarrow> hero \<Rightarrow> hero res" where
  "HandlePlayerSetupShortkeyOpcodes b h =
     (if bb_size b < 5 then Inr h
      else bindR (read_u8 b) (\<lambda>(_, b1). bindR (read_u8 b1) (\<lambda>(kind, b2).
           bindR (read_u16 b2) (\<lambda>(spellid, b3). bindR (read_u8 b3) (\<lambda>(skslot, _).
             if shortkey_field skslot = 0 then Inr h
             else Inr (on_hero_unit (uset (shortkey_field skslot) (if kind = 0 then 0 else ucast spellid)) h))))))"

definition AcceptPK :: "u8 \<Rightarrow> hero \<Rightarrow> hero" where
  "AcceptPK accept = on_hero_unit (uset PLAYER_ENABLE_PK (ucast (if accept > 1 then 1 else accept)))"

definition AcceptEngage :: "u8 \<Rightarrow> hero \<Rightarrow> hero" where
  "AcceptEngage accept = on_hero_unit (uset PLAYER_ENABLE_ENGAGE (ucast (if accept > 1 then 1 else accept)))"

definition HandlePlayerEnableOptionsOpcodes :: "byte_buffer \<Rightarrow> hero \<Rightarrow> hero res" where
  "HandlePlayerEnableOptionsOpcodes b h =
     (if bb_size b < 2 then Inr h
      else bindR (read_u8 b) (\<lambda>(opt, b1). bindR (read_u8 b1) (\<lambda>(enable, _).
             Inr (if opt = 1 then AcceptPK enable h else if opt = 2 then AcceptEngage enable h else h))))"

end
