(* ===== verification/GrowthFacts.thy ===== *)
theory GrowthFacts
  imports Growth FightPackets InventoryRefinement
begin

text \<open>What the packets that spend points do, and what they fail to check.\<close>

subsection \<open>Counting points\<close>

lemma apply_add:
  fixes v d :: u32
  assumes "unat v + unat d < 2147483648"
  shows "unat (ApplyModUInt32Var v d True) = unat v + unat d"
proof -
  have bound: "int (unat v) + int (unat d) < 2147483648" "- 2147483648 \<le> int (unat v) + int (unat d)" using assms by linarith+
  have e: "v + d = word_of_int (int (unat v) + int (unat d))" by simp
  have "sint (v + d) = int (unat v) + int (unat d)"
    unfolding e by (rule sint_of_int_32) (use bound in simp_all)
  then have "\<not> sint (v + d) < 0" by linarith
  moreover have "unat (v + d) = unat v + unat d"
    using assms by (intro unat_add_lem [THEN iffD1]) simp
  ultimately show ?thesis by (simp add: ApplyModUInt32Var_def)
qed

lemma apply_sub:
  fixes v d :: u32
  assumes "unat v < 2147483648" and "unat d < 2147483648"
  shows "unat (ApplyModUInt32Var v d False) = unat v - unat d"
proof -
  have bound: "int (unat v) - int (unat d) < 2147483648" "- 2147483648 \<le> int (unat v) - int (unat d)" using assms by linarith+
  have e: "v + - d = word_of_int (int (unat v) - int (unat d))" by simp
  have s: "sint (v + - d) = int (unat v) - int (unat d)"
    unfolding e by (rule sint_of_int_32) (use bound in simp_all)
  show ?thesis
  proof (cases "unat d \<le> unat v")
    case True
    then have "unat (v - d) = unat v - unat d" by (intro unat_sub) (simp add: word_le_nat_alt)
    moreover have "\<not> sint (v + - d) < 0" using s True by linarith
    ultimately show ?thesis by (simp add: ApplyModUInt32Var_def)
  next
    case False
    then have "sint (v + - d) < 0" using s by linarith
    then show ?thesis using False by (simp add: ApplyModUInt32Var_def)
  qed
qed

lemma unat_u8_u32: "unat (ucast (d :: u8) :: u32) = unat d" "unat (d :: u8) < 256"
proof -
  have "unat d < 2 ^ LENGTH(8)" by (rule unsigned_less)
  then show "unat d < 256" by simp
  then show "unat (ucast d :: u32) = unat d" by (simp add: unat_ucast_mod)
qed

subsection \<open>Stats\<close>

lemma flag_field_cases:
  "flag_field flag = 0 \<or> flag_field flag \<in> {UNIT_FIELD_INT, UNIT_FIELD_ATK, UNIT_FIELD_DEF, UNIT_FIELD_HPX, UNIT_FIELD_SPX, UNIT_FIELD_AGI}"
  by (simp add: flag_field_def)

lemma HandlePlayerStatAdd_reads:
  assumes "holds b [FU8 m, FU8 x, FU8 y, FU8 flag, FU8 val, FU32 z]" and "uget (h_unit h) UNIT_FIELD_STAT_POINT \<noteq> 0"
  shows "HandlePlayerStatAddOpcodes b h = Inr (add_stat flag val h)"
proof -
  have "\<not> bb_size b < 9"
    using holds_size [OF assms(1)] by (simp add: wire_u8.enc_width wire_u32.enc_width)
  moreover obtain b1 where b1: "read_u8 b = Inr (m, b1)" "holds b1 [FU8 x, FU8 y, FU8 flag, FU8 val, FU32 z]"
    using read_u8_holds [OF assms(1)] by blast
  moreover obtain b2 where b2: "read_u8 b1 = Inr (x, b2)" "holds b2 [FU8 y, FU8 flag, FU8 val, FU32 z]"
    using read_u8_holds [OF b1(2)] by blast
  moreover obtain b3 where b3: "read_u8 b2 = Inr (y, b3)" "holds b3 [FU8 flag, FU8 val, FU32 z]"
    using read_u8_holds [OF b2(2)] by blast
  moreover obtain b4 where b4: "read_u8 b3 = Inr (flag, b4)" "holds b4 [FU8 val, FU32 z]"
    using read_u8_holds [OF b3(2)] by blast
  moreover obtain b5 where b5: "read_u8 b4 = Inr (val, b5)" "holds b5 [FU32 z]"
    using read_u8_holds [OF b4(2)] by blast
  moreover obtain b6 where "read_u32 b5 = Inr (z, b6)"
    using read_u32_holds [OF b5(2)] by blast
  ultimately show ?thesis using assms(2) by (simp add: HandlePlayerStatAddOpcodes_def)
qed

text \<open>C37: a packet that spends stat points is only refused without any point: whatever amount up to 255 it names is
  added to the stat in full, while the points fall by that amount at most to zero, so one point buys 255.
  No other field changes, and the client is told both new values.\<close>

theorem stat_points_overspent:
  assumes "holds b [FU8 m, FU8 x, FU8 y, FU8 flag, FU8 val, FU32 z]"
    and "flag_field flag \<noteq> 0" and "val \<noteq> 0" and "uget (h_unit h) UNIT_FIELD_STAT_POINT \<noteq> 0"
    and "unat (uget (h_unit h) UNIT_FIELD_STAT_POINT) < 2147483648" and "unat (uget (h_unit h) (flag_field flag)) + unat val < 2147483648"
  shows "\<exists>k. HandlePlayerStatAddOpcodes b h = Inr k \<and>
    unat (uget (h_unit k) (flag_field flag)) = unat (uget (h_unit h) (flag_field flag)) + unat val \<and>
    unat (uget (h_unit k) UNIT_FIELD_STAT_POINT) = unat (uget (h_unit h) UNIT_FIELD_STAT_POINT) - unat val \<and>
    (\<forall>i. i \<notin> {flag_field flag, UNIT_FIELD_STAT_POINT} \<longrightarrow> uget (h_unit k) i = uget (h_unit h) i) \<and>
    h_out k = h_out h @ (if h_session h then
      [(ToSession, 0x08, [FU8 1, FU8 UPD_FLAG_STAT_POINT, FU8 1, FU32 (uget (h_unit k) UNIT_FIELD_STAT_POINT), FU16 0, FU16 0]),
       (ToSession, 0x08, [FU8 1, FU8 flag, FU8 1, FU32 (uget (h_unit k) (flag_field flag)), FU16 0, FU16 0])] else [])"
proof -
  let ?k = "add_stat flag val h"
  have "flag_field flag \<noteq> UNIT_FIELD_STAT_POINT" using flag_field_cases [of flag] assms(2) by auto
  then have k: "u_vals (h_unit ?k) = (u_vals (h_unit h))
      (flag_field flag := ApplyModUInt32Var (uget (h_unit h) (flag_field flag)) (ucast val) True,
       UNIT_FIELD_STAT_POINT := ApplyModUInt32Var (uget (h_unit h) UNIT_FIELD_STAT_POINT) (ucast val) False)"
    using assms(2,3) by (simp add: add_stat_def updatePlayer_def say_session_def say_def Let_def)
  have "unat (ucast val :: u32) = unat val" "unat val < 2147483648" using unat_u8_u32 [of val] by simp_all
  then have "unat (ApplyModUInt32Var (uget (h_unit h) (flag_field flag)) (ucast val) True) = unat (uget (h_unit h) (flag_field flag)) + unat val"
    "unat (ApplyModUInt32Var (uget (h_unit h) UNIT_FIELD_STAT_POINT) (ucast val) False) = unat (uget (h_unit h) UNIT_FIELD_STAT_POINT) - unat val"
    using apply_add apply_sub assms(5,6) by simp_all
  moreover have "h_out ?k = h_out h @ (if h_session h then
      [(ToSession, 0x08, [FU8 1, FU8 UPD_FLAG_STAT_POINT, FU8 1, FU32 (uget (h_unit ?k) UNIT_FIELD_STAT_POINT), FU16 0, FU16 0]),
       (ToSession, 0x08, [FU8 1, FU8 flag, FU8 1, FU32 (uget (h_unit ?k) (flag_field flag)), FU16 0, FU16 0])] else [])"
    using assms(2,3) by (simp add: add_stat_def updatePlayer_def say_session_def say_def Let_def)
  ultimately show ?thesis
    using \<open>flag_field flag \<noteq> UNIT_FIELD_STAT_POINT\<close> HandlePlayerStatAdd_reads [OF assms(1,4)]
    by (intro exI [of _ ?k]) (simp add: k)
qed


definition spender :: hero where
  "spender = sample_hero\<lparr>h_unit := (uset UNIT_FIELD_STAT_POINT 1 (uset UNIT_FIELD_SPELL_POINT 1 (h_unit sample_hero)))\<lparr>u_spells :=
     [(12001, \<lparr>sp_entry = 12001, sp_level = 3, sp_state = SPELL_UNCHANGED\<rparr>)]\<rparr>,
     h_inv := (h_inv sample_hero)\<lparr>inv_queue := []\<rparr>, h_spellRows := [(12001, 3)]\<rparr>"

definition packet_with :: "field list \<Rightarrow> byte_buffer" where
  "packet_with fs = \<lparr>bb_rpos = 0, bb_wpos = 0, bb_storage = concat (map field_bytes fs)\<rparr>"

lemma packet_with_holds: "holds (packet_with fs) fs" "bb_rpos (packet_with fs) = 0"
  by (simp_all add: packet_with_def holds_def)

theorem stat_points_overspent_witness:
  "\<exists>k. HandlePlayerStatAddOpcodes (packet_with [FU8 1, FU8 0, FU8 0, FU8 UPD_FLAG_ATK, FU8 255, FU32 0]) spender = Inr k \<and>
    unat (uget (h_unit k) UNIT_FIELD_ATK) = 255 \<and> unat (uget (h_unit k) UNIT_FIELD_STAT_POINT) = 0"
proof -
  have "flag_field UPD_FLAG_ATK = UNIT_FIELD_ATK" by (simp add: flag_field_def)
  moreover have "uget (h_unit spender) UNIT_FIELD_STAT_POINT = 1" "uget (h_unit spender) UNIT_FIELD_ATK = 0"
    by (simp_all add: spender_def sample_hero_def sample_unit_def)
  ultimately show ?thesis
    using stat_points_overspent [OF packet_with_holds(1), of UPD_FLAG_ATK 255 spender 1 0 0 0] by auto
qed

subsection \<open>Spells\<close>

text \<open>What an entry does to a unit whose book is well-formed: it fails never.\<close>

definition spend :: "spell_db \<Rightarrow> u16 \<times> u8 \<Rightarrow> unit_rec \<Rightarrow> unit_rec" where
  "spend sdb = (\<lambda>(e, l) u. case raise_spell sdb e l u of Inr (Some v) \<Rightarrow> v | _ \<Rightarrow> u)"

text \<open>The book, the points and the rows of the table, between the entries of a packet.\<close>

definition growing :: "spell_db \<Rightarrow> (u16 \<times> u8) list \<Rightarrow> unit_rec \<Rightarrow> bool" where
  "growing sdb tab u \<longleftrightarrow> book_ok sdb u \<and> spell_rows_ok (u_spells u) tab \<and> fst ` set tab \<subseteq> fst ` set (u_spells u) \<and>
     unat (uget u UNIT_FIELD_SPELL_POINT) < 2147483648"

definition grown :: "unit_rec \<Rightarrow> unit_rec \<Rightarrow> bool" where
  "grown u v \<longleftrightarrow> u_type v = u_type u \<and> (\<forall>i. i \<noteq> UNIT_FIELD_SPELL_POINT \<longrightarrow> uget v i = uget u i) \<and>
     unat (uget v UNIT_FIELD_SPELL_POINT) \<le> unat (uget u UNIT_FIELD_SPELL_POINT) \<and>
     (\<forall>e. FindSpell u e \<noteq> None \<longrightarrow> FindSpell v e \<noteq> None)"

lemma grown_refl: "grown u u"
  by (simp add: grown_def)

lemma grown_trans: "grown u v \<Longrightarrow> grown v w \<Longrightarrow> grown u w"
  by (auto simp: grown_def elim!: le_trans)

lemma spell_allowed_frame: "uget v UNIT_FIELD_ELEMENT = uget u UNIT_FIELD_ELEMENT \<Longrightarrow> spell_allowed sdb v e = spell_allowed sdb u e"
  by (simp add: spell_allowed_def)

lemma book_ok_frame: "u_spells v = u_spells u \<Longrightarrow> uget v UNIT_FIELD_ELEMENT = uget u UNIT_FIELD_ELEMENT \<Longrightarrow> book_ok sdb v = book_ok sdb u"
  by (simp add: book_ok_def spell_allowed_frame [of v u])

lemma map_spell_find: "map_of (map_spell e f sps) k = (if k = e then map_option f (map_of sps k) else map_of sps k)"
  by (induction sps) (auto simp: map_spell_def)

lemma rows_ok_changed:
  assumes "spell_rows_ok sps tab"
  shows "spell_rows_ok (map_spell e (\<lambda>sp. sp\<lparr>sp_level := l, sp_state := SPELL_CHANGED\<rparr>) sps) tab"
  using assms by (force simp: spell_rows_ok_def map_spell_def split: if_splits)

lemma rows_ok_new:
  assumes "spell_rows_ok sps tab" and "fst ` set tab \<subseteq> fst ` set sps" and "e \<notin> fst ` set sps"
  shows "spell_rows_ok (sps @ [(e, \<lparr>sp_entry = e, sp_level = l, sp_state = SPELL_NEW\<rparr>)]) tab"
proof -
  have "rows_at e tab = []" using assms(2,3) by (force simp: rows_at_def filter_empty_conv)
  then show ?thesis using assms(1) by (auto simp: spell_rows_ok_def)
qed

lemma points_spent:
  fixes p c :: u32
  assumes "unat p < 2147483648" and "c \<le> p"
  shows "unat (ApplyModUInt32Var p c False) = unat p - unat c" and "unat (ApplyModUInt32Var p c False) < 2147483648"
proof -
  have "unat c < 2147483648" using assms by (simp add: word_le_nat_alt)
  then show "unat (ApplyModUInt32Var p c False) = unat p - unat c" using apply_sub assms(1) by blast
  then show "unat (ApplyModUInt32Var p c False) < 2147483648" using assms(1) by simp
qed

lemma isSpellLevelMaxed_total: "book_ok sdb u \<Longrightarrow> \<exists>m. isSpellLevelMaxed sdb e u = Inr m"
  using book_ok_find [of sdb u e] by (cases "FindSpell u e") (auto simp: isSpellLevelMaxed_def spell_allowed_def)

lemma raise_spell_grows:
  assumes "growing sdb tab u"
  shows "\<exists>q. raise_spell sdb e l u = Inr q \<and> (case q of None \<Rightarrow> True | Some v \<Rightarrow> growing sdb tab v \<and> grown u v)"
proof -
  have ok: "book_ok sdb u" "spell_rows_ok (u_spells u) tab" "fst ` set tab \<subseteq> fst ` set (u_spells u)"
    "unat (uget u UNIT_FIELD_SPELL_POINT) < 2147483648"
    using assms by (simp_all add: growing_def)
  show ?thesis
  proof (cases "HaveSpell e u")
    case False
    let ?cost = "GetSpellLearnPoint sdb e u"
    have new: "FindSpell u e = None" "e \<notin> fst ` set (u_spells u)"
      using False by (auto simp: HaveSpell_def FindSpell_def map_of_eq_None_iff)
    obtain ok' v where v: "AddSpell sdb e 1 SPELL_NEW u = Inr (ok', v)" using AddSpell_total [of sdb e 1 SPELL_NEW u] by blast
    show ?thesis
    proof (cases "?cost = 0 \<or> uget u UNIT_FIELD_SPELL_POINT < ?cost \<or> \<not> ok'")
      case True
      then show ?thesis using False v by (auto simp: raise_spell_def Let_def)
    next
      case learn: False
      let ?v = "uapply UNIT_FIELD_SPELL_POINT ?cost False v"
      have run: "raise_spell sdb e l u = Inr (Some ?v)" using False learn v by (simp add: raise_spell_def Let_def)
      have sp: "u_spells v = u_spells u @ [(e, \<lparr>sp_entry = e, sp_level = 1, sp_state = SPELL_NEW\<rparr>)]" "u_vals v = u_vals u" "u_type v = u_type u"
        using v learn new(1) by (auto simp: AddSpell_cases split: if_splits)
      have b: "book_ok sdb ?v"
        using AddSpell_ok [OF ok(1) v] book_ok_frame [of ?v v sdb] by simp
      have le: "?cost \<le> uget u UNIT_FIELD_SPELL_POINT" using learn by (simp add: not_less)
      have p: "unat (uget ?v UNIT_FIELD_SPELL_POINT) \<le> unat (uget u UNIT_FIELD_SPELL_POINT)"
        "unat (uget ?v UNIT_FIELD_SPELL_POINT) < 2147483648"
        using points_spent [OF ok(4) le] by (simp_all add: sp(2))
      have "growing sdb tab ?v"
        using b p(2) rows_ok_new [OF ok(2,3) new(2), of 1] ok(3) by (auto simp: growing_def sp(1))
      moreover have "grown u ?v"
        using p(1) by (auto simp: grown_def sp FindSpell_def map_add_def split: option.splits)
      ultimately show ?thesis using run by simp
    qed
  next
    case True
    obtain m where m: "isSpellLevelMaxed sdb e u = Inr m" using isSpellLevelMaxed_total [OF ok(1)] by blast
    show ?thesis
    proof (cases "uget u UNIT_FIELD_SPELL_POINT = 0 \<or> m \<or> GetSpellLevel e u = l")
      case no: True
      then show ?thesis using True m by (auto simp: raise_spell_def)
    next
      case set: False
      let ?v = "uapply UNIT_FIELD_SPELL_POINT 1 False (SetSpellLevel e l u)"
      have run: "raise_spell sdb e l u = Inr (Some ?v)" using True set m by (simp add: raise_spell_def)
      have vals: "u_vals (SetSpellLevel e l u) = u_vals u" "u_type (SetSpellLevel e l u) = u_type u"
        by (simp_all add: SetSpellLevel_def split: option.split)
      have one: "1 \<le> uget u UNIT_FIELD_SPELL_POINT" using set by (simp add: word_le_nat_alt Suc_le_eq unat_gt_0)
      have p: "unat (uget ?v UNIT_FIELD_SPELL_POINT) \<le> unat (uget u UNIT_FIELD_SPELL_POINT)"
        "unat (uget ?v UNIT_FIELD_SPELL_POINT) < 2147483648"
        using points_spent [OF ok(4) one] by (simp_all add: vals)
      have b: "book_ok sdb ?v" using SetSpellLevel_ok [OF ok(1), of e l] book_ok_frame [of ?v "SetSpellLevel e l u" sdb] by simp
      have tab: "spell_rows_ok (u_spells ?v) tab" "fst ` set (u_spells ?v) = fst ` set (u_spells u)"
        using rows_ok_changed [OF ok(2)] ok(2) map_spell_keys [of e _ "u_spells u"]
        by (auto simp: SetSpellLevel_def simp flip: set_map split: option.splits)
      have "growing sdb tab ?v" using b tab p(2) ok(3) by (simp add: growing_def)
      moreover have "grown u ?v"
        using p(1) by (auto simp: grown_def vals) (auto simp: SetSpellLevel_def FindSpell_def map_spell_find split: option.splits if_splits)
      ultimately show ?thesis using run by simp
    qed
  qed
qed

definition spell_fields :: "(u16 \<times> u8) list \<Rightarrow> field list" where
  "spell_fields es = concat (map (\<lambda>(e, l). [FU16 e, FU8 l]) es)"

lemma spell_fields_length: "length (concat (map field_bytes (spell_fields es))) = 3 * length es"
  by (induction es) (auto simp: spell_fields_def wire_u8.enc_width wire_u16.enc_width)

lemma spell_entry_own:
  assumes "growing sdb tab (h_unit h)"
  shows "\<exists>out. spell_entry sdb None s e l h = Inr (h\<lparr>h_unit := spend sdb (e, l) (h_unit h), h_out := out\<rparr>)"
proof -
  obtain q where q: "raise_spell sdb e l (h_unit h) = Inr q" using raise_spell_grows [OF assms] by blast
  show ?thesis
  proof (cases q)
    case None
    then show ?thesis using q by (intro exI [of _ "h_out h"]) (simp add: spell_entry_def spell_unit_def spend_def)
  next
    case (Some v)
    let ?k = "announce_spell s v e l (h\<lparr>h_unit := v\<rparr>)"
    have "?k = (h\<lparr>h_unit := v\<rparr>)\<lparr>h_out := h_out ?k\<rparr>"
      by (simp add: announce_spell_def updatePlayer_def updatePet_def say_session_def say_def)
    then show ?thesis
      using q Some by (intro exI [of _ "h_out ?k"]) (simp add: spell_entry_def spell_unit_def set_spell_unit_def spend_def)
  qed
qed

lemma spend_grows:
  assumes "growing sdb tab u"
  shows "growing sdb tab (spend sdb x u) \<and> grown u (spend sdb x u)"
  using raise_spell_grows [OF assms, of "fst x" "snd x"] assms grown_refl
  by (auto simp: spend_def split: prod.split option.splits)

lemma spend_all_grows:
  "growing sdb tab u \<Longrightarrow> growing sdb tab (fold (spend sdb) es u) \<and> grown u (fold (spend sdb) es u)"
proof (induction es arbitrary: u)
  case Nil
  then show ?case by (simp add: grown_refl)
next
  case (Cons x es)
  then show ?case using spend_grows [OF Cons.prems, of x] grown_trans by (auto split: prod.split)
qed

lemma spell_entries_own:
  assumes "holds b (spell_fields es)" and "growing sdb tab (h_unit h)"
  shows "\<exists>out. spell_entries sdb None s (length es) b h = Inr (h\<lparr>h_unit := fold (spend sdb) es (h_unit h), h_out := out\<rparr>)"
  using assms
proof (induction es arbitrary: b h)
  case Nil
  then show ?case by (intro exI [of _ "h_out h"]) simp
next
  case (Cons x es)
  obtain e l where x: "x = (e, l)" by fastforce
  have b: "holds b (FU16 e # FU8 l # spell_fields es)" using Cons.prems(1) by (simp add: spell_fields_def x)
  obtain b1 where b1: "read_u16 b = Inr (e, b1)" "holds b1 (FU8 l # spell_fields es)" using read_u16_holds [OF b] by blast
  obtain b2 where b2: "read_u8 b1 = Inr (l, b2)" "holds b2 (spell_fields es)" using read_u8_holds [OF b1(2)] by blast
  obtain out where one: "spell_entry sdb None s e l h = Inr (h\<lparr>h_unit := spend sdb (e, l) (h_unit h), h_out := out\<rparr>)"
    using spell_entry_own [OF Cons.prems(2)] by blast
  let ?h = "h\<lparr>h_unit := spend sdb (e, l) (h_unit h), h_out := out\<rparr>"
  have "growing sdb tab (h_unit ?h)" using spend_grows [OF Cons.prems(2), of "(e, l)"] by simp
  from Cons.IH [OF b2(2) this] show ?case using b1(1) b2(1) one by (auto simp: x)
qed

text \<open>Nothing but the spells waits to be written, and the database stores the rows of the player.\<close>

definition idle_hero :: "hero \<Rightarrow> bool" where
  "idle_hero h \<longleftrightarrow> h_session h \<and> h_petQueue h = [] \<and> \<not> h_petBlocked h \<and> inv_queue (h_inv h) = [] \<and> \<not> inv_blocked (h_inv h) \<and>
     row_accepted h"

lemma SaveToDB_idle:
  assumes "idle_hero h" and "growing sdb (h_spellRows h) (h_unit h)"
  shows "\<exists>k. SaveToDB_player idb h = Inr k \<and> h_unit k = (h_unit h)\<lparr>u_spells := kept (u_spells (h_unit h))\<rparr> \<and>
    mset (h_spellRows k) = mset (levels (kept (u_spells (h_unit h)))) \<and> h_row k = Some (char_row_of h)"
proof -
  let ?book = "u_spells (h_unit h)"
  have none: "filter (\<lambda>(k, _). k \<notin> fst ` set ?book) (h_spellRows h) = []"
    using assms(2) by (force simp: growing_def filter_empty_conv)
  obtain r where r: "fold save_spell ?book (?book, h_spellRows h) = (kept ?book, r)" "mset r = mset (levels (kept ?book))"
    using fold_save_spell [of "[]" ?book "h_spellRows h"] assms(2) unfolding none by (auto simp: growing_def book_ok_def)
  then show ?thesis
    using assms(1) accepted_transaction [of h]
    by (simp add: SaveToDB_player_def idle_hero_def SavePets_def SaveInventory_def on_inv_def SaveSpells_def)
qed

lemma spell_packet_run:
  assumes "holds b (FU8 1 # spell_fields es)" and "bb_rpos b = 0" and "es \<noteq> []" and "length es < 256"
    and "idle_hero h" and "growing sdb (h_spellRows h) (h_unit h)" and "uget (h_unit h) UNIT_FIELD_SPELL_POINT \<noteq> 0"
  shows "\<exists>k. HandlePlayerSpellAddOpcodes sdb idb b h = Inr k \<and>
    (let v = fold (spend sdb) es (h_unit h) in
      h_unit k = v\<lparr>u_spells := kept (u_spells v)\<rparr> \<and> mset (h_spellRows k) = mset (levels (u_spells (h_unit k))) \<and>
      h_row k = Some (h_account h, h_name h, h_map h, h_x h, h_y h, u_vals v))"
proof -
  have size: "bb_size b = 1 + 3 * length es"
    using assms(1,2) spell_fields_length [of es] by (simp add: holds_def bb_size_def wire_u8.enc_width)
  have n: "unat (of_nat (length es) :: u8) = length es" using assms(4) by (intro unat_of_nat_small) simp
  then have n0: "(of_nat (length es) :: u8) \<noteq> 0" using assms(3) by (metis length_0_conv unat_0)
  obtain b1 where b1: "read_u8 b = Inr (1, b1)" "holds b1 (spell_fields es)" using read_u8_holds [OF assms(1)] by blast
  obtain out where out: "spell_entries sdb None 0 (length es) b1 h = Inr (h\<lparr>h_unit := fold (spend sdb) es (h_unit h), h_out := out\<rparr>)"
    using spell_entries_own [OF b1(2) assms(6)] by blast
  let ?h = "h\<lparr>h_unit := fold (spend sdb) es (h_unit h), h_out := out\<rparr>"
  have "idle_hero ?h" "growing sdb (h_spellRows ?h) (h_unit ?h)"
    using assms(5) spend_all_grows [OF assms(6), of es] by (simp_all add: idle_hero_def row_accepted_def)
  from SaveToDB_idle [OF this, of idb] obtain k where k: "SaveToDB_player idb ?h = Inr k"
    "h_unit k = (h_unit ?h)\<lparr>u_spells := kept (u_spells (h_unit ?h))\<rparr>"
    "mset (h_spellRows k) = mset (levels (kept (u_spells (h_unit ?h))))" "h_row k = Some (char_row_of ?h)" by blast
  have "\<not> bb_size b < 4" using size assms(3) by (cases es) simp_all
  then have "HandlePlayerSpellAddOpcodes sdb idb b h = add_spells sdb idb None 0 (length es) b1 h"
    using size n n0 b1(1) by (simp add: HandlePlayerSpellAddOpcodes_def)
  also have "\<dots> = Inr k" using assms(7) out k(1) by (simp add: add_spells_def spell_unit_def)
  finally show ?thesis using k(2-4) by (simp add: Let_def char_row_of_def)
qed


lemma kept_find:
  "distinct (map fst sps) \<Longrightarrow> map_of sps e = Some sp \<Longrightarrow> sp_state sp \<noteq> SPELL_REMOVED \<Longrightarrow>
   map_of (kept sps) e = Some (sp\<lparr>sp_state := SPELL_UNCHANGED\<rparr>)"
  by (induction sps) (auto simp: kept_def split: if_splits)

text \<open>C38: the packet is not held to the level or to the cost of a spell the player knows: as long as the spell is below
  its maximum, one point sets it to any level, beyond the maximum too, and the table gets that level with the save of a player
  whose row the database stores.\<close>

theorem spell_any_level:
  assumes "holds b [FU8 1, FU16 e, FU8 l]" and "bb_rpos b = 0"
    and "idle_hero h" and "growing sdb (h_spellRows h) (h_unit h)" and "uget (h_unit h) UNIT_FIELD_SPELL_POINT \<noteq> 0"
    and "FindSpell (h_unit h) e = Some sp" and "e \<noteq> SPELL_BASIC" and "sdb e = Some info" and "ucast (sp_level sp) < si_LevelMax info"
    and "l \<noteq> 0" and "l \<noteq> sp_level sp"
  shows "\<exists>k. HandlePlayerSpellAddOpcodes sdb idb b h = Inr k \<and>
    unat (uget (h_unit k) UNIT_FIELD_SPELL_POINT) = unat (uget (h_unit h) UNIT_FIELD_SPELL_POINT) - 1 \<and>
    map_option sp_level (FindSpell (h_unit k) e) = Some l \<and> (e, l) \<in> set (h_spellRows k)"
proof -
  let ?u = "h_unit h"
  have e: "sp_entry sp = e" "e \<noteq> 0" using assms(4,6) by (auto simp: growing_def book_ok_def dest!: FindSpell_in)
  let ?v = "uapply UNIT_FIELD_SPELL_POINT 1 False (SetSpellLevel e l ?u)"
  have "isSpellLevelMaxed sdb e ?u = Inr False"
    using assms(6-9) e by (simp add: isSpellLevelMaxed_def not_le)
  then have v: "spend sdb (e, l) ?u = ?v"
    using assms(5-7,11) by (simp add: spend_def raise_spell_def HaveSpell_def GetSpellLevel_def)
  have one: "1 \<le> uget ?u UNIT_FIELD_SPELL_POINT" using assms(5) by (simp add: word_le_nat_alt Suc_le_eq unat_gt_0)
  have lt: "unat (uget ?u UNIT_FIELD_SPELL_POINT) < 2147483648" using assms(4) by (simp add: growing_def)
  have p: "unat (uget ?v UNIT_FIELD_SPELL_POINT) = unat (uget ?u UNIT_FIELD_SPELL_POINT) - 1"
    using points_spent(1) [OF lt one] by (simp add: SetSpellLevel_def split: option.split)
  have book: "distinct (map fst (u_spells ?v))"
    using spend_grows [OF assms(4), of "(e, l)"] by (simp add: v growing_def book_ok_def)
  have "map_of (u_spells ?v) e = Some (sp\<lparr>sp_level := l, sp_state := SPELL_CHANGED\<rparr>)"
    using assms(6,10) e by (simp add: SetSpellLevel_def map_spell_find) (simp add: FindSpell_def)
  from kept_find [OF book this] have f: "map_of (kept (u_spells ?v)) e = Some (sp\<lparr>sp_level := l, sp_state := SPELL_UNCHANGED\<rparr>)" by simp
  have h: "holds b (FU8 1 # spell_fields [(e, l)])" using assms(1) by (simp add: spell_fields_def)
  obtain k where k: "HandlePlayerSpellAddOpcodes sdb idb b h = Inr k" "h_unit k = ?v\<lparr>u_spells := kept (u_spells ?v)\<rparr>"
    "mset (h_spellRows k) = mset (levels (u_spells (h_unit k)))"
    using spell_packet_run [OF h assms(2) _ _ assms(3-5), of idb] by (auto simp: v Let_def)
  have "(e, l) \<in> set (levels (kept (u_spells ?v)))" using map_of_SomeD [OF f] by (force simp: levels_def)
  then have "(e, l) \<in> set (h_spellRows k)" using mset_eq_setD [OF k(3)] k(2) by simp
  then show ?thesis using k(1,2) p f by (simp add: FindSpell_def)
qed

lemma spender_grows: "growing sample_sdb (h_spellRows spender) (h_unit spender)" "idle_hero spender"
  by (simp_all add: growing_def spender_def book_ok_def spell_rows_ok_def rows_at_def spell_allowed_def sample_sdb_def sample_hero_def
      sample_unit_def opposite_element_def idle_hero_def sample_inv_def row_accepted_def)

lemma spender_points: "uget (h_unit spender) UNIT_FIELD_SPELL_POINT \<noteq> 0"
  by (simp add: spender_def sample_hero_def sample_unit_def)


theorem spell_any_level_witness:
  "\<exists>k. HandlePlayerSpellAddOpcodes sample_sdb sample_idb (packet_with [FU8 1, FU16 12001, FU8 255]) spender = Inr k \<and>
    (12001, 255) \<in> set (h_spellRows k)"
proof -
  obtain info where info: "sample_sdb 12001 = Some info" "si_LevelMax info = 10" by (simp add: sample_sdb_def)
  have sp: "FindSpell (h_unit spender) 12001 = Some \<lparr>sp_entry = 12001, sp_level = 3, sp_state = SPELL_UNCHANGED\<rparr>"
    by (simp add: spender_def FindSpell_def)
  show ?thesis
    using spell_any_level [OF packet_with_holds [of "[FU8 1, FU16 12001, FU8 255]"] spender_grows(2,1) spender_points sp _ info(1), of sample_idb]
    by (auto simp: info(2))
qed

end
