(* ===== verification/CreationFacts.thy ===== *)
theory CreationFacts
  imports Creation GrowthFacts LoadedBag
begin

text \<open>What creating a character leaves in the tables, and what it does not check.\<close>

subsection \<open>Reading the packet\<close>

lemma read_n_holds:
  "holds b (map FU8 vs @ fs) \<Longrightarrow> \<exists>b'. op_read_n dec_u8 1 (length vs) b = Inr (vs, b') \<and> holds b' fs \<and> bb_storage b' = bb_storage b"
proof (induction vs arbitrary: b)
  case Nil
  then show ?case by simp
next
  case (Cons v vs)
  obtain b1 where b1: "read_u8 b = Inr (v, b1)" "holds b1 (map FU8 vs @ fs)" "bb_storage b1 = bb_storage b"
    using read_u8_holds [of b v "map FU8 vs @ fs"] Cons.prems by auto
  then show ?case using Cons.IH [OF b1(2)] by (auto simp: read_u8_def)
qed

lemma read_chars_holds:
  "holds b (map FU8 cs @ fs) \<Longrightarrow> i \<le> 100 \<Longrightarrow>
   (if i + length cs \<le> 100
    then \<exists>b'. read_chars i (length cs) b = Inr (cs, b') \<and> holds b' fs \<and> bb_storage b' = bb_storage b
    else read_chars i (length cs) b = Inl OutOfBounds)"
proof (induction cs arbitrary: b i)
  case Nil
  then show ?case by simp
next
  case (Cons c cs)
  obtain b1 where b1: "read_u8 b = Inr (c, b1)" "holds b1 (map FU8 cs @ fs)" "bb_storage b1 = bb_storage b"
    using read_u8_holds [of b c "map FU8 cs @ fs"] Cons.prems by auto
  show ?case
  proof (cases "i = 100")
    case True
    then show ?thesis using b1(1) by simp
  next
    case False
    then have "i + 1 \<le> 100" using Cons.prems(2) by simp
    from Cons.IH [OF b1(2) this] show ?thesis using b1 False Cons.prems(2) by (auto split: if_splits)
  qed
qed

text \<open>A password with its length in front.\<close>

definition password_fields :: "bytes \<Rightarrow> field list" where
  "password_fields p = FU8 (of_nat (length p)) # map FU8 p"

lemma field_bytes_u8s [simp]: "length (concat (map (field_bytes \<circ> FU8) cs)) = length cs"
  by (induction cs) (simp_all add: wire_u8.enc_width)

lemma read_password_holds:
  assumes "holds b (password_fields p @ fs)" and "length p < 256"
  shows "if length p \<le> 100 then \<exists>b'. read_password b = Inr (Some p, b') \<and> holds b' fs else read_password b = Inl OutOfBounds"
proof -
  obtain b1 where b1: "read_u8 b = Inr (of_nat (length p), b1)" "holds b1 (map FU8 p @ fs)"
    using read_u8_holds [of b "of_nat (length p)" "map FU8 p @ fs"] assms(1) by (auto simp: password_fields_def)
  have n: "unat (of_nat (length p) :: u8) = length p" using assms(2) by (intro unat_of_nat_small) simp
  have "length p \<le> bb_size b1"
    using holds_size [OF b1(2)] by simp
  then show ?thesis
    using b1 n read_chars_holds [OF b1(2), of 0] by (auto simp: read_password_def split: if_splits)
qed

definition create_fields :: "u8 list \<Rightarrow> bytes \<Rightarrow> bytes \<Rightarrow> field list" where
  "create_fields vs p1 p2 = map FU8 vs @ password_fields p1 @ password_fields p2"

definition created_unit :: "u32 \<Rightarrow> u8 list \<Rightarrow> unit_rec" where
  "created_unit guid vs = uset_all no_points (refill (uset_all (look_of vs) (fresh_object guid HIGHGUID_PLAYER blank_player_unit)))"

lemma Player_Create_holds:
  assumes "holds b (create_fields vs p1 p2)" and "length vs = 19" "length p1 < 256" "length p2 < 256"
    and "name = c # cs" and "h_unit h = blank_player_unit"
  shows "Player_Create guid name b h =
    (if length p1 \<le> 100 \<and> length p2 \<le> 100
     then Inr (Some (p1, p2), h\<lparr>h_unit := created_unit guid vs, h_name := toupper c # map tolower cs,
       h_inv := (h_inv h)\<lparr>inv_guid := MAKE_GUID guid HIGHGUID_PLAYER\<rparr>, h_map := 10816, h_x := 442, h_y := 758\<rparr>)
     else Inl OutOfBounds)"
proof -
  obtain b1 where b1: "read_look b = Inr (vs, b1)" "holds b1 (password_fields p1 @ password_fields p2)"
    using read_n_holds [of b vs "password_fields p1 @ password_fields p2"] assms(1,2) by (auto simp: create_fields_def read_look_def)
  show ?thesis
  proof (cases "length p1 \<le> 100")
    case False
    then show ?thesis
      using read_password_holds [OF b1(2) assms(3)] b1(1) assms(5) by (simp add: Player_Create_def normalizePlayerName_def)
  next
    case True
    then obtain b2 where b2: "read_password b1 = Inr (Some p1, b2)" "holds b2 (password_fields p2 @ [])"
      using read_password_holds [OF b1(2) assms(3)] by auto
    show ?thesis
      using read_password_holds [OF b2(2) assms(4)] b1(1) b2(1) assms(5,6) True
      by (auto simp: Player_Create_def normalizePlayerName_def Let_def created_unit_def)
  qed
qed

subsection \<open>The first clothes\<close>

lemma can_equip_created:
  assumes "inv_ok idb s" and "idb e = Some p" and "unat slot < 6"
    and "h_inv h = put_item (inv_next s) (new_item g gu e n) (counted s)"
  shows "\<exists>r d. CanEquipItem idb slot (Some (inv_next s)) False h = Inr (r, d) \<and>
    (r = EQUIP_ERR_OK \<longrightarrow> d = slot \<and> inv_slots s ! unat slot = None)"
proof -
  let ?i = "inv_next s" and ?it = "new_item g gu e n"
  note ok = inv_okD [OF assms(1)]
  have len: "length (inv_slots s) = 145" by (rule slots_ok_length [OF ok(3)])
  have none: "inv_heap s ?i = None" by (rule fresh_None [OF ok(5)]) simp
  have not_in: "\<forall>k < 145. inv_slots (h_inv h) ! k \<noteq> Some ?i"
    using ok(3) none unfolding slots_ok_def assms(4) by (fastforce simp: put_item_def)
  have live: "live_slots ks (h_inv h)" if "set ks \<subseteq> {..<145}" for ks
    using live_slotsI [OF ok(3) that] unfolding live_slots_def assms(4) by (auto simp: put_item_def)
  have sub: "set [0..<35] \<subseteq> {..<145}" "set [70..<120] \<subseteq> {..<145}" by auto
  have no: "\<forall>k \<in> set ks. inv_slots (h_inv h) ! k \<noteq> Some ?i \<or> Some ?i = None" if "set ks \<subseteq> {..<145}" for ks
    using not_in that by blast
  note c = count_slots_eq [OF live [OF sub(1)] no [OF sub(1)]] count_slots_eq [OF live [OF sub(2)] no [OF sub(2)]]
  have item: "get_item ?i (h_inv h) = Inr ?it" "it_entry ?it = e"
    by (simp_all add: assms(4) get_item_def put_item_def new_item_def)
  have "\<exists>r. CanTakeMoreSimilarItems idb ?i (h_inv h) = Inr r"
    using item assms(2) c [of "ip_ItemId p" 0]
    by (cases "ip_MaxCount p = 0") (simp_all add: CanTakeMoreSimilarItems_def GetItemCount_def GetBankItemCount_def del: upt_Suc upt_rec_numeral)
  then obtain r where r: "CanTakeMoreSimilarItems idb ?i (h_inv h) = Inr r" ..
  have ns: "ucast slot \<noteq> (ucast NULL_SLOT :: u32)" "slot \<noteq> NULL_SLOT"
  proof -
    show "slot \<noteq> NULL_SLOT" using assms(3) by auto
    then show "ucast slot \<noteq> (ucast NULL_SLOT :: u32)" by (metis narrow_widen)
  qed
  have look: "GetItemByPos (unat slot) (h_inv h) = Inr (inv_slots s ! unat slot)"
    using assms(3) len by (simp add: assms(4) GetItemByPos_def put_item_def)
  have same: "ucast x = (ucast slot :: u32) \<longleftrightarrow> x = slot" for x :: u8
    by (metis narrow_widen)
  have find: "FindEquipSlot p (ucast slot) False h =
      Inr (if equip_slot_of (ip_InventoryType p) = Some slot \<and> inv_slots s ! unat slot = None then slot else NULL_SLOT)"
    using ns look same by (auto simp: FindEquipSlot_def find_equip_slot_def narrow_widen split: option.splits)
  show ?thesis
    using item assms(2) r find ns(2)
    by (cases "r = EQUIP_ERR_OK") (simp_all add: CanEquipItem_def can_equip_def Let_def)
qed

lemma VisualizeItem_store:
  assumes "GetItemByPos (unat pos) (h_inv h) = Inr None" and "StoreItem (unat pos) (Some i) False (h_inv h) = Inr (Some i, t)"
  shows "VisualizeItem pos i h = Inr (h\<lparr>h_inv := t\<rparr>)"
proof -
  have w: "of_nat (unat pos) = pos" by simp
  show ?thesis
    using assms by (auto simp: VisualizeItem_def StoreItem_def on_inv_def bindR_eq_Inr w)
qed

lemma first_shirt_ok:
  assumes "inv_ok idb (h_inv h)" and "length (inv_queue (h_inv h)) < 32767" and "unat (inv_hiGuid (h_inv h)) + 2 < 2 ^ 32"
    and "\<forall>p. idb 864 = Some p \<longrightarrow> unat (ucast (ip_EquipmentSlot p) :: u8) < 6"
  shows "\<exists>t. first_shirt idb h = Inr (h\<lparr>h_inv := t\<rparr>) \<and> inv_ok idb t \<and>
    length (inv_queue t) \<le> Suc (length (inv_queue (h_inv h))) \<and> unat (inv_hiGuid t) \<le> unat (inv_hiGuid (h_inv h)) + 1"
proof (cases "idb 864")
  case None
  then show ?thesis using assms(1) by (intro exI [of _ "h_inv h"]) (simp add: first_shirt_def CreateItem_def)
next
  case (Some p)
  let ?s = "h_inv h"
  let ?i = "inv_next ?s" and ?c = "clamp_count (ip_Stackable p) 1" and ?slot = "ucast (ip_EquipmentSlot p) :: u8"
  let ?t0 = "put_item ?i (new_item (inv_guid ?s) (inv_hiGuid ?s + 1) 864 ?c) (counted ?s)"
  let ?h = "h\<lparr>h_inv := ?t0\<rparr>"
  have small: "unat ?slot < 6" using Some assms(4) by simp
  have hi: "unat (inv_hiGuid ?s + 1) = unat (inv_hiGuid ?s) + 1" using assms(3) by (simp add: unat_word_ariths)
  have u: "inv_ok idb (counted ?s)" using inv_ok_counted [OF assms(1)] assms(3) by simp
  have none: "inv_heap ?s ?i = None" by (rule fresh_None [OF inv_okD(5) [OF assms(1)]]) simp
  obtain r d where rd: "CanEquipItem idb ?slot (Some ?i) False ?h = Inr (r, d)"
    "r = EQUIP_ERR_OK \<longrightarrow> d = ?slot \<and> inv_slots ?s ! unat ?slot = None"
    using can_equip_created [OF assms(1) Some small, of ?h "inv_guid ?s" "inv_hiGuid ?s + 1" ?c] by auto
  have proto: "need_proto idb ?i ?h = Inr p"
    using Some by (simp add: need_proto_def get_item_def put_item_def new_item_def)
  have start: "first_shirt idb h = (if r = EQUIP_ERR_OK then EquipItem idb d (Some ?i) ?h else Inr (h\<lparr>h_inv := delete_item ?i ?t0\<rparr>))"
    using rd(1) proto by (simp add: first_shirt_def CreateItem_Some [where idb = idb and entry = 864 and p = p, OF Some])
  show ?thesis
  proof (cases "r = EQUIP_ERR_OK")
    case False
    have "delete_item ?i ?t0 = counted ?s"
      using none by (simp add: delete_item_def put_item_def counted_def fun_upd_idem)
    then show ?thesis using start False u hi by (intro exI [of _ "counted ?s"]) simp
  next
    case True
    then have d: "d = ?slot" "inv_slots ?s ! unat ?slot = None" using rd(2) by simp_all
    have len: "length (inv_slots ?s) = 145" by (rule slots_ok_length [OF inv_okD(3) [OF assms(1)]])
    have g: "it_guid x \<noteq> inv_hiGuid ?s + 1" if "inv_heap (counted ?s) j = Some x" for j x
      using that inv_okD(5) [OF assms(1)] hi by (fastforce simp: fresh_ok_def word_le_nat_alt)
    have e: "idb 864 \<noteq> None" using Some by simp
    have k: "unat ?slot < 145" "inv_slots (counted ?s) ! unat ?slot = None" using small d(2) by simp_all
    have i: "inv_heap (counted ?s) ?i = None" "?i < inv_next (counted ?s)" using none by simp_all
    have le: "inv_hiGuid ?s + 1 \<le> inv_hiGuid (counted ?s)" and room: "length (inv_queue (counted ?s)) < 32767" using assms(2) by simp_all
    have "\<exists>t. StoreItem (unat ?slot) (Some ?i) False (put_item ?i (new_item (inv_guid (counted ?s)) (inv_hiGuid ?s + 1) 864 ?c) (counted ?s)) =
        Inr (Some ?i, t) \<and> inv_ok idb t \<and> abs_bag t = (abs_bag (counted ?s))(unat ?slot \<mapsto> (864, ?c)) \<and>
        length (inv_queue t) \<le> Suc (length (inv_queue (counted ?s))) \<and> inv_hiGuid t = inv_hiGuid (counted ?s) \<and>
        inv_guid t = inv_guid (counted ?s)"
      by (rule store_empty [OF u i _ le e k room]) (rule g)
    then obtain t where t: "StoreItem (unat ?slot) (Some ?i) False ?t0 = Inr (Some ?i, t)" "inv_ok idb t"
      "length (inv_queue t) \<le> Suc (length (inv_queue (counted ?s)))" "inv_hiGuid t = inv_hiGuid (counted ?s)"
      by auto
    have pos: "GetItemByPos (unat ?slot) (h_inv ?h) = Inr None"
      using d(2) small len by (simp add: GetItemByPos_def put_item_def)
    have "EquipItem idb d (Some ?i) ?h = Inr (h\<lparr>h_inv := t\<rparr>)"
      using VisualizeItem_store [of ?slot ?h ?i t] pos t(1) proto by (simp add: EquipItem_def d(1))
    then show ?thesis using start True t(2-4) hi by (intro exI [of _ t]) simp
  qed
qed

lemma add_gear_ok:
  assumes "inv_ok idb (h_inv h)" and "length (inv_queue (h_inv h)) < 32767" and "unat (inv_hiGuid (h_inv h)) + 2 < 2 ^ 32"
  shows "\<exists>cache' t. add_gear idb query m (cache, h) = Inr (cache', h\<lparr>h_inv := t\<rparr>) \<and> inv_ok idb t \<and>
    length (inv_queue t) \<le> Suc (length (inv_queue (h_inv h))) \<and> unat (inv_hiGuid t) \<le> unat (inv_hiGuid (h_inv h)) + 2"
proof -
  obtain entry cache' where e: "GetItemEntryByModelId query m cache = (entry, cache')" by fastforce
  show ?thesis
    using add_new_item_refines [OF assms, of entry 1] e by (auto simp: add_gear_def AddNewInventoryItem_def)
qed

lemma all_gear_ok:
  assumes "inv_ok idb (h_inv h)" and "length (inv_queue (h_inv h)) + length ms \<le> 32767"
    and "unat (inv_hiGuid (h_inv h)) + 2 * length ms < 2 ^ 32"
  shows "\<exists>cache' t. foldR (add_gear idb query) ms (cache, h) = Inr (cache', h\<lparr>h_inv := t\<rparr>) \<and> inv_ok idb t"
  using assms
proof (induction ms arbitrary: cache h)
  case Nil
  then show ?case by (intro exI [of _ cache] exI [of _ "h_inv h"]) simp
next
  case (Cons m ms)
  have "length (inv_queue (h_inv h)) < 32767" "unat (inv_hiGuid (h_inv h)) + 2 < 2 ^ 32" using Cons.prems by simp_all
  from add_gear_ok [OF Cons.prems(1) this, of query m cache] obtain cache' t where
    t: "add_gear idb query m (cache, h) = Inr (cache', h\<lparr>h_inv := t\<rparr>)" "inv_ok idb t"
    "length (inv_queue t) \<le> Suc (length (inv_queue (h_inv h)))" "unat (inv_hiGuid t) \<le> unat (inv_hiGuid (h_inv h)) + 2" by blast
  then show ?case using Cons.IH [of "h\<lparr>h_inv := t\<rparr>" cache'] Cons.prems(2,3) by auto
qed

subsection \<open>The character\<close>

lemma new_player_inv_ok:
  assumes "inv_rows (h_inv db) = Map.empty" and "inv_instances (h_inv db) = Map.empty"
  shows "inv_ok idb ((h_inv (new_player account db))\<lparr>inv_guid := g\<rparr>)"
  using assms
  by (simp add: new_player_def inv_ok_def queue_ok_def persist_ok_def guids_ok_def slots_ok_def placed_ok_def fresh_ok_def known_ok_def)

lemma look_kept:
  assumes "(i, v) \<in> set (look_of vs)"
  shows "uget (created_unit guid vs) i = v"
  using assms by (auto simp: created_unit_def look_of_def uset_all_def no_points_def refill_def Let_def)

definition name_answer :: "(bytes \<Rightarrow> bool) \<Rightarrow> byte_buffer \<Rightarrow> outgoing" where
  "name_answer taken b = (ToSession, 0x09, [FU8 3, FU8 (if taken (fst (op_read_string [] b)) then 1 else 0)])"

text \<open>C19: a character is created with the name of the last packet that chose one, also when the answer to that packet
  was that the name is taken, and with the look and the stats the packet names, whatever they are: the first
  clothes are added, the name is used up, and the row is written with the name as it is. A database that
  stores plain rows has this row then if the name is plain; one that refuses it, as it may for a
  name with a quote, keeps no character, and nobody is told. A password of more than 100 bytes is
  written behind the array it is copied through.\<close>

theorem character_created:
  assumes "1 \<le> bb_size b1" and "fst (op_read_string [] b1) = x # xs"
    and "holds b2 (FU8 1 # create_fields vs p1 p2)" and "length vs = 19" "length p1 < 256" "length p2 < 256"
    and "inv_rows (h_inv (cr_db c)) = Map.empty" "inv_instances (h_inv (cr_db c)) = Map.empty"
    and "unat (inv_hiGuid (h_inv (cr_db c))) + 12 < 2 ^ 32"
    and "\<forall>p. idb 864 = Some p \<longrightarrow> unat (ucast (ip_EquipmentSlot p) :: u8) < 6"
  shows "let r = HandleCharCreateOpcode idb query account taken b2 (HandleCharCreateSelectName taken b1 c)
    in if length p1 \<le> 100 \<and> length p2 \<le> 100
       then \<exists>k vals. r = Inr k \<and> cr_passwords k = Some (p1, p2) \<and> cr_name k = [] \<and> cr_out k = cr_out c @ [name_answer taken b1] \<and>
         h_row (cr_db k) = (case h_insert (cr_db c) (account, toupper x # map tolower xs, 10816, 442, 758, vals) of
           None \<Rightarrow> h_row (cr_db c) | Some row \<Rightarrow> Some row) \<and>
         (takes_plain (cr_db c) \<and> account < 0x80000000 \<and> plain_name (toupper x # map tolower xs) \<longrightarrow>
           h_row (cr_db k) = Some (account, toupper x # map tolower xs, 10816, 442, 758, vals)) \<and>
         (\<forall>(i, v) \<in> set (look_of vs). vals i = v) \<and> vals UNIT_FIELD_STAT_POINT = 0
       else r = Inl OutOfBounds"
proof -
  let ?c = "HandleCharCreateSelectName taken b1 c" and ?guid = "cr_counter c + 1"
  let ?h = "new_player account (cr_db c)"
  have c: "cr_name ?c = x # xs" "cr_counter ?c = cr_counter c" "cr_db ?c = cr_db c" "cr_cache ?c = cr_cache c"
    using assms(1,2) by (simp_all add: HandleCharCreateSelectName_def Let_def)
  obtain b3 where b3: "read_u8 b2 = Inr (1, b3)" "holds b3 (create_fields vs p1 p2)" using read_u8_holds [OF assms(3)] by blast
  have big: "\<not> bb_size b2 < 1" "\<not> bb_size b3 < 20"
    using holds_size [OF assms(3)] holds_size [OF b3(2)] assms(4)
    by (simp_all add: create_fields_def password_fields_def wire_u8.enc_width)
  have unit: "h_unit ?h = blank_player_unit" by (simp add: new_player_def)
  note create = Player_Create_holds [OF b3(2) assms(4-6) refl unit, of ?guid x xs]
  show ?thesis
  proof (cases "length p1 \<le> 100 \<and> length p2 \<le> 100")
    case False
    then have "Player_Create ?guid (x # xs) b3 ?h = Inl OutOfBounds" using create by (simp only: False if_False)
    then have "HandleCharCreateOpcode idb query account taken b2 ?c = Inl OutOfBounds"
      using b3(1) big c by (simp add: HandleCharCreateOpcode_def HandleCharCreate_def Let_def)
    then show ?thesis using False by (simp only: Let_def False if_False)
  next
    case True
    let ?p = "?h\<lparr>h_unit := created_unit ?guid vs, h_name := toupper x # map tolower xs,
      h_inv := (h_inv ?h)\<lparr>inv_guid := MAKE_GUID ?guid HIGHGUID_PLAYER\<rparr>, h_map := 10816, h_x := 442, h_y := 758\<rparr>"
    have p0: "inv_ok idb (h_inv ?p)" "length (inv_queue (h_inv ?p)) < 32767" "unat (inv_hiGuid (h_inv ?p)) + 2 < 2 ^ 32"
      "inv_queue (h_inv ?p) = []" "inv_hiGuid (h_inv ?p) = inv_hiGuid (h_inv (cr_db c))"
      using new_player_inv_ok [OF assms(7,8)] assms(9) by (simp_all add: new_player_def)
    obtain t where t: "first_shirt idb ?p = Inr (?p\<lparr>h_inv := t\<rparr>)" "inv_ok idb t" "length (inv_queue t) \<le> 1"
      "unat (inv_hiGuid t) \<le> unat (inv_hiGuid (h_inv (cr_db c))) + 1"
      using first_shirt_ok [OF p0(1-3) assms(10)] p0(4,5) by auto
    let ?q = "?p\<lparr>h_inv := t\<rparr>"
    have "length (inv_queue (h_inv ?q)) + length first_gear \<le> 32767" "unat (inv_hiGuid (h_inv ?q)) + 2 * length first_gear < 2 ^ 32"
      using t(3,4) assms(9) by (simp_all add: first_gear_def)
    then obtain cache' u where u: "foldR (add_gear idb query) first_gear (cr_cache c, ?q) = Inr (cache', ?q\<lparr>h_inv := u\<rparr>)" "inv_ok idb u"
      using all_gear_ok [of idb ?q first_gear query "cr_cache c"] t(2) by auto
    obtain v where v: "SaveInventory (\<lambda>e. idb e \<noteq> None) u = Inr v" using SaveInventory_keeps [OF u(2)] by blast
    let ?r = "?q\<lparr>h_inv := u\<rparr>"
    have ready: "h_session ?r" "h_petQueue ?r = []" "h_inv ?r = u" "h_account ?r = account" by (simp_all add: new_player_def)
    have pets: "SavePets ?r = Inr ?r" using ready(2) by (simp add: SavePets_def)
    have same: "h_insert ?r = h_insert (cr_db c)" "h_row ?r = h_row (cr_db c)" by (simp_all add: new_player_def)
    obtain k where run: "SaveToDB_player idb ?r = Inr k"
      using ready(1,3) pets v by (simp add: SaveToDB_player_def on_inv_def)
    have k: "SaveToDB_player idb ?r = Inr k"
      "h_row k = (case h_insert (cr_db c) (char_row_of ?r) of None \<Rightarrow> h_row (cr_db c) | Some row \<Rightarrow> Some row)"
      using run saved_row [OF run] unfolding same by simp_all
    have "char_row_of ?r = (account, toupper x # map tolower xs, 10816, 442, 758, u_vals (created_unit ?guid vs))"
      by (simp add: char_row_of_def new_player_def)
    moreover have "\<forall>(i, v) \<in> set (look_of vs). uget (created_unit ?guid vs) i = v" using look_kept by auto
    moreover have "uget (created_unit ?guid vs) UNIT_FIELD_STAT_POINT = 0"
      by (simp add: created_unit_def uset_all_def no_points_def)
    moreover have "HandleCharCreateOpcode idb query account taken b2 ?c =
        Inr (?c\<lparr>cr_counter := ?guid, cr_cache := cache', cr_db := k, cr_passwords := Some (p1, p2), cr_name := []\<rparr>)"
      using b3(1) big create c True t(1) u(1) k(1) by (simp add: HandleCharCreateOpcode_def HandleCharCreate_def Let_def)
    moreover have "cr_out ?c = cr_out c @ [name_answer taken b1]"
      using assms(1) by (simp add: HandleCharCreateSelectName_def name_answer_def Let_def)
    moreover have "h_row k = Some (char_row_of ?r)"
      if "takes_plain (cr_db c)" "account < 0x80000000" "plain_name (toupper x # map tolower xs)"
    proof -
      have "plain_row (char_row_of ?r)" using that(2,3) by (simp add: plain_row_def char_row_of_def new_player_def)
      then have "h_insert (cr_db c) (char_row_of ?r) = Some (char_row_of ?r)" using that(1) unfolding takes_plain_def by blast
      then show ?thesis using k(2) by simp
    qed
    ultimately show ?thesis
      using True k(2) by (simp add: Let_def) (rule exI [of _ "u_vals (created_unit ?guid vs)"], simp)
  qed
qed

definition sample_creation :: creation where
  "sample_creation = \<lparr>cr_name = [], cr_counter = 4, cr_cache = Map.empty,
     cr_db = sample_hero\<lparr>h_inv := (h_inv sample_hero)\<lparr>inv_rows := Map.empty, inv_instances := Map.empty, inv_hiGuid := 7\<rparr>\<rparr>,
     cr_out = [], cr_passwords = None\<rparr>"

theorem character_created_witness:
  "\<exists>k vals. HandleCharCreateOpcode sample_idb (\<lambda>_. None) 7 (\<lambda>_. True) (packet_with (FU8 1 # create_fields (replicate 19 200) [1] [2]))
      (HandleCharCreateSelectName (\<lambda>_. True) (packet_with [FU8 97, FU8 98]) sample_creation) = Inr k \<and>
    h_row (cr_db k) = Some (7, [65, 98], 10816, 442, 758, vals) \<and> vals UNIT_FIELD_INT = 200"
proof -
  have name: "fst (op_read_string [] (packet_with [FU8 97, FU8 98])) = 97 # [98]" "1 \<le> bb_size (packet_with [FU8 97, FU8 98])"
    using op_read_string_prefix [of "packet_with [FU8 97, FU8 98]" "[]" "[97, 98]" "[]"]
    by (simp_all add: packet_with_def bb_size_def enc_u8_def)
  have db: "inv_rows (h_inv (cr_db sample_creation)) = Map.empty" "inv_instances (h_inv (cr_db sample_creation)) = Map.empty"
    "unat (inv_hiGuid (h_inv (cr_db sample_creation))) + 12 < 2 ^ 32"
    by (simp_all add: sample_creation_def)
  have shirt: "\<forall>p. sample_idb 864 = Some p \<longrightarrow> unat (ucast (ip_EquipmentSlot p) :: u8) < 6" by (simp add: sample_idb_def)
  have cap: "toupper 97 = 65" "tolower 98 = 98" by (simp_all add: toupper_def tolower_def)
  have plain: "takes_plain (cr_db sample_creation)" "plain_name [65, 98]"
    by (simp_all add: sample_creation_def sample_hero_def takes_plain_def plain_name_def)
  obtain k vals where k: "HandleCharCreateOpcode sample_idb (\<lambda>_. None) 7 (\<lambda>_. True)
      (packet_with (FU8 1 # create_fields (replicate 19 200) [1] [2]))
      (HandleCharCreateSelectName (\<lambda>_. True) (packet_with [FU8 97, FU8 98]) sample_creation) = Inr k"
    "h_row (cr_db k) = Some (7, [65, 98], 10816, 442, 758, vals)" "\<forall>(i, v) \<in> set (look_of (replicate 19 200)). vals i = v"
    using character_created [OF name(2,1) packet_with_holds(1), of "replicate 19 200" "[1]" "[2]" sample_creation sample_idb "\<lambda>_. None" 7 "\<lambda>_. True"]
      db shirt plain by (auto simp: Let_def cap)
  have "(UNIT_FIELD_INT, 200) \<in> set (look_of (replicate 19 (200 :: u8)))" by (simp add: look_of_def)
  from bspec [OF k(3) this] have "vals UNIT_FIELD_INT = 200" by simp
  with k(1,2) show ?thesis by blast
qed

end
