(* ===== verification/Travel.thy ===== *)
theory Travel
  imports BattleRewards
begin

text \<open>
  Moving and changing maps (\<open>src/game/MovementHandler.cpp\<close>, \<open>src/game/CharacterHandler.cpp\<close>,
  \<open>src/game/Player.cpp\<close>). The world is the arena with its players and teams and, beside it, what these
  handlers keep of a player (\<open>mover\<close>), the doors in memory and their table, and the goods of vendors.
  Which grid of a map a player is in, and what its neighbours are told of that, is not modelled.
\<close>

record mover =
  mv_dontMove :: bool
  mv_orientation :: u8
  mv_lastX :: u16
  mv_lastY :: u16
  mv_exprType :: u8
  mv_exprCode :: u8
  mv_sequence :: u32
  mv_menuOpen :: bool
  mv_talkedTo :: u64
  mv_subleader :: u32

text \<open>A row of \<open>map_matrix\<close>, and a door in memory with the map, the column and the row it leads to.\<close>

record matrix_row =
  mx_src :: u16
  mx_door :: u16
  mx_dest :: u16
  mx_x :: u16
  mx_y :: u16

type_synonym map_door = "(u16 \<times> u8) \<times> (u16 \<times> u16 \<times> u16)"

text \<open>
  A creature that can be talked to, with the flags and the script of its template and the goods it sells
  (\<open>Creature.h\<close>), the rows of \<open>npc_vendor\<close> (guid, slot, item) and of \<open>npc_gossip\<close>.
\<close>

record creature_item =
  gd_slot :: u8
  gd_entry :: u32

record npc =
  np_guid :: u32
  np_name :: bytes
  np_map :: u16
  np_flags :: u32
  np_entry :: u32
  np_dead :: bool
  np_script :: bytes
  np_items :: "creature_item list"
  np_loaded :: bool

type_synonym goods_row = "u32 \<times> u8 \<times> u32"

record gossip_row =
  gs_npc :: u32
  gs_sequence :: u32
  gs_action :: u32
  gs_type :: u8
  gs_text :: u16

record realm =
  rl_arena :: arena
  rl_mover :: "uid \<Rightarrow> mover"
  rl_doors :: "map_door list"
  rl_matrix :: "matrix_row list"
  rl_npcs :: "u32 \<Rightarrow> npc option"
  rl_goods :: "goods_row list"
  rl_gossip :: "gossip_row list"

definition in_arena :: "(arena \<Rightarrow> arena res) \<Rightarrow> realm \<Rightarrow> realm res" where
  "in_arena f r = bindR (f (rl_arena r)) (\<lambda>a. Inr (r\<lparr>rl_arena := a\<rparr>))"

definition on_hero :: "uid \<Rightarrow> (hero \<Rightarrow> hero res) \<Rightarrow> realm \<Rightarrow> realm res" where
  "on_hero p f = in_arena (with_hero p f)"

definition upd_mover :: "uid \<Rightarrow> (mover \<Rightarrow> mover) \<Rightarrow> realm \<Rightarrow> realm" where
  "upd_mover p f r = r\<lparr>rl_mover := (rl_mover r)(p := f (rl_mover r p))\<rparr>"

abbreviation team :: "realm \<Rightarrow> uid \<Rightarrow> uid list" where
  "team r p \<equiv> ar_members (rl_arena r) p"

definition SetDontMove :: "uid \<Rightarrow> bool \<Rightarrow> realm \<Rightarrow> realm" where
  "SetDontMove p b = upd_mover p (\<lambda>m. m\<lparr>mv_dontMove := b\<rparr>)"

definition SetExpression :: "uid \<Rightarrow> u8 \<Rightarrow> u8 \<Rightarrow> realm \<Rightarrow> realm" where
  "SetExpression p t c = upd_mover p (\<lambda>m. m\<lparr>mv_exprType := t, mv_exprCode := c\<rparr>)"

definition Relocate :: "u16 \<Rightarrow> u16 \<Rightarrow> hero \<Rightarrow> hero" where
  "Relocate x y h = h\<lparr>h_x := x, h_y := y\<rparr>"

text \<open>How a message about a player says whether it leads a team, is in one, or is alone.\<close>

definition team_code :: "uid \<Rightarrow> arena \<Rightarrow> u8" where
  "team_code p a = (if ar_members a p \<noteq> [] then 4 else if ar_leader a p = 0 then 0 else 1)"

subsection \<open>Walking\<close>

definition UpdateRelocationToSet :: "uid \<Rightarrow> realm \<Rightarrow> realm res" where
  "UpdateRelocationToSet p r =
     bindR (get_hero p (rl_arena r)) (\<lambda>h.
     bindR (on_hero p (\<lambda>h. Inr (say (ToSet False) 0x06
              [FU8 1, FU32 (h_account h), FU8 (mv_orientation (rl_mover r p)), FU16 (h_x h), FU16 (h_y h)] h)) r) (\<lambda>r1.
       foldR (\<lambda>m. on_hero m (\<lambda>k. Inr (Relocate (h_x h) (h_y h) k))) (team r p) r1))"

definition walk_to :: "uid \<Rightarrow> u8 \<Rightarrow> u16 \<Rightarrow> u16 \<Rightarrow> realm \<Rightarrow> realm res" where
  "walk_to p orientation x y r =
     bindR (get_hero p (rl_arena r)) (\<lambda>h.
     let r1 = upd_mover p (\<lambda>m. m\<lparr>mv_lastX := h_x h, mv_lastY := h_y h\<rparr>) r
     in bindR (on_hero p (\<lambda>h. Inr (Relocate x y h)) r1) (\<lambda>r2.
        let r3 = upd_mover p (\<lambda>m. m\<lparr>mv_orientation := orientation\<rparr>) r2
        in bindR (UpdateRelocationToSet p r3) (on_hero p (\<lambda>h. Inr (EndOfRequest h)))))"

definition HandleMovementOpcodes :: "uid \<Rightarrow> byte_buffer \<Rightarrow> realm \<Rightarrow> realm res" where
  "HandleMovementOpcodes p b r =
     (if bb_size b < 8 then Inr r
      else if mv_dontMove (rl_mover r p) then Inr r
      else let r1 = SetExpression p 0 0 r
           in bindR (read_u8 b) (\<lambda>(_, b1). bindR (read_u8 b1) (\<lambda>(orientation, b2).
              bindR (read_u16 b2) (\<lambda>(x, b3). bindR (read_u16 b3) (\<lambda>(y, b4). bindR (read_u16 b4) (\<lambda>_.
                walk_to p orientation x y r1))))))"

subsection \<open>Changing the map\<close>

text \<open>
  \<open>TeleportTo\<close> and \<open>SendMapChanged\<close> call themselves for every member of the team. The number bounds the
  depth of these calls; none is left when the members of a member never end.
\<close>

fun chain :: "('s \<Rightarrow> 's res option) list \<Rightarrow> 's \<Rightarrow> 's res option" where
  "chain [] s = Some (Inr s)"
| "chain (f # fs) s =
     (case f s of None \<Rightarrow> None | Some (Inl e) \<Rightarrow> Some (Inl e) | Some (Inr s') \<Rightarrow> chain fs s')"

definition leave_map :: "uid \<Rightarrow> u16 \<Rightarrow> u16 \<Rightarrow> u16 \<Rightarrow> realm \<Rightarrow> realm res" where
  "leave_map p mapid x y r =
     on_hero p (\<lambda>h. Inr (Relocate x y ((say (ToSet False) 0x0C
         [FU32 (h_account h), FU16 mapid, FU16 x, FU16 y, FU8 (team_code p (rl_arena r)), FU8 0] h)\<lparr>h_map := mapid\<rparr>))) r"

fun TeleportTo :: "nat \<Rightarrow> uid \<Rightarrow> u16 \<Rightarrow> u16 \<Rightarrow> u16 \<Rightarrow> realm \<Rightarrow> realm res option" where
  "TeleportTo 0 p mapid x y r = None"
| "TeleportTo (Suc n) p mapid x y r =
     (let r1 = (if team r p \<noteq> [] then SetDontMove p True r else r)
      in case leave_map p mapid x y r1 of
           Inl e \<Rightarrow> Some (Inl e)
         | Inr r2 \<Rightarrow> chain (map (\<lambda>m. TeleportTo n m mapid x y) (team r p)) r2)"

text \<open>\<open>npcs\<close>: the creatures of a map with their positions, none if the query has no row.\<close>

definition UpdateMap2Npc :: "(u16 \<Rightarrow> (u8 \<times> u16 \<times> u16) list) \<Rightarrow> hero \<Rightarrow> hero res" where
  "UpdateMap2Npc npcs h =
     (if npcs (h_map h) = [] then Inr h
      else say_must 0x16 (FU8 4 # concat (map (\<lambda>(n, x, y).
             [FU8 n, FU16 0, FU8 0, FU16 x, FU16 y, FU32 0, FU8 0]) (npcs (h_map h)))) h)"

definition arrive :: "(u16 \<Rightarrow> (u8 \<times> u16 \<times> u16) list) \<Rightarrow> uid \<Rightarrow> realm \<Rightarrow> realm res" where
  "arrive npcs p r =
     on_hero p (\<lambda>h. UpdateMap2Npc npcs (Send0504 (say_session 0x0C
         [FU32 (h_account h), FU16 (h_map h), FU16 (h_x h), FU16 (h_y h), FU8 (team_code p (rl_arena r)), FU8 0] h))) r"

fun SendMapChanged :: "nat \<Rightarrow> (u16 \<Rightarrow> (u8 \<times> u16 \<times> u16) list) \<Rightarrow> uid \<Rightarrow> realm \<Rightarrow> realm res option" where
  "SendMapChanged 0 npcs p r = None"
| "SendMapChanged (Suc n) npcs p r =
     (case arrive npcs p r of
        Inl e \<Rightarrow> Some (Inl e)
      | Inr r1 \<Rightarrow>
          (case chain (map (\<lambda>m. SendMapChanged n npcs m) (team r p)) r1 of
             None \<Rightarrow> None
           | Some (Inl e) \<Rightarrow> Some (Inl e)
           | Some (Inr r2) \<Rightarrow> Some (Inr (if team r p \<noteq> [] then SetDontMove p False r2 else r2))))"

text \<open>A depth that no team exceeds: a player and its members.\<close>

definition travel :: "(u16 \<Rightarrow> (u8 \<times> u16 \<times> u16) list) \<Rightarrow> nat \<Rightarrow> uid \<Rightarrow> u16 \<Rightarrow> u16 \<Rightarrow> u16 \<Rightarrow> realm \<Rightarrow> realm res option" where
  "travel npcs n p mapid x y r = chain [TeleportTo n p mapid x y, SendMapChanged n npcs p] r"

subsection \<open>Doors\<close>

definition FindMapMatrix :: "u16 \<Rightarrow> u8 \<Rightarrow> map_door list \<Rightarrow> (u16 \<times> u16 \<times> u16) option" where
  "FindMapMatrix mapid door ds = map_option snd (find (\<lambda>(k, _). k = (mapid, door)) ds)"

text \<open>Rows without a check for none, which is a null pointer. A door number is cut to a byte.\<close>

definition RefreshDoorDatabase :: "realm \<Rightarrow> realm res" where
  "RefreshDoorDatabase r =
     (if rl_matrix r = [] then Inl NullDeref
      else Inr (r\<lparr>rl_doors := map (\<lambda>w. ((mx_src w, ucast (mx_door w)), (mx_dest w, mx_x w, mx_y w))) (rl_matrix r)\<rparr>))"

definition door_keeper :: "u32 \<Rightarrow> bytes \<Rightarrow> bool" where
  "door_keeper sec name \<longleftrightarrow> sec > 2 \<and> (name = [65, 100, 109, 105, 110, 105, 115, 116, 114, 97, 116, 111, 114, 49] \<or>
     name = [65, 100, 109, 105, 110, 105, 115, 116, 114, 97, 116, 111, 114, 50])"

definition adjust_door :: "u32 \<Rightarrow> uid \<Rightarrow> u16 \<Rightarrow> u16 \<Rightarrow> hero \<Rightarrow> realm \<Rightarrow> realm res" where
  "adjust_door sec p mapid dest h r =
     (if door_keeper sec (h_name h) \<and> mapid \<noteq> 12441 \<and> dest \<noteq> 12441
      then RefreshDoorDatabase (r\<lparr>rl_matrix := map (\<lambda>w.
             if mx_src w = dest \<and> mx_dest w = mapid
             then w\<lparr>mx_x := mv_lastX (rl_mover r p), mx_y := mv_lastY (rl_mover r p)\<rparr> else w) (rl_matrix r)\<rparr>)
      else Inr r)"

text \<open>The sub-leader is looked up by its guid; \<open>GetSession()\<close> is followed without a check.\<close>

definition UpdateTeamSub_map :: "uid \<Rightarrow> realm \<Rightarrow> realm res" where
  "UpdateTeamSub_map p r =
     (case ar_guid (rl_arena r) (ucast (mv_subleader (rl_mover r p))) of
        None \<Rightarrow> Inr r
      | Some s \<Rightarrow>
          bindR (get_hero s (rl_arena r)) (\<lambda>k.
            on_hero p (\<lambda>h. bindR (say_must 0x0D [FU8 8, FU32 (h_account k)] h) (\<lambda>h1.
              Inr (say (ToSet True) 0x0D [FU8 0x0B, FU32 (h_account k)]
                (say (ToSet True) 0x0D [FU8 7, FU32 (h_account k)] h1)))) r))"

definition announce_team :: "uid \<Rightarrow> realm \<Rightarrow> realm res" where
  "announce_team p r =
     (if team r p = [] then Inr r
      else bindR (on_hero p (\<lambda>h. bindR (team_block p (rl_arena r) h) (\<lambda>blk.
             Inr (case blk of None \<Rightarrow> h | Some (opcode, fs) \<Rightarrow> say (ToSet True) opcode fs h))) r) (UpdateTeamSub_map p))"

definition run_res :: "'x res \<Rightarrow> ('x \<Rightarrow> 's res option) \<Rightarrow> 's res option" where
  "run_res x f = (case x of Inl e \<Rightarrow> Some (Inl e) | Inr s \<Rightarrow> f s)"

definition pass_door ::
  "(u16 \<Rightarrow> (u8 \<times> u16 \<times> u16) list) \<Rightarrow> nat \<Rightarrow> uid \<Rightarrow> u16 \<times> u16 \<times> u16 \<Rightarrow> realm \<Rightarrow> realm res option" where
  "pass_door npcs n p = (\<lambda>(dest, x, y) r.
     run_res (on_hero p (\<lambda>h. bindR (say_must 0x14 [FU8 7] h) (say_must 0x29 [FU8 0x0E])) r) (\<lambda>r1.
       map_option (\<lambda>res. bindR res (announce_team p)) (travel npcs n p dest x y r1)))"

definition HandlePlayerEnterDoorOpcode ::
  "(u16 \<Rightarrow> (u8 \<times> u16 \<times> u16) list) \<Rightarrow> nat \<Rightarrow> u32 \<Rightarrow> uid \<Rightarrow> byte_buffer \<Rightarrow> realm \<Rightarrow> realm res option" where
  "HandlePlayerEnterDoorOpcode npcs n sec p b r =
     (if bb_size b < 2 then Some (Inr r)
      else run_res (bindR (read_u8 b) (\<lambda>(door, _). bindR (get_hero p (rl_arena r)) (\<lambda>h. Inr (door, h)))) (\<lambda>(door, h).
        case FindMapMatrix (h_map h) door (rl_doors r) of
          None \<Rightarrow> Some (on_hero p (\<lambda>h. Inr (EndOfRequest h)) r)
        | Some dest \<Rightarrow> run_res (adjust_door sec p (h_map h) (fst dest) h r) (pass_door npcs n p dest)))"

subsection \<open>Arriving, expressions\<close>

definition HandlePlayerEnterMapCompletedOpcode :: "uid \<Rightarrow> byte_buffer \<Rightarrow> realm \<Rightarrow> realm res" where
  "HandlePlayerEnterMapCompletedOpcode p b r =
     (if bb_size b < 1 then Inr r
      else bindR (read_u8 b) (\<lambda>(kind, _).
        bindR (on_hero p (\<lambda>h. Inr (EndOfRequest h)) r) (\<lambda>r1.
          if kind = 1 then UpdateRelocationToSet p r1 else Inr r1)))"

text \<open>Without an expression an empty message goes out, under the opcode of a new packet.\<close>

definition HandlePlayerExpressionOpcode :: "uid \<Rightarrow> byte_buffer \<Rightarrow> realm \<Rightarrow> realm res" where
  "HandlePlayerExpressionOpcode p b r =
     (if bb_size b < 2 then Inr r
      else bindR (read_u8 b) (\<lambda>(t, b1). bindR (read_u8 b1) (\<lambda>(c, _).
        on_hero p (\<lambda>h. Inr (if t = 0 \<or> c = 0 then say (ToSet False) 0 [] h
          else say (ToSet False) 0x20 [FU8 t, FU32 (h_account h), FU8 c] h)) (SetExpression p t c r))))"

end
