(* ===== verification/Chat.thy ===== *)
theory Chat
  imports Growth
begin

text \<open>
  Chat messages and the commands typed in them (\<open>src/game/Chat.cpp\<close>, \<open>src/game/ChatHandler.cpp\<close>): the
  table of commands with their security levels, the search through it and the packet. What a command does
  is the argument \<open>run\<close> of the search; \<open>Commands\<close> supplies it.
\<close>

subsection \<open>The table\<close>

text \<open>The member functions the entries point to.\<close>

datatype command =
  HandleGetItemState
| HandleLookupAreaCommand | HandleLookupNpcCommand | HandleLookupItemCommand
| HandleNpcTalkCommand | HandleNpcInfoCommand | HandleNpcAddCommand | HandleNpcDeleteCommand | HandleNpcEditCommand
| HandlePetAddCommand | HandlePetReleaseCommand
| HandleItemAddCommand
| HandleVendorAddItemCommand | HandleVendorDelItemCommand
| HandleWarpCommand | HandleUnstuckCommand | HandleChangeLevelCommand | HandleChangeLevelPetCommand
| HandleSaveCommand | HandleRestCommand | HandleSaveAllCommand
| HandleBanCommand | HandleUnBanCommand | HandleLevelUpCommand | HandleModifyGoldCommand | HandlePasswordCommand

datatype chat_command =
  ChatCommand (cc_Name: bytes) (cc_SecurityLevel: u32) (cc_Handler: "command option") (cc_ChildCommands: "chat_command list option")

definition SEC_PLAYER :: u32 where [simp]: "SEC_PLAYER = 0"
definition SEC_MODERATOR :: u32 where [simp]: "SEC_MODERATOR = 1"
definition SEC_GAMEMASTER :: u32 where [simp]: "SEC_GAMEMASTER = 2"
definition SEC_ADMINISTRATOR :: u32 where [simp]: "SEC_ADMINISTRATOR = 3"

text \<open>The bytes of a string literal.\<close>

definition ascii :: "string \<Rightarrow> bytes" where
  "ascii s = map (\<lambda>c. of_nat (of_char c)) s"

definition leaf :: "string \<Rightarrow> u32 \<Rightarrow> command \<Rightarrow> chat_command" where
  "leaf name sec h = ChatCommand (ascii name) sec (Some h) None"

definition group :: "string \<Rightarrow> u32 \<Rightarrow> chat_command list \<Rightarrow> chat_command" where
  "group name sec kids = ChatCommand (ascii name) sec None (Some kids)"

definition debugCommandTable :: "chat_command list" where
  "debugCommandTable = [leaf ''getitemstate'' SEC_ADMINISTRATOR HandleGetItemState]"

definition lookupCommandTable :: "chat_command list" where
  "lookupCommandTable =
     [leaf ''area'' SEC_MODERATOR HandleLookupAreaCommand, leaf ''npc'' SEC_MODERATOR HandleLookupNpcCommand,
      leaf ''item'' SEC_MODERATOR HandleLookupItemCommand]"

definition npcCommandTable :: "chat_command list" where
  "npcCommandTable =
     [leaf ''talk'' SEC_GAMEMASTER HandleNpcTalkCommand, leaf ''info'' SEC_GAMEMASTER HandleNpcInfoCommand,
      leaf ''add'' SEC_GAMEMASTER HandleNpcAddCommand, leaf ''del'' SEC_GAMEMASTER HandleNpcDeleteCommand,
      leaf ''edit'' SEC_GAMEMASTER HandleNpcEditCommand]"

definition petCommandTable :: "chat_command list" where
  "petCommandTable =
     [leaf ''add'' SEC_GAMEMASTER HandlePetAddCommand, leaf ''release'' SEC_GAMEMASTER HandlePetReleaseCommand]"

definition itemCommandTable :: "chat_command list" where
  "itemCommandTable = [leaf ''add'' SEC_GAMEMASTER HandleItemAddCommand]"

definition vendorCommandTable :: "chat_command list" where
  "vendorCommandTable =
     [leaf ''add'' SEC_GAMEMASTER HandleVendorAddItemCommand, leaf ''del'' SEC_GAMEMASTER HandleVendorDelItemCommand]"

definition commandTable :: "chat_command list" where
  "commandTable =
     [group ''debug'' SEC_MODERATOR debugCommandTable,
      group ''lookup'' SEC_GAMEMASTER lookupCommandTable,
      group ''npc'' SEC_GAMEMASTER npcCommandTable,
      group ''item'' SEC_GAMEMASTER itemCommandTable,
      group ''pet'' SEC_GAMEMASTER petCommandTable,
      group ''vendor'' SEC_GAMEMASTER vendorCommandTable,
      leaf ''warp'' SEC_GAMEMASTER HandleWarpCommand,
      leaf ''unstuck'' SEC_PLAYER HandleUnstuckCommand,
      leaf ''changelevel'' SEC_GAMEMASTER HandleChangeLevelCommand,
      leaf ''changelevelpet'' SEC_GAMEMASTER HandleChangeLevelPetCommand,
      leaf ''save'' SEC_PLAYER HandleSaveCommand,
      leaf ''rest'' SEC_PLAYER HandleRestCommand,
      leaf ''saveall'' SEC_GAMEMASTER HandleSaveAllCommand,
      leaf ''ban'' SEC_ADMINISTRATOR HandleBanCommand,
      leaf ''unban'' SEC_ADMINISTRATOR HandleUnBanCommand,
      leaf ''levelup'' SEC_ADMINISTRATOR HandleLevelUpCommand,
      leaf ''gold'' SEC_MODERATOR HandleModifyGoldCommand,
      leaf ''password'' SEC_PLAYER HandlePasswordCommand]"

text \<open>The level under which \<open>Chat.h\<close> declares a handler.\<close>

fun declared_level :: "command \<Rightarrow> u32" where
  "declared_level HandleUnstuckCommand = SEC_PLAYER"
| "declared_level HandleSaveCommand = SEC_PLAYER"
| "declared_level HandlePasswordCommand = SEC_PLAYER"
| "declared_level HandleRestCommand = SEC_PLAYER"
| "declared_level HandleLookupAreaCommand = SEC_MODERATOR"
| "declared_level HandleLookupNpcCommand = SEC_MODERATOR"
| "declared_level HandleLookupItemCommand = SEC_MODERATOR"
| "declared_level HandleModifyGoldCommand = SEC_MODERATOR"
| "declared_level HandleGetItemState = SEC_ADMINISTRATOR"
| "declared_level HandleBanCommand = SEC_ADMINISTRATOR"
| "declared_level HandleUnBanCommand = SEC_ADMINISTRATOR"
| "declared_level HandleLevelUpCommand = SEC_ADMINISTRATOR"
| "declared_level _ = SEC_GAMEMASTER"

subsection \<open>The search\<close>

text \<open>C strings without their terminator. \<open>hasStringAbbr\<close>: the second is a prefix, in any case.\<close>

fun hasStringAbbr :: "bytes \<Rightarrow> bytes \<Rightarrow> bool" where
  "hasStringAbbr s1 [] = True"
| "hasStringAbbr [] (c # cs) = False"
| "hasStringAbbr (d # ds) (c # cs) = (tolower d = tolower c \<and> hasStringAbbr ds cs)"

definition first_word :: "bytes \<Rightarrow> bytes" where
  "first_word text = takeWhile (\<lambda>c. c \<noteq> 32) text"

definition after_word :: "bytes \<Rightarrow> bytes" where
  "after_word text = dropWhile (\<lambda>c. c = 32) (dropWhile (\<lambda>c. c \<noteq> 32) text)"

text \<open>
  The loop over a table stops at an entry without a name. The tables have none: what lies behind the
  last entry is read. The level of a group is not looked at.
\<close>

function exec_in :: "u32 \<Rightarrow> (command \<Rightarrow> bytes \<Rightarrow> 'w \<Rightarrow> 'w res) \<Rightarrow> chat_command list \<Rightarrow> bytes \<Rightarrow> 'w \<Rightarrow> (bool \<times> 'w) res" where
  "exec_in sec run [] text w = Inl OutOfBounds"
| "exec_in sec run (ChatCommand name level h kids # cs) text w =
     (if name \<noteq> [] \<and> \<not> hasStringAbbr name (first_word text) then exec_in sec run cs text w
      else case kids of
        Some ks \<Rightarrow>
          bindR (if first_word (after_word text) = [] then Inr (False, w) else exec_in sec run ks (after_word text) w)
            (\<lambda>(_, w'). Inr (True, w'))
      | None \<Rightarrow>
          if sec < level then exec_in sec run cs text w
          else (case h of
                  None \<Rightarrow> Inl NullDeref
                | Some c \<Rightarrow> bindR (run c (if name \<noteq> [] then after_word text else text) w) (\<lambda>w'. Inr (True, w'))))"
  by pat_completeness auto

termination by (relation "measure (\<lambda>(sec, run, table, text, w). size_list size table)") simp_all

definition ExecuteCommandInTable ::
  "u32 \<Rightarrow> (command \<Rightarrow> bytes \<Rightarrow> 'w \<Rightarrow> 'w res) \<Rightarrow> chat_command list \<Rightarrow> bytes \<Rightarrow> 'w \<Rightarrow> (bool \<times> 'w) res" where
  "ExecuteCommandInTable sec run table text w =
     (if first_word text = [] then Inr (False, w) else exec_in sec run table text w)"

text \<open>\<open>notfound\<close> sends the message that there is no such command; the result is the returned number.\<close>

definition ParseCommands ::
  "u32 \<Rightarrow> (command \<Rightarrow> bytes \<Rightarrow> 'w \<Rightarrow> 'w res) \<Rightarrow> ('w \<Rightarrow> 'w res) \<Rightarrow> bytes \<Rightarrow> 'w \<Rightarrow> (int \<times> 'w) res" where
  "ParseCommands sec run notfound text w =
     (case text of
        [] \<Rightarrow> Inl AssertFailed
      | [c] \<Rightarrow> Inr (0, w)
      | c # d # _ \<Rightarrow>
          if c \<noteq> 33 \<and> c \<noteq> 46 then Inr (0, w)
          else if c = 46 \<and> d = 46 \<or> c = 33 \<and> d = 33 then Inr (0, w)
          else bindR (ExecuteCommandInTable sec run commandTable (List.tl text) w) (\<lambda>(ok, w').
                 bindR (if ok then Inr w' else notfound w') (\<lambda>w''. Inr (1, w''))))"

end
