(* ===== verification/Dialogs.thy ===== *)
theory Dialogs
  imports Travel Chat BattleHandlers
begin

text \<open>
  Talking to creatures (\<open>src/game/GossipDef.cpp\<close>, \<open>src/game/NPCHandler.cpp\<close>, \<open>src/game/Creature.cpp\<close>), their
  scripts (\<open>src/bindings/amachi\<close>) and the goods of vendors. A script is found by the name in the template
  of the creature; those of vendors and innkeepers are the only ones that are registered.
\<close>

subsection \<open>The goods of a vendor\<close>

definition MAX_VENDOR_ITEMS :: nat where [simp]: "MAX_VENDOR_ITEMS = 255"

text \<open>No item is found in a slot that is not below the number of items.\<close>

definition vendor_GetItem :: "u8 \<Rightarrow> creature_item list \<Rightarrow> creature_item option" where
  "vendor_GetItem slot its =
     (if unat slot \<ge> length its then None else find (\<lambda>g. gd_slot g = slot) its)"

text \<open>The entry comes in 16 bits.\<close>

definition vendor_FindItem :: "u16 \<Rightarrow> creature_item list \<Rightarrow> creature_item option" where
  "vendor_FindItem entry its = find (\<lambda>g. gd_entry g = ucast entry) its"

definition vendor_AddItem :: "u8 \<Rightarrow> u16 \<Rightarrow> creature_item list \<Rightarrow> creature_item list" where
  "vendor_AddItem slot entry its = its @ [\<lparr>gd_slot = slot, gd_entry = ucast entry\<rparr>]"

fun vendor_RemoveItem :: "u16 \<Rightarrow> creature_item list \<Rightarrow> bool \<times> creature_item list" where
  "vendor_RemoveItem entry [] = (False, [])"
| "vendor_RemoveItem entry (g # gs) =
     (if gd_entry g = ucast entry then (True, gs)
      else case vendor_RemoveItem entry gs of (ok, gs') \<Rightarrow> (ok, g # gs'))"

fun load_goods :: "item_db \<Rightarrow> (u8 \<times> u32) list \<Rightarrow> creature_item list \<Rightarrow> creature_item list" where
  "load_goods idb [] its = its"
| "load_goods idb ((slot, entry) # tab) its =
     (if length its \<ge> MAX_VENDOR_ITEMS then its
      else load_goods idb tab (if idb entry = None then its else vendor_AddItem slot (ucast entry) its))"

text \<open>Without a row the goods are cleared but stay unloaded.\<close>

definition LoadGoods :: "item_db \<Rightarrow> goods_row list \<Rightarrow> npc \<Rightarrow> npc" where
  "LoadGoods idb tab c =
     (if np_loaded c then c
      else let mine = map snd (filter (\<lambda>(g, _). g = np_guid c) tab)
           in if mine = [] then c\<lparr>np_items := []\<rparr>
              else c\<lparr>np_items := load_goods idb mine [], np_loaded := True\<rparr>)"

definition put_npc :: "npc \<Rightarrow> realm \<Rightarrow> realm" where
  "put_npc c r = r\<lparr>rl_npcs := (rl_npcs r)(np_guid c \<mapsto> c)\<rparr>"

subsection \<open>Which creature\<close>

definition MAP_NPCID_MULTIPLIER :: u32 where [simp]: "MAP_NPCID_MULTIPLIER = 100"

definition GenerateNpcGuidLow :: "u16 \<Rightarrow> u8 \<Rightarrow> u32" where
  "GenerateNpcGuidLow mapid n = ucast mapid * MAP_NPCID_MULTIPLIER + ucast n"

definition GetNpcGuidByMapNpcId :: "u16 \<Rightarrow> u8 \<Rightarrow> u64" where
  "GetNpcGuidByMapNpcId mapid n = MAKE_GUID (GenerateNpcGuidLow mapid n) HIGHGUID_UNIT"

definition GetMapNpcId :: "npc \<Rightarrow> u8" where
  "GetMapNpcId c = ucast (np_guid c - ucast (np_map c) * MAP_NPCID_MULTIPLIER)"

text \<open>\<open>GetObjectInWorld\<close> of creatures: they are registered under their whole guid.\<close>

definition GetNPCIfCanInteractWith :: "hero \<Rightarrow> u64 \<Rightarrow> realm \<Rightarrow> npc option" where
  "GetNPCIfCanInteractWith h guid r =
     (if guid = 0 \<or> ucast (drop_bit 32 guid) \<noteq> HIGHGUID_UNIT then None
      else case rl_npcs r (ucast guid) of
             None \<Rightarrow> None
           | Some c \<Rightarrow> if np_map c = h_map h then Some c else None)"

definition UNIT_NPC_FLAG_GOSSIP :: u32 where [simp]: "UNIT_NPC_FLAG_GOSSIP = 1"
definition UNIT_NPC_FLAG_QUESTGIVER :: u32 where [simp]: "UNIT_NPC_FLAG_QUESTGIVER = 2"
definition UNIT_NPC_FLAG_TRAINER :: u32 where [simp]: "UNIT_NPC_FLAG_TRAINER = 4"
definition UNIT_NPC_FLAG_VENDOR_GROCERY :: u32 where [simp]: "UNIT_NPC_FLAG_VENDOR_GROCERY = 8"
definition UNIT_NPC_FLAG_VENDOR_EQUIPMENT :: u32 where [simp]: "UNIT_NPC_FLAG_VENDOR_EQUIPMENT = 16"
definition UNIT_NPC_FLAG_VENDOR_BLACKSMITH :: u32 where [simp]: "UNIT_NPC_FLAG_VENDOR_BLACKSMITH = 32"
definition UNIT_NPC_FLAG_INNKEEPER :: u32 where [simp]: "UNIT_NPC_FLAG_INNKEEPER = 64"
definition UNIT_NPC_FLAG_BANKER :: u32 where [simp]: "UNIT_NPC_FLAG_BANKER = 128"

definition npc_flag :: "u32 \<Rightarrow> npc \<Rightarrow> bool" where
  "npc_flag f c \<longleftrightarrow> np_flags c AND f \<noteq> 0"

definition isVendor :: "npc \<Rightarrow> bool" where
  "isVendor = npc_flag (UNIT_NPC_FLAG_VENDOR_GROCERY OR UNIT_NPC_FLAG_VENDOR_EQUIPMENT OR UNIT_NPC_FLAG_VENDOR_BLACKSMITH)"

definition isServiceProvider :: "npc \<Rightarrow> bool" where
  "isServiceProvider = npc_flag (UNIT_NPC_FLAG_VENDOR_GROCERY OR UNIT_NPC_FLAG_VENDOR_EQUIPMENT OR UNIT_NPC_FLAG_VENDOR_BLACKSMITH
     OR UNIT_NPC_FLAG_TRAINER OR UNIT_NPC_FLAG_BANKER OR UNIT_NPC_FLAG_INNKEEPER)"

subsection \<open>The menu of a player\<close>

definition GOSSIP_TYPE_PLAIN :: u8 where [simp]: "GOSSIP_TYPE_PLAIN = 1"
definition GOSSIP_TYPE_INVENTORY :: u8 where [simp]: "GOSSIP_TYPE_INVENTORY = 2"
definition GOSSIP_TYPE_SELECT :: u8 where [simp]: "GOSSIP_TYPE_SELECT = 6"
definition GOSSIP_TYPE_BANK :: u8 where [simp]: "GOSSIP_TYPE_BANK = 0x1D"
definition GOSSIP_OPTION_START :: u32 where [simp]: "GOSSIP_OPTION_START = 0x1D"
definition GOSSIP_OPTION_END :: u32 where [simp]: "GOSSIP_OPTION_END = 0x28"
definition DEFAULT_GOSSIP_MESSAGE :: u16 where [simp]: "DEFAULT_GOSSIP_MESSAGE = 10051"

definition send_to :: "uid \<Rightarrow> u8 \<Rightarrow> field list \<Rightarrow> realm \<Rightarrow> realm res" where
  "send_to p opcode fs = on_hero p (\<lambda>h. Inr (say ToSession opcode fs h))"

definition IncTalkedSequence :: "uid \<Rightarrow> realm \<Rightarrow> realm" where
  "IncTalkedSequence p = upd_mover p (\<lambda>m. m\<lparr>mv_sequence := mv_sequence m + 1\<rparr>)"

definition CloseMenu :: "uid \<Rightarrow> realm \<Rightarrow> realm" where
  "CloseMenu p = upd_mover p (\<lambda>m. m\<lparr>mv_menuOpen := False\<rparr>)"

definition SendTalking :: "uid \<Rightarrow> u8 \<Rightarrow> u16 \<Rightarrow> u8 \<Rightarrow> realm \<Rightarrow> realm res" where
  "SendTalking p n textId ty r =
     (if ty = GOSSIP_TYPE_INVENTORY then bindR (send_to p 0x1B [FU8 3] r) (send_to p 0x14 [FU8 9])
      else if ty = GOSSIP_TYPE_BANK
      then bindR (send_to p 0x1D [FU8 (ucast textId)] (IncTalkedSequence p r)) (send_to p 0x14 [FU8 9])
      else send_to p 0x14 [FU8 1, FU16 0, FU8 0, FU8 1, FU8 ty, FU8 3, FU8 n, FU16 0, FU16 0, FU16 0, FU16 textId]
             (IncTalkedSequence p r))"

definition SendGossipMenu :: "uid \<Rightarrow> u8 \<Rightarrow> u16 \<Rightarrow> realm \<Rightarrow> realm res" where
  "SendGossipMenu p n textId = SendTalking p n textId GOSSIP_TYPE_PLAIN"

definition open_menu :: "u8 \<Rightarrow> uid \<Rightarrow> u8 \<Rightarrow> u16 \<Rightarrow> realm \<Rightarrow> realm res" where
  "open_menu ty p n textId r =
     (if textId \<ge> 10000 then SendTalking p n textId GOSSIP_TYPE_PLAIN r
      else SendTalking p n textId ty (upd_mover p (\<lambda>m. m\<lparr>mv_menuOpen := True\<rparr>) r))"

definition SendMenu :: "uid \<Rightarrow> u8 \<Rightarrow> u16 \<Rightarrow> realm \<Rightarrow> realm res" where
  "SendMenu = open_menu GOSSIP_TYPE_SELECT"

definition SendSellMenu :: "uid \<Rightarrow> u8 \<Rightarrow> u16 \<Rightarrow> realm \<Rightarrow> realm res" where
  "SendSellMenu = open_menu GOSSIP_TYPE_INVENTORY"

definition TalkedToCreature :: "uid \<Rightarrow> u64 \<Rightarrow> realm \<Rightarrow> realm res" where
  "TalkedToCreature p guid r =
     send_to p 0x06 [FU8 2] (CloseMenu p (upd_mover p (\<lambda>m. m\<lparr>mv_talkedTo := guid, mv_sequence := 0\<rparr>) r))"

subsection \<open>What a creature says\<close>

definition npc_guid :: "npc \<Rightarrow> u64" where
  "npc_guid c = MAKE_GUID (np_guid c) HIGHGUID_UNIT"

definition GetNpcTextId :: "npc \<Rightarrow> realm \<Rightarrow> u16" where
  "GetNpcTextId c r =
     (case find (\<lambda>w. gs_npc w = np_guid c \<and> gs_sequence w = 0) (rl_gossip r) of
        None \<Rightarrow> DEFAULT_GOSSIP_MESSAGE | Some w \<Rightarrow> gs_text w)"

definition sendPreparedGossip :: "npc \<Rightarrow> uid \<Rightarrow> realm \<Rightarrow> realm res" where
  "sendPreparedGossip c p r = SendGossipMenu p (GetMapNpcId c) (GetNpcTextId c r) r"

text \<open>Type and text of an answer, plain and empty without a row.\<close>

definition GetNpcGossip :: "npc \<Rightarrow> u32 \<Rightarrow> u32 \<Rightarrow> realm \<Rightarrow> u16 \<times> u8" where
  "GetNpcGossip c sequence action r =
     (case find (\<lambda>w. gs_npc w = np_guid c \<and> gs_sequence w = sequence \<and>
                     (gs_action w = action - GOSSIP_OPTION_START \<or> gs_action w = 0)) (rl_gossip r) of
        None \<Rightarrow> (0, GOSSIP_TYPE_PLAIN) | Some w \<Rightarrow> (gs_text w, gs_type w))"

definition end_dialog :: "uid \<Rightarrow> realm \<Rightarrow> realm res" where
  "end_dialog p r = on_hero p (\<lambda>h. Inr (EndOfRequest h)) (CloseMenu p r)"

text \<open>The first row of the sequence decides; another option gets no answer.\<close>

definition OnGossipSelect :: "npc \<Rightarrow> uid \<Rightarrow> u32 \<Rightarrow> u32 \<Rightarrow> realm \<Rightarrow> realm res" where
  "OnGossipSelect c p sequence option r =
     (if option = GOSSIP_OPTION_END then end_dialog p r
      else case find (\<lambda>w. gs_npc w = np_guid c \<and> gs_sequence w = sequence) (rl_gossip r) of
             None \<Rightarrow> SendTalking p (GetMapNpcId c) DEFAULT_GOSSIP_MESSAGE GOSSIP_TYPE_PLAIN r
           | Some w \<Rightarrow>
               if gs_action w \<noteq> option - GOSSIP_OPTION_START then Inr r
               else SendTalking p (GetMapNpcId c) (gs_text w) (gs_type w) r)"

subsection \<open>Scripts\<close>

datatype script = Script_default | Script_innkeeper | Script_vendor

definition GetScriptByName :: "bytes \<Rightarrow> script option" where
  "GetScriptByName name =
     (if name = ascii ''default'' then Some Script_default
      else if name = ascii ''npc_innkeeper'' then Some Script_innkeeper
      else if name = ascii ''npc_vendor'' then Some Script_vendor else None)"

text \<open>The innkeeper is remembered by the low half of its guid.\<close>

definition GossipHello_npc_innkeeper :: "npc \<Rightarrow> uid \<Rightarrow> realm \<Rightarrow> realm res" where
  "GossipHello_npc_innkeeper c p r = bindR (TalkedToCreature p (ucast (np_guid c)) r) (sendPreparedGossip c p)"

definition GossipHello_npc_vendor :: "npc \<Rightarrow> uid \<Rightarrow> realm \<Rightarrow> realm res" where
  "GossipHello_npc_vendor c p r =
     bindR (TalkedToCreature p (npc_guid c) r) (\<lambda>r1. SendMenu p (GetMapNpcId c) (GetNpcTextId c r1) r1)"

definition GossipSelect_npc_vendor :: "npc \<Rightarrow> uid \<Rightarrow> u32 \<Rightarrow> u32 \<Rightarrow> realm \<Rightarrow> realm res" where
  "GossipSelect_npc_vendor c p sequence action r =
     (if action = GOSSIP_OPTION_END then end_dialog p r
      else case GetNpcGossip c sequence action r of (textId, ty) \<Rightarrow> SendTalking p (GetMapNpcId c) textId ty r)"

text \<open>The second component says whether the script took the dialog over.\<close>

definition GossipHello :: "npc \<Rightarrow> uid \<Rightarrow> realm \<Rightarrow> (bool \<times> realm) res" where
  "GossipHello c p r =
     (case GetScriptByName (np_script c) of
        Some Script_innkeeper \<Rightarrow> bindR (GossipHello_npc_innkeeper c p r) (\<lambda>r1. Inr (True, r1))
      | Some Script_vendor \<Rightarrow> bindR (GossipHello_npc_vendor c p r) (\<lambda>r1. Inr (True, r1))
      | _ \<Rightarrow> Inr (False, r))"

definition GossipSelect :: "npc \<Rightarrow> uid \<Rightarrow> u32 \<Rightarrow> u32 \<Rightarrow> realm \<Rightarrow> (bool \<times> realm) res" where
  "GossipSelect c p sender action r =
     (case GetScriptByName (np_script c) of
        Some Script_innkeeper \<Rightarrow> Inr (True, r)
      | Some Script_vendor \<Rightarrow> bindR (GossipSelect_npc_vendor c p sender action r) (\<lambda>r1. Inr (True, r1))
      | _ \<Rightarrow> Inr (False, r))"

subsection \<open>The packets\<close>

text \<open>What only moderators see, formatted into a buffer of 1024 bytes.\<close>

definition sys_say :: "uid \<Rightarrow> bytes \<Rightarrow> realm \<Rightarrow> realm res" where
  "sys_say p txt = send_to p 0x02 ([FU8 0x0B, FU32 0] @ str_fields (take 1023 txt))"

definition debug_npc :: "u32 \<Rightarrow> uid \<Rightarrow> bytes \<Rightarrow> realm \<Rightarrow> realm res" where
  "debug_npc sec p txt r = (if sec > SEC_PLAYER then sys_say p txt r else Inr r)"

definition number :: "nat \<Rightarrow> bytes" where
  "number n = ascii (show_nat n)"

definition where_npc :: "bytes \<Rightarrow> u32 \<Rightarrow> u16 \<Rightarrow> u8 \<Rightarrow> bytes" where
  "where_npc name low mapid n =
     ascii ''WORLD: '' @ [39] @ name @ [39] @ ascii '' guid '' @ number (unat low) @ ascii '' map '' @
     number (unat mapid) @ ascii '' id '' @ number (unat n)"

definition greet :: "rules \<Rightarrow> npc \<Rightarrow> uid \<Rightarrow> realm \<Rightarrow> realm res" where
  "greet cf c p r =
     (if np_dead c then Inr r
      else if npc_flag UNIT_NPC_FLAG_GOSSIP c \<or> npc_flag UNIT_NPC_FLAG_QUESTGIVER c \<or> isServiceProvider c
      then bindR (GossipHello c p r) (\<lambda>(ok, r1).
             if ok then Inr r1
             else bindR (TalkedToCreature p (npc_guid c) r1) (sendPreparedGossip c p))
      else in_arena (start_battle p (Engage_creature cf p (np_guid c) (GetMapNpcId c))) r)"

definition HandlePlayerClickNpc :: "rules \<Rightarrow> u32 \<Rightarrow> uid \<Rightarrow> byte_buffer \<Rightarrow> realm \<Rightarrow> realm res" where
  "HandlePlayerClickNpc cf sec p b r =
     bindR (get_hero p (rl_arena r)) (\<lambda>h.
       if u_death (h_unit h) = DEAD then Inr r
       else if bb_size b < 1 then Inr r
       else bindR (read_u8 b) (\<lambda>(n, _).
         let guid = GetNpcGuidByMapNpcId (h_map h) n; low = GenerateNpcGuidLow (h_map h) n
         in case GetNPCIfCanInteractWith h guid r of
              None \<Rightarrow> bindR (SendTalking p n DEFAULT_GOSSIP_MESSAGE GOSSIP_TYPE_PLAIN r)
                        (debug_npc sec p (where_npc (ascii ''<none>'') low (h_map h) n))
            | Some c \<Rightarrow> bindR (debug_npc sec p (where_npc (np_name c) low (h_map h) n) r) (greet cf c p)))"

definition HandlePlayerSelectDialogOpcodes :: "u32 \<Rightarrow> uid \<Rightarrow> byte_buffer \<Rightarrow> realm \<Rightarrow> realm res" where
  "HandlePlayerSelectDialogOpcodes sec p b r =
     (if bb_size b < 1 then Inr r
      else bindR (read_u8 b) (\<lambda>(option, _). bindR (get_hero p (rl_arena r)) (\<lambda>h.
        let guid = mv_talkedTo (rl_mover r p)
        in case GetNPCIfCanInteractWith h guid r of
             None \<Rightarrow> debug_npc sec p (ascii ''WORLD: '' @ [39] @ ascii ''<none>'' @ [39] @ ascii '' guid '' @
                       number (unat (GUID_LOPART guid))) r
           | Some c \<Rightarrow>
               let sequence = mv_sequence (rl_mover r p)
               in bindR (GossipSelect c p sequence (ucast option) r) (\<lambda>(ok, r1).
                    if ok then Inr r1 else OnGossipSelect c p sequence (ucast option) r1))))"

definition HandlePlayerActionOpcode ::
  "rules \<Rightarrow> (u16 \<Rightarrow> (u8 \<times> u16 \<times> u16) list) \<Rightarrow> nat \<Rightarrow> u32 \<Rightarrow> uid \<Rightarrow> byte_buffer \<Rightarrow> realm \<Rightarrow> realm res option" where
  "HandlePlayerActionOpcode cf npcs n sec p b r =
     (if bb_size b < 1 then Some (Inr r)
      else run_res (read_u8 b) (\<lambda>(kind, b1).
        if kind = 1 then Some (HandlePlayerClickNpc cf sec p b1 r)
        else if kind = 6 then
          Some (bindR (if mv_menuOpen (rl_mover r p) then Inr r else on_hero p (\<lambda>h. Inr (EndOfRequest h)) r)
                  (\<lambda>r1. Inr (CloseMenu p r1)))
        else if kind = 8 then
          (if mv_dontMove (rl_mover r p) then Some (Inr r) else HandlePlayerEnterDoorOpcode npcs n sec p b1 r)
        else if kind = 9 then Some (HandlePlayerSelectDialogOpcodes sec p b1 r)
        else Some (on_hero p (\<lambda>h. Inr (EndOfRequest h)) r)))"

end
