(* ===== verification/TravelFacts.thy ===== *)
theory TravelFacts
  imports Dialogs
begin

text \<open>Members of a team stay where their leader is.\<close>

subsection \<open>Running an operation of one player\<close>

lemma push_simps [simp]:
  "ar_hero (push p h a) = (ar_hero a)(p \<mapsto> h)" "ar_members (push p h a) = ar_members a"
  "ar_leader (push p h a) = ar_leader a" "ar_guid (push p h a) = ar_guid a"
  by (simp_all add: push_def)

lemma pull_simps [simp]:
  "h_map (pull p a h) = h_map h" "h_x (pull p a h) = h_x h" "h_y (pull p a h) = h_y h" "h_session (pull p a h) = h_session h"
  "h_out (pull p a h) = h_out h" "h_account (pull p a h) = h_account h" "h_name (pull p a h) = h_name h"
  by (simp_all add: pull_def)

lemma get_hero_eq: "get_hero q a = Inr h \<longleftrightarrow> (\<exists>k. ar_hero a q = Some k \<and> h = pull q a k)"
  by (auto simp: get_hero_def split: option.splits)

lemma on_hero_eq:
  "on_hero q f r = Inr r' \<longleftrightarrow> (\<exists>h k. ar_hero (rl_arena r) q = Some h \<and> f (pull q (rl_arena r) h) = Inr k \<and>
     r' = r\<lparr>rl_arena := push q k (rl_arena r)\<rparr>)"
  by (auto simp: on_hero_def in_arena_def with_hero_def run_hero_def get_hero_eq bindR_eq_Inr)

text \<open>What is kept of a realm while players only move and hear messages: teams and movers.\<close>

definition same_teams :: "realm \<Rightarrow> realm \<Rightarrow> bool" where
  "same_teams r s \<longleftrightarrow> ar_members (rl_arena s) = ar_members (rl_arena r) \<and> rl_mover s = rl_mover r"

definition where_is :: "realm \<Rightarrow> uid \<Rightarrow> (u16 \<times> u16 \<times> u16) option" where
  "where_is r p = map_option (\<lambda>h. (h_map h, h_x h, h_y h)) (ar_hero (rl_arena r) p)"

lemma on_hero_moves:
  assumes "on_hero q f r = Inr s"
    and "\<And>h k. f h = Inr k \<Longrightarrow> (h_map k, h_x k, h_y k) = g (h_map h, h_x h, h_y h)"
  shows "same_teams r s" and "where_is s = (where_is r)(q := map_option g (where_is r q))" and "where_is r q \<noteq> None"
proof -
  obtain h k where h: "ar_hero (rl_arena r) q = Some h" and f: "f (pull q (rl_arena r) h) = Inr k"
    and s: "s = r\<lparr>rl_arena := push q k (rl_arena r)\<rparr>"
    using assms(1) by (auto simp: on_hero_eq)
  show "same_teams r s" using s by (simp add: same_teams_def)
  show "where_is s = (where_is r)(q := map_option g (where_is r q))" "where_is r q \<noteq> None"
    using assms(2) [OF f] h s by (auto simp: where_is_def)
qed

lemma on_hero_stays:
  assumes "on_hero q f r = Inr s" and "\<And>h k. f h = Inr k \<Longrightarrow> (h_map k, h_x k, h_y k) = (h_map h, h_x h, h_y h)"
  shows "same_teams r s" and "where_is s = where_is r"
  using on_hero_moves [OF assms(1), where g = "\<lambda>x. x"] assms(2) by (auto simp: option.map_ident)

lemma same_teams_trans: "same_teams r s \<Longrightarrow> same_teams s t \<Longrightarrow> same_teams r t"
  by (simp add: same_teams_def)

lemma say_stays [simp]:
  "h_map (say a c fs h) = h_map h" "h_x (say a c fs h) = h_x h" "h_y (say a c fs h) = h_y h"
  "h_map (say_session c fs h) = h_map h" "h_x (say_session c fs h) = h_x h" "h_y (say_session c fs h) = h_y h"
  by (simp_all add: say_def say_session_def)

lemma say_must_stays: "say_must c fs h = Inr k \<Longrightarrow> (h_map k, h_x k, h_y k) = (h_map h, h_x h, h_y h)"
  by (auto simp: say_must_def split: if_splits)

lemma sends_stay [simp]:
  "h_map (EndOfRequest h) = h_map h" "h_x (EndOfRequest h) = h_x h" "h_y (EndOfRequest h) = h_y h"
  "h_map (Send0504 h) = h_map h" "h_x (Send0504 h) = h_x h" "h_y (Send0504 h) = h_y h"
  by (simp_all add: EndOfRequest_def Send1408_def Send0504_def)

subsection \<open>Walking\<close>

lemma foldR_relocate:
  assumes "foldR (\<lambda>m. on_hero m (\<lambda>k. Inr (Relocate x y k))) ms r = Inr s"
  shows "same_teams r s \<and> where_is s = (\<lambda>q. if q \<in> set ms then map_option (\<lambda>(m, _). (m, x, y)) (where_is r q) else where_is r q)"
  using assms
proof (induction ms arbitrary: r)
  case Nil
  then show ?case by (simp add: same_teams_def)
next
  case (Cons m ms)
  then obtain t where t: "on_hero m (\<lambda>k. Inr (Relocate x y k)) r = Inr t"
    and rest: "foldR (\<lambda>m. on_hero m (\<lambda>k. Inr (Relocate x y k))) ms t = Inr s"
    by (auto simp: bindR_eq_Inr)
  have "same_teams r t" "where_is t = (where_is r)(m := map_option (\<lambda>(a, _). (a, x, y)) (where_is r m))"
    using on_hero_moves [OF t, where g = "\<lambda>(a, _). (a, x, y)"] by (auto simp: Relocate_def)
  with Cons.IH [OF rest] show ?case
    by (auto simp: fun_eq_iff same_teams_def option.map_comp intro!: option.map_cong)
qed

lemma UpdateRelocation_moves:
  assumes "UpdateRelocationToSet p r = Inr s"
  shows "\<exists>a x y. where_is r p = Some (a, x, y) \<and> same_teams r s \<and>
    where_is s = (\<lambda>q. if q \<in> set (team r p) then map_option (\<lambda>(m, _). (m, x, y)) (where_is r q) else where_is r q)"
proof -
  obtain h t where h: "get_hero p (rl_arena r) = Inr h"
    and t: "on_hero p (\<lambda>h. Inr (say (ToSet False) 0x06
              [FU8 1, FU32 (h_account h), FU8 (mv_orientation (rl_mover r p)), FU16 (h_x h), FU16 (h_y h)] h)) r = Inr t"
    and rest: "foldR (\<lambda>m. on_hero m (\<lambda>k. Inr (Relocate (h_x h) (h_y h) k))) (team r p) t = Inr s"
    using assms by (auto simp: UpdateRelocationToSet_def bindR_eq_Inr)
  have st: "same_teams r t" "where_is t = where_is r" using on_hero_stays [OF t] by auto
  have "where_is r p = Some (h_map h, h_x h, h_y h)" using h by (auto simp: where_is_def get_hero_eq)
  then show ?thesis using foldR_relocate [OF rest] st same_teams_trans by auto
qed

text \<open>Teams one level deep, whose members cannot walk, each in one team.\<close>

definition crews_ok :: "realm \<Rightarrow> bool" where
  "crews_ok r \<longleftrightarrow> (\<forall>l. \<forall>m \<in> set (team r l). team r m = [] \<and> mv_dontMove (rl_mover r m) \<and>
     (\<forall>k. m \<in> set (team r k) \<longrightarrow> k = l))"

definition together :: "realm \<Rightarrow> bool" where
  "together r \<longleftrightarrow> (\<forall>l. \<forall>m \<in> set (team r l). where_is r m = where_is r l)"

lemma crews_ok_members:
  assumes "crews_ok r" and "m \<in> set (team r l)"
  shows "team r m = []" and "m \<noteq> l" and "mv_dontMove (rl_mover r m)" and "m \<in> set (team r k) \<Longrightarrow> k = l"
proof -
  from assms show "team r m = []" "mv_dontMove (rl_mover r m)" "m \<in> set (team r k) \<Longrightarrow> k = l"
    by (auto simp: crews_ok_def)
  with assms show "m \<noteq> l" by auto
qed

text \<open>A player that is no member moves with its members.\<close>

lemma together_moved:
  assumes ok: "crews_ok r" and t: "together r" and alone: "\<forall>l. p \<notin> set (team r l)" and team: "team s = team r"
    and w: "\<And>q. where_is s q = (if q = p \<or> q \<in> set (team r p) then P else where_is r q)"
  shows "together s"
  unfolding together_def
proof (intro allI ballI)
  fix l m
  assume "m \<in> set (team s l)"
  then have m: "m \<in> set (team r l)" using team by simp
  show "where_is s m = where_is s l"
  proof (cases "l = p")
    case True
    then show ?thesis using m by (simp add: w)
  next
    case False
    have "m \<noteq> p" using alone m by blast
    moreover have "m \<notin> set (team r p)" using crews_ok_members(4) [OF ok m] False by blast
    moreover have "l \<notin> set (team r p)"
    proof
      assume "l \<in> set (team r p)"
      then have "team r l = []" by (rule crews_ok_members(1) [OF ok])
      then show False using m by simp
    qed
    ultimately show ?thesis using t m False by (simp add: w together_def)
  qed
qed

subsection \<open>Changing the map\<close>

lemma chain_foldR:
  assumes "Q r" and "\<And>m s. m \<in> set ms \<Longrightarrow> Q s \<Longrightarrow> f m s = Some (F m s)" and "\<And>m s s'. Q s \<Longrightarrow> F m s = Inr s' \<Longrightarrow> Q s'"
  shows "chain (map f ms) r = Some (foldR F ms r)"
  using assms(1,2)
proof (induction ms arbitrary: r)
  case Nil
  then show ?case by simp
next
  case (Cons m ms)
  have f: "f m r = Some (F m r)" using Cons.prems by simp
  show ?case
  proof (cases "F m r")
    case (Inl e)
    then show ?thesis using f by simp
  next
    case (Inr t)
    then show ?thesis using f Cons.IH [of t] Cons.prems assms(3) by simp
  qed
qed

definition lock :: "bool \<Rightarrow> uid \<Rightarrow> realm \<Rightarrow> realm" where
  "lock b p r = (if team r p \<noteq> [] then SetDontMove p b r else r)"

lemma lock_simps [simp]:
  "rl_arena (lock b p r) = rl_arena r" "where_is (lock b p r) = where_is r" "q \<noteq> p \<Longrightarrow> rl_mover (lock b p r) q = rl_mover r q"
  by (simp_all add: lock_def SetDontMove_def upd_mover_def where_is_def fun_eq_iff)

lemma on_hero_team: "on_hero q f r = Inr s \<Longrightarrow> team s = team r \<and> rl_mover s = rl_mover r"
  by (auto simp: on_hero_eq)

lemma leave_team: "leave_map q a x y r = Inr s \<Longrightarrow> team s = team r \<and> rl_mover s = rl_mover r"
  unfolding leave_map_def by (rule on_hero_team)

lemma arrive_team: "arrive npcs q r = Inr s \<Longrightarrow> team s = team r \<and> rl_mover s = rl_mover r"
  unfolding arrive_def by (rule on_hero_team)

lemma teleport_alone: "team r m = [] \<Longrightarrow> TeleportTo (Suc n) m a x y r = Some (leave_map m a x y r)"
  by (cases "leave_map m a x y r") simp_all

lemma map_changed_alone: "team r m = [] \<Longrightarrow> SendMapChanged (Suc n) npcs m r = Some (arrive npcs m r)"
  by (cases "arrive npcs m r") simp_all

lemma foldR_team:
  assumes "foldR F ms r = Inr s" and "\<And>m t t'. F m t = Inr t' \<Longrightarrow> team t' = team t \<and> rl_mover t' = rl_mover t"
  shows "team s = team r \<and> rl_mover s = rl_mover r"
  using assms(1)
proof (induction ms arbitrary: r)
  case (Cons m ms)
  then obtain t where "F m r = Inr t" "foldR F ms t = Inr s" by (auto simp: bindR_eq_Inr)
  with Cons.IH assms(2) show ?case by metis
qed simp

lemma foldR_where:
  assumes "foldR F ms r = Inr s" and "\<And>m t t'. F m t = Inr t' \<Longrightarrow> where_is t' = where_is t"
  shows "where_is s = where_is r"
  using assms(1)
proof (induction ms arbitrary: r)
  case (Cons m ms)
  then obtain t where "F m r = Inr t" "foldR F ms t = Inr s" by (auto simp: bindR_eq_Inr)
  with Cons.IH assms(2) show ?case by metis
qed simp

text \<open>With teams one level deep a depth of two is enough: the calls unfold to two loops over the members.\<close>

lemma travel_eq:
  assumes ok: "crews_ok r"
  shows "travel npcs (Suc (Suc n)) p a x y r =
    Some (bindR (bindR (leave_map p a x y (lock True p r)) (foldR (\<lambda>m. leave_map m a x y) (team r p))) (\<lambda>s.
          bindR (bindR (arrive npcs p s) (foldR (arrive npcs) (team r p))) (\<lambda>t. Inr (lock False p t))))"
proof -
  have members: "\<And>m. m \<in> set (team r p) \<Longrightarrow> team r m = []" using crews_ok_members(1) [OF ok] by blast
  have first: "TeleportTo (Suc (Suc n)) p a x y r =
      Some (bindR (leave_map p a x y (lock True p r)) (foldR (\<lambda>m. leave_map m a x y) (team r p)))"
  proof (cases "leave_map p a x y (lock True p r)")
    case (Inl e)
    then show ?thesis by (simp add: lock_def Let_def)
  next
    case (Inr t)
    then have "team t = team r" using leave_team [OF Inr] by simp
    then have "chain (map (\<lambda>m. TeleportTo (Suc n) m a x y) (team r p)) t = Some (foldR (\<lambda>m. leave_map m a x y) (team r p) t)"
      using members leave_team by (intro chain_foldR [where Q = "\<lambda>s. team s = team r"]) (auto simp: teleport_alone simp del: TeleportTo.simps)
    then show ?thesis using Inr by (simp add: lock_def Let_def)
  qed
  have second: "SendMapChanged (Suc (Suc n)) npcs p s =
      Some (bindR (bindR (arrive npcs p s) (foldR (arrive npcs) (team r p))) (\<lambda>t. Inr (lock False p t)))"
    if s: "team s = team r" for s
  proof (cases "arrive npcs p s")
    case (Inl e)
    then show ?thesis by simp
  next
    case (Inr t)
    then have t: "team t = team r" using arrive_team [OF Inr] s by simp
    then have "chain (map (\<lambda>m. SendMapChanged (Suc n) npcs m) (team r p)) t = Some (foldR (arrive npcs) (team r p) t)"
      using members arrive_team by (intro chain_foldR [where Q = "\<lambda>s. team s = team r"]) (auto simp: map_changed_alone simp del: SendMapChanged.simps)
    moreover have "foldR (arrive npcs) (team r p) t = Inr u \<Longrightarrow> team u = team r" for u
      using foldR_team [of "arrive npcs" _ t u] arrive_team t by metis
    ultimately show ?thesis
      using Inr s by (cases "foldR (arrive npcs) (team r p) t") (simp_all add: lock_def)
  qed
  show ?thesis
  proof (cases "bindR (leave_map p a x y (lock True p r)) (foldR (\<lambda>m. leave_map m a x y) (team r p))")
    case (Inl e)
    then show ?thesis by (simp add: travel_def first del: TeleportTo.simps)
  next
    case (Inr s)
    then obtain t where t: "leave_map p a x y (lock True p r) = Inr t" and f: "foldR (\<lambda>m. leave_map m a x y) (team r p) t = Inr s"
      by (auto simp: bindR_eq_Inr)
    have "team s = team r" using leave_team [OF t] foldR_team [OF f] leave_team by simp
    then show ?thesis using Inr by (simp add: travel_def first second del: TeleportTo.simps SendMapChanged.simps split: sum.split)
  qed
qed

lemma leave_moves:
  assumes "leave_map q a x y r = Inr s"
  shows "where_is s = (where_is r)(q \<mapsto> (a, x, y))"
proof -
  have "where_is s = (where_is r)(q := map_option (\<lambda>_. (a, x, y)) (where_is r q))" "where_is r q \<noteq> None"
    using on_hero_moves [OF assms [unfolded leave_map_def], where g = "\<lambda>_. (a, x, y)"] by (auto simp: Relocate_def)
  then show ?thesis by auto
qed

lemma arrive_stays:
  assumes "arrive npcs q r = Inr s"
  shows "where_is s = where_is r"
proof -
  have "(h_map k, h_x k, h_y k) = (h_map h, h_x h, h_y h)" if "UpdateMap2Npc npcs h = Inr k" for h k
    using that say_must_stays by (auto simp: UpdateMap2Npc_def split: if_splits)
  then show ?thesis using on_hero_stays [OF assms [unfolded arrive_def]] by fastforce
qed

lemma travel_moves:
  assumes ok: "crews_ok r" and run: "travel npcs (Suc (Suc n)) p a x y r = Some (Inr s)"
  shows "team s = team r" and "where_is s q = (if q = p \<or> q \<in> set (team r p) then Some (a, x, y) else where_is r q)"
    and "q \<noteq> p \<Longrightarrow> rl_mover s q = rl_mover r q"
proof -
  obtain t u v w where t: "leave_map p a x y (lock True p r) = Inr t" and u: "foldR (\<lambda>m. leave_map m a x y) (team r p) t = Inr u"
    and v: "arrive npcs p u = Inr v" and w: "foldR (arrive npcs) (team r p) v = Inr w" and s: "s = lock False p w"
    using run unfolding travel_eq [OF ok] by (auto simp: bindR_eq_Inr)
  have "team t = team r \<and> rl_mover t = rl_mover (lock True p r)" using leave_team [OF t] by simp
  moreover have "team u = team t \<and> rl_mover u = rl_mover t" using foldR_team [OF u] leave_team by simp
  moreover have "team v = team u \<and> rl_mover v = rl_mover u" by (rule arrive_team [OF v])
  moreover have "team w = team v \<and> rl_mover w = rl_mover v" using foldR_team [OF w] arrive_team by simp
  ultimately show "team s = team r" "q \<noteq> p \<Longrightarrow> rl_mover s q = rl_mover r q" using s by simp_all
  have "where_is u = (\<lambda>q. if q \<in> set ms then Some (a, x, y) else where_is t q)" if "foldR (\<lambda>m. leave_map m a x y) ms t = Inr u" for ms t u
    using that
  proof (induction ms arbitrary: t)
    case (Cons m ms)
    then obtain t' where "leave_map m a x y t = Inr t'" "foldR (\<lambda>m. leave_map m a x y) ms t' = Inr u" by (auto simp: bindR_eq_Inr)
    then show ?case using leave_moves Cons.IH by (auto simp: fun_eq_iff)
  qed simp
  from this [OF u] have "where_is u q = (if q \<in> set (team r p) then Some (a, x, y) else where_is t q)" by simp
  moreover have "where_is t q = (if q = p then Some (a, x, y) else where_is r q)" using leave_moves [OF t] by simp
  moreover have "where_is v = where_is u" by (rule arrive_stays [OF v])
  moreover have "where_is w = where_is v" using foldR_where [OF w] arrive_stays by simp
  ultimately show "where_is s q = (if q = p \<or> q \<in> set (team r p) then Some (a, x, y) else where_is r q)" using s by (cases "q = p") auto
qed

end
