(* ===== verification/TeamTravel.thy ===== *)
theory TeamTravel
  imports TravelFacts FightPackets BattleSession GrowthFacts
begin

text \<open>The packets of players keep every team in one place.\<close>

subsection \<open>Operations that move nobody\<close>

definition unmoved :: "realm \<Rightarrow> realm \<Rightarrow> bool" where
  "unmoved r s \<longleftrightarrow> team s = team r \<and> where_is s = where_is r \<and>
     (\<forall>q. mv_dontMove (rl_mover s q) = mv_dontMove (rl_mover r q))"

lemma unmoved_refl [simp]: "unmoved r r"
  by (simp add: unmoved_def)

lemma unmoved_trans: "unmoved r s \<Longrightarrow> unmoved s t \<Longrightarrow> unmoved r t"
  by (simp add: unmoved_def)

lemma unmoved_bind: "bindR x f = Inr t \<Longrightarrow> (\<And>s. x = Inr s \<Longrightarrow> unmoved r s) \<Longrightarrow> (\<And>s t. f s = Inr t \<Longrightarrow> unmoved s t) \<Longrightarrow> unmoved r t"
  by (auto simp: bindR_eq_Inr intro: unmoved_trans)

lemma unmoved_on_hero:
  assumes "on_hero q f r = Inr s" and "\<And>h k. f h = Inr k \<Longrightarrow> (h_map k, h_x k, h_y k) = (h_map h, h_x h, h_y h)"
  shows "unmoved r s"
  using on_hero_stays [OF assms] by (simp add: unmoved_def same_teams_def)

lemma unmoved_mover: "(\<And>m. mv_dontMove (f m) = mv_dontMove m) \<Longrightarrow> unmoved r (upd_mover p f r)"
  by (simp add: unmoved_def upd_mover_def where_is_def fun_eq_iff)

lemma unmoved_send: "send_to p c fs r = Inr s \<Longrightarrow> unmoved r s"
  unfolding send_to_def by (erule unmoved_on_hero) auto

lemma unmoved_end: "on_hero p (\<lambda>h. Inr (EndOfRequest h)) r = Inr s \<Longrightarrow> unmoved r s"
  by (erule unmoved_on_hero) auto

lemma unmoved_menu: "unmoved r (CloseMenu p r)" "unmoved r (IncTalkedSequence p r)" "unmoved r (SetExpression p t c r)"
  unfolding CloseMenu_def IncTalkedSequence_def SetExpression_def by (rule unmoved_mover; simp)+

lemma unmoved_talking: "SendTalking p n t ty r = Inr s \<Longrightarrow> unmoved r s"
  by (auto simp: SendTalking_def bindR_eq_Inr split: if_splits intro: unmoved_trans [OF unmoved_menu(2)] unmoved_trans [OF unmoved_menu(2) unmoved_trans [OF unmoved_send unmoved_send]]
      unmoved_trans [OF unmoved_send unmoved_send] unmoved_send)

lemma unmoved_end_dialog: "end_dialog p r = Inr s \<Longrightarrow> unmoved r s"
  by (auto simp: end_dialog_def intro: unmoved_trans unmoved_menu unmoved_end)

lemma unmoved_select: "OnGossipSelect c p sq opt r = Inr s \<Longrightarrow> unmoved r s"
  by (auto simp: OnGossipSelect_def split: if_splits option.splits intro: unmoved_end_dialog unmoved_talking)

lemma unmoved_script: "GossipSelect c p sq opt r = Inr (ok, s) \<Longrightarrow> unmoved r s"
  by (auto simp: GossipSelect_def GossipSelect_npc_vendor_def bindR_eq_Inr
      split: option.splits script.splits if_splits prod.splits intro: unmoved_end_dialog unmoved_talking)

lemma unmoved_debug: "debug_npc sec p tx r = Inr s \<Longrightarrow> unmoved r s"
  by (auto simp: debug_npc_def sys_say_def split: if_splits intro: unmoved_send)

lemma unmoved_dialog: "HandlePlayerSelectDialogOpcodes sec p b r = Inr s \<Longrightarrow> unmoved r s"
  by (auto simp: HandlePlayerSelectDialogOpcodes_def Let_def bindR_eq_Inr split: if_splits option.splits
      intro: unmoved_debug unmoved_script unmoved_trans [OF unmoved_script unmoved_select])

lemma unmoved_announce:
  assumes "announce_team p r = Inr s"
  shows "unmoved r s"
proof (cases "team r p = []")
  case True
  then show ?thesis using assms by (simp add: announce_team_def)
next
  case False
  then obtain t where t: "on_hero p (\<lambda>h. bindR (team_block p (rl_arena r) h) (\<lambda>blk.
             Inr (case blk of None \<Rightarrow> h | Some (opcode, fs) \<Rightarrow> say (ToSet True) opcode fs h))) r = Inr t"
    and u: "UpdateTeamSub_map p t = Inr s"
    using assms by (auto simp: announce_team_def bindR_eq_Inr)
  have "unmoved r t" by (rule unmoved_on_hero [OF t]) (auto simp: bindR_eq_Inr split: option.splits prod.splits)
  moreover have "unmoved t s"
  proof (cases "ar_guid (rl_arena t) (ucast (mv_subleader (rl_mover t p)))")
    case None
    then show ?thesis using u by (simp add: UpdateTeamSub_map_def)
  next
    case (Some q)
    then obtain k :: hero where "on_hero p (\<lambda>h. bindR (say_must 0x0D [FU8 8, FU32 (h_account k)] h) (\<lambda>h1.
              Inr (say (ToSet True) 0x0D [FU8 0x0B, FU32 (h_account k)]
                (say (ToSet True) 0x0D [FU8 7, FU32 (h_account k)] h1)))) t = Inr s"
      using u by (auto simp: UpdateTeamSub_map_def bindR_eq_Inr)
    then show ?thesis by (rule unmoved_on_hero) (auto simp: bindR_eq_Inr dest: say_must_stays)
  qed
  ultimately show ?thesis by (rule unmoved_trans)
qed

lemma unmoved_door: "adjust_door sec p a d h r = Inr s \<Longrightarrow> unmoved r s"
  by (auto simp: adjust_door_def RefreshDoorDatabase_def unmoved_def where_is_def fun_eq_iff split: if_splits)

subsection \<open>The packets\<close>

text \<open>
  What players send while they walk, pass doors, arrive, show expressions and answer in dialogs. Clicking on a creature (kind 1)
  can start a battle and is left out.
\<close>

inductive wander :: "rules \<Rightarrow> (u16 \<Rightarrow> (u8 \<times> u16 \<times> u16) list) \<Rightarrow> nat \<Rightarrow> realm \<Rightarrow> realm \<Rightarrow> bool" for cf npcs n where
  walk: "HandleMovementOpcodes p b r = Inr s \<Longrightarrow> wander cf npcs n r s"
| act: "HandlePlayerActionOpcode cf npcs (Suc (Suc n)) sec p b r = Some (Inr s) \<Longrightarrow>
     (\<And>b'. read_u8 b \<noteq> Inr (1, b')) \<Longrightarrow> wander cf npcs n r s"
| arrived: "HandlePlayerEnterMapCompletedOpcode p b r = Inr s \<Longrightarrow> wander cf npcs n r s"
| expression: "HandlePlayerExpressionOpcode p b r = Inr s \<Longrightarrow> wander cf npcs n r s"

definition at_rest :: "realm \<Rightarrow> bool" where
  "at_rest r \<longleftrightarrow> crews_ok r \<and> together r"

lemma at_rest_unmoved: "at_rest r \<Longrightarrow> unmoved r s \<Longrightarrow> at_rest s"
  by (simp add: at_rest_def unmoved_def crews_ok_def together_def)

lemma at_rest_moved:
  assumes ok: "at_rest r" and alone: "\<forall>l. p \<notin> set (team r l)" and team: "team s = team r"
    and m: "\<And>q. q \<noteq> p \<Longrightarrow> mv_dontMove (rl_mover s q) = mv_dontMove (rl_mover r q)"
    and w: "\<And>q. where_is s q = (if q = p \<or> q \<in> set (team r p) then P else where_is r q)"
  shows "at_rest s"
proof -
  have "crews_ok s" unfolding crews_ok_def
  proof (intro allI ballI)
    fix l q
    assume "q \<in> set (team s l)"
    then have q: "q \<in> set (team r l)" using team by simp
    then have "q \<noteq> p" using alone by blast
    have "crews_ok r" using ok by (simp add: at_rest_def)
    note crews_ok_members [OF this q]
    then show "team s q = [] \<and> mv_dontMove (rl_mover s q) \<and> (\<forall>k. q \<in> set (team s k) \<longrightarrow> k = l)"
      using team m [OF \<open>q \<noteq> p\<close>] by simp
  qed
  then show ?thesis using together_moved [of r p s P] assms by (simp add: at_rest_def)
qed

lemma at_rest_relocation:
  assumes ok: "at_rest r" and run: "UpdateRelocationToSet p r = Inr s"
  shows "unmoved r s"
proof -
  obtain a x y where p: "where_is r p = Some (a, x, y)" and t: "same_teams r s"
    and w: "where_is s = (\<lambda>q. if q \<in> set (team r p) then map_option (\<lambda>(m, _). (m, x, y)) (where_is r q) else where_is r q)"
    using UpdateRelocation_moves [OF run] by blast
  have "where_is r q = Some (a, x, y)" if "q \<in> set (team r p)" for q
    using ok that p by (auto simp: at_rest_def together_def)
  then have "where_is s = where_is r" using w by (auto simp: fun_eq_iff)
  then show ?thesis using t by (simp add: unmoved_def same_teams_def)
qed

lemma at_rest_walk_to:
  assumes ok: "at_rest r" and free: "\<not> mv_dontMove (rl_mover r p)" and run: "walk_to p d x y r = Inr s"
  shows "at_rest s"
proof -
  obtain h t u where h: "get_hero p (rl_arena r) = Inr h"
    and t: "on_hero p (\<lambda>h. Inr (Relocate x y h)) (upd_mover p (\<lambda>m. m\<lparr>mv_lastX := h_x h, mv_lastY := h_y h\<rparr>) r) = Inr t"
    and u: "UpdateRelocationToSet p (upd_mover p (\<lambda>m. m\<lparr>mv_orientation := d\<rparr>) t) = Inr u"
    and s: "on_hero p (\<lambda>h. Inr (EndOfRequest h)) u = Inr s"
    using run by (auto simp: walk_to_def Let_def bindR_eq_Inr)
  define r1 where "r1 = upd_mover p (\<lambda>m. m\<lparr>mv_lastX := h_x h, mv_lastY := h_y h\<rparr>) r"
  define t1 where "t1 = upd_mover p (\<lambda>m. m\<lparr>mv_orientation := d\<rparr>) t"
  have k: "unmoved r r1" "unmoved t t1" "unmoved u s"
    unfolding r1_def t1_def using s unmoved_end by (auto intro: unmoved_mover)
  have t': "same_teams r1 t" "where_is t = (where_is r1)(p := map_option (\<lambda>(a, _). (a, x, y)) (where_is r1 p))" "where_is r1 p \<noteq> None"
    using on_hero_moves [OF t [folded r1_def], where g = "\<lambda>(a, _). (a, x, y)"] by (auto simp: Relocate_def)
  then obtain a x0 y0 where p: "where_is r p = Some (a, x0, y0)" using k(1) by (auto simp: unmoved_def)
  then have tp: "where_is t1 = (where_is r)(p \<mapsto> (a, x, y))" and tt: "team t1 = team r"
    using t' k by (auto simp: unmoved_def same_teams_def)
  obtain a' x' y' where u': "where_is t1 p = Some (a', x', y')" "same_teams t1 u"
    "where_is u = (\<lambda>q. if q \<in> set (team t1 p) then map_option (\<lambda>(m, _). (m, x', y')) (where_is t1 q) else where_is t1 q)"
    using UpdateRelocation_moves [OF u [folded t1_def]] by blast
  have P: "(a', x', y') = (a, x, y)" using u'(1) tp by simp
  have alone: "\<forall>l. p \<notin> set (team r l)" using ok free by (auto simp: at_rest_def crews_ok_def)
  have near: "where_is r q = Some (a, x0, y0)" if "q \<in> set (team r p)" for q
    using ok that p by (auto simp: at_rest_def together_def)
  show ?thesis
  proof (rule at_rest_moved [OF ok alone])
    show "team s = team r" using k u' tt by (simp add: unmoved_def same_teams_def)
    show "mv_dontMove (rl_mover s q) = mv_dontMove (rl_mover r q)" if "q \<noteq> p" for q
      using k u' t' by (simp add: unmoved_def same_teams_def)
    show "where_is s q = (if q = p \<or> q \<in> set (team r p) then Some (a, x, y) else where_is r q)" for q
      using k(3) u'(3) P tp tt near [of q] alone by (auto simp: unmoved_def)
  qed
qed

lemma at_rest_door:
  assumes ok: "at_rest r" and free: "\<not> mv_dontMove (rl_mover r p)"
    and run: "HandlePlayerEnterDoorOpcode npcs (Suc (Suc n)) sec p b r = Some (Inr s)"
  shows "at_rest s"
proof (cases "bb_size b < 2")
  case True
  then show ?thesis using run ok by (simp add: HandlePlayerEnterDoorOpcode_def)
next
  case False
  then obtain door h where step: "(case FindMapMatrix (h_map h) door (rl_doors r) of
        None \<Rightarrow> Some (on_hero p (\<lambda>h. Inr (EndOfRequest h)) r)
      | Some dest \<Rightarrow> run_res (adjust_door sec p (h_map h) (fst dest) h r) (pass_door npcs (Suc (Suc n)) p dest)) = Some (Inr s)"
    using run by (auto simp: HandlePlayerEnterDoorOpcode_def run_res_def bindR_eq_Inr split: sum.splits prod.splits)
  show ?thesis
  proof (cases "FindMapMatrix (h_map h) door (rl_doors r)")
    case None
    then show ?thesis using step ok at_rest_unmoved unmoved_end by auto
  next
    case (Some dest)
    obtain d x y where dest: "dest = (d, x, y)" using prod_cases3 by blast
    obtain r1 r2 r3 where r1: "adjust_door sec p (h_map h) d h r = Inr r1"
      and r2: "on_hero p (\<lambda>h. bindR (say_must 0x14 [FU8 7] h) (say_must 0x29 [FU8 0x0E])) r1 = Inr r2"
      and r3: "travel npcs (Suc (Suc n)) p d x y r2 = Some (Inr r3)" and s: "announce_team p r3 = Inr s"
      using step Some dest by (auto simp: run_res_def pass_door_def bindR_eq_Inr split: sum.splits)
    have "unmoved r1 r2" by (rule unmoved_on_hero [OF r2]) (auto simp: bindR_eq_Inr dest!: say_must_stays)
    then have k: "unmoved r r2" using unmoved_door [OF r1] unmoved_trans by blast
    then have ok2: "at_rest r2" by (rule at_rest_unmoved [OF ok])
    have alone: "\<forall>l. p \<notin> set (team r2 l)" using ok2 free k by (auto simp: at_rest_def crews_ok_def unmoved_def)
    have "crews_ok r2" using ok2 by (simp add: at_rest_def)
    note moved = travel_moves [OF this r3]
    have "at_rest r3"
      by (rule at_rest_moved [OF ok2 alone, where P = "Some (d, x, y)"]) (simp_all add: moved)
    then show ?thesis using unmoved_announce [OF s] at_rest_unmoved by blast
  qed
qed

lemma at_rest_act:
  assumes ok: "at_rest r" and run: "HandlePlayerActionOpcode cf npcs (Suc (Suc n)) sec p b r = Some (Inr s)"
    and no_click: "\<And>b'. read_u8 b \<noteq> Inr (1, b')"
  shows "at_rest s"
proof (cases "bb_size b < 1")
  case True
  then show ?thesis using run ok by (simp add: HandlePlayerActionOpcode_def)
next
  case False
  then obtain kind b1 where rd: "read_u8 b = Inr (kind, b1)" using run
    by (auto simp: HandlePlayerActionOpcode_def run_res_def split: sum.splits)
  then have "kind \<noteq> 1" using no_click by blast
  note run' = run [unfolded HandlePlayerActionOpcode_def run_res_def rd, simplified False if_False sum.case prod.case]
  consider "kind = 6" | "kind = 8" | "kind = 9" | "kind \<notin> {1, 6, 8, 9}" using \<open>kind \<noteq> 1\<close> by auto
  then show ?thesis
  proof cases
    case 1
    then show ?thesis using run' ok at_rest_unmoved
      by (auto simp: bindR_eq_Inr split: if_splits intro: unmoved_menu unmoved_trans [OF unmoved_end unmoved_menu(1)])
  next
    case 2
    then show ?thesis using run' ok at_rest_door [OF ok] by (auto split: if_splits)
  next
    case 3
    then show ?thesis using run' ok at_rest_unmoved unmoved_dialog by auto
  next
    case 4
    then show ?thesis using run' ok at_rest_unmoved unmoved_end by auto
  qed
qed

lemma at_rest_step: "wander cf npcs n r s \<Longrightarrow> at_rest r \<Longrightarrow> at_rest s"
proof (induction rule: wander.induct)
  case (walk p b r s)
  show ?case
  proof (cases "bb_size b < 8 \<or> mv_dontMove (rl_mover r p)")
    case True
    then show ?thesis using walk by (auto simp: HandleMovementOpcodes_def split: if_splits)
  next
    case False
    then obtain d x y where run: "walk_to p d x y (SetExpression p 0 0 r) = Inr s"
      using walk(1) by (auto simp: HandleMovementOpcodes_def Let_def bindR_eq_Inr)
    have "unmoved r (SetExpression p 0 0 r)" by (rule unmoved_menu)
    then have "at_rest (SetExpression p 0 0 r)" "\<not> mv_dontMove (rl_mover (SetExpression p 0 0 r) p)"
      using walk(2) False at_rest_unmoved by (auto simp: unmoved_def)
    then show ?thesis using run by (rule at_rest_walk_to)
  qed
next
  case (act sec p b r s)
  from act(3,1,2) show ?case by (rule at_rest_act)
next
  case (arrived p b r s)
  show ?case
  proof (cases "bb_size b < 1")
    case True
    then show ?thesis using arrived by (simp add: HandlePlayerEnterMapCompletedOpcode_def)
  next
    case False
    then obtain t where t: "on_hero p (\<lambda>h. Inr (EndOfRequest h)) r = Inr t" and "s = t \<or> UpdateRelocationToSet p t = Inr s"
      using arrived(1) by (auto simp: HandlePlayerEnterMapCompletedOpcode_def bindR_eq_Inr split: if_splits)
    moreover have "at_rest t" by (rule at_rest_unmoved [OF arrived(2) unmoved_end [OF t]])
    ultimately show ?thesis using at_rest_relocation at_rest_unmoved by blast
  qed
next
  case (expression p b r s)
  show ?case
  proof (cases "bb_size b < 2")
    case True
    then show ?thesis using expression by (simp add: HandlePlayerExpressionOpcode_def)
  next
    case False
    then obtain t c where "on_hero p (\<lambda>h. Inr (if t = 0 \<or> c = 0 then say (ToSet False) 0 [] h
          else say (ToSet False) 0x20 [FU8 t, FU32 (h_account h), FU8 c] h)) (SetExpression p t c r) = Inr s"
      using expression(1) by (auto simp: HandlePlayerExpressionOpcode_def bindR_eq_Inr)
    then have "unmoved (SetExpression p t c r) s" by (rule unmoved_on_hero) (auto split: if_splits)
    then show ?thesis using at_rest_unmoved [OF expression(2)] unmoved_trans [OF unmoved_menu(3)] by blast
  qed
qed

text \<open>C12: while players walk, pass doors, arrive, show expressions and answer dialogs, in any order, every team stays
  in one place: each member is on the map and at the position of its leader, members cannot walk off, and no
  member belongs to two teams or leads one.
\<close>

theorem team_stays_together:
  assumes "(wander cf npcs n)\<^sup>*\<^sup>* r s" and "crews_ok r" and "together r"
  shows "crews_ok s \<and> together s"
proof -
  have "at_rest s"
    using assms(1) by (induction rule: rtranclp_induct) (use assms(2,3) at_rest_step in \<open>auto simp: at_rest_def\<close>)
  then show ?thesis by (simp add: at_rest_def)
qed

subsection \<open>A door takes the team along\<close>

text \<open>Players who are in the world and connected; whoever a guid finds is in the world too.\<close>

definition staffed :: "uid set \<Rightarrow> realm \<Rightarrow> bool" where
  "staffed Q r \<longleftrightarrow> registry_ok (rl_arena r) \<and> (\<forall>q \<in> Q. \<exists>h. ar_hero (rl_arena r) q = Some h \<and> h_session h)"

definition lively :: "(hero \<Rightarrow> hero res) \<Rightarrow> bool" where
  "lively f \<longleftrightarrow> (\<forall>h. h_session h \<longrightarrow> (\<exists>k. f h = Inr k \<and> h_session k))"

lemma on_hero_total:
  assumes "staffed Q r" and "q \<in> Q" and "lively f"
  shows "\<exists>s. on_hero q f r = Inr s \<and> staffed Q s"
proof -
  obtain h where h: "ar_hero (rl_arena r) q = Some h" "h_session h" using assms(1,2) by (auto simp: staffed_def)
  then have "h_session (pull q (rl_arena r) h)" by simp
  then obtain k where k: "f (pull q (rl_arena r) h) = Inr k" "h_session k" using assms(3) unfolding lively_def by blast
  let ?s = "r\<lparr>rl_arena := push q k (rl_arena r)\<rparr>"
  have "on_hero q f r = Inr ?s" using h(1) k(1) by (auto simp: on_hero_eq)
  moreover have "staffed Q ?s" using assms(1) k(2) by (auto simp: staffed_def registry_ok_def)
  ultimately show ?thesis by blast
qed

lemma lively_intros:
  "lively (\<lambda>h. Inr (say a c (fs h) h))" "lively (\<lambda>h. Inr (Relocate x y ((say a c (fs h) h)\<lparr>h_map := m\<rparr>)))"
  "lively (\<lambda>h. bindR (say_must 0x14 [FU8 7] h) (say_must 0x29 [FU8 0x0E]))"
  "lively (\<lambda>h. UpdateMap2Npc npcs (Send0504 (say_session c (fs h) h)))"
  "lively (\<lambda>h. bindR (say_must c gs h) (\<lambda>h1. Inr (say a d fs2 (say a d fs3 h1))))"
  by (auto simp: lively_def say_def say_must_def say_session_def Relocate_def UpdateMap2Npc_def Send0504_def)

lemma foldR_run:
  assumes "\<And>m t. m \<in> set ms \<Longrightarrow> staffed Q t \<Longrightarrow> \<exists>s. F m t = Inr s \<and> staffed Q s" and "staffed Q r"
  shows "\<exists>s. foldR F ms r = Inr s \<and> staffed Q s"
  using assms
proof (induction ms arbitrary: r)
  case (Cons m ms)
  then obtain t where t: "F m r = Inr t" "staffed Q t" by fastforce
  moreover have "\<exists>s. foldR F ms t = Inr s \<and> staffed Q s" using Cons.IH [OF _ t(2)] Cons.prems(1) by simp
  ultimately show ?case by simp
qed simp

lemma travel_total:
  assumes ok: "crews_ok r" and st: "staffed (insert p (set (team r p))) r"
  shows "\<exists>s. travel npcs (Suc (Suc n)) p a x y r = Some (Inr s) \<and> staffed (insert p (set (team r p))) s"
proof -
  let ?Q = "insert p (set (team r p))"
  have leave: "\<exists>s. leave_map q a x y t = Inr s \<and> staffed ?Q s" if "staffed ?Q t" "q \<in> ?Q" for q t
    unfolding leave_map_def by (rule on_hero_total [OF that]) (rule lively_intros)
  have arr: "\<exists>s. arrive npcs q t = Inr s \<and> staffed ?Q s" if "staffed ?Q t" "q \<in> ?Q" for q t
    unfolding arrive_def by (rule on_hero_total [OF that]) (rule lively_intros)
  have "staffed ?Q (lock True p r)" using st by (simp add: staffed_def)
  then obtain t where t: "leave_map p a x y (lock True p r) = Inr t" "staffed ?Q t" using leave by blast
  obtain u where u: "foldR (\<lambda>m. leave_map m a x y) (team r p) t = Inr u" "staffed ?Q u"
    using foldR_run [of "team r p" ?Q "\<lambda>m. leave_map m a x y" t] leave t(2) by blast
  obtain v where v: "arrive npcs p u = Inr v" "staffed ?Q v" using arr u(2) by blast
  obtain w where w: "foldR (arrive npcs) (team r p) v = Inr w" "staffed ?Q w"
    using foldR_run [of "team r p" ?Q "arrive npcs" v] arr v(2) by blast
  show ?thesis unfolding travel_eq [OF ok] using t(1) u(1) v(1) w by (simp add: staffed_def)
qed

lemma team_accounts_total: "staffed (set ms) r \<Longrightarrow> \<exists>fs. team_accounts ms (rl_arena r) = Inr fs"
  by (induction ms) (auto simp: staffed_def)

lemma announce_total:
  assumes "staffed (insert p (set (team r p))) r"
  shows "\<exists>s. announce_team p r = Inr s"
proof (cases "team r p = []")
  case True
  then show ?thesis by (simp add: announce_team_def)
next
  case False
  let ?Q = "insert p (set (team r p))"
  have "staffed (set (team r p)) r" using assms by (simp add: staffed_def)
  then obtain fs where fs: "team_accounts (team r p) (rl_arena r) = Inr fs" using team_accounts_total by blast
  let ?f = "\<lambda>h. bindR (team_block p (rl_arena r) h) (\<lambda>blk.
      Inr (case blk of None \<Rightarrow> h | Some (opcode, fs) \<Rightarrow> say (ToSet True) opcode fs h))"
  have "lively ?f" using False fs by (auto simp: lively_def team_block_def say_def)
  then obtain t where t: "on_hero p ?f r = Inr t" "staffed ?Q t" using on_hero_total [OF assms(1), of p ?f] by blast
  then have "registry_ok (rl_arena t)" by (simp add: staffed_def)
  then have "\<exists>s. UpdateTeamSub_map p t = Inr s"
  proof (cases "ar_guid (rl_arena t) (ucast (mv_subleader (rl_mover t p)))")
    case (Some q)
    then obtain h where "ar_hero (rl_arena t) q = Some h"
      using \<open>registry_ok (rl_arena t)\<close> by (auto simp: registry_ok_def)
    then obtain k where "get_hero q (rl_arena t) = Inr k" by (simp add: get_hero_def)
    moreover obtain s where "on_hero p (\<lambda>h. bindR (say_must 0x0D [FU8 8, FU32 (h_account k)] h) (\<lambda>h1.
              Inr (say (ToSet True) 0x0D [FU8 0x0B, FU32 (h_account k)]
                (say (ToSet True) 0x0D [FU8 7, FU32 (h_account k)] h1)))) t = Inr s"
      using on_hero_total [OF t(2), of p] lively_intros(5) by blast
    ultimately show ?thesis using Some by (simp add: UpdateTeamSub_map_def)
  qed (simp add: UpdateTeamSub_map_def)
  with t(1) False show ?thesis by (simp add: announce_team_def)
qed

text \<open>C25: the packet for a door takes a player that can walk, and with it every member of its team, to the place
  behind the door, whoever they are, moves nobody else, and never fails while all of them are connected.
\<close>

theorem door_takes_team:
  assumes packet: "holds b [FU8 8, FU8 door]" and ok: "crews_ok r" and free: "\<not> mv_dontMove (rl_mover r p)"
    and hero: "ar_hero (rl_arena r) p = Some h" and door: "FindMapMatrix (h_map h) door (rl_doors r) = Some (d, x, y)"
    and sec: "sec \<le> SEC_GAMEMASTER" and staff: "staffed (insert p (set (team r p))) r"
  shows "\<exists>s. HandlePlayerActionOpcode cf npcs (Suc (Suc n)) sec p b r = Some (Inr s) \<and> team s = team r \<and>
    (\<forall>q. where_is s q = (if q = p \<or> q \<in> set (team r p) then Some (d, x, y) else where_is r q))"
proof -
  let ?Q = "insert p (set (team r p))"
  obtain b1 where b1: "read_u8 b = Inr (8, b1)" "holds b1 [FU8 door]" "bb_storage b1 = bb_storage b" using read_u8_holds [OF packet] by blast
  obtain b2 where b2: "read_u8 b1 = Inr (door, b2)" using read_u8_holds [OF b1(2)] by blast
  have size: "\<not> bb_size b < 1" "\<not> bb_size b1 < 2"
    using holds_size [OF packet] b1(3) by (auto simp: bb_size_def wire_u8.enc_width)
  have g: "get_hero p (rl_arena r) = Inr (pull p (rl_arena r) h)" using hero by (simp add: get_hero_def)
  have a: "adjust_door sec p (h_map h) d k r = Inr r" for k
    using sec by (simp add: adjust_door_def door_keeper_def not_less [symmetric])
  obtain t where t: "on_hero p (\<lambda>h. bindR (say_must 0x14 [FU8 7] h) (say_must 0x29 [FU8 0x0E])) r = Inr t" "staffed ?Q t"
    using on_hero_total [OF staff _ lively_intros(3)] by blast
  have k: "unmoved r t" by (rule unmoved_on_hero [OF t(1)]) (auto simp: bindR_eq_Inr dest!: say_must_stays)
  then have tt: "team t = team r" "where_is t = where_is r" by (simp_all add: unmoved_def)
  have okt: "crews_ok t" using ok k by (simp add: crews_ok_def unmoved_def)
  obtain u where u: "travel npcs (Suc (Suc n)) p d x y t = Some (Inr u)" "staffed ?Q u"
    using travel_total [OF okt, of p npcs n d x y] t(2) tt by auto
  note moved = travel_moves [OF okt u(1)]
  obtain s where s: "announce_team p u = Inr s"
    using announce_total [of p u] u(2) moved(1) tt by auto
  have "HandlePlayerActionOpcode cf npcs (Suc (Suc n)) sec p b r = Some (Inr s)"
    using size g door a t(1) u(1) s
    by (simp add: HandlePlayerActionOpcode_def HandlePlayerEnterDoorOpcode_def run_res_def b1(1) b2 free pass_door_def
        del: travel_def)
  moreover have "unmoved u s" by (rule unmoved_announce [OF s])
  ultimately show ?thesis using moved tt by (auto simp: unmoved_def)
qed

subsection \<open>An example\<close>

definition resting :: mover where
  "resting = \<lparr>mv_dontMove = False, mv_orientation = 0, mv_lastX = 0, mv_lastY = 0, mv_exprType = 0, mv_exprCode = 0,
     mv_sequence = 0, mv_menuOpen = False, mv_talkedTo = 0, mv_subleader = 0\<rparr>"

text \<open>A leader with one member at its side, in front of a door.\<close>

definition pair_realm :: realm where
  "pair_realm = \<lparr>rl_arena = \<lparr>ar_b = empty_battle, ar_hero = [1 \<mapsto> sample_hero, 2 \<mapsto> sample_hero], ar_pets = [], ar_next = 100,
       ar_engine = (\<lambda>_. False), ar_guid = [1 \<mapsto> 1, 2 \<mapsto> 2], ar_members = (\<lambda>p. if p = 1 then [2] else []),
       ar_leader = (\<lambda>p. if p = 2 then 1 else 0), ar_cache = (\<lambda>_. None), ar_petLow = 0\<rparr>,
     rl_mover = (\<lambda>p. if p = 2 then resting\<lparr>mv_dontMove := True\<rparr> else resting), rl_doors = [((10, 3), (20, 5, 6))],
     rl_matrix = [], rl_npcs = (\<lambda>_. None), rl_goods = [], rl_gossip = []\<rparr>"

lemma pair_realm_ok: "crews_ok pair_realm" "together pair_realm" "staffed {1, 2} pair_realm"
  by (auto simp: crews_ok_def together_def staffed_def registry_ok_def pair_realm_def resting_def where_is_def sample_hero_def split: if_splits)

theorem door_takes_team_witness:
  "\<exists>s. HandlePlayerActionOpcode idle_rules (\<lambda>_. []) 2 0 1 (packet_with [FU8 8, FU8 3]) pair_realm = Some (Inr s) \<and>
    where_is s 1 = Some (20, 5, 6) \<and> where_is s 2 = Some (20, 5, 6)"
proof -
  have "\<not> mv_dontMove (rl_mover pair_realm 1)" "ar_hero (rl_arena pair_realm) 1 = Some sample_hero"
    "FindMapMatrix (h_map sample_hero) 3 (rl_doors pair_realm) = Some (20, 5, 6)" "team pair_realm 1 = [2]"
    by (simp_all add: pair_realm_def resting_def FindMapMatrix_def sample_hero_def)
  then show ?thesis
    using door_takes_team [OF packet_with_holds(1) pair_realm_ok(1), of 1 sample_hero 3 20 5 6 0 idle_rules "\<lambda>_. []" 0]
      pair_realm_ok(3) by (auto simp: numeral_2_eq_2)
qed

lemma pair_walks:
  "\<exists>s. HandleMovementOpcodes 1 (packet_with [FU8 1, FU8 2, FU16 7, FU16 8, FU16 0]) pair_realm = Inr s \<and>
    where_is s 2 = Some (10, 7, 8) \<and> team s 1 = [2]"
proof -
  let ?b = "packet_with [FU8 1, FU8 2, FU16 7, FU16 8, FU16 0]"
  obtain b1 where b1: "read_u8 ?b = Inr (1, b1)" "holds b1 [FU8 2, FU16 7, FU16 8, FU16 0]"
    using read_u8_holds [OF packet_with_holds(1)] by blast
  obtain b2 where b2: "read_u8 b1 = Inr (2, b2)" "holds b2 [FU16 7, FU16 8, FU16 0]" using read_u8_holds [OF b1(2)] by blast
  obtain b3 where b3: "read_u16 b2 = Inr (7, b3)" "holds b3 [FU16 8, FU16 0]" using read_u16_holds [OF b2(2)] by blast
  obtain b4 where b4: "read_u16 b3 = Inr (8, b4)" "holds b4 [FU16 0]" using read_u16_holds [OF b3(2)] by blast
  obtain b5 where b5: "read_u16 b4 = Inr (0, b5)" using read_u16_holds [OF b4(2)] by blast
  have "\<not> bb_size ?b < 8" using holds_size [OF packet_with_holds(1), of "[FU8 1, FU8 2, FU16 7, FU16 8, FU16 0]"]
    by (simp add: wire_u8.enc_width wire_u16.enc_width)
  then have run: "HandleMovementOpcodes 1 ?b pair_realm = walk_to 1 2 7 8 (SetExpression 1 0 0 pair_realm)"
    by (simp add: HandleMovementOpcodes_def b1(1) b2(1) b3(1) b4(1) b5 pair_realm_def resting_def)
  have "\<exists>s. walk_to 1 2 7 8 (SetExpression 1 0 0 pair_realm) = Inr s \<and> where_is s 2 = Some (10, 7, 8) \<and> team s 1 = [2]"
    by (simp add: walk_to_def UpdateRelocationToSet_def on_hero_def in_arena_def with_hero_def run_hero_def get_hero_def Let_def
        SetExpression_def upd_mover_def pair_realm_def Relocate_def where_is_def sample_hero_def say_def EndOfRequest_def Send1408_def
        say_session_def)
  then show ?thesis unfolding run .
qed

theorem team_stays_together_witness:
  "\<exists>s. wander idle_rules (\<lambda>_. []) 0 pair_realm s \<and> together s \<and> where_is s 1 = Some (10, 7, 8)"
proof -
  obtain s where s: "HandleMovementOpcodes 1 (packet_with [FU8 1, FU8 2, FU16 7, FU16 8, FU16 0]) pair_realm = Inr s"
    "where_is s 2 = Some (10, 7, 8)" "team s 1 = [2]" using pair_walks by blast
  have step: "wander idle_rules (\<lambda>_. []) 0 pair_realm s" by (rule wander.walk [OF s(1)])
  have "crews_ok s \<and> together s"
    by (rule team_stays_together [OF r_into_rtranclp [of "wander idle_rules (\<lambda>_. []) 0", OF step] pair_realm_ok(1,2)])
  moreover from this have "where_is s 2 = where_is s 1" using s(3) unfolding together_def
    by (metis list.set_intros(1))
  ultimately show ?thesis using step s(2) by auto
qed

end
