(* ===== verification/Commands.thy ===== *)
theory Commands
  imports Dialogs Creation BattleTurn
begin

text \<open>
  What the commands do (\<open>src/game/Level0.cpp\<close> to \<open>Level3.cpp\<close>) and the chat packet
  (\<open>src/game/ChatHandler.cpp\<close>). The environment holds what a command asks the database: the guid of a name
  of a player, the entry of a model of a creature, the rows of the two look-ups, the creatures of a map. A
  command ends in no message when words are missing. Numbers are read by \<open>atoi\<close>.
\<close>

record console =
  cs_rules :: rules
  cs_by_name :: "bytes \<Rightarrow> u32 option"
  cs_by_model :: "u32 \<Rightarrow> u32 option"
  cs_find_npcs :: "bytes \<Rightarrow> (u16 \<times> u16 \<times> bytes \<times> u8 \<times> u8 \<times> u32) list"
  cs_find_items :: "bytes \<Rightarrow> (u16 \<times> bytes \<times> u8 \<times> bytes) list"
  cs_npcs :: "u16 \<Rightarrow> (u8 \<times> u16 \<times> u16) list"
  cs_depth :: nat
  cs_junk :: "u8 \<times> u8 \<times> u8"
  cs_guid_of :: "u32 \<Rightarrow> u32"
  cs_self :: uid
  cs_sec :: u32

subsection \<open>Words, numbers and answers\<close>

definition words :: "bytes \<Rightarrow> bytes list" where
  "words args = StrSplit args [32]"

definition isspace :: "u8 \<Rightarrow> bool" where
  "isspace c \<longleftrightarrow> c = 32 \<or> 9 \<le> c \<and> c \<le> 13"

definition atoi :: "bytes \<Rightarrow> int" where
  "atoi s = atol (map (\<lambda>c. char_of (unat c)) (dropWhile isspace s))"

definition as_int32 :: "int \<Rightarrow> int" where
  "as_int32 k = sint (word_of_int k :: i32)"

definition c_str :: "bytes \<Rightarrow> bytes" where
  "c_str s = takeWhile (\<lambda>c. c \<noteq> 0) s"

text \<open>\<open>PSendGmMessage\<close> formats into 1024 bytes, each part up to its first zero byte.\<close>

definition gm_say :: "console \<Rightarrow> bytes list \<Rightarrow> realm \<Rightarrow> realm res" where
  "gm_say cs txt = on_hero (cs_self cs) (\<lambda>h. Inr (say ToSession 0x02
     ([FU8 4, FU32 (h_account h)] @ str_fields (take 1023 (concat (map c_str txt)))) h))"

definition quoted :: "bytes \<Rightarrow> bytes" where
  "quoted s = [39] @ s @ [39]"

text \<open>\<open>GetPlayerGUIDByName\<close> and \<open>GetPlayer\<close>: the guid of the name, 0 for none, among the players in the world.\<close>

definition named_player :: "console \<Rightarrow> bytes \<Rightarrow> realm \<Rightarrow> uid option" where
  "named_player cs name r =
     ar_guid (rl_arena r) (ucast (case cs_by_name cs name of None \<Rightarrow> 0 | Some g \<Rightarrow> g))"

definition no_player :: "console \<Rightarrow> bytes \<Rightarrow> realm \<Rightarrow> realm res" where
  "no_player cs name = gm_say cs [ascii ''Player '', quoted name, ascii '' not found.'']"

definition name_of :: "uid \<Rightarrow> realm \<Rightarrow> bytes" where
  "name_of p r = (case ar_hero (rl_arena r) p of None \<Rightarrow> [] | Some h \<Rightarrow> h_name h)"

subsection \<open>Commands of players\<close>

definition do_unstuck :: "console \<Rightarrow> realm \<Rightarrow> realm res" where
  "do_unstuck cs = on_hero (cs_self cs) (\<lambda>h. Inr (EndOfRequest h))"

definition do_save :: "console \<Rightarrow> realm \<Rightarrow> realm res" where
  "do_save cs r =
     bindR (sys_say (cs_self cs) (ascii ''Saving...'') r) (\<lambda>r1.
     bindR (on_hero (cs_self cs) (SaveToDB_player (cf_idb (cs_rules cs))) r1)
       (sys_say (cs_self cs) (ascii ''Save complete.'')))"

definition refreshed :: "unit_rec \<Rightarrow> unit_rec" where
  "refreshed u = (let u1 = uset UNIT_FIELD_HP (ucast (GetHPMax u)) u in uset UNIT_FIELD_SP (ucast (GetSPMax u1)) u1)"

definition do_rest :: "console \<Rightarrow> realm \<Rightarrow> realm res" where
  "do_rest cs = on_hero (cs_self cs) (\<lambda>h. Inr (UpdatePlayer (on_hero_unit refreshed h)))"

subsection \<open>Changing levels\<close>

text \<open>The loop up to a level that was checked to be at most 200.\<close>

function raise_level :: "spell_db \<Rightarrow> u8 \<Rightarrow> nat \<Rightarrow> unit_rec \<times> int \<Rightarrow> (unit_rec \<times> int) res" where
  "raise_level sdb level tenths (u, st) =
     (if \<not> getLevel u < ucast level then Inr (u, st)
      else bindR (LevelUp sdb (uapply UNIT_FIELD_XP (tnl_of tenths (unat (getLevel u))) True u, st))
             (\<lambda>p. raise_level sdb level tenths (fst p, snd p)))"
  by pat_completeness auto

lemma raise_level_step:
  assumes "LevelUp sdb (uapply UNIT_FIELD_XP d True u, st) = Inr p" and "getLevel u < (ucast (level :: u8) :: u32)"
  shows "unat (getLevel (fst p)) = unat (getLevel u) + 1"
proof -
  have lt: "unat (getLevel u) < unat level" using assms(2) by (simp add: word_less_nat_alt unat_ucast_mod)
  moreover have "unat level < 256" using unsigned_less [of level] by simp
  moreover have "getLevel (fst p) = ucast (ucast (getLevel u + 1) :: u8)"
    using level_up_exp [of sdb _ st "fst p" "snd p" UNIT_FIELD_LEVEL] assms(1)
    by (simp add: exp_fields_def getLevel_def)
  moreover have "unat (getLevel u + 1) = unat (getLevel u) + 1"
    using lt \<open>unat level < 256\<close> by (simp add: unat_word_ariths)
  ultimately show ?thesis by (simp add: unat_ucast_mod)
qed

termination raise_level
proof (relation "measure (\<lambda>(sdb, level, t, u, st). unat level - unat (getLevel u))", goal_cases)
  case 1
  then show ?case by simp
next
  case (2 sdb level tenths u st p)
  have "getLevel u < (ucast level :: u32)" using 2 by simp
  moreover from this have "unat (getLevel u) < unat level" by (simp add: word_less_nat_alt unat_ucast_mod)
  ultimately show ?case using raise_level_step [of sdb _ u st p level] 2 by (cases p) simp
qed

declare raise_level.simps [simp del]

text \<open>Everything a player gained is taken back before.\<close>

definition reset_fields :: "(nat \<times> u32) list" where
  "reset_fields = [(UNIT_FIELD_LEVEL, 1), (UNIT_FIELD_XP, 0), (UNIT_FIELD_NEXT_LEVEL_XP, 0), (UNIT_FIELD_STAT_POINT, 6),
     (UNIT_FIELD_SPELL_POINT, 0), (UNIT_FIELD_INT, 0), (UNIT_FIELD_ATK, 0), (UNIT_FIELD_DEF, 0), (UNIT_FIELD_HPX, 0),
     (UNIT_FIELD_SPX, 0), (UNIT_FIELD_AGI, 0)]"

definition reborn_tenths :: "unit_rec \<Rightarrow> nat" where
  "reborn_tenths u = exp_tenths (ucast (uget u UNIT_FIELD_REBORN))"

definition change_level :: "spell_db \<Rightarrow> u8 \<Rightarrow> int \<Rightarrow> hero \<Rightarrow> (int \<times> hero) res" where
  "change_level sdb level st h =
     (let h1 = ResetSpells (on_hero_unit (uset_all reset_fields) h)
      in bindR (raise_level sdb level (reborn_tenths (h_unit h1)) (h_unit h1, st)) (\<lambda>(u, st').
         let h2 = on_hero_unit (\<lambda>_. refill u) h1
         in case BuildUpdateBlockStatusPacket h2 of (opcode, fs) \<Rightarrow>
              bindR (say_must opcode fs h2) (\<lambda>h3. Inr (st', UpdatePlayerLevel h3))))"

definition with_random :: "uid \<Rightarrow> (int \<Rightarrow> hero \<Rightarrow> (int \<times> hero) res) \<Rightarrow> realm \<Rightarrow> realm res" where
  "with_random p f =
     in_arena (\<lambda>a. bindR (run_hero p (f (b_rand32 (ar_b a))) a) (\<lambda>(st, a1).
       Inr (on_battle (\<lambda>b. b\<lparr>b_rand32 := st\<rparr>) a1)))"

definition do_changelevel :: "console \<Rightarrow> bytes \<Rightarrow> realm \<Rightarrow> realm res" where
  "do_changelevel cs args r =
     (case words args of
        name # lv # _ \<Rightarrow>
          let level = as_int32 (atoi lv)
          in if level \<le> 0 \<or> level > 200 then gm_say cs [ascii ''Invalid level. Must be between 1 and 200.''] r
             else (case named_player cs name r of
               None \<Rightarrow> no_player cs name r
             | Some p \<Rightarrow>
                 if p \<noteq> cs_self cs \<and> cs_sec cs < SEC_ADMINISTRATOR
                 then gm_say cs [ascii ''Cannot change other Player level.''] r
                 else bindR (with_random p (change_level (cf_sdb (cs_rules cs)) (word_of_int level)) r) (\<lambda>r1.
                        gm_say cs [ascii ''Player '', quoted (name_of p r1), ascii '' level changed.''] r1))
      | _ \<Rightarrow> Inr r)"

text \<open>A pet keeps its level when its template is gone; nothing marks it as changed.\<close>

definition reset_pet_fields :: "creature_info \<Rightarrow> (nat \<times> u32) list" where
  "reset_pet_fields ci = [(UNIT_FIELD_LEVEL, 1), (UNIT_FIELD_XP, 0), (UNIT_FIELD_NEXT_LEVEL_XP, 0), (UNIT_FIELD_STAT_POINT, 0),
     (UNIT_FIELD_SPELL_POINT, 0), (UNIT_FIELD_INT, ci_int ci), (UNIT_FIELD_ATK, ci_atk ci), (UNIT_FIELD_DEF, ci_def ci),
     (UNIT_FIELD_HPX, ci_hpx ci), (UNIT_FIELD_SPX, ci_spx ci), (UNIT_FIELD_AGI, ci_agi ci)]"

definition reset_pet_spells :: "creature_info \<Rightarrow> unit_rec \<Rightarrow> unit_rec" where
  "reset_pet_spells ci u = fold (\<lambda>s. SetSpellLevel (ucast s) 1) (ci_spells ci) u"

datatype pet_outcome = Pet_none | Pet_no_proto | Pet_done bytes

definition put_pet_unit :: "petid \<Rightarrow> unit_rec \<Rightarrow> hero \<Rightarrow> hero res" where
  "put_pet_unit x u = upd_pet x (\<lambda>y. y\<lparr>pt_unit := u\<rparr>)"

definition change_pet_level ::
  "rules \<Rightarrow> u8 \<Rightarrow> u8 \<Rightarrow> int \<Rightarrow> hero \<Rightarrow> ((int \<times> pet_outcome) \<times> hero) res" where
  "change_pet_level cf slot level st h =
     bindR (GetPet (unat (slot - 1)) h) (\<lambda>pp.
       case pp of
         None \<Rightarrow> Inr ((st, Pet_none), h)
       | Some x \<Rightarrow>
           bindR (get_pet x h) (\<lambda>y.
             let u = uset UNIT_FIELD_LEVEL (ucast level) (pt_unit y)
             in case cf_cdb cf (uget u OBJECT_FIELD_ENTRY) of
                  None \<Rightarrow> bindR (put_pet_unit x u h) (\<lambda>h1. Inr ((st, Pet_no_proto), h1))
                | Some ci \<Rightarrow>
                    let u1 = reset_pet_spells ci (uset_all (reset_pet_fields ci) u)
                    in bindR (raise_level (cf_sdb cf) level (reborn_tenths u1) (u1, st)) (\<lambda>(u2, st').
                       bindR (put_pet_unit x (refill u2) h) (\<lambda>h1.
                       bindR (UpdatePetLevel x h1) (\<lambda>h2.
                       bindR (UpdatePetCarried (cf_idb cf) h2) (\<lambda>h3. Inr ((st', Pet_done (pt_name y)), h3)))))))"

definition do_changelevelpet :: "console \<Rightarrow> bytes \<Rightarrow> realm \<Rightarrow> realm res" where
  "do_changelevelpet cs args r =
     (case words args of
        name # sl # lv # _ \<Rightarrow>
          let slot = (word_of_int (atoi sl) :: u8); level = as_int32 (atoi lv)
          in if slot = 0 \<or> unat slot > MAX_PET_SLOT then gm_say cs [ascii ''Slot must be between 1 and 4.''] r
             else if level \<le> 0 \<or> level > 200 then gm_say cs [ascii ''Invalid level. Must be between 1 and 200.''] r
             else (case named_player cs name r of
               None \<Rightarrow> no_player cs name r
             | Some p \<Rightarrow>
                 if p \<noteq> cs_self cs \<and> cs_sec cs < SEC_ADMINISTRATOR
                 then gm_say cs [ascii ''Cannot change other Player pet level.''] r
                 else bindR (run_hero p (change_pet_level (cs_rules cs) slot (word_of_int level)
                               (b_rand32 (ar_b (rl_arena r)))) (rl_arena r)) (\<lambda>((st, out), a1).
                        let r1 = r\<lparr>rl_arena := on_battle (\<lambda>b. b\<lparr>b_rand32 := st\<rparr>) a1\<rparr>
                        in (case out of
                              Pet_none \<Rightarrow> gm_say cs [ascii ''Player '', quoted name, ascii '' does not have pet in slot '',
                                            number (unat slot)] r1
                            | Pet_no_proto \<Rightarrow> gm_say cs [ascii ''Npc prototype invalid.''] r1
                            | Pet_done pet \<Rightarrow> gm_say cs [ascii ''Player '', quoted (name_of p r1), ascii '' pet '', quoted pet,
                                            ascii '' level changed.''] r1)))
      | _ \<Rightarrow> Inr r)"

subsection \<open>Giving items and pets\<close>

definition given_count :: "u16 \<Rightarrow> u16" where
  "given_count n = (let c = (if n = 0 then 1 else n) in if c > 50 then 50 else c)"

definition give_item :: "rules \<Rightarrow> u32 \<Rightarrow> u16 \<Rightarrow> uid \<Rightarrow> realm \<Rightarrow> (bool \<times> realm) res" where
  "give_item cf entry n p r =
     bindR (new_item_for cf p entry (ucast n) (rl_arena r)) (\<lambda>(ok, a1). Inr (ok, r\<lparr>rl_arena := a1\<rparr>))"

text \<open>\<open>item_name\<close> is the name in the template, which the model of items does not keep.\<close>

definition do_item_add :: "(u32 \<Rightarrow> bytes) \<Rightarrow> console \<Rightarrow> bytes \<Rightarrow> realm \<Rightarrow> realm res" where
  "do_item_add item_name cs args r =
     (case words args of
        name # md # rest \<Rightarrow>
          let modelid = (word_of_int (atoi md) :: u16);
              n = given_count (case rest of [] \<Rightarrow> 1 | c # _ \<Rightarrow> word_of_int (atoi c));
              cf = cs_rules cs
          in (case named_player cs name r of
                None \<Rightarrow> no_player cs name r
              | Some p \<Rightarrow>
                  (case GetItemEntryByModelId (cf_query cf) (ucast modelid) (ar_cache (rl_arena r)) of
                     (entry, cache) \<Rightarrow>
                       let r0 = r\<lparr>rl_arena := (rl_arena r)\<lparr>ar_cache := cache\<rparr>\<rparr>
                       in if cf_idb cf entry = None
                          then gm_say cs [ascii ''Item '', number (unat modelid), ascii '' is invalid.''] r0
                          else bindR (give_item cf entry n p r0) (\<lambda>(ok, r1).
                            if \<not> ok then gm_say cs [ascii ''Failed to add item '', quoted (item_name entry), ascii '' to '',
                                   quoted (name_of p r1), ascii '' inventory.''] r1
                            else bindR (gm_say cs [ascii ''Item '', quoted (item_name entry), ascii '' added for '',
                                   quoted (name_of p r1), ascii '' to inventory.''] r1)
                                   (on_hero p (\<lambda>h. Inr (UpdateInventoryForItem modelid (ucast n) h))))))
      | _ \<Rightarrow> Inr r)"

definition template_of_model :: "console \<Rightarrow> u16 \<Rightarrow> (u32 \<times> creature_info) option" where
  "template_of_model cs modelid =
     (if modelid = 0 then None
      else case cs_by_model cs (ucast modelid) of
             None \<Rightarrow> None
           | Some e \<Rightarrow> map_option (Pair e) (cf_cdb (cs_rules cs) e))"

definition do_pet_add :: "console \<Rightarrow> bytes \<Rightarrow> realm \<Rightarrow> realm res" where
  "do_pet_add cs args r =
     (case words args of
        name # md # _ \<Rightarrow>
          let modelid = (word_of_int (atoi md) :: u16)
          in (case named_player cs name r of
                None \<Rightarrow> no_player cs name r
              | Some p \<Rightarrow>
                  (case template_of_model cs modelid of
                     None \<Rightarrow> gm_say cs [ascii ''Pet '', number (unat modelid), ascii '' is invalid.''] r
                   | Some (entry, ci) \<Rightarrow>
                       let a = rl_arena r; low = ar_petLow a + 1
                       in bindR (run_hero p (caught_pet (cs_rules cs) (cs_junk cs) low entry p a) (a\<lparr>ar_petLow := low\<rparr>)) (\<lambda>(ok, a1).
                          let r1 = r\<lparr>rl_arena := a1\<rparr>
                          in if ok then gm_say cs [ascii ''Pet '', quoted (ci_Name ci), ascii '' created for player '',
                                   quoted (name_of p r1)] r1
                             else gm_say cs [ascii ''Player '', quoted (name_of p r1), ascii '' can not summon pet '',
                                   quoted (ci_Name ci), ascii ''. Slot is full or already have.''] r1)))
      | _ \<Rightarrow> Inr r)"

definition do_pet_release :: "console \<Rightarrow> bytes \<Rightarrow> realm \<Rightarrow> realm res" where
  "do_pet_release cs args r =
     (case words args of
        [] \<Rightarrow> Inr r
      | name # rest \<Rightarrow>
          let slot = (case rest of [] \<Rightarrow> 1 | s # _ \<Rightarrow> word_of_int (atoi s)) :: u8
          in if slot = 0 \<or> unat slot > MAX_PET_SLOT then gm_say cs [ascii ''Slot must be between 1 and 4.''] r
             else (case named_player cs name r of
                     None \<Rightarrow> no_player cs name r
                   | Some p \<Rightarrow> bindR (on_hero p (ReleasePet (slot - 1)) r) (\<lambda>r1.
                       gm_say cs [ascii ''Player '', quoted (name_of p r1), ascii '' pet slot '', number (unat slot),
                         ascii '' released.''] r1)))"

subsection \<open>Vendors\<close>

text \<open>
  The creature of the map of the game master with the given number, its goods loaded. \<open>INSERT\<close> of a row whose
  guid and item are taken fails (the primary key).
\<close>

definition vendor_here :: "console \<Rightarrow> bytes \<Rightarrow> realm \<Rightarrow> (npc option \<times> u32) res" where
  "vendor_here cs n r =
     bindR (get_hero (cs_self cs) (rl_arena r)) (\<lambda>h.
       let k = (word_of_int (atoi n) :: u8)
       in Inr (GetNPCIfCanInteractWith h (GetNpcGuidByMapNpcId (h_map h) k) r, GenerateNpcGuidLow (h_map h) k))"

definition insert_goods :: "goods_row \<Rightarrow> goods_row list \<Rightarrow> goods_row list" where
  "insert_goods w tab = (if \<exists>v \<in> set tab. fst v = fst w \<and> snd (snd v) = snd (snd w) then tab else tab @ [w])"

definition delete_goods :: "goods_row \<Rightarrow> goods_row list \<Rightarrow> goods_row list" where
  "delete_goods w tab = filter (\<lambda>v. v \<noteq> w) tab"

definition vendor_add :: "(u32 \<Rightarrow> bytes) \<Rightarrow> console \<Rightarrow> u8 \<Rightarrow> u32 \<Rightarrow> npc \<Rightarrow> realm \<Rightarrow> realm res" where
  "vendor_add item_name cs slot modelid c r =
     (case GetItemEntryByModelId (cf_query (cs_rules cs)) modelid (ar_cache (rl_arena r)) of
        (entry, cache) \<Rightarrow>
          let r0 = r\<lparr>rl_arena := (rl_arena r)\<lparr>ar_cache := cache\<rparr>\<rparr>; idb = cf_idb (cs_rules cs)
          in if idb entry = None then gm_say cs [ascii ''Item '', number (unat modelid), ascii '' is invalid.''] r0
             else let c1 = LoadGoods idb (rl_goods r0) c; r1 = put_npc c1 r0
                  in if vendor_FindItem (ucast entry) (np_items c1) \<noteq> None
                     then gm_say cs [ascii ''Vendor '', quoted (np_name c), ascii '' already have item <'', item_name entry,
                            ascii ''>''] r1
                     else case vendor_GetItem (slot - 1) (np_items c1) of
                            Some g \<Rightarrow>
                              if idb (gd_entry g) = None then Inl NullDeref
                              else gm_say cs [ascii ''Vendor '', quoted (np_name c), ascii '' already have item <'',
                                     item_name (gd_entry g), ascii ''> in slot '', number (unat slot)] r1
                          | None \<Rightarrow>
                              gm_say cs [ascii ''Item <'', item_name entry, ascii ''> added to '', quoted (np_name c),
                                  ascii '' vendor goods slot '', number (unat slot)]
                                ((put_npc (c1\<lparr>np_items := vendor_AddItem (slot - 1) (ucast entry) (np_items c1)\<rparr>) r1)
                                   \<lparr>rl_goods := insert_goods (np_guid c, slot - 1, entry) (rl_goods r1)\<rparr>))"

text \<open>
  \<open>citem\<close> points into the vector of goods. After \<open>RemoveItem\<close> the row to delete is named by what stands
  there then: the next item, or nothing.
\<close>

definition item_after_erase :: "creature_item \<Rightarrow> creature_item list \<Rightarrow> creature_item option" where
  "item_after_erase g its =
     (case dropWhile (\<lambda>x. x \<noteq> g) its of _ # nxt # _ \<Rightarrow> Some nxt | _ \<Rightarrow> None)"

definition vendor_del :: "console \<Rightarrow> u8 \<Rightarrow> npc \<Rightarrow> realm \<Rightarrow> realm res" where
  "vendor_del cs slot c r =
     (let c1 = LoadGoods (cf_idb (cs_rules cs)) (rl_goods r) c; r1 = put_npc c1 r
      in case vendor_GetItem (slot - 1) (np_items c1) of
           None \<Rightarrow> gm_say cs [ascii ''Vendor '', quoted (np_name c), ascii '' item slot '', number (unat slot), ascii '' is empty.''] r1
         | Some g \<Rightarrow>
             (case vendor_RemoveItem (ucast (gd_entry g)) (np_items c1) of
                (_, its) \<Rightarrow>
                  (case item_after_erase g (np_items c1) of
                     None \<Rightarrow> Inl OutOfBounds
                   | Some nxt \<Rightarrow>
                       gm_say cs [ascii ''Vendor '', quoted (np_name c), ascii '' item slot '', number (unat slot), ascii '' deleted.'']
                         ((put_npc (c1\<lparr>np_items := its\<rparr>) r1)
                            \<lparr>rl_goods := delete_goods (np_guid c, slot - 1, gd_entry nxt) (rl_goods r1)\<rparr>))))"

definition at_vendor :: "console \<Rightarrow> bytes \<Rightarrow> u8 \<Rightarrow> (npc \<Rightarrow> realm \<Rightarrow> realm res) \<Rightarrow> realm \<Rightarrow> realm res" where
  "at_vendor cs n slot f r =
     (if slot = 0 \<or> slot > 25 then gm_say cs [ascii ''Vendor item slot must be between 1 - 25''] r
      else bindR (vendor_here cs n r) (\<lambda>(v, low).
        case v of
          None \<Rightarrow> gm_say cs [ascii ''Vendor '', number (unat low), ascii '' is not exists. Please create it first.''] r
        | Some c \<Rightarrow>
            if \<not> isVendor c
            then gm_say cs [ascii ''Npc '', quoted (np_name c), ascii '' - GUID('', number (unat low), ascii '') flag is not a vendor.''] r
            else f c r))"

definition do_vendor_add :: "(u32 \<Rightarrow> bytes) \<Rightarrow> console \<Rightarrow> bytes \<Rightarrow> realm \<Rightarrow> realm res" where
  "do_vendor_add item_name cs args r =
     (case words args of
        n # sl # md # _ \<Rightarrow>
          at_vendor cs n (word_of_int (atoi sl)) (vendor_add item_name cs (word_of_int (atoi sl)) (word_of_int (atoi md))) r
      | _ \<Rightarrow> Inr r)"

definition do_vendor_del :: "console \<Rightarrow> bytes \<Rightarrow> realm \<Rightarrow> realm res" where
  "do_vendor_del cs args r =
     (case words args of
        n # sl # _ \<Rightarrow> at_vendor cs n (word_of_int (atoi sl)) (vendor_del cs (word_of_int (atoi sl))) r
      | _ \<Rightarrow> Inr r)"

subsection \<open>Warping, talking, looking up\<close>

definition do_warp :: "console \<Rightarrow> bytes \<Rightarrow> realm \<Rightarrow> realm res option" where
  "do_warp cs args r =
     (case words args of
        [] \<Rightarrow> Some (Inr r)
      | d # _ \<Rightarrow> run_res (get_hero (cs_self cs) (rl_arena r)) (\<lambda>h.
          travel (cs_npcs cs) (cs_depth cs) (cs_self cs) (word_of_int (atoi d)) (h_x h) (h_y h) r))"

definition do_npc_talk :: "console \<Rightarrow> bytes \<Rightarrow> realm \<Rightarrow> realm res" where
  "do_npc_talk cs args r =
     (case words args of
        n # ty # tx # _ \<Rightarrow>
          SendTalking (cs_self cs) (word_of_int (atoi n)) (word_of_int (atoi tx))
            (if ty = ascii ''plain'' then 1 else if ty = ascii ''bank'' then 5 else if ty = ascii ''select'' then 6
             else word_of_int (atoi ty)) r
      | _ \<Rightarrow> Inr r)"

definition pad :: "nat \<Rightarrow> bytes \<Rightarrow> bytes" where
  "pad n s = replicate (n - length s) 32 @ s"

text \<open>Six is let through, but the table has six names.\<close>

definition element_name :: "u8 \<Rightarrow> bytes res" where
  "element_name el =
     (if el > 6 then Inr (ascii ''UNKNOWN ELEMENT, it is more than max!'')
      else if el = 6 then Inl OutOfBounds
      else Inr (ascii ([''HEART'', ''EARTH'', ''WATER'', ''FIRE'', ''WIND'', ''NONE''] ! unat el)))"

definition do_lookup_npc :: "console \<Rightarrow> bytes \<Rightarrow> realm \<Rightarrow> realm res" where
  "do_lookup_npc cs args r =
     (if cs_find_npcs cs args = [] then gm_say cs [ascii ''Npc '', quoted args, ascii '' not found.''] r
      else foldR (\<lambda>(entry, modelid, name, lvl, el, npcflag) r1. bindR (element_name el) (\<lambda>en.
        gm_say cs [ascii ''Npc lvl '', pad 3 (number (unat lvl)), ascii '', el '', pad 5 en, ascii '', entry '',
          pad 4 (number (unat entry)), ascii '', npcid '', pad 5 (number (unat modelid)), ascii '', flag '', number (unat npcflag),
          ascii '', name '', quoted name] r1)) (cs_find_npcs cs args) r)"

definition do_lookup_item :: "console \<Rightarrow> bytes \<Rightarrow> realm \<Rightarrow> realm res" where
  "do_lookup_item cs args r =
     (if cs_find_items cs args = [] then gm_say cs [ascii ''Item '', quoted args, ascii '' not found.''] r
      else foldR (\<lambda>(modelid, name, lvl, attribute).
        gm_say cs [ascii ''Item lvl '', pad 3 (number (unat lvl)), ascii '', itemid '', pad 5 (number (unat modelid)), ascii '', attr ['',
          (if attribute \<noteq> [] then attribute else [45]), ascii ''], name '', quoted name]) (cs_find_items cs args) r)"

subsection \<open>The dispatch\<close>

text \<open>
  The commands that only log and return do nothing. \<open>edit_npc\<close> stands for the three that change the creatures of
  a map, and the depth of a team bounds the way of a warp: a warp that does not end is the fault \<open>OutOfBounds\<close>
  of the stack.
\<close>

definition ended :: "'s res option \<Rightarrow> 's res" where
  "ended x = (case x of None \<Rightarrow> Inl OutOfBounds | Some y \<Rightarrow> y)"

fun run_command ::
  "(u32 \<Rightarrow> bytes) \<Rightarrow> (command \<Rightarrow> bytes \<Rightarrow> realm \<Rightarrow> realm res) \<Rightarrow> console \<Rightarrow> command \<Rightarrow> bytes \<Rightarrow> realm \<Rightarrow> realm res" where
  "run_command nm edit_npc cs HandleUnstuckCommand args r = do_unstuck cs r"
| "run_command nm edit_npc cs HandleSaveCommand args r = do_save cs r"
| "run_command nm edit_npc cs HandleRestCommand args r = do_rest cs r"
| "run_command nm edit_npc cs HandleChangeLevelCommand args r = do_changelevel cs args r"
| "run_command nm edit_npc cs HandleChangeLevelPetCommand args r = do_changelevelpet cs args r"
| "run_command nm edit_npc cs HandleItemAddCommand args r = do_item_add nm cs args r"
| "run_command nm edit_npc cs HandlePetAddCommand args r = do_pet_add cs args r"
| "run_command nm edit_npc cs HandlePetReleaseCommand args r = do_pet_release cs args r"
| "run_command nm edit_npc cs HandleVendorAddItemCommand args r = do_vendor_add nm cs args r"
| "run_command nm edit_npc cs HandleVendorDelItemCommand args r = do_vendor_del cs args r"
| "run_command nm edit_npc cs HandleWarpCommand args r = ended (do_warp cs args r)"
| "run_command nm edit_npc cs HandleNpcTalkCommand args r = do_npc_talk cs args r"
| "run_command nm edit_npc cs HandleLookupNpcCommand args r = do_lookup_npc cs args r"
| "run_command nm edit_npc cs HandleLookupItemCommand args r = do_lookup_item cs args r"
| "run_command nm edit_npc cs HandleNpcAddCommand args r = edit_npc HandleNpcAddCommand args r"
| "run_command nm edit_npc cs HandleNpcDeleteCommand args r = edit_npc HandleNpcDeleteCommand args r"
| "run_command nm edit_npc cs HandleNpcEditCommand args r = edit_npc HandleNpcEditCommand args r"
| "run_command nm edit_npc cs _ args r = Inr r"

subsection \<open>The chat packet\<close>

definition CHAT_MSG_ALL :: u8 where [simp]: "CHAT_MSG_ALL = 1"
definition CHAT_MSG_WHISPER :: u8 where [simp]: "CHAT_MSG_WHISPER = 3"

definition deliver_chat :: "console \<Rightarrow> u8 \<Rightarrow> u32 \<Rightarrow> bytes \<Rightarrow> realm \<Rightarrow> realm res" where
  "deliver_chat cs ty target txt r =
     bindR (get_hero (cs_self cs) (rl_arena r)) (\<lambda>h.
       let fs = [FU8 ty, FU32 (h_account h)] @ str_fields txt
       in if ty = CHAT_MSG_WHISPER
          then (case ar_guid (rl_arena r) (ucast (cs_guid_of cs target)) of
                  None \<Rightarrow> Inr r
                | Some q \<Rightarrow>
                    bindR (on_hero q (say_must 0x02 fs) r) (on_hero (cs_self cs) (say_must 0x02 fs)))
          else if ty = CHAT_MSG_ALL then Inr r
          else on_hero (cs_self cs) (\<lambda>h. Inr (say (ToSet False) 0x02 fs h)) r)"

text \<open>
  \<open>strtok\<close> writes a zero over the space behind each word it returns, into the text of the packet, which is told
  after the command. The second function gives the further words \<open>.npc edit\<close> asks for.
\<close>

fun strtok_cut :: "nat \<Rightarrow> bytes \<Rightarrow> bytes" where
  "strtok_cut 0 s = s"
| "strtok_cut (Suc k) s =
     (let s1 = dropWhile (\<lambda>c. c = 32) s
      in case dropWhile (\<lambda>c. c \<noteq> 32) s1 of
           [] \<Rightarrow> s
         | _ # rest \<Rightarrow> takeWhile (\<lambda>c. c = 32) s @ takeWhile (\<lambda>c. c \<noteq> 32) s1 @ 0 # strtok_cut k rest)"

fun strtok_calls :: "(bytes \<Rightarrow> realm \<Rightarrow> nat) \<Rightarrow> command \<Rightarrow> bytes \<Rightarrow> realm \<Rightarrow> nat" where
  "strtok_calls further HandleWarpCommand args r = 1"
| "strtok_calls further HandleChangeLevelCommand args r = 2"
| "strtok_calls further HandleChangeLevelPetCommand args r = 3"
| "strtok_calls further HandleNpcAddCommand args r = 4"
| "strtok_calls further HandleNpcDeleteCommand args r = 1"
| "strtok_calls further HandleNpcEditCommand args r = 2 + further args r"
| "strtok_calls further HandleItemAddCommand args r = 3"
| "strtok_calls further HandlePetAddCommand args r = 2"
| "strtok_calls further HandlePetReleaseCommand args r = 2"
| "strtok_calls further HandleVendorAddItemCommand args r = 3"
| "strtok_calls further HandleVendorDelItemCommand args r = 2"
| "strtok_calls further HandleNpcTalkCommand args r = 3"
| "strtok_calls further _ args r = 0"

text \<open>A command on the text it was found in: its words are the end of the text.\<close>

definition clobber :: "nat \<Rightarrow> bytes \<Rightarrow> bytes \<Rightarrow> bytes" where
  "clobber k args tx = take (length tx - length args) tx @ strtok_cut k args"

definition on_line ::
  "(bytes \<Rightarrow> realm \<Rightarrow> nat) \<Rightarrow> (command \<Rightarrow> bytes \<Rightarrow> realm \<Rightarrow> realm res) \<Rightarrow> command \<Rightarrow> bytes \<Rightarrow> realm \<times> bytes \<Rightarrow> (realm \<times> bytes) res" where
  "on_line further run c args = (\<lambda>(r, tx).
     bindR (run c args r) (\<lambda>r1. Inr (r1, clobber (strtok_calls further c args r) args tx)))"

definition chat_line ::
  "(bytes \<Rightarrow> realm \<Rightarrow> nat) \<Rightarrow> (command \<Rightarrow> bytes \<Rightarrow> realm \<Rightarrow> realm res) \<Rightarrow> console \<Rightarrow> u8 \<Rightarrow> u32 \<Rightarrow> bytes \<Rightarrow> realm \<Rightarrow> realm res" where
  "chat_line further run cs ty target txt r =
     bindR (ParseCommands (cs_sec cs) (on_line further run)
              (\<lambda>(r1, tx). bindR (sys_say (cs_self cs) (ascii ''Command not found.'') r1) (\<lambda>r2. Inr (r2, tx)))
              (c_str txt) (r, c_str txt))
       (\<lambda>(_, r1, tx). deliver_chat cs ty target (tx @ drop (length (c_str txt)) txt) r1)"

definition HandleMessagechatOpcode ::
  "(bytes \<Rightarrow> realm \<Rightarrow> nat) \<Rightarrow> (command \<Rightarrow> bytes \<Rightarrow> realm \<Rightarrow> realm res) \<Rightarrow> console \<Rightarrow> byte_buffer \<Rightarrow> realm \<Rightarrow> realm res" where
  "HandleMessagechatOpcode further run cs b r =
     bindR (read_u8 b) (\<lambda>(ty, b1).
       if ty = CHAT_MSG_WHISPER
       then bindR (read_u32 b1) (\<lambda>(target, b2). chat_line further run cs ty target (fst (op_read_string [] b2)) r)
       else chat_line further run cs ty 0 (fst (op_read_string [] b1)) r)"

end
