(* ===== verification/LevelFacts.thy ===== *)
theory LevelFacts
  imports Commands GrowthFacts
begin

text \<open>The commands that set a level: what they leave of a player, and what they leave unsaved of a pet.\<close>

subsection \<open>The experience of all levels\<close>

lemma round_pow_bound:
  assumes "1 \<le> n" and "n \<le> 200" and "t \<le> 31"
  shows "round_pow n t \<le> 2 * n ^ 3"
proof (cases "round_pow n t = 0")
  case False
  let ?k = "round_pow n t"
  have "(2 * ?k - 1) ^ 10 \<le> 2 ^ 10 * n ^ t"
    using round_pow_spec [of n t] assms False by (auto simp: round_pow_pred_def)
  also have "\<dots> \<le> 2 ^ 10 * n ^ 31" using assms by (intro mult_le_mono2 power_increasing) auto
  also have "n ^ 31 = n ^ 30 * n" by (simp add: power_Suc2 [symmetric] del: power_Suc)
  also have "2 ^ 10 * (n ^ 30 * n) \<le> 2 ^ 10 * (n ^ 30 * 200)" using assms(2) by simp
  finally have "10 ^ 10 * (2 * ?k - 1) ^ 10 \<le> 10 ^ 10 * (2 ^ 10 * (n ^ 30 * 200))" by (rule mult_le_mono2)
  also have "\<dots> \<le> 34 ^ 10 * n ^ 30" by simp
  finally have "(10 * (2 * ?k - 1)) ^ 10 \<le> (34 * n ^ 3) ^ 10"
    by (simp only: power_mult_distrib power_mult [symmetric]) simp
  then have "10 * (2 * ?k - 1) \<le> 34 * n ^ 3" by (rule power_le_imp_le_base [where n = 9, simplified]) simp
  moreover have "1 \<le> n ^ 3" using assms(1) by simp
  ultimately show ?thesis by linarith
qed simp

lemma tnl_bound:
  assumes "l < 200" and "t \<le> 31"
  shows "unat (tnl_of t l) \<le> 2 * (l + 1) ^ 3 + 5"
proof -
  have "round_pow (l + 1) t \<le> 2 * (l + 1) ^ 3" using round_pow_bound [of "l + 1" t] assms by simp
  moreover have "unat (tnl_of t l) \<le> round_pow (l + 1) t + 5"
    unfolding tnl_of_def by (simp only: unat_of_nat mod_less_eq_dividend)
  ultimately show ?thesis by linarith
qed

text \<open>What a player has to gain from one level to another.\<close>

definition climb :: "nat \<Rightarrow> nat \<Rightarrow> nat \<Rightarrow> nat" where
  "climb t l m = sum_list (map (\<lambda>k. unat (tnl_of t k)) [l..<m])"

lemma climb_step: "l < m \<Longrightarrow> climb t l m = unat (tnl_of t l) + climb t (Suc l) m"
  by (simp add: climb_def upt_conv_Cons)

lemma cubes: "2 * sum_list (map (\<lambda>k. 2 * (k + 1) ^ 3 + 5) [0..<n]) = (n * (n + 1)) ^ 2 + 10 * (n :: nat)"
  by (induction n) (simp_all add: algebra_simps power2_eq_square power3_eq_cube)

lemma climb_bound:
  assumes "m \<le> 200" and "t \<le> 31"
  shows "climb t l m < 1000000000"
proof -
  have "climb t l m \<le> sum_list (map (\<lambda>k. 2 * (k + 1) ^ 3 + 5) [l..<m])"
    unfolding climb_def using assms by (intro sum_list_mono tnl_bound) auto
  also have "\<dots> \<le> sum_list (map (\<lambda>k. 2 * (k + 1) ^ 3 + 5) [0..<200])"
  proof (cases "l \<le> m")
    case True
    then have "[0..<200] = [0..<l] @ [l..<m] @ [m..<200]"
      using upt_add_eq_append [of 0 l "200 - l"] upt_add_eq_append [of l m "200 - m"] assms(1) by simp
    then show ?thesis by simp
  qed simp
  also have "\<dots> < 1000000000" using cubes [of 200] by simp
  finally show ?thesis .
qed

subsection \<open>A player\<close>

lemma refill_vals:
  "u_vals (refill u) = (u_vals u)(UNIT_FIELD_HP_MAX := u_vals (refill u) UNIT_FIELD_HP_MAX, UNIT_FIELD_HP := u_vals (refill u) UNIT_FIELD_HP,
     UNIT_FIELD_SP_MAX := u_vals (refill u) UNIT_FIELD_SP_MAX, UNIT_FIELD_SP := u_vals (refill u) UNIT_FIELD_SP)"
  by (auto simp: fun_eq_iff)

definition vitals :: "nat set" where
  "vitals = {UNIT_FIELD_HP_MAX, UNIT_FIELD_HP, UNIT_FIELD_SP_MAX, UNIT_FIELD_SP}"

lemma refill_other: "i \<notin> vitals \<Longrightarrow> uget (refill u) i = uget u i"
  unfolding vitals_def by (rule refill_level(1))

lemma refill_same: "u_type (refill u) = u_type u" "u_spells (refill u) = u_spells u"
  by (simp_all add: refill_def Let_def)

definition climbed :: "unit_rec \<Rightarrow> nat \<Rightarrow> nat \<Rightarrow> unit_rec \<Rightarrow> bool" where
  "climbed u t n v \<longleftrightarrow> u_type v = u_type u \<and> u_spells v = u_spells u \<and>
     unat (getLevel v) = unat (getLevel u) + n \<and>
     unat (uget v UNIT_FIELD_XP) = unat (uget u UNIT_FIELD_XP) + climb t (unat (getLevel u)) (unat (getLevel u) + n) \<and>
     unat (uget v UNIT_FIELD_SPELL_POINT) = unat (uget u UNIT_FIELD_SPELL_POINT) + n \<and>
     unat (uget v UNIT_FIELD_STAT_POINT) = unat (uget u UNIT_FIELD_STAT_POINT) + 2 * n \<and>
     (\<forall>i. i \<notin> vitals \<union> {UNIT_FIELD_LEVEL, UNIT_FIELD_XP, UNIT_FIELD_SPELL_POINT, UNIT_FIELD_STAT_POINT} \<longrightarrow> uget v i = uget u i)"

lemma level_up_player:
  assumes "isType u TYPE_PLAYER" and "unat (getLevel u) < 200"
    and "unat (uget u UNIT_FIELD_SPELL_POINT) < 1000" and "unat (uget u UNIT_FIELD_STAT_POINT) < 1000"
    and "unat (uget u UNIT_FIELD_XP) < 1000000000" and "t \<le> 31"
  shows "\<exists>v. LevelUp sdb (uapply UNIT_FIELD_XP (tnl_of t (unat (getLevel u))) True u, st) = Inr (v, st) \<and> climbed u t 1 v"
proof -
  let ?d = "tnl_of t (unat (getLevel u))"
  let ?a = "uapply UNIT_FIELD_XP ?d True u"
  let ?b = "(uset UNIT_FIELD_LEVEL (ucast (ucast (uget ?a UNIT_FIELD_LEVEL + 1) :: u8)) ?a)\<lparr>u_levelUp := True\<rparr>"
  let ?c = "uapply UNIT_FIELD_STAT_POINT 2 True (uapply UNIT_FIELD_SPELL_POINT 1 True ?b)"
  have "isType ?b TYPE_PLAYER" using assms(1) by (simp add: isType_def)
  then have run: "LevelUp sdb (?a, st) = Inr (refill ?c, st)" by (simp add: LevelUp_def Let_def)
  have d: "unat ?d < 1000000000" using climb_bound [of "Suc (unat (getLevel u))" t "unat (getLevel u)"] assms(2,6)
    by (simp add: climb_def)
  have vals: "uget ?c UNIT_FIELD_LEVEL = ucast (ucast (getLevel u + 1) :: u8)"
    "uget ?c UNIT_FIELD_XP = ApplyModUInt32Var (uget u UNIT_FIELD_XP) ?d True"
    "uget ?c UNIT_FIELD_SPELL_POINT = ApplyModUInt32Var (uget u UNIT_FIELD_SPELL_POINT) 1 True"
    "uget ?c UNIT_FIELD_STAT_POINT = ApplyModUInt32Var (uget u UNIT_FIELD_STAT_POINT) 2 True"
    "\<And>i. i \<notin> {UNIT_FIELD_LEVEL, UNIT_FIELD_XP, UNIT_FIELD_SPELL_POINT, UNIT_FIELD_STAT_POINT} \<Longrightarrow> uget ?c i = uget u i"
    by (simp_all add: getLevel_def)
  have out: "UNIT_FIELD_LEVEL \<notin> vitals" "UNIT_FIELD_XP \<notin> vitals" "UNIT_FIELD_SPELL_POINT \<notin> vitals" "UNIT_FIELD_STAT_POINT \<notin> vitals"
    by (simp_all add: vitals_def)
  have "unat (getLevel u + 1) = unat (getLevel u) + 1" using assms(2) by (simp add: unat_word_ariths)
  then have lv: "unat (getLevel (refill ?c)) = unat (getLevel u) + 1"
    unfolding getLevel_def [of "refill _"] refill_other [OF out(1)] vals(1) using assms(2) by (simp add: unat_ucast_mod)
  have "unat (uget (refill ?c) UNIT_FIELD_XP) = unat (uget u UNIT_FIELD_XP) + unat ?d"
    unfolding refill_other [OF out(2)] vals(2) using assms(5) d by (intro apply_add) linarith
  moreover have "unat (uget (refill ?c) UNIT_FIELD_SPELL_POINT) = unat (uget u UNIT_FIELD_SPELL_POINT) + 1"
    unfolding refill_other [OF out(3)] vals(3) using assms(3) by (subst apply_add) simp_all
  moreover have "unat (uget (refill ?c) UNIT_FIELD_STAT_POINT) = unat (uget u UNIT_FIELD_STAT_POINT) + 2"
    unfolding refill_other [OF out(4)] vals(4) using assms(4) by (subst apply_add) simp_all
  moreover have "climb t (unat (getLevel u)) (unat (getLevel u) + 1) = unat ?d" by (simp add: climb_def)
  moreover have "uget (refill ?c) i = uget u i"
    if "i \<notin> vitals \<union> {UNIT_FIELD_LEVEL, UNIT_FIELD_XP, UNIT_FIELD_SPELL_POINT, UNIT_FIELD_STAT_POINT}" for i
    using that by (subst refill_other) (simp_all add: vals(5))
  ultimately have "climbed u t 1 (refill ?c)" unfolding climbed_def using lv by (simp add: refill_same)
  with run show ?thesis by blast
qed

lemma climb_add: "climb t l (l + n) + climb t (l + n) (l + n + k) = climb t l (l + n + k)"
  using upt_add_eq_append [of l "l + n" k] by (simp add: climb_def)

lemma raise_level_player:
  assumes "isType u TYPE_PLAYER" and "unat level \<le> 200" and "unat (getLevel u) \<le> unat level" and "t \<le> 31"
    and "unat (uget u UNIT_FIELD_SPELL_POINT) + (unat level - unat (getLevel u)) < 1000"
    and "unat (uget u UNIT_FIELD_STAT_POINT) + 2 * (unat level - unat (getLevel u)) < 1000"
    and "unat (uget u UNIT_FIELD_XP) + climb t (unat (getLevel u)) (unat level) < 1000000000"
  shows "\<exists>v. raise_level sdb level t (u, st) = Inr (v, st) \<and> climbed u t (unat level - unat (getLevel u)) v"
  using assms
proof (induction "unat level - unat (getLevel u)" arbitrary: u)
  case 0
  then have "\<not> getLevel u < ucast level" by (simp add: word_less_nat_alt unat_u8_u32(1))
  moreover have "climb t (unat (getLevel u)) (unat (getLevel u)) = 0" by (simp add: climb_def)
  ultimately show ?case using 0 by (simp add: raise_level.simps [of sdb level t u st] climbed_def)
next
  case (Suc n)
  then have lt: "unat (getLevel u) < unat level" by simp
  then have go: "getLevel u < ucast level" by (simp add: word_less_nat_alt unat_u8_u32(1))
  have c: "climb t (unat (getLevel u)) (unat level) = unat (tnl_of t (unat (getLevel u))) + climb t (Suc (unat (getLevel u))) (unat level)"
    by (rule climb_step [OF lt])
  have small: "unat (getLevel u) < 200" "unat (uget u UNIT_FIELD_SPELL_POINT) < 1000" "unat (uget u UNIT_FIELD_STAT_POINT) < 1000"
    "unat (uget u UNIT_FIELD_XP) < 1000000000"
    using Suc.prems(2,5,6,7) lt by linarith+
  obtain w where w: "LevelUp sdb (uapply UNIT_FIELD_XP (tnl_of t (unat (getLevel u))) True u, st) = Inr (w, st)" "climbed u t 1 w"
    using level_up_player [of u t sdb st] small Suc.prems(1,4) by auto
  have k: "unat (getLevel w) = unat (getLevel u) + 1" "isType w TYPE_PLAYER"
    "unat (uget w UNIT_FIELD_SPELL_POINT) = unat (uget u UNIT_FIELD_SPELL_POINT) + 1"
    "unat (uget w UNIT_FIELD_STAT_POINT) = unat (uget u UNIT_FIELD_STAT_POINT) + 2"
    "unat (uget w UNIT_FIELD_XP) = unat (uget u UNIT_FIELD_XP) + unat (tnl_of t (unat (getLevel u)))"
    using w(2) Suc.prems(1) by (simp_all add: climbed_def isType_def climb_def)
  have n: "unat level - unat (getLevel w) = n" using Suc.hyps(2) k(1) by simp
  have room: "unat (uget w UNIT_FIELD_SPELL_POINT) + (unat level - unat (getLevel w)) < 1000"
    "unat (uget w UNIT_FIELD_STAT_POINT) + 2 * (unat level - unat (getLevel w)) < 1000"
    "unat (uget w UNIT_FIELD_XP) + climb t (unat (getLevel w)) (unat level) < 1000000000"
    using Suc.prems(5-7) Suc.hyps(2) k(3-5) c n unfolding k(1) Suc_eq_plus1 by linarith+
  obtain v where v: "raise_level sdb level t (w, st) = Inr (v, st)" "climbed w t n v"
    using Suc.hyps(1) [of w] room Suc.prems(2,4) lt k n by auto
  have "climbed u t (Suc n) v"
    using w(2) v(2) climb_add [of t "unat (getLevel u)" 1 n] unfolding climbed_def by simp
  then show ?case using v(1) w(1) go Suc.hyps(2) by (simp add: raise_level.simps [of sdb level t u st])
qed

text \<open>Saving a book of removed spells empties it and deletes their rows.\<close>

lemma ResetSpells_spec:
  assumes "distinct (map fst (u_spells (h_unit h)))"
  shows "\<exists>tab. ResetSpells h = h\<lparr>h_unit := (h_unit h)\<lparr>u_spells := []\<rparr>, h_spellRows := tab\<rparr> \<and>
    mset tab = mset (filter (\<lambda>(e, _). e \<notin> fst ` set (u_spells (h_unit h))) (h_spellRows h))"
proof -
  let ?gone = "map (\<lambda>(e, sp). (e, sp\<lparr>sp_state := SPELL_REMOVED\<rparr>)) (u_spells (h_unit h))"
  have keys: "map fst ?gone = map fst (u_spells (h_unit h))" by (auto simp: case_prod_beta)
  have "kept ?gone = []" by (auto simp: kept_def filter_empty_conv)
  moreover have "fst ` set ?gone = fst ` set (u_spells (h_unit h))" by (simp add: image_image case_prod_beta)
  moreover have "spell_rows_ok ?gone (h_spellRows h)" by (auto simp: spell_rows_ok_def)
  ultimately obtain tab where "fold save_spell ?gone (?gone, h_spellRows h) = ([], tab)"
    "mset tab = mset (filter (\<lambda>(e, _). e \<notin> fst ` set (u_spells (h_unit h))) (h_spellRows h))"
    using fold_save_spell [of "[]" ?gone "h_spellRows h"] assms unfolding keys [symmetric] by (auto simp: levels_def)
  then show ?thesis by (intro exI [of _ tab]) (simp add: ResetSpells_def SaveSpells_def)
qed

definition stat_fields :: "nat list" where
  "stat_fields = [UNIT_FIELD_INT, UNIT_FIELD_ATK, UNIT_FIELD_DEF, UNIT_FIELD_HPX, UNIT_FIELD_SPX, UNIT_FIELD_AGI]"

lemma reset_vals:
  "uget (uset_all reset_fields u) UNIT_FIELD_LEVEL = 1" "uget (uset_all reset_fields u) UNIT_FIELD_XP = 0"
  "uget (uset_all reset_fields u) UNIT_FIELD_STAT_POINT = 6" "uget (uset_all reset_fields u) UNIT_FIELD_SPELL_POINT = 0"
  "i \<in> set stat_fields \<Longrightarrow> uget (uset_all reset_fields u) i = 0"
  "uget (uset_all reset_fields u) UNIT_FIELD_REBORN = uget u UNIT_FIELD_REBORN" "u_type (uset_all reset_fields u) = u_type u"
  "u_spells (uset_all reset_fields u) = u_spells u"
  by (auto simp: reset_fields_def uset_all_def stat_fields_def)

lemma UpdatePlayerLevel_keeps:
  "h_unit (UpdatePlayerLevel h) = (h_unit h)\<lparr>u_levelUp := False\<rparr>" "h_spellRows (UpdatePlayerLevel h) = h_spellRows h"
  by (simp_all add: UpdatePlayerLevel_def updatePlayer_def say_session_def say_def Let_def)

lemma refill_full:
  "uget (refill u) UNIT_FIELD_HP = ucast (GetHPMax (refill u))" "uget (refill u) UNIT_FIELD_HP_MAX = ucast (GetHPMax (refill u))"
  "uget (refill u) UNIT_FIELD_SP = ucast (GetSPMax (refill u))" "uget (refill u) UNIT_FIELD_SP_MAX = ucast (GetSPMax (refill u))"
  by (simp_all add: refill_def Let_def uset_def GetHPMax_def GetSPMax_def)

lemma max_levelUp: "GetHPMax (u\<lparr>u_levelUp := b\<rparr>) = GetHPMax u" "GetSPMax (u\<lparr>u_levelUp := b\<rparr>) = GetSPMax u"
  by (simp_all add: GetHPMax_def GetSPMax_def)

text \<open>C27: a player whose level is set to one from 1 to 200 starts over: exactly the experience of all levels below,
  a spell point and two stat points for each of them beside the first six, no stat, no spell, no row
  left of the spells that were in the book, and full powers: both powers are at the maxima of the new level.
\<close>

theorem level_changed:
  assumes "isType (h_unit h) TYPE_PLAYER" and "h_session h" and "1 \<le> unat level" and "unat level \<le> 200"
    and "distinct (map fst (u_spells (h_unit h)))"
  shows "\<exists>k. change_level sdb level st h = Inr (st, k) \<and> unat (getLevel (h_unit k)) = unat level \<and>
    unat (uget (h_unit k) UNIT_FIELD_XP) = climb (reborn_tenths (h_unit h)) 1 (unat level) \<and>
    unat (uget (h_unit k) UNIT_FIELD_SPELL_POINT) = unat level - 1 \<and>
    unat (uget (h_unit k) UNIT_FIELD_STAT_POINT) = 6 + 2 * (unat level - 1) \<and>
    (\<forall>i \<in> set stat_fields. uget (h_unit k) i = 0) \<and> u_spells (h_unit k) = [] \<and>
    (\<forall>i \<in> {UNIT_FIELD_HP, UNIT_FIELD_HP_MAX}. uget (h_unit k) i = ucast (GetHPMax (h_unit k))) \<and>
    (\<forall>i \<in> {UNIT_FIELD_SP, UNIT_FIELD_SP_MAX}. uget (h_unit k) i = ucast (GetSPMax (h_unit k))) \<and>
    mset (h_spellRows k) = mset (filter (\<lambda>(e, _). e \<notin> fst ` set (u_spells (h_unit h))) (h_spellRows h))"
proof -
  let ?h0 = "on_hero_unit (uset_all reset_fields) h" and ?t = "reborn_tenths (h_unit h)"
  have "distinct (map fst (u_spells (h_unit ?h0)))" using assms(5) by (simp add: reset_vals)
  then obtain tab where h1: "ResetSpells ?h0 = ?h0\<lparr>h_unit := (h_unit ?h0)\<lparr>u_spells := []\<rparr>, h_spellRows := tab\<rparr>"
    and tab: "mset tab = mset (filter (\<lambda>(e, _). e \<notin> fst ` set (u_spells (h_unit h))) (h_spellRows h))"
    using ResetSpells_spec [of ?h0] by (auto simp: reset_vals)
  let ?u = "(uset_all reset_fields (h_unit h))\<lparr>u_spells := []\<rparr>" and ?n = "unat level - 1"
  have u: "isType ?u TYPE_PLAYER" "getLevel ?u = 1" "uget ?u UNIT_FIELD_XP = 0" "uget ?u UNIT_FIELD_SPELL_POINT = 0"
    "uget ?u UNIT_FIELD_STAT_POINT = 6" "reborn_tenths ?u = ?t" "\<And>i. i \<in> set stat_fields \<Longrightarrow> uget ?u i = 0"
    using assms(1) by (simp_all add: isType_def getLevel_def reborn_tenths_def reset_vals [simplified])
  have t: "?t \<le> 31" by (simp add: reborn_tenths_def exp_tenths_def)
  have "climb ?t 1 (unat level) < 1000000000" by (rule climb_bound [OF assms(4) t])
  then have room: "unat level - Suc 0 < 497" "climb ?t (Suc 0) (unat level) < 1000000000" using assms(4) by simp_all
  obtain v where v: "raise_level sdb level ?t (?u, st) = Inr (v, st)" "climbed ?u ?t ?n v"
    using raise_level_player [of ?u level ?t sdb st] u t room assms(3,4) by auto
  let ?h2 = "on_hero_unit (\<lambda>_. refill v) (ResetSpells ?h0)"
  obtain opcode fs where p: "BuildUpdateBlockStatusPacket ?h2 = (opcode, fs)" by fastforce
  let ?k = "UpdatePlayerLevel (say ToSession opcode fs ?h2)"
  have "h_session ?h2" unfolding h1 using assms(2) by simp
  then have run: "change_level sdb level st h = Inr (st, ?k)"
    using v(1) p u(6) unfolding change_level_def Let_def h1 by (simp add: say_must_def)
  have out: "UNIT_FIELD_LEVEL \<notin> vitals" "UNIT_FIELD_XP \<notin> vitals" "UNIT_FIELD_SPELL_POINT \<notin> vitals" "UNIT_FIELD_STAT_POINT \<notin> vitals"
    by (simp_all add: vitals_def)
  have k: "h_unit ?k = (refill v)\<lparr>u_levelUp := False\<rparr>" "h_spellRows ?k = tab"
    unfolding h1 by (simp_all add: UpdatePlayerLevel_keeps say_def)
  have stats: "uget (refill v) i = 0" if "i \<in> set stat_fields" for i
  proof -
    have i: "i \<notin> vitals" "i \<notin> vitals \<union> {UNIT_FIELD_LEVEL, UNIT_FIELD_XP, UNIT_FIELD_SPELL_POINT, UNIT_FIELD_STAT_POINT}"
      using that by (auto simp: stat_fields_def vitals_def)
    then have "uget v i = uget ?u i" using v(2) unfolding climbed_def by blast
    then show ?thesis using refill_other [OF i(1), of v] u(7) [OF that] by simp
  qed
  have c: "unat (getLevel v) = unat level" "unat (uget v UNIT_FIELD_XP) = climb ?t 1 (unat level)"
    "unat (uget v UNIT_FIELD_SPELL_POINT) = ?n" "unat (uget v UNIT_FIELD_STAT_POINT) = 6 + 2 * ?n" "u_spells v = []"
    using v(2) u(2-5) assms(3) unfolding climbed_def by simp_all
  have "getLevel (h_unit ?k) = getLevel v" "uget (h_unit ?k) UNIT_FIELD_XP = uget v UNIT_FIELD_XP"
    "uget (h_unit ?k) UNIT_FIELD_SPELL_POINT = uget v UNIT_FIELD_SPELL_POINT"
    "uget (h_unit ?k) UNIT_FIELD_STAT_POINT = uget v UNIT_FIELD_STAT_POINT"
    using refill_other [OF out(1), of v] refill_other [OF out(2), of v] refill_other [OF out(3), of v] refill_other [OF out(4), of v]
    unfolding k(1) getLevel_def by simp_all
  moreover have "u_spells (h_unit ?k) = []" unfolding k(1) using c(5) by (simp add: refill_same)
  moreover have "\<forall>i \<in> set stat_fields. uget (h_unit ?k) i = 0" unfolding k(1) using stats by simp
  moreover have "\<forall>i \<in> {UNIT_FIELD_HP, UNIT_FIELD_HP_MAX}. uget (h_unit ?k) i = ucast (GetHPMax (h_unit ?k))"
    "\<forall>i \<in> {UNIT_FIELD_SP, UNIT_FIELD_SP_MAX}. uget (h_unit ?k) i = ucast (GetSPMax (h_unit ?k))"
    unfolding k(1) max_levelUp using refill_full [of v] by simp_all
  ultimately show ?thesis using run c(1-4) tab k(2) by (intro exI [of _ ?k]) (simp only: simp_thms)
qed

definition veteran :: hero where
  "veteran = spender\<lparr>h_unit := (h_unit spender)\<lparr>u_type := TYPE_PLAYER\<rparr>\<rparr>"

theorem level_changed_witness:
  "\<exists>k. change_level Map.empty 200 0 veteran = Inr (0, k) \<and> unat (getLevel (h_unit k)) = 200 \<and>
    unat (uget (h_unit k) UNIT_FIELD_STAT_POINT) = 404 \<and> u_spells (h_unit k) = [] \<and> h_spellRows k = []"
proof -
  have "isType (h_unit veteran) TYPE_PLAYER" "h_session veteran" "distinct (map fst (u_spells (h_unit veteran)))"
    by (simp_all add: veteran_def spender_def sample_hero_def sample_unit_def isType_def)
  then obtain k where k: "change_level Map.empty 200 0 veteran = Inr (0, k)" "unat (getLevel (h_unit k)) = 200"
    "unat (uget (h_unit k) UNIT_FIELD_STAT_POINT) = 404" "u_spells (h_unit k) = []"
    "mset (h_spellRows k) = mset (filter (\<lambda>(e, _). e \<notin> fst ` set (u_spells (h_unit veteran))) (h_spellRows veteran))"
    using level_changed [of veteran 200 Map.empty 0] by auto
  then have "h_spellRows k = []" by (simp add: veteran_def spender_def)
  with k show ?thesis by blast
qed

subsection \<open>A pet\<close>

lemma raise_level_reaches:
  "raise_level sdb level t (u, st) = Inr (v, st') \<Longrightarrow> unat (getLevel u) \<le> unat level \<Longrightarrow> unat (getLevel v) = unat level"
proof (induction sdb level t "(u, st)" arbitrary: u st rule: raise_level.induct)
  case (1 sdb level t u st)
  show ?case
  proof (cases "getLevel u < ucast level")
    case False
    then show ?thesis
      using 1(2,3) by (simp add: raise_level.simps [of sdb level t u st] word_less_nat_alt unat_u8_u32(1))
  next
    case True
    then obtain p where p: "LevelUp sdb (uapply UNIT_FIELD_XP (tnl_of t (unat (getLevel u))) True u, st) = Inr p"
      "raise_level sdb level t (fst p, snd p) = Inr (v, st')"
      using 1(2) unfolding raise_level.simps [of sdb level t u st] by (auto simp: bindR_eq_Inr)
    have "unat (getLevel (fst p)) \<le> unat level"
      using raise_level_step [OF p(1) True] True by (simp add: word_less_nat_alt unat_u8_u32(1))
    then show ?thesis using 1(1) [of p] True p by simp
  qed
qed

lemma reset_pet_level: "getLevel (reset_pet_spells ci (uset_all (reset_pet_fields ci) u)) = 1"
proof -
  have "u_vals (fold (\<lambda>s. SetSpellLevel (ucast s) 1) ss v) = u_vals v" for ss :: "u32 list" and v
    by (induction ss arbitrary: v) (simp_all add: SetSpellLevel_def split: option.split)
  then show ?thesis by (simp add: reset_pet_spells_def getLevel_def reset_pet_fields_def uset_all_def)
qed

lemma pets_untouched:
  "UpdatePetCarried idb h = Inr k \<Longrightarrow> h_pets k = h_pets h \<and> h_petHeap k = h_petHeap h \<and> h_petQueue k = h_petQueue h \<and> h_petRows k = h_petRows h"
  by (auto simp: UpdatePetCarried_def say_must_def say_def bindR_eq_Inr split: if_splits)

lemma UpdatePetLevel_pets:
  "UpdatePetLevel p h = Inr k \<Longrightarrow> h_pets k = h_pets h \<and> h_petQueue k = h_petQueue h \<and> h_petRows k = h_petRows h \<and>
    (\<exists>x y. h_petHeap h p = Some x \<and> h_petHeap k p = Some y \<and> u_vals (pt_unit y) = u_vals (pt_unit x))"
  by (auto simp: UpdatePetLevel_def upd_pet_def get_pet_def put_pet_def updatePet_def say_session_def say_def bindR_eq_Inr
      split: option.splits if_splits)

lemma SaveSpells_pets: "h_petRows (SaveSpells h) = h_petRows h"
  by (simp add: SaveSpells_def split: prod.split)

lemma SaveToDB_idle_pets:
  "SaveToDB_player idb h = Inr k \<Longrightarrow> h_petQueue h = [] \<Longrightarrow> h_petRows k = h_petRows h"
  by (auto simp: SaveToDB_player_def SavePets_def on_inv_def SaveSpells_pets end_transaction_def bindR_eq_Inr
      split: if_splits option.splits)

lemma UpdatePetLevel_run:
  assumes "h_petHeap h p = Some x"
  shows "\<exists>k. UpdatePetLevel p h = Inr k \<and> h_petHeap k p = Some (x\<lparr>pt_unit := (pt_unit x)\<lparr>u_levelUp := False\<rparr>\<rparr>) \<and>
    h_pets k = h_pets h \<and> h_inv k = h_inv h \<and> h_session k = h_session h \<and> h_petQueue k = h_petQueue h"
  using assms by (simp add: UpdatePetLevel_def get_pet_def upd_pet_def put_pet_def updatePet_def say_session_def say_def)

text \<open>C34: a pet whose level was set has that level, but nothing marks it as changed: if no other change of the pets
  waits, saving the player writes none of it, and the rows of the pets are what they were.
\<close>

theorem pet_level_lost:
  assumes "change_pet_level cf slot level st h = Inr ((st', Pet_done nm), k)" and "1 \<le> unat level"
    and "h_petQueue h = []" and "SaveToDB_player idb k = Inr m"
  shows "h_petRows m = h_petRows h \<and> (\<exists>x y. GetPet (unat (slot - 1)) k = Inr (Some x) \<and> get_pet x k = Inr y \<and>
    unat (getLevel (pt_unit y)) = unat level)"
proof -
  obtain x y ci u2 h1 h2 where x: "GetPet (unat (slot - 1)) h = Inr (Some x)" and y: "get_pet x h = Inr y"
    and u2: "raise_level (cf_sdb cf) level (reborn_tenths (reset_pet_spells ci (uset_all (reset_pet_fields ci) (uset UNIT_FIELD_LEVEL (ucast level) (pt_unit y)))))
      (reset_pet_spells ci (uset_all (reset_pet_fields ci) (uset UNIT_FIELD_LEVEL (ucast level) (pt_unit y))), st) = Inr (u2, st')"
    and h1: "put_pet_unit x (refill u2) h = Inr h1" and h2: "UpdatePetLevel x h1 = Inr h2" and k: "UpdatePetCarried (cf_idb cf) h2 = Inr k"
    using assms(1) unfolding change_pet_level_def Let_def
    by (auto simp: bindR_eq_Inr split: option.splits)
  have "unat (getLevel u2) = unat level" using raise_level_reaches [OF u2] assms(2) by (simp add: reset_pet_level)
  moreover have "UNIT_FIELD_LEVEL \<notin> vitals" by (simp add: vitals_def)
  ultimately have l: "unat (getLevel (refill u2)) = unat level" unfolding getLevel_def by (simp only: refill_other not_False_eq_True)
  have h1': "h_petHeap h1 x = Some (y\<lparr>pt_unit := refill u2\<rparr>)" "h_pets h1 = h_pets h" "h_petQueue h1 = h_petQueue h" "h_petRows h1 = h_petRows h"
    using h1 y by (auto simp: put_pet_unit_def upd_pet_def put_pet_def)
  obtain z where z: "h_petHeap h2 x = Some z" "u_vals (pt_unit z) = u_vals (refill u2)"
    and h2': "h_pets h2 = h_pets h1" "h_petQueue h2 = h_petQueue h1" "h_petRows h2 = h_petRows h1"
    using UpdatePetLevel_pets [OF h2] h1'(1) by auto
  have "GetPet (unat (slot - 1)) k = Inr (Some x)" "get_pet x k = Inr z"
    using pets_untouched [OF k] x z(1) h2'(1) h1'(2) by (simp_all add: GetPet_def get_pet_def split: if_splits)
  moreover have "unat (getLevel (pt_unit z)) = unat level" using l z(2) by (simp add: getLevel_def)
  moreover have "h_petRows m = h_petRows h"
    using SaveToDB_idle_pets [OF assms(4)] pets_untouched [OF k] h2' h1' assms(3) by simp
  ultimately show ?thesis by blast
qed

definition dog_info :: creature_info where
  "dog_info = \<lparr>ci_modelid = 0, ci_Name = [], ci_hp = 0, ci_sp = 0, ci_int = 0, ci_atk = 0, ci_def = 0, ci_hpx = 0, ci_spx = 0, ci_agi = 0,
     ci_level = 0, ci_element = 0, ci_reborn = 0, ci_spells = [], ci_drops = []\<rparr>"

definition keeper :: hero where
  "keeper = spender\<lparr>h_petHeap := [0 \<mapsto> blank_pet], h_pets := Some 0 # replicate 9 None\<rparr>"

lemma keeper_facts:
  "h_pets keeper = Some 0 # replicate 9 None" "h_petHeap keeper = [0 \<mapsto> blank_pet]" "h_session keeper" "h_petQueue keeper = []"
  "idle_hero keeper"
  by (simp_all add: keeper_def spender_def sample_hero_def idle_hero_def sample_inv_def row_accepted_def)

definition dog_rules :: rules where
  "dog_rules = idle_rules\<lparr>cf_cdb := (\<lambda>_. Some dog_info)\<rparr>"

lemma keeper_run:
  "\<exists>h1 h2 k. put_pet_unit 0 v keeper = Inr h1 \<and> UpdatePetLevel 0 h1 = Inr h2 \<and> UpdatePetCarried idb h2 = Inr k \<and>
     h_session k \<and> h_petQueue k = [] \<and> h_inv k = h_inv keeper"
proof -
  let ?h1 = "put_pet 0 (blank_pet\<lparr>pt_unit := v\<rparr>) keeper"
  have h1: "put_pet_unit 0 v keeper = Inr ?h1" by (simp add: put_pet_unit_def upd_pet_def get_pet_def keeper_facts)
  have "h_petHeap ?h1 0 = Some (blank_pet\<lparr>pt_unit := v\<rparr>)" by (simp add: put_pet_def)
  from UpdatePetLevel_run [OF this] obtain h2 where h2: "UpdatePetLevel 0 ?h1 = Inr h2"
    "h_petHeap h2 0 = Some (blank_pet\<lparr>pt_unit := v\<lparr>u_levelUp := False\<rparr>\<rparr>)"
    "h_pets h2 = h_pets keeper" "h_inv h2 = h_inv keeper" "h_session h2" "h_petQueue h2 = []"
    by (auto simp: put_pet_def keeper_facts)
  let ?z = "blank_pet\<lparr>pt_unit := v\<lparr>u_levelUp := False\<rparr>\<rparr>"
  have "\<exists>eq. pet_equip_fields idb [0, 1, 3, 2, 4, 5] ?z (h_inv keeper) = Inr eq"
    by (simp add: GetEquipModelId_def GetEquip_def blank_pet_def)
  then obtain fs where f: "pet_fields idb ?z (h_inv h2) = Inr fs" by (auto simp: pet_fields_def h2(4) Let_def)
  have p: "GetPet 0 h2 = Inr (Some 0)" "0 < n \<Longrightarrow> n < 10 \<Longrightarrow> GetPet n h2 = Inr None" for n
    by (simp_all add: GetPet_def h2(3) keeper_facts nth_Cons')
  have "carried_fields idb [0..<MAX_PET_SLOT] h2 = Inr fs"
    by (simp add: upt_conv_Cons get_pet_def h2(2) f p)
  then have "\<exists>k. UpdatePetCarried idb h2 = Inr k \<and> h_session k \<and> h_petQueue k = [] \<and> h_inv k = h_inv keeper"
    using h2(4-6) by (simp add: UpdatePetCarried_def say_must_def say_def)
  with h1 h2(1) show ?thesis by blast
qed

theorem pet_level_lost_witness:
  "\<exists>k m. change_pet_level dog_rules 1 1 0 keeper = Inr ((0, Pet_done []), k) \<and> SaveToDB_player (\<lambda>_. None) k = Inr m \<and>
     h_petRows m = h_petRows keeper"
proof -
  let ?u = "reset_pet_spells dog_info (uset_all (reset_pet_fields dog_info) (uset UNIT_FIELD_LEVEL (ucast (1 :: u8)) (pt_unit blank_pet)))"
  have here: "GetPet (unat ((1 :: u8) - 1)) keeper = Inr (Some 0)" "get_pet 0 keeper = Inr blank_pet" "cf_cdb dog_rules e = Some dog_info" for e
    by (simp_all add: GetPet_def get_pet_def keeper_facts dog_rules_def)
  have r: "raise_level (cf_sdb dog_rules) 1 (reborn_tenths ?u) (?u, 0) = Inr (?u, 0)"
    using reset_pet_level [of dog_info "uset UNIT_FIELD_LEVEL (ucast (1 :: u8)) (pt_unit blank_pet)"]
    by (subst raise_level.simps) (simp only: if_True not_False_eq_True less_irrefl unsigned_1)
  obtain h1 h2 k where run: "put_pet_unit 0 (refill ?u) keeper = Inr h1" "UpdatePetLevel 0 h1 = Inr h2"
    "UpdatePetCarried (cf_idb dog_rules) h2 = Inr k" and k: "h_session k" "h_petQueue k = []" "h_inv k = h_inv keeper"
    using keeper_run by blast
  have "pt_name blank_pet = []" by (simp add: blank_pet_def)
  then have c: "change_pet_level dog_rules 1 1 0 keeper = Inr ((0, Pet_done []), k)"
    unfolding change_pet_level_def by (simp only: here bindR_Inr option.case Let_def r run prod.case)
  have "\<exists>m. SaveToDB_player (\<lambda>_. None) k = Inr m"
    using k keeper_facts(5)
    by (simp add: SaveToDB_player_def SavePets_def on_inv_def idle_hero_def SaveInventory_def)
  then obtain m where m: "SaveToDB_player (\<lambda>_. None) k = Inr m" by blast
  have "h_petRows m = h_petRows keeper" using pet_level_lost [OF c _ keeper_facts(4) m] by simp
  with c m show ?thesis by blast
qed

end
