(* ===== verification/VendorFacts.thy ===== *)
theory VendorFacts
  imports Commands TeamTravel
begin

text \<open>The goods of vendors under the commands that add and delete them.\<close>

definition vendor_ok :: "goods_row list \<Rightarrow> npc \<Rightarrow> bool" where
  "vendor_ok tab c \<longleftrightarrow> np_loaded c \<and> distinct (map gd_slot (np_items c)) \<and> distinct (map gd_entry (np_items c)) \<and>
     (\<forall>g \<in> set (np_items c). unat (gd_entry g) < 65536) \<and>
     (\<forall>(k, s, e) \<in> set tab. k = np_guid c \<longrightarrow> \<lparr>gd_slot = s, gd_entry = e\<rparr> \<in> set (np_items c))"

lemma loaded_goods: "np_loaded c \<Longrightarrow> LoadGoods idb tab c = c"
  by (simp add: LoadGoods_def)

lemma gm_say_run:
  assumes "ar_hero (rl_arena r) (cs_self cs) = Some h"
  shows "\<exists>s. gm_say cs txt r = Inr s \<and> rl_npcs s = rl_npcs r \<and> rl_goods s = rl_goods r \<and>
    ar_hero (rl_arena s) (cs_self cs) \<noteq> None"
  using assms by (auto simp: gm_say_def on_hero_eq)

lemma entry_u16: "unat e < 65536 \<Longrightarrow> (ucast (ucast (e :: u32) :: u16) :: u32) = e"
  by (simp add: word_unat_eq_iff unat_ucast_mod)

lemma RemoveItem_here:
  assumes "distinct (map gd_entry (xs @ g # ys))" and "unat (gd_entry g) < 65536"
  shows "vendor_RemoveItem (ucast (gd_entry g)) (xs @ g # ys) = (True, xs @ ys)"
  using assms by (induction xs) (auto simp: entry_u16)

lemma item_after_here:
  "g \<notin> set xs \<Longrightarrow> item_after_erase g (xs @ g # ys) = (case ys of [] \<Rightarrow> None | nxt # _ \<Rightarrow> Some nxt)"
  by (induction xs) (auto simp: item_after_erase_def split: list.split)

lemma find_new: "\<forall>x \<in> set xs. \<not> P x \<Longrightarrow> find P (xs @ [y]) = (if P y then Some y else None)"
  by (induction xs) auto

lemma GetItem_SomeD: "vendor_GetItem slot its = Some g \<Longrightarrow> g \<in> set its \<and> gd_slot g = slot"
  by (auto simp: vendor_GetItem_def find_Some_iff split: if_splits)

lemma vendor_del_step:
  assumes "vendor_ok tab c" and "vendor_GetItem (slot - 1) (np_items c) = Some g" and "np_items c = xs @ g # ys"
  shows "vendor_del cs slot c r = (case ys of
      [] \<Rightarrow> Inl OutOfBounds
    | nxt # _ \<Rightarrow> gm_say cs [ascii ''Vendor '', quoted (np_name c), ascii '' item slot '', number (unat slot), ascii '' deleted.'']
        ((put_npc (c\<lparr>np_items := xs @ ys\<rparr>) (put_npc c r))\<lparr>rl_goods := delete_goods (np_guid c, slot - 1, gd_entry nxt) (rl_goods r)\<rparr>))"
proof -
  have "distinct (np_items c)" using assms(1) by (simp add: vendor_ok_def distinct_map)
  then have new: "g \<notin> set xs" by (auto simp: assms(3))
  have rem: "vendor_RemoveItem (ucast (gd_entry g)) (xs @ g # ys) = (True, xs @ ys)"
    by (rule RemoveItem_here) (use assms(1) in \<open>auto simp: vendor_ok_def assms(3)\<close>)
  have loaded: "np_loaded c" using assms(1) by (simp add: vendor_ok_def)
  show ?thesis
    using assms(2) unfolding vendor_del_def Let_def loaded_goods [OF loaded] assms(3)
    by (simp add: rem item_after_here [OF new] put_npc_def split: list.split)
qed

text \<open>C32: deleting an item of a vendor takes it from the goods in memory, but the row that is deleted is named by the
  item that moved up to its place, and there is none such: the table keeps every row, so the item is back when
  the goods are loaded again. For the last item what is read lies behind the goods.
\<close>

theorem vendor_row_stays:
  assumes "vendor_ok (rl_goods r) c" and "vendor_GetItem (slot - 1) (np_items c) = Some g"
    and "ar_hero (rl_arena r) (cs_self cs) = Some h"
  shows "if g = List.last (np_items c) then vendor_del cs slot c r = Inl OutOfBounds
    else \<exists>r' c'. vendor_del cs slot c r = Inr r' \<and> rl_goods r' = rl_goods r \<and>
      rl_npcs r' (np_guid c) = Some c' \<and> np_items c' = remove1 g (np_items c)"
proof -
  obtain xs ys where its: "np_items c = xs @ g # ys" using GetItem_SomeD [OF assms(2)] by (meson split_list)
  have "distinct (np_items c)" using assms(1) by (simp add: vendor_ok_def distinct_map)
  then have new: "g \<notin> set xs" "g \<notin> set ys" by (auto simp: its)
  note del = vendor_del_step [OF assms(1,2) its, of cs r]
  show ?thesis
  proof (cases ys)
    case Nil
    then show ?thesis using del by (simp add: its)
  next
    case (Cons nxt zs)
    have "g \<noteq> List.last (np_items c)" using new(2) unfolding its Cons by (metis last_ConsR last_appendR last_in_set list.simps(3))
    moreover have "(np_guid c, slot - 1, gd_entry nxt) \<notin> set (rl_goods r)"
    proof
      assume "(np_guid c, slot - 1, gd_entry nxt) \<in> set (rl_goods r)"
      then have "\<lparr>gd_slot = slot - 1, gd_entry = gd_entry nxt\<rparr> \<in> set (np_items c)"
        using assms(1) by (auto simp: vendor_ok_def)
      moreover have "inj_on gd_slot (set (np_items c))" using assms(1) by (simp add: vendor_ok_def distinct_map)
      ultimately have "\<lparr>gd_slot = slot - 1, gd_entry = gd_entry nxt\<rparr> = g"
        using GetItem_SomeD [OF assms(2)] by (metis creature_item.select_convs(1) inj_onD)
      then have "gd_entry nxt = gd_entry g" by (metis creature_item.select_convs(2))
      then show False using assms(1) by (simp add: vendor_ok_def its Cons)
    qed
    then have "delete_goods (np_guid c, slot - 1, gd_entry nxt) (rl_goods r) = rl_goods r"
      by (auto simp: delete_goods_def filter_id_conv)
    ultimately have run: "vendor_del cs slot c r =
        gm_say cs [ascii ''Vendor '', quoted (np_name c), ascii '' item slot '', number (unat slot), ascii '' deleted.'']
          ((put_npc (c\<lparr>np_items := xs @ ys\<rparr>) (put_npc c r))\<lparr>rl_goods := rl_goods r\<rparr>)"
      and other: "g \<noteq> List.last (np_items c)" using del by (simp_all add: Cons)
    let ?r = "(put_npc (c\<lparr>np_items := xs @ ys\<rparr>) (put_npc c r))\<lparr>rl_goods := rl_goods r\<rparr>"
    have "ar_hero (rl_arena ?r) (cs_self cs) = Some h" using assms(3) by (simp add: put_npc_def)
    then obtain r' where "vendor_del cs slot c r = Inr r'" "rl_npcs r' = rl_npcs ?r" "rl_goods r' = rl_goods ?r"
      unfolding run using gm_say_run by blast
    moreover have "remove1 g (np_items c) = xs @ ys" using new(1) by (simp add: its remove1_append)
    ultimately show ?thesis using other by (auto simp: put_npc_def)
  qed
qed

text \<open>C33: an item that is added to a vendor is in the goods and in the table, but it can be bought only in a slot up to
  the number of items, and never be taken back by the command that deletes: for a slot that sells the
  command reads behind the goods, and any other slot is empty for it.
\<close>

theorem vendor_added:
  assumes "vendor_ok (rl_goods r) c" and "GetItemEntryByModelId (cf_query (cs_rules cs)) modelid (ar_cache (rl_arena r)) = (entry, cache)"
    and "cf_idb (cs_rules cs) entry \<noteq> None" and "unat entry < 65536" and "1 \<le> unat slot"
    and "\<forall>g \<in> set (np_items c). gd_slot g \<noteq> slot - 1 \<and> gd_entry g \<noteq> entry"
    and "ar_hero (rl_arena r) (cs_self cs) = Some h"
  shows "\<exists>r' c'. vendor_add nm cs slot modelid c r = Inr r' \<and> rl_npcs r' (np_guid c) = Some c' \<and>
    np_items c' = np_items c @ [\<lparr>gd_slot = slot - 1, gd_entry = entry\<rparr>] \<and> rl_goods r' = rl_goods r @ [(np_guid c, slot - 1, entry)] \<and>
    vendor_ok (rl_goods r') c' \<and>
    (if unat slot \<le> length (np_items c) + 1
     then vendor_GetItem (slot - 1) (np_items c') = Some \<lparr>gd_slot = slot - 1, gd_entry = entry\<rparr> \<and>
       vendor_del cs slot c' r' = Inl OutOfBounds
     else vendor_GetItem (slot - 1) (np_items c') = None \<and>
       (\<exists>r''. vendor_del cs slot c' r' = Inr r'' \<and> rl_npcs r'' = rl_npcs r' \<and> rl_goods r'' = rl_goods r'))"
proof -
  let ?g = "\<lparr>gd_slot = slot - 1, gd_entry = entry\<rparr>"
  let ?r0 = "put_npc c (r\<lparr>rl_arena := (rl_arena r)\<lparr>ar_cache := cache\<rparr>\<rparr>)" and ?c = "c\<lparr>np_items := np_items c @ [?g]\<rparr>"
  have e: "(ucast (ucast entry :: u16) :: u32) = entry" using assms(4) by (rule entry_u16)
  have loaded: "np_loaded c" using assms(1) by (simp add: vendor_ok_def)
  obtain info where valid: "cf_idb (cs_rules cs) entry = Some info" using assms(3) by blast
  have "vendor_FindItem (ucast entry) (np_items c) = None" using assms(6) by (auto simp: vendor_FindItem_def find_None_iff e)
  moreover have "vendor_GetItem (slot - 1) (np_items c) = None" using assms(6) by (auto simp: vendor_GetItem_def find_None_iff)
  moreover have ins: "insert_goods (np_guid c, slot - 1, entry) (rl_goods ?r0) = rl_goods r @ [(np_guid c, slot - 1, entry)]"
    using assms(1,6) by (force simp: insert_goods_def put_npc_def vendor_ok_def)
  ultimately have add: "vendor_add nm cs slot modelid c r =
      gm_say cs [ascii ''Item <'', nm entry, ascii ''> added to '', quoted (np_name c), ascii '' vendor goods slot '', number (unat slot)]
        ((put_npc ?c ?r0)\<lparr>rl_goods := rl_goods r @ [(np_guid c, slot - 1, entry)]\<rparr>)"
    using assms(2) valid loaded by (simp add: vendor_add_def Let_def loaded_goods vendor_AddItem_def e put_npc_def)
  have self: "ar_hero (rl_arena ((put_npc ?c ?r0)\<lparr>rl_goods := t\<rparr>)) (cs_self cs) = Some h" for t using assms(7) by (simp add: put_npc_def)
  obtain r' where added: "vendor_add nm cs slot modelid c r = Inr r'" "rl_npcs r' = rl_npcs (put_npc ?c ?r0)"
    "rl_goods r' = rl_goods r @ [(np_guid c, slot - 1, entry)]" "ar_hero (rl_arena r') (cs_self cs) \<noteq> None"
    using gm_say_run [OF self [of "rl_goods r @ [(np_guid c, slot - 1, entry)]"]] unfolding add by fastforce
  then have r': "vendor_add nm cs slot modelid c r = Inr r'" "rl_npcs r' (np_guid c) = Some ?c"
    "rl_goods r' = rl_goods r @ [(np_guid c, slot - 1, entry)]" "ar_hero (rl_arena r') (cs_self cs) \<noteq> None"
    by (simp_all add: put_npc_def)
  let ?its = "np_items c @ [?g]"
  have ok: "vendor_ok (rl_goods r') ?c"
    using assms(1,4,6) by (auto simp: vendor_ok_def r'(3))
  have found: "vendor_GetItem (slot - 1) ?its = (if unat slot \<le> length (np_items c) + 1 then Some ?g else None)"
  proof -
    have "find (\<lambda>g. gd_slot g = slot - 1) ?its = Some ?g" using assms(6) by (simp add: find_new)
    moreover have "unat (slot - 1) = unat slot - 1" using assms(5) by (intro unat_minus_one) auto
    ultimately show ?thesis using assms(5) by (auto simp: vendor_GetItem_def)
  qed
  have "\<exists>r''. vendor_del cs slot ?c r' = Inr r'' \<and> rl_npcs r'' = rl_npcs r' \<and> rl_goods r'' = rl_goods r'"
    if "vendor_GetItem (slot - 1) ?its = None"
  proof -
    have "put_npc ?c r' = r'" using r'(2) by (simp add: put_npc_def fun_upd_idem)
    then show ?thesis using that r'(4) gm_say_run [of r' cs] loaded by (auto simp: vendor_del_def Let_def loaded_goods)
  qed
  moreover have "vendor_del cs slot ?c r' = Inl OutOfBounds" if "vendor_GetItem (slot - 1) ?its = Some ?g"
    using vendor_del_step [OF ok, of slot ?g "np_items c" "[]" cs r'] that by simp
  ultimately show ?thesis using r'(1-3) ok found by (intro exI [of _ r'] exI [of _ ?c]) simp
qed

subsection \<open>An example\<close>

definition grocer :: npc where
  "grocer = \<lparr>np_guid = 1001, np_name = [], np_map = 10, np_flags = UNIT_NPC_FLAG_VENDOR_GROCERY, np_entry = 1, np_dead = False,
     np_script = [], np_items = [\<lparr>gd_slot = 0, gd_entry = 7\<rparr>, \<lparr>gd_slot = 1, gd_entry = 8\<rparr>], np_loaded = True\<rparr>"

definition market :: realm where
  "market = pair_realm\<lparr>rl_npcs := [1001 \<mapsto> grocer], rl_goods := [(1001, 0, 7), (1001, 1, 8)]\<rparr>"

definition clerk :: console where
  "clerk = \<lparr>cs_rules = idle_rules\<lparr>cf_idb := [7 \<mapsto> sample_proto], cf_query := [500 \<mapsto> 7]\<rparr>, cs_by_name = (\<lambda>_. None), cs_by_model = (\<lambda>_. None),
     cs_find_npcs = (\<lambda>_. []), cs_find_items = (\<lambda>_. []), cs_npcs = (\<lambda>_. []), cs_depth = 2, cs_junk = (0, 0, 0), cs_guid_of = (\<lambda>g. g),
     cs_self = 1, cs_sec = SEC_GAMEMASTER\<rparr>"

lemma market_ok: "vendor_ok (rl_goods market) grocer" "ar_hero (rl_arena market) (cs_self clerk) = Some sample_hero"
  by (simp_all add: vendor_ok_def market_def grocer_def clerk_def pair_realm_def)

theorem vendor_row_stays_witness:
  "\<exists>r' c'. vendor_del clerk 1 grocer market = Inr r' \<and> rl_goods r' = [(1001, 0, 7), (1001, 1, 8)] \<and>
    rl_npcs r' 1001 = Some c' \<and> np_items c' = [\<lparr>gd_slot = 1, gd_entry = 8\<rparr>]"
proof -
  have "vendor_GetItem (1 - 1) (np_items grocer) = Some \<lparr>gd_slot = 0, gd_entry = 7\<rparr>"
    by (simp add: vendor_GetItem_def grocer_def)
  from vendor_row_stays [OF market_ok(1) this market_ok(2)] show ?thesis
    by (simp add: grocer_def market_def)
qed

text \<open>A grocer with one item gets another one in slot 25.\<close>

definition kiosk :: npc where
  "kiosk = grocer\<lparr>np_items := [\<lparr>gd_slot = 1, gd_entry = 8\<rparr>]\<rparr>"

theorem vendor_added_witness:
  "\<exists>r' c'. vendor_add (\<lambda>_. []) clerk 25 500 kiosk (market\<lparr>rl_goods := [(1001, 1, 8)]\<rparr>) = Inr r' \<and>
    rl_npcs r' 1001 = Some c' \<and> rl_goods r' = [(1001, 1, 8), (1001, 24, 7)] \<and> vendor_GetItem 24 (np_items c') = None"
proof -
  let ?r = "market\<lparr>rl_goods := [(1001, 1, 8)]\<rparr>"
  have "vendor_ok (rl_goods ?r) kiosk" by (simp add: vendor_ok_def kiosk_def grocer_def)
  moreover have "GetItemEntryByModelId (cf_query (cs_rules clerk)) 500 (ar_cache (rl_arena ?r)) = (7, [7 \<mapsto> 500])"
    by (simp add: GetItemEntryByModelId_def clerk_def market_def pair_realm_def)
  moreover have "cf_idb (cs_rules clerk) 7 \<noteq> None" by (simp add: clerk_def)
  moreover have "\<forall>g \<in> set (np_items kiosk). gd_slot g \<noteq> 25 - 1 \<and> gd_entry g \<noteq> 7" by (simp add: kiosk_def grocer_def)
  moreover have "ar_hero (rl_arena ?r) (cs_self clerk) = Some sample_hero" using market_ok(2) by simp
  ultimately show ?thesis
    using vendor_added [of ?r kiosk clerk 500 7 "[7 \<mapsto> 500]" 25 sample_hero "\<lambda>_. []"] by (auto simp: kiosk_def grocer_def)
qed

end
