(* ===== verification/CommandFacts.thy ===== *)
theory CommandFacts
  imports Commands "HOL-Library.Sublist"
begin

text \<open>Who can run which command, and what an unknown one does.\<close>

subsection \<open>The search as a search\<close>

text \<open>The entry a word selects, for a session of the given level.\<close>

definition selects :: "u32 \<Rightarrow> bytes \<Rightarrow> chat_command \<Rightarrow> bool" where
  "selects sec text c \<longleftrightarrow> (cc_Name c = [] \<or> hasStringAbbr (cc_Name c) (first_word text)) \<and>
     (cc_ChildCommands c \<noteq> None \<or> cc_SecurityLevel c \<le> sec)"

lemma exec_in_find:
  "exec_in sec run table text w =
     (case find (selects sec text) table of
        None \<Rightarrow> Inl OutOfBounds
      | Some (ChatCommand name level h kids) \<Rightarrow>
          (case kids of
             Some ks \<Rightarrow> bindR (ExecuteCommandInTable sec run ks (after_word text) w) (\<lambda>(_, w'). Inr (True, w'))
           | None \<Rightarrow> (case h of None \<Rightarrow> Inl NullDeref
                      | Some c \<Rightarrow> bindR (run c (if name \<noteq> [] then after_word text else text) w) (\<lambda>w'. Inr (True, w')))))"
proof (induction table)
  case Nil
  then show ?case by simp
next
  case (Cons c cs)
  show ?case
  proof (cases c)
    case (ChatCommand name level h kids)
    then show ?thesis
      using Cons.IH by (cases kids) (auto simp: selects_def ExecuteCommandInTable_def not_less split: option.split)
  qed
qed

text \<open>The words of a command are the end of the line.\<close>

lemma suffix_after_word [simp]: "suffix (after_word tx) tx"
  unfolding after_word_def by (meson suffix_dropWhile suffix_order.trans)

text \<open>Every entry with a handler asks for the level the handler is declared with.\<close>

function levels_ok :: "chat_command list \<Rightarrow> bool" where
  "levels_ok [] = True"
| "levels_ok (ChatCommand name level h kids # cs) =
     ((case kids of Some ks \<Rightarrow> levels_ok ks
       | None \<Rightarrow> (case h of None \<Rightarrow> False | Some c \<Rightarrow> declared_level c \<le> level)) \<and> levels_ok cs)"
  by pat_completeness auto

termination by (relation "measure (size_list size)") simp_all

lemma commandTable_levels: "levels_ok commandTable"
  by (simp add: commandTable_def group_def leaf_def debugCommandTable_def lookupCommandTable_def npcCommandTable_def
      petCommandTable_def itemCommandTable_def vendorCommandTable_def)

lemma exec_in_level:
  "levels_ok table \<Longrightarrow> exec_in sec run table tx w = Inr (b, w') \<Longrightarrow>
   w' = w \<or> (\<exists>c args. declared_level c \<le> sec \<and> suffix args tx \<and> run c args w = Inr w')"
proof (induction sec run table tx w arbitrary: b w' rule: exec_in.induct)
  case (1 sec run tx w)
  then show ?case by simp
next
  case (2 sec run name level h kids cs tx w)
  show ?case
  proof (cases "name \<noteq> [] \<and> \<not> hasStringAbbr name (first_word tx)")
    case True
    then show ?thesis using 2 by simp
  next
    case False
    show ?thesis
    proof (cases kids)
      case (Some ks)
      show ?thesis
      proof (cases "first_word (after_word tx) = []")
        case True
        then show ?thesis using 2(5) False Some by (auto simp: bindR_eq_Inr)
      next
        case more: False
        then obtain b1 where "exec_in sec run ks (after_word tx) w = Inr (b1, w')"
          using 2(5) False Some by (auto simp: bindR_eq_Inr)
        then have "w' = w \<or> (\<exists>c args. declared_level c \<le> sec \<and> suffix args (after_word tx) \<and> run c args w = Inr w')"
          using 2(3) [OF False Some more] 2(4) Some by simp
        then show ?thesis using suffix_order.trans [OF _ suffix_after_word] by blast
      qed
    next
      case None
      then obtain c where h: "h = Some c" "declared_level c \<le> level" using 2(4) by (auto split: option.splits)
      show ?thesis
      proof (cases "sec < level")
        case True
        then show ?thesis using 2(2) [OF False None True] 2(4,5) False None by simp
      next
        case allowed: False
        then have "run c (if name \<noteq> [] then after_word tx else tx) w = Inr w'"
          using 2(5) False None h(1) by (auto simp: bindR_eq_Inr)
        moreover have "suffix (if name \<noteq> [] then after_word tx else tx) tx" by simp
        moreover have "declared_level c \<le> sec" using h(2) allowed by (simp add: not_less)
        ultimately show ?thesis by blast
      qed
    qed
  qed
qed

lemma ParseCommands_command:
  assumes "c = 33 \<or> c = 46" and "d \<noteq> c"
  shows "ParseCommands sec run notfound (c # d # rest) w =
    bindR (ExecuteCommandInTable sec run commandTable (d # rest) w) (\<lambda>(ok, w').
      bindR (if ok then Inr w' else notfound w') (\<lambda>w''. Inr (1, w'')))"
proof -
  have "\<not> (c \<noteq> 33 \<and> c \<noteq> 46)" "\<not> (c = 46 \<and> d = 46 \<or> c = 33 \<and> d = 33)" using assms by auto
  then show ?thesis by (simp only: ParseCommands_def list.case if_False list.sel)
qed

lemma ParseCommands_other:
  assumes "\<not> ((c = 33 \<or> c = 46) \<and> d \<noteq> c)"
  shows "ParseCommands sec run notfound (c # d # rest) w = Inr (0, w)"
proof (cases "c \<noteq> 33 \<and> c \<noteq> 46")
  case True
  then show ?thesis by (simp only: ParseCommands_def list.case if_True simp_thms)
next
  case False
  then have "c = 46 \<and> d = 46 \<or> c = 33 \<and> d = 33" using assms by auto
  with False show ?thesis by (simp only: ParseCommands_def list.case if_True if_False)
qed

lemma ParseCommands_cases:
  assumes "ParseCommands sec run notfound tx w = Inr (n, w')"
  shows "w' = w \<or> (\<exists>b w1. ExecuteCommandInTable sec run commandTable (List.tl tx) w = Inr (b, w1) \<and>
    (if b then w' = w1 else notfound w1 = Inr w'))"
proof (cases "\<exists>c d rest. tx = c # d # rest")
  case True
  then obtain c d rest where tx: "tx = c # d # rest" by blast
  show ?thesis
  proof (cases "(c = 33 \<or> c = 46) \<and> d \<noteq> c")
    case True
    let ?E = "ExecuteCommandInTable sec run commandTable (d # rest) w"
    have "bindR ?E (\<lambda>(ok, w'). bindR (if ok then Inr w' else notfound w') (\<lambda>w''. Inr (1, w''))) = Inr (n, w')"
      using assms unfolding tx ParseCommands_command [OF conjunct1 [OF True] conjunct2 [OF True]] .
    then obtain b w1 where e: "?E = Inr (b, w1)" and "bindR (if b then Inr w1 else notfound w1) (\<lambda>w''. Inr (1, w'')) = Inr (n, w')"
      by (cases ?E) auto
    then have "if b then w' = w1 else notfound w1 = Inr w'" by (cases b) (simp_all add: bindR_eq_Inr)
    with e show ?thesis unfolding tx by auto
  next
    case False
    then show ?thesis using assms unfolding tx ParseCommands_other [OF False] by simp
  qed
next
  case False
  then have "tx = [] \<or> (\<exists>c. tx = [c])" by (metis list.exhaust)
  then have "ParseCommands sec run notfound tx w \<in> {Inl AssertFailed, Inr (0, w)}"
    by (elim disjE exE) (simp_all only: ParseCommands_def list.case insert_iff simp_thms)
  then show ?thesis using assms by simp
qed

lemma ParseCommands_runs:
  assumes "ParseCommands sec run notfound tx w = Inr (n, w')"
  shows "w' = w \<or> notfound w = Inr w' \<or>
    (\<exists>c args. declared_level c \<le> sec \<and> suffix args tx \<and> run c args w = Inr w')"
proof -
  note ParseCommands_cases [OF assms]
  then show ?thesis
  proof
    assume "\<exists>b w1. ExecuteCommandInTable sec run commandTable (List.tl tx) w = Inr (b, w1) \<and>
      (if b then w' = w1 else notfound w1 = Inr w')"
    then obtain b w1 where e: "ExecuteCommandInTable sec run commandTable (List.tl tx) w = Inr (b, w1)"
      and w': "if b then w' = w1 else notfound w1 = Inr w'" by blast
    show ?thesis
    proof (cases "first_word (List.tl tx) = []")
      case True
      then show ?thesis using e w' by (simp add: ExecuteCommandInTable_def split: if_splits)
    next
      case False
      then have x: "exec_in sec run commandTable (List.tl tx) w = Inr (b, w1)"
        using e by (simp add: ExecuteCommandInTable_def)
      have "b" using x by (simp add: exec_in_find bindR_eq_Inr split: option.splits chat_command.splits)
      moreover have "suffix args tx" if "suffix args (List.tl tx)" for args
        using suffix_order.trans [OF that suffix_tl] .
      ultimately show ?thesis using exec_in_level [OF commandTable_levels x] w' by auto
    qed
  qed simp
qed

text \<open>C20: what a session types changes the world only by a handler that \<open>Chat.h\<close> declares for its level or a lower
  one, or by the answer that there is no such command.
\<close>

theorem commands_need_rights:
  assumes "ParseCommands sec run notfound tx w = Inr (n, w')"
  shows "w' = w \<or> notfound w = Inr w' \<or> (\<exists>c args. declared_level c \<le> sec \<and> run c args w = Inr w')"
  using ParseCommands_runs [OF assms] by blast

text \<open>A world that only records which commands ran.\<close>

definition note_run :: "command \<Rightarrow> bytes \<Rightarrow> command list \<Rightarrow> command list res" where
  "note_run c args w = Inr (w @ [c])"

lemma warp_line: "ascii ''.warp 12'' = [46, 119, 97, 114, 112, 32, 49, 50]"
  by (simp add: ascii_def)

lemma warp_run:
  "ParseCommands SEC_GAMEMASTER note_run Inr (ascii ''.warp 12'') [] = Inr (1, [HandleWarpCommand])"
  by (simp add: warp_line ParseCommands_command ExecuteCommandInTable_def first_word_def commandTable_def group_def leaf_def
      ascii_def tolower_def note_run_def)

theorem commands_need_rights_witness:
  "ParseCommands SEC_GAMEMASTER note_run Inr (ascii ''.warp 12'') [] = Inr (1, [HandleWarpCommand]) \<and>
   (\<exists>c args. declared_level c \<le> SEC_GAMEMASTER \<and> note_run c args [] = Inr [HandleWarpCommand])"
  using warp_run commands_need_rights [OF warp_run] by simp

subsection \<open>Players\<close>

lemma ascii_Nil [simp]: "ascii s = [] \<longleftrightarrow> s = []"
  by (simp add: ascii_def)

lemma first_after [simp]: "first_word (after_word tx) = [] \<longleftrightarrow> after_word tx = []"
proof (cases "after_word tx")
  case (Cons c cs)
  then have "c \<noteq> 32" using hd_dropWhile [of "\<lambda>c. c = 32" "dropWhile (\<lambda>c. c \<noteq> 32) tx"]
    by (auto simp: after_word_def)
  then show ?thesis by (simp add: Cons first_word_def)
qed (simp add: first_word_def)

lemmas tables = debugCommandTable_def lookupCommandTable_def npcCommandTable_def petCommandTable_def itemCommandTable_def
  vendorCommandTable_def

text \<open>No command of a group is for players.\<close>

lemma groups_closed:
  "exec_in 0 run debugCommandTable tx w = Inl OutOfBounds" "exec_in 0 run lookupCommandTable tx w = Inl OutOfBounds"
  "exec_in 0 run npcCommandTable tx w = Inl OutOfBounds" "exec_in 0 run itemCommandTable tx w = Inl OutOfBounds"
  "exec_in 0 run petCommandTable tx w = Inl OutOfBounds" "exec_in 0 run vendorCommandTable tx w = Inl OutOfBounds"
  by (simp_all add: tables leaf_def word_gt_0)

definition command_groups :: "string list" where
  "command_groups = [''debug'', ''lookup'', ''npc'', ''item'', ''pet'', ''vendor'']"

lemma exec_group:
  "exec_in 0 run (group name sec kids # cs) tx w =
     (if name \<noteq> [] \<and> \<not> hasStringAbbr (ascii name) (first_word tx) then exec_in 0 run cs tx w
      else bindR (if after_word tx = [] then Inr (False, w) else exec_in 0 run kids (after_word tx) w) (\<lambda>(_, w'). Inr (True, w')))"
  by (simp add: group_def)

lemma exec_leaf:
  "exec_in 0 run (leaf name sec h # cs) tx w =
     (if name \<noteq> [] \<and> \<not> hasStringAbbr (ascii name) (first_word tx) \<or> 0 < sec then exec_in 0 run cs tx w
      else bindR (run h (if name \<noteq> [] then after_word tx else tx) w) (\<lambda>w'. Inr (True, w')))"
  by (simp add: leaf_def)

text \<open>C31: what a player without rights can type: the name of a group does nothing alone and reads behind its table with
  another word; four commands run, by any prefix, the first that fits; everything else reads behind the table of
  commands instead of being refused.
\<close>

theorem player_commands:
  assumes "c = 33 \<or> c = 46" and "d \<noteq> c" and "d \<noteq> 32"
  shows "ParseCommands SEC_PLAYER run notfound (c # d # rest) w =
    (let word = first_word (d # rest); args = after_word (d # rest); is = (\<lambda>name. hasStringAbbr (ascii name) word);
         on = (\<lambda>h. bindR (run h args w) (\<lambda>w'. Inr (1, w')))
     in if \<exists>g \<in> set command_groups. is g then (if args = [] then Inr (1, w) else Inl OutOfBounds)
        else if is ''unstuck'' then on HandleUnstuckCommand
        else if is ''save'' then on HandleSaveCommand
        else if is ''rest'' then on HandleRestCommand
        else if is ''password'' then on HandlePasswordCommand
        else Inl OutOfBounds)"
proof -
  let ?t = "d # rest"
  have "first_word ?t \<noteq> []" using assms(3) by (simp add: first_word_def)
  then have "ExecuteCommandInTable 0 run commandTable ?t w =
     (if \<exists>g \<in> set command_groups. hasStringAbbr (ascii g) (first_word ?t)
      then (if after_word ?t = [] then Inr (True, w) else Inl OutOfBounds)
      else if hasStringAbbr (ascii ''unstuck'') (first_word ?t) then bindR (run HandleUnstuckCommand (after_word ?t) w) (\<lambda>w'. Inr (True, w'))
      else if hasStringAbbr (ascii ''save'') (first_word ?t) then bindR (run HandleSaveCommand (after_word ?t) w) (\<lambda>w'. Inr (True, w'))
      else if hasStringAbbr (ascii ''rest'') (first_word ?t) then bindR (run HandleRestCommand (after_word ?t) w) (\<lambda>w'. Inr (True, w'))
      else if hasStringAbbr (ascii ''password'') (first_word ?t) then bindR (run HandlePasswordCommand (after_word ?t) w) (\<lambda>w'. Inr (True, w'))
      else Inl OutOfBounds)"
    by (simp add: ExecuteCommandInTable_def commandTable_def exec_group exec_leaf groups_closed command_groups_def
        del: exec_in.simps(2))
  then show ?thesis
    unfolding ParseCommands_command [OF assms(1,2)] Let_def
    by (simp add: bindR_assoc cong: if_cong)
qed

theorem player_commands_witness:
  "ParseCommands SEC_PLAYER note_run Inr [46, 117, 110] [] = Inr (1, [HandleUnstuckCommand]) \<and>
   ParseCommands SEC_PLAYER note_run Inr [46, 119, 97] [] = Inl OutOfBounds"
proof
  have w: "first_word [117, 110] = [117, 110]" "after_word [117, 110] = []" "first_word [119, 97] = [119, 97]"
    by (simp_all add: first_word_def after_word_def)
  show "ParseCommands SEC_PLAYER note_run Inr [46, 117, 110] [] = Inr (1, [HandleUnstuckCommand])"
    using player_commands [of 46 117 note_run Inr "[110]" "[]"]
    by (simp add: Let_def w command_groups_def ascii_def tolower_def note_run_def)
  show "ParseCommands SEC_PLAYER note_run Inr [46, 119, 97] [] = Inl OutOfBounds"
    using player_commands [of 46 119 note_run Inr "[97]" "[]"]
    by (simp add: Let_def w command_groups_def ascii_def tolower_def)
qed

end
