(* ===== verification/ChatFacts.thy ===== *)
theory ChatFacts
  imports CommandFacts VendorFacts
begin

text \<open>What becomes of a chat packet.\<close>

subsection \<open>Reading\<close>

text \<open>A string is read up to the first byte \<open>0xAD\<close>, or to the end of the packet.\<close>

definition typed :: "bytes \<Rightarrow> bytes" where
  "typed s = takeWhile (\<lambda>c. c \<noteq> 0xAD) s"

lemma typed_bytes: "concat (map field_bytes (str_fields s)) = map Encode_u8 s"
  by (induction s) (simp_all add: str_fields_def enc_u8_def)

lemma read_string_holds:
  assumes "holds b (str_fields s)"
  shows "fst (op_read_string [] b) = typed s"
proof -
  have "bb_storage b = take (bb_rpos b) (bb_storage b) @ map Encode_u8 s"
    using assms unfolding holds_def typed_bytes [symmetric] by (metis append_take_drop_id)
  then show ?thesis
    using op_read_string_prefix [of b "take (bb_rpos b) (bb_storage b)" s "[]"] assms by (simp add: typed_def holds_def)
qed

lemma chat_reads:
  assumes "holds b (FU8 ty # str_fields s)" and "ty \<noteq> CHAT_MSG_WHISPER"
  shows "HandleMessagechatOpcode further run cs b r = chat_line further run cs ty 0 (typed s) r"
proof -
  obtain b1 where b1: "read_u8 b = Inr (ty, b1)" "holds b1 (str_fields s)" using read_u8_holds [OF assms(1)] by blast
  show ?thesis using assms(2) by (simp add: HandleMessagechatOpcode_def b1(1) read_string_holds [OF b1(2)])
qed

lemma whisper_reads:
  assumes "holds b (FU8 CHAT_MSG_WHISPER # FU32 target # str_fields s)"
  shows "HandleMessagechatOpcode further run cs b r = chat_line further run cs CHAT_MSG_WHISPER target (typed s) r"
proof -
  obtain b1 where b1: "read_u8 b = Inr (CHAT_MSG_WHISPER, b1)" "holds b1 (FU32 target # str_fields s)"
    using read_u8_holds [OF assms] by blast
  obtain b2 where b2: "read_u32 b1 = Inr (target, b2)" "holds b2 (str_fields s)" using read_u32_holds [OF b1(2)] by blast
  show ?thesis using b1(1) b2(1) by (simp add: HandleMessagechatOpcode_def read_string_holds [OF b2(2)])
qed

subsection \<open>The line\<close>

text \<open>C39: a chat packet of any kind whose text is empty, or begins with a zero byte, stops the server: the assertion
  on the first byte of a line fails before anything is sent.
\<close>

theorem empty_line_asserts:
  assumes "holds b (FU8 ty # str_fields s)" and "ty \<noteq> CHAT_MSG_WHISPER" and "typed s = [] \<or> List.hd (typed s) = 0"
  shows "HandleMessagechatOpcode further run cs b r = Inl AssertFailed"
proof -
  have "c_str (typed s) = []" using assms(3) by (cases "typed s") (auto simp: c_str_def)
  then show ?thesis unfolding chat_reads [OF assms(1,2)] by (simp add: chat_line_def ParseCommands_def)
qed

theorem empty_line_asserts_witness:
  "HandleMessagechatOpcode (\<lambda>_ _. 0) (run_command (\<lambda>_. []) (\<lambda>_ _. Inr) clerk) clerk (packet_with [FU8 2]) market = Inl AssertFailed"
  using empty_line_asserts [of "packet_with [FU8 2]" 2 "[]" "\<lambda>_ _. 0" "run_command (\<lambda>_. []) (\<lambda>_ _. Inr) clerk" clerk market]
    packet_with_holds(1) [of "[FU8 2]"] by (simp add: str_fields_def typed_def)

text \<open>What a command may do to the text: a space becomes a zero byte.\<close>

definition zeroed :: "u8 \<Rightarrow> u8 \<Rightarrow> bool" where
  "zeroed c d \<longleftrightarrow> d = c \<or> c = 32 \<and> d = 0"

lemma zeroed_refl [simp]: "list_all2 zeroed s s"
  by (simp add: list_all2_same zeroed_def)

lemma strtok_cut_zeroed: "list_all2 zeroed s (strtok_cut k s)"
proof (induction k s rule: strtok_cut.induct)
  case (2 k s)
  let ?s1 = "dropWhile (\<lambda>c. c = 32) s"
  show ?case
  proof (cases "dropWhile (\<lambda>c. c \<noteq> 32) ?s1")
    case (Cons c rest)
    then have "c = 32" using hd_dropWhile [of "\<lambda>c. c \<noteq> 32" ?s1] by auto
    have parts: "s = takeWhile (\<lambda>c. c = 32) s @ takeWhile (\<lambda>c. c \<noteq> 32) ?s1 @ 32 # rest"
      using takeWhile_dropWhile_id [of "\<lambda>c. c \<noteq> 32" ?s1] unfolding Cons \<open>c = 32\<close> by simp
    have cut: "strtok_cut (Suc k) s = takeWhile (\<lambda>c. c = 32) s @ takeWhile (\<lambda>c. c \<noteq> 32) ?s1 @ 0 # strtok_cut k rest"
      using Cons by (simp add: Let_def)
    have "list_all2 zeroed (takeWhile (\<lambda>c. c = 32) s @ takeWhile (\<lambda>c. c \<noteq> 32) ?s1 @ 32 # rest)
        (takeWhile (\<lambda>c. c = 32) s @ takeWhile (\<lambda>c. c \<noteq> 32) ?s1 @ 0 # strtok_cut k rest)"
      using "2.IH" [OF refl Cons] by (intro list_all2_appendI) (simp_all, simp add: zeroed_def)
    then show ?thesis unfolding cut by (subst parts)
  next
    case Nil
    then have "strtok_cut (Suc k) s = s" by (simp only: strtok_cut.simps Let_def list.case)
    then show ?thesis by (simp only: zeroed_refl)
  qed
next
  case (1 s)
  show ?case by (simp only: strtok_cut.simps zeroed_refl)
qed

lemma clobber_zeroed:
  assumes "suffix args tx"
  shows "list_all2 zeroed tx (clobber k args tx)"
proof -
  obtain pre where "tx = pre @ args" using assms by (auto simp: suffix_def)
  then show ?thesis by (simp add: clobber_def list_all2_appendI strtok_cut_zeroed)
qed

text \<open>C35: the line of a chat packet that is no whisper, a command with its words like a password too, is told to everyone
  around after the command ran, if it ran without a fault; a space behind a word at most becomes a zero byte. Only the
  line of a packet that says it is for all is told nobody.
\<close>

theorem commands_are_heard:
  assumes "holds b (FU8 ty # str_fields s)" and "ty \<noteq> CHAT_MSG_WHISPER"
    and "ParseCommands (cs_sec cs) (on_line further run)
      (\<lambda>(r1, tx). bindR (sys_say (cs_self cs) (ascii ''Command not found.'') r1) (\<lambda>r2. Inr (r2, tx)))
      (c_str (typed s)) (r, c_str (typed s)) = Inr (n, r1, tx)"
    and "ar_hero (rl_arena r1) (cs_self cs) = Some h"
  shows "\<exists>r2 k heard. HandleMessagechatOpcode further run cs b r = Inr r2 \<and> ar_hero (rl_arena r2) (cs_self cs) = Some k \<and>
    list_all2 zeroed (typed s) heard \<and>
    h_out k = h_out h @ (if ty = CHAT_MSG_ALL then [] else [(ToSet False, 0x02, [FU8 ty, FU32 (h_account h)] @ str_fields heard)])"
proof -
  let ?rest = "drop (length (c_str (typed s))) (typed s)"
  let ?p = "pull (cs_self cs) (rl_arena r1) h"
  let ?fs = "[FU8 ty, FU32 (h_account h)] @ str_fields (tx @ ?rest)"
  have "list_all2 zeroed (c_str (typed s)) tx"
    using ParseCommands_runs [OF assms(3)] clobber_zeroed by (auto simp: on_line_def bindR_eq_Inr)
  moreover have "typed s = c_str (typed s) @ ?rest"
    by (simp add: c_str_def dropWhile_eq_drop [symmetric])
  ultimately have heard: "list_all2 zeroed (typed s) (tx @ ?rest)"
    using list_all2_appendI [OF _ zeroed_refl] by metis
  have get: "get_hero (cs_self cs) (rl_arena r1) = Inr ?p" using assms(4) by (auto simp: get_hero_eq)
  have "deliver_chat cs ty 0 (tx @ ?rest) r1 =
    (if ty = CHAT_MSG_ALL then Inr r1
     else Inr (r1\<lparr>rl_arena := push (cs_self cs) (say (ToSet False) 0x02 ?fs ?p) (rl_arena r1)\<rparr>))"
    using assms(2) by (simp add: deliver_chat_def get on_hero_def in_arena_def with_hero_def run_hero_def Let_def)
  moreover have "HandleMessagechatOpcode further run cs b r = deliver_chat cs ty 0 (tx @ ?rest) r1"
    unfolding chat_reads [OF assms(1,2)] chat_line_def assms(3) by simp
  ultimately show ?thesis using assms(4) heard
    by (intro exI [of _ "if ty = CHAT_MSG_ALL then r1 else r1\<lparr>rl_arena := push (cs_self cs) (say (ToSet False) 0x02 ?fs ?p) (rl_arena r1)\<rparr>"]
        exI [of _ "if ty = CHAT_MSG_ALL then h else say (ToSet False) 0x02 ?fs ?p"] exI [of _ "tx @ ?rest"]) (auto simp: say_def)
qed

lemma password_run:
  "ParseCommands sec run notfound (ascii ''.password ab'') w = bindR (run HandlePasswordCommand (ascii ''ab'') w) (\<lambda>w'. Inr (1, w'))"
proof -
  have "ascii ''.password ab'' = [46, 112, 97, 115, 115, 119, 111, 114, 100, 32, 97, 98]" by (simp add: ascii_def)
  then show ?thesis
    by (simp add: ParseCommands_command ExecuteCommandInTable_def first_word_def after_word_def commandTable_def group_def leaf_def
        ascii_def tolower_def bindR_assoc)
qed

theorem commands_are_heard_witness:
  "\<exists>r2 k heard. HandleMessagechatOpcode (\<lambda>_ _. 0) (run_command (\<lambda>_. []) (\<lambda>_ _. Inr) clerk) clerk
      (packet_with (FU8 2 # str_fields (ascii ''.password ab''))) market = Inr r2 \<and> ar_hero (rl_arena r2) 1 = Some k \<and>
    list_all2 zeroed (ascii ''.password ab'') heard \<and> h_out k = [(ToSet False, 0x02, [FU8 2, FU32 1] @ str_fields heard)]"
proof -
  let ?run = "on_line (\<lambda>_ _. 0) (run_command (\<lambda>_. []) (\<lambda>_ _. Inr) clerk)"
  let ?none = "\<lambda>(r1, tx). bindR (sys_say (cs_self clerk) (ascii ''Command not found.'') r1) (\<lambda>r2. Inr (r2, tx))"
  have t: "typed (ascii ''.password ab'') = ascii ''.password ab''" "c_str (ascii ''.password ab'') = ascii ''.password ab''"
    by (simp_all add: typed_def c_str_def ascii_def)
  have "clobber 0 (ascii ''ab'') (ascii ''.password ab'') = ascii ''.password ab''" by (simp add: clobber_def ascii_def)
  then have "ParseCommands (cs_sec clerk) ?run ?none (c_str (typed (ascii ''.password ab'')))
      (market, c_str (typed (ascii ''.password ab''))) = Inr (1, market, ascii ''.password ab'')"
    unfolding t password_run by (simp add: on_line_def)
  from commands_are_heard [OF packet_with_holds(1) _ this market_ok(2), of 2] show ?thesis
    by (simp add: t sample_hero_def clerk_def)
qed

end
