(* ===== verification/Sessions.thy ===== *)
theory Sessions
  imports Commands Loading
begin

text \<open>
  The server as its clients see it (\<open>src/game/WorldSession.cpp\<close>, \<open>src/game/CharacterHandler.cpp\<close>,
  \<open>src/game/World.cpp\<close>): sessions with their queues of packets, the table of opcodes, logging in over queries
  that are answered later, and logging out. A packet is its opcode and its body.
\<close>

subsection \<open>The table of opcodes\<close>

datatype handler =
  HandlePlayerLogin_op | HandleCharCreate_op | HandleMovement_op | HandlePlayerAction_op | HandleMapCompleted_op
| HandleMessagechat_op | HandleExpression_op | HandleUnknown14_op | HandlePlayerAttack_op | HandlePetCommand_op
| HandlePetRelease_op | HandleUseItem_op | HandleGroup_op | HandleStatAdd_op | HandleSpellAdd_op | HandleTransacItem_op
| HandleBattleCommand_op | HandleSetupShortkey_op | HandleEnableOptions_op

datatype opcode_status = STATUS_NOT_LOGGEDIN | STATUS_LOGGEDIN

definition opcodeTable :: "(u8 \<times> opcode_status \<times> handler) list" where
  "opcodeTable =
     [(1, STATUS_NOT_LOGGEDIN, HandlePlayerLogin_op), (9, STATUS_LOGGEDIN, HandleCharCreate_op),
      (6, STATUS_LOGGEDIN, HandleMovement_op), (20, STATUS_LOGGEDIN, HandlePlayerAction_op),
      (12, STATUS_LOGGEDIN, HandleMapCompleted_op), (2, STATUS_LOGGEDIN, HandleMessagechat_op),
      (32, STATUS_LOGGEDIN, HandleExpression_op), (14, STATUS_LOGGEDIN, HandleUnknown14_op),
      (50, STATUS_LOGGEDIN, HandlePlayerAttack_op), (19, STATUS_LOGGEDIN, HandlePetCommand_op),
      (15, STATUS_LOGGEDIN, HandlePetRelease_op), (23, STATUS_LOGGEDIN, HandleUseItem_op),
      (13, STATUS_LOGGEDIN, HandleGroup_op), (8, STATUS_LOGGEDIN, HandleStatAdd_op),
      (28, STATUS_LOGGEDIN, HandleSpellAdd_op), (27, STATUS_LOGGEDIN, HandleTransacItem_op),
      (11, STATUS_LOGGEDIN, HandleBattleCommand_op), (40, STATUS_LOGGEDIN, HandleSetupShortkey_op),
      (33, STATUS_LOGGEDIN, HandleEnableOptions_op)]"

subsection \<open>Sessions and the server\<close>

record session =
  ss_security :: u32
  ss_player :: "uid option"
  ss_socket :: bool
  ss_loading :: bool
  ss_recently :: bool
  ss_name :: bytes
  ss_queue :: "(u8 \<times> byte_buffer) list"

text \<open>
  The world; the sessions by account; the logins whose queries run, oldest first (account, guid); the players
  in \<open>HashMapHolder\<close>; what is kept to create characters; and by number the players that logged out, with the rows
  of the tables as their last save left them. The columns that say who is online are not modelled.
\<close>

record server =
  sv_realm :: realm
  sv_sessions :: "u32 \<Rightarrow> session option"
  sv_pending :: "(u32 \<times> u32) list"
  sv_online :: "(u64 \<times> uid) list"
  sv_creation :: creation
  sv_saved :: "u64 \<Rightarrow> hero option"

text \<open>
  What lies outside: the rules, what commands ask (\<open>Commands\<close>), the answers of the database to a login, the text of
  the day, the address of a new player, what is not initialised, and the packets of teams, which \<open>Team\<close> models on a
  world of their own, with the end of a player in it.
\<close>

record backend =
  bk_rules :: rules
  bk_console :: console
  bk_item_name :: "u32 \<Rightarrow> bytes"
  bk_edit :: "command \<Rightarrow> bytes \<Rightarrow> realm \<Rightarrow> realm res"
  bk_edit_words :: "bytes \<Rightarrow> realm \<Rightarrow> nat"
  bk_guid :: "u32 \<Rightarrow> u32 option"
  bk_rows :: "u32 \<Rightarrow> u32 \<Rightarrow> login_queries"
  bk_taken :: "bytes \<Rightarrow> bool"
  bk_motd :: bytes
  bk_new :: uid
  bk_blank :: mover
  bk_account :: "u32 \<Rightarrow> uid option"
  bk_junk_out :: bool
  bk_junk_pos :: "u8 \<times> u8"
  bk_group :: "uid \<Rightarrow> byte_buffer \<Rightarrow> realm \<Rightarrow> realm res"
  bk_leave_team :: "uid \<Rightarrow> realm \<Rightarrow> realm res"

definition upd_session :: "u32 \<Rightarrow> (session \<Rightarrow> session) \<Rightarrow> server \<Rightarrow> server" where
  "upd_session acc f s = s\<lparr>sv_sessions := (sv_sessions s)(acc := map_option f (sv_sessions s acc))\<rparr>"

definition in_realm :: "(realm \<Rightarrow> realm res) \<Rightarrow> server \<Rightarrow> server res" where
  "in_realm f s = bindR (f (sv_realm s)) (\<lambda>r. Inr (s\<lparr>sv_realm := r\<rparr>))"

subsection \<open>Handlers of players\<close>

text \<open>
  Whether a handler comes to the player of the session before it returns, in a packet that nobody has read from. Most do
  right behind the check of the size, the fields of which are there; where the packet decides, the cases are those of
  the handler. A line of chat is parsed first: the empty one trips the assertion of \<open>ParseCommands\<close>, and behind
  any other comes the name of the player for the log, whatever the commands have done.
\<close>

fun needs_player :: "handler \<Rightarrow> byte_buffer \<Rightarrow> bool res" where
  "needs_player HandleMovement_op b = Inr (bb_size b \<ge> 8)"
| "needs_player HandlePlayerAction_op b =
     (if bb_size b < 1 then Inr False
      else bindR (read_u8 b) (\<lambda>(kind, b1). if kind = 9 then bindR (read_u8 b1) (\<lambda>_. Inr True) else Inr True))"
| "needs_player HandleMapCompleted_op b = Inr (bb_size b \<ge> 1)"
| "needs_player HandleMessagechat_op b =
     bindR (read_u8 b) (\<lambda>(kind, b1).
     bindR (if kind = CHAT_MSG_WHISPER then bindR (read_u32 b1) (\<lambda>(_, b2). Inr b2) else Inr b1) (\<lambda>b2.
     if fst (op_read_string [] b2) = [] then Inl AssertFailed else Inr True))"
| "needs_player HandleExpression_op b = Inr (bb_size b \<ge> 2)"
| "needs_player HandlePlayerAttack_op b = Inr (bb_size b \<ge> 7)"
| "needs_player HandlePetCommand_op b = Inr (bb_size b \<ge> 1)"
| "needs_player HandlePetRelease_op b =
     (if bb_size b < 2 then Inr False
      else bindR (read_u8 b) (\<lambda>(cmd, b1). bindR (read_u8 b1) (\<lambda>(slot, _).
        Inr (slot \<noteq> 0 \<and> unat slot \<le> MAX_PET_SLOT \<and> cmd = 2))))"
| "needs_player HandleUseItem_op b = Inr (bb_size b \<ge> 1)"
| "needs_player HandleGroup_op b =
     (if bb_size b < 1 then Inr False
      else bindR (read_u8 b) (\<lambda>(cmd, b1). Inr (cmd = 1 \<or> cmd = 3 \<or> (cmd = 4 \<or> cmd = 5 \<or> cmd = 6) \<and> bb_size b1 \<ge> 5)))"
| "needs_player HandleStatAdd_op b = Inr (bb_size b \<ge> 9)"
| "needs_player HandleSpellAdd_op b =
     (if bb_size b < 4 \<or> (of_nat ((bb_size b - 1) div 3) :: u8) = 0 then Inr False
      else bindR (read_u8 b) (\<lambda>(target, _). Inr (target = 2)))"
| "needs_player HandleTransacItem_op b =
     (if bb_size b < 1 then Inr False
      else bindR (read_u8 b) (\<lambda>(kind, b1). Inr (kind = 1 \<and> bb_size b1 \<ge> 4 \<or> kind = 2 \<and> bb_size b1 \<ge> 3)))"
| "needs_player HandleBattleCommand_op b =
     (if bb_size b < 8 then Inr False
      else bindR (read_u8 b) (\<lambda>(cmd, b1). bindR (read_u8 b1) (\<lambda>(kind, _). Inr (cmd = 2 \<and> (kind = 2 \<or> kind = 3)))))"
| "needs_player HandleSetupShortkey_op b =
     (if bb_size b < 5 then Inr False
      else bindR (read_u8 b) (\<lambda>(_, b1). bindR (read_u8 b1) (\<lambda>(_, b2). bindR (read_u16 b2) (\<lambda>(_, b3).
        bindR (read_u8 b3) (\<lambda>(key, _). Inr (1 \<le> key \<and> key \<le> 10))))))"
| "needs_player HandleEnableOptions_op b =
     (if bb_size b < 2 then Inr False else bindR (read_u8 b) (\<lambda>(opt, _). Inr (opt = 1 \<or> opt = 2)))"
| "needs_player _ b = Inr False"

text \<open>The vendor a player talks to, with its goods loaded.\<close>

definition shop :: "item_db \<Rightarrow> uid \<Rightarrow> realm \<Rightarrow> ((u8 \<Rightarrow> u32 option) option \<times> realm) res" where
  "shop idb p r =
     bindR (get_hero p (rl_arena r)) (\<lambda>h.
       case GetNPCIfCanInteractWith h (mv_talkedTo (rl_mover r p)) r of
         None \<Rightarrow> Inr (None, r)
       | Some c \<Rightarrow>
           let c1 = LoadGoods idb (rl_goods r) c
           in Inr (Some (\<lambda>slot. map_option gd_entry (vendor_GetItem slot (np_items c1))), put_npc c1 r))"

definition shopping :: "byte_buffer \<Rightarrow> bool" where
  "shopping b \<longleftrightarrow> bb_size b \<ge> 4 \<and> (case read_u8 b of Inl _ \<Rightarrow> False | Inr (kind, _) \<Rightarrow> kind = 1)"

definition trade :: "rules \<Rightarrow> uid \<Rightarrow> byte_buffer \<Rightarrow> realm \<Rightarrow> realm res" where
  "trade cf p b r =
     bindR (if shopping b then shop (cf_idb cf) p r else Inr (None, r)) (\<lambda>(goods, r1).
       in_arena (\<lambda>a. bindR (run_hero p (\<lambda>h. HandlePlayerTransacItemOpcodes (cf_idb cf) (cf_query cf) goods b (ar_cache a, h)) a)
         (\<lambda>(cache, a1). Inr (a1\<lparr>ar_cache := cache\<rparr>))) r1)"

text \<open>The creature of a map that \<open>HandlePlayerBattleCommandOpcodes\<close> attacks, with its number.\<close>

definition npc_at :: "uid \<Rightarrow> realm \<Rightarrow> u16 \<Rightarrow> u16 \<Rightarrow> (u32 \<times> u8) option" where
  "npc_at p r mapid n =
     (case get_hero p (rl_arena r) of
        Inl _ \<Rightarrow> None
      | Inr h \<Rightarrow> map_option (\<lambda>c. (np_guid c, GetMapNpcId c))
                  (GetNPCIfCanInteractWith h (GetNpcGuidByMapNpcId mapid (ucast n)) r))"

fun run_player :: "backend \<Rightarrow> u32 \<Rightarrow> handler \<Rightarrow> uid \<Rightarrow> byte_buffer \<Rightarrow> realm \<Rightarrow> realm res" where
  "run_player bk sec HandleMovement_op p b r = HandleMovementOpcodes p b r"
| "run_player bk sec HandlePlayerAction_op p b r =
     ended (HandlePlayerActionOpcode (bk_rules bk) (cs_npcs (bk_console bk)) (cs_depth (bk_console bk)) sec p b r)"
| "run_player bk sec HandleMapCompleted_op p b r = HandlePlayerEnterMapCompletedOpcode p b r"
| "run_player bk sec HandleMessagechat_op p b r =
     (let cs = (bk_console bk)\<lparr>cs_self := p, cs_sec := sec\<rparr>
      in HandleMessagechatOpcode (bk_edit_words bk) (run_command (bk_item_name bk) (bk_edit bk) cs) cs b r)"
| "run_player bk sec HandleExpression_op p b r = HandlePlayerExpressionOpcode p b r"
| "run_player bk sec HandlePlayerAttack_op p b r = in_arena (HandlePlayerAttackOpcode (bk_rules bk) p b) r"
| "run_player bk sec HandlePetCommand_op p b r =
     in_arena (HandlePetCommandOpcodes (bk_rules bk) (bk_junk_out bk) (bk_junk_pos bk) p b) r"
| "run_player bk sec HandlePetRelease_op p b r = in_arena (HandlePetReleaseOpcode p b) r"
| "run_player bk sec HandleUseItem_op p b r = in_arena (HandleUseItemOpcodes (bk_rules bk) (bk_junk_pos bk) p b) r"
| "run_player bk sec HandleGroup_op p b r = bk_group bk p b r"
| "run_player bk sec HandleStatAdd_op p b r = on_hero p (HandlePlayerStatAddOpcodes b) r"
| "run_player bk sec HandleSpellAdd_op p b r =
     on_hero p (HandlePlayerSpellAddOpcodes (cf_sdb (bk_rules bk)) (cf_idb (bk_rules bk)) b) r"
| "run_player bk sec HandleTransacItem_op p b r = trade (bk_rules bk) p b r"
| "run_player bk sec HandleBattleCommand_op p b r =
     in_arena (HandlePlayerBattleCommandOpcodes (bk_rules bk) (bk_account bk) (npc_at p r) p b) r"
| "run_player bk sec HandleSetupShortkey_op p b r = on_hero p (HandlePlayerSetupShortkeyOpcodes b) r"
| "run_player bk sec HandleEnableOptions_op p b r = on_hero p (HandlePlayerEnableOptionsOpcodes b) r"
| "run_player bk sec _ p b r = Inr r"

text \<open>A session without a player runs them too, up to the null pointer.\<close>

definition run_handler :: "backend \<Rightarrow> u32 \<Rightarrow> uid option \<Rightarrow> handler \<Rightarrow> byte_buffer \<Rightarrow> realm \<Rightarrow> realm res" where
  "run_handler bk sec who h b r =
     (case who of
        Some p \<Rightarrow> run_player bk sec h p b r
      | None \<Rightarrow> bindR (needs_player h b) (\<lambda>t. if t then Inl NullDeref else Inr r))"

subsection \<open>Logging in\<close>

text \<open>The account is that of the packet; its password is read and dropped. Without a character nothing follows.\<close>

definition begin_login :: "backend \<Rightarrow> u32 \<Rightarrow> server \<Rightarrow> server" where
  "begin_login bk account s =
     (case bk_guid bk account of
        None \<Rightarrow> s
      | Some guid \<Rightarrow> s\<lparr>sv_pending := sv_pending s @ [(account, guid)]\<rparr>)"

definition set_loading :: "bool \<Rightarrow> u32 \<Rightarrow> server \<Rightarrow> server" where
  "set_loading l acc = upd_session acc (\<lambda>ss. ss\<lparr>ss_loading := l\<rparr>)"

definition HandlePlayerLoginOpcode :: "backend \<Rightarrow> u32 \<Rightarrow> byte_buffer \<Rightarrow> server \<Rightarrow> server res" where
  "HandlePlayerLoginOpcode bk acc b s =
     (if bb_size b < 9 then Inr s
      else let s1 = set_loading True acc s
           in bindR (read_u8 b) (\<lambda>(len, b1).
                if bb_size b < 9 + unat len then Inr s1
                else bindR (read_u32 b1) (\<lambda>(account, b2). bindR (read_u32 b2) (\<lambda>_. Inr (begin_login bk account s1)))))"

text \<open>A session keeps the chosen name. A created character logs in at once.\<close>

definition create_character :: "backend \<Rightarrow> u32 \<Rightarrow> session \<Rightarrow> byte_buffer \<Rightarrow> server \<Rightarrow> server res" where
  "create_character bk acc ss b s =
     bindR (HandleCharCreateOpcode (cf_idb (bk_rules bk)) (cf_query (bk_rules bk)) acc (bk_taken bk) b
              ((sv_creation s)\<lparr>cr_name := ss_name ss, cr_passwords := None\<rparr>)) (\<lambda>c.
       let s1 = upd_session acc (\<lambda>x. x\<lparr>ss_name := cr_name c\<rparr>) (s\<lparr>sv_creation := c\<rparr>)
       in Inr (if cr_passwords c = None then s1 else begin_login bk acc (set_loading True acc s1)))"

definition SendUnknownImportant :: "(u16 \<Rightarrow> (u8 \<times> u16 \<times> u16) list) \<Rightarrow> hero \<Rightarrow> hero res" where
  "SendUnknownImportant npcs h =
     bindR (say_must 0x18 [FU8 7, FU8 3, FU8 4] h) (\<lambda>h1.
     bindR (say_must 0x29 ([FU8 5, FU8 1, FU8 1] @ replicate 10 (FU32 0) @ [FU32 0x02000000, FU32 1] @ replicate 10 (FU32 0) @
        [FU32 0x103] @ replicate 10 (FU32 0) @ [FU32 0x10400] @ replicate 10 (FU32 0) @ [FU32 0x01050000] @
        replicate 10 (FU32 0) @ [FU16 0, FU8 0]) (UpdateCurrentGold h1)) (\<lambda>h2.
     bindR (UpdateMap2Npc npcs h2) (say_must 0x0B [FU32 0xF24B0204, FU32 1, FU8 0])))"

definition SendInitialPacketsBeforeAddToMap :: "item_db \<Rightarrow> (u16 \<Rightarrow> (u8 \<times> u16 \<times> u16) list) \<Rightarrow> hero \<Rightarrow> hero res" where
  "SendInitialPacketsBeforeAddToMap idb npcs h =
     (let h1 = UpdatePlayer (UpdateEnablePK (Send1408 h))
      in bindR (BuildUpdateBlockVisibilityPacket idb h1) (\<lambda>(opcode, fs).
         bindR (say_must opcode fs h1) (\<lambda>h2.
         bindR (UpdatePetCarried idb h2) (\<lambda>h3.
         bindR (UpdatePet h3) (\<lambda>h4.
         bindR (UpdateInventory idb h4) (\<lambda>h5.
         bindR (UpdateBattlePet h5) (\<lambda>h6.
           case BuildUpdateBlockStatusPacket h6 of (opcode2, fs2) \<Rightarrow>
           bindR (say_must opcode2 fs2 h6) (\<lambda>h7. SendUnknownImportant npcs (AllowPlayerToMove h7)))))))))"

definition SendInitialPacketsAfterAddToMap :: "hero \<Rightarrow> hero" where
  "SendInitialPacketsAfterAddToMap h = UpdateShortkey (UpdateCurrentGold h)"

text \<open>\<open>Map::Add\<close> without its grids.\<close>

definition AddToMap :: "hero \<Rightarrow> hero" where
  "AddToMap h = h\<lparr>h_inv := (h_inv h)\<lparr>inv_inWorld := True\<rparr>\<rparr>"

text \<open>
  The object of a new player. What its constructor does not set (the last position, the sub-leader) comes from
  \<open>bk_blank\<close>.
\<close>

definition new_mover :: "mover \<Rightarrow> mover" where
  "new_mover m = m\<lparr>mv_dontMove := False, mv_orientation := 0, mv_exprType := 0, mv_exprCode := 0, mv_sequence := 0, mv_menuOpen := False,
     mv_talkedTo := 0\<rparr>"

definition place_player :: "mover \<Rightarrow> uid \<Rightarrow> hero \<Rightarrow> realm \<Rightarrow> realm" where
  "place_player m p h r =
     (let a = rl_arena r
      in r\<lparr>rl_mover := (rl_mover r)(p := new_mover m),
           rl_arena := push p h (on_battle (\<lambda>b. b\<lparr>b_masterOf := (b_masterOf b)(p := None)\<rparr>)
             (a\<lparr>ar_members := (ar_members a)(p := []), ar_leader := (ar_leader a)(p := 0), ar_engine := (ar_engine a)(p := False)\<rparr>))\<rparr>)"

text \<open>\<open>HashMapHolder\<close>: one object for a guid. The arena finds players by it too.\<close>

definition player_guid :: "hero \<Rightarrow> u64" where
  "player_guid h = inv_guid (h_inv h)"

definition RegisterPlayer :: "u64 \<Rightarrow> uid \<Rightarrow> server \<Rightarrow> server" where
  "RegisterPlayer g p s =
     s\<lparr>sv_online := filter (\<lambda>(k, _). k \<noteq> g) (sv_online s) @ [(g, p)],
       sv_realm := (sv_realm s)\<lparr>rl_arena := (rl_arena (sv_realm s))\<lparr>ar_guid := (ar_guid (rl_arena (sv_realm s)))(g \<mapsto> p)\<rparr>\<rparr>\<rparr>"

definition UnregisterPlayer :: "u64 \<Rightarrow> server \<Rightarrow> server" where
  "UnregisterPlayer g s =
     s\<lparr>sv_online := filter (\<lambda>(k, _). k \<noteq> g) (sv_online s),
       sv_realm := (sv_realm s)\<lparr>rl_arena := (rl_arena (sv_realm s))\<lparr>ar_guid := (ar_guid (rl_arena (sv_realm s)))(g := None)\<rparr>\<rparr>\<rparr>"

text \<open>Players of other maps and the new one see each other; a map of \<open>hash_map\<close> has no order, the model takes that of logins.\<close>

definition show_each_other :: "item_db \<Rightarrow> uid \<Rightarrow> uid \<Rightarrow> realm \<Rightarrow> realm res" where
  "show_each_other idb p q r =
     bindR (get_hero p (rl_arena r)) (\<lambda>h. bindR (get_hero q (rl_arena r)) (\<lambda>k.
       if \<not> (inv_inWorld (h_inv k) \<and> inv_inWorld (h_inv h)) \<or> q = p \<or> h_map k = h_map h then Inr r
       else bindR (BuildUpdateBlockVisibilityForOthersPacket idb h) (\<lambda>(op1, fs1).
            bindR (on_hero q (say_must op1 fs1) r) (\<lambda>r1.
            bindR (BuildUpdateBlockVisibilityForOthersPacket idb k) (\<lambda>(op2, fs2). on_hero p (say_must op2 fs2) r1)))))"

definition UpdateOnlinePlayersFor :: "item_db \<Rightarrow> uid \<Rightarrow> server \<Rightarrow> server res" where
  "UpdateOnlinePlayersFor idb p s = in_realm (foldR (\<lambda>(_, q). show_each_other idb p q) (sv_online s)) s"

text \<open>The text of the day, cut at each \<open>$\<close>.\<close>

definition send_motd :: "bytes \<Rightarrow> uid \<Rightarrow> realm \<Rightarrow> realm res" where
  "send_motd motd p = foldR (sys_say p) (StrSplit motd [36])"

definition enter_world :: "backend \<Rightarrow> u32 \<Rightarrow> hero \<Rightarrow> server \<Rightarrow> server res" where
  "enter_world bk acc h s =
     (let p = bk_new bk; idb = cf_idb (bk_rules bk); s1 = upd_session acc (\<lambda>ss. ss\<lparr>ss_player := Some p\<rparr>) s
      in bindR (SendInitialPacketsBeforeAddToMap idb (cs_npcs (bk_console bk)) h) (\<lambda>h1.
           let s2 = RegisterPlayer (player_guid h1) p (s1\<lparr>sv_realm := place_player (bk_blank bk) p (AddToMap h1) (sv_realm s1)\<rparr>)
           in bindR (in_realm (on_hero p (\<lambda>h. Inr (SendInitialPacketsAfterAddToMap h))) s2) (\<lambda>s3.
              bindR (in_realm (send_motd (bk_motd bk) p) s3) (UpdateOnlinePlayersFor idb p))))"

text \<open>The callback of the queries: the session is that of the account, whoever asked.\<close>

definition HandlePlayerLogin :: "backend \<Rightarrow> u32 \<Rightarrow> u32 \<Rightarrow> server \<Rightarrow> server res" where
  "HandlePlayerLogin bk acc guid s =
     (case sv_sessions s acc of
        None \<Rightarrow> Inr s
      | Some ss \<Rightarrow>
          bindR (LoadFromDB (cf_sdb (bk_rules bk)) (cf_idb (bk_rules bk)) (cf_cdb (bk_rules bk)) guid (bk_rows bk acc guid)
                   (new_player acc (cr_db (sv_creation s)))) (\<lambda>(ok, h).
            if \<not> ok then Inr (set_loading False acc s)
            else bindR (enter_world bk acc h s) (\<lambda>s1. Inr (set_loading False acc s1))))"

definition query_done :: "backend \<Rightarrow> server \<Rightarrow> server res" where
  "query_done bk s =
     (case sv_pending s of
        [] \<Rightarrow> Inr s
      | (acc, guid) # rest \<Rightarrow> HandlePlayerLogin bk acc guid (s\<lparr>sv_pending := rest\<rparr>))"

subsection \<open>Logging out\<close>

text \<open>Saved, no longer found, then destroyed: it leaves its battle, then its team.\<close>

definition LogoutPlayer :: "backend \<Rightarrow> u32 \<Rightarrow> server \<Rightarrow> server res" where
  "LogoutPlayer bk acc s =
     (case sv_sessions s acc of
        None \<Rightarrow> Inr s
      | Some ss \<Rightarrow>
          let done_with = upd_session acc (\<lambda>x. x\<lparr>ss_player := None, ss_recently := True\<rparr>)
          in (case ss_player ss of
                None \<Rightarrow> Inr (done_with s)
              | Some p \<Rightarrow>
                  bindR (in_realm (on_hero p (SaveToDB_player (cf_idb (bk_rules bk)))) s) (\<lambda>s1.
                  bindR (get_hero p (rl_arena (sv_realm s1))) (\<lambda>h.
                  bindR (in_realm (in_arena (leave_as_player (bk_rules bk) p))
                           (UnregisterPlayer (player_guid h) (s1\<lparr>sv_saved := (sv_saved s1)(player_guid h \<mapsto> h)\<rparr>))) (\<lambda>s2.
                  bindR (in_realm (bk_leave_team bk p) s2) (\<lambda>s3.
                    let r = sv_realm s3; a = rl_arena r
                    in Inr (done_with (s3\<lparr>sv_realm := r\<lparr>rl_arena := a\<lparr>ar_hero := (ar_hero a)(p := None)\<rparr>\<rparr>\<rparr>))))))))"

text \<open>Deleting a session logs its player out; so does \<open>World::RemoveSession\<close>, before an account opens a new one.\<close>

definition delete_session :: "backend \<Rightarrow> u32 \<Rightarrow> server \<Rightarrow> server res" where
  "delete_session bk acc s =
     (case sv_sessions s acc of
        None \<Rightarrow> Inr s
      | Some ss \<Rightarrow>
          bindR (if ss_player ss = None then Inr s else LogoutPlayer bk acc s) (\<lambda>s1.
            Inr (s1\<lparr>sv_sessions := (sv_sessions s1)(acc := None)\<rparr>)))"

subsection \<open>The queue\<close>

definition handle_op :: "backend \<Rightarrow> u32 \<Rightarrow> handler \<Rightarrow> byte_buffer \<Rightarrow> server \<Rightarrow> server res" where
  "handle_op bk acc h b s =
     (case sv_sessions s acc of
        None \<Rightarrow> Inr s
      | Some ss \<Rightarrow>
          (case h of
             HandlePlayerLogin_op \<Rightarrow> HandlePlayerLoginOpcode bk acc b s
           | HandleCharCreate_op \<Rightarrow> create_character bk acc ss b s
           | _ \<Rightarrow> in_realm (run_handler bk (ss_security ss) (ss_player ss) h b) s))"

text \<open>An opcode without a handler is dropped. A handler for players runs for a session that has none as well.\<close>

definition handle_packet :: "backend \<Rightarrow> u32 \<Rightarrow> u8 \<times> byte_buffer \<Rightarrow> server \<Rightarrow> server res" where
  "handle_packet bk acc = (\<lambda>(opcode, b) s.
     case map_of opcodeTable opcode of
       None \<Rightarrow> Inr s
     | Some (status, h) \<Rightarrow>
         (case sv_sessions s acc of
            None \<Rightarrow> Inr s
          | Some ss \<Rightarrow>
              handle_op bk acc h b
                (if status = STATUS_LOGGEDIN \<and> ss_player ss = None then upd_session acc (\<lambda>x. x\<lparr>ss_recently := False\<rparr>) s else s)))"

definition session_Update :: "backend \<Rightarrow> u32 \<Rightarrow> server \<Rightarrow> (bool \<times> server) res" where
  "session_Update bk acc s =
     (case sv_sessions s acc of
        None \<Rightarrow> Inr (True, s)
      | Some ss \<Rightarrow>
          bindR (foldR (handle_packet bk acc) (ss_queue ss) (upd_session acc (\<lambda>x. x\<lparr>ss_queue := []\<rparr>) s)) (\<lambda>s1.
            case sv_sessions s1 acc of
              None \<Rightarrow> Inr (True, s1)
            | Some x \<Rightarrow>
                if \<not> ss_socket x \<and> \<not> ss_loading x then bindR (LogoutPlayer bk acc s1) (\<lambda>s2. Inr (False, s2))
                else Inr (True, s1)))"

text \<open>One session in \<open>World::Update\<close>.\<close>

definition update_session :: "backend \<Rightarrow> u32 \<Rightarrow> server \<Rightarrow> server res" where
  "update_session bk acc s =
     bindR (session_Update bk acc s) (\<lambda>(stays, s1). if stays then Inr s1 else delete_session bk acc s1)"

definition new_session :: "u32 \<Rightarrow> session" where
  "new_session sec =
     \<lparr>ss_security = sec, ss_player = None, ss_socket = True, ss_loading = False, ss_recently = False, ss_name = [], ss_queue = []\<rparr>"

datatype server_event =
    Connected u32 u32
  | Received u32 u8 byte_buffer
  | Disconnected u32
  | Session_tick u32
  | Query_done

fun server_step :: "backend \<Rightarrow> server_event \<Rightarrow> server \<Rightarrow> server res" where
  "server_step bk (Connected acc sec) s =
     bindR (delete_session bk acc s) (\<lambda>s1. Inr (s1\<lparr>sv_sessions := (sv_sessions s1)(acc \<mapsto> new_session sec)\<rparr>))"
| "server_step bk (Received acc opcode b) s = Inr (upd_session acc (\<lambda>x. x\<lparr>ss_queue := ss_queue x @ [(opcode, b)]\<rparr>) s)"
| "server_step bk (Disconnected acc) s = Inr (upd_session acc (\<lambda>x. x\<lparr>ss_socket := False\<rparr>) s)"
| "server_step bk (Session_tick acc) s = update_session bk acc s"
| "server_step bk Query_done s = query_done bk s"

end
