(* ===== verification/SessionFacts.thy ===== *)
theory SessionFacts
  imports Sessions GrowthFacts VendorFacts LoadFacts
begin

text \<open>What sessions promise and what they do not: logging in, packets before a login, sessions that stay.\<close>

subsection \<open>The login packet\<close>

lemma upd_session_simps [simp]:
  "sv_sessions (upd_session acc f s) = (sv_sessions s)(acc := map_option f (sv_sessions s acc))"
  "sv_realm (upd_session acc f s) = sv_realm s" "sv_pending (upd_session acc f s) = sv_pending s"
  "sv_online (upd_session acc f s) = sv_online s" "sv_creation (upd_session acc f s) = sv_creation s"
  by (simp_all add: upd_session_def)

lemma begin_login_simps [simp]:
  "sv_sessions (begin_login bk account s) = sv_sessions s" "sv_realm (begin_login bk account s) = sv_realm s"
  "sv_online (begin_login bk account s) = sv_online s" "sv_creation (begin_login bk account s) = sv_creation s"
  "sv_pending (begin_login bk account s) = sv_pending s @ (case bk_guid bk account of None \<Rightarrow> [] | Some g \<Rightarrow> [(account, g)])"
  by (simp_all add: begin_login_def split: option.split)

lemma upd_session_same: "map_option f (sv_sessions s acc) = sv_sessions s acc \<Longrightarrow> upd_session acc f s = s"
  by (simp add: upd_session_def fun_upd_idem)

lemma no_queue: "ss_queue x = [] \<Longrightarrow> x\<lparr>ss_queue := []\<rparr> = x"
  by (cases x) simp

text \<open>What the packet asks for: a login of the account it names, if it is as long as it says.\<close>

lemma login_packet_asks:
  assumes "holds b ([FU8 len, FU32 account, FU32 patch] @ str_fields pass)"
  shows "HandlePlayerLoginOpcode bk acc b s =
    Inr (if bb_size b < 9 + unat len then set_loading True acc s else begin_login bk account (set_loading True acc s))"
proof -
  have "9 \<le> bb_size b" using holds_size [OF assms] by (simp add: wire_u8.enc_width wire_u32.enc_width)
  moreover obtain b1 where b1: "read_u8 b = Inr (len, b1)" "holds b1 ([FU32 account, FU32 patch] @ str_fields pass)"
    using read_u8_holds [of b len] assms by auto
  obtain b2 where b2: "read_u32 b1 = Inr (account, b2)" "holds b2 (FU32 patch # str_fields pass)"
    using read_u32_holds [of b1 account] b1(2) by auto
  obtain b3 where "read_u32 b2 = Inr (patch, b3)" using read_u32_holds [OF b2(2)] by blast
  ultimately show ?thesis by (simp add: HandlePlayerLoginOpcode_def b1(1) b2(1))
qed

lemma opcode_login [simp]: "map_of opcodeTable 1 = Some (STATUS_NOT_LOGGEDIN, HandlePlayerLogin_op)"
  by (simp add: opcodeTable_def)

lemma login_packet:
  assumes "holds b ([FU8 len, FU32 account, FU32 patch] @ str_fields pass)" and "sv_sessions s acc = Some ss"
  shows "handle_packet bk acc (1, b) s =
    Inr (if bb_size b < 9 + unat len then set_loading True acc s else begin_login bk account (set_loading True acc s))"
  using login_packet_asks [OF assms(1)] assms(2) by (simp add: handle_packet_def handle_op_def)

lemma loading_stays:
  assumes "sv_sessions u acc = Some x" and "ss_queue x = []" and "ss_loading x"
  shows "update_session bk acc u = Inr u"
proof -
  have "upd_session acc (\<lambda>x. x\<lparr>ss_queue := []\<rparr>) u = u"
    by (rule upd_session_same) (simp add: assms(1) no_queue [OF assms(2)])
  then show ?thesis using assms by (simp add: update_session_def session_Update_def)
qed

text \<open>A login packet marks the session it comes from as loading, but the login it starts is that of the account it
  names, and none for an account without a character; the password does not matter. A session whose login never
  comes stays for ever: after its socket is gone, no tick ends it, and its player stays in the world.
\<close>

theorem login_leaves_ghost:
  assumes "sv_sessions s acc = Some ss" and "ss_queue ss = []"
    and "holds b ([FU8 len, FU32 account, FU32 patch] @ str_fields pass)" and "9 + unat len \<le> bb_size b"
    and "bk_guid bk account = None \<or> account \<noteq> acc"
  shows "\<exists>t u. handle_packet bk acc (1, b) s = Inr t \<and>
    sv_pending t = sv_pending s @ (case bk_guid bk account of None \<Rightarrow> [] | Some g \<Rightarrow> [(account, g)]) \<and>
    acc \<notin> fst ` set (drop (length (sv_pending s)) (sv_pending t)) \<and>
    server_step bk (Disconnected acc) t = Inr u \<and> sv_sessions u acc = Some (ss\<lparr>ss_loading := True, ss_socket := False\<rparr>) \<and>
    server_step bk (Session_tick acc) u = Inr u"
proof -
  let ?t = "begin_login bk account (set_loading True acc s)"
  let ?u = "upd_session acc (\<lambda>x. x\<lparr>ss_socket := False\<rparr>) ?t"
  have t: "handle_packet bk acc (1, b) s = Inr ?t" using login_packet [OF assms(3,1)] assms(4) by simp
  have u: "sv_sessions ?u acc = Some (ss\<lparr>ss_loading := True, ss_socket := False\<rparr>)"
    using assms(1) by (simp add: set_loading_def)
  have "server_step bk (Session_tick acc) ?u = Inr ?u"
    unfolding server_step.simps by (rule loading_stays [OF u]) (simp_all add: assms(2))
  then show ?thesis using t u assms(5)
    by (intro exI [of _ ?t] exI [of _ ?u]) (auto simp: set_loading_def split: option.splits)
qed

subsection \<open>Packets before a login\<close>

text \<open>Opcodes whose handler goes to the player right behind the check of the size, with that size.\<close>

definition eager :: "(u8 \<times> nat) list" where
  "eager = [(6, 8), (12, 1), (32, 2), (50, 7), (19, 1), (23, 1), (8, 9)]"

text \<open>A client that has not logged in stops the server with any packet of a player, as soon as it is as long as its
  handler checks: the status of the opcode is not a guard.
\<close>

theorem packet_before_login:
  assumes "sv_sessions s acc = Some ss" and "ss_player ss = None" and "ss_queue ss = (opcode, b) # rest"
    and "(opcode, n) \<in> set eager" and "n \<le> bb_size b"
  shows "server_step bk (Session_tick acc) s = Inl NullDeref"
proof -
  have "handle_packet bk acc (opcode, b) t = Inl NullDeref"
    if "sv_sessions t acc = Some x" "ss_player x = None" for t x
    using that assms(4,5)
    by (auto simp: eager_def handle_packet_def handle_op_def opcodeTable_def run_handler_def in_realm_def)
  then have "foldR (handle_packet bk acc) (ss_queue ss) (upd_session acc (\<lambda>x. x\<lparr>ss_queue := []\<rparr>) s) = Inl NullDeref"
    using assms(1,2) by (simp add: assms(3))
  then show ?thesis using assms(1) by (simp add: update_session_def session_Update_def)
qed

subsection \<open>Entering the world\<close>

text \<open>A player without what was said to it.\<close>

definition mute :: "hero \<Rightarrow> hero" where
  "mute h = h\<lparr>h_out := []\<rparr>"

lemma mute_fields:
  assumes "mute k = mute h"
  shows "h_inv k = h_inv h" "h_unit k = h_unit h" "h_account k = h_account h" "h_name k = h_name h" "h_map k = h_map h"
    "h_x k = h_x h" "h_y k = h_y h" "h_session k = h_session h"
  using assms by (cases h, cases k, simp add: mute_def)+

lemma mute_say [simp]: "mute (say a op fs h) = mute h" "mute (say_session op fs h) = mute h"
  by (simp_all add: mute_def say_def say_session_def)

lemma mute_must: "say_must op fs h = Inr k \<Longrightarrow> mute k = mute h"
  by (auto simp: say_must_def split: if_splits)

lemma mute_plain [simp]:
  "mute (updatePlayer a b c d h) = mute h" "mute (updatePet e a b c d h) = mute h" "mute (update_mod a i h) = mute h"
  "mute (update_pet_mod e a u i h) = mute h" "mute (UpdatePlayer h) = mute h" "mute (UpdateEnablePK h) = mute h"
  "mute (UpdateCurrentGold h) = mute h" "mute (UpdateShortkey h) = mute h" "mute (Send1408 h) = mute h"
  "mute (AllowPlayerToMove h) = mute h" "mute (SendInitialPacketsAfterAddToMap h) = mute h"
  by (simp_all add: updatePlayer_def updatePet_def update_mod_def update_pet_mod_def UpdatePlayer_def UpdateEnablePK_def
      UpdateCurrentGold_def UpdateShortkey_def Send1408_def AllowPlayerToMove_def Send0F0A_def Send0504_def
      SendInitialPacketsAfterAddToMap_def Let_def)

lemma mute_UpdatePet_slot: "UpdatePet_slot k h = Inr h' \<Longrightarrow> mute h' = mute h"
  by (auto simp: UpdatePet_slot_def bindR_eq_Inr Let_def split: option.splits)

lemma mute_UpdatePet:
  assumes "UpdatePet h = Inr h'"
  shows "mute h' = mute h"
  by (rule foldR_invariant [where P = "\<lambda>k. mute k = mute h", OF _ _ assms [unfolded UpdatePet_def]])
    (auto dest: mute_UpdatePet_slot)

lemma mute_npcs: "UpdateMap2Npc npcs h = Inr h' \<Longrightarrow> mute h' = mute h"
  by (auto simp: UpdateMap2Npc_def split: if_splits dest: mute_must)

lemma mute_unknown: "SendUnknownImportant npcs h = Inr h' \<Longrightarrow> mute h' = mute h"
  by (auto simp: SendUnknownImportant_def bindR_eq_Inr dest!: mute_must mute_npcs)

lemma mute_lists:
  "UpdatePetCarried idb h = Inr h' \<Longrightarrow> mute h' = mute h" "UpdateInventory idb h = Inr h' \<Longrightarrow> mute h' = mute h"
  "UpdateBattlePet h = Inr h' \<Longrightarrow> mute h' = mute h"
  by (auto simp: UpdatePetCarried_def UpdateInventory_def UpdateBattlePet_def bindR_eq_Inr split: if_splits option.splits
      dest!: mute_must)

lemma mute_before: "SendInitialPacketsBeforeAddToMap idb npcs h = Inr h' \<Longrightarrow> mute h' = mute h"
  by (auto simp: SendInitialPacketsBeforeAddToMap_def bindR_eq_Inr Let_def split_beta
      dest!: mute_must mute_lists mute_UpdatePet mute_unknown)

text \<open>Players that are only told something: the same objects, and the same guids find them.\<close>

definition person :: "hero \<Rightarrow> u32 \<times> bytes \<times> bool \<times> u16 \<times> u16 \<times> u16 \<times> player_inv" where
  "person h = (h_account h, h_name h, h_session h, h_map h, h_x h, h_y h, h_inv h)"

definition told :: "realm \<Rightarrow> realm \<Rightarrow> bool" where
  "told r r' \<longleftrightarrow> ar_guid (rl_arena r') = ar_guid (rl_arena r) \<and>
     (\<forall>q. map_option person (ar_hero (rl_arena r') q) = map_option person (ar_hero (rl_arena r) q))"

lemma told_refl [simp]: "told r r"
  by (simp add: told_def)

lemma told_trans: "told r s \<Longrightarrow> told s t \<Longrightarrow> told r t"
  by (simp add: told_def)

lemma person_mute: "mute k = mute h \<Longrightarrow> person k = person h"
  by (simp add: person_def mute_fields [of k h])

lemma person_pull [simp]: "person (pull p a h) = person h"
  by (simp add: person_def pull_def)

lemma on_hero_told:
  assumes "on_hero p f r = Inr r'" and "\<And>h k. f h = Inr k \<Longrightarrow> mute k = mute h"
  shows "told r r'"
  using assms(1) person_mute [OF assms(2)] by (auto simp: on_hero_eq told_def person_pull)

lemma sys_say_told: "sys_say p txt r = Inr r' \<Longrightarrow> told r r'"
  unfolding sys_say_def send_to_def by (erule on_hero_told) auto

lemma foldR_told:
  assumes "foldR f xs r = Inr r'" and "\<And>x a b. f x a = Inr b \<Longrightarrow> told a b"
  shows "told r r'"
  by (rule foldR_invariant [where P = "told r", OF _ _ assms(1)]) (auto intro: told_trans assms(2))

lemma show_told: "show_each_other idb p q r = Inr r' \<Longrightarrow> told r r'"
  by (auto simp: show_each_other_def bindR_eq_Inr split: if_splits prod.splits
      intro: told_trans dest!: on_hero_told [OF _ mute_must])


text \<open>What the packets to a new player read: items with templates, pets that are there, and a session.\<close>

definition presentable :: "item_db \<Rightarrow> hero \<Rightarrow> bool" where
  "presentable idb h \<longleftrightarrow> h_session h \<and> length (inv_slots (h_inv h)) = PLAYER_SLOTS_COUNT \<and>
     (\<forall>i. Some i \<in> set (inv_slots (h_inv h)) \<longrightarrow> (\<exists>it. inv_heap (h_inv h) i = Some it \<and> idb (it_entry it) \<noteq> None)) \<and>
     length (h_pets h) = MAX_PET_SLOT \<and> (\<exists>fs. carried_fields idb [0..<MAX_PET_SLOT] h = Inr fs) \<and>
     (\<forall>x. Some x \<in> set (h_pets h) \<or> h_battlePet h = Some x \<longrightarrow> h_petHeap h x \<noteq> None)"

definition visible :: "item_db \<Rightarrow> hero \<Rightarrow> bool" where
  "visible idb h \<longleftrightarrow> h_session h \<and> (\<exists>ms. equip_models idb (h_inv h) = Inr ms)"

lemma visible_person: "person k = person h \<Longrightarrow> visible idb k = visible idb h"
  by (simp add: visible_def person_def)

lemma slot_models_total:
  assumes "\<forall>i. Some i \<in> set (inv_slots s) \<longrightarrow> (\<exists>it. inv_heap s i = Some it \<and> idb (it_entry it) \<noteq> None)"
    and "\<forall>k \<in> set ks. k < length (inv_slots s)"
  shows "\<exists>ms. slot_models idb ks s = Inr ms"
  using assms(2)
proof (induction ks)
  case (Cons k ks)
  then obtain ms where ms: "slot_models idb ks s = Inr ms" by auto
  show ?case
  proof (cases "inv_slots s ! k")
    case None
    then show ?thesis using Cons.prems ms by (simp add: GetItemByPos_def)
  next
    case (Some i)
    then have "Some i \<in> set (inv_slots s)" using Cons.prems nth_mem [of k "inv_slots s"] by simp
    then obtain it where "inv_heap s i = Some it" "idb (it_entry it) \<noteq> None" using assms(1) by blast
    then show ?thesis using Some Cons.prems ms by (auto simp: GetItemByPos_def item_model_def get_item_def)
  qed
qed simp

lemma inventory_fields_total:
  assumes "\<forall>i. Some i \<in> set (inv_slots s) \<longrightarrow> (\<exists>it. inv_heap s i = Some it \<and> idb (it_entry it) \<noteq> None)"
    and "\<forall>k \<in> set ks. k < length (inv_slots s)"
  shows "\<exists>fs. inventory_fields idb ks s = Inr fs"
  using assms(2)
proof (induction ks)
  case (Cons k ks)
  then obtain fs where fs: "inventory_fields idb ks s = Inr fs" by auto
  show ?case
  proof (cases "inv_slots s ! k")
    case None
    then show ?thesis using Cons.prems fs by (simp add: GetItemByPos_def)
  next
    case (Some i)
    then have "Some i \<in> set (inv_slots s)" using Cons.prems nth_mem [of k "inv_slots s"] by simp
    then obtain it where "inv_heap s i = Some it" "idb (it_entry it) \<noteq> None" using assms(1) by blast
    then show ?thesis using Some Cons.prems fs by (auto simp: GetItemByPos_def get_item_def)
  qed
qed simp

lemma presentable_visible: "presentable idb h \<Longrightarrow> visible idb h"
  unfolding visible_def equip_models_def by (auto simp: presentable_def intro!: slot_models_total)

text \<open>None of the packets fails.\<close>

lemma UpdatePet_slot_total:
  assumes "length (h_pets h) = MAX_PET_SLOT" and "\<forall>x. Some x \<in> set (h_pets h) \<longrightarrow> h_petHeap h x \<noteq> None" and "unat k < MAX_PET_SLOT"
  shows "\<exists>h'. UpdatePet_slot k h = Inr h'"
proof (cases "h_pets h ! unat k")
  case None
  then show ?thesis using assms(1,3) by (simp add: UpdatePet_slot_def GetPet_def)
next
  case (Some x)
  then have "Some x \<in> set (h_pets h)" using assms(1,3) nth_mem [of "unat k" "h_pets h"] by simp
  then obtain y where "h_petHeap h x = Some y" using assms(2) by blast
  then show ?thesis using assms(1,3) Some by (simp add: UpdatePet_slot_def GetPet_def get_pet_def Let_def)
qed

lemma mute_pets: "mute k = mute h \<Longrightarrow> h_pets k = h_pets h \<and> h_petHeap k = h_petHeap h \<and> h_battlePet k = h_battlePet h"
  by (cases h, cases k) (simp add: mute_def)

lemma UpdatePet_total:
  assumes "length (h_pets h) = MAX_PET_SLOT" and "\<forall>x. Some x \<in> set (h_pets h) \<longrightarrow> h_petHeap h x \<noteq> None"
  shows "\<exists>h'. UpdatePet h = Inr h'"
proof -
  have "\<forall>k \<in> set ks. k < MAX_PET_SLOT \<Longrightarrow> mute g = mute h \<Longrightarrow> \<exists>h'. foldR (\<lambda>k. UpdatePet_slot (of_nat k)) ks g = Inr h'" for ks g
  proof (induction ks arbitrary: g)
    case (Cons k ks)
    have "unat (of_nat k :: u8) = k" using Cons.prems(1) by (simp add: unat_of_nat_small)
    then obtain g1 where g1: "UpdatePet_slot (of_nat k) g = Inr g1"
      using UpdatePet_slot_total [of g "of_nat k"] mute_pets [OF Cons.prems(2)] assms Cons.prems(1) by auto
    then show ?case using Cons.IH [of g1] Cons.prems mute_UpdatePet_slot [OF g1] by simp
  qed simp
  then show ?thesis by (simp add: UpdatePet_def)
qed

lemma must_total: "h_session h \<Longrightarrow> say_must op fs h = Inr (say ToSession op fs h)"
  by (simp add: say_must_def)

lemma unknown_total:
  assumes "h_session h"
  shows "\<exists>h'. SendUnknownImportant npcs h = Inr h'"
proof -
  let ?h1 = "say ToSession 0x18 [FU8 7, FU8 3, FU8 4] h"
  have s1: "h_session (UpdateCurrentGold ?h1)" using assms mute_fields(8) [of "UpdateCurrentGold ?h1" h] by simp
  let ?fs = "[FU8 5, FU8 1, FU8 1] @ replicate 10 (FU32 0) @ [FU32 0x02000000, FU32 1] @ replicate 10 (FU32 0) @
        [FU32 0x103] @ replicate 10 (FU32 0) @ [FU32 0x10400] @ replicate 10 (FU32 0) @ [FU32 0x01050000] @
        replicate 10 (FU32 0) @ [FU16 0, FU8 0]"
  let ?h2 = "say ToSession 0x29 ?fs (UpdateCurrentGold ?h1)"
  have s2: "h_session ?h2" using s1 by (simp add: say_def)
  then obtain h3 where h3: "UpdateMap2Npc npcs ?h2 = Inr h3"
    by (cases "npcs (h_map ?h2) = []") (auto simp: UpdateMap2Npc_def must_total)
  have "h_session h3" using s2 mute_fields(8) [OF mute_npcs [OF h3]] by simp
  then show ?thesis
    using must_total [OF assms] must_total [OF s1] h3 by (simp only: SendUnknownImportant_def bindR_Inr must_total) blast
qed

lemma before_total:
  assumes "presentable idb h"
  shows "\<exists>h'. SendInitialPacketsBeforeAddToMap idb npcs h = Inr h'"
proof -
  define h1 where "h1 = UpdatePlayer (UpdateEnablePK (Send1408 h))"
  have m1: "mute h1 = mute h" by (simp add: h1_def)
  have keep: "h_session k = h_session h" "h_inv k = h_inv h" "h_pets k = h_pets h" "h_petHeap k = h_petHeap h" "h_battlePet k = h_battlePet h"
    if "mute k = mute h" for k
    using mute_fields [OF that] mute_pets [OF that] by simp_all
  have s: "h_session h" using assms by (simp add: presentable_def)
  obtain ms where ms: "equip_models idb (h_inv h1) = Inr ms"
    using presentable_visible [OF assms] keep [OF m1] by (auto simp: visible_def)
  then obtain op fs where v: "BuildUpdateBlockVisibilityPacket idb h1 = Inr (op, fs)"
    by (simp add: BuildUpdateBlockVisibilityPacket_def Let_def)
  obtain h2 where h2: "say_must op fs h1 = Inr h2" using must_total [of h1] s keep [OF m1] by simp
  have m2: "mute h2 = mute h" using mute_must [OF h2] m1 by simp
  have "carried_fields idb ks k = carried_fields idb ks h" if "mute k = mute h" for k ks
    using keep [OF that] by (induction ks) (simp_all add: GetPet_def get_pet_def)
  then obtain gs where "carried_fields idb [0..<MAX_PET_SLOT] h2 = Inr gs"
    using assms m2 unfolding presentable_def by metis
  then obtain h3 where h3: "UpdatePetCarried idb h2 = Inr h3"
    using must_total [of h2] s keep [OF m2] by (cases "gs = []") (auto simp: UpdatePetCarried_def simp del: upt_Suc upt_rec_numeral)
  have m3: "mute h3 = mute h" using mute_lists(1) [OF h3] m2 by simp
  obtain h4 where h4: "UpdatePet h3 = Inr h4"
    using UpdatePet_total [of h3] assms keep [OF m3] by (auto simp: presentable_def)
  have m4: "mute h4 = mute h" using mute_UpdatePet [OF h4] m3 by simp
  obtain h5 where h5: "UpdateInventory idb h4 = Inr h5"
    using inventory_fields_total [of "h_inv h4" idb inventory_slots] assms keep [OF m4]
    by (auto simp: presentable_def UpdateInventory_def inventory_slots_def)
  have m5: "mute h5 = mute h" using mute_lists(2) [OF h5] m4 by simp
  obtain h6 where h6: "UpdateBattlePet h5 = Inr h6"
    using assms keep [OF m5] by (cases "h_battlePet h") (auto simp: presentable_def UpdateBattlePet_def get_pet_def)
  have m6: "mute h6 = mute h" using mute_lists(3) [OF h6] m5 by simp
  obtain op2 fs2 where st: "BuildUpdateBlockStatusPacket h6 = (op2, fs2)" by fastforce
  obtain h7 where h7: "say_must op2 fs2 h6 = Inr h7" using must_total [of h6] s keep [OF m6] by simp
  have "mute (AllowPlayerToMove h7) = mute h" using mute_must [OF h7] m6 by simp
  then obtain h8 where "SendUnknownImportant npcs (AllowPlayerToMove h7) = Inr h8"
    using unknown_total keep s by metis
  then show ?thesis
    by (simp only: SendInitialPacketsBeforeAddToMap_def Let_def h1_def [symmetric] v h2 h3 h4 h5 h6 h7 st bindR_Inr prod.case) blast
qed

lemma login_lands:
  assumes "sv_sessions s acc = Some ss"
    and "LoadFromDB (cf_sdb (bk_rules bk)) (cf_idb (bk_rules bk)) (cf_cdb (bk_rules bk)) guid (bk_rows bk acc guid)
      (new_player acc (cr_db (sv_creation s))) = Inr (True, h)"
    and "HandlePlayerLogin bk acc guid s = Inr t"
  shows "sv_sessions t = (sv_sessions s)(acc \<mapsto> ss\<lparr>ss_player := Some (bk_new bk), ss_loading := False\<rparr>)"
    and "ar_guid (rl_arena (sv_realm t)) = (ar_guid (rl_arena (sv_realm s)))(player_guid h \<mapsto> bk_new bk)"
    and "\<exists>k. ar_hero (rl_arena (sv_realm t)) (bk_new bk) = Some k \<and> person k = person (AddToMap h)"
    and "q \<noteq> bk_new bk \<Longrightarrow> map_option person (ar_hero (rl_arena (sv_realm t)) q) =
      map_option person (ar_hero (rl_arena (sv_realm s)) q)"
proof -
  let ?p = "bk_new bk" and ?idb = "cf_idb (bk_rules bk)"
  let ?s1 = "upd_session acc (\<lambda>ss. ss\<lparr>ss_player := Some ?p\<rparr>) s"
  obtain t1 where e: "enter_world bk acc h s = Inr t1" and t: "t = set_loading False acc t1"
    using assms by (auto simp: HandlePlayerLogin_def bindR_eq_Inr)
  obtain h1 where h1: "SendInitialPacketsBeforeAddToMap ?idb (cs_npcs (bk_console bk)) h = Inr h1"
    using e by (auto simp: enter_world_def Let_def bindR_eq_Inr)
  define s2 where "s2 = RegisterPlayer (player_guid h1) ?p (?s1\<lparr>sv_realm := place_player (bk_blank bk) ?p (AddToMap h1) (sv_realm s)\<rparr>)"
  obtain s3 s4 where s3: "in_realm (on_hero ?p (\<lambda>h. Inr (SendInitialPacketsAfterAddToMap h))) s2 = Inr s3"
    and s4: "in_realm (send_motd (bk_motd bk) ?p) s3 = Inr s4" and t1: "UpdateOnlinePlayersFor ?idb ?p s4 = Inr t1"
    using e by (auto simp: enter_world_def Let_def bindR_eq_Inr h1 s2_def)
  have "told (sv_realm s2) (sv_realm s3)"
    using s3 by (auto simp: in_realm_def bindR_eq_Inr intro: on_hero_told)
  moreover have "told (sv_realm s3) (sv_realm s4)"
    using s4 by (auto simp: in_realm_def bindR_eq_Inr send_motd_def intro: foldR_told sys_say_told)
  moreover have "told (sv_realm s4) (sv_realm t1)"
    using t1 by (auto simp: UpdateOnlinePlayersFor_def in_realm_def bindR_eq_Inr intro: foldR_told show_told)
  ultimately have told: "told (sv_realm s2) (sv_realm t1)" by (blast intro: told_trans)
  have sess: "sv_sessions t1 = sv_sessions s2"
    using s3 s4 t1 by (auto simp: in_realm_def UpdateOnlinePlayersFor_def bindR_eq_Inr)
  then show "sv_sessions t = (sv_sessions s)(acc \<mapsto> ss\<lparr>ss_player := Some ?p, ss_loading := False\<rparr>)"
    using assms(1) by (simp add: t set_loading_def s2_def RegisterPlayer_def)
  have m: "mute h1 = mute h" by (rule mute_before [OF h1])
  then have "player_guid h1 = player_guid h" by (simp add: player_guid_def mute_fields [OF m])
  then show "ar_guid (rl_arena (sv_realm t)) = (ar_guid (rl_arena (sv_realm s)))(player_guid h \<mapsto> ?p)"
    using told by (simp add: t set_loading_def told_def s2_def RegisterPlayer_def place_player_def Let_def push_def on_battle_def)
  have "person (AddToMap h1) = person (AddToMap h)" by (simp add: person_def AddToMap_def mute_fields [OF m])
  moreover have "map_option person (ar_hero (rl_arena (sv_realm t)) q) = map_option person (ar_hero (rl_arena (sv_realm s2)) q)" for q
    using told by (simp add: t set_loading_def told_def)
  moreover have "ar_hero (rl_arena (sv_realm s2)) q =
      (if q = ?p then Some (AddToMap h1) else ar_hero (rl_arena (sv_realm s)) q)" for q
    by (simp add: s2_def RegisterPlayer_def place_player_def Let_def push_def on_battle_def)
  ultimately have all: "map_option person (ar_hero (rl_arena (sv_realm t)) q) =
      (if q = ?p then Some (person (AddToMap h)) else map_option person (ar_hero (rl_arena (sv_realm s)) q))" for q
    by simp
  show "\<exists>k. ar_hero (rl_arena (sv_realm t)) ?p = Some k \<and> person k = person (AddToMap h)"
    using all [of ?p] by auto
  show "q \<noteq> ?p \<Longrightarrow> map_option person (ar_hero (rl_arena (sv_realm t)) q) =
      map_option person (ar_hero (rl_arena (sv_realm s)) q)"
    using all [of q] by simp
qed

lemma told_hero:
  assumes "told r r'" and "ar_hero (rl_arena r) q = Some h"
  obtains k where "ar_hero (rl_arena r') q = Some k" "person k = person h"
proof -
  have "map_option person (ar_hero (rl_arena r') q) = Some (person h)" using assms by (simp add: told_def)
  then show ?thesis using that by auto
qed

lemma on_person_total:
  assumes "ar_hero (rl_arena r) p = Some h" and "\<And>k. person k = person h \<Longrightarrow> \<exists>k'. f k = Inr k'"
  shows "\<exists>r'. on_hero p f r = Inr r'"
  using assms(1) assms(2) [of "pull p (rl_arena r) h"] by (auto simp: on_hero_eq)

lemma show_total:
  assumes "ar_hero (rl_arena r) p = Some h" "visible idb h" and "ar_hero (rl_arena r) q = Some k" "visible idb k"
  shows "\<exists>r'. show_each_other idb p q r = Inr r'"
proof -
  let ?h = "pull p (rl_arena r) h" and ?k = "pull q (rl_arena r) k"
  have v: "visible idb ?h" "visible idb ?k" using assms visible_person [OF person_pull] by auto
  obtain op1 fs1 where b1: "BuildUpdateBlockVisibilityForOthersPacket idb ?h = Inr (op1, fs1)"
    using v(1) by (auto simp: visible_def BuildUpdateBlockVisibilityForOthersPacket_def Let_def)
  obtain op2 fs2 where b2: "BuildUpdateBlockVisibilityForOthersPacket idb ?k = Inr (op2, fs2)"
    using v(2) by (auto simp: visible_def BuildUpdateBlockVisibilityForOthersPacket_def Let_def)
  have sess: "h_session k' = h_session h'" if "person k' = person h'" for k' h' using that by (simp add: person_def)
  obtain r1 where r1: "on_hero q (say_must op1 fs1) r = Inr r1"
    using on_person_total [OF assms(3), of "say_must op1 fs1"] assms(4) must_total sess unfolding visible_def by metis
  have t1: "told r r1" by (rule on_hero_told [OF r1]) (rule mute_must)
  obtain h1 where h1: "ar_hero (rl_arena r1) p = Some h1" "person h1 = person h"
    using told_hero [OF t1 assms(1)] by blast
  have s1: "h_session h1" using sess [OF h1(2)] assms(2) by (simp add: visible_def)
  obtain r2 where r2: "on_hero p (say_must op2 fs2) r1 = Inr r2"
    using on_person_total [OF h1(1), of "say_must op2 fs2"] s1 must_total sess by metis
  have "get_hero p (rl_arena r) = Inr ?h" "get_hero q (rl_arena r) = Inr ?k" using assms(1,3) by (auto simp: get_hero_eq)
  then show ?thesis by (simp add: show_each_other_def b1 b2 r1 r2)
qed

lemma foldR_total_told:
  assumes "\<And>x u. x \<in> set xs \<Longrightarrow> told r u \<Longrightarrow> \<exists>v. f x u = Inr v" and "\<And>x u v. f x u = Inr v \<Longrightarrow> told u v"
  shows "\<exists>r'. foldR f xs r = Inr r'"
proof -
  have "told r u \<Longrightarrow> set ys \<subseteq> set xs \<Longrightarrow> \<exists>v. foldR f ys u = Inr v" for ys u
  proof (induction ys arbitrary: u)
    case (Cons y ys)
    obtain v where v: "f y u = Inr v" using assms(1) [of y u] Cons.prems by auto
    have "told r v" using told_trans [OF Cons.prems(1) assms(2) [OF v]] .
    then show ?case using Cons.IH [of v] Cons.prems(2) v by simp
  qed simp
  then show ?thesis by simp
qed

text \<open>Everybody online can be shown.\<close>

definition crowd_ok :: "item_db \<Rightarrow> server \<Rightarrow> bool" where
  "crowd_ok idb s \<longleftrightarrow> (\<forall>(g, q) \<in> set (sv_online s). \<exists>k. ar_hero (rl_arena (sv_realm s)) q = Some k \<and> visible idb k)"

lemma enter_total:
  assumes "presentable (cf_idb (bk_rules bk)) h" and "crowd_ok (cf_idb (bk_rules bk)) s"
  shows "\<exists>t. enter_world bk acc h s = Inr t"
proof -
  let ?p = "bk_new bk" and ?idb = "cf_idb (bk_rules bk)"
  let ?s1 = "upd_session acc (\<lambda>ss. ss\<lparr>ss_player := Some ?p\<rparr>) s"
  obtain h1 where h1: "SendInitialPacketsBeforeAddToMap ?idb (cs_npcs (bk_console bk)) h = Inr h1"
    using before_total [OF assms(1)] by blast
  define s2 where "s2 = RegisterPlayer (player_guid h1) ?p (?s1\<lparr>sv_realm := place_player (bk_blank bk) ?p (AddToMap h1) (sv_realm s)\<rparr>)"
  have m: "mute h1 = mute h" by (rule mute_before [OF h1])
  have vis: "visible ?idb (AddToMap h1)"
  proof -
    obtain ms where "h_session h" "equip_models ?idb (h_inv h) = Inr ms"
      using presentable_visible [OF assms(1)] by (auto simp: visible_def)
    moreover have "slot_models ?idb ks (s\<lparr>inv_inWorld := b\<rparr>) = slot_models ?idb ks s" for ks s b
      by (induction ks) (simp_all add: GetItemByPos_def item_model_def get_item_def)
    ultimately show ?thesis by (simp add: visible_def AddToMap_def equip_models_def mute_fields [OF m])
  qed
  have hero2: "ar_hero (rl_arena (sv_realm s2)) q =
      (if q = ?p then Some (AddToMap h1) else ar_hero (rl_arena (sv_realm s)) q)" for q
    by (simp add: s2_def RegisterPlayer_def place_player_def Let_def push_def on_battle_def)
  have crowd: "\<exists>k. ar_hero (rl_arena (sv_realm s2)) q = Some k \<and> visible ?idb k" if "(g, q) \<in> set (sv_online s2)" for g q
  proof -
    have "(g, q) \<in> set (sv_online s) \<or> q = ?p" using that by (auto simp: s2_def RegisterPlayer_def)
    then show ?thesis using assms(2) vis hero2 [of q] by (auto simp: crowd_ok_def)
  qed
  have "\<exists>r. on_hero ?p (\<lambda>h. Inr (SendInitialPacketsAfterAddToMap h)) (sv_realm s2) = Inr r"
    by (rule on_person_total [where h = "AddToMap h1"]) (simp_all add: hero2)
  then obtain r3 where r3: "on_hero ?p (\<lambda>h. Inr (SendInitialPacketsAfterAddToMap h)) (sv_realm s2) = Inr r3" by blast
  have t3: "told (sv_realm s2) r3" by (rule on_hero_told [OF r3]) auto
  have says: "\<exists>v. sys_say ?p x u = Inr v" if tu: "told r3 u" for x u
  proof -
    have p2: "ar_hero (rl_arena (sv_realm s2)) ?p = Some (AddToMap h1)" by (simp add: hero2)
    obtain k where "ar_hero (rl_arena u) ?p = Some k" by (rule told_hero [OF told_trans [OF t3 tu] p2])
    then show ?thesis unfolding sys_say_def send_to_def by (rule on_person_total) simp
  qed
  obtain r4 where r4: "send_motd (bk_motd bk) ?p r3 = Inr r4"
    unfolding send_motd_def using foldR_total_told [of _ r3 "sys_say ?p"] says sys_say_told by metis
  have t4: "told (sv_realm s2) r4"
    using told_trans [OF t3 foldR_told [OF r4 [unfolded send_motd_def] sys_say_told]] .
  have seen: "\<exists>v. show_each_other ?idb ?p q u = Inr v" if gq: "(g, q) \<in> set (sv_online s2)" and later: "told r4 u" for g q u
  proof -
    have tu: "told (sv_realm s2) u" by (rule told_trans [OF t4 later])
    have p2: "ar_hero (rl_arena (sv_realm s2)) ?p = Some (AddToMap h1)" by (simp add: hero2)
    obtain h where h: "ar_hero (rl_arena u) ?p = Some h" "person h = person (AddToMap h1)" by (rule told_hero [OF tu p2])
    obtain k0 where k0: "ar_hero (rl_arena (sv_realm s2)) q = Some k0" "visible ?idb k0" using crowd [OF gq] by blast
    obtain k where k: "ar_hero (rl_arena u) q = Some k" "person k = person k0" using told_hero [OF tu k0(1)] by blast
    show ?thesis using show_total [OF h(1) _ k(1)] visible_person h(2) k(2) vis k0(2) by metis
  qed
  have "\<exists>r5. foldR (\<lambda>(_, q). show_each_other ?idb ?p q) (sv_online s2) r4 = Inr r5"
  proof (rule foldR_total_told)
    show "\<exists>v. (case x of (_, q) \<Rightarrow> show_each_other ?idb ?p q) u = Inr v" if "x \<in> set (sv_online s2)" "told r4 u" for x u
      unfolding split_beta by (rule seen [of "fst x"]) (simp_all add: that)
    show "told u v" if "(case x of (_, q) \<Rightarrow> show_each_other ?idb ?p q) u = Inr v" for x u v
      using that unfolding split_beta by (rule show_told)
  qed
  then obtain r5 where r5: "foldR (\<lambda>(_, q). show_each_other ?idb ?p q) (sv_online s2) r4 = Inr r5" by blast
  have s2: "RegisterPlayer (player_guid h1) ?p (?s1\<lparr>sv_realm := place_player (bk_blank bk) ?p (AddToMap h1) (sv_realm ?s1)\<rparr>) = s2"
    by (simp add: s2_def)
  have "enter_world bk acc h s = Inr (s2\<lparr>sv_realm := r3, sv_realm := r4, sv_realm := r5\<rparr>)"
    by (simp add: enter_world_def Let_def h1 s2 in_realm_def UpdateOnlinePlayersFor_def r3 r4 r5 del: upd_session_simps)
  then show ?thesis by blast
qed

text \<open>A login that the database answers, with items and pets that have templates and a crowd that can be shown, ends with the player in the world: its session has it and is no longer
  loading, its guid finds it, it is on the map and at the place of its row, in the account of the session, and all
  other players are what they were.
\<close>

theorem login_enters_world:
  assumes "sv_sessions s acc = Some ss"
    and "LoadFromDB (cf_sdb (bk_rules bk)) (cf_idb (bk_rules bk)) (cf_cdb (bk_rules bk)) guid (bk_rows bk acc guid)
      (new_player acc (cr_db (sv_creation s))) = Inr (True, h)"
    and "presentable (cf_idb (bk_rules bk)) h" and "crowd_ok (cf_idb (bk_rules bk)) s"
  shows "\<exists>t k. HandlePlayerLogin bk acc guid s = Inr t \<and>
    sv_sessions t = (sv_sessions s)(acc \<mapsto> ss\<lparr>ss_player := Some (bk_new bk), ss_loading := False\<rparr>) \<and>
    ar_guid (rl_arena (sv_realm t)) = (ar_guid (rl_arena (sv_realm s)))(player_guid h \<mapsto> bk_new bk) \<and>
    ar_hero (rl_arena (sv_realm t)) (bk_new bk) = Some k \<and> person k = person (AddToMap h) \<and>
    (\<forall>q. q \<noteq> bk_new bk \<longrightarrow> map_option person (ar_hero (rl_arena (sv_realm t)) q) =
      map_option person (ar_hero (rl_arena (sv_realm s)) q))"
proof -
  obtain t1 where "enter_world bk acc h s = Inr t1" using enter_total [OF assms(3,4)] by blast
  then have t: "HandlePlayerLogin bk acc guid s = Inr (set_loading False acc t1)"
    using assms(1,2) by (simp add: HandlePlayerLogin_def)
  show ?thesis using t login_lands [OF assms(1,2) t] by blast
qed

lemma bare_mods:
  assumes "inv_slots (h_inv h) = replicate PLAYER_SLOTS_COUNT None" and "h_pets h = replicate MAX_PET_SLOT None"
  shows "ApplyAllItemMods idb h = Inr (h\<lparr>h_unit := refresh_set (h_unit h)\<rparr>)"
proof -
  have "foldR (\<lambda>e h1. bindR (GetItemByPos e (h_inv h1)) (\<lambda>item. apply_worn idb Self item h1)) es h = Inr h"
    if "\<forall>e \<in> set es. e < PLAYER_SLOTS_COUNT" for es
    using that by (induction es) (simp_all add: GetItemByPos_def assms(1) apply_worn_def)
  moreover have "foldR (apply_pet_mods idb) es k = Inr k" if "\<forall>e \<in> set es. e < MAX_PET_SLOT" "h_pets k = h_pets h" for es k
    using that by (induction es) (simp_all add: GetPet_def assms(2) apply_pet_mods_def)
  ultimately show ?thesis by (simp add: ApplyAllItemMods_def upd_wearer_def del: upt_Suc upt_rec_numeral)
qed

text \<open>A character that has nothing yet.\<close>

lemma bare_login:
  assumes "lq_char q = Some c" "lq_pets q = None" "lq_inv q = None" "lq_spells q = None"
    and "length (cq_data c) = PLAYER_END"
  shows "\<exists>h. LoadFromDB sdb idb cdb guid q (new_player (cq_account c) db) = Inr (True, h) \<and> presentable idb h \<and>
    player_guid h = MAKE_GUID guid HIGHGUID_PLAYER \<and> h_map h = cq_map c \<and> h_x h = cq_x c \<and> h_y h = cq_y c"
proof -
  let ?n = "new_player (cq_account c) db"
  obtain u where u: "load_values (cq_data c) (h_unit (create_object guid ?n)) = Some u" using assms(5) by (simp add: load_values_def)
  define v where "v = uset64 OBJECT_FIELD_GUID (MAKE_GUID guid HIGHGUID_PLAYER) (fold (\<lambda>i. uset i 0) all_mod_fields u)"
  define h1 where "h1 = ?n\<lparr>h_unit := v, h_inv := (h_inv ?n)\<lparr>inv_guid := MAKE_GUID guid HIGHGUID_PLAYER\<rparr>\<rparr>"
  define h2 where "h2 = h1\<lparr>h_name := cq_name c, h_x := cq_x c, h_y := cq_y c, h_map := cq_map c\<rparr>"
  have slots: "inv_slots (h_inv h1) = replicate PLAYER_SLOTS_COUNT None" "inv_slots (h_inv h2) = replicate PLAYER_SLOTS_COUNT None"
    "h_pets h2 = replicate MAX_PET_SLOT None" by (simp_all add: h1_def h2_def new_player_def)
  have "foldR drop_equipped es (h_inv h1) = Inr (h_inv h1)" if "\<forall>e \<in> set es. e < PLAYER_SLOTS_COUNT" for es
    using that by (induction es) (simp_all add: drop_equipped_def GetItemByPos_def slots(1))
  then have drop: "on_inv (foldR drop_equipped [0..<EQUIPMENT_SLOT_END]) h1 = Inr h1"
    by (simp add: on_inv_def del: upt_Suc upt_rec_numeral)
  define h4 where "h4 = h2\<lparr>h_unit := refresh_set (h_unit h2)\<rparr>"
  have inv: "LoadInventory idb None h2 = Inr h4" using bare_mods [OF slots(2,3)] by (simp add: LoadInventory_def h4_def)
  have acc: "h_account ?n = cq_account c" by (simp add: new_player_def)
  have start: "?n\<lparr>h_unit := uset64 0 (MAKE_GUID guid 0) (fold (\<lambda>i. uset i 0) all_mod_fields u),
      h_inv := (h_inv ?n)\<lparr>inv_guid := MAKE_GUID guid 0\<rparr>\<rparr> = h1" by (simp add: h1_def v_def)
  let ?k = "h4\<lparr>h_unit := rise ((h_unit h4)\<lparr>u_spells := []\<rparr>)\<rparr>"
  have run: "LoadFromDB sdb idb cdb guid q ?n = Inr (True, ?k)"
    using drop inv
    by (simp add: LoadFromDB_def Let_def assms(1-4) u acc start h2_def [symmetric] LoadPets_def LoadSpells_def)
  have "h_session ?k" "inv_slots (h_inv ?k) = replicate PLAYER_SLOTS_COUNT None" "h_pets ?k = replicate MAX_PET_SLOT None"
    "h_battlePet ?k = None" by (simp_all add: h4_def h2_def h1_def new_player_def)
  moreover have "carried_fields idb ks ?k = Inr []" if "\<forall>k \<in> set ks. k < MAX_PET_SLOT" for ks
    using that \<open>h_pets ?k = _\<close> by (induction ks) (simp_all add: GetPet_def)
  ultimately have "presentable idb ?k" by (simp add: presentable_def del: upt_Suc upt_rec_numeral)
  then show ?thesis using run by (intro exI [of _ ?k]) (simp add: player_guid_def h4_def h2_def h1_def)
qed

subsection \<open>An example\<close>

text \<open>A server with two players of nobody, and account 7 with a character that may log in.\<close>

definition front_desk :: backend where
  "front_desk = \<lparr>bk_rules = idle_rules, bk_console = clerk, bk_item_name = (\<lambda>_. []), bk_edit = (\<lambda>_ _. Inr), bk_edit_words = (\<lambda>_ _. 0),
     bk_guid = [7 \<mapsto> 1],
     bk_rows = (\<lambda>_ _. \<lparr>lq_char = Some \<lparr>cq_account = 7, cq_data = replicate PLAYER_END 0, cq_name = [97], cq_map = 10, cq_x = 5, cq_y = 6\<rparr>,
       lq_pets = None, lq_pet = (\<lambda>_. None), lq_inv = None, lq_spells = None\<rparr>),
     bk_taken = (\<lambda>_. False), bk_motd = [104, 105], bk_new = 3, bk_blank = resting, bk_account = (\<lambda>_. None), bk_junk_out = False,
     bk_junk_pos = (0, 0), bk_group = (\<lambda>_ _. Inr), bk_leave_team = (\<lambda>_. Inr)\<rparr>"

definition lobby :: server where
  "lobby = \<lparr>sv_realm = pair_realm, sv_sessions = [7 \<mapsto> new_session 0], sv_pending = [], sv_online = [],
     sv_creation = \<lparr>cr_name = [], cr_counter = 0, cr_cache = (\<lambda>_. None), cr_db = sample_hero, cr_out = [], cr_passwords = None\<rparr>, sv_saved = (\<lambda>_. None)\<rparr>"

lemma lobby_session: "sv_sessions lobby 7 = Some (new_session 0)" "ss_queue (new_session k) = []" "ss_player (new_session k) = None"
  by (simp_all add: lobby_def new_session_def)

theorem login_leaves_ghost_witness:
  "\<exists>t u. handle_packet front_desk 7 (1, packet_with ([FU8 0, FU32 8, FU32 0] @ str_fields [])) lobby = Inr t \<and> sv_pending t = [] \<and>
    server_step front_desk (Disconnected 7) t = Inr u \<and> server_step front_desk (Session_tick 7) u = Inr u"
proof -
  let ?fs = "[FU8 0, FU32 8, FU32 0] @ str_fields []"
  have "9 \<le> bb_size (packet_with ?fs)" using holds_size [OF packet_with_holds(1) [of ?fs]]
    by (simp add: wire_u8.enc_width wire_u32.enc_width)
  then have "9 + unat (0 :: u8) \<le> bb_size (packet_with ?fs)" by simp
  from login_leaves_ghost [OF lobby_session(1,2) packet_with_holds(1) this, of front_desk]
  show ?thesis by (auto simp: front_desk_def lobby_def)
qed

theorem packet_before_login_witness:
  "server_step front_desk (Session_tick 7) (lobby\<lparr>sv_sessions := [7 \<mapsto> (new_session 0)\<lparr>ss_queue := [(12, packet_with [FU8 1])]\<rparr>]\<rparr>) =
    Inl NullDeref"
proof -
  have "1 \<le> bb_size (packet_with [FU8 1])" using holds_size [OF packet_with_holds(1) [of "[FU8 1]"]]
    by (simp add: wire_u8.enc_width)
  then show ?thesis
    by (intro packet_before_login [where n = 1]) (auto simp: new_session_def eager_def)
qed

lemma lobby_load:
  "\<exists>h. LoadFromDB (cf_sdb (bk_rules front_desk)) (cf_idb (bk_rules front_desk)) (cf_cdb (bk_rules front_desk)) 1
      (bk_rows front_desk 7 1) (new_player 7 (cr_db (sv_creation lobby))) = Inr (True, h) \<and>
    presentable (cf_idb (bk_rules front_desk)) h \<and> player_guid h = MAKE_GUID 1 HIGHGUID_PLAYER \<and> h_map h = 10"
  using bare_login [of "bk_rows front_desk 7 1" "the (lq_char (bk_rows front_desk 7 1))" "cf_sdb (bk_rules front_desk)"
      "cf_idb (bk_rules front_desk)" "cf_cdb (bk_rules front_desk)" 1 "cr_db (sv_creation lobby)"]
  by (auto simp: front_desk_def)

theorem login_enters_world_witness:
  "\<exists>t k. HandlePlayerLogin front_desk 7 1 lobby = Inr t \<and> map_option ss_player (sv_sessions t 7) = Some (Some 3) \<and>
    ar_guid (rl_arena (sv_realm t)) (MAKE_GUID 1 HIGHGUID_PLAYER) = Some 3 \<and> ar_hero (rl_arena (sv_realm t)) 3 = Some k \<and> h_map k = 10"
proof -
  obtain h where h: "LoadFromDB (cf_sdb (bk_rules front_desk)) (cf_idb (bk_rules front_desk)) (cf_cdb (bk_rules front_desk)) 1
      (bk_rows front_desk 7 1) (new_player 7 (cr_db (sv_creation lobby))) = Inr (True, h)"
    "presentable (cf_idb (bk_rules front_desk)) h" "player_guid h = MAKE_GUID 1 HIGHGUID_PLAYER" "h_map h = 10"
    using lobby_load by blast
  have "crowd_ok (cf_idb (bk_rules front_desk)) lobby" by (simp add: crowd_ok_def lobby_def)
  moreover have "bk_new front_desk = 3" by (simp add: front_desk_def)
  ultimately show ?thesis using login_enters_world [OF lobby_session(1) h(1,2)] h(3,4)
    by (auto simp: person_def AddToMap_def)
qed

end
