(* ===== verification/Spec2Isabelle.thy ===== *)
theory Spec2Isabelle
  imports WorldSocket Experience TeamInvariant Trading ActionPackets FightPackets LoadFacts CreationFacts TeamTravel LevelFacts
    VendorFacts ChatFacts SessionFacts
begin

text \<open>
  A model of the game server of this repository (\<open>src/src/game\<close> and the parts of \<open>src/src/shared\<close> it is
  built on) and the theorems about it.

  The server talks to its clients over a socket in obfuscated packets, keeps every player in memory as a
  vector of 32 bit fields with an inventory, pets, spells and a team around it, lets players fight on a
  field of 4 by 5 cells in turns, and writes all of it to a database. The theories follow these parts.

  \<^bold>\<open>Conventions.\<close> An operation of the code is a function of the same name; a helper in lower case is a loop
  or a part of the operation named at it. Integers are words of their C width and wrap. An operation that
  may fault returns \<open>fault + 'a\<close>: a failed \<open>ASSERT\<close>, an access outside an array, through a null pointer or to
  a deleted object, a division by zero or a conversion to 32 bits out of range. A product of \<open>GetHPMax\<close> or
  \<open>GetSPMax\<close> that does not fit 16 bits keeps its low ones, as compilers for x86 convert it; C++ leaves that
  undefined as well, so a login is only promised anything for powers that fit (\<open>powers_fit\<close>). Where C++ is silent (a read behind an
  array) the model faults. Pointers are numbers into a heap of the theory that needs aliasing (items, pets,
  players, units of a battle). Templates that come from the database (spells, items, creatures) are
  arguments. Messages are recorded as audience, opcode and fields.

  \<^bold>\<open>Wire format.\<close> \<open>Encoding\<close> (\<open>Encoding.h\<close>), \<open>ByteBuffer\<close> (\<open>ByteBuffer.h\<close>), \<open>WorldPacket\<close> (\<open>WorldPacket.h\<close>) and
  \<open>WorldSocket\<close> (\<open>WorldSocket.cpp\<close>, \<open>WorldSession.cpp\<close>): scalars are obfuscated byte by byte, appended to
  a buffer, framed with a header whose length is filled in at the end, and cut out of the stream again.
  \<open>Messages\<close> holds the fields of messages and the reading of packets. Scalars of every width satisfy one
  contract, the locale \<open>wire_codec\<close>. The lemmas show that what is written is read back, that a packet is the
  frame of the protocol, that the chunks a stream arrives in do not matter as long as each fits what is left of
  the input buffer of 16400 bytes, which drops a chunk that does not, and that packets within that bound pass through
  the socket complete and in order. \<open>OnRead\<close> is a recursive function whose measure is the number of bytes in
  the input buffer and the step of the header it is in; its termination is proved.

  \<^bold>\<open>Helpers.\<close> \<open>Util\<close> (\<open>Util.cpp\<close>): tokens, stripping, durations, both random number generators (in the
  arithmetic of the code, with the state as an argument). \<open>Floats\<close>: \<open>float\<close> and \<open>double\<close> as rational numbers with
  rounding to 24 and 53 bits; overflow and denormals do not occur in the ranges of the formulas.
  \<open>ObjectValues\<close> (\<open>Object.cpp\<close>) is the vector of fields with its assertions, an instance of the locale
  \<open>field_store\<close>; \<open>UpdateFields\<close> holds the indices.

  \<^bold>\<open>Units.\<close> \<open>Unit\<close> (status bits and their counters), \<open>Spells\<close> (spell book, maxima and powers) and \<open>Experience\<close>
  (levels). A unit abstracts the vector of fields to a function; the steps of its status are an inductive
  relation, and the invariant that ties status bits to running counters is proved by rule induction. The
  level loop terminates for every table of costs, by a measure on the remaining levels.

  \<^bold>\<open>Battle.\<close> \<open>BattleGrid\<close> (the field), \<open>ParseSpell\<close> (areas of spells), \<open>Damage\<close> (formulas) and \<open>BattleActions\<close>
  (collecting, sorting, grouping and redirecting the actions of a turn), all of \<open>BattleSystem.cpp\<close>. The
  field is the flat array of 20 cells the code indexes, so an index past a row reads the next one and an
  index past the field faults. The lemmas give the cells each hit type reaches, bounds of the damage, and
  that the groups of a turn are a permutation of its actions.

  \<^bold>\<open>Players.\<close> \<open>Items\<close> (update states and the update queue of \<open>Item.cpp\<close>, \<open>_SaveInventory\<close>), \<open>Inventory\<close> (slots,
  storing, merging, destroying), \<open>Hero\<close> (the whole player), \<open>PlayerPackets\<close> (update messages), \<open>Equipment\<close>
  (modifiers and item sets), \<open>Pets\<close>, \<open>Wearing\<close> (putting on, taking off, using up), \<open>ItemHandler\<close> (the item
  packets), \<open>Saving\<close> (\<open>SaveToDB\<close>, \<open>_SaveSpells\<close>, \<open>_LoadSpells\<close>). The contract of an inventory is a bag that maps
  slots to an entry and a count: \<open>InventoryRefinement\<close> proves that adding, destroying and saving refine the
  operations on it, under the invariant \<open>inv_ok\<close>, and \<open>Trading\<close> uses the refinement for the packets that
  buy, sell and use up items. The bound of 32767 on the update queue in these lemmas is the range of the
  16 bit position an item keeps; the bound on the guid counter is where the code stops the server.
  \<open>Loading\<close> is the way back (\<open>LoadFromDB\<close>, \<open>_LoadInventory\<close>, \<open>_LoadPet\<close>): \<open>LoadedBag\<close> proves that the rows of the
  table refine, one by one, a bag that is filled, \<open>LoadFacts\<close> what a saved player gets back and what not.
  All statements of a save are one transaction. Its first row holds the name as the client chose it, between quotes,
  so what the database makes of it is a field of the player (\<open>h_insert\<close>): it stores plain names
  (\<open>takes_plain\<close>), and a refusal undoes the whole save.
  \<open>Creation\<close> is the packet that makes a character and its first save, \<open>Growth\<close> the packets that spend points;
  \<open>CreationFacts\<close> and \<open>GrowthFacts\<close> read them from the bytes and follow them into the table.

  \<^bold>\<open>Teams.\<close> \<open>Team\<close> (\<open>GroupHandler.cpp\<close> and the team operations of \<open>Player.cpp\<close>) and \<open>TeamInvariant\<close>: a world of
  players on a heap with pointers between them, the packets and logouts as an inductive relation of steps,
  and the invariant that team lists and leader fields agree.

  \<^bold>\<open>Fights.\<close> A battle with its players is an \<open>arena\<close> (\<open>Arena\<close>): the field, the players and pets whose units stand
  on it, and the messages. An operation of a player runs on the player with the units of the field put into
  it and puts them back, since in the code they are the same objects. \<open>BattleRewards\<close> is experience, drops and
  their delivery, \<open>BattleTurn\<close> the block of a hit, catching, escaping and leaving, \<open>BattleRound\<close> the tick of a
  battle up to its end, \<open>BattleStart\<close> how both sides get on the field, \<open>BattleHandlers\<close> the packets
  (\<open>CombatHandler.cpp\<close>, \<open>PetHandler.cpp\<close>). What these operations change of an arena is a few elementary
  steps: the locales \<open>quiet_inv\<close>, \<open>turn_inv\<close>, \<open>battle_inv\<close> and \<open>engage_inv\<close> of \<open>ArenaFrame\<close> assume that a
  property survives them and conclude that every operation keeps it. \<open>BattleSession\<close> instantiates them with
  the invariant of the references between a master, its players and the list, and proves it over all runs of
  packets, ticks and logouts from the start of one battle. That a member which is not the master starts a second
  battle is no step of these runs: \<open>Player::Engage\<close> allows it, since it only looks for a battle of the player's own, and
  the list of the first battle keeps a player that names another master, which its destructor does not take out. \<open>DuelStart\<close> shows that two players without a team always get their
  battle, \<open>FightPackets\<close> reads that challenge and the choice of an action from the bytes of their packets, and
  \<open>ActionPackets\<close> cuts the packet of a group into its blocks again. \<open>BattleProgress\<close> proves that a round and the
  wait for actions end: the measure is the sum of the clocks, a bound on the animations of the drops and
  actions left, and the actions themselves; 220 is the time-out in ticks.
  \<open>RoundFacts\<close> says when a battle is decided and how many actions the next round waits for.

  \<^bold>\<open>The world.\<close> A \<open>realm\<close> (\<open>Travel\<close>) is the arena with what players keep outside of battles, the doors, and the
  creatures that can be talked to with their goods. \<open>Travel\<close> (\<open>MovementHandler.cpp\<close>, \<open>CharacterHandler.cpp\<close>,
  \<open>TeleportTo\<close> and \<open>SendMapChanged\<close> of \<open>Player.cpp\<close>) moves a player and its team; these two call themselves for
  every member, with a bound on the depth of the calls: two is enough for the teams of the invariant, since no
  member leads a team. \<open>Dialogs\<close> (\<open>GossipDef.cpp\<close>, \<open>NPCHandler.cpp\<close>, \<open>Creature.cpp\<close>, the scripts of
  \<open>bindings/amachi\<close>) is the talk with creatures and the goods of vendors. \<open>Chat\<close> (\<open>Chat.cpp\<close>) is the table of commands
  and the search in it, over any state, \<open>Commands\<close> (\<open>Level0.cpp\<close> to \<open>Level3.cpp\<close>, \<open>ChatHandler.cpp\<close>) what the
  commands do and the chat packet. \<open>TravelFacts\<close> and \<open>TeamTravel\<close> show that teams stay together and that doors lead
  where they should, as an inductive relation of steps with its invariant; a click that starts a battle is not among
  these steps, it belongs to the runs of \<open>BattleSession\<close>. \<open>CommandFacts\<close> shows who can run which command,
  \<open>LevelFacts\<close>, \<open>VendorFacts\<close> and \<open>ChatFacts\<close> what becomes of levels, of the goods of vendors and of a line.

  \<^bold>\<open>Sessions.\<close> \<open>Sessions\<close> (\<open>WorldSession.cpp\<close>, the login of \<open>CharacterHandler.cpp\<close>, \<open>World.cpp\<close>) puts the realm into a
  server: sessions by account with their queues of packets, the table of opcodes, logins that wait for the
  answer of the database, and the end of a session, which saves its player. \<open>SessionFacts\<close> shows that an
  answered login ends in the world, and what a packet before a login and a login for another account do. The
  packets of teams, which \<open>Team\<close> models on its own heap, are an argument there.

  \<^bold>\<open>Not modelled.\<close> The vendored libraries, the database and its asynchronous queries, configuration, logs, the
  loop of the world and the threads: they are calls of libraries or input and output. Maps and grids and the
  movement of creatures: they decide who is near whom; the model records the
  audience of a message instead. The three commands that add, delete and edit creatures of a map are an argument of
  the dispatch.
\<close>

end
